(* ===== verification/Prelude.thy ===== *)
theory Prelude
  imports Main "HOL-Library.Char_ord" "HOL-Library.List_Lexorder"
begin

text \<open>
  The part of the Rust standard library that the modelled crates use, as total executable
  functions, and the facts about it that every component shares.

  A Rust \<open>str\<close> is its UTF-8 byte sequence, a \<open>string\<close> of HOL whose characters are bytes: lengths,
  ASCII searches and ASCII case mapping are byte operations in Rust too. Unicode \<open>White_Space\<close>
  (what \<open>str::trim\<close> and \<open>char::is_whitespace\<close> look for) is the list of its UTF-8 encodings.
  \<open>Result\<open>T, E\<close>\<close> is the sum \<open>'e + 'a\<close> with \<open>Inl\<close> for \<open>Err\<close>. A \<open>BTreeMap\<close> is the list of its
  entries in key order.
\<close>

named_theorems res_simps \<open>equations of the result type\<close>
named_theorems str_simps \<open>equations of the string operations\<close>
named_theorems str_intros \<open>closure facts of the string operations\<close>

section \<open>Results\<close>

type_synonym ('e, 'a) result = "'e + 'a"

fun res_bind :: "('e, 'a) result \<Rightarrow> ('a \<Rightarrow> ('e, 'b) result) \<Rightarrow> ('e, 'b) result" where
  "res_bind (Inl e) f = Inl e"
| "res_bind (Inr a) f = f a"

fun map_err :: "('e \<Rightarrow> 'f) \<Rightarrow> ('e, 'a) result \<Rightarrow> ('f, 'a) result" where
  "map_err f (Inl e) = Inl (f e)"
| "map_err f (Inr a) = Inr a"

definition ok_or :: "'e \<Rightarrow> 'a option \<Rightarrow> ('e, 'a) result" where
  "ok_or e x = (case x of None \<Rightarrow> Inl e | Some a \<Rightarrow> Inr a)"

text \<open>A sequence of fallible checks joined by the question-mark operator: the first error wins.\<close>

fun first_error :: "('e, unit) result list \<Rightarrow> ('e, unit) result" where
  "first_error [] = Inr ()"
| "first_error (Inl e # rs) = Inl e"
| "first_error (Inr u # rs) = first_error rs"

lemma res_bind_eq_Inr [res_simps]:
  "res_bind r f = Inr b \<longleftrightarrow> (\<exists>a. r = Inr a \<and> f a = Inr b)"
  by (cases r) auto

lemma res_bind_eq_Inl [res_simps]:
  "res_bind r f = Inl e \<longleftrightarrow> r = Inl e \<or> (\<exists>a. r = Inr a \<and> f a = Inl e)"
  by (cases r) auto

lemma map_err_eq_Inr [res_simps]: "map_err f r = Inr a \<longleftrightarrow> r = Inr a"
  by (cases r) auto

lemma map_err_eq_Inl [res_simps]: "map_err f r = Inl e \<longleftrightarrow> (\<exists>d. r = Inl d \<and> e = f d)"
  by (cases r) auto

lemma first_error_ok [res_simps]: "first_error rs = Inr u \<longleftrightarrow> (\<forall>r \<in> set rs. r = Inr ())"
  by (induction rs rule: first_error.induct) auto

lemma first_error_append [res_simps]:
  "first_error (xs @ ys) = res_bind (first_error xs) (\<lambda>_. first_error ys)"
  by (induction xs rule: first_error.induct) auto

lemma first_error_in: "first_error rs = Inl e \<Longrightarrow> Inl e \<in> set rs"
  by (induction rs rule: first_error.induct) auto

section \<open>Bytes and ASCII\<close>

definition byte :: "char \<Rightarrow> nat" where
  "byte c = of_char c"

definition newline :: char where
  "newline = CHR 0x0A"

definition carriage_return :: char where
  "carriage_return = CHR 0x0D"

definition ascii_lower :: "char \<Rightarrow> char" where
  "ascii_lower c = (if 65 \<le> byte c \<and> byte c \<le> 90 then char_of (byte c + 32) else c)"

definition to_ascii_lowercase :: "string \<Rightarrow> string" where
  "to_ascii_lowercase s = map ascii_lower s"

definition eq_ignore_ascii_case :: "string \<Rightarrow> string \<Rightarrow> bool" where
  "eq_ignore_ascii_case a b \<longleftrightarrow> to_ascii_lowercase a = to_ascii_lowercase b"

definition is_ascii_digit :: "char \<Rightarrow> bool" where
  "is_ascii_digit c \<longleftrightarrow> 48 \<le> byte c \<and> byte c \<le> 57"

definition is_ascii_alphanumeric :: "char \<Rightarrow> bool" where
  "is_ascii_alphanumeric c \<longleftrightarrow>
     is_ascii_digit c \<or> 65 \<le> byte c \<and> byte c \<le> 90 \<or> 97 \<le> byte c \<and> byte c \<le> 122"

lemma byte_char_of [simp]: "byte (char_of n) = n mod 256"
  by (simp add: byte_def)

lemma byte_inject [simp]: "byte c = byte d \<longleftrightarrow> c = d"
  by (simp add: byte_def)

lemma ascii_lower_idem [simp]: "ascii_lower (ascii_lower c) = ascii_lower c"
  by (auto simp: ascii_lower_def)

lemma to_ascii_lowercase_idem [simp]:
  "to_ascii_lowercase (to_ascii_lowercase s) = to_ascii_lowercase s"
  by (simp add: to_ascii_lowercase_def)

lemma to_ascii_lowercase_append [simp]:
  "to_ascii_lowercase (a @ b) = to_ascii_lowercase a @ to_ascii_lowercase b"
  by (simp add: to_ascii_lowercase_def)

lemma eq_ignore_refl [simp]: "eq_ignore_ascii_case a a"
  by (simp add: eq_ignore_ascii_case_def)

lemma eq_ignore_sym: "eq_ignore_ascii_case a b \<Longrightarrow> eq_ignore_ascii_case b a"
  by (simp add: eq_ignore_ascii_case_def)

lemma eq_ignore_trans:
  "eq_ignore_ascii_case a b \<Longrightarrow> eq_ignore_ascii_case b c \<Longrightarrow> eq_ignore_ascii_case a c"
  by (simp add: eq_ignore_ascii_case_def)

lemma eq_ignore_lower [simp]: "eq_ignore_ascii_case (to_ascii_lowercase a) b = eq_ignore_ascii_case a b"
  by (simp add: eq_ignore_ascii_case_def)

section \<open>White space\<close>

text \<open>
  The 25 characters with the Unicode property \<open>White_Space\<close> in UTF-8: U+0009 to U+000D, U+0020,
  U+0085, U+00A0, U+1680, U+2000 to U+200A, U+2028, U+2029, U+202F, U+205F and U+3000.
\<close>

definition ws_tokens :: "string list" where
  "ws_tokens =
     [[CHR 0x20], [CHR 0x09], [CHR 0x0A], [CHR 0x0B], [CHR 0x0C], [CHR 0x0D],
      [CHR 0xC2, CHR 0x85], [CHR 0xC2, CHR 0xA0], [CHR 0xE1, CHR 0x9A, CHR 0x80],
      [CHR 0xE2, CHR 0x80, CHR 0x80], [CHR 0xE2, CHR 0x80, CHR 0x81],
      [CHR 0xE2, CHR 0x80, CHR 0x82], [CHR 0xE2, CHR 0x80, CHR 0x83],
      [CHR 0xE2, CHR 0x80, CHR 0x84], [CHR 0xE2, CHR 0x80, CHR 0x85],
      [CHR 0xE2, CHR 0x80, CHR 0x86], [CHR 0xE2, CHR 0x80, CHR 0x87],
      [CHR 0xE2, CHR 0x80, CHR 0x88], [CHR 0xE2, CHR 0x80, CHR 0x89],
      [CHR 0xE2, CHR 0x80, CHR 0x8A], [CHR 0xE2, CHR 0x80, CHR 0xA8],
      [CHR 0xE2, CHR 0x80, CHR 0xA9], [CHR 0xE2, CHR 0x80, CHR 0xAF],
      [CHR 0xE2, CHR 0x81, CHR 0x9F], [CHR 0xE3, CHR 0x80, CHR 0x80]]"

definition starts_with :: "string \<Rightarrow> string \<Rightarrow> bool" where
  "starts_with t s \<longleftrightarrow> take (length t) s = t"

text \<open>The length of the first token that begins \<open>s\<close>, zero when none does.\<close>

fun token_len :: "string list \<Rightarrow> string \<Rightarrow> nat" where
  "token_len [] s = 0"
| "token_len (t # ts) s = (if t \<noteq> [] \<and> starts_with t s then length t else token_len ts s)"

lemma token_len_le: "token_len ts s \<le> length s"
  by (induction ts s rule: token_len.induct)
     (auto simp: starts_with_def, metis length_take min.cobounded1)

lemma token_len_Nil [simp]: "token_len ts [] = 0"
  using token_len_le[of ts "[]"] by simp

function strip_tokens :: "string list \<Rightarrow> string \<Rightarrow> string" where
  "strip_tokens ts s =
     (if token_len ts s = 0 then s else strip_tokens ts (drop (token_len ts s) s))"
  by pat_completeness auto
termination
  by (relation "measure (\<lambda>(ts, s). length s)")
     (auto, metis diff_less length_greater_0_conv token_len_Nil neq0_conv)

declare strip_tokens.simps [simp del]

definition trim_start :: "string \<Rightarrow> string" where
  "trim_start s = strip_tokens ws_tokens s"

definition trim_end :: "string \<Rightarrow> string" where
  "trim_end s = rev (strip_tokens (map rev ws_tokens) (rev s))"

definition trim :: "string \<Rightarrow> string" where
  "trim s = trim_end (trim_start s)"

fun contains_whitespace :: "string \<Rightarrow> bool" where
  "contains_whitespace [] = False"
| "contains_whitespace (c # cs) = (token_len ws_tokens (c # cs) \<noteq> 0 \<or> contains_whitespace cs)"

text \<open>The bytes before the first white-space character.\<close>

fun until_whitespace :: "string \<Rightarrow> string" where
  "until_whitespace [] = []"
| "until_whitespace (c # cs) =
     (if token_len ws_tokens (c # cs) \<noteq> 0 then [] else c # until_whitespace cs)"

text \<open>\<open>split_whitespace().next()\<close>.\<close>

definition first_word :: "string \<Rightarrow> string option" where
  "first_word s = (let w = until_whitespace (trim_start s) in if w = [] then None else Some w)"

section \<open>Splitting and searching\<close>

fun split_on :: "(char \<Rightarrow> bool) \<Rightarrow> string \<Rightarrow> string list" where
  "split_on p [] = [[]]"
| "split_on p (c # cs) =
     (if p c then [] # split_on p cs
      else (case split_on p cs of [] \<Rightarrow> [[c]] | w # ws \<Rightarrow> (c # w) # ws))"

lemma split_on_not_Nil [simp]: "split_on p s \<noteq> []"
  by (cases s) (auto split: list.splits)

fun split_once :: "char \<Rightarrow> string \<Rightarrow> (string \<times> string) option" where
  "split_once d [] = None"
| "split_once d (c # cs) =
     (if c = d then Some ([], cs)
      else map_option (\<lambda>(a, b). (c # a, b)) (split_once d cs))"

definition strip_prefix :: "string \<Rightarrow> string \<Rightarrow> string option" where
  "strip_prefix p s = (if starts_with p s then Some (drop (length p) s) else None)"

definition ends_with :: "string \<Rightarrow> string \<Rightarrow> bool" where
  "ends_with t s \<longleftrightarrow> starts_with (rev t) (rev s)"

definition strip_suffix :: "string \<Rightarrow> string \<Rightarrow> string option" where
  "strip_suffix t s = (if ends_with t s then Some (take (length s - length t) s) else None)"

fun split_inclusive :: "string \<Rightarrow> string list" where
  "split_inclusive [] = []"
| "split_inclusive (c # cs) =
     (if c = newline then [c] # split_inclusive cs
      else (case split_inclusive cs of [] \<Rightarrow> [[c]] | l # ls \<Rightarrow> (c # l) # ls))"

definition strip_line_ending :: "string \<Rightarrow> string" where
  "strip_line_ending l =
     (case strip_suffix [newline] l of
        None \<Rightarrow> l
      | Some l' \<Rightarrow> (case strip_suffix [carriage_return] l' of None \<Rightarrow> l' | Some l'' \<Rightarrow> l''))"

text \<open>\<open>str::lines\<close>.\<close>

definition str_lines :: "string \<Rightarrow> string list" where
  "str_lines s = map strip_line_ending (split_inclusive s)"

fun join :: "string \<Rightarrow> string list \<Rightarrow> string" where
  "join sep [] = []"
| "join sep [w] = w"
| "join sep (w # ws) = w @ sep @ join sep ws"

section \<open>Decimal numbers\<close>

definition digit_char :: "int \<Rightarrow> char" where
  "digit_char d = char_of (48 + d)"

text \<open>Integers stay binary numerals under evaluation, so decimal texts are computed on \<open>int\<close>.\<close>

function dec_digits :: "int \<Rightarrow> string" where
  "dec_digits n =
     (if n < 10 then [digit_char n] else dec_digits (n div 10) @ [digit_char (n mod 10)])"
  by pat_completeness auto
termination
  by (relation "measure nat") auto

declare dec_digits.simps [simp del]

definition digit_value :: "char \<Rightarrow> int" where
  "digit_value c = of_char c - 48"

definition digits_value :: "string \<Rightarrow> int" where
  "digits_value ds = foldl (\<lambda>v c. 10 * v + digit_value c) 0 ds"

section \<open>Ordered maps\<close>

type_synonym btree_map = "(string \<times> string) list"

fun btree_insert :: "string \<Rightarrow> string \<Rightarrow> btree_map \<Rightarrow> btree_map" where
  "btree_insert k v [] = [(k, v)]"
| "btree_insert k v ((k', v') # m) =
     (if k < k' then (k, v) # (k', v') # m
      else if k = k' then (k, v) # m
      else (k', v') # btree_insert k v m)"

definition btree_get :: "btree_map \<Rightarrow> string \<Rightarrow> string option" where
  "btree_get m k = map_of m k"

definition btree_sorted :: "btree_map \<Rightarrow> bool" where
  "btree_sorted m \<longleftrightarrow> sorted_wrt (<) (map fst m)"

text \<open>\<open>BTreeMap::extend\<close>: later entries replace earlier ones.\<close>

fun btree_extend :: "btree_map \<Rightarrow> btree_map \<Rightarrow> btree_map" where
  "btree_extend m [] = m"
| "btree_extend m ((k, v) # es) = btree_extend (btree_insert k v m) es"

lemma btree_get_Nil [simp]: "btree_get [] k = None"
  by (simp add: btree_get_def)

lemma btree_get_insert: "btree_get (btree_insert k v m) = (btree_get m)(k \<mapsto> v)"
  unfolding btree_get_def fun_eq_iff by (induction k v m rule: btree_insert.induct) auto

lemma btree_insert_keys: "fst ` set (btree_insert k v m) = insert k (fst ` set m)"
  by (induction k v m rule: btree_insert.induct) auto

lemma btree_insert_sorted: "btree_sorted m \<Longrightarrow> btree_sorted (btree_insert k v m)"
proof (induction k v m rule: btree_insert.induct)
  case (2 k v k' v' m)
  then show ?case
    using btree_insert_keys[of k v m]
    by (auto simp: btree_sorted_def dest: less_trans)
qed (simp add: btree_sorted_def)

text \<open>
  What a client of an ordered map relies on: a lookup after an insert, and the invariant that every
  operation keeps. The client's loops insert a list of entries.
\<close>

locale ordered_map =
  fixes get :: "'m \<Rightarrow> 'k \<Rightarrow> 'v option"
    and insert_entry :: "'k \<Rightarrow> 'v \<Rightarrow> 'm \<Rightarrow> 'm"
    and empty :: 'm
    and inv :: "'m \<Rightarrow> bool"
  assumes get_empty: "get empty k = None"
    and get_insert: "get (insert_entry k v m) = (get m)(k \<mapsto> v)"
    and inv_empty: "inv empty"
    and inv_insert: "inv m \<Longrightarrow> inv (insert_entry k v m)"
begin

lemma get_fold:
  "get (fold (\<lambda>(k, v). insert_entry k v) es m) = get m ++ map_of (rev es)"
  by (induction es arbitrary: m) (auto simp: get_insert map_add_def fun_eq_iff split: option.splits)

lemma get_fold_empty: "get (fold (\<lambda>(k, v). insert_entry k v) es empty) = map_of (rev es)"
  by (simp add: get_fold map_add_def get_empty fun_eq_iff split: option.splits)

lemma inv_fold: "inv m \<Longrightarrow> inv (fold (\<lambda>(k, v). insert_entry k v) es m)"
  by (induction es arbitrary: m) (auto simp: inv_insert)

end

interpretation btree: ordered_map btree_get btree_insert "[]" btree_sorted
  by unfold_locales
     (simp_all add: btree_get_insert btree_insert_sorted, simp add: btree_sorted_def)

lemma btree_extend_fold: "btree_extend m es = fold (\<lambda>(k, v). btree_insert k v) es m"
  by (induction m es rule: btree_extend.induct) auto

lemma btree_sorted_distinct: "btree_sorted m \<Longrightarrow> distinct (map fst m)"
  by (simp add: btree_sorted_def strict_sorted_iff)

section \<open>Facts about trimming and searching\<close>

lemma starts_with_append: "starts_with t (t @ s)"
  by (simp add: starts_with_def)

lemma starts_with_iff: "starts_with t s \<longleftrightarrow> (\<exists>r. s = t @ r)"
  by (auto simp: starts_with_def) (metis append_take_drop_id)

text \<open>
  No token can straddle the boundary of an appended text whose first byte is not an inner byte of
  a token: the ASCII bytes never are.
\<close>

definition inner_bytes :: "string list \<Rightarrow> char set" where
  "inner_bytes ts = (\<Union>t \<in> set ts. set (tl t))"

lemma starts_with_boundary:
  assumes "a \<noteq> []" and "b = [] \<or> hd b \<notin> set (tl t)"
  shows "starts_with t (a @ b) \<longleftrightarrow> starts_with t a"
proof
  assume "starts_with t (a @ b)"
  then obtain r where r: "a @ b = t @ r" by (auto simp: starts_with_iff)
  show "starts_with t a"
  proof (cases "length t \<le> length a")
    case True
    then show ?thesis using r
      by (simp add: starts_with_def) (metis append_eq_append_conv_if take_append take_all diff_is_0_eq take0 append_Nil2)
  next
    case False
    then obtain u where u: "t = a @ u" "u \<noteq> []" "b = u @ r"
      using r by (auto simp: append_eq_append_conv2)
    then have "hd b \<in> set (tl t)" "b \<noteq> []" using assms(1)
      by (auto simp: tl_append split: list.splits)
    then show ?thesis using assms(2) by simp
  qed
next
  assume "starts_with t a"
  then show "starts_with t (a @ b)" by (auto simp: starts_with_iff)
qed

lemma token_len_boundary:
  assumes "a \<noteq> []" and "b = [] \<or> hd b \<notin> inner_bytes ts"
  shows "token_len ts (a @ b) = token_len ts a"
  using assms
  by (induction ts) (auto simp: starts_with_boundary inner_bytes_def)

lemma strip_tokens_stop: "token_len ts s = 0 \<Longrightarrow> strip_tokens ts s = s"
  by (subst strip_tokens.simps) simp

lemma strip_tokens_step:
  "token_len ts s \<noteq> 0 \<Longrightarrow> strip_tokens ts s = strip_tokens ts (drop (token_len ts s) s)"
  by (subst strip_tokens.simps) simp

lemma strip_tokens_Nil [simp]: "strip_tokens ts [] = []"
  by (simp add: strip_tokens_stop)

lemma strip_tokens_done [simp]: "token_len ts (strip_tokens ts s) = 0"
  by (induction ts s rule: strip_tokens.induct) (metis strip_tokens.simps)

lemma strip_tokens_idem [simp]: "strip_tokens ts (strip_tokens ts s) = strip_tokens ts s"
  by (simp add: strip_tokens_stop)

lemma strip_tokens_suffix: "\<exists>p. s = p @ strip_tokens ts s"
proof (induction ts s rule: strip_tokens.induct)
  case (1 ts s)
  show ?case
  proof (cases "token_len ts s = 0")
    case False
    then obtain p where "drop (token_len ts s) s = p @ strip_tokens ts s"
      using 1 by (metis strip_tokens_step)
    then show ?thesis by (metis append_assoc append_take_drop_id)
  qed (simp add: strip_tokens_stop)
qed

lemma strip_tokens_append:
  "b = [] \<or> hd b \<notin> inner_bytes ts \<Longrightarrow>
   strip_tokens ts (a @ b) =
     (if strip_tokens ts a = [] then strip_tokens ts b else strip_tokens ts a @ b)"
proof (induction ts a rule: strip_tokens.induct)
  case (1 ts a)
  show ?case
  proof (cases "token_len ts a = 0")
    case True
    then show ?thesis
      using token_len_boundary[of a b ts] "1.prems" by (cases "a = []") (auto simp: strip_tokens_stop)
  next
    case False
    then have "a \<noteq> []" by auto
    then have eq: "token_len ts (a @ b) = token_len ts a"
      using "1.prems" by (rule token_len_boundary)
    have "drop (token_len ts a) (a @ b) = drop (token_len ts a) a @ b"
      using token_len_le[of ts a] by simp
    then show ?thesis
      using 1 False eq by (simp add: strip_tokens_step)
  qed
qed

lemma inner_ws_ascii:
  "byte c < 128 \<Longrightarrow> c \<notin> inner_bytes ws_tokens"
  "byte c < 128 \<Longrightarrow> c \<notin> inner_bytes (map rev ws_tokens)"
  by (auto simp: inner_bytes_def ws_tokens_def byte_def)

definition ascii_ws :: "char \<Rightarrow> bool" where
  "ascii_ws c \<longleftrightarrow> c \<in> {CHR 0x20, CHR 0x09, CHR 0x0A, CHR 0x0B, CHR 0x0C, CHR 0x0D}"

definition ascii_visible :: "char \<Rightarrow> bool" where
  "ascii_visible c \<longleftrightarrow> 32 < byte c \<and> byte c < 128"

lemma token_len_hd: "\<forall>t \<in> set ts. hd t \<noteq> c \<Longrightarrow> token_len ts (c # s) = 0"
  by (induction ts) (auto simp: starts_with_iff Cons_eq_append_conv)

lemma token_len_Cons_skip: "hd t \<noteq> c \<Longrightarrow> token_len (t # ts) (c # s) = token_len ts (c # s)"
  by (auto simp: starts_with_iff Cons_eq_append_conv)

lemma token_len_Cons_single: "token_len ([c] # ts) (c # s) = Suc 0"
  by (simp add: starts_with_def)

lemma token_len_ascii_ws [simp]:
  "ascii_ws c \<Longrightarrow> token_len ws_tokens (c # s) = Suc 0"
  "ascii_ws c \<Longrightarrow> token_len (map rev ws_tokens) (c # s) = Suc 0"
  unfolding ascii_ws_def ws_tokens_def list.map rev.simps append_Nil insert_iff empty_iff
  by (elim disjE FalseE;
      simp only: token_len_Cons_skip token_len_Cons_single list.sel char.inject bool_simps
        simp_thms)+

lemma ws_token_heads:
  "\<forall>t \<in> set ws_tokens. byte (hd t) \<le> 32 \<or> 128 \<le> byte (hd t)"
  "\<forall>t \<in> set (map rev ws_tokens). byte (hd t) \<le> 32 \<or> 128 \<le> byte (hd t)"
  by code_simp+

lemma token_len_visible [simp]:
  assumes "ascii_visible c"
  shows "token_len ws_tokens (c # s) = 0" and "token_len (map rev ws_tokens) (c # s) = 0"
  using assms ws_token_heads
  by (intro token_len_hd; fastforce simp: ascii_visible_def)+

lemma trim_start_Nil [simp]: "trim_start [] = []"
  by (simp add: trim_start_def)

lemma trim_end_Nil [simp]: "trim_end [] = []"
  by (simp add: trim_end_def)

lemma trim_Nil [simp]: "trim [] = []"
  by (simp add: trim_def)

lemma trim_start_visible [simp]: "ascii_visible c \<Longrightarrow> trim_start (c # s) = c # s"
  by (simp add: trim_start_def strip_tokens_stop)

lemma trim_start_ws [simp]: "ascii_ws c \<Longrightarrow> trim_start (c # s) = trim_start s"
  by (simp add: trim_start_def strip_tokens_step)

lemma trim_end_visible [simp]: "ascii_visible c \<Longrightarrow> trim_end (s @ [c]) = s @ [c]"
  by (simp add: trim_end_def strip_tokens_stop)

lemma trim_end_ws [simp]: "ascii_ws c \<Longrightarrow> trim_end (s @ [c]) = trim_end s"
  by (simp add: trim_end_def strip_tokens_step)

lemma trim_start_append:
  "b = [] \<or> byte (hd b) < 128 \<Longrightarrow>
   trim_start (a @ b) = (if trim_start a = [] then trim_start b else trim_start a @ b)"
  unfolding trim_start_def by (rule strip_tokens_append) (auto dest: inner_ws_ascii)

lemma trim_start_suffix: "\<exists>p. s = p @ trim_start s"
  unfolding trim_start_def by (rule strip_tokens_suffix)

lemma trim_end_prefix: "\<exists>q. s = trim_end s @ q"
proof -
  obtain p where "rev s = p @ strip_tokens (map rev ws_tokens) (rev s)"
    using strip_tokens_suffix by blast
  then have "s = rev (strip_tokens (map rev ws_tokens) (rev s)) @ rev p"
    by (metis rev_append rev_rev_ident)
  then show ?thesis unfolding trim_end_def by blast
qed

lemma trim_start_idem [simp]: "trim_start (trim_start s) = trim_start s"
  by (simp add: trim_start_def)

lemma trim_end_idem [simp]: "trim_end (trim_end s) = trim_end s"
  by (simp add: trim_end_def)

lemma starts_with_prefix: "starts_with t p \<Longrightarrow> starts_with t (p @ q)"
  by (auto simp: starts_with_iff)

lemma token_len_0_prefix: "token_len ts (p @ q) = 0 \<Longrightarrow> token_len ts p = 0"
  by (induction ts) (auto simp: starts_with_prefix split: if_splits)

lemma trim_start_trim [simp]: "trim_start (trim s) = trim s"
proof -
  obtain q where "trim_start s = trim_end (trim_start s) @ q"
    using trim_end_prefix by blast
  then have "token_len ws_tokens (trim s) = 0"
    unfolding trim_def by (metis strip_tokens_done token_len_0_prefix trim_start_def)
  then show ?thesis by (simp add: trim_start_def strip_tokens_stop)
qed

lemma trim_idem [simp]: "trim (trim s) = trim s"
  by (metis trim_def trim_end_idem trim_start_trim)

lemma trim_snoc_ws [simp]: "ascii_ws c \<Longrightarrow> trim (s @ [c]) = trim s"
proof -
  assume c: "ascii_ws c"
  then have "byte c < 128" by (auto simp: ascii_ws_def byte_def)
  then show ?thesis
    using c by (simp add: trim_def trim_start_append)
qed

lemma trim_Cons_ws [simp]: "ascii_ws c \<Longrightarrow> trim (c # s) = trim s"
  by (simp add: trim_def)

lemma trim_set: "set (trim s) \<subseteq> set s"
proof -
  obtain p q where "s = p @ trim_start s" "trim_start s = trim_end (trim_start s) @ q"
    using trim_start_suffix trim_end_prefix by metis
  then show ?thesis unfolding trim_def by (metis Un_upper2 le_sup_iff set_append subset_trans Un_upper1)
qed

lemma trim_visible:
  assumes "list_all ascii_visible s"
  shows "trim s = s"
proof (cases s rule: rev_cases)
  case (snoc t c)
  have "trim_start s = s"
    using assms by (cases s) auto
  then show ?thesis
    using assms snoc by (simp add: trim_def)
qed simp

lemma ascii_ws_newline [simp]: "ascii_ws newline" "ascii_ws carriage_return" "ascii_ws (CHR '' '')"
  by (simp_all add: ascii_ws_def newline_def carriage_return_def)

lemma visible_not_ws: "ascii_visible c \<Longrightarrow> \<not> ascii_ws c"
  by (auto simp: ascii_visible_def ascii_ws_def byte_def)

lemma alphanumeric_visible [simp]: "is_ascii_alphanumeric c \<Longrightarrow> ascii_visible c"
  by (auto simp: is_ascii_alphanumeric_def is_ascii_digit_def ascii_visible_def)

section \<open>Facts about lines\<close>

lemma split_inclusive_concat [simp]: "concat (split_inclusive s) = s"
  by (induction s rule: split_inclusive.induct) (auto split: list.splits)

text \<open>A line with its terminator, or an unterminated last line.\<close>

definition terminated_line :: "string \<Rightarrow> bool" where
  "terminated_line l \<longleftrightarrow> (\<exists>b. l = b @ [newline] \<and> newline \<notin> set b)"

definition open_line :: "string \<Rightarrow> bool" where
  "open_line l \<longleftrightarrow> l \<noteq> [] \<and> newline \<notin> set l"

definition line_list :: "string list \<Rightarrow> bool" where
  "line_list ls \<longleftrightarrow>
     (\<forall>l \<in> set (butlast ls). terminated_line l) \<and>
     (ls \<noteq> [] \<longrightarrow> terminated_line (last ls) \<or> open_line (last ls))"

lemma terminated_line_Cons:
  "terminated_line (c # l) \<longleftrightarrow> (if c = newline then l = [] else terminated_line l)"
  unfolding terminated_line_def by (auto simp: Cons_eq_append_conv)

lemma terminated_line_Nil [simp]: "\<not> terminated_line []"
  by (simp add: terminated_line_def)

lemma split_inclusive_lines: "line_list (split_inclusive s)"
proof (induction s rule: split_inclusive.induct)
  case (2 c cs)
  then show ?case
    by (auto simp: line_list_def open_line_def terminated_line_Cons terminated_line_def
        split: list.splits if_splits)
qed (simp add: line_list_def)

lemma split_inclusive_eq_Nil [simp]: "split_inclusive s = [] \<longleftrightarrow> s = []"
  by (cases s) (auto split: list.splits)

lemma split_inclusive_append_terminated:
  "s = [] \<or> last s = newline \<Longrightarrow> split_inclusive (s @ t) = split_inclusive s @ split_inclusive t"
proof (induction s rule: split_inclusive.induct)
  case (2 c cs)
  then show ?case
    by (cases "cs = []") (auto split: list.splits)
qed simp

lemma split_inclusive_terminated: "terminated_line l \<Longrightarrow> split_inclusive (l @ t) = l # split_inclusive t"
  by (induction l) (auto simp: terminated_line_Cons split: if_splits)

lemma split_inclusive_open: "open_line l \<Longrightarrow> split_inclusive l = [l]"
proof (induction l)
  case (Cons c l)
  then show ?case
    by (cases "l = []") (auto simp: open_line_def)
qed (simp add: open_line_def)

lemma split_inclusive_join:
  "line_list ls \<Longrightarrow> split_inclusive (concat ls) = ls"
proof (induction ls)
  case (Cons l ls)
  show ?case
  proof (cases "ls = []")
    case True
    then show ?thesis
      using Cons.prems split_inclusive_terminated[of l "[]"] split_inclusive_open
      by (auto simp: line_list_def)
  next
    case False
    then have "terminated_line l" "line_list ls"
      using Cons.prems by (auto simp: line_list_def)
    then show ?thesis
      using Cons.IH by (simp add: split_inclusive_terminated)
  qed
qed simp

end
