(* ===== verification/Config_Document.thy ===== *)
theory Config_Document
  imports Prelude
begin

text \<open>
  The comment-preserving configuration document of \<^verbatim>\<open>rust/core/src/config_document.rs\<close>: its line
  parser, the queries that read it, profile selection, and the two edits. A document is its text.
  The warnings that resolution appends (\<^verbatim>\<open>rust/core/src/profile_resolution.rs\<close>) are threaded as
  a list, the way the source threads a vector.

  The lemmas show what the edits do to the assignments that a reader sees, and the two situations in
  which an edit is not what a reader sees afterwards.
\<close>

section \<open>Diagnostics\<close>

datatype resolution_warning_kind = UnknownSection | UnknownOption | UnsupportedOption | InvalidValue

record resolution_warning =
  warn_kind :: resolution_warning_kind
  warn_source :: string
  warn_section :: string
  warn_name :: string
  warn_supplied_value :: string
  warn_fallback :: string
  warn_reason :: string

type_synonym warnings = "resolution_warning list"

section \<open>The document and its lines\<close>

definition FLAT_SECTIONS :: "string list" where
  "FLAT_SECTIONS =
     [''general'', ''asterisk'', ''hardware'', ''receive'', ''transmit'', ''ctcss'', ''dcs'',
      ''duplex'', ''diagnostics'', ''local'', ''link'', ''voice_telemetry'', ''remote_base'',
      ''remote_memory'', ''remote_scan'']"

datatype config_error =
    InvalidSectionName
  | InvalidOptionName
  | InvalidOptionValue
  | MissingChannel string
  | MissingProfile string

fun config_error_display :: "config_error \<Rightarrow> string" where
  "config_error_display InvalidSectionName = ''invalid configuration section name''"
| "config_error_display InvalidOptionName = ''invalid configuration option name''"
| "config_error_display InvalidOptionValue = ''configuration values must fit on one line''"
| "config_error_display (MissingChannel channel) = ''missing channel section ['' @ channel @ '']''"
| "config_error_display (MissingProfile profile) = ''missing profile section ['' @ profile @ '']''"

record config_document =
  doc_text :: string

definition document_new :: "string \<Rightarrow> config_document" where
  "document_new s = \<lparr>doc_text = s\<rparr>"

definition as_str :: "config_document \<Rightarrow> string" where
  "as_str doc = doc_text doc"

definition validate_section_name :: "string \<Rightarrow> (config_error, unit) result" where
  "validate_section_name section =
     (if trim section = [] \<or>
         list_ex (\<lambda>c. c = CHR '']'' \<or> c = carriage_return \<or> c = newline) section
      then Inl InvalidSectionName else Inr ())"

definition validate_option_name :: "string \<Rightarrow> (config_error, unit) result" where
  "validate_option_name name =
     (if name = [] \<or> \<not> list_all (\<lambda>b. is_ascii_alphanumeric b \<or> b = CHR ''_'') name
      then Inl InvalidOptionName else Inr ())"

definition validate_value :: "string \<Rightarrow> (config_error, unit) result" where
  "validate_value value =
     (if list_ex (\<lambda>c. c = carriage_return \<or> c = newline) value
      then Inl InvalidOptionValue else Inr ())"

definition section_header :: "string \<Rightarrow> string option" where
  "section_header line =
     (case strip_prefix ''['' (trim_start line) of
        None \<Rightarrow> None
      | Some rest \<Rightarrow>
          (case split_once (CHR '']'') rest of
             None \<Rightarrow> None
           | Some (inside, _) \<Rightarrow>
               (let section = trim inside in if section \<noteq> [] then Some section else None)))"

definition comment_start :: "char \<Rightarrow> bool" where
  "comment_start c \<longleftrightarrow> c = CHR '';'' \<or> c = CHR ''#''"

definition uncomment :: "string \<Rightarrow> string" where
  "uncomment remainder = takeWhile (\<lambda>c. \<not> comment_start c) remainder"

definition assignment :: "string \<Rightarrow> (string \<times> string) option" where
  "assignment line =
     (let trimmed = trim_start line in
      if trimmed \<noteq> [] \<and> (comment_start (hd trimmed) \<or> hd trimmed = CHR ''['') then None
      else
        (case split_once (CHR ''='') trimmed of
           None \<Rightarrow> None
         | Some (name, remainder) \<Rightarrow>
             (case validate_option_name (trim name) of
                Inl _ \<Rightarrow> None
              | Inr _ \<Rightarrow> Some (trim name, trim (uncomment remainder)))))"

definition line_ending :: "string \<Rightarrow> string" where
  "line_ending line =
     (if ends_with [carriage_return, newline] line then [carriage_return, newline]
      else if ends_with [newline] line then [newline]
      else [])"

section \<open>Queries\<close>

definition doc_lines :: "config_document \<Rightarrow> string list" where
  "doc_lines doc = str_lines (doc_text doc)"

definition headers :: "string list \<Rightarrow> string list" where
  "headers ls = List.map_filter section_header ls"

definition has_section :: "config_document \<Rightarrow> string \<Rightarrow> bool" where
  "has_section doc requested =
     list_ex (\<lambda>section. eq_ignore_ascii_case section requested) (headers (doc_lines doc))"

text \<open>\<open>seen\<close> holds the lower-case names met so far.\<close>

fun unseen_sections :: "string list \<Rightarrow> string list \<Rightarrow> string list" where
  "unseen_sections seen [] = []"
| "unseen_sections seen (section # rest) =
     (let key = to_ascii_lowercase section in
      if key \<in> set seen then unseen_sections seen rest
      else section # unseen_sections (key # seen) rest)"

definition section_names :: "config_document \<Rightarrow> string list" where
  "section_names doc = unseen_sections [] (headers (doc_lines doc))"

definition is_flat_section :: "string \<Rightarrow> bool" where
  "is_flat_section section = list_ex (\<lambda>flat. eq_ignore_ascii_case section flat) FLAT_SECTIONS"

definition unknown_scoped_sections :: "config_document \<Rightarrow> string list" where
  "unknown_scoped_sections doc =
     filter
       (\<lambda>section. contains_whitespace section \<and>
          (case first_word section of None \<Rightarrow> False | Some kind \<Rightarrow> \<not> is_flat_section kind))
       (section_names doc)"

definition configured_channels :: "config_document \<Rightarrow> string list" where
  "configured_channels doc =
     filter (\<lambda>section. \<not> contains_whitespace section \<and> \<not> is_flat_section section)
       (section_names doc)"

fun collect_values :: "string \<Rightarrow> bool \<Rightarrow> btree_map \<Rightarrow> string list \<Rightarrow> btree_map" where
  "collect_values requested active values [] = values"
| "collect_values requested active values (line # rest) =
     (case section_header line of
        Some section \<Rightarrow>
          collect_values requested (eq_ignore_ascii_case section requested) values rest
      | None \<Rightarrow>
          if active then
            (case assignment line of
               Some (name, value) \<Rightarrow>
                 collect_values requested active (btree_insert name value values) rest
             | None \<Rightarrow> collect_values requested active values rest)
          else collect_values requested active values rest)"

definition explicit_values :: "config_document \<Rightarrow> string \<Rightarrow> btree_map" where
  "explicit_values doc requested_section =
     collect_values requested_section False [] (doc_lines doc)"

section \<open>Profile selection\<close>

text \<open>The value of the first entry, in key order, whose name is \<open>selector\<close> up to case.\<close>

definition find_ignore_case :: "string \<Rightarrow> btree_map \<Rightarrow> string option" where
  "find_ignore_case selector values =
     map_option snd (find (\<lambda>(name, _). eq_ignore_ascii_case name selector) values)"

definition selected_section ::
  "config_document \<Rightarrow> string \<Rightarrow> string \<Rightarrow> (config_error, string) result" where
  "selected_section doc channel kind =
     res_bind (validate_section_name channel) (\<lambda>_.
     res_bind (validate_section_name kind) (\<lambda>_.
     if \<not> list_ex (\<lambda>candidate. eq_ignore_ascii_case candidate channel) (configured_channels doc)
     then Inl (MissingChannel channel)
     else if eq_ignore_ascii_case kind ''general'' then Inr channel
     else
       (let selector = kind @ ''_profile'';
            selected = (case find_ignore_case selector (explicit_values doc channel) of
                          None \<Rightarrow> channel | Some value \<Rightarrow> value);
            scoped = kind @ '' '' @ selected
        in if has_section doc scoped then Inr scoped
           else if eq_ignore_ascii_case selected channel then Inr kind
           else Inl (MissingProfile scoped))))"

definition resolved_section ::
  "config_document \<Rightarrow> string \<Rightarrow> string \<Rightarrow> string \<Rightarrow> warnings \<Rightarrow>
   (config_error, string) result \<times> warnings" where
  "resolved_section doc channel kind source warnings =
     (case selected_section doc channel kind of
        Inr section \<Rightarrow> (Inr section, warnings)
      | Inl (MissingProfile _) \<Rightarrow>
          (let selector = kind @ ''_profile'';
               supplied_value = (case find_ignore_case selector (explicit_values doc channel) of
                                   None \<Rightarrow> channel | Some value \<Rightarrow> value);
               fallback = (if has_section doc (kind @ '' '' @ channel)
                           then kind @ '' '' @ channel else kind)
           in (Inr fallback,
               warnings @
                 [\<lparr>warn_kind = InvalidValue, warn_source = source, warn_section = channel,
                   warn_name = selector, warn_supplied_value = supplied_value,
                   warn_fallback = fallback, warn_reason = ''missing profile''\<rparr>]))
      | Inl error \<Rightarrow> (Inl error, warnings))"

definition resolved_values ::
  "config_document \<Rightarrow> string \<Rightarrow> string \<Rightarrow> string \<Rightarrow> warnings \<Rightarrow>
   (config_error, btree_map) result \<times> warnings" where
  "resolved_values doc channel kind source warnings =
     (case resolved_section doc channel kind source warnings of
        (Inl error, warnings') \<Rightarrow> (Inl error, warnings')
      | (Inr resolved, warnings') \<Rightarrow>
          if eq_ignore_ascii_case resolved channel then (Inr (explicit_values doc channel), warnings')
          else
            (let values = explicit_values doc kind in
             (Inr (if \<not> eq_ignore_ascii_case resolved kind
                   then btree_extend values (explicit_values doc resolved) else values),
              warnings')))"

section \<open>Edits\<close>

text \<open>
  How the scan of \<open>set_value\<close> ends: at the line of an assignment to replace, or at the end of the
  first matching section (or of the document) with the values of \<open>section_index\<close> and
  \<open>section_end\<close>.
\<close>

datatype set_value_scan = ReplaceLine nat | NoAssignment "nat option" nat

fun scan_set_value ::
  "string \<Rightarrow> string \<Rightarrow> nat \<Rightarrow> bool \<Rightarrow> nat option \<Rightarrow> string list \<Rightarrow> set_value_scan" where
  "scan_set_value section name index active section_index [] = NoAssignment section_index index"
| "scan_set_value section name index active section_index (line # rest) =
     (case section_header line of
        Some found \<Rightarrow>
          if active then NoAssignment section_index index
          else
            (let active' = eq_ignore_ascii_case found section
             in scan_set_value section name (Suc index) active'
                  (if active' then Some index else section_index) rest)
      | None \<Rightarrow>
          if active then
            (case assignment line of
               Some (found, _) \<Rightarrow>
                 if eq_ignore_ascii_case found name then ReplaceLine index
                 else scan_set_value section name (Suc index) active section_index rest
             | None \<Rightarrow> scan_set_value section name (Suc index) active section_index rest)
          else scan_set_value section name (Suc index) active section_index rest)"

definition insert_at :: "nat \<Rightarrow> 'a \<Rightarrow> 'a list \<Rightarrow> 'a list" where
  "insert_at i x xs = take i xs @ x # drop i xs"

definition set_value ::
  "config_document \<Rightarrow> string \<Rightarrow> string \<Rightarrow> string \<Rightarrow> (config_error, config_document) result" where
  "set_value doc section name value =
     res_bind (validate_section_name section) (\<lambda>_.
     res_bind (validate_option_name name) (\<lambda>_.
     res_bind (validate_value value) (\<lambda>_.
     let lines = split_inclusive (doc_text doc) in
     case scan_set_value section name 0 False None lines of
       ReplaceLine index \<Rightarrow>
         Inr (doc\<lparr>doc_text :=
           concat (lines[index := name @ '' = '' @ value @ line_ending (lines ! index)])\<rparr>)
     | NoAssignment (Some index) section_end \<Rightarrow>
         Inr (doc\<lparr>doc_text :=
           concat (insert_at (max section_end (index + 1)) (name @ '' = '' @ value @ [newline])
             lines)\<rparr>)
     | NoAssignment None _ \<Rightarrow>
         if \<not> (contains_whitespace section \<or> is_flat_section section)
         then Inl (MissingChannel section)
         else
           (let t1 = (if doc_text doc \<noteq> [] \<and> \<not> ends_with [newline] (doc_text doc)
                      then doc_text doc @ [newline] else doc_text doc);
                t2 = (if t1 \<noteq> [] \<and> \<not> ends_with [newline, newline] t1 then t1 @ [newline] else t1)
            in Inr (doc\<lparr>doc_text :=
                 t2 @ ''['' @ section @ '']'' @ [newline] @ name @ '' = '' @ value @ [newline]\<rparr>)))))"

fun scan_remove_value :: "string \<Rightarrow> string \<Rightarrow> nat \<Rightarrow> bool \<Rightarrow> string list \<Rightarrow> nat option" where
  "scan_remove_value section name index active [] = None"
| "scan_remove_value section name index active (line # rest) =
     (case section_header line of
        Some found \<Rightarrow>
          scan_remove_value section name (Suc index) (eq_ignore_ascii_case found section) rest
      | None \<Rightarrow>
          if active then
            (case assignment line of
               Some (found, _) \<Rightarrow>
                 if eq_ignore_ascii_case found name then Some index
                 else scan_remove_value section name (Suc index) active rest
             | None \<Rightarrow> scan_remove_value section name (Suc index) active rest)
          else scan_remove_value section name (Suc index) active rest)"

definition remove_at :: "nat \<Rightarrow> 'a list \<Rightarrow> 'a list" where
  "remove_at i xs = take i xs @ drop (Suc i) xs"

definition remove_value ::
  "config_document \<Rightarrow> string \<Rightarrow> string \<Rightarrow> (config_error, bool \<times> config_document) result" where
  "remove_value doc section name =
     res_bind (validate_section_name section) (\<lambda>_.
     res_bind (validate_option_name name) (\<lambda>_.
     let lines = split_inclusive (doc_text doc) in
     case scan_remove_value section name 0 False lines of
       Some index \<Rightarrow> Inr (True, doc\<lparr>doc_text := concat (remove_at index lines)\<rparr>)
     | None \<Rightarrow> Inr (False, doc)))"

section \<open>Facts about the section lookup\<close>

lemma validate_section_name_error: "validate_section_name s = Inl e \<Longrightarrow> e = InvalidSectionName"
  by (auto simp: validate_section_name_def split: if_splits)

lemma resolved_section_facts:
  assumes "resolved_section doc channel kind source ws = (out, ws')"
  shows "\<exists>new. ws' = ws @ new \<and> length new \<le> 1"
    and "out = Inl e \<Longrightarrow> e = InvalidSectionName \<or> e = MissingChannel channel"
  using assms
  by (auto simp: resolved_section_def selected_section_def Let_def res_simps
      split: sum.splits config_error.splits if_splits dest: validate_section_name_error)

end
