(* ===== verification/Config_Edits.thy ===== *)
theory Config_Edits
  imports Config_Document
begin

text \<open>
  What the two edits of a configuration document do to what a reader of the document sees, and what
  profile selection returns. A document is read as its list of lines; \<open>assigned\<close> is the list of
  assignments of one section in file order, the abstraction that \<open>explicit_values\<close> folds into a map
  and in which \<open>set_value\<close> replaces or adds one entry and \<open>remove_value\<close> drops one.
\<close>

section \<open>What a reader sees of a list of lines\<close>

text \<open>The assignments of one section in file order, and whether a line after \<open>ls\<close> belongs to it.\<close>

fun assigned :: "string \<Rightarrow> bool \<Rightarrow> string list \<Rightarrow> (string \<times> string) list" where
  "assigned requested active [] = []"
| "assigned requested active (line # rest) =
     (case section_header line of
        Some section \<Rightarrow> assigned requested (eq_ignore_ascii_case section requested) rest
      | None \<Rightarrow>
          (if active then (case assignment line of Some nv \<Rightarrow> [nv] | None \<Rightarrow> []) else []) @
          assigned requested active rest)"

fun active_after :: "string \<Rightarrow> bool \<Rightarrow> string list \<Rightarrow> bool" where
  "active_after requested active [] = active"
| "active_after requested active (line # rest) =
     (case section_header line of
        Some section \<Rightarrow> active_after requested (eq_ignore_ascii_case section requested) rest
      | None \<Rightarrow> active_after requested active rest)"

lemma assigned_append:
  "assigned s a (xs @ ys) = assigned s a xs @ assigned s (active_after s a xs) ys"
  by (induction s a xs rule: assigned.induct) (auto split: option.splits)

lemma active_after_append: "active_after s a (xs @ ys) = active_after s (active_after s a xs) ys"
  by (induction s a xs rule: active_after.induct) (auto split: option.splits)

lemma collect_values_fold:
  "collect_values s a m ls = fold (\<lambda>(n, v). btree_insert n v) (assigned s a ls) m"
  by (induction s a m ls rule: collect_values.induct) (auto split: option.splits)

lemma active_same_section:
  "active_after s False ls \<Longrightarrow> active_after t False ls \<Longrightarrow> eq_ignore_ascii_case s t"
proof -
  have "active_after s a ls \<Longrightarrow> active_after t b ls \<Longrightarrow> (a \<Longrightarrow> b \<Longrightarrow> eq_ignore_ascii_case s t) \<Longrightarrow>
      eq_ignore_ascii_case s t" for a b
    by (induction ls arbitrary: a b)
      (auto split: option.splits intro: eq_ignore_trans eq_ignore_sym,
       (metis eq_ignore_sym eq_ignore_trans)+)
  then show "active_after s False ls \<Longrightarrow> active_after t False ls \<Longrightarrow> eq_ignore_ascii_case s t"
    by blast
qed

lemma assigned_cong_section:
  "eq_ignore_ascii_case s t \<Longrightarrow> assigned s a ls = assigned t a ls"
proof -
  assume st: "eq_ignore_ascii_case s t"
  then have "eq_ignore_ascii_case x s = eq_ignore_ascii_case x t" for x
    by (simp add: eq_ignore_ascii_case_def)
  then show ?thesis by (induction s a ls rule: assigned.induct) (auto split: option.splits)
qed

lemma active_cong_section:
  "eq_ignore_ascii_case s t \<Longrightarrow> active_after s a ls = active_after t a ls"
proof -
  assume st: "eq_ignore_ascii_case s t"
  then have "eq_ignore_ascii_case x s = eq_ignore_ascii_case x t" for x
    by (simp add: eq_ignore_ascii_case_def)
  then show ?thesis by (induction s a ls rule: active_after.induct) (auto split: option.splits)
qed

section \<open>Line terminators do not change what a line means\<close>

lemma split_once_append:
  "c \<notin> set e \<Longrightarrow>
   split_once c (x @ e) = map_option (\<lambda>(a, b). (a, b @ e)) (split_once c x)"
proof (induction x)
  case Nil
  then show ?case by (induction e) auto
qed (auto simp: option.map_comp comp_def case_prod_unfold)

lemma split_once_mem: "split_once c s = Some (a, b) \<Longrightarrow> s = a @ c # b \<and> c \<notin> set a"
  by (induction s arbitrary: a) (auto split: if_splits)

definition ending :: "string \<Rightarrow> bool" where
  "ending e \<longleftrightarrow> e = [] \<or> e = [newline] \<or> e = [carriage_return, newline]"

lemma ending_props:
  assumes "ending e"
  shows "e = [] \<or> byte (hd e) < 128" and "trim_start e = []" and "CHR '']'' \<notin> set e"
    and "CHR ''='' \<notin> set e" and "list_all (\<lambda>c. \<not> comment_start c) e"
  using assms
  by (auto simp: ending_def newline_def carriage_return_def byte_def comment_start_def
      trim_start_ws[unfolded ascii_ws_def] )

lemma trim_ending: "ending e \<Longrightarrow> trim (s @ e) = trim s"
  using trim_snoc_ws[of newline s] trim_snoc_ws[of newline "s @ [carriage_return]"]
    trim_snoc_ws[of carriage_return s]
  by (auto simp: ending_def)

lemma section_header_ending: "ending e \<Longrightarrow> section_header (l @ e) = section_header l"
proof -
  assume e: "ending e"
  note p = ending_props[OF e]
  show ?thesis
  proof (cases "trim_start l = []")
    case True
    then show ?thesis using p by (simp add: section_header_def trim_start_append)
  next
    case False
    then obtain c x where l: "trim_start l = c # x" by (cases "trim_start l") auto
    then show ?thesis using p
      by (auto simp: section_header_def trim_start_append strip_prefix_def starts_with_def
          split_once_append split: option.splits)
  qed
qed

lemma uncomment_append:
  "list_all (\<lambda>c. \<not> comment_start c) e \<Longrightarrow>
   uncomment (x @ e) = (if \<exists>c \<in> set x. comment_start c then uncomment x else x @ e)"
  by (auto simp: uncomment_def takeWhile_append list_all_iff)

lemma uncomment_id: "\<not> (\<exists>c \<in> set x. comment_start c) \<Longrightarrow> uncomment x = x"
  by (auto simp: uncomment_def)

lemma assignment_ending: "ending e \<Longrightarrow> assignment (l @ e) = assignment l"
proof -
  assume e: "ending e"
  note p = ending_props[OF e]
  have v: "trim (uncomment (x @ e)) = trim (uncomment x)" for x
    using uncomment_append[OF p(5), of x] trim_ending[OF e, of x] uncomment_id[of x] by auto
  show ?thesis
  proof (cases "trim_start l = []")
    case True
    then show ?thesis using p by (simp add: assignment_def trim_start_append)
  next
    case False
    then show ?thesis using p v
      by (auto simp: assignment_def trim_start_append Let_def split_once_append
          split: option.splits sum.splits)
  qed
qed

lemma strip_line_ending_split:
  "\<exists>e. ending e \<and> l = strip_line_ending l @ e \<and> (newline \<in> set e \<or> strip_line_ending l = l)"
proof (cases "ends_with [newline] l")
  case True
  then obtain m where m: "l = m @ [newline]"
    by (auto simp: ends_with_def starts_with_iff rev_eq_Cons_iff)
  show ?thesis
  proof (cases "ends_with [carriage_return] m")
    case T: True
    then obtain k where "m = k @ [carriage_return]"
      by (auto simp: ends_with_def starts_with_iff rev_eq_Cons_iff)
    then show ?thesis using m
      by (auto simp: strip_line_ending_def strip_suffix_def ending_def ends_with_def starts_with_def)
  next
    case False
    then show ?thesis using m True
      by (auto simp: strip_line_ending_def strip_suffix_def ending_def)
  qed
next
  case False
  then show ?thesis by (auto simp: strip_line_ending_def strip_suffix_def ending_def)
qed

lemma section_header_strip [simp]: "section_header (strip_line_ending l) = section_header l"
  using strip_line_ending_split[of l] section_header_ending by metis

lemma assignment_strip [simp]: "assignment (strip_line_ending l) = assignment l"
  using strip_line_ending_split[of l] assignment_ending by metis

lemma assigned_strip [simp]: "assigned s a (map strip_line_ending ls) = assigned s a ls"
  by (induction s a ls rule: assigned.induct) (auto split: option.splits)

text \<open>The assignments that \<open>explicit_values\<close> folds into its map.\<close>

definition section_assignments :: "config_document \<Rightarrow> string \<Rightarrow> (string \<times> string) list" where
  "section_assignments doc section = assigned section False (split_inclusive (doc_text doc))"

lemma explicit_values_get:
  "btree_get (explicit_values doc section) = map_of (rev (section_assignments doc section))"
  unfolding explicit_values_def collect_values_fold doc_lines_def str_lines_def
    section_assignments_def assigned_strip
  by (rule btree.get_fold_empty)

lemma explicit_values_sorted: "btree_sorted (explicit_values doc section)"
  unfolding explicit_values_def collect_values_fold by (intro btree.inv_fold btree.inv_empty)

section \<open>The lines that an edit writes\<close>

lemma validate_section_name_ok:
  "validate_section_name s = Inr u \<longleftrightarrow>
     trim s \<noteq> [] \<and> CHR '']'' \<notin> set s \<and> carriage_return \<notin> set s \<and> newline \<notin> set s"
  by (auto simp: validate_section_name_def list_ex_iff)

lemma validate_option_name_ok:
  "validate_option_name n = Inr u \<longleftrightarrow>
     n \<noteq> [] \<and> list_all (\<lambda>b. is_ascii_alphanumeric b \<or> b = CHR ''_'') n"
  by (auto simp: validate_option_name_def)

lemma validate_value_ok:
  "validate_value v = Inr u \<longleftrightarrow> carriage_return \<notin> set v \<and> newline \<notin> set v"
  by (auto simp: validate_value_def list_ex_iff)

lemma name_byte_facts:
  assumes "is_ascii_alphanumeric b \<or> b = CHR ''_''"
  shows "ascii_visible b" "\<not> comment_start b" "b \<noteq> CHR ''=''" "b \<noteq> CHR ''[''" "b \<noteq> newline"
  using assms
  by (auto simp: ascii_visible_def is_ascii_alphanumeric_def is_ascii_digit_def byte_def
      comment_start_def newline_def)

lemma split_once_here: "c \<notin> set a \<Longrightarrow> split_once c (a @ c # b) = Some (a, b)"
  by (induction a) auto

lemma trim_eq_space:
  assumes "n \<noteq> []" "list_all (\<lambda>b. is_ascii_alphanumeric b \<or> b = CHR ''_'') n"
  shows "trim (n @ '' '') = n"
proof -
  have "list_all ascii_visible n"
    using assms(2) name_byte_facts(1) by (auto simp: list_all_iff)
  then show ?thesis by (simp add: trim_visible)
qed

lemma written_line:
  assumes "validate_option_name n = Inr u" and "ending e"
  shows "assignment (n @ '' = '' @ v @ e) = Some (n, trim (uncomment v))"
    and "section_header (n @ '' = '' @ v @ e) = None"
proof -
  obtain c x where n: "n = c # x" and all: "list_all (\<lambda>b. is_ascii_alphanumeric b \<or> b = CHR ''_'') n"
    using assms(1) by (cases n) (auto simp: validate_option_name_ok)
  note c = name_byte_facts[of c]
  have ne: "CHR ''='' \<notin> set (n @ '' '')"
    using all name_byte_facts(3) by (auto simp: list_all_iff)
  have start: "trim_start (n @ '' = '' @ v) = (n @ '' '') @ CHR ''='' # '' '' @ v"
    using all n c by simp
  have val: "trim (uncomment ('' '' @ v)) = trim (uncomment v)"
    by (simp add: uncomment_def comment_start_def)
  have "assignment (n @ '' = '' @ v) = Some (n, trim (uncomment v))"
    unfolding assignment_def Let_def start split_once_here[OF ne]
    using n c all assms(1) trim_eq_space[of n] val by simp
  then show "assignment (n @ '' = '' @ v @ e) = Some (n, trim (uncomment v))"
    using assignment_ending[OF assms(2), of "n @ '' = '' @ v"] by simp
  have "section_header (n @ '' = '' @ v) = None"
    unfolding section_header_def start using n c all by (simp add: strip_prefix_def starts_with_def)
  then show "section_header (n @ '' = '' @ v @ e) = None"
    using section_header_ending[OF assms(2), of "n @ '' = '' @ v"] by simp
qed

lemma written_header:
  assumes "validate_section_name s = Inr u"
  shows "section_header (''['' @ s @ '']'' @ [newline]) = Some (trim s)"
proof -
  have v: "ascii_visible (CHR ''['')" by (simp add: ascii_visible_def byte_def)
  have "split_once (CHR '']'') (s @ CHR '']'' # [newline]) = Some (s, [newline])"
    using assms by (intro split_once_here) (simp add: validate_section_name_ok)
  then show ?thesis
    using assms v by (simp add: section_header_def strip_prefix_def starts_with_def
        validate_section_name_ok Let_def)
qed

section \<open>Where the scans stop\<close>

definition no_headers :: "string list \<Rightarrow> bool" where
  "no_headers ls \<longleftrightarrow> (\<forall>l \<in> set ls. section_header l = None)"

definition no_section :: "string \<Rightarrow> string list \<Rightarrow> bool" where
  "no_section s ls \<longleftrightarrow>
     (\<forall>l \<in> set ls. \<forall>h. section_header l = Some h \<longrightarrow> \<not> eq_ignore_ascii_case h s)"

definition no_name :: "string \<Rightarrow> (string \<times> string) list \<Rightarrow> bool" where
  "no_name n es \<longleftrightarrow> (\<forall>(k, v) \<in> set es. \<not> eq_ignore_ascii_case k n)"

lemma no_name_simps [simp]:
  "no_name n []" "no_name n (e # es) \<longleftrightarrow> \<not> eq_ignore_ascii_case (fst e) n \<and> no_name n es"
  "no_name n (xs @ ys) \<longleftrightarrow> no_name n xs \<and> no_name n ys"
  by (auto simp: no_name_def)

lemma no_headers_simps [simp]:
  "no_headers []" "no_headers (l # ls) \<longleftrightarrow> section_header l = None \<and> no_headers ls"
  by (auto simp: no_headers_def)

lemma no_section_simps [simp]:
  "no_section s []"
  "no_section s (l # ls) \<longleftrightarrow>
     (\<forall>h. section_header l = Some h \<longrightarrow> \<not> eq_ignore_ascii_case h s) \<and> no_section s ls"
  by (auto simp: no_section_def)

lemma active_no_headers: "no_headers ls \<Longrightarrow> active_after s a ls = a"
  by (induction ls) auto

lemma no_section_inactive:
  "no_section s ls \<Longrightarrow> assigned s False ls = [] \<and> active_after s False ls = False"
  by (induction ls) (auto split: option.splits)

lemma scan_active_replace:
  "scan_set_value s n i True si ls = ReplaceLine j \<Longrightarrow>
   \<exists>pre line post found v. ls = pre @ line # post \<and> j = i + length pre \<and> no_headers pre \<and>
     section_header line = None \<and> assignment line = Some (found, v) \<and>
     eq_ignore_ascii_case found n \<and> no_name n (assigned s True pre)"
proof (induction ls arbitrary: i)
  case (Cons l ls)
  show ?case
  proof (cases "\<exists>found v. section_header l = None \<and> assignment l = Some (found, v) \<and>
      eq_ignore_ascii_case found n")
    case True
    then obtain found v where "section_header l = None" "assignment l = Some (found, v)"
      "eq_ignore_ascii_case found n" by blast
    then have "l # ls = [] @ l # ls \<and> j = i + length ([] :: string list) \<and> no_headers [] \<and>
      section_header l = None \<and> assignment l = Some (found, v) \<and> eq_ignore_ascii_case found n \<and>
      no_name n (assigned s True [])"
      using Cons.prems by simp
    then show ?thesis by blast
  next
    case False
    then have h: "section_header l = None" and r: "scan_set_value s n (Suc i) True si ls = ReplaceLine j"
      and nn: "no_name n (assigned s True [l])"
      using Cons.prems by (auto split: option.splits if_splits)
    obtain pre line post found v where d: "ls = pre @ line # post" "j = Suc i + length pre"
      "no_headers pre" "section_header line = None" "assignment line = Some (found, v)"
      "eq_ignore_ascii_case found n" "no_name n (assigned s True pre)"
      using Cons.IH[OF r] by blast
    have "no_name n (assigned s True (l # pre))"
      using nn d(7) h by (auto split: option.splits)
    then show ?thesis using d h
      by (intro exI[of _ "l # pre"] exI[of _ line] exI[of _ post] exI[of _ found] exI[of _ v]) simp
  qed
qed simp

lemma scan_active_none:
  "scan_set_value s n i True si ls = NoAssignment sj e \<Longrightarrow>
   sj = si \<and> (\<exists>body post. ls = body @ post \<and> e = i + length body \<and> no_headers body \<and>
     no_name n (assigned s True body) \<and> (post = [] \<or> section_header (hd post) \<noteq> None))"
proof (induction ls arbitrary: i)
  case (Cons l ls)
  show ?case
  proof (cases "section_header l")
    case (Some h)
    then show ?thesis using Cons.prems by (intro conjI exI[of _ "[]"] exI[of _ "l # ls"]) auto
  next
    case None
    then have r: "scan_set_value s n (Suc i) True si ls = NoAssignment sj e"
      and nn: "no_name n (assigned s True [l])"
      using Cons.prems by (auto split: option.splits if_splits)
    from Cons.IH[OF r] obtain body post where d: "ls = body @ post" "e = Suc i + length body"
      "no_headers body" "no_name n (assigned s True body)"
      "post = [] \<or> section_header (hd post) \<noteq> None" and "sj = si" by blast
    have "no_name n (assigned s True (l # body))"
      using nn d(4) None by (auto split: option.splits)
    then show ?thesis using d None \<open>sj = si\<close>
      by (intro conjI exI[of _ "l # body"] exI[of _ post]) simp_all
  qed
qed simp

lemma scan_inactive:
  "(scan_set_value s n i False None ls = NoAssignment None (i + length ls) \<and> no_section s ls) \<or>
   (\<exists>pre hdr h rest. ls = pre @ hdr # rest \<and> no_section s pre \<and> section_header hdr = Some h \<and>
      eq_ignore_ascii_case h s \<and>
      scan_set_value s n i False None ls =
        scan_set_value s n (Suc (i + length pre)) True (Some (i + length pre)) rest)"
proof (induction ls arbitrary: i)
  case (Cons l ls)
  show ?case
  proof (cases "\<exists>h. section_header l = Some h \<and> eq_ignore_ascii_case h s")
    case True
    then obtain h where "section_header l = Some h" "eq_ignore_ascii_case h s" by blast
    then have "l # ls = [] @ l # ls \<and> no_section s [] \<and> section_header l = Some h \<and>
      eq_ignore_ascii_case h s \<and> scan_set_value s n i False None (l # ls) =
        scan_set_value s n (Suc (i + length ([] :: string list))) True
          (Some (i + length ([] :: string list))) ls"
      by simp
    then show ?thesis by blast
  next
    case False
    then have step: "scan_set_value s n i False None (l # ls) =
        scan_set_value s n (Suc i) False None ls" and hl: "no_section s [l]"
      by (auto split: option.splits)
    from Cons.IH[of "Suc i"] show ?thesis
    proof
      assume "scan_set_value s n (Suc i) False None ls = NoAssignment None (Suc i + length ls) \<and>
        no_section s ls"
      then show ?thesis using step hl by auto
    next
      assume "\<exists>pre hdr h rest. ls = pre @ hdr # rest \<and> no_section s pre \<and>
        section_header hdr = Some h \<and> eq_ignore_ascii_case h s \<and>
        scan_set_value s n (Suc i) False None ls =
          scan_set_value s n (Suc (Suc i + length pre)) True (Some (Suc i + length pre)) rest"
      then obtain pre hdr h rest where d: "ls = pre @ hdr # rest" "no_section s pre"
        "section_header hdr = Some h" "eq_ignore_ascii_case h s"
        "scan_set_value s n (Suc i) False None ls =
          scan_set_value s n (Suc (Suc i + length pre)) True (Some (Suc i + length pre)) rest"
        by blast
      then show ?thesis using step hl
        by (intro disjI2 exI[of _ "l # pre"] exI[of _ hdr] exI[of _ h] exI[of _ rest]) auto
    qed
  qed
qed simp

section \<open>The lines of an edited document\<close>

definition terminated_text :: "string \<Rightarrow> bool" where
  "terminated_text t \<longleftrightarrow> t = [] \<or> last t = newline"

lemma terminated_text_lines:
  assumes "terminated_text t"
  shows "\<forall>l \<in> set (split_inclusive t). terminated_line l"
  using assms
proof (induction t rule: split_inclusive.induct)
  case (2 c cs)
  then show ?case
    by (cases "cs = []")
       (auto simp: terminated_text_def terminated_line_Cons split: list.splits if_splits)
qed simp

lemma split_inclusive_all_terminated:
  "\<forall>l \<in> set ls. terminated_line l \<Longrightarrow> split_inclusive (concat ls @ t) = ls @ split_inclusive t"
  by (induction ls) (auto simp: split_inclusive_terminated)

lemma split_inclusive_concat_terminated:
  "\<forall>l \<in> set ls. terminated_line l \<Longrightarrow> split_inclusive (concat ls) = ls"
  using split_inclusive_all_terminated[of ls "[]"] by simp

lemma terminated_written:
  assumes "validate_option_name n = Inr u" "validate_value v = Inr u'"
    and "e = [newline] \<or> e = [carriage_return, newline]"
  shows "terminated_line (n @ '' = '' @ v @ e)"
proof -
  have "newline \<notin> set (n @ '' = '' @ v)"
    using assms(1,2) name_byte_facts(5)
    by (auto simp: validate_option_name_ok validate_value_ok list_all_iff newline_def)
  moreover have "newline \<noteq> carriage_return" by (simp add: newline_def carriage_return_def)
  ultimately show ?thesis using assms(3) unfolding terminated_line_def
    by (auto intro: exI[of _ "n @ '' = '' @ v"] exI[of _ "n @ '' = '' @ v @ [carriage_return]"])
qed

lemma terminated_ending:
  "terminated_line l \<Longrightarrow> line_ending l = [newline] \<or> line_ending l = [carriage_return, newline]"
  by (auto simp: terminated_line_def line_ending_def ends_with_def starts_with_def)

definition replaced_line where
  "replaced_line s n v L L' \<longleftrightarrow>
     (\<exists>pre line post found w e. L = pre @ line # post \<and> L' = pre @ (n @ '' = '' @ v @ e) # post \<and>
        ending e \<and> e \<noteq> [] \<and> section_header line = None \<and> assignment line = Some (found, w) \<and>
        eq_ignore_ascii_case found n \<and> active_after s False pre \<and> no_name n (assigned s False pre))"

definition inserted_line where
  "inserted_line s n v L L' \<longleftrightarrow>
     (\<exists>pre hdr h body post. L = pre @ hdr # body @ post \<and>
        L' = pre @ hdr # body @ (n @ '' = '' @ v @ [newline]) # post \<and>
        no_section s pre \<and> section_header hdr = Some h \<and> eq_ignore_ascii_case h s \<and>
        no_headers body \<and> no_name n (assigned s True body) \<and>
        (post = [] \<or> section_header (hd post) \<noteq> None))"

definition appended_section where
  "appended_section s n v L L' \<longleftrightarrow>
     no_section s L \<and>
     (\<exists>blank. (blank = [] \<or> blank = [[newline]]) \<and>
        L' = L @ blank @ [''['' @ s @ '']'' @ [newline], n @ '' = '' @ v @ [newline]])"

lemma set_value_lines:
  assumes set: "set_value doc s n v = Inr doc'" and tt: "terminated_text (doc_text doc)"
  defines "L \<equiv> split_inclusive (doc_text doc)" and "L' \<equiv> split_inclusive (doc_text doc')"
  shows "replaced_line s n v L L' \<or> inserted_line s n v L L' \<or> appended_section s n v L L'"
proof -
  have valid: "validate_section_name s = Inr ()" "validate_option_name n = Inr ()"
    "validate_value v = Inr ()"
    using set by (auto simp: set_value_def res_simps)
  have LT: "\<forall>l \<in> set L. terminated_line l" unfolding L_def by (rule terminated_text_lines[OF tt])
  have cL: "concat L = doc_text doc" by (simp add: L_def)
  consider (none) "scan_set_value s n 0 False None L = NoAssignment None (length L)" "no_section s L"
    | (some) pre hdr h rest where "L = pre @ hdr # rest" "no_section s pre"
      "section_header hdr = Some h" "eq_ignore_ascii_case h s"
      "scan_set_value s n 0 False None L =
        scan_set_value s n (Suc (length pre)) True (Some (length pre)) rest"
    using scan_inactive[of s n 0 L] by auto
  then show ?thesis
  proof cases
    case none
    obtain blank where b: "blank = [] \<or> blank = [[newline]]" and
      t: "doc_text doc' = concat L @ concat blank @ ''['' @ s @ '']'' @ [newline] @ n @ '' = '' @ v @ [newline]"
    proof -
      have "doc_text doc \<noteq> [] \<longrightarrow> ends_with [newline] (doc_text doc)"
        using tt by (auto simp: terminated_text_def ends_with_def starts_with_def)
          (metis hd_rev list.sel(1) neq_Nil_conv rev_is_Nil_conv take_Suc_Cons take0)
      then show ?thesis
        using set none(1) that[of "[]"] that[of "[[newline]]"]
        by (auto simp: set_value_def res_simps Let_def L_def split: if_splits)
    qed
    have h: "terminated_line (''['' @ s @ '']'' @ [newline])"
      using valid(1) by (auto simp: terminated_line_def validate_section_name_ok newline_def
          intro!: exI[of _ "''['' @ s @ '']''"])
    have w: "terminated_line (n @ '' = '' @ v @ [newline])"
      using terminated_written[OF valid(2,3)] by blast
    have nl: "terminated_line [newline]" by (simp add: terminated_line_def)
    have "\<forall>l \<in> set (L @ blank @ [''['' @ s @ '']'' @ [newline], n @ '' = '' @ v @ [newline]]). terminated_line l"
      using LT b h w nl by auto
    from split_inclusive_concat_terminated[OF this]
    have "L' = L @ blank @ [''['' @ s @ '']'' @ [newline], n @ '' = '' @ v @ [newline]]"
      unfolding L'_def t by simp
    then show ?thesis using none(2) b by (auto simp: appended_section_def)
  next
    case some
    show ?thesis
    proof (cases "scan_set_value s n (Suc (length pre)) True (Some (length pre)) rest")
      case (ReplaceLine j)
      from scan_active_replace[OF this] obtain p line post found w where
        r: "rest = p @ line # post" "j = Suc (length pre) + length p" "no_headers p"
          "section_header line = None" "assignment line = Some (found, w)"
          "eq_ignore_ascii_case found n" "no_name n (assigned s True p)" by blast
      define e where "e = line_ending line"
      have Lj: "L ! j = line" and upd: "L[j := x] = (pre @ hdr # p) @ x # post" for x
        using some(1) r(1,2) by (auto simp: nth_append list_update_append)
      have t: "doc_text doc' = concat ((pre @ hdr # p) @ (n @ '' = '' @ v @ e) # post)"
        using set some(5) ReplaceLine Lj upd
        by (auto simp: set_value_def res_simps Let_def L_def e_def)
      have el: "e = [newline] \<or> e = [carriage_return, newline]"
        unfolding e_def using LT some(1) r(1) by (intro terminated_ending) simp
      have "L' = (pre @ hdr # p) @ (n @ '' = '' @ v @ e) # post"
        unfolding L'_def t using LT some(1) r(1) terminated_written[OF valid(2,3) el]
        by (intro split_inclusive_concat_terminated) auto
      moreover have "ending e" "e \<noteq> []" using el by (auto simp: ending_def)
      moreover have "active_after s False (pre @ hdr # p)"
        using some(3,4) r(3) by (simp add: active_after_append active_no_headers)
      moreover have "no_name n (assigned s False (pre @ hdr # p))"
        using some(2,3,4) r(7) by (simp add: assigned_append no_section_inactive)
      ultimately have "replaced_line s n v L L'"
        unfolding replaced_line_def using some(1) r by (metis append_Cons append_assoc)
      then show ?thesis by simp
    next
      case (NoAssignment sj e)
      from scan_active_none[OF this] obtain body post where
        r: "sj = Some (length pre)" "rest = body @ post" "e = Suc (length pre) + length body"
          "no_headers body" "no_name n (assigned s True body)"
          "post = [] \<or> section_header (hd post) \<noteq> None" by blast
      have ins: "insert_at (max e (Suc (length pre))) x L = pre @ hdr # body @ x # post" for x
        using some(1) r(2,3) by (simp add: insert_at_def max_def)
      have t: "doc_text doc' = concat (pre @ hdr # body @ (n @ '' = '' @ v @ [newline]) # post)"
        using set some(5) NoAssignment r(1) ins
        by (auto simp: set_value_def res_simps Let_def L_def)
      have "L' = pre @ hdr # body @ (n @ '' = '' @ v @ [newline]) # post"
        unfolding L'_def t using LT some(1) r(2) terminated_written[OF valid(2,3), of "[newline]"]
        by (intro split_inclusive_concat_terminated) auto
      then have "inserted_line s n v L L'"
        unfolding inserted_line_def using some r by metis
      then show ?thesis by simp
    qed
  qed
qed

section \<open>The effect of an edit on the assignments\<close>

lemma map_of_no_name: "no_name n es \<Longrightarrow> eq_ignore_ascii_case k n \<Longrightarrow> map_of es k = None"
  by (induction es) auto

lemma map_of_only_names:
  "\<forall>e \<in> set es. eq_ignore_ascii_case (fst e) n \<Longrightarrow> \<not> eq_ignore_ascii_case k n \<Longrightarrow> map_of es k = None"
  by (induction es) auto

lemma no_name_rev [simp]: "no_name n (rev es) = no_name n es"
  by (auto simp: no_name_def)

lemma headers_Cons:
  "headers (a # ls) = (case section_header a of None \<Rightarrow> headers ls | Some h \<Rightarrow> h # headers ls)"
  by (auto simp: headers_def List.map_filter_def split: option.split)

lemma headers_Nil [simp]: "headers [] = []"
  by (simp add: headers_def List.map_filter_def)

lemma headers_append: "headers (xs @ ys) = headers xs @ headers ys"
  by (induction xs) (auto simp: headers_Cons split: option.splits)

lemma headers_matching:
  "filter (\<lambda>h. eq_ignore_ascii_case h s) (headers ls) = [] \<longleftrightarrow> no_section s ls"
  by (induction ls) (auto simp: headers_Cons split: option.splits)

text \<open>
  The same three parts \<open>P\<close>, \<open>old\<close>, \<open>Q\<close> describe a section before and after an edit: the entries
  before the edited line, the entry it replaces (at most one), the entries after it.
\<close>

lemma set_value_assignments:
  assumes set: "set_value doc s n v = Inr doc'" and tt: "terminated_text (doc_text doc)"
    and tr: "trim s = s"
  obtains P old Q where
    "section_assignments doc s = P @ old @ Q"
    "section_assignments doc' s = P @ [(n, trim (uncomment v))] @ Q"
    "length old \<le> 1" "\<forall>e \<in> set old. eq_ignore_ascii_case (fst e) n" "no_name n P"
    "old = [] \<Longrightarrow>
       length (filter (\<lambda>h. eq_ignore_ascii_case h s) (headers (split_inclusive (doc_text doc)))) \<le> 1 \<Longrightarrow>
       Q = []"
    "\<And>t. \<not> eq_ignore_ascii_case t s \<Longrightarrow> section_assignments doc' t = section_assignments doc t"
proof -
  define L where "L = split_inclusive (doc_text doc)"
  define L' where "L' = split_inclusive (doc_text doc')"
  define new where "new = (n, trim (uncomment v))"
  have valid: "validate_section_name s = Inr ()" "validate_option_name n = Inr ()"
    using set by (auto simp: set_value_def res_simps)
  have w: "assignment (n @ '' = '' @ v @ e) = Some new" "section_header (n @ '' = '' @ v @ e) = None"
    if "ending e" for e
    using written_line[OF valid(2) that] by (simp_all add: new_def)
  have wn: "assignment (n @ '' = '' @ v @ [newline]) = Some new"
    "section_header (n @ '' = '' @ v @ [newline]) = None"
    by (rule w; simp add: ending_def)+
  have unfold_sa: "section_assignments doc t = assigned t False L"
    "section_assignments doc' t = assigned t False L'" for t
    by (simp_all add: section_assignments_def L_def L'_def)
  from set_value_lines[OF set tt] consider (r) "replaced_line s n v L L'"
    | (i) "inserted_line s n v L L'" | (a) "appended_section s n v L L'"
    unfolding L_def L'_def by blast
  then show ?thesis
  proof cases
    case r
    then obtain pre line post found old_v e where d: "L = pre @ line # post"
      "L' = pre @ (n @ '' = '' @ v @ e) # post" "ending e" "section_header line = None"
      "assignment line = Some (found, old_v)" "eq_ignore_ascii_case found n"
      "active_after s False pre" "no_name n (assigned s False pre)"
      unfolding replaced_line_def by blast
    have other: "\<not> active_after t False pre" if "\<not> eq_ignore_ascii_case t s" for t
      using active_same_section d(7) that by blast
    show ?thesis
      by (rule that[of "assigned s False pre" "[(found, old_v)]" "assigned s True post"])
         (use d w[OF d(3)] other in \<open>auto simp: unfold_sa assigned_append new_def\<close>)
  next
    case i
    then obtain pre hdr h body post where d: "L = pre @ hdr # body @ post"
      "L' = pre @ hdr # body @ (n @ '' = '' @ v @ [newline]) # post"
      "no_section s pre" "section_header hdr = Some h" "eq_ignore_ascii_case h s"
      "no_headers body" "no_name n (assigned s True body)"
      "post = [] \<or> section_header (hd post) \<noteq> None"
      unfolding inserted_line_def by blast
    have other: "\<not> eq_ignore_ascii_case h t" if "\<not> eq_ignore_ascii_case t s" for t
      using d(5) that by (meson eq_ignore_sym eq_ignore_trans)
    have "assigned s True post = []"
      if "length (filter (\<lambda>h. eq_ignore_ascii_case h s) (headers L)) \<le> 1"
    proof -
      have "no_section s post"
        using that d(4,5) d(3) by (simp add: d(1) headers_append headers_Cons headers_matching [symmetric])
      then show ?thesis using d(8)
        by (cases post) (auto dest: no_section_inactive)
    qed
    then show ?thesis
      using d wn other
      by (intro that[of "assigned s True body" "[]" "assigned s True post"])
         (auto simp: unfold_sa assigned_append new_def no_section_inactive active_no_headers L_def[symmetric])
  next
    case a
    then obtain blank where d: "no_section s L" "blank = [] \<or> blank = [[newline]]"
      "L' = L @ blank @ [''['' @ s @ '']'' @ [newline], n @ '' = '' @ v @ [newline]]"
      unfolding appended_section_def by blast
    have h: "section_header (''['' @ s @ '']'' @ [newline]) = Some s"
      using written_header[OF valid(1)] tr by simp
    have blank_line: "assignment [newline] = None" "section_header [newline] = None"
      by (simp_all add: assignment_def section_header_def strip_prefix_def starts_with_def)
    have b: "assigned t c blank = []" "active_after t c blank = c" for t c
      using d(2) blank_line by auto
    show ?thesis
      by (rule that[of "[]" "[]" "[]"])
         (use d(1,3) h wn in \<open>auto simp: unfold_sa assigned_append b new_def no_section_inactive
            dest: eq_ignore_sym\<close>)
  qed
qed

definition unambiguous :: "config_document \<Rightarrow> string \<Rightarrow> string \<Rightarrow> bool" where
  "unambiguous doc section name \<longleftrightarrow>
     length (filter (\<lambda>h. eq_ignore_ascii_case h section)
       (headers (split_inclusive (doc_text doc)))) \<le> 1 \<and>
     length (filter (\<lambda>(n, _). eq_ignore_ascii_case n name) (section_assignments doc section)) \<le> 1"

lemma filter_names_empty: "filter (\<lambda>(k, _). eq_ignore_ascii_case k n) es = [] \<longleftrightarrow> no_name n es"
  by (induction es) auto

lemma set_value_lookup:
  assumes "set_value doc section name value = Inr doc'"
    and "terminated_text (doc_text doc)" and "trim section = section"
    and "unambiguous doc section name"
  shows "btree_get (explicit_values doc' section) name = Some (trim (uncomment value))"
proof -
  obtain P old Q where d: "section_assignments doc section = P @ old @ Q"
    "section_assignments doc' section = P @ [(name, trim (uncomment value))] @ Q"
    "\<forall>e \<in> set old. eq_ignore_ascii_case (fst e) name"
    and q0: "old = [] \<Longrightarrow>
       length (filter (\<lambda>h. eq_ignore_ascii_case h section)
         (headers (split_inclusive (doc_text doc)))) \<le> 1 \<Longrightarrow> Q = []"
    by (rule set_value_assignments[OF assms(1-3)], rule that)
  have q: "old = [] \<Longrightarrow> Q = []"
    using q0 assms(4) by (simp add: unambiguous_def)
  have "no_name name Q"
  proof (cases old)
    case (Cons e es)
    have "length (filter (\<lambda>(n, _). eq_ignore_ascii_case n name) (P @ old @ Q)) \<le> 1"
      using assms(4) d(1) by (simp add: unambiguous_def)
    then have "filter (\<lambda>(n, _). eq_ignore_ascii_case n name) Q = []"
      using Cons d(3) by (auto simp: case_prod_unfold)
    then show ?thesis by (simp only: filter_names_empty)
  qed (simp add: q)
  then have "map_of (rev Q) name = None" by (simp add: map_of_no_name)
  then show ?thesis by (simp add: explicit_values_get d(2) map_add_def)
qed

text \<open>A document with a comment, a channel, a flat section and a scoped section.\<close>

definition sample_document :: config_document where
  "sample_document = document_new
     (''; site'' @ [newline] @ ''[usb]'' @ [newline] @ ''hardware_profile = a'' @ [newline] @
      ''[hardware]'' @ [newline] @ ''gain = 1 # low'' @ [newline] @
      ''[hardware a]'' @ [newline] @ ''gain = 3'' @ [newline])"

definition sample_edited :: config_document where
  "sample_edited = document_new
     (''; site'' @ [newline] @ ''[usb]'' @ [newline] @ ''hardware_profile = a'' @ [newline] @
      ''[hardware]'' @ [newline] @ ''gain = 2 ; mid'' @ [newline] @
      ''[hardware a]'' @ [newline] @ ''gain = 3'' @ [newline])"

lemma sample_set: "set_value sample_document ''hardware'' ''gain'' ''2 ; mid'' = Inr sample_edited"
  by code_simp

lemma sample_terminated: "terminated_text (doc_text sample_document)"
  by code_simp

lemma sample_trim: "trim ''hardware'' = ''hardware''"
  by code_simp

lemma set_value_others:
  assumes "set_value doc section name value = Inr doc'"
    and "terminated_text (doc_text doc)" and "trim section = section"
    and "\<not> (eq_ignore_ascii_case other section \<and> eq_ignore_ascii_case key name)"
  shows "btree_get (explicit_values doc' other) key = btree_get (explicit_values doc other) key"
proof -
  obtain P old Q where d: "section_assignments doc section = P @ old @ Q"
    "section_assignments doc' section = P @ [(name, trim (uncomment value))] @ Q"
    "\<forall>e \<in> set old. eq_ignore_ascii_case (fst e) name"
    and o: "\<And>t. \<not> eq_ignore_ascii_case t section \<Longrightarrow>
      section_assignments doc' t = section_assignments doc t"
    by (rule set_value_assignments[OF assms(1-3)], rule that)
  show ?thesis
  proof (cases "eq_ignore_ascii_case other section")
    case True
    then have k: "\<not> eq_ignore_ascii_case key name" using assms(4) by simp
    have same: "section_assignments x other = section_assignments x section" for x
      unfolding section_assignments_def by (rule assigned_cong_section[OF True])
    have "map_of (rev old) key = None" using map_of_only_names[of "rev old"] d(3) k by simp
    moreover have "key \<noteq> name" using k by auto
    ultimately show ?thesis
      by (simp add: explicit_values_get same d(1,2) map_add_def split: option.splits)
  next
    case False
    then show ?thesis by (simp add: explicit_values_get o)
  qed
qed

text \<open>C30: What \<open>set_value\<close> does to the lookups, on a newline-terminated document and with the section name
  written without outer white space. Every option of every other section, and every other option of the edited
  section (names compared up to case), reads as before. The option itself then reads as the value that was set,
  without its comment and outer white space, when the document does not open the section twice and does not
  assign the option twice in it.\<close>

theorem set_value_lookups:
  assumes "set_value doc section name value = Inr doc'"
    and "terminated_text (doc_text doc)" and "trim section = section"
  shows "(unambiguous doc section name \<longrightarrow>
      btree_get (explicit_values doc' section) name = Some (trim (uncomment value))) \<and>
    (\<forall>other key. \<not> (eq_ignore_ascii_case other section \<and> eq_ignore_ascii_case key name) \<longrightarrow>
      btree_get (explicit_values doc' other) key = btree_get (explicit_values doc other) key)"
  using set_value_lookup [OF assms] set_value_others [OF assms] by blast

theorem set_value_lookups_witness:
  "btree_get (explicit_values sample_edited ''hardware'') ''gain'' = Some ''2'' \<and>
   btree_get (explicit_values sample_edited ''hardware a'') ''gain'' =
     btree_get (explicit_values sample_document ''hardware a'') ''gain''"
proof -
  have u: "unambiguous sample_document ''hardware'' ''gain''" by code_simp
  have v: "trim (uncomment ''2 ; mid'') = ''2''" by code_simp
  have n: "\<not> (eq_ignore_ascii_case ''hardware a'' ''hardware'' \<and> eq_ignore_ascii_case ''gain'' ''gain'')"
    by code_simp
  show ?thesis
    using set_value_lookups [OF sample_set sample_terminated sample_trim] u n unfolding v by blast
qed

text \<open>\<open>set_value\<close> keeps every other line byte for byte, comments included: the new lines are the old
  ones with at most one line replaced, which assigned this option, by at most three.\<close>

theorem set_value_keeps_other_lines:
  assumes "set_value doc section name value = Inr doc'" and "terminated_text (doc_text doc)"
  shows "\<exists>pre old new post.
     split_inclusive (doc_text doc) = pre @ old @ post \<and>
     split_inclusive (doc_text doc') = pre @ new @ post \<and>
     length old \<le> 1 \<and> length new \<le> 3 \<and>
     (\<forall>l \<in> set old. \<exists>n v. section_header l = None \<and> assignment l = Some (n, v) \<and>
        eq_ignore_ascii_case n name)"
proof -
  consider "replaced_line section name value (split_inclusive (doc_text doc)) (split_inclusive (doc_text doc'))"
    | "inserted_line section name value (split_inclusive (doc_text doc)) (split_inclusive (doc_text doc'))"
    | "appended_section section name value (split_inclusive (doc_text doc)) (split_inclusive (doc_text doc'))"
    using set_value_lines[OF assms] by blast
  then show ?thesis
  proof cases
    case 1
    then obtain pre line post found w e where
      d: "split_inclusive (doc_text doc) = pre @ [line] @ post"
      "split_inclusive (doc_text doc') = pre @ [name @ '' = '' @ value @ e] @ post"
      "section_header line = None" "assignment line = Some (found, w)"
      "eq_ignore_ascii_case found name"
      unfolding replaced_line_def by auto
    then show ?thesis
      by (intro exI[of _ pre] exI[of _ "[line]"] exI[of _ "[name @ '' = '' @ value @ e]"] exI[of _ post])
         simp
  next
    case 2
    then obtain pre hdr body post where
      d: "split_inclusive (doc_text doc) = (pre @ hdr # body) @ [] @ post"
      "split_inclusive (doc_text doc') =
         (pre @ hdr # body) @ [name @ '' = '' @ value @ [newline]] @ post"
      unfolding inserted_line_def by auto
    then show ?thesis
      by (intro exI[of _ "pre @ hdr # body"] exI[of _ "[]"]
          exI[of _ "[name @ '' = '' @ value @ [newline]]"] exI[of _ post]) simp
  next
    case 3
    then obtain blank where
      d: "split_inclusive (doc_text doc') = split_inclusive (doc_text doc) @
            (blank @ [''['' @ section @ '']'' @ [newline], name @ '' = '' @ value @ [newline]]) @ []"
      "length blank \<le> 1"
      unfolding appended_section_def by auto
    then show ?thesis
      by (intro exI[of _ "split_inclusive (doc_text doc)"] exI[of _ "[]"]
          exI[of _ "blank @ [''['' @ section @ '']'' @ [newline], name @ '' = '' @ value @ [newline]]"]
          exI[of _ "[]"]) simp
  qed
qed

theorem set_value_keeps_other_lines_witness:
  "\<exists>pre old new post.
     split_inclusive (doc_text sample_document) = pre @ old @ post \<and>
     split_inclusive (doc_text sample_edited) = pre @ new @ post \<and>
     length old \<le> 1 \<and> length new \<le> 3"
  using set_value_keeps_other_lines [OF sample_set sample_terminated] by blast

section \<open>Removing an assignment\<close>

lemma scan_remove_some:
  "scan_remove_value s n i a ls = Some j \<Longrightarrow>
   \<exists>pre line post found v. ls = pre @ line # post \<and> j = i + length pre \<and>
     section_header line = None \<and> assignment line = Some (found, v) \<and>
     eq_ignore_ascii_case found n \<and> active_after s a pre \<and> no_name n (assigned s a pre)"
proof (induction ls arbitrary: i a)
  case (Cons l ls)
  show ?case
  proof (cases "a \<and> (\<exists>found v. section_header l = None \<and> assignment l = Some (found, v) \<and>
      eq_ignore_ascii_case found n)")
    case True
    then obtain found v where "section_header l = None" "assignment l = Some (found, v)"
      "eq_ignore_ascii_case found n" by blast
    then have "l # ls = [] @ l # ls \<and> j = i + length ([] :: string list) \<and>
      section_header l = None \<and> assignment l = Some (found, v) \<and> eq_ignore_ascii_case found n \<and>
      active_after s a [] \<and> no_name n (assigned s a [])"
      using Cons.prems True by simp
    then show ?thesis by blast
  next
    case False
    define a' where "a' = active_after s a [l]"
    have r: "scan_remove_value s n (Suc i) a' ls = Some j" and nn: "no_name n (assigned s a [l])"
      using Cons.prems False by (auto simp: a'_def split: option.splits if_splits)
    obtain pre line post found v where d: "ls = pre @ line # post" "j = Suc i + length pre"
      "section_header line = None" "assignment line = Some (found, v)"
      "eq_ignore_ascii_case found n" "active_after s a' pre" "no_name n (assigned s a' pre)"
      using Cons.IH[OF r] by blast
    have "active_after s a (l # pre)" "no_name n (assigned s a (l # pre))"
      using d(6,7) nn active_after_append[of s a "[l]" pre] assigned_append[of s a "[l]" pre]
      by (simp_all add: a'_def)
    then have "l # ls = (l # pre) @ line # post \<and> j = i + length (l # pre) \<and>
      section_header line = None \<and> assignment line = Some (found, v) \<and>
      eq_ignore_ascii_case found n \<and> active_after s a (l # pre) \<and>
      no_name n (assigned s a (l # pre))" using d by simp
    then show ?thesis by blast
  qed
qed simp

lemma scan_remove_none: "scan_remove_value s n i a ls = None \<Longrightarrow> no_name n (assigned s a ls)"
  by (induction ls arbitrary: i a) (auto split: option.splits if_splits)

text \<open>The entries of a section without the first one of a given name.\<close>

fun without_first :: "string \<Rightarrow> (string \<times> string) list \<Rightarrow> (string \<times> string) list" where
  "without_first n [] = []"
| "without_first n ((k, v) # es) =
     (if eq_ignore_ascii_case k n then es else (k, v) # without_first n es)"

lemma without_first_here:
  "no_name n P \<Longrightarrow> eq_ignore_ascii_case k n \<Longrightarrow> without_first n (P @ (k, v) # Q) = P @ Q"
  by (induction P) auto

lemma without_first_absent: "no_name n es \<Longrightarrow> without_first n es = es"
  by (induction es) auto

lemma concat_remove_at: "L = pre @ line # post \<Longrightarrow> remove_at (length pre) L = pre @ post"
  by (simp add: remove_at_def)

text \<open>\<open>remove_value\<close> reports whether the section assigns the option, removes exactly the first such
  assignment, and leaves the assignments of every other section alone.\<close>

theorem remove_value_correct:
  assumes "remove_value doc section name = Inr (removed, doc')"
    and "terminated_text (doc_text doc)"
  shows "(removed \<longleftrightarrow> (\<exists>(k, v) \<in> set (section_assignments doc section). eq_ignore_ascii_case k name)) \<and>
    section_assignments doc' other =
      (if eq_ignore_ascii_case other section
       then without_first name (section_assignments doc other)
       else section_assignments doc other)"
proof -
  define L where "L = split_inclusive (doc_text doc)"
  have same: "section_assignments d other = section_assignments d section"
    if "eq_ignore_ascii_case other section" for d
    unfolding section_assignments_def by (rule assigned_cong_section[OF that])
  have no: "(\<exists>(k, v) \<in> set es. eq_ignore_ascii_case k name) \<longleftrightarrow> \<not> no_name name es" for es
    by (auto simp: no_name_def)
  show ?thesis
  proof (cases "scan_remove_value section name 0 False L")
    case None
    then have "removed = False" "doc' = doc"
      using assms(1) by (auto simp: remove_value_def res_simps Let_def L_def)
    moreover have "no_name name (section_assignments doc section)"
      using scan_remove_none[OF None] by (simp add: section_assignments_def L_def)
    ultimately show ?thesis
      using same[of doc] by (simp add: no without_first_absent)
  next
    case (Some j)
    from scan_remove_some[OF this] obtain pre line post found v where
      d: "L = pre @ line # post" "j = length pre" "section_header line = None"
        "assignment line = Some (found, v)" "eq_ignore_ascii_case found name"
        "active_after section False pre" "no_name name (assigned section False pre)" by auto
    have text': "removed = True" "doc_text doc' = concat (pre @ post)"
      using assms(1) Some concat_remove_at[OF d(1)] d(2)
      by (auto simp: remove_value_def res_simps Let_def L_def)
    have "\<forall>l \<in> set L. terminated_line l"
      unfolding L_def by (rule terminated_text_lines[OF assms(2)])
    then have L': "split_inclusive (doc_text doc') = pre @ post"
      unfolding text'(2) by (intro split_inclusive_concat_terminated) (auto simp: d(1))
    have old: "section_assignments doc section =
        assigned section False pre @ (found, v) # assigned section True post"
      using d(3,4,6) by (simp add: section_assignments_def L_def[symmetric] d(1) assigned_append)
    have new: "section_assignments doc' section =
        assigned section False pre @ assigned section True post"
      using d(6) by (simp add: section_assignments_def L' assigned_append)
    have frame: "section_assignments doc' other = section_assignments doc other"
      if "\<not> eq_ignore_ascii_case other section"
    proof -
      have "\<not> active_after other False pre" using active_same_section d(6) that by blast
      then show ?thesis
        using d(3) by (simp add: section_assignments_def L_def[symmetric] L' d(1) assigned_append)
    qed
    show ?thesis
      using text'(1) d(5,7) old new frame same
      by (simp add: no without_first_here)
  qed
qed

theorem remove_value_correct_witness:
  "section_assignments (document_new (''; site'' @ [newline] @ ''[usb]'' @ [newline] @
     ''hardware_profile = a'' @ [newline] @ ''[hardware]'' @ [newline] @
     ''[hardware a]'' @ [newline] @ ''gain = 3'' @ [newline])) ''hardware'' =
   without_first ''GAIN'' (section_assignments sample_document ''hardware'')"
proof -
  have "remove_value sample_document ''hardware'' ''GAIN'' =
      Inr (True, document_new (''; site'' @ [newline] @ ''[usb]'' @ [newline] @
     ''hardware_profile = a'' @ [newline] @ ''[hardware]'' @ [newline] @
     ''[hardware a]'' @ [newline] @ ''gain = 3'' @ [newline]))"
    by code_simp
  from remove_value_correct [OF this sample_terminated, of "''hardware''"]
  show ?thesis by simp
qed

section \<open>Sections, channels and profile selection\<close>

lemma unseen_sections_cover:
  "h \<in> set hs \<Longrightarrow> to_ascii_lowercase h \<notin> set seen \<Longrightarrow>
   \<exists>s \<in> set (unseen_sections seen hs). eq_ignore_ascii_case s h"
proof (induction seen hs rule: unseen_sections.induct)
  case (2 seen x rest)
  show ?case
  proof (cases "to_ascii_lowercase x = to_ascii_lowercase h")
    case True
    then show ?thesis using 2 by (auto simp: Let_def eq_ignore_ascii_case_def)
  next
    case False
    then have "h \<in> set rest" using "2.prems"(1) by auto
    then show ?thesis using 2 False by (auto simp: Let_def)
  qed
qed simp

lemma unseen_sections_subset: "set (unseen_sections seen hs) \<subseteq> set hs"
  by (induction seen hs rule: unseen_sections.induct) (auto simp: Let_def)

lemma unseen_sections_fresh:
  "s \<in> set (unseen_sections seen hs) \<Longrightarrow> to_ascii_lowercase s \<notin> set seen"
proof (induction seen hs rule: unseen_sections.induct)
  case (2 seen x rest)
  then show ?case by (cases "to_ascii_lowercase x \<in> set seen") (auto simp: Let_def)
qed simp

lemma unseen_sections_distinct: "distinct (map to_ascii_lowercase (unseen_sections seen hs))"
proof (induction seen hs rule: unseen_sections.induct)
  case (2 seen x rest)
  have "to_ascii_lowercase x \<notin>
      to_ascii_lowercase ` set (unseen_sections (to_ascii_lowercase x # seen) rest)"
    using unseen_sections_fresh[of _ "to_ascii_lowercase x # seen" rest] by force
  then show ?case using 2 by (simp add: Let_def)
qed simp

text \<open>\<open>section_names\<close> lists each section once up to case, and \<open>has_section\<close> finds exactly the sections
  it lists.\<close>

theorem section_names_canonical:
  "distinct (map to_ascii_lowercase (section_names doc)) \<and>
   (has_section doc requested \<longleftrightarrow>
      (\<exists>s \<in> set (section_names doc). eq_ignore_ascii_case s requested))"
proof -
  have "has_section doc requested \<longleftrightarrow>
      (\<exists>h \<in> set (headers (doc_lines doc)). eq_ignore_ascii_case h requested)"
    by (auto simp: has_section_def list_ex_iff)
  also have "\<dots> \<longleftrightarrow> (\<exists>s \<in> set (section_names doc). eq_ignore_ascii_case s requested)"
    using unseen_sections_cover[of _ "headers (doc_lines doc)" "[]"]
      unseen_sections_subset[of "[]" "headers (doc_lines doc)"] eq_ignore_trans
    unfolding section_names_def by (metis empty_iff empty_set subset_eq)
  finally show ?thesis using unseen_sections_distinct by (simp add: section_names_def)
qed

definition configured :: "config_document \<Rightarrow> string \<Rightarrow> bool" where
  "configured doc channel \<longleftrightarrow>
     (\<exists>c \<in> set (configured_channels doc). eq_ignore_ascii_case c channel)"

text \<open>Profile selection fails only for an invalid name or a channel that is not configured, and then
  appends no warning. Otherwise it returns an existing section, the flat section of the kind or the
  channel itself, and appends at most one warning: only when a profile with another name than the
  channel was selected and has no section, recording the fallback it returned.\<close>

theorem resolved_section_outcomes:
  "case resolved_section doc channel kind source warnings of
     (Inl e, ws) \<Rightarrow> ws = warnings \<and>
       (e = InvalidSectionName \<or> e = MissingChannel channel \<and> \<not> configured doc channel)
   | (Inr section, ws) \<Rightarrow> configured doc channel \<and>
       (has_section doc section \<or> section = kind \<or> section = channel) \<and>
       (ws = warnings \<or>
        (\<exists>w. ws = warnings @ [w] \<and> warn_kind w = InvalidValue \<and> warn_fallback w = section \<and>
           \<not> has_section doc (kind @ '' '' @ warn_supplied_value w) \<and>
           \<not> eq_ignore_ascii_case (warn_supplied_value w) channel))"
proof -
  have c: "list_ex (\<lambda>candidate. eq_ignore_ascii_case candidate channel) (configured_channels doc) =
      configured doc channel"
    by (auto simp: configured_def list_ex_iff)
  have v: "validate_section_name s = Inl e \<Longrightarrow> e = InvalidSectionName" for s e
    by (auto simp: validate_section_name_def split: if_splits)
  show ?thesis
    by (auto simp: resolved_section_def selected_section_def c Let_def res_simps
        split: sum.splits config_error.splits if_splits dest: v)
qed

section \<open>Edits that a reader does not see\<close>

text \<open>
  Without the two side conditions of \<open>set_value_lookups\<close> the edit and the reader disagree. An
  unterminated last line absorbs the inserted assignment, here into the value of another option.
\<close>

lemma set_value_joins_unterminated_line:
  "\<exists>doc'. set_value (document_new (''[usb]'' @ [newline] @ ''b = 2'')) ''usb'' ''a'' ''1'' = Inr doc' \<and>
     explicit_values doc' ''usb'' = [(''b'', ''2a = 1'')]"
  by (rule exI[of _ "document_new (''[usb]'' @ [newline] @ ''b = 2a = 1'' @ [newline])"]) code_simp

text \<open>The edit replaces the first of two assignments; readers take the last.\<close>

lemma set_value_shadowed_by_duplicate:
  "\<exists>doc'. set_value
       (document_new (''[usb]'' @ [newline] @ ''a = 1'' @ [newline] @ ''a = 2'' @ [newline]))
       ''usb'' ''a'' ''3'' = Inr doc' \<and>
     btree_get (explicit_values doc' ''usb'') ''a'' = Some ''2''"
  by (rule exI[of _ "document_new
       (''[usb]'' @ [newline] @ ''a = 3'' @ [newline] @ ''a = 2'' @ [newline])"]) code_simp

end
