(* ===== verification/Setting_Appliers.thy ===== *)
theory Setting_Appliers
  imports Config_Document
begin

text \<open>
  The contract that both configuration resolvers rely on: applying one setting either stores a value
  and warns about nothing, or appends exactly one warning and leaves the configuration as it was; and
  it keeps the invariant of the configuration. What follows for a sequence of settings is proved once
  here; \<^verbatim>\<open>Profile_Resolution\<close> and \<^verbatim>\<open>Station_Resolution\<close> interpret the locale on the program's
  own appliers.
\<close>

section \<open>A sequence of settings\<close>

fun apply_each :: "('k \<Rightarrow> 'c \<Rightarrow> warnings \<Rightarrow> 'c \<times> warnings) \<Rightarrow> 'k list \<Rightarrow> 'c \<Rightarrow> warnings \<Rightarrow> 'c \<times> warnings" where
  "apply_each f [] c ws = (c, ws)"
| "apply_each f (k # ks) c ws = (case f k c ws of (c', ws') \<Rightarrow> apply_each f ks c' ws')"

lemma apply_each_append:
  "apply_each f (ks @ ls) c ws = (case apply_each f ks c ws of (c', ws') \<Rightarrow> apply_each f ls c' ws')"
  by (induction ks arbitrary: c ws) (auto split: prod.splits)

text \<open>The outcome that the contract allows for one setting.\<close>

definition tolerant_step :: "'c \<times> warnings \<Rightarrow> 'c \<times> warnings \<Rightarrow> bool" where
  "tolerant_step before after \<longleftrightarrow>
     snd after = snd before \<or> fst after = fst before \<and> (\<exists>w. snd after = snd before @ [w])"

lemma tolerant_step_silent [intro]: "tolerant_step (c, ws) (c', ws)"
  by (simp add: tolerant_step_def)

lemma tolerant_step_warns [intro]: "tolerant_step (c, ws) (c, ws @ [w])"
  by (simp add: tolerant_step_def)

section \<open>The contract\<close>

locale setting_applier =
  fixes app :: "'k \<Rightarrow> 'c \<Rightarrow> warnings \<Rightarrow> 'c \<times> warnings"
    and inv :: "'c \<Rightarrow> bool"
  assumes inv_kept: "inv c \<Longrightarrow> inv (fst (app k c ws))"
    and tolerant: "tolerant_step (c, ws) (app k c ws)"
begin

lemma inv_each: "inv c \<Longrightarrow> inv (fst (apply_each app ks c ws))"
proof (induction ks arbitrary: c ws)
  case (Cons k ks)
  then show ?case using inv_kept [of c k ws] by (cases "app k c ws") auto
qed simp

lemma warnings_each:
  "\<exists>new. snd (apply_each app ks c ws) = ws @ new \<and> length new \<le> length ks"
proof (induction ks arbitrary: c ws)
  case (Cons k ks)
  obtain c' ws' where step: "app k c ws = (c', ws')" by (cases "app k c ws")
  obtain new where new: "snd (apply_each app ks c' ws') = ws' @ new" "length new \<le> length ks"
    using Cons.IH by blast
  from tolerant [of c ws k] step consider "ws' = ws" | w where "ws' = ws @ [w]"
    by (auto simp: tolerant_step_def)
  then show ?case
    by cases (use step new in \<open>auto intro: exI [where x = new] exI [where x = "w # new" for w]\<close>)
qed simp

text \<open>As many warnings as settings means that every setting was rejected: the configuration is unchanged.\<close>

lemma all_rejected:
  "snd (apply_each app ks c ws) = ws @ new \<Longrightarrow> length new = length ks \<Longrightarrow>
   fst (apply_each app ks c ws) = c"
proof (induction ks arbitrary: c ws new)
  case (Cons k ks)
  obtain c' ws' where step: "app k c ws = (c', ws')" by (cases "app k c ws")
  obtain tail where tail: "snd (apply_each app ks c' ws') = ws' @ tail" "length tail \<le> length ks"
    using warnings_each by blast
  from tolerant [of c ws k] step consider "ws' = ws" | w where "ws' = ws @ [w]" "c' = c"
    by (auto simp: tolerant_step_def)
  then show ?case
  proof cases
    case 1
    then show ?thesis using Cons.prems step tail by auto
  next
    case 2
    then show ?thesis using Cons.prems step tail Cons.IH [of c ws' tail] by auto
  qed
qed simp

end

section \<open>Settings with case variants\<close>

text \<open>
  Both resolvers walk over the settings of a section with a map \<open>seen\<close> from a normalised name to the
  first value assigned to it: a later variant with the same value is skipped, one with another value
  is an error. \<open>checked_each\<close> is that loop, over any naming \<open>nm\<close>, value \<open>val\<close> and error \<open>err\<close>.
\<close>

fun checked_each ::
  "('s \<Rightarrow> string) \<Rightarrow> ('s \<Rightarrow> string) \<Rightarrow> ('s \<Rightarrow> string \<Rightarrow> 'e) \<Rightarrow> ('s \<Rightarrow> 'c \<Rightarrow> warnings \<Rightarrow> 'c \<times> warnings) \<Rightarrow>
   btree_map \<Rightarrow> 's list \<Rightarrow> 'c \<Rightarrow> warnings \<Rightarrow> ('e, 'c \<times> warnings) result" where
  "checked_each nm val err f seen [] c ws = Inr (c, ws)"
| "checked_each nm val err f seen (s # ss) c ws =
     (case btree_get seen (nm s) of
        Some previous \<Rightarrow>
          if trim previous \<noteq> trim (val s) then Inl (err s previous)
          else checked_each nm val err f seen ss c ws
      | None \<Rightarrow>
          (case f s c ws of
             (c', ws') \<Rightarrow> checked_each nm val err f (btree_insert (nm s) (val s) seen) ss c' ws'))"

text \<open>The settings whose name was not assigned before, in order.\<close>

fun first_assignments :: "('s \<Rightarrow> string) \<Rightarrow> string set \<Rightarrow> 's list \<Rightarrow> 's list" where
  "first_assignments nm seen [] = []"
| "first_assignments nm seen (s # ss) =
     (if nm s \<in> seen then first_assignments nm seen ss
      else s # first_assignments nm (insert (nm s) seen) ss)"

definition consistent :: "('s \<Rightarrow> string) \<Rightarrow> ('s \<Rightarrow> string) \<Rightarrow> 's list \<Rightarrow> bool" where
  "consistent nm val ss \<longleftrightarrow>
     (\<forall>s \<in> set ss. \<forall>t \<in> set ss. nm s = nm t \<longrightarrow> trim (val s) = trim (val t))"

lemma consistent_Nil [simp]: "consistent nm val []"
  by (simp add: consistent_def)

lemma consistent_Cons [simp]:
  "consistent nm val (s # ss) \<longleftrightarrow>
     consistent nm val ss \<and> (\<forall>t \<in> set ss. nm t = nm s \<longrightarrow> trim (val t) = trim (val s))"
  by (auto simp: consistent_def)

lemma first_assignments_subset: "set (first_assignments nm seen ss) \<subseteq> set ss"
  by (induction nm seen ss rule: first_assignments.induct) auto

lemma first_assignments_length: "length (first_assignments nm seen ss) \<le> length ss"
  by (induction nm seen ss rule: first_assignments.induct) auto

lemma first_assignments_distinct:
  "distinct (map nm (first_assignments nm seen ss)) \<and> nm ` set (first_assignments nm seen ss) = nm ` set ss - seen"
  by (induction nm seen ss rule: first_assignments.induct) auto

lemma checked_each_consistent:
  "consistent nm val ss \<Longrightarrow>
   \<forall>s \<in> set ss. \<forall>p. btree_get seen (nm s) = Some p \<longrightarrow> trim p = trim (val s) \<Longrightarrow>
   checked_each nm val err f seen ss c ws =
     Inr (apply_each f (first_assignments nm (dom (btree_get seen)) ss) c ws)"
proof (induction ss arbitrary: seen c ws)
  case (Cons s ss)
  have tail: "consistent nm val ss" using Cons.prems(1) by simp
  show ?case
  proof (cases "btree_get seen (nm s)")
    case None
    let ?seen = "btree_insert (nm s) (val s) seen"
    have later: "\<forall>t \<in> set ss. \<forall>p. btree_get ?seen (nm t) = Some p \<longrightarrow> trim p = trim (val t)"
      using Cons.prems by (simp add: btree_get_insert)
    have dom: "dom (btree_get ?seen) = insert (nm s) (dom (btree_get seen))"
      by (simp add: btree_get_insert)
    obtain c' ws' where "f s c ws = (c', ws')" by (cases "f s c ws")
    then show ?thesis using None Cons.IH [OF tail later, of c' ws'] dom by (simp add: domIff)
  next
    case (Some p)
    have later: "\<forall>t \<in> set ss. \<forall>q. btree_get seen (nm t) = Some q \<longrightarrow> trim q = trim (val t)"
      using Cons.prems(2) by simp
    show ?thesis using Some Cons.prems(2) Cons.IH [OF tail later] by (simp add: domI)
  qed
qed simp

lemma checked_each_accepts:
  "checked_each nm val err f seen ss c ws = Inr r \<Longrightarrow>
   consistent nm val ss \<and>
   (\<forall>s \<in> set ss. \<forall>p. btree_get seen (nm s) = Some p \<longrightarrow> trim p = trim (val s))"
proof (induction ss arbitrary: seen c ws)
  case (Cons s ss)
  show ?case
  proof (cases "btree_get seen (nm s)")
    case None
    obtain c' ws' where "f s c ws = (c', ws')" by (cases "f s c ws")
    then have "checked_each nm val err f (btree_insert (nm s) (val s) seen) ss c' ws' = Inr r"
      using None Cons.prems by simp
    from Cons.IH [OF this] None show ?thesis by (simp add: btree_get_insert) (metis option.distinct(1))
  next
    case (Some p)
    then have "trim p = trim (val s)" "checked_each nm val err f seen ss c ws = Inr r"
      using Cons.prems by (simp_all split: if_splits)
    with Some Cons.IH [OF this(2)] show ?thesis by auto
  qed
qed simp

lemma checked_each_rejects:
  "checked_each nm val err f seen ss c ws = Inl e \<Longrightarrow>
   \<exists>s p. s \<in> set ss \<and> e = err s p \<and> trim p \<noteq> trim (val s) \<and>
     (btree_get seen (nm s) = Some p \<or> (\<exists>t. t \<in> set ss \<and> nm t = nm s \<and> val t = p))"
proof (induction ss arbitrary: seen c ws)
  case (Cons s ss)
  show ?case
  proof (cases "btree_get seen (nm s)")
    case None
    obtain c' ws' where "f s c ws = (c', ws')" by (cases "f s c ws")
    then have "checked_each nm val err f (btree_insert (nm s) (val s) seen) ss c' ws' = Inl e"
      using None Cons.prems by simp
    from Cons.IH [OF this] obtain t p where t: "t \<in> set ss" "e = err t p" "trim p \<noteq> trim (val t)"
      and p: "btree_get (btree_insert (nm s) (val s) seen) (nm t) = Some p \<or>
        (\<exists>u. u \<in> set ss \<and> nm u = nm t \<and> val u = p)" by blast
    from p have "btree_get seen (nm t) = Some p \<or> (\<exists>u. u \<in> set (s # ss) \<and> nm u = nm t \<and> val u = p)"
      by (auto simp: btree_get_insert split: if_splits)
    then show ?thesis using t by (intro exI [of _ t] exI [of _ p]) simp
  next
    case (Some q)
    show ?thesis
    proof (cases "trim q = trim (val s)")
      case True
      then have "checked_each nm val err f seen ss c ws = Inl e" using Some Cons.prems by simp
      from Cons.IH [OF this] show ?thesis by (metis list.set_intros(2))
    next
      case False
      then have "e = err s q" using Some Cons.prems by simp
      then show ?thesis using False Some by (intro exI [of _ s] exI [of _ q]) simp
    qed
  qed
qed simp

text \<open>The loop succeeds exactly when the variants agree, and then it applies the first assignments.\<close>

lemma checked_each_ok:
  "consistent nm val ss \<Longrightarrow>
   checked_each nm val err f [] ss c ws = Inr (apply_each f (first_assignments nm {} ss) c ws)"
  using checked_each_consistent [of nm val ss "[]" err f c ws] by (simp add: dom_def)

lemma checked_each_conflict:
  assumes "\<not> consistent nm val ss"
  shows "\<exists>s t. s \<in> set ss \<and> t \<in> set ss \<and> nm t = nm s \<and> trim (val t) \<noteq> trim (val s) \<and>
           checked_each nm val err f [] ss c ws = Inl (err s (val t))"
proof (cases "checked_each nm val err f [] ss c ws")
  case (Inl e)
  from checked_each_rejects [OF this] Inl show ?thesis by auto
next
  case (Inr r)
  from checked_each_accepts [OF this] assms show ?thesis by simp
qed

end
