(* ===== verification/Rust_Float.thy ===== *)
theory Rust_Float
  imports Prelude Complex_Main
begin

text \<open>
  The binary floating-point values of Rust (\<open>f32\<close>, \<open>f64\<close>) as far as the configuration code uses
  them: literals, comparison, \<open>is_finite\<close>, \<open>str::parse\<close> and \<open>Display\<close>. A finite value is its sign bit
  and its exact magnitude, a rational number; literals, parsed text and quotients round to nearest,
  ties to even, in the precision of the format, with gradual underflow and overflow to infinity.
\<close>

section \<open>Values and formats\<close>

datatype rust_float = FNaN | FInf bool | FFin bool rat

record float_format =
  mantissa_bits :: nat
  min_exponent :: int
  max_exponent :: int

definition f64_format :: float_format where
  "f64_format = \<lparr>mantissa_bits = 53, min_exponent = -1074, max_exponent = 1024\<rparr>"

definition f32_format :: float_format where
  "f32_format = \<lparr>mantissa_bits = 24, min_exponent = -149, max_exponent = 128\<rparr>"

section \<open>Rounding\<close>

definition pow2 :: "int \<Rightarrow> rat" where
  "pow2 e = (if 0 \<le> e then 2 ^ nat e else 1 / 2 ^ nat (- e))"

definition pow10 :: "int \<Rightarrow> rat" where
  "pow10 e = (if 0 \<le> e then 10 ^ nat e else 1 / 10 ^ nat (- e))"

function bit_length :: "int \<Rightarrow> int" where
  "bit_length n = (if n \<le> 0 then 0 else 1 + bit_length (n div 2))"
  by pat_completeness auto
termination
  by (relation "measure nat") auto

declare bit_length.simps [simp del]

text \<open>The exponent \<open>e\<close> with \<open>2\<^sup>e \<le> q < 2\<^sup>e\<^sup>+\<^sup>1\<close>, for positive \<open>q\<close>.\<close>

definition ilog2 :: "rat \<Rightarrow> int" where
  "ilog2 q =
     (let (n, d) = quotient_of q;
          k = bit_length n - bit_length d
      in if pow2 k \<le> q then k else k - 1)"

definition round_even :: "rat \<Rightarrow> int" where
  "round_even q =
     (let f = \<lfloor>q\<rfloor>; r = q - of_int f in
      if r < 1 / 2 then f else if 1 / 2 < r then f + 1 else if even f then f else f + 1)"

definition round_magnitude :: "float_format \<Rightarrow> rat \<Rightarrow> rat option" where
  "round_magnitude fmt q =
     (if q = 0 then Some 0
      else
        (let e = max (ilog2 q - int (mantissa_bits fmt) + 1) (min_exponent fmt);
             v = of_int (round_even (q / pow2 e)) * pow2 e
         in if pow2 (max_exponent fmt) \<le> v then None else Some v))"

definition float_of :: "float_format \<Rightarrow> bool \<Rightarrow> rat \<Rightarrow> rust_float" where
  "float_of fmt neg q =
     (case round_magnitude fmt q of None \<Rightarrow> FInf neg | Some v \<Rightarrow> FFin neg v)"

text \<open>A literal of type \<open>f64\<close>.\<close>

definition f64 :: "rat \<Rightarrow> rust_float" where
  "f64 q = float_of f64_format (q < 0) \<bar>q\<bar>"

section \<open>Comparison\<close>

fun fval :: "bool \<Rightarrow> rat \<Rightarrow> rat" where
  "fval neg q = (if neg then - q else q)"

fun is_finite :: "rust_float \<Rightarrow> bool" where
  "is_finite (FFin _ _) = True"
| "is_finite _ = False"

fun float_le :: "rust_float \<Rightarrow> rust_float \<Rightarrow> bool" where
  "float_le FNaN _ = False"
| "float_le _ FNaN = False"
| "float_le (FInf a) (FInf b) = (a \<or> \<not> b)"
| "float_le (FInf a) (FFin _ _) = a"
| "float_le (FFin _ _) (FInf b) = (\<not> b)"
| "float_le (FFin a p) (FFin b q) = (fval a p \<le> fval b q)"

fun float_lt :: "rust_float \<Rightarrow> rust_float \<Rightarrow> bool" where
  "float_lt FNaN _ = False"
| "float_lt _ FNaN = False"
| "float_lt (FInf a) (FInf b) = (a \<and> \<not> b)"
| "float_lt (FInf a) (FFin _ _) = a"
| "float_lt (FFin _ _) (FInf b) = (\<not> b)"
| "float_lt (FFin a p) (FFin b q) = (fval a p < fval b q)"

section \<open>Parsing\<close>

text \<open>\<open>Some e\<close> for an empty rest or an exponent part.\<close>

definition parse_exponent :: "string \<Rightarrow> int option" where
  "parse_exponent s =
     (case s of
        [] \<Rightarrow> Some 0
      | c # rest \<Rightarrow>
          if c = CHR ''e'' \<or> c = CHR ''E'' then
            (let (neg, ds) =
               (case rest of
                  [] \<Rightarrow> (False, [])
                | d # ds \<Rightarrow> if d = CHR ''-'' then (True, ds) else if d = CHR ''+'' then (False, ds)
                            else (False, d # ds))
             in if ds = [] \<or> \<not> list_all is_ascii_digit ds then None
                else Some (if neg then - digits_value ds else digits_value ds))
          else None)"

text \<open>An unsigned decimal: digits, an optional point and digits, an optional exponent.\<close>

definition parse_decimal :: "string \<Rightarrow> rat option" where
  "parse_decimal s =
     (let whole = takeWhile is_ascii_digit s;
          s1 = dropWhile is_ascii_digit s;
          (frac, s2) =
            (case s1 of
               [] \<Rightarrow> ([], [])
             | c # t \<Rightarrow> if c = CHR ''.'' then (takeWhile is_ascii_digit t, dropWhile is_ascii_digit t)
                        else ([], c # t))
      in if whole @ frac = [] then None
         else map_option (\<lambda>e. of_int (digits_value (whole @ frac)) * pow10 (e - int (length frac)))
                (parse_exponent s2))"

definition parse_float :: "float_format \<Rightarrow> string \<Rightarrow> rust_float option" where
  "parse_float fmt s =
     (let (neg, t) =
        (case s of
           [] \<Rightarrow> (False, [])
         | c # cs \<Rightarrow> if c = CHR ''-'' then (True, cs) else if c = CHR ''+'' then (False, cs)
                     else (False, c # cs))
      in case parse_decimal t of
           Some q \<Rightarrow> Some (float_of fmt neg q)
         | None \<Rightarrow>
             if eq_ignore_ascii_case t ''inf'' \<or> eq_ignore_ascii_case t ''infinity''
             then Some (FInf neg)
             else if eq_ignore_ascii_case t ''nan'' then Some FNaN
             else None)"

section \<open>Display\<close>

text \<open>Zeros after the point before the first digit of \<open>q < 1\<close>; an \<open>f64\<close> has at most 323 of them.\<close>

fun lead_zeros :: "nat \<Rightarrow> rat \<Rightarrow> int" where
  "lead_zeros 0 q = 0"
| "lead_zeros (Suc fuel) q = (if 1 \<le> q * 10 then 0 else 1 + lead_zeros fuel (q * 10))"

text \<open>The exponent \<open>k\<close> with \<open>10\<^sup>k\<^sup>-\<^sup>1 \<le> q < 10\<^sup>k\<close>.\<close>

definition dec_exponent :: "rat \<Rightarrow> int" where
  "dec_exponent q =
     (if 1 \<le> q then int (length (dec_digits \<lfloor>q\<rfloor>)) else - lead_zeros 330 q)"

text \<open>
  The shortest decimal that rounds to \<open>q\<close>, the closest one of that length, as digits and exponent:
  one digit, two digits, \<dots> are tried, and 17 always suffice for an \<open>f64\<close>.
\<close>

definition displays_as :: "rat \<Rightarrow> int \<Rightarrow> int \<Rightarrow> bool" where
  "displays_as q e d \<longleftrightarrow> round_magnitude f64_format (of_int d * pow10 e) = Some q"

definition pick_digits :: "rat \<Rightarrow> int \<Rightarrow> rat \<Rightarrow> int \<Rightarrow> (int \<times> int) option" where
  "pick_digits q e s lo =
     (if displays_as q e lo \<and> (\<not> displays_as q e (lo + 1) \<or> s - of_int lo < 1 / 2) then Some (lo, e)
      else if displays_as q e (lo + 1) then Some (lo + 1, e)
      else None)"

definition scaled :: "rat \<Rightarrow> int \<Rightarrow> rat" where
  "scaled q e = q / pow10 e"

fun shortest :: "nat \<Rightarrow> int \<Rightarrow> rat \<Rightarrow> int \<times> int" where
  "shortest 0 e q = (\<lfloor>scaled q e\<rfloor>, e)"
| "shortest (Suc fuel) e q =
     (case pick_digits q e (scaled q e) \<lfloor>scaled q e\<rfloor> of
        Some r \<Rightarrow> r
      | None \<Rightarrow> shortest fuel (e - 1) q)"

definition put_point :: "string \<Rightarrow> int \<Rightarrow> string" where
  "put_point ds e =
     (if 0 \<le> e then ds @ replicate (nat e) (CHR ''0'')
      else if int (length ds) + e \<le> 0
      then ''0.'' @ replicate (nat (- (int (length ds) + e))) (CHR ''0'') @ ds
      else take (nat (int (length ds) + e)) ds @ ''.'' @ drop (nat (int (length ds) + e)) ds)"

definition place_point :: "int \<Rightarrow> int \<Rightarrow> string" where
  "place_point d e =
     (if d mod 10 = 0 then put_point (dec_digits (d div 10)) (e + 1)
      else put_point (dec_digits d) e)"

fun float_display :: "rust_float \<Rightarrow> string" where
  "float_display FNaN = ''NaN''"
| "float_display (FInf neg) = (if neg then ''-inf'' else ''inf'')"
| "float_display (FFin neg q) =
     (if neg then ''-'' else []) @ (if q = 0 then ''0'' else case_prod place_point (shortest 17 (dec_exponent q - 1) q))"

section \<open>Facts\<close>

lemma float_le_refl [simp]: "float_le a a \<longleftrightarrow> a \<noteq> FNaN"
  by (cases a) auto

lemma float_le_trans: "float_le a b \<Longrightarrow> float_le b c \<Longrightarrow> float_le a c"
  by (cases a; cases b; cases c) auto

lemma float_lt_le: "float_lt a b \<Longrightarrow> float_le a b"
  by (cases a; cases b) auto

lemma float_lt_iff: "float_lt a b \<longleftrightarrow> float_le a b \<and> \<not> float_le b a"
  by (cases a; cases b) auto

lemma float_le_finite:
  "float_le a x \<Longrightarrow> float_le x b \<Longrightarrow> is_finite a \<Longrightarrow> is_finite b \<Longrightarrow> is_finite x"
  by (cases a; cases x; cases b) auto

end
