(* ===== verification/Processing_Profile.thy ===== *)
theory Processing_Profile
  imports Stage_Order Rust_Float
begin

text \<open>
  The typed settings of one processing chain, \<^verbatim>\<open>rust/core/src/processing_profile.rs\<close>: the records of
  the stages with their shipped defaults, the chain a role ships with, and \<open>validate\<close>, the sequence of
  range, ordering and role checks that every resolved chain passes. Record fields carry a prefix of
  their record (\<open>eq_\<close> equalizer, \<open>de_\<close> de-esser, \<open>agc_\<close>, \<open>ex_\<close> expander, \<open>band_\<close>, \<open>co_\<close> compressor, \<open>li_\<close>
  limiter, \<open>rc_\<close> receive conditioning, \<open>pk_\<close> peak limiter, \<open>tt_\<close> transmit tail).
\<close>

section \<open>Roles and stage settings\<close>

datatype chain_role = LocalReceive | Link | VoiceTelemetry

fun chain_role_debug :: "chain_role \<Rightarrow> string" where
  "chain_role_debug LocalReceive = ''LocalReceive''"
| "chain_role_debug Link = ''Link''"
| "chain_role_debug VoiceTelemetry = ''VoiceTelemetry''"

datatype pl_filter = PlDisabled | DecodedToneNotch | PlHighPass

datatype band_layout = FullBand | ThreeBand

record equalizer_config =
  eq_enabled :: bool
  eq_low_gain_db :: rust_float
  eq_low_frequency_hz :: rust_float
  eq_low_slope :: rust_float
  eq_mid_gain_db :: rust_float
  eq_mid_frequency_hz :: rust_float
  eq_mid_width_octaves :: rust_float
  eq_high_gain_db :: rust_float
  eq_high_frequency_hz :: rust_float
  eq_high_slope :: rust_float

record deesser_config =
  de_enabled :: bool
  de_frequency_hz :: rust_float
  de_width_octaves :: rust_float
  de_threshold_dbfs :: rust_float
  de_ratio :: rust_float
  de_max_reduction_db :: rust_float
  de_attack_ms :: rust_float
  de_release_ms :: rust_float

record agc_config =
  agc_enabled :: bool
  agc_target_lufs :: rust_float
  agc_max_gain_db :: rust_float
  agc_max_attenuation_db :: rust_float
  agc_loudness_window_ms :: rust_float
  agc_gain_increase_db_per_second :: rust_float
  agc_gain_decrease_db_per_second :: rust_float
  agc_activity_threshold_dbfs :: rust_float
  agc_activity_hysteresis_db :: rust_float
  agc_hold_ms :: rust_float
  agc_deadband_db :: rust_float

record expander_config =
  ex_enabled :: bool
  ex_threshold_dbfs :: rust_float
  ex_ratio :: rust_float
  ex_max_attenuation_db :: rust_float
  ex_attack_ms :: rust_float
  ex_release_ms :: rust_float
  ex_sidechain_highpass_hz :: rust_float
  ex_sidechain_lowpass_hz :: rust_float

record dynamics_band =
  band_threshold_dbfs :: rust_float
  band_ratio :: rust_float
  band_makeup_gain_db :: rust_float
  band_knee_db :: rust_float
  band_attack_ms :: rust_float
  band_release_ms :: rust_float

record compressor_config =
  co_enabled :: bool
  co_layout :: band_layout
  co_low_crossover_hz :: rust_float
  co_high_crossover_hz :: rust_float
  co_full :: dynamics_band
  co_low :: dynamics_band
  co_mid :: dynamics_band
  co_high :: dynamics_band
  co_sidechain_highpass_hz :: rust_float
  co_sidechain_lowpass_hz :: rust_float

record limiter_config =
  li_enabled :: bool
  li_layout :: band_layout
  li_low_crossover_hz :: rust_float
  li_high_crossover_hz :: rust_float
  li_full :: dynamics_band
  li_low :: dynamics_band
  li_mid :: dynamics_band
  li_high :: dynamics_band

record receive_conditioning =
  rc_bandpass_enabled :: bool
  rc_bandpass_highpass_hz :: rust_float
  rc_bandpass_lowpass_hz :: rust_float
  rc_pl_filter :: pl_filter
  rc_notch_width_hz :: rust_float
  rc_highpass_hz :: rust_float

record peak_limiter_config =
  pk_enabled :: bool
  pk_ceiling_dbfs :: rust_float
  pk_oversample :: int
  pk_lookahead_ms :: rust_float
  pk_attack_ms :: rust_float
  pk_release_ms :: rust_float

record transmit_tail_config =
  tt_bandpass_enabled :: bool
  tt_bandpass_highpass_hz :: rust_float
  tt_bandpass_lowpass_hz :: rust_float

record processing_chain =
  role :: chain_role
  chain_enabled :: bool
  rnnoise_enabled :: bool
  input_gain_db :: rust_float
  output_gain_db :: rust_float
  chain_stage_order :: stage_order
  receive :: receive_conditioning
  equalizer :: equalizer_config
  deesser :: deesser_config
  agc :: agc_config
  expander :: expander_config
  compressor :: compressor_config
  limiter :: limiter_config
  peak_limiter :: peak_limiter_config
  transmit_tail :: transmit_tail_config

section \<open>Shipped settings\<close>

definition eq_default :: equalizer_config where
  "eq_default = \<lparr>eq_enabled = True, eq_low_gain_db = f64 2,
     eq_low_frequency_hz = f64 500, eq_low_slope = f64 (7/10), eq_mid_gain_db = f64 (-5/10),
     eq_mid_frequency_hz = f64 1000, eq_mid_width_octaves = f64 1, eq_high_gain_db = f64 (- 1),
     eq_high_frequency_hz = f64 2000, eq_high_slope = f64 (7/10)\<rparr>"

definition de_default :: deesser_config where
  "de_default = \<lparr>de_enabled = False, de_frequency_hz = f64 4000,
     de_width_octaves = f64 1, de_threshold_dbfs = f64 (- 18), de_ratio = f64 3,
     de_max_reduction_db = f64 4, de_attack_ms = f64 2, de_release_ms = f64 60\<rparr>"

definition agc_default :: agc_config where
  "agc_default = \<lparr>agc_enabled = False, agc_target_lufs = f64 (- 23),
     agc_max_gain_db = f64 6, agc_max_attenuation_db = f64 6, agc_loudness_window_ms = f64 400,
     agc_gain_increase_db_per_second = f64 2, agc_gain_decrease_db_per_second = f64 6,
     agc_activity_threshold_dbfs = f64 (- 50), agc_activity_hysteresis_db = f64 3,
     agc_hold_ms = f64 500, agc_deadband_db = f64 1\<rparr>"

definition ex_default :: expander_config where
  "ex_default = \<lparr>ex_enabled = False, ex_threshold_dbfs = f64 (- 55),
     ex_ratio = f64 (15/10), ex_max_attenuation_db = f64 9, ex_attack_ms = f64 10,
     ex_release_ms = f64 250, ex_sidechain_highpass_hz = f64 800,
     ex_sidechain_lowpass_hz = f64 1500\<rparr>"

definition compressor_default_band :: dynamics_band where
  "compressor_default_band = \<lparr>band_threshold_dbfs = f64 (- 6), band_ratio = f64 2,
     band_makeup_gain_db = f64 0, band_knee_db = f64 9, band_attack_ms = f64 75,
     band_release_ms = f64 300\<rparr>"

definition co_default :: compressor_config where
  "co_default = \<lparr>co_enabled = False, co_layout = ThreeBand,
     co_low_crossover_hz = f64 500, co_high_crossover_hz = f64 2000,
     co_full = compressor_default_band, co_low = compressor_default_band,
     co_mid = compressor_default_band, co_high = compressor_default_band,
     co_sidechain_highpass_hz = f64 800, co_sidechain_lowpass_hz = f64 1500\<rparr>"

definition li_default :: limiter_config where
  "li_default = \<lparr>li_enabled = False, li_layout = ThreeBand,
     li_low_crossover_hz = f64 500, li_high_crossover_hz = f64 2000,
     li_full = \<lparr>band_threshold_dbfs = f64 (-15/10), band_ratio = f64 20,
     band_makeup_gain_db = f64 0, band_knee_db = f64 0, band_attack_ms = f64 1,
     band_release_ms = f64 50\<rparr>, li_low = \<lparr>band_threshold_dbfs = f64 (-15/10),
     band_ratio = f64 10, band_makeup_gain_db = f64 0, band_knee_db = f64 6,
     band_attack_ms = f64 50, band_release_ms = f64 250\<rparr>,
     li_mid = \<lparr>band_threshold_dbfs = f64 (-15/10), band_ratio = f64 10,
     band_makeup_gain_db = f64 0, band_knee_db = f64 6, band_attack_ms = f64 10,
     band_release_ms = f64 100\<rparr>, li_high = \<lparr>band_threshold_dbfs = f64 (-15/10),
     band_ratio = f64 20, band_makeup_gain_db = f64 0, band_knee_db = f64 6,
     band_attack_ms = f64 (5/10), band_release_ms = f64 25\<rparr>\<rparr>"

definition rc_default :: receive_conditioning where
  "rc_default = \<lparr>rc_bandpass_enabled = True, rc_bandpass_highpass_hz = f64 20,
     rc_bandpass_lowpass_hz = f64 5000, rc_pl_filter = PlHighPass, rc_notch_width_hz = f64 10,
     rc_highpass_hz = f64 300\<rparr>"

definition pk_default :: peak_limiter_config where
  "pk_default = \<lparr>pk_enabled = False, pk_ceiling_dbfs = f64 (- 3), pk_oversample = 4,
     pk_lookahead_ms = f64 5, pk_attack_ms = f64 1, pk_release_ms = f64 100\<rparr>"

definition tt_default :: transmit_tail_config where
  "tt_default = \<lparr>tt_bandpass_enabled = False, tt_bandpass_highpass_hz = f64 0,
     tt_bandpass_lowpass_hz = f64 8000\<rparr>"

definition base_chain :: "chain_role \<Rightarrow> processing_chain" where
  "base_chain r =
     \<lparr>role = r, chain_enabled = True, rnnoise_enabled = False,
      input_gain_db = f64 0, output_gain_db = f64 (-62/10),
      chain_stage_order = stage_order_standard, receive = rc_default, equalizer = eq_default,
      deesser = de_default, agc = agc_default, expander = ex_default, compressor = co_default,
      limiter = li_default, peak_limiter = pk_default, transmit_tail = tt_default\<rparr>"

definition without_receive :: "processing_chain \<Rightarrow> processing_chain" where
  "without_receive c =
     c\<lparr>receive := receive c\<lparr>rc_bandpass_enabled := False, rc_pl_filter := PlDisabled\<rparr>\<rparr>"

definition shipped :: "chain_role \<Rightarrow> processing_chain" where
  "shipped r =
     (case r of
        LocalReceive \<Rightarrow> base_chain r
      | Link \<Rightarrow> without_receive (base_chain r)
      | VoiceTelemetry \<Rightarrow>
          (without_receive (base_chain r))\<lparr>input_gain_db := f64 6, output_gain_db := f64 0\<rparr>)"

section \<open>Validation\<close>

datatype processing_config_error =
    InvalidOversample
  | RangeError string rust_float rust_float
  | OrderingError string string
  | StageNotAllowed chain_role
  | StageOrderInvalid stage_order_error

fun processing_config_error_display :: "processing_config_error \<Rightarrow> string" where
  "processing_config_error_display InvalidOversample =
     ''lookahead_limiter_oversample requires 1, 2, or 4''"
| "processing_config_error_display (RangeError field minimum maximum) =
     field @ '' must be finite and between '' @ float_display minimum @ '' and '' @
     float_display maximum"
| "processing_config_error_display (OrderingError upper lower) =
     upper @ '' must exceed '' @ lower"
| "processing_config_error_display (StageNotAllowed r) =
     ''fixed stage is not valid for '' @ chain_role_debug r"
| "processing_config_error_display (StageOrderInvalid error) = stage_order_error_display error"

definition in_range :: "rust_float \<Rightarrow> rust_float \<Rightarrow> rust_float \<Rightarrow> bool" where
  "in_range v lo hi \<longleftrightarrow> is_finite v \<and> float_le lo v \<and> float_le v hi"

definition finite_range ::
  "string \<Rightarrow> rust_float \<Rightarrow> rust_float \<Rightarrow> rust_float \<Rightarrow> (processing_config_error, unit) result" where
  "finite_range field v minimum maximum =
     (if in_range v minimum maximum then Inr () else Inl (RangeError field minimum maximum))"

definition require_greater ::
  "string \<Rightarrow> rust_float \<Rightarrow> string \<Rightarrow> rust_float \<Rightarrow> (processing_config_error, unit) result" where
  "require_greater upper_name upper lower_name lower =
     (if float_lt lower upper then Inr () else Inl (OrderingError upper_name lower_name))"

definition validate_compressor_band ::
  "string \<Rightarrow> dynamics_band \<Rightarrow> (processing_config_error, unit) result" where
  "validate_compressor_band prefix band = first_error
    [finite_range prefix (band_threshold_dbfs band) (f64 (- 60)) (f64 0),
     finite_range prefix (band_ratio band) (f64 1) (f64 20),
     finite_range prefix (band_makeup_gain_db band) (f64 (- 30)) (f64 30),
     finite_range prefix (band_knee_db band) (f64 0) (f64 18),
     finite_range prefix (band_attack_ms band) (f64 1) (f64 1000),
     finite_range prefix (band_release_ms band) (f64 1) (f64 9000)]"

definition validate_limiter_band ::
  "string \<Rightarrow> dynamics_band \<Rightarrow> rust_float \<Rightarrow> rust_float \<Rightarrow> rust_float \<Rightarrow>
   (processing_config_error, unit) result" where
  "validate_limiter_band prefix band minimum_threshold maximum_attack_ms maximum_release_ms = first_error
    [finite_range prefix (band_threshold_dbfs band) minimum_threshold (f64 (- 1)),
     finite_range prefix (band_ratio band) (f64 1) (f64 20),
     finite_range prefix (band_knee_db band) (f64 0) (f64 18),
     finite_range prefix (band_attack_ms band) (f64 (1/10)) maximum_attack_ms,
     finite_range prefix (band_release_ms band) (f64 1) maximum_release_ms]"

definition validate_receive :: "processing_chain \<Rightarrow> (processing_config_error, unit) result" where
  "validate_receive c = first_error
    [finite_range ''receive_bandpass_highpass_hz''
         (rc_bandpass_highpass_hz (receive c)) (f64 20) (f64 2000),
     finite_range ''receive_bandpass_lowpass_hz''
         (rc_bandpass_lowpass_hz (receive c)) (f64 20) (f64 6000),
     require_greater ''receive_bandpass_lowpass_hz''
         (rc_bandpass_lowpass_hz (receive c)) ''receive_bandpass_highpass_hz'' (rc_bandpass_highpass_hz (receive c)),
     finite_range ''ctcss_notch_width_hz'' (rc_notch_width_hz (receive c)) (f64 10) (f64 10),
     finite_range ''ctcss_highpass_hz'' (rc_highpass_hz (receive c)) (f64 50) (f64 500)]"

definition validate_equalizer :: "processing_chain \<Rightarrow> (processing_config_error, unit) result" where
  "validate_equalizer c = first_error
    [finite_range ''equalizer_low_gain_db'' (eq_low_gain_db (equalizer c)) (f64 (- 12)) (f64 12),
     finite_range ''equalizer_low_frequency_hz''
         (eq_low_frequency_hz (equalizer c)) (f64 20) (f64 1000),
     finite_range ''equalizer_low_slope'' (eq_low_slope (equalizer c)) (f64 (1/10)) (f64 1),
     finite_range ''equalizer_mid_gain_db'' (eq_mid_gain_db (equalizer c)) (f64 (- 12)) (f64 12),
     finite_range ''equalizer_mid_frequency_hz''
         (eq_mid_frequency_hz (equalizer c)) (f64 100) (f64 4000),
     finite_range ''equalizer_mid_width_octaves''
         (eq_mid_width_octaves (equalizer c)) (f64 (1/10)) (f64 4),
     finite_range ''equalizer_high_gain_db'' (eq_high_gain_db (equalizer c)) (f64 (- 12)) (f64 12),
     finite_range ''equalizer_high_frequency_hz''
         (eq_high_frequency_hz (equalizer c)) (f64 1000) (f64 5000),
     finite_range ''equalizer_high_slope'' (eq_high_slope (equalizer c)) (f64 (1/10)) (f64 1)]"

definition validate_deesser :: "processing_chain \<Rightarrow> (processing_config_error, unit) result" where
  "validate_deesser c = first_error
    [finite_range ''deesser_frequency_hz'' (de_frequency_hz (deesser c)) (f64 2000) (f64 8000),
     finite_range ''deesser_width_octaves'' (de_width_octaves (deesser c)) (f64 (1/10)) (f64 4),
     finite_range ''deesser_threshold_dbfs''
         (de_threshold_dbfs (deesser c)) (f64 (- 60)) (f64 (- 1)),
     finite_range ''deesser_ratio'' (de_ratio (deesser c)) (f64 1) (f64 20),
     finite_range ''deesser_max_reduction_db''
         (de_max_reduction_db (deesser c)) (f64 (1/10)) (f64 20),
     finite_range ''deesser_attack_ms'' (de_attack_ms (deesser c)) (f64 (1/10)) (f64 100),
     finite_range ''deesser_release_ms'' (de_release_ms (deesser c)) (f64 1) (f64 2000)]"

definition validate_agc :: "processing_chain \<Rightarrow> (processing_config_error, unit) result" where
  "validate_agc c = first_error
    [finite_range ''agc_target_lufs'' (agc_target_lufs (agc c)) (f64 (- 40)) (f64 (- 3)),
     finite_range ''agc_max_gain_db'' (agc_max_gain_db (agc c)) (f64 0) (f64 30),
     finite_range ''agc_max_attenuation_db'' (agc_max_attenuation_db (agc c)) (f64 0) (f64 60),
     finite_range ''agc_loudness_window_ms'' (agc_loudness_window_ms (agc c)) (f64 400) (f64 3000),
     finite_range ''agc_gain_increase_db_per_second''
         (agc_gain_increase_db_per_second (agc c)) (f64 (1/10)) (f64 100),
     finite_range ''agc_gain_decrease_db_per_second''
         (agc_gain_decrease_db_per_second (agc c)) (f64 (1/10)) (f64 100),
     finite_range ''agc_activity_threshold_dbfs''
         (agc_activity_threshold_dbfs (agc c)) (f64 (- 100)) (f64 (- 3)),
     finite_range ''agc_activity_hysteresis_db''
         (agc_activity_hysteresis_db (agc c)) (f64 0) (f64 12),
     finite_range ''agc_hold_ms'' (agc_hold_ms (agc c)) (f64 0) (f64 10000),
     finite_range ''agc_deadband_db'' (agc_deadband_db (agc c)) (f64 0) (f64 6)]"

definition validate_expander :: "processing_chain \<Rightarrow> (processing_config_error, unit) result" where
  "validate_expander c = first_error
    [finite_range ''expander_threshold_dbfs''
         (ex_threshold_dbfs (expander c)) (f64 (- 100)) (f64 (- 10)),
     finite_range ''expander_ratio'' (ex_ratio (expander c)) (f64 1) (f64 10),
     finite_range ''expander_max_attenuation_db''
         (ex_max_attenuation_db (expander c)) (f64 0) (f64 40),
     finite_range ''expander_attack_ms'' (ex_attack_ms (expander c)) (f64 1) (f64 1000),
     finite_range ''expander_release_ms'' (ex_release_ms (expander c)) (f64 1) (f64 10000),
     finite_range ''expander_sidechain_highpass_hz''
         (ex_sidechain_highpass_hz (expander c)) (f64 50) (f64 2000),
     finite_range ''expander_sidechain_lowpass_hz''
         (ex_sidechain_lowpass_hz (expander c)) (f64 50) (f64 3500),
     require_greater ''expander_sidechain_lowpass_hz''
         (ex_sidechain_lowpass_hz (expander c)) ''expander_sidechain_highpass_hz'' (ex_sidechain_highpass_hz (expander c))]"

definition validate_compressor :: "processing_chain \<Rightarrow> (processing_config_error, unit) result" where
  "validate_compressor c = first_error
    [finite_range ''compressor_low_crossover_hz''
         (co_low_crossover_hz (compressor c)) (f64 100) (f64 2000),
     finite_range ''compressor_high_crossover_hz''
         (co_high_crossover_hz (compressor c)) (f64 100) (f64 5000),
     require_greater ''compressor_high_crossover_hz''
         (co_high_crossover_hz (compressor c)) ''compressor_low_crossover_hz'' (co_low_crossover_hz (compressor c)),
     validate_compressor_band ''compressor'' (co_full (compressor c)),
     validate_compressor_band ''compressor_low'' (co_low (compressor c)),
     validate_compressor_band ''compressor_mid'' (co_mid (compressor c)),
     validate_compressor_band ''compressor_high'' (co_high (compressor c)),
     finite_range ''compressor_sidechain_highpass_hz''
         (co_sidechain_highpass_hz (compressor c)) (f64 50) (f64 2000),
     finite_range ''compressor_sidechain_lowpass_hz''
         (co_sidechain_lowpass_hz (compressor c)) (f64 50) (f64 3500),
     require_greater ''compressor_sidechain_lowpass_hz''
         (co_sidechain_lowpass_hz (compressor c)) ''compressor_sidechain_highpass_hz'' (co_sidechain_highpass_hz (compressor c))]"

definition validate_limiter :: "processing_chain \<Rightarrow> (processing_config_error, unit) result" where
  "validate_limiter c = first_error
    [finite_range ''limiter_low_crossover_hz''
         (li_low_crossover_hz (limiter c)) (f64 100) (f64 2000),
     finite_range ''limiter_high_crossover_hz''
         (li_high_crossover_hz (limiter c)) (f64 100) (f64 5000),
     require_greater ''limiter_high_crossover_hz''
         (li_high_crossover_hz (limiter c)) ''limiter_low_crossover_hz'' (li_low_crossover_hz (limiter c)),
     validate_limiter_band ''limiter'' (li_full (limiter c)) (f64 (- 40)) (f64 1000) (f64 9000),
     validate_limiter_band ''limiter_low'' (li_low (limiter c)) (f64 (- 40)) (f64 1000) (f64 9000),
     validate_limiter_band ''limiter_mid'' (li_mid (limiter c)) (f64 (- 40)) (f64 1000) (f64 9000),
     validate_limiter_band ''limiter_high'' (li_high (limiter c)) (f64 (- 30)) (f64 100) (f64 1000)]"

definition validate_peak_limiter :: "processing_chain \<Rightarrow> (processing_config_error, unit) result" where
  "validate_peak_limiter c = first_error
    [(if pk_oversample (peak_limiter c) \<in> {1, 2, 4} then Inr () else Inl InvalidOversample),
     finite_range ''lookahead_limiter_ceiling_dbfs''
         (pk_ceiling_dbfs (peak_limiter c)) (f64 (- 30)) (f64 (-1/10)),
     finite_range ''lookahead_limiter_lookahead_ms''
         (pk_lookahead_ms (peak_limiter c)) (f64 (1/10)) (f64 20),
     finite_range ''lookahead_limiter_attack_ms''
         (pk_attack_ms (peak_limiter c)) (f64 (1/10)) (f64 20),
     finite_range ''lookahead_limiter_release_ms''
         (pk_release_ms (peak_limiter c)) (f64 1) (f64 5000)]"

definition validate_transmit_tail :: "processing_chain \<Rightarrow> (processing_config_error, unit) result" where
  "validate_transmit_tail c = first_error
    [finite_range ''post_limiter_bandpass_highpass_hz''
         (tt_bandpass_highpass_hz (transmit_tail c)) (f64 0) (f64 300),
     finite_range ''post_limiter_bandpass_lowpass_hz''
         (tt_bandpass_lowpass_hz (transmit_tail c)) (f64 2500) (f64 20000)]"

definition enabled_stages :: "processing_chain \<Rightarrow> processing_stage list" where
  "enabled_stages c =
     map snd (filter fst
       [(eq_enabled (equalizer c), Equalizer), (ex_enabled (expander c), Expander),
        (agc_enabled (agc c), Agc), (de_enabled (deesser c), Deesser),
        (co_enabled (compressor c), Compressor), (li_enabled (limiter c), Limiter)])"

definition validate_roles :: "processing_chain \<Rightarrow> (processing_config_error, unit) result" where
  "validate_roles c =
     (if role c \<noteq> LocalReceive \<and>
         (rnnoise_enabled c \<or> rc_bandpass_enabled (receive c) \<or>
          rc_pl_filter (receive c) \<noteq> PlDisabled)
      then Inl (StageNotAllowed (role c))
      else if role c \<noteq> VoiceTelemetry \<and> tt_bandpass_enabled (transmit_tail c)
      then Inl (StageNotAllowed (role c))
      else Inr ())"

definition validate_chain :: "processing_chain \<Rightarrow> (processing_config_error, unit) result" where
  "validate_chain c = first_error
    [map_err StageOrderInvalid (require_enabled (chain_stage_order c) (enabled_stages c)),
     validate_roles c,
     finite_range ''input_gain_db'' (input_gain_db c) (f64 (- 30)) (f64 30),
     finite_range ''output_gain_db'' (output_gain_db c) (f64 (- 30)) (f64 30),
     validate_receive c,
     validate_equalizer c,
     validate_deesser c,
     validate_agc c,
     validate_expander c,
     validate_compressor c,
     validate_limiter c,
     validate_peak_limiter c,
     validate_transmit_tail c]"

end
