(* ===== verification/Profile_Resolution.thy ===== *)
theory Profile_Resolution
  imports Config_Document Setting_Appliers Processing_Profile
begin

text \<open>
  Tolerant resolution of the processing profile of one source role,
  \<^verbatim>\<open>rust/core/src/profile_resolution.rs\<close>: the shipped chain, then the flat section of the role,
  then the selected scoped section. The match of \<open>apply_setting\<close> on the option name is a list of
  tables, one per stage: an entry holds the accessors of the field it assigns (\<open>get\<close> and \<open>upd\<close>
  stand for the mutable borrow) and the helper that parses the value. A setting is applied or it
  appends one warning; conflicting case variants and broken cross-field conditions are errors.
\<close>

section \<open>Overlays\<close>

datatype overlay_layer = Flat | Scoped

record raw_setting =
  raw_name :: string
  raw_value :: string

record raw_overlay =
  overlay_role :: chain_role
  overlay_layer :: overlay_layer
  overlay_source :: string
  overlay_section :: string
  overlay_settings :: "raw_setting list"

fun layer_name :: "overlay_layer \<Rightarrow> string" where
  "layer_name Flat = ''flat''"
| "layer_name Scoped = ''scoped''"

fun role_section :: "chain_role \<Rightarrow> string" where
  "role_section LocalReceive = ''local''"
| "role_section Link = ''link''"
| "role_section VoiceTelemetry = ''voice_telemetry''"

definition raw_overlay_new ::
  "chain_role \<Rightarrow> overlay_layer \<Rightarrow> string \<Rightarrow> string \<Rightarrow> (string \<times> string) list \<Rightarrow> raw_overlay" where
  "raw_overlay_new r layer source section_name values =
     \<lparr>overlay_role = r, overlay_layer = layer, overlay_source = source,
      overlay_section = section_name,
      overlay_settings = map (\<lambda>(name, value). \<lparr>raw_name = name, raw_value = value\<rparr>) values\<rparr>"

definition overlay_flat :: "chain_role \<Rightarrow> string \<Rightarrow> (string \<times> string) list \<Rightarrow> raw_overlay" where
  "overlay_flat r source values = raw_overlay_new r Flat source (role_section r) values"

definition overlay_scoped ::
  "chain_role \<Rightarrow> string \<Rightarrow> string \<Rightarrow> (string \<times> string) list \<Rightarrow> raw_overlay" where
  "overlay_scoped r source section_name values = raw_overlay_new r Scoped source section_name values"

section \<open>Warnings\<close>

definition overlay_warning ::
  "resolution_warning_kind \<Rightarrow> raw_overlay \<Rightarrow> raw_setting \<Rightarrow> string \<Rightarrow> string \<Rightarrow> resolution_warning" where
  "overlay_warning kind ov setting fallback reason =
     \<lparr>warn_kind = kind, warn_source = overlay_source ov, warn_section = overlay_section ov,
      warn_name = raw_name setting, warn_supplied_value = raw_value setting,
      warn_fallback = fallback, warn_reason = reason\<rparr>"

definition overlay_invalid ::
  "warnings \<Rightarrow> raw_overlay \<Rightarrow> raw_setting \<Rightarrow> string \<Rightarrow> string \<Rightarrow> warnings" where
  "overlay_invalid ws ov setting fallback reason =
     ws @ [overlay_warning InvalidValue ov setting fallback reason]"

definition overlay_unsupported :: "warnings \<Rightarrow> raw_overlay \<Rightarrow> raw_setting \<Rightarrow> warnings" where
  "overlay_unsupported ws ov setting =
     ws @ [overlay_warning UnsupportedOption ov setting ''ignored''
             (''is not supported for '' @ chain_role_debug (overlay_role ov))]"

definition overlay_unknown :: "warnings \<Rightarrow> raw_overlay \<Rightarrow> raw_setting \<Rightarrow> warnings" where
  "overlay_unknown ws ov setting =
     ws @ [overlay_warning UnknownOption ov setting ''ignored'' ''is unknown and was ignored'']"

section \<open>Parsing one value\<close>

definition yes_no :: "bool \<Rightarrow> string" where
  "yes_no value = (if value then ''yes'' else ''no'')"

definition format_number :: "rust_float \<Rightarrow> string" where
  "format_number value = float_display value"

definition parse_boolean :: "string \<Rightarrow> bool option" where
  "parse_boolean value =
     (if eq_ignore_ascii_case (trim value) ''yes'' then Some True
      else if eq_ignore_ascii_case (trim value) ''no'' then Some False
      else None)"

definition number_reason :: "rust_float \<Rightarrow> rust_float \<Rightarrow> string" where
  "number_reason minimum maximum =
     ''requires a finite number from '' @ float_display minimum @ '' through '' @
     float_display maximum"

definition parse_number :: "string \<Rightarrow> rust_float \<Rightarrow> rust_float \<Rightarrow> (string, rust_float) result" where
  "parse_number value minimum maximum =
     (case parse_float f64_format (trim value) of
        None \<Rightarrow> Inl (number_reason minimum maximum)
      | Some parsed \<Rightarrow>
          if is_finite parsed \<and> float_le minimum parsed \<and> float_le parsed maximum then Inr parsed
          else Inl (number_reason minimum maximum))"

definition pl_filter_name :: "pl_filter \<Rightarrow> string" where
  "pl_filter_name value =
     (case value of
        PlDisabled \<Rightarrow> ''disabled'' | DecodedToneNotch \<Rightarrow> ''notch'' | PlHighPass \<Rightarrow> ''highpass'')"

definition parse_pl_filter :: "string \<Rightarrow> pl_filter option" where
  "parse_pl_filter value =
     (if eq_ignore_ascii_case (trim value) ''disabled'' then Some PlDisabled
      else if eq_ignore_ascii_case (trim value) ''notch'' then Some DecodedToneNotch
      else if eq_ignore_ascii_case (trim value) ''highpass'' then Some PlHighPass
      else None)"

section \<open>Assigning one field\<close>

text \<open>The helpers take the current value of the field and return its new value and the warnings.\<close>

type_synonym 'a assigner = "'a \<Rightarrow> warnings \<Rightarrow> raw_overlay \<Rightarrow> raw_setting \<Rightarrow> 'a \<times> warnings"

definition assign_boolean :: "bool assigner" where
  "assign_boolean target ws ov setting =
     (case parse_boolean (raw_value setting) of
        Some value \<Rightarrow> (value, ws)
      | None \<Rightarrow> (target, overlay_invalid ws ov setting (yes_no target) ''requires yes or no''))"

definition assign_number :: "rust_float \<Rightarrow> rust_float \<Rightarrow> rust_float assigner" where
  "assign_number minimum maximum target ws ov setting =
     (case parse_number (raw_value setting) minimum maximum of
        Inr value \<Rightarrow> (value, ws)
      | Inl reason \<Rightarrow> (target, overlay_invalid ws ov setting (format_number target) reason))"

definition oversample_factor :: "int assigner" where
  "oversample_factor target ws ov setting =
     (if trim (raw_value setting) = ''1'' then (1, ws)
      else if trim (raw_value setting) = ''2'' then (2, ws)
      else if trim (raw_value setting) = ''4'' then (4, ws)
      else (target, overlay_invalid ws ov setting (dec_digits target) ''requires 1, 2, or 4''))"

definition assign_layout :: "band_layout assigner" where
  "assign_layout target ws ov setting =
     (if trim (raw_value setting) = ''1'' then (FullBand, ws)
      else if trim (raw_value setting) = ''3'' then (ThreeBand, ws)
      else (target, overlay_invalid ws ov setting
              (case target of FullBand \<Rightarrow> ''1'' | ThreeBand \<Rightarrow> ''3'') ''requires 1 or 3''))"

definition assign_pl_filter :: "pl_filter assigner" where
  "assign_pl_filter target ws ov setting =
     (case parse_pl_filter (raw_value setting) of
        Some value \<Rightarrow> (value, ws)
      | None \<Rightarrow> (target, overlay_invalid ws ov setting (pl_filter_name target)
                          ''requires disabled, notch, or highpass''))"

definition assign_stage_order :: "stage_order assigner" where
  "assign_stage_order target ws ov setting =
     (case stage_order_parse (raw_value setting) [] of
        Inr value \<Rightarrow> (value, ws)
      | Inl error \<Rightarrow> (target, overlay_invalid ws ov setting (format_stage_order target)
                                (stage_order_error_display error)))"

section \<open>The settings of a chain\<close>

type_synonym profile_applier =
  "raw_overlay \<Rightarrow> raw_setting \<Rightarrow> processing_chain \<Rightarrow> warnings \<Rightarrow> processing_chain \<times> warnings"

definition assign_field ::
  "(processing_chain \<Rightarrow> 'a) \<Rightarrow> (('a \<Rightarrow> 'a) \<Rightarrow> processing_chain \<Rightarrow> processing_chain) \<Rightarrow> 'a assigner \<Rightarrow>
   profile_applier" where
  "assign_field get upd assign ov setting c ws =
     (case assign (get c) ws ov setting of (value, ws') \<Rightarrow> (upd (\<lambda>_. value) c, ws'))"

definition boolean ::
  "(processing_chain \<Rightarrow> bool) \<Rightarrow> ((bool \<Rightarrow> bool) \<Rightarrow> processing_chain \<Rightarrow> processing_chain) \<Rightarrow>
   profile_applier" where
  "boolean get upd = assign_field get upd assign_boolean"

definition number ::
  "(processing_chain \<Rightarrow> rust_float) \<Rightarrow>
   ((rust_float \<Rightarrow> rust_float) \<Rightarrow> processing_chain \<Rightarrow> processing_chain) \<Rightarrow>
   rust_float \<Rightarrow> rust_float \<Rightarrow> profile_applier" where
  "number get upd minimum maximum = assign_field get upd (assign_number minimum maximum)"

text \<open>A match arm with a guard on the role; without the role the arm of the unsupported settings is next.\<close>

definition only :: "chain_role \<Rightarrow> profile_applier \<Rightarrow> profile_applier" where
  "only r apply ov setting c ws =
     (if role c = r then apply ov setting c ws else (c, overlay_unsupported ws ov setting))"

definition chain_settings :: "(string \<times> profile_applier) list" where
  "chain_settings =
    [(''enabled'', boolean chain_enabled chain_enabled_update),
     (''stage_order'', assign_field chain_stage_order chain_stage_order_update assign_stage_order),
     (''input_gain_db'', number input_gain_db input_gain_db_update (f64 (- 30)) (f64 30)),
     (''output_gain_db'', number output_gain_db output_gain_db_update (f64 (- 30)) (f64 30))]"

definition equalizer_settings :: "(string \<times> profile_applier) list" where
  "equalizer_settings =
    [(''equalizer_enabled'',
       boolean (eq_enabled \<circ> equalizer) (equalizer_update \<circ> eq_enabled_update)),
     (''equalizer_low_gain_db'',
       number (eq_low_gain_db \<circ> equalizer)
         (equalizer_update \<circ> eq_low_gain_db_update) (f64 (- 12)) (f64 12)),
     (''equalizer_low_frequency_hz'',
       number (eq_low_frequency_hz \<circ> equalizer)
         (equalizer_update \<circ> eq_low_frequency_hz_update) (f64 20) (f64 1000)),
     (''equalizer_low_slope'',
       number (eq_low_slope \<circ> equalizer)
         (equalizer_update \<circ> eq_low_slope_update) (f64 (1/10)) (f64 1)),
     (''equalizer_mid_gain_db'',
       number (eq_mid_gain_db \<circ> equalizer)
         (equalizer_update \<circ> eq_mid_gain_db_update) (f64 (- 12)) (f64 12)),
     (''equalizer_mid_frequency_hz'',
       number (eq_mid_frequency_hz \<circ> equalizer)
         (equalizer_update \<circ> eq_mid_frequency_hz_update) (f64 100) (f64 4000)),
     (''equalizer_mid_width_octaves'',
       number (eq_mid_width_octaves \<circ> equalizer)
         (equalizer_update \<circ> eq_mid_width_octaves_update) (f64 (1/10)) (f64 4)),
     (''equalizer_high_gain_db'',
       number (eq_high_gain_db \<circ> equalizer)
         (equalizer_update \<circ> eq_high_gain_db_update) (f64 (- 12)) (f64 12)),
     (''equalizer_high_frequency_hz'',
       number (eq_high_frequency_hz \<circ> equalizer)
         (equalizer_update \<circ> eq_high_frequency_hz_update) (f64 1000) (f64 5000)),
     (''equalizer_high_slope'',
       number (eq_high_slope \<circ> equalizer)
         (equalizer_update \<circ> eq_high_slope_update) (f64 (1/10)) (f64 1))]"

definition deesser_settings :: "(string \<times> profile_applier) list" where
  "deesser_settings =
    [(''deesser_enabled'',
       boolean (de_enabled \<circ> deesser) (deesser_update \<circ> de_enabled_update)),
     (''deesser_frequency_hz'',
       number (de_frequency_hz \<circ> deesser)
         (deesser_update \<circ> de_frequency_hz_update) (f64 2000) (f64 8000)),
     (''deesser_width_octaves'',
       number (de_width_octaves \<circ> deesser)
         (deesser_update \<circ> de_width_octaves_update) (f64 (1/10)) (f64 4)),
     (''deesser_threshold_dbfs'',
       number (de_threshold_dbfs \<circ> deesser)
         (deesser_update \<circ> de_threshold_dbfs_update) (f64 (- 60)) (f64 (- 1))),
     (''deesser_ratio'',
       number (de_ratio \<circ> deesser) (deesser_update \<circ> de_ratio_update) (f64 1) (f64 20)),
     (''deesser_max_reduction_db'',
       number (de_max_reduction_db \<circ> deesser)
         (deesser_update \<circ> de_max_reduction_db_update) (f64 (1/10)) (f64 20)),
     (''deesser_attack_ms'',
       number (de_attack_ms \<circ> deesser)
         (deesser_update \<circ> de_attack_ms_update) (f64 (1/10)) (f64 100)),
     (''deesser_release_ms'',
       number (de_release_ms \<circ> deesser)
         (deesser_update \<circ> de_release_ms_update) (f64 1) (f64 2000))]"

definition agc_settings :: "(string \<times> profile_applier) list" where
  "agc_settings =
    [(''agc_enabled'',
       boolean (agc_enabled \<circ> agc) (agc_update \<circ> agc_enabled_update)),
     (''agc_target_lufs'',
       number (agc_target_lufs \<circ> agc)
         (agc_update \<circ> agc_target_lufs_update) (f64 (- 40)) (f64 (- 3))),
     (''agc_max_gain_db'',
       number (agc_max_gain_db \<circ> agc)
         (agc_update \<circ> agc_max_gain_db_update) (f64 0) (f64 30)),
     (''agc_max_attenuation_db'',
       number (agc_max_attenuation_db \<circ> agc)
         (agc_update \<circ> agc_max_attenuation_db_update) (f64 0) (f64 60)),
     (''agc_loudness_window_ms'',
       number (agc_loudness_window_ms \<circ> agc)
         (agc_update \<circ> agc_loudness_window_ms_update) (f64 400) (f64 3000)),
     (''agc_gain_increase_db_per_second'',
       number (agc_gain_increase_db_per_second \<circ> agc)
         (agc_update \<circ> agc_gain_increase_db_per_second_update) (f64 (1/10)) (f64 100)),
     (''agc_gain_decrease_db_per_second'',
       number (agc_gain_decrease_db_per_second \<circ> agc)
         (agc_update \<circ> agc_gain_decrease_db_per_second_update) (f64 (1/10)) (f64 100)),
     (''agc_activity_threshold_dbfs'',
       number (agc_activity_threshold_dbfs \<circ> agc)
         (agc_update \<circ> agc_activity_threshold_dbfs_update) (f64 (- 100)) (f64 (- 3))),
     (''agc_activity_hysteresis_db'',
       number (agc_activity_hysteresis_db \<circ> agc)
         (agc_update \<circ> agc_activity_hysteresis_db_update) (f64 0) (f64 12)),
     (''agc_hold_ms'',
       number (agc_hold_ms \<circ> agc)
         (agc_update \<circ> agc_hold_ms_update) (f64 0) (f64 10000)),
     (''agc_deadband_db'',
       number (agc_deadband_db \<circ> agc)
         (agc_update \<circ> agc_deadband_db_update) (f64 0) (f64 6))]"

definition expander_settings :: "(string \<times> profile_applier) list" where
  "expander_settings =
    [(''expander_enabled'',
       boolean (ex_enabled \<circ> expander) (expander_update \<circ> ex_enabled_update)),
     (''expander_threshold_dbfs'',
       number (ex_threshold_dbfs \<circ> expander)
         (expander_update \<circ> ex_threshold_dbfs_update) (f64 (- 100)) (f64 (- 10))),
     (''expander_ratio'',
       number (ex_ratio \<circ> expander)
         (expander_update \<circ> ex_ratio_update) (f64 1) (f64 10)),
     (''expander_max_attenuation_db'',
       number (ex_max_attenuation_db \<circ> expander)
         (expander_update \<circ> ex_max_attenuation_db_update) (f64 0) (f64 40)),
     (''expander_attack_ms'',
       number (ex_attack_ms \<circ> expander)
         (expander_update \<circ> ex_attack_ms_update) (f64 1) (f64 1000)),
     (''expander_release_ms'',
       number (ex_release_ms \<circ> expander)
         (expander_update \<circ> ex_release_ms_update) (f64 1) (f64 10000)),
     (''expander_sidechain_highpass_hz'',
       number (ex_sidechain_highpass_hz \<circ> expander)
         (expander_update \<circ> ex_sidechain_highpass_hz_update) (f64 50) (f64 2000)),
     (''expander_sidechain_lowpass_hz'',
       number (ex_sidechain_lowpass_hz \<circ> expander)
         (expander_update \<circ> ex_sidechain_lowpass_hz_update) (f64 50) (f64 3500))]"

definition compressor_settings :: "(string \<times> profile_applier) list" where
  "compressor_settings =
    [(''compressor_enabled'',
       boolean (co_enabled \<circ> compressor) (compressor_update \<circ> co_enabled_update)),
     (''compressor_bands'',
       assign_field (co_layout \<circ> compressor) (compressor_update \<circ> co_layout_update) assign_layout),
     (''compressor_low_crossover_hz'',
       number (co_low_crossover_hz \<circ> compressor)
         (compressor_update \<circ> co_low_crossover_hz_update) (f64 100) (f64 2000)),
     (''compressor_high_crossover_hz'',
       number (co_high_crossover_hz \<circ> compressor)
         (compressor_update \<circ> co_high_crossover_hz_update) (f64 100) (f64 5000)),
     (''compressor_threshold_dbfs'',
       number (band_threshold_dbfs \<circ> co_full \<circ> compressor)
         (compressor_update \<circ> co_full_update \<circ> band_threshold_dbfs_update) (f64 (- 60)) (f64 0)),
     (''compressor_ratio'',
       number (band_ratio \<circ> co_full \<circ> compressor)
         (compressor_update \<circ> co_full_update \<circ> band_ratio_update) (f64 1) (f64 20)),
     (''compressor_makeup_gain_db'',
       number (band_makeup_gain_db \<circ> co_full \<circ> compressor)
         (compressor_update \<circ> co_full_update \<circ> band_makeup_gain_db_update) (f64 (- 30)) (f64 30)),
     (''compressor_attack_ms'',
       number (band_attack_ms \<circ> co_full \<circ> compressor)
         (compressor_update \<circ> co_full_update \<circ> band_attack_ms_update) (f64 1) (f64 1000)),
     (''compressor_release_ms'',
       number (band_release_ms \<circ> co_full \<circ> compressor)
         (compressor_update \<circ> co_full_update \<circ> band_release_ms_update) (f64 1) (f64 9000)),
     (''compressor_low_threshold_dbfs'',
       number (band_threshold_dbfs \<circ> co_low \<circ> compressor)
         (compressor_update \<circ> co_low_update \<circ> band_threshold_dbfs_update) (f64 (- 60)) (f64 0)),
     (''compressor_low_ratio'',
       number (band_ratio \<circ> co_low \<circ> compressor)
         (compressor_update \<circ> co_low_update \<circ> band_ratio_update) (f64 1) (f64 20)),
     (''compressor_low_makeup_gain_db'',
       number (band_makeup_gain_db \<circ> co_low \<circ> compressor)
         (compressor_update \<circ> co_low_update \<circ> band_makeup_gain_db_update) (f64 (- 30)) (f64 30)),
     (''compressor_low_knee_db'',
       number (band_knee_db \<circ> co_low \<circ> compressor)
         (compressor_update \<circ> co_low_update \<circ> band_knee_db_update) (f64 0) (f64 18)),
     (''compressor_low_attack_ms'',
       number (band_attack_ms \<circ> co_low \<circ> compressor)
         (compressor_update \<circ> co_low_update \<circ> band_attack_ms_update) (f64 1) (f64 1000)),
     (''compressor_low_release_ms'',
       number (band_release_ms \<circ> co_low \<circ> compressor)
         (compressor_update \<circ> co_low_update \<circ> band_release_ms_update) (f64 1) (f64 9000)),
     (''compressor_mid_threshold_dbfs'',
       number (band_threshold_dbfs \<circ> co_mid \<circ> compressor)
         (compressor_update \<circ> co_mid_update \<circ> band_threshold_dbfs_update) (f64 (- 60)) (f64 0)),
     (''compressor_mid_ratio'',
       number (band_ratio \<circ> co_mid \<circ> compressor)
         (compressor_update \<circ> co_mid_update \<circ> band_ratio_update) (f64 1) (f64 20)),
     (''compressor_mid_makeup_gain_db'',
       number (band_makeup_gain_db \<circ> co_mid \<circ> compressor)
         (compressor_update \<circ> co_mid_update \<circ> band_makeup_gain_db_update) (f64 (- 30)) (f64 30)),
     (''compressor_mid_knee_db'',
       number (band_knee_db \<circ> co_mid \<circ> compressor)
         (compressor_update \<circ> co_mid_update \<circ> band_knee_db_update) (f64 0) (f64 18)),
     (''compressor_mid_attack_ms'',
       number (band_attack_ms \<circ> co_mid \<circ> compressor)
         (compressor_update \<circ> co_mid_update \<circ> band_attack_ms_update) (f64 1) (f64 1000)),
     (''compressor_mid_release_ms'',
       number (band_release_ms \<circ> co_mid \<circ> compressor)
         (compressor_update \<circ> co_mid_update \<circ> band_release_ms_update) (f64 1) (f64 9000)),
     (''compressor_high_threshold_dbfs'',
       number (band_threshold_dbfs \<circ> co_high \<circ> compressor)
         (compressor_update \<circ> co_high_update \<circ> band_threshold_dbfs_update) (f64 (- 60)) (f64 0)),
     (''compressor_high_ratio'',
       number (band_ratio \<circ> co_high \<circ> compressor)
         (compressor_update \<circ> co_high_update \<circ> band_ratio_update) (f64 1) (f64 20)),
     (''compressor_high_makeup_gain_db'',
       number (band_makeup_gain_db \<circ> co_high \<circ> compressor)
         (compressor_update \<circ> co_high_update \<circ> band_makeup_gain_db_update) (f64 (- 30)) (f64 30)),
     (''compressor_high_knee_db'',
       number (band_knee_db \<circ> co_high \<circ> compressor)
         (compressor_update \<circ> co_high_update \<circ> band_knee_db_update) (f64 0) (f64 18)),
     (''compressor_high_attack_ms'',
       number (band_attack_ms \<circ> co_high \<circ> compressor)
         (compressor_update \<circ> co_high_update \<circ> band_attack_ms_update) (f64 1) (f64 1000)),
     (''compressor_high_release_ms'',
       number (band_release_ms \<circ> co_high \<circ> compressor)
         (compressor_update \<circ> co_high_update \<circ> band_release_ms_update) (f64 1) (f64 9000)),
     (''compressor_sidechain_highpass_hz'',
       number (co_sidechain_highpass_hz \<circ> compressor)
         (compressor_update \<circ> co_sidechain_highpass_hz_update) (f64 50) (f64 2000)),
     (''compressor_sidechain_lowpass_hz'',
       number (co_sidechain_lowpass_hz \<circ> compressor)
         (compressor_update \<circ> co_sidechain_lowpass_hz_update) (f64 50) (f64 3500))]"

definition limiter_settings :: "(string \<times> profile_applier) list" where
  "limiter_settings =
    [(''limiter_enabled'',
       boolean (li_enabled \<circ> limiter) (limiter_update \<circ> li_enabled_update)),
     (''limiter_bands'',
       assign_field (li_layout \<circ> limiter) (limiter_update \<circ> li_layout_update) assign_layout),
     (''limiter_low_crossover_hz'',
       number (li_low_crossover_hz \<circ> limiter)
         (limiter_update \<circ> li_low_crossover_hz_update) (f64 100) (f64 2000)),
     (''limiter_high_crossover_hz'',
       number (li_high_crossover_hz \<circ> limiter)
         (limiter_update \<circ> li_high_crossover_hz_update) (f64 100) (f64 5000)),
     (''limiter_threshold_dbfs'',
       number (band_threshold_dbfs \<circ> li_full \<circ> limiter)
         (limiter_update \<circ> li_full_update \<circ> band_threshold_dbfs_update) (f64 (- 40)) (f64 (- 1))),
     (''limiter_ratio'',
       number (band_ratio \<circ> li_full \<circ> limiter)
         (limiter_update \<circ> li_full_update \<circ> band_ratio_update) (f64 1) (f64 20)),
     (''limiter_knee_db'',
       number (band_knee_db \<circ> li_full \<circ> limiter)
         (limiter_update \<circ> li_full_update \<circ> band_knee_db_update) (f64 0) (f64 18)),
     (''limiter_attack_ms'',
       number (band_attack_ms \<circ> li_full \<circ> limiter)
         (limiter_update \<circ> li_full_update \<circ> band_attack_ms_update) (f64 (1/10)) (f64 1000)),
     (''limiter_release_ms'',
       number (band_release_ms \<circ> li_full \<circ> limiter)
         (limiter_update \<circ> li_full_update \<circ> band_release_ms_update) (f64 1) (f64 9000)),
     (''limiter_low_threshold_dbfs'',
       number (band_threshold_dbfs \<circ> li_low \<circ> limiter)
         (limiter_update \<circ> li_low_update \<circ> band_threshold_dbfs_update) (f64 (- 40)) (f64 (- 1))),
     (''limiter_low_ratio'',
       number (band_ratio \<circ> li_low \<circ> limiter)
         (limiter_update \<circ> li_low_update \<circ> band_ratio_update) (f64 1) (f64 20)),
     (''limiter_low_knee_db'',
       number (band_knee_db \<circ> li_low \<circ> limiter)
         (limiter_update \<circ> li_low_update \<circ> band_knee_db_update) (f64 0) (f64 18)),
     (''limiter_low_attack_ms'',
       number (band_attack_ms \<circ> li_low \<circ> limiter)
         (limiter_update \<circ> li_low_update \<circ> band_attack_ms_update) (f64 (1/10)) (f64 1000)),
     (''limiter_low_release_ms'',
       number (band_release_ms \<circ> li_low \<circ> limiter)
         (limiter_update \<circ> li_low_update \<circ> band_release_ms_update) (f64 1) (f64 9000)),
     (''limiter_mid_threshold_dbfs'',
       number (band_threshold_dbfs \<circ> li_mid \<circ> limiter)
         (limiter_update \<circ> li_mid_update \<circ> band_threshold_dbfs_update) (f64 (- 40)) (f64 (- 1))),
     (''limiter_mid_ratio'',
       number (band_ratio \<circ> li_mid \<circ> limiter)
         (limiter_update \<circ> li_mid_update \<circ> band_ratio_update) (f64 1) (f64 20)),
     (''limiter_mid_knee_db'',
       number (band_knee_db \<circ> li_mid \<circ> limiter)
         (limiter_update \<circ> li_mid_update \<circ> band_knee_db_update) (f64 0) (f64 18)),
     (''limiter_mid_attack_ms'',
       number (band_attack_ms \<circ> li_mid \<circ> limiter)
         (limiter_update \<circ> li_mid_update \<circ> band_attack_ms_update) (f64 (1/10)) (f64 1000)),
     (''limiter_mid_release_ms'',
       number (band_release_ms \<circ> li_mid \<circ> limiter)
         (limiter_update \<circ> li_mid_update \<circ> band_release_ms_update) (f64 1) (f64 9000)),
     (''limiter_high_threshold_dbfs'',
       number (band_threshold_dbfs \<circ> li_high \<circ> limiter)
         (limiter_update \<circ> li_high_update \<circ> band_threshold_dbfs_update) (f64 (- 30)) (f64 (- 1))),
     (''limiter_high_ratio'',
       number (band_ratio \<circ> li_high \<circ> limiter)
         (limiter_update \<circ> li_high_update \<circ> band_ratio_update) (f64 1) (f64 20)),
     (''limiter_high_knee_db'',
       number (band_knee_db \<circ> li_high \<circ> limiter)
         (limiter_update \<circ> li_high_update \<circ> band_knee_db_update) (f64 0) (f64 18)),
     (''limiter_high_attack_ms'',
       number (band_attack_ms \<circ> li_high \<circ> limiter)
         (limiter_update \<circ> li_high_update \<circ> band_attack_ms_update) (f64 (1/10)) (f64 100)),
     (''limiter_high_release_ms'',
       number (band_release_ms \<circ> li_high \<circ> limiter)
         (limiter_update \<circ> li_high_update \<circ> band_release_ms_update) (f64 1) (f64 1000))]"

definition receive_settings :: "(string \<times> profile_applier) list" where
  "receive_settings =
    [(''rnnoise_enabled'', only LocalReceive (boolean rnnoise_enabled rnnoise_enabled_update)),
     (''receive_bandpass_enabled'',
       only LocalReceive (boolean (rc_bandpass_enabled \<circ> receive)
         (receive_update \<circ> rc_bandpass_enabled_update))),
     (''receive_bandpass_highpass_hz'',
       only LocalReceive (number (rc_bandpass_highpass_hz \<circ> receive)
         (receive_update \<circ> rc_bandpass_highpass_hz_update) (f64 20) (f64 2000))),
     (''receive_bandpass_lowpass_hz'',
       only LocalReceive (number (rc_bandpass_lowpass_hz \<circ> receive)
         (receive_update \<circ> rc_bandpass_lowpass_hz_update) (f64 20) (f64 6000))),
     (''ctcss_filter_mode'',
       only LocalReceive (assign_field (rc_pl_filter \<circ> receive)
         (receive_update \<circ> rc_pl_filter_update) assign_pl_filter)),
     (''ctcss_notch_width_hz'',
       only LocalReceive (number (rc_notch_width_hz \<circ> receive)
         (receive_update \<circ> rc_notch_width_hz_update) (f64 10) (f64 10))),
     (''ctcss_highpass_hz'',
       only LocalReceive (number (rc_highpass_hz \<circ> receive)
         (receive_update \<circ> rc_highpass_hz_update) (f64 50) (f64 500)))]"

definition peak_limiter_settings :: "(string \<times> profile_applier) list" where
  "peak_limiter_settings =
    [(''lookahead_limiter_enabled'',
       boolean (pk_enabled \<circ> peak_limiter) (peak_limiter_update \<circ> pk_enabled_update)),
     (''lookahead_limiter_oversample'',
       assign_field (pk_oversample \<circ> peak_limiter)
         (peak_limiter_update \<circ> pk_oversample_update) oversample_factor),
     (''lookahead_limiter_ceiling_dbfs'',
       number (pk_ceiling_dbfs \<circ> peak_limiter)
         (peak_limiter_update \<circ> pk_ceiling_dbfs_update) (f64 (- 30)) (f64 (-1/10))),
     (''lookahead_limiter_lookahead_ms'',
       number (pk_lookahead_ms \<circ> peak_limiter)
         (peak_limiter_update \<circ> pk_lookahead_ms_update) (f64 (1/10)) (f64 20)),
     (''lookahead_limiter_attack_ms'',
       number (pk_attack_ms \<circ> peak_limiter)
         (peak_limiter_update \<circ> pk_attack_ms_update) (f64 (1/10)) (f64 20)),
     (''lookahead_limiter_release_ms'',
       number (pk_release_ms \<circ> peak_limiter)
         (peak_limiter_update \<circ> pk_release_ms_update) (f64 1) (f64 5000))]"

definition transmit_tail_settings :: "(string \<times> profile_applier) list" where
  "transmit_tail_settings =
    [(''post_limiter_bandpass_enabled'',
       only VoiceTelemetry (boolean (tt_bandpass_enabled \<circ> transmit_tail)
         (transmit_tail_update \<circ> tt_bandpass_enabled_update))),
     (''post_limiter_bandpass_highpass_hz'',
       only VoiceTelemetry (number (tt_bandpass_highpass_hz \<circ> transmit_tail)
         (transmit_tail_update \<circ> tt_bandpass_highpass_hz_update) (f64 0) (f64 300))),
     (''post_limiter_bandpass_lowpass_hz'',
       only VoiceTelemetry (number (tt_bandpass_lowpass_hz \<circ> transmit_tail)
         (transmit_tail_update \<circ> tt_bandpass_lowpass_hz_update) (f64 2500) (f64 20000)))]"

definition setting_table :: "(string \<times> profile_applier) list" where
  "setting_table = chain_settings @ equalizer_settings @ deesser_settings @ agc_settings @
     expander_settings @ compressor_settings @ limiter_settings @ receive_settings @
     peak_limiter_settings @ transmit_tail_settings"

definition apply_setting :: "raw_overlay \<Rightarrow> raw_setting \<Rightarrow> string \<Rightarrow> processing_chain \<Rightarrow> warnings \<Rightarrow>
  processing_chain \<times> warnings" where
  "apply_setting ov setting name c ws =
     (case map_of setting_table name of
        Some apply \<Rightarrow> apply ov setting c ws
      | None \<Rightarrow> (c, overlay_unknown ws ov setting))"

section \<open>Resolution\<close>

datatype profile_resolution_error =
    RoleMismatch chain_role chain_role string
  | LayerMismatch string string string
  | ProfileConflict string string string string string
  | AmbiguousProfile string string
  | ProfileDocument config_error
  | InvalidResolvedProfile processing_config_error

record resolved_profile =
  rp_chain :: processing_chain
  rp_warnings :: warnings

definition require_overlay ::
  "raw_overlay \<Rightarrow> chain_role \<Rightarrow> overlay_layer \<Rightarrow> (profile_resolution_error, unit) result" where
  "require_overlay ov r layer =
     (if overlay_role ov \<noteq> r then Inl (RoleMismatch r (overlay_role ov) (overlay_section ov))
      else if overlay_layer ov \<noteq> layer
      then Inl (LayerMismatch (layer_name layer) (layer_name (overlay_layer ov)) (overlay_section ov))
      else Inr ())"

text \<open>The loop of \<open>apply_overlay\<close>; \<open>seen\<close> maps a normalised name to the first value assigned to it.\<close>

fun apply_overlay_from ::
  "raw_overlay \<Rightarrow> btree_map \<Rightarrow> raw_setting list \<Rightarrow> processing_chain \<Rightarrow> warnings \<Rightarrow>
   (profile_resolution_error, processing_chain \<times> warnings) result" where
  "apply_overlay_from ov seen [] c ws = Inr (c, ws)"
| "apply_overlay_from ov seen (setting # rest) c ws =
     (case btree_get seen (to_ascii_lowercase (trim (raw_name setting))) of
        Some previous \<Rightarrow>
          if trim previous \<noteq> trim (raw_value setting)
          then Inl (ProfileConflict (overlay_source ov) (overlay_section ov)
                 (to_ascii_lowercase (trim (raw_name setting))) previous (raw_value setting))
          else apply_overlay_from ov seen rest c ws
      | None \<Rightarrow>
          (case apply_setting ov setting (to_ascii_lowercase (trim (raw_name setting))) c ws of
             (c', ws') \<Rightarrow>
               apply_overlay_from ov
                 (btree_insert (to_ascii_lowercase (trim (raw_name setting))) (raw_value setting) seen)
                 rest c' ws'))"

definition apply_overlay ::
  "processing_chain \<Rightarrow> raw_overlay \<Rightarrow> warnings \<Rightarrow>
   (profile_resolution_error, processing_chain \<times> warnings) result" where
  "apply_overlay c ov ws = apply_overlay_from ov [] (overlay_settings ov) c ws"

definition resolve_with_defaults ::
  "chain_role \<Rightarrow> raw_overlay \<Rightarrow> raw_overlay option \<Rightarrow> processing_chain \<Rightarrow>
   (profile_resolution_error, resolved_profile) result" where
  "resolve_with_defaults r flat_overlay scoped c =
     res_bind (require_overlay flat_overlay r Flat) (\<lambda>_.
     res_bind (case scoped of None \<Rightarrow> Inr () | Some ov \<Rightarrow> require_overlay ov r Scoped) (\<lambda>_.
     res_bind (apply_overlay c flat_overlay []) (\<lambda>(c1, ws1).
     res_bind (case scoped of None \<Rightarrow> Inr (c1, ws1) | Some ov \<Rightarrow> apply_overlay c1 ov ws1) (\<lambda>(c2, ws2).
     res_bind (map_err InvalidResolvedProfile (validate_chain c2)) (\<lambda>_.
     Inr \<lparr>rp_chain = c2, rp_warnings = ws2\<rparr>)))))"

definition resolve ::
  "chain_role \<Rightarrow> raw_overlay \<Rightarrow> raw_overlay option \<Rightarrow>
   (profile_resolution_error, resolved_profile) result" where
  "resolve r flat_overlay scoped = resolve_with_defaults r flat_overlay scoped (shipped r)"

text \<open>The loop of \<open>reject_ambiguous_selector\<close> over the values of the channel section.\<close>

fun selector_conflict :: "string \<Rightarrow> string option \<Rightarrow> btree_map \<Rightarrow> bool" where
  "selector_conflict selector selected [] = False"
| "selector_conflict selector selected ((name, value) # rest) =
     (if \<not> eq_ignore_ascii_case name selector then selector_conflict selector selected rest
      else
        (case selected of
           Some previous \<Rightarrow>
             if \<not> eq_ignore_ascii_case (trim previous) (trim value) then True
             else selector_conflict selector selected rest
         | None \<Rightarrow> selector_conflict selector (Some value) rest))"

definition reject_ambiguous_selector ::
  "config_document \<Rightarrow> string \<Rightarrow> string \<Rightarrow> (profile_resolution_error, unit) result" where
  "reject_ambiguous_selector doc channel kind =
     (if selector_conflict (kind @ ''_profile'') None (explicit_values doc channel)
      then Inl (AmbiguousProfile channel (kind @ ''_profile'')) else Inr ())"

definition from_document_with_defaults ::
  "config_document \<Rightarrow> string \<Rightarrow> string \<Rightarrow> chain_role \<Rightarrow> processing_chain \<Rightarrow>
   (profile_resolution_error, resolved_profile) result" where
  "from_document_with_defaults doc source channel r defaults =
     res_bind (reject_ambiguous_selector doc channel (role_section r)) (\<lambda>_.
     (case resolved_section doc channel (role_section r) source [] of
        (Inl error, _) \<Rightarrow> Inl (ProfileDocument error)
      | (Inr selected, ws) \<Rightarrow>
          res_bind
            (resolve_with_defaults r
               (overlay_flat r source (explicit_values doc (role_section r)))
               (if \<not> eq_ignore_ascii_case selected (role_section r)
                then Some (overlay_scoped r source selected (explicit_values doc selected))
                else None)
               defaults)
            (\<lambda>result. Inr (result\<lparr>rp_warnings := ws @ rp_warnings result\<rparr>))))"

definition from_document ::
  "config_document \<Rightarrow> string \<Rightarrow> string \<Rightarrow> chain_role \<Rightarrow>
   (profile_resolution_error, resolved_profile) result" where
  "from_document doc source channel r =
     from_document_with_defaults doc source channel r (shipped r)"

end
