(* ===== verification/Float_Order.thy ===== *)
theory Float_Order
  imports Rust_Float
begin

text \<open>
  Order facts of the float model: rounding to a format is monotone, literals of moderate size are
  finite, and small integers are exact. The range checks of the configuration compare literals, so
  these lemmas decide them without evaluating any rounding.
\<close>

section \<open>Powers of two\<close>

lemma pow2_powi: "pow2 e = 2 powi e"
  by (simp add: pow2_def power_int_def field_simps)

lemma pow2_pos [simp]: "0 < pow2 e"
  by (simp add: pow2_powi zero_less_power_int)

lemma pow2_add: "pow2 (a + b) = pow2 a * pow2 b"
  by (simp add: pow2_powi power_int_add)

lemma pow2_less_mono: "a < b \<Longrightarrow> pow2 a < pow2 b"
  unfolding pow2_powi by (rule power_int_strict_increasing) auto

lemma pow2_less_iff [simp]: "pow2 a < pow2 b \<longleftrightarrow> a < b"
  using pow2_less_mono [of a b] pow2_less_mono [of b a] by (cases a b rule: linorder_cases) auto

lemma pow2_le_iff [simp]: "pow2 a \<le> pow2 b \<longleftrightarrow> a \<le> b"
  using pow2_less_iff [of b a] by (simp only: not_less [symmetric])

lemma pow2_of_nat: "pow2 (int n) = of_int (2 ^ n)"
  by (simp add: pow2_def)

section \<open>Binary logarithm\<close>

lemma bit_length_bounds:
  "0 < n \<Longrightarrow> 0 < bit_length n \<and> pow2 (bit_length n - 1) \<le> of_int n \<and> of_int n < pow2 (bit_length n)"
proof (induction n rule: bit_length.induct)
  case (1 n)
  show ?case
  proof (cases "n = 1")
    case True
    then show ?thesis by (simp add: bit_length.simps pow2_def)
  next
    case False
    let ?m = "n div 2"
    have m: "0 < ?m" using False "1.prems" by auto
    have IH: "pow2 (bit_length ?m - 1) \<le> of_int ?m" "of_int ?m < pow2 (bit_length ?m)" "0 < bit_length ?m"
      using "1.IH" "1.prems" m by auto
    have l: "bit_length n = 1 + bit_length ?m" using "1.prems" by (simp add: bit_length.simps)
    have n: "2 * ?m \<le> n" "n \<le> 2 * ?m + 1" by auto
    have two: "pow2 (1 + e) = 2 * pow2 e" for e by (simp add: pow2_add) (simp add: pow2_def)
    have whole: "\<exists>k. pow2 (bit_length ?m) = of_int k"
      using IH(3) pow2_of_nat [of "nat (bit_length ?m)"] by auto
    then obtain k where k: "pow2 (bit_length ?m) = of_int k" by blast
    have "?m + 1 \<le> k" using IH(2) k by auto
    then have "n < 2 * k" using n by linarith
    then have up: "of_int n < pow2 (bit_length n)"
      using k two [of "bit_length ?m"] l by (metis of_int_less_iff of_int_mult of_int_numeral)
    have "2 * pow2 (bit_length ?m - 1) \<le> of_int (2 * ?m)" using IH(1) by simp
    also have "\<dots> \<le> of_int n" using n by (simp only: of_int_le_iff)
    finally have low: "pow2 (bit_length n - 1) \<le> of_int n"
      using two [of "bit_length ?m - 1"] l by simp
    show ?thesis using up low l IH(3) by simp
  qed
qed

lemma ilog2_bounds:
  assumes "0 < q"
  shows "pow2 (ilog2 q) \<le> q" and "q < pow2 (ilog2 q + 1)"
proof -
  obtain n d where nd: "quotient_of q = (n, d)" by (cases "quotient_of q")
  have d: "0 < d" using quotient_of_denom_pos [OF nd] .
  have q: "q = of_int n / of_int d" using quotient_of_div [OF nd] .
  have n: "0 < n" using assms d q by (simp add: zero_less_divide_iff)
  let ?a = "bit_length n" and ?b = "bit_length d"
  have A: "pow2 (?a - 1) \<le> of_int n" "of_int n < pow2 ?a" using bit_length_bounds [OF n] by auto
  have B: "pow2 (?b - 1) \<le> of_int d" "of_int d < pow2 ?b" using bit_length_bounds [OF d] by auto
  have d': "(0::rat) < of_int d" using d by simp
  have "pow2 (?a - 1 - ?b) * of_int d \<le> pow2 (?a - 1 - ?b) * pow2 ?b"
    using B by (intro mult_left_mono) (auto simp: less_imp_le)
  also have "\<dots> = pow2 (?a - 1)" by (simp add: pow2_add [symmetric])
  finally have "pow2 (?a - 1 - ?b) * of_int d \<le> of_int n" using A by linarith
  then have low: "pow2 (?a - ?b - 1) \<le> q" using q d' by (simp add: le_divide_eq algebra_simps)
  have "pow2 ?a = pow2 (?a - ?b + 1) * pow2 (?b - 1)" by (simp add: pow2_add [symmetric])
  also have "\<dots> \<le> pow2 (?a - ?b + 1) * of_int d"
    using B by (intro mult_left_mono) (auto simp: less_imp_le)
  finally have "of_int n < pow2 (?a - ?b + 1) * of_int d" using A by linarith
  then have high: "q < pow2 (?a - ?b + 1)" using q d' by (simp add: divide_less_eq)
  show "pow2 (ilog2 q) \<le> q" and "q < pow2 (ilog2 q + 1)"
    using low high nd by (auto simp: ilog2_def Let_def)
qed

lemma ilog2_mono: "0 < p \<Longrightarrow> p \<le> q \<Longrightarrow> ilog2 p \<le> ilog2 q"
proof -
  assume pq: "0 < p" "p \<le> q"
  then have "pow2 (ilog2 p) < pow2 (ilog2 q + 1)"
    using ilog2_bounds [of p] ilog2_bounds [of q] by (meson le_less_trans less_le_trans order.trans)
  then show ?thesis by simp
qed

lemma ilog2_less: "0 < q \<Longrightarrow> q < pow2 k \<Longrightarrow> ilog2 q < k"
  using ilog2_bounds(1) [of q] le_less_trans [of "pow2 (ilog2 q)" q "pow2 k"] by simp

section \<open>Rounding\<close>

lemma round_even_near: "\<lfloor>q\<rfloor> \<le> round_even q" "round_even q \<le> \<lfloor>q\<rfloor> + 1"
  by (auto simp: round_even_def Let_def)

lemma round_even_of_int [simp]: "round_even (of_int k) = k"
  by (simp add: round_even_def)

lemma round_even_mono:
  assumes "p \<le> q" shows "round_even p \<le> round_even q"
proof (cases "\<lfloor>p\<rfloor> = \<lfloor>q\<rfloor>")
  case True
  then show ?thesis using assms by (auto simp: round_even_def Let_def)
next
  case False
  then have "\<lfloor>p\<rfloor> + 1 \<le> \<lfloor>q\<rfloor>" using floor_mono [OF assms] by linarith
  then show ?thesis using round_even_near [of p] round_even_near [of q] by linarith
qed

lemma round_even_le_of_int: "q \<le> of_int k \<Longrightarrow> round_even q \<le> k"
  using round_even_mono [of q "of_int k"] by simp

lemma round_even_ge_of_int: "of_int k \<le> q \<Longrightarrow> k \<le> round_even q"
  using round_even_mono [of "of_int k" q] by simp

text \<open>The exponent of the last place and the rounded value, before the overflow check.\<close>

definition unit_exponent :: "float_format \<Rightarrow> rat \<Rightarrow> int" where
  "unit_exponent fmt q = max (ilog2 q - int (mantissa_bits fmt) + 1) (min_exponent fmt)"

definition rounded :: "float_format \<Rightarrow> rat \<Rightarrow> rat" where
  "rounded fmt q = of_int (round_even (q / pow2 (unit_exponent fmt q))) * pow2 (unit_exponent fmt q)"

lemma round_magnitude_rounded:
  "0 < q \<Longrightarrow> round_magnitude fmt q =
     (if pow2 (max_exponent fmt) \<le> rounded fmt q then None else Some (rounded fmt q))"
  by (simp add: round_magnitude_def rounded_def unit_exponent_def Let_def)

lemma rounded_nonneg: "0 < q \<Longrightarrow> 0 \<le> rounded fmt q"
  unfolding rounded_def using round_even_ge_of_int [of 0 "q / pow2 (unit_exponent fmt q)"]
  by (simp add: less_imp_le)

lemma round_even_error: "\<bar>of_int (round_even q) - q\<bar> \<le> 1 / 2"
proof -
  define f where "f = \<lfloor>q\<rfloor>"
  have f: "of_int f \<le> q" "q < of_int f + 1" unfolding f_def by linarith+
  consider "q - of_int f < 1 / 2" | "1 / 2 < q - of_int f" | "q - of_int f = 1 / 2" by linarith
  then show ?thesis
  proof cases
    case 1
    then have "round_even q = f" by (simp add: round_even_def f_def)
    then show ?thesis using 1 f by linarith
  next
    case 2
    then have "round_even q = f + 1" by (simp add: round_even_def f_def)
    then have "of_int (round_even q) = of_int f + (1 :: rat)" by simp
    then show ?thesis using 2 f by linarith
  next
    case 3
    have "of_int (round_even q) = of_int f + (1 :: rat) \<or> of_int (round_even q) = (of_int f :: rat)"
      using round_even_near [of q] unfolding f_def [symmetric]
      by (metis add.commute int_one_le_iff_zero_less less_le_not_le linorder_le_less_linear of_int_1 of_int_add order_antisym zless_add1_eq)
    then show ?thesis using 3 f by linarith
  qed
qed

lemma rounded_error:
  assumes "0 < q" shows "\<bar>rounded fmt q - q\<bar> \<le> pow2 (unit_exponent fmt q) / 2"
proof -
  let ?e = "unit_exponent fmt q"
  have "rounded fmt q - q = (of_int (round_even (q / pow2 ?e)) - q / pow2 ?e) * pow2 ?e"
    by (simp add: rounded_def left_diff_distrib less_imp_neq [OF pow2_pos, symmetric])
  also have "\<bar>\<dots>\<bar> = \<bar>of_int (round_even (q / pow2 ?e)) - q / pow2 ?e\<bar> * pow2 ?e"
    by (simp add: abs_mult abs_of_pos)
  also have "\<dots> \<le> 1 / 2 * pow2 ?e"
    by (intro mult_right_mono round_even_error) (simp add: less_imp_le)
  finally show ?thesis by simp
qed

lemma rounded_le_pow2:
  assumes "0 < q" "q \<le> pow2 k" "unit_exponent fmt q \<le> k"
  shows "rounded fmt q \<le> pow2 k"
proof -
  let ?e = "unit_exponent fmt q"
  have k: "pow2 k = of_int (2 ^ nat (k - ?e)) * pow2 ?e"
    using assms(3) pow2_of_nat [of "nat (k - ?e)"] pow2_add [of "k - ?e" ?e] by simp
  have "q / pow2 ?e \<le> of_int (2 ^ nat (k - ?e))" using assms(2) k by (simp add: divide_le_eq)
  then have "round_even (q / pow2 ?e) \<le> 2 ^ nat (k - ?e)" by (rule round_even_le_of_int)
  then show ?thesis unfolding rounded_def k by (intro mult_right_mono) (auto simp: less_imp_le)
qed

lemma pow2_le_rounded:
  assumes "0 < q" "pow2 k \<le> q" "unit_exponent fmt q \<le> k"
  shows "pow2 k \<le> rounded fmt q"
proof -
  let ?e = "unit_exponent fmt q"
  have k: "pow2 k = of_int (2 ^ nat (k - ?e)) * pow2 ?e"
    using assms(3) pow2_of_nat [of "nat (k - ?e)"] pow2_add [of "k - ?e" ?e] by simp
  have "of_int (2 ^ nat (k - ?e)) \<le> q / pow2 ?e" using assms(2) k by (simp add: le_divide_eq)
  then have "2 ^ nat (k - ?e) \<le> round_even (q / pow2 ?e)" by (rule round_even_ge_of_int)
  then show ?thesis unfolding rounded_def k by (intro mult_right_mono) (auto simp: less_imp_le)
qed

lemma rounded_mono:
  assumes "0 < p" "p \<le> q" "0 < mantissa_bits fmt"
  shows "rounded fmt p \<le> rounded fmt q"
proof (cases "unit_exponent fmt p = unit_exponent fmt q")
  case True
  then have "round_even (p / pow2 (unit_exponent fmt p)) \<le> round_even (q / pow2 (unit_exponent fmt q))"
    using assms by (auto intro!: round_even_mono divide_right_mono simp: less_imp_le)
  then show ?thesis unfolding rounded_def True by (intro mult_right_mono) (auto simp: less_imp_le)
next
  case False
  have log: "ilog2 p \<le> ilog2 q" using assms ilog2_mono by blast
  have e: "unit_exponent fmt p < unit_exponent fmt q" "unit_exponent fmt q = ilog2 q - int (mantissa_bits fmt) + 1"
    using False log by (auto simp: unit_exponent_def)
  have "ilog2 p < ilog2 q" using e log by (auto simp: unit_exponent_def)
  then have "pow2 (ilog2 p + 1) \<le> pow2 (ilog2 q)" by simp
  then have "p \<le> pow2 (ilog2 q)" using ilog2_bounds(2) [OF assms(1)] by linarith
  moreover have "unit_exponent fmt q \<le> ilog2 q" using e(2) assms(3) by linarith
  ultimately show ?thesis
    using rounded_le_pow2 [of p "ilog2 q" fmt] pow2_le_rounded [of q "ilog2 q" fmt] e(1) assms
      ilog2_bounds(1) [of q] by (meson less_le_trans less_imp_le order.trans)
qed

section \<open>Literals\<close>

definition moderate :: "rat \<Rightarrow> bool" where
  "moderate q \<longleftrightarrow> \<bar>q\<bar> \<le> 2 ^ 53"

lemma moderate_pow2: "moderate q \<Longrightarrow> \<bar>q\<bar> \<le> pow2 53"
  by (simp add: moderate_def pow2_def)

lemma rounded_f64_moderate:
  assumes "0 < q" "moderate q" shows "rounded f64_format q < pow2 1024"
proof -
  have q: "q \<le> pow2 53" using moderate_pow2 [OF assms(2)] assms(1) by simp
  then have "q < pow2 54" using pow2_less_iff [of 53 54] by linarith
  then have "ilog2 q < 54" using ilog2_less assms(1) by blast
  then have "unit_exponent f64_format q \<le> 53" by (simp add: unit_exponent_def f64_format_def)
  then have "rounded f64_format q \<le> pow2 53" using rounded_le_pow2 q assms(1) by blast
  then show ?thesis using pow2_less_iff [of 53 1024] by linarith
qed

lemma f64_cases:
  assumes "moderate q"
  shows "f64 q = FFin (q < 0) (if q = 0 then 0 else rounded f64_format \<bar>q\<bar>)"
proof (cases "q = 0")
  case False
  then have "rounded f64_format \<bar>q\<bar> < pow2 1024"
    using rounded_f64_moderate [of "\<bar>q\<bar>"] assms by (simp add: moderate_def)
  then show ?thesis
    using False round_magnitude_rounded [of "\<bar>q\<bar>" f64_format]
    by (simp add: f64_def float_of_def f64_format_def)
qed (simp add: f64_def float_of_def round_magnitude_def)

lemma f64_finite: "moderate q \<Longrightarrow> is_finite (f64 q)"
  by (simp add: f64_cases)

lemma f64_le:
  assumes "p \<le> q" "moderate p" "moderate q" shows "float_le (f64 p) (f64 q)"
proof -
  have m: "0 < mantissa_bits f64_format" by (simp add: f64_format_def)
  have P: "p \<noteq> 0 \<Longrightarrow> 0 \<le> rounded f64_format \<bar>p\<bar>" "q \<noteq> 0 \<Longrightarrow> 0 \<le> rounded f64_format \<bar>q\<bar>"
    by (auto intro: rounded_nonneg)
  consider "0 < p" "0 < q" | "p < 0" "q < 0" | "p \<le> 0" "0 \<le> q"
    using assms(1) by linarith
  then show ?thesis
  proof cases
    case 1
    then show ?thesis using assms rounded_mono [of p q f64_format] m by (simp add: f64_cases)
  next
    case 2
    then show ?thesis using assms rounded_mono [of "- q" "- p" f64_format] m by (simp add: f64_cases)
  next
    case 3
    then show ?thesis using assms P by (auto simp: f64_cases)
  qed
qed

lemma rounded_of_int:
  assumes "0 < n" "n < 2 ^ 53" shows "rounded f64_format (of_int n) = of_int n"
proof -
  let ?e = "unit_exponent f64_format (of_int n)"
  have "rat_of_int n < of_int (2 ^ 53)" using assms(2) by (simp only: of_int_less_iff)
  then have "of_int n < pow2 53" by (simp add: pow2_def)
  then have "ilog2 (of_int n) < 53" using assms(1) ilog2_less [of "of_int n" 53] by simp
  then have e: "?e \<le> 0" by (simp add: unit_exponent_def f64_format_def)
  have one: "pow2 (- ?e) * pow2 ?e = 1" using pow2_add [of "- ?e" ?e] by (simp add: pow2_def)
  then have "of_int n / pow2 ?e = of_int n * pow2 (- ?e)"
    by (simp add: divide_eq_eq mult.assoc less_imp_neq [OF pow2_pos, symmetric])
  also have "\<dots> = of_int (n * 2 ^ nat (- ?e))"
    using e pow2_of_nat [of "nat (- ?e)"] by simp
  finally have "round_even (of_int n / pow2 ?e) = n * 2 ^ nat (- ?e)" by (simp only: round_even_of_int)
  then have "rounded f64_format (of_int n) = of_int n * (pow2 (- ?e) * pow2 ?e)"
    using e pow2_of_nat [of "nat (- ?e)"] by (simp add: rounded_def)
  then show ?thesis using one by simp
qed

lemma f64_of_int:
  assumes "\<bar>n\<bar> < 2 ^ 53" shows "f64 (of_int n) = FFin (n < 0) (of_int \<bar>n\<bar>)"
proof -
  have "rat_of_int \<bar>n\<bar> \<le> of_int (2 ^ 53)" using assms by (simp only: of_int_le_iff)
  then have "moderate (of_int n)" by (simp add: moderate_def)
  then show ?thesis using rounded_of_int [of "\<bar>n\<bar>"] assms by (auto simp: f64_cases)
qed

lemma f64_less:
  "m < n \<Longrightarrow> \<bar>m\<bar> < 2 ^ 53 \<Longrightarrow> \<bar>n\<bar> < 2 ^ 53 \<Longrightarrow> float_lt (f64 (of_int m)) (f64 (of_int n))"
  by (simp only: f64_of_int) (auto simp: abs_if)

end
