(* ===== verification/Profile_Safety.thy ===== *)
theory Profile_Safety
  imports Profile_Resolution Float_Order
begin

text \<open>
  What profile resolution guarantees. \<open>settings_ok\<close> is the contract of a processing chain: every
  number in its documented range, an admissible oversampling factor, a stage order without
  repetition, and no stage that the role forbids. Every applier keeps it, the shipped chains satisfy
  it, so the only errors left to the final validation are the cross-field ones.
\<close>

section \<open>The contract of a chain\<close>

definition compressor_band_ok :: "dynamics_band \<Rightarrow> bool" where
  "compressor_band_ok b \<longleftrightarrow>
     in_range (band_threshold_dbfs b) (f64 (- 60)) (f64 0) \<and>
     in_range (band_ratio b) (f64 1) (f64 20) \<and>
     in_range (band_makeup_gain_db b) (f64 (- 30)) (f64 30) \<and>
     in_range (band_knee_db b) (f64 0) (f64 18) \<and>
     in_range (band_attack_ms b) (f64 1) (f64 1000) \<and>
     in_range (band_release_ms b) (f64 1) (f64 9000)"

definition limiter_band_ok :: "rust_float \<Rightarrow> rust_float \<Rightarrow> rust_float \<Rightarrow> dynamics_band \<Rightarrow> bool" where
  "limiter_band_ok minimum_threshold maximum_attack_ms maximum_release_ms b \<longleftrightarrow>
     in_range (band_threshold_dbfs b) minimum_threshold (f64 (- 1)) \<and>
     in_range (band_ratio b) (f64 1) (f64 20) \<and>
     in_range (band_knee_db b) (f64 0) (f64 18) \<and>
     in_range (band_attack_ms b) (f64 (1/10)) maximum_attack_ms \<and>
     in_range (band_release_ms b) (f64 1) maximum_release_ms"

definition receive_ok :: "receive_conditioning \<Rightarrow> bool" where
  "receive_ok r \<longleftrightarrow>
     in_range (rc_bandpass_highpass_hz r) (f64 20) (f64 2000) \<and>
     in_range (rc_bandpass_lowpass_hz r) (f64 20) (f64 6000) \<and>
     in_range (rc_notch_width_hz r) (f64 10) (f64 10) \<and>
     in_range (rc_highpass_hz r) (f64 50) (f64 500)"

definition equalizer_ok :: "equalizer_config \<Rightarrow> bool" where
  "equalizer_ok e \<longleftrightarrow>
     in_range (eq_low_gain_db e) (f64 (- 12)) (f64 12) \<and>
     in_range (eq_low_frequency_hz e) (f64 20) (f64 1000) \<and>
     in_range (eq_low_slope e) (f64 (1/10)) (f64 1) \<and>
     in_range (eq_mid_gain_db e) (f64 (- 12)) (f64 12) \<and>
     in_range (eq_mid_frequency_hz e) (f64 100) (f64 4000) \<and>
     in_range (eq_mid_width_octaves e) (f64 (1/10)) (f64 4) \<and>
     in_range (eq_high_gain_db e) (f64 (- 12)) (f64 12) \<and>
     in_range (eq_high_frequency_hz e) (f64 1000) (f64 5000) \<and>
     in_range (eq_high_slope e) (f64 (1/10)) (f64 1)"

definition deesser_ok :: "deesser_config \<Rightarrow> bool" where
  "deesser_ok d \<longleftrightarrow>
     in_range (de_frequency_hz d) (f64 2000) (f64 8000) \<and>
     in_range (de_width_octaves d) (f64 (1/10)) (f64 4) \<and>
     in_range (de_threshold_dbfs d) (f64 (- 60)) (f64 (- 1)) \<and>
     in_range (de_ratio d) (f64 1) (f64 20) \<and>
     in_range (de_max_reduction_db d) (f64 (1/10)) (f64 20) \<and>
     in_range (de_attack_ms d) (f64 (1/10)) (f64 100) \<and>
     in_range (de_release_ms d) (f64 1) (f64 2000)"

definition agc_ok :: "agc_config \<Rightarrow> bool" where
  "agc_ok a \<longleftrightarrow>
     in_range (agc_target_lufs a) (f64 (- 40)) (f64 (- 3)) \<and>
     in_range (agc_max_gain_db a) (f64 0) (f64 30) \<and>
     in_range (agc_max_attenuation_db a) (f64 0) (f64 60) \<and>
     in_range (agc_loudness_window_ms a) (f64 400) (f64 3000) \<and>
     in_range (agc_gain_increase_db_per_second a) (f64 (1/10)) (f64 100) \<and>
     in_range (agc_gain_decrease_db_per_second a) (f64 (1/10)) (f64 100) \<and>
     in_range (agc_activity_threshold_dbfs a) (f64 (- 100)) (f64 (- 3)) \<and>
     in_range (agc_activity_hysteresis_db a) (f64 0) (f64 12) \<and>
     in_range (agc_hold_ms a) (f64 0) (f64 10000) \<and>
     in_range (agc_deadband_db a) (f64 0) (f64 6)"

definition expander_ok :: "expander_config \<Rightarrow> bool" where
  "expander_ok x \<longleftrightarrow>
     in_range (ex_threshold_dbfs x) (f64 (- 100)) (f64 (- 10)) \<and>
     in_range (ex_ratio x) (f64 1) (f64 10) \<and>
     in_range (ex_max_attenuation_db x) (f64 0) (f64 40) \<and>
     in_range (ex_attack_ms x) (f64 1) (f64 1000) \<and>
     in_range (ex_release_ms x) (f64 1) (f64 10000) \<and>
     in_range (ex_sidechain_highpass_hz x) (f64 50) (f64 2000) \<and>
     in_range (ex_sidechain_lowpass_hz x) (f64 50) (f64 3500)"

definition compressor_ok :: "compressor_config \<Rightarrow> bool" where
  "compressor_ok c \<longleftrightarrow>
     in_range (co_low_crossover_hz c) (f64 100) (f64 2000) \<and>
     in_range (co_high_crossover_hz c) (f64 100) (f64 5000) \<and>
     compressor_band_ok (co_full c) \<and>
     compressor_band_ok (co_low c) \<and>
     compressor_band_ok (co_mid c) \<and>
     compressor_band_ok (co_high c) \<and>
     in_range (co_sidechain_highpass_hz c) (f64 50) (f64 2000) \<and>
     in_range (co_sidechain_lowpass_hz c) (f64 50) (f64 3500)"

definition limiter_ok :: "limiter_config \<Rightarrow> bool" where
  "limiter_ok l \<longleftrightarrow>
     in_range (li_low_crossover_hz l) (f64 100) (f64 2000) \<and>
     in_range (li_high_crossover_hz l) (f64 100) (f64 5000) \<and>
     limiter_band_ok (f64 (- 40)) (f64 1000) (f64 9000) (li_full l) \<and>
     limiter_band_ok (f64 (- 40)) (f64 1000) (f64 9000) (li_low l) \<and>
     limiter_band_ok (f64 (- 40)) (f64 1000) (f64 9000) (li_mid l) \<and>
     limiter_band_ok (f64 (- 30)) (f64 100) (f64 1000) (li_high l)"

definition peak_limiter_ok :: "peak_limiter_config \<Rightarrow> bool" where
  "peak_limiter_ok p \<longleftrightarrow>
     pk_oversample p \<in> {1, 2, 4} \<and>
     in_range (pk_ceiling_dbfs p) (f64 (- 30)) (f64 (-1/10)) \<and>
     in_range (pk_lookahead_ms p) (f64 (1/10)) (f64 20) \<and>
     in_range (pk_attack_ms p) (f64 (1/10)) (f64 20) \<and>
     in_range (pk_release_ms p) (f64 1) (f64 5000)"

definition transmit_tail_ok :: "transmit_tail_config \<Rightarrow> bool" where
  "transmit_tail_ok t \<longleftrightarrow>
     in_range (tt_bandpass_highpass_hz t) (f64 0) (f64 300) \<and>
     in_range (tt_bandpass_lowpass_hz t) (f64 2500) (f64 20000)"

definition settings_ok :: "processing_chain \<Rightarrow> bool" where
  "settings_ok c \<longleftrightarrow>
     in_range (input_gain_db c) (f64 (- 30)) (f64 30) \<and>
     in_range (output_gain_db c) (f64 (- 30)) (f64 30) \<and>
     stages (chain_stage_order c) \<noteq> [] \<and> distinct (stages (chain_stage_order c)) \<and>
     validate_roles c = Inr () \<and>
     receive_ok (receive c) \<and> equalizer_ok (equalizer c) \<and> deesser_ok (deesser c) \<and>
     agc_ok (agc c) \<and> expander_ok (expander c) \<and> compressor_ok (compressor c) \<and>
     limiter_ok (limiter c) \<and> peak_limiter_ok (peak_limiter c) \<and>
     transmit_tail_ok (transmit_tail c)"

definition chain_inv :: "chain_role \<Rightarrow> processing_chain \<Rightarrow> bool" where
  "chain_inv r c \<longleftrightarrow> role c = r \<and> settings_ok c"

text \<open>The five conditions that relate two settings.\<close>

definition orderings :: "processing_chain \<Rightarrow> (string \<times> string \<times> bool) list" where
  "orderings c =
     [(''receive_bandpass_lowpass_hz'', ''receive_bandpass_highpass_hz'',
       float_lt (rc_bandpass_highpass_hz (receive c)) (rc_bandpass_lowpass_hz (receive c))),
      (''expander_sidechain_lowpass_hz'', ''expander_sidechain_highpass_hz'',
       float_lt (ex_sidechain_highpass_hz (expander c)) (ex_sidechain_lowpass_hz (expander c))),
      (''compressor_high_crossover_hz'', ''compressor_low_crossover_hz'',
       float_lt (co_low_crossover_hz (compressor c)) (co_high_crossover_hz (compressor c))),
      (''compressor_sidechain_lowpass_hz'', ''compressor_sidechain_highpass_hz'',
       float_lt (co_sidechain_highpass_hz (compressor c)) (co_sidechain_lowpass_hz (compressor c))),
      (''limiter_high_crossover_hz'', ''limiter_low_crossover_hz'',
       float_lt (li_low_crossover_hz (limiter c)) (li_high_crossover_hz (limiter c)))]"

lemmas stage_ok_defs =
  compressor_band_ok_def limiter_band_ok_def receive_ok_def equalizer_ok_def deesser_ok_def
  agc_ok_def expander_ok_def compressor_ok_def limiter_ok_def peak_limiter_ok_def
  transmit_tail_ok_def

section \<open>Validation under the contract\<close>

lemma finite_range_ok [res_simps]: "finite_range f v lo hi = Inr u \<longleftrightarrow> in_range v lo hi"
  by (simp add: finite_range_def)

lemma finite_range_in_range: "in_range v lo hi \<Longrightarrow> finite_range f v lo hi = Inr ()"
  by (simp add: finite_range_def)

lemma first_error_Cons: "first_error (r # rs) = res_bind r (\<lambda>_. first_error rs)"
  by (cases r) auto

lemma require_greater_bind:
  "res_bind (require_greater upper u lower l) f =
     (if float_lt l u then f () else Inl (OrderingError upper lower))"
  by (simp add: require_greater_def)

lemma compressor_band_validates: "compressor_band_ok b \<Longrightarrow> validate_compressor_band p b = Inr ()"
  by (simp add: validate_compressor_band_def compressor_band_ok_def finite_range_in_range)

lemma limiter_band_validates:
  "limiter_band_ok t a r b \<Longrightarrow> validate_limiter_band p b t a r = Inr ()"
  by (simp add: validate_limiter_band_def limiter_band_ok_def finite_range_in_range)

lemmas in_range_validates =
  finite_range_in_range compressor_band_validates limiter_band_validates first_error_Cons
  require_greater_bind

lemma equalizer_validates: "equalizer_ok (equalizer c) \<Longrightarrow> validate_equalizer c = Inr ()"
  by (simp add: validate_equalizer_def equalizer_ok_def in_range_validates)

lemma deesser_validates: "deesser_ok (deesser c) \<Longrightarrow> validate_deesser c = Inr ()"
  by (simp add: validate_deesser_def deesser_ok_def in_range_validates)

lemma agc_validates: "agc_ok (agc c) \<Longrightarrow> validate_agc c = Inr ()"
  by (simp add: validate_agc_def agc_ok_def in_range_validates)

lemma peak_limiter_validates: "peak_limiter_ok (peak_limiter c) \<Longrightarrow> validate_peak_limiter c = Inr ()"
  by (simp add: validate_peak_limiter_def peak_limiter_ok_def in_range_validates)

lemma transmit_tail_validates:
  "transmit_tail_ok (transmit_tail c) \<Longrightarrow> validate_transmit_tail c = Inr ()"
  by (simp add: validate_transmit_tail_def transmit_tail_ok_def in_range_validates)

text \<open>The first broken condition, as an error.\<close>

fun first_broken :: "(string \<times> string \<times> bool) list \<Rightarrow> (processing_config_error, unit) result" where
  "first_broken [] = Inr ()"
| "first_broken ((upper, lower, holds) # cs) =
     (if holds then first_broken cs else Inl (OrderingError upper lower))"

lemma first_broken_append:
  "first_broken (xs @ ys) = res_bind (first_broken xs) (\<lambda>_. first_broken ys)"
  by (induction xs rule: first_broken.induct) auto

lemma first_broken_ok: "first_broken cs = Inr u \<longleftrightarrow> list_all (\<lambda>(_, _, holds). holds) cs"
  by (induction cs rule: first_broken.induct) auto

lemma first_broken_error:
  "first_broken cs = Inl e \<Longrightarrow> \<exists>upper lower. (upper, lower, False) \<in> set cs \<and> e = OrderingError upper lower"
  by (induction cs rule: first_broken.induct) (auto split: if_splits)

lemma receive_validates:
  "receive_ok (receive c) \<Longrightarrow> validate_receive c = first_broken (take 1 (orderings c))"
  by (simp add: validate_receive_def receive_ok_def in_range_validates orderings_def)

lemma expander_validates:
  "expander_ok (expander c) \<Longrightarrow> validate_expander c = first_broken (take 1 (drop 1 (orderings c)))"
  by (simp add: validate_expander_def expander_ok_def in_range_validates orderings_def)

lemma compressor_validates:
  "compressor_ok (compressor c) \<Longrightarrow> validate_compressor c = first_broken (take 2 (drop 2 (orderings c)))"
  by (simp add: validate_compressor_def compressor_ok_def in_range_validates orderings_def)

lemma limiter_validates:
  "limiter_ok (limiter c) \<Longrightarrow> validate_limiter c = first_broken (drop 4 (orderings c))"
  by (simp add: validate_limiter_def limiter_ok_def in_range_validates orderings_def)

lemma first_broken_orderings:
  "first_broken (orderings c) =
     res_bind (first_broken (take 1 (orderings c))) (\<lambda>_.
     res_bind (first_broken (take 1 (drop 1 (orderings c)))) (\<lambda>_.
     res_bind (first_broken (take 2 (drop 2 (orderings c)))) (\<lambda>_. first_broken (drop 4 (orderings c)))))"
  by (simp add: orderings_def)

lemma res_bind_return: "res_bind r (\<lambda>_. Inr ()) = (r :: ('e, unit) result)"
  by (cases r) auto

lemma validate_chain_under_contract:
  assumes "settings_ok c"
  shows "validate_chain c =
    res_bind (map_err StageOrderInvalid (require_enabled (chain_stage_order c) (enabled_stages c)))
      (\<lambda>_. first_broken (orderings c))"
  using assms
  by (simp only: validate_chain_def settings_ok_def first_error_Cons finite_range_in_range
      receive_validates equalizer_validates deesser_validates agc_validates expander_validates
      compressor_validates limiter_validates peak_limiter_validates transmit_tail_validates
      first_broken_orderings res_bind.simps first_error.simps res_bind_return)

section \<open>Every applier keeps the contract\<close>

definition good_applier :: "profile_applier \<Rightarrow> bool" where
  "good_applier f \<longleftrightarrow>
     (\<forall>ov s c ws r. tolerant_step (c, ws) (f ov s c ws) \<and> (chain_inv r c \<longrightarrow> chain_inv r (fst (f ov s c ws))))"

definition good_assigner :: "('a \<Rightarrow> bool) \<Rightarrow> 'a assigner \<Rightarrow> bool" where
  "good_assigner P f \<longleftrightarrow>
     (\<forall>v ws ov s. tolerant_step (v, ws) (f v ws ov s) \<and> (fst (f v ws ov s) = v \<or> P (fst (f v ws ov s))))"

lemma good_boolean: "good_assigner (\<lambda>_. True) assign_boolean"
  by (auto simp: good_assigner_def assign_boolean_def tolerant_step_def overlay_invalid_def split: option.splits)

lemma good_number: "good_assigner (\<lambda>v. in_range v lo hi) (assign_number lo hi)"
  by (auto simp: good_assigner_def assign_number_def tolerant_step_def overlay_invalid_def in_range_def
      parse_number_def split: option.splits sum.splits if_splits)

lemma good_oversample: "good_assigner (\<lambda>v. v \<in> {1, 2, 4}) oversample_factor"
  by (auto simp: good_assigner_def oversample_factor_def tolerant_step_def overlay_invalid_def)

lemma good_layout: "good_assigner (\<lambda>_. True) assign_layout"
  by (auto simp: good_assigner_def assign_layout_def tolerant_step_def overlay_invalid_def)

lemma good_pl_filter: "good_assigner (\<lambda>_. True) assign_pl_filter"
  by (auto simp: good_assigner_def assign_pl_filter_def tolerant_step_def overlay_invalid_def split: option.splits)

lemma good_stage_order:
  "good_assigner (\<lambda>v. stages v \<noteq> [] \<and> distinct (stages v)) assign_stage_order"
  by (auto simp: good_assigner_def assign_stage_order_def tolerant_step_def overlay_invalid_def
      split: sum.splits dest: parsed_order_facts)

text \<open>An assignment through accessors is good when the accessors form a lens and the value keeps the contract.\<close>

lemma good_field:
  assumes "good_assigner P f"
    and "\<And>c. upd (\<lambda>_. get c) c = c"
    and "\<And>r c v. chain_inv r c \<Longrightarrow> P v \<Longrightarrow> chain_inv r (upd (\<lambda>_. v) c)"
  shows "good_applier (assign_field get upd f)"
proof -
  have "tolerant_step (c, ws) (assign_field get upd f ov s c ws)"
    and "chain_inv r c \<Longrightarrow> chain_inv r (fst (assign_field get upd f ov s c ws))" for ov s c ws r
  proof -
    obtain v ws' where step: "f (get c) ws ov s = (v, ws')" by (cases "f (get c) ws ov s")
    then have T: "tolerant_step (get c, ws) (v, ws')" and V: "v = get c \<or> P v"
      using assms(1) unfolding good_assigner_def by (metis fst_conv)+
    show "tolerant_step (c, ws) (assign_field get upd f ov s c ws)"
      using T step assms(2) by (auto simp: assign_field_def tolerant_step_def)
    show "chain_inv r c \<Longrightarrow> chain_inv r (fst (assign_field get upd f ov s c ws))"
      using V step assms(2,3) by (auto simp: assign_field_def)
  qed
  then show ?thesis by (simp add: good_applier_def)
qed

lemmas good_fields =
  good_field [OF good_boolean] good_field [OF good_number] good_field [OF good_oversample]
  good_field [OF good_layout] good_field [OF good_pl_filter] good_field [OF good_stage_order]

lemma good_only_field:
  assumes "good_assigner P f"
    and "\<And>c. upd (\<lambda>_. get c) c = c"
    and "\<And>r' c v. role c = r \<Longrightarrow> chain_inv r' c \<Longrightarrow> P v \<Longrightarrow> chain_inv r' (upd (\<lambda>_. v) c)"
  shows "good_applier (only r (assign_field get upd f))"
proof -
  have "tolerant_step (c, ws) (only r (assign_field get upd f) ov s c ws)"
    and "chain_inv r' c \<Longrightarrow> chain_inv r' (fst (only r (assign_field get upd f) ov s c ws))" for ov s c ws r'
  proof -
    obtain v ws' where step: "f (get c) ws ov s = (v, ws')" by (cases "f (get c) ws ov s")
    then have T: "tolerant_step (get c, ws) (v, ws')" and V: "v = get c \<or> P v"
      using assms(1) unfolding good_assigner_def by (metis fst_conv)+
    show "tolerant_step (c, ws) (only r (assign_field get upd f) ov s c ws)"
      using T step assms(2) by (auto simp: assign_field_def only_def overlay_unsupported_def tolerant_step_def)
    show "chain_inv r' c \<Longrightarrow> chain_inv r' (fst (only r (assign_field get upd f) ov s c ws))"
      using V step assms(2,3) by (auto simp: assign_field_def only_def)
  qed
  then show ?thesis by (simp add: good_applier_def)
qed

lemmas good_only_fields =
  good_only_field [OF good_boolean] good_only_field [OF good_number] good_only_field [OF good_pl_filter]

lemma roles_ok:
  "validate_roles c = Inr () \<longleftrightarrow>
     (role c \<noteq> LocalReceive \<longrightarrow> \<not> rnnoise_enabled c \<and> \<not> rc_bandpass_enabled (receive c) \<and>
        rc_pl_filter (receive c) = PlDisabled) \<and>
     (role c \<noteq> VoiceTelemetry \<longrightarrow> \<not> tt_bandpass_enabled (transmit_tail c))"
  by (auto simp: validate_roles_def)

lemmas contract_defs = chain_inv_def settings_ok_def roles_ok

abbreviation good_table :: "(string \<times> profile_applier) list \<Rightarrow> bool" where
  "good_table table \<equiv> list_all (\<lambda>(name, f). good_applier f) table"

lemmas table_defs = list_all_Nil_iff list_all_Cons_iff prod.case boolean_def number_def

lemma chain_table_good: "good_table chain_settings"
  unfolding chain_settings_def table_defs
  by (intro conjI TrueI; rule good_fields; simp add: contract_defs )

lemma equalizer_table_good: "good_table equalizer_settings"
  unfolding equalizer_settings_def table_defs
  by (intro conjI TrueI; rule good_fields; simp add: contract_defs equalizer_ok_def)

lemma deesser_table_good: "good_table deesser_settings"
  unfolding deesser_settings_def table_defs
  by (intro conjI TrueI; rule good_fields; simp add: contract_defs deesser_ok_def)

lemma agc_table_good: "good_table agc_settings"
  unfolding agc_settings_def table_defs
  by (intro conjI TrueI; rule good_fields; simp add: contract_defs agc_ok_def)

lemma expander_table_good: "good_table expander_settings"
  unfolding expander_settings_def table_defs
  by (intro conjI TrueI; rule good_fields; simp add: contract_defs expander_ok_def)

lemma compressor_table_good: "good_table compressor_settings"
  unfolding compressor_settings_def table_defs
  by (intro conjI TrueI; rule good_fields; simp add: contract_defs compressor_ok_def compressor_band_ok_def)

lemma limiter_table_good: "good_table limiter_settings"
  unfolding limiter_settings_def table_defs
  by (intro conjI TrueI; rule good_fields; simp add: contract_defs limiter_ok_def limiter_band_ok_def)

lemma peak_limiter_table_good: "good_table peak_limiter_settings"
  unfolding peak_limiter_settings_def table_defs
  by (intro conjI TrueI; rule good_fields; simp add: contract_defs peak_limiter_ok_def)

lemma receive_table_good: "good_table receive_settings"
  unfolding receive_settings_def table_defs
  by (intro conjI TrueI; rule good_only_fields; simp add: contract_defs receive_ok_def)

lemma transmit_tail_table_good: "good_table transmit_tail_settings"
  unfolding transmit_tail_settings_def table_defs
  by (intro conjI TrueI; rule good_only_fields; simp add: contract_defs transmit_tail_ok_def)

lemma setting_table_good: "good_table setting_table"
  by (simp only: setting_table_def list_all_append chain_table_good equalizer_table_good
      deesser_table_good agc_table_good expander_table_good compressor_table_good limiter_table_good
      receive_table_good peak_limiter_table_good transmit_tail_table_good)

lemma setting_good: "map_of setting_table name = Some f \<Longrightarrow> good_applier f"
  using setting_table_good by (auto simp: list_all_iff dest: map_of_SomeD)

lemma apply_setting_good: "good_applier (\<lambda>ov s. apply_setting ov s name)"
proof (cases "map_of setting_table name")
  case None
  then show ?thesis
    by (auto simp: good_applier_def apply_setting_def overlay_unknown_def tolerant_step_def)
next
  case (Some f)
  then show ?thesis using setting_good [OF Some] by (simp add: good_applier_def apply_setting_def)
qed

section \<open>The contract of the resolver's applier\<close>

text \<open>One setting of an overlay, under its normalised name, as \<open>apply_overlay\<close> applies it.\<close>

definition normal_name :: "raw_setting \<Rightarrow> string" where
  "normal_name s = to_ascii_lowercase (trim (raw_name s))"

definition apply_raw :: "raw_overlay \<times> raw_setting \<Rightarrow> processing_chain \<Rightarrow> warnings \<Rightarrow>
  processing_chain \<times> warnings" where
  "apply_raw k c ws = (case k of (ov, s) \<Rightarrow> apply_setting ov s (normal_name s) c ws)"

interpretation profile: setting_applier apply_raw "chain_inv r"
  using apply_setting_good
  by unfold_locales (auto simp: apply_raw_def good_applier_def split: prod.splits)

section \<open>The loop over an overlay\<close>

definition conflict_error :: "raw_overlay \<Rightarrow> raw_setting \<Rightarrow> string \<Rightarrow> profile_resolution_error" where
  "conflict_error ov s previous =
     ProfileConflict (overlay_source ov) (overlay_section ov) (normal_name s) previous (raw_value s)"

lemma apply_overlay_from_loop:
  "apply_overlay_from ov seen ss c ws =
     checked_each normal_name raw_value (conflict_error ov) (\<lambda>s. apply_raw (ov, s)) seen ss c ws"
  by (induction ov seen ss c ws rule: apply_overlay_from.induct)
     (auto simp: normal_name_def apply_raw_def conflict_error_def split: option.splits prod.splits)

lemma apply_each_pair:
  "apply_each (\<lambda>s. f (k, s)) ss c ws = apply_each f (map (Pair k) ss) c ws"
  by (induction ss arbitrary: c ws) (auto split: prod.splits)

text \<open>The overlay's settings without later case variants, as the applier takes them.\<close>

definition effective_settings :: "raw_overlay \<Rightarrow> (raw_overlay \<times> raw_setting) list" where
  "effective_settings ov = map (Pair ov) (first_assignments normal_name {} (overlay_settings ov))"

lemma apply_overlay_consistent:
  "consistent normal_name raw_value (overlay_settings ov) \<Longrightarrow>
   apply_overlay c ov ws = Inr (apply_each apply_raw (effective_settings ov) c ws)"
  by (simp add: apply_overlay_def apply_overlay_from_loop checked_each_ok apply_each_pair
      effective_settings_def)

lemma apply_overlay_conflict:
  "\<not> consistent normal_name raw_value (overlay_settings ov) \<Longrightarrow>
   \<exists>s t. s \<in> set (overlay_settings ov) \<and> t \<in> set (overlay_settings ov) \<and>
     normal_name t = normal_name s \<and> trim (raw_value t) \<noteq> trim (raw_value s) \<and>
     apply_overlay c ov ws = Inl (conflict_error ov s (raw_value t))"
  unfolding apply_overlay_def apply_overlay_from_loop by (rule checked_each_conflict)

lemma apply_overlay_cases:
  assumes "apply_overlay c ov ws = out"
  obtains (ok) c' ws' where "out = Inr (c', ws')" "apply_each apply_raw (effective_settings ov) c ws = (c', ws')"
      "consistent normal_name raw_value (overlay_settings ov)"
    | (conflict) b n f g where "out = Inl (ProfileConflict (overlay_source ov) b n f g)" "trim f \<noteq> trim g"
proof (cases "consistent normal_name raw_value (overlay_settings ov)")
  case True
  then show ?thesis using assms ok apply_overlay_consistent [OF True, of c ws] by (metis prod.exhaust)
next
  case False
  then show ?thesis using assms conflict apply_overlay_conflict [OF False, of c ws]
    unfolding conflict_error_def by metis
qed

lemma apply_overlay_inv:
  "apply_overlay c ov ws = Inr (c', ws') \<Longrightarrow> chain_inv r c \<Longrightarrow> chain_inv r c'"
  by (erule apply_overlay_cases) (use profile.inv_each [of r c _ ws] in \<open>auto dest: sym, metis fst_conv\<close>)

section \<open>The shipped chains\<close>

lemma in_range_literal:
  "lo \<le> q \<Longrightarrow> q \<le> hi \<Longrightarrow> moderate lo \<Longrightarrow> moderate q \<Longrightarrow> moderate hi \<Longrightarrow>
   in_range (f64 q) (f64 lo) (f64 hi)"
  by (simp add: in_range_def f64_finite f64_le)

lemma shipped_contract: "chain_inv r (shipped r)"
  by (cases r)
     (simp_all add: contract_defs stage_ok_defs shipped_def base_chain_def without_receive_def
       rc_default_def eq_default_def de_default_def agc_default_def ex_default_def co_default_def
       compressor_default_band_def li_default_def pk_default_def tt_default_def
       stage_order_standard_def in_range_literal moderate_def)

lemma f64_less_numeral:
  "numeral m < (numeral n :: int) \<Longrightarrow> numeral n < (2 :: int) ^ 53 \<Longrightarrow>
   float_lt (f64 (numeral m)) (f64 (numeral n))"
  using f64_less [of "numeral m" "numeral n"] by simp

lemma shipped_orderings: "first_broken (orderings (shipped r)) = Inr ()"
  by (cases r)
     (simp_all add: orderings_def shipped_def base_chain_def without_receive_def rc_default_def
       ex_default_def co_default_def li_default_def f64_less_numeral)

lemma shipped_enabled: "enabled_stages (shipped r) = [Equalizer]"
  by (cases r)
     (simp_all add: enabled_stages_def shipped_def base_chain_def without_receive_def eq_default_def
       de_default_def agc_default_def ex_default_def co_default_def li_default_def)

lemma shipped_order: "chain_stage_order (shipped r) = stage_order_standard"
  by (cases r) (simp_all add: shipped_def base_chain_def without_receive_def)

section \<open>Outcomes of a resolution\<close>

definition ordering_names :: "(string \<times> string) list" where
  "ordering_names =
     [(''receive_bandpass_lowpass_hz'', ''receive_bandpass_highpass_hz''),
      (''expander_sidechain_lowpass_hz'', ''expander_sidechain_highpass_hz''),
      (''compressor_high_crossover_hz'', ''compressor_low_crossover_hz''),
      (''compressor_sidechain_lowpass_hz'', ''compressor_sidechain_highpass_hz''),
      (''limiter_high_crossover_hz'', ''limiter_low_crossover_hz'')]"

lemma ordering_names_orderings: "(u, l, b) \<in> set (orderings c) \<Longrightarrow> (u, l) \<in> set ordering_names"
  by (auto simp: orderings_def ordering_names_def)

text \<open>What holds of every accepted chain.\<close>

definition safe_chain :: "chain_role \<Rightarrow> processing_chain \<Rightarrow> bool" where
  "safe_chain r c \<longleftrightarrow>
     role c = r \<and> settings_ok c \<and> list_all (\<lambda>(_, _, holds). holds) (orderings c) \<and>
     set (enabled_stages c) \<subseteq> set (stages (chain_stage_order c))"

text \<open>The validation errors that remain possible.\<close>

definition cross_field_error :: "processing_config_error \<Rightarrow> bool" where
  "cross_field_error e \<longleftrightarrow>
     (\<exists>s. e = StageOrderInvalid (MissingEnabledStage s)) \<or>
     (\<exists>upper lower. (upper, lower) \<in> set ordering_names \<and> e = OrderingError upper lower)"

lemma validate_under_contract_ok:
  "chain_inv r c \<Longrightarrow> validate_chain c = Inr u \<longleftrightarrow> safe_chain r c"
  by (auto simp: chain_inv_def safe_chain_def validate_chain_under_contract res_simps
      require_enabled_def check_enabled_ok first_broken_ok)

lemma validate_under_contract_error:
  assumes "chain_inv r c" "validate_chain c = Inl e" shows "cross_field_error e"
proof -
  have "settings_ok c" using assms(1) by (simp add: chain_inv_def)
  then consider d where "require_enabled (chain_stage_order c) (enabled_stages c) = Inl d" "e = StageOrderInvalid d"
    | "first_broken (orderings c) = Inl e"
    using assms(2) by (auto simp: validate_chain_under_contract res_simps)
  then show ?thesis
  proof cases
    case 1
    from check_enabled_err [OF 1(1) [unfolded require_enabled_def]] 1(2) show ?thesis
      unfolding cross_field_error_def by blast
  next
    case 2
    from first_broken_error [OF 2] ordering_names_orderings show ?thesis
      unfolding cross_field_error_def by blast
  qed
qed

fun resolve_error_ok :: "chain_role \<Rightarrow> profile_resolution_error \<Rightarrow> bool" where
  "resolve_error_ok r (RoleMismatch expected actual _) = (expected = r \<and> actual \<noteq> r)"
| "resolve_error_ok r (LayerMismatch expected actual _) = (expected \<noteq> actual)"
| "resolve_error_ok r (ProfileConflict _ _ _ first second) = (trim first \<noteq> trim second)"
| "resolve_error_ok r (AmbiguousProfile _ _) = False"
| "resolve_error_ok r (ProfileDocument _) = False"
| "resolve_error_ok r (InvalidResolvedProfile e) = cross_field_error e"

lemma require_overlay_error:
  "require_overlay ov r layer = Inl e \<Longrightarrow> resolve_error_ok r e"
  by (cases layer; cases "overlay_layer ov") (auto simp: require_overlay_def split: if_splits)

lemma apply_overlay_error:
  assumes "apply_overlay c ov ws = Inl e"
  shows "\<exists>b n f g. e = ProfileConflict (overlay_source ov) b n f g \<and> trim f \<noteq> trim g"
  using apply_overlay_cases [OF assms] by (metis sum.distinct(1) sum.inject(1))

lemma resolve_with_defaults_ok:
  assumes "chain_inv r c" "resolve_with_defaults r fl scoped c = Inr p"
  shows "safe_chain r (rp_chain p)"
proof -
  from assms(2) obtain c1 ws1 c2 ws2 where 1: "apply_overlay c fl [] = Inr (c1, ws1)"
    and 2: "(case scoped of None \<Rightarrow> Inr (c1, ws1) | Some ov \<Rightarrow> apply_overlay c1 ov ws1) = Inr (c2, ws2)"
    and 3: "validate_chain c2 = Inr ()" "p = \<lparr>rp_chain = c2, rp_warnings = ws2\<rparr>"
    by (auto simp: resolve_with_defaults_def res_simps)
  have "chain_inv r c1" using apply_overlay_inv [OF 1 assms(1)] .
  then have "chain_inv r c2" using 2 apply_overlay_inv by (auto split: option.splits)
  then show ?thesis using 3 validate_under_contract_ok by simp
qed

text \<open>The outcome of the scoped overlay, when there is one.\<close>

definition apply_scoped ::
  "raw_overlay option \<Rightarrow> processing_chain \<Rightarrow> warnings \<Rightarrow>
   (profile_resolution_error, processing_chain \<times> warnings) result" where
  "apply_scoped scoped c ws = (case scoped of None \<Rightarrow> Inr (c, ws) | Some ov \<Rightarrow> apply_overlay c ov ws)"

lemma apply_scoped_inv: "apply_scoped scoped c ws = Inr (c', ws') \<Longrightarrow> chain_inv r c \<Longrightarrow> chain_inv r c'"
  by (auto simp: apply_scoped_def split: option.splits dest: apply_overlay_inv)

definition conflict_in :: "raw_overlay \<Rightarrow> profile_resolution_error \<Rightarrow> bool" where
  "conflict_in ov e \<longleftrightarrow>
     (\<exists>b n f g. e = ProfileConflict (overlay_source ov) b n f g \<and> trim f \<noteq> trim g)"

lemma resolve_with_defaults_error:
  assumes "chain_inv r c" "resolve_with_defaults r fl scoped c = Inl e"
  shows "require_overlay fl r Flat = Inl e \<or> (\<exists>ov. scoped = Some ov \<and> require_overlay ov r Scoped = Inl e) \<or>
    conflict_in fl e \<or> (\<exists>ov. scoped = Some ov \<and> conflict_in ov e) \<or>
    (\<exists>d. e = InvalidResolvedProfile d \<and> cross_field_error d)"
proof -
  from assms(2) consider "require_overlay fl r Flat = Inl e"
    | ov where "scoped = Some ov" "require_overlay ov r Scoped = Inl e"
    | "apply_overlay c fl [] = Inl e"
    | c1 ws1 where "apply_scoped scoped c1 ws1 = Inl e"
    | c1 ws1 c2 ws2 d where "apply_overlay c fl [] = Inr (c1, ws1)" "apply_scoped scoped c1 ws1 = Inr (c2, ws2)"
        "validate_chain c2 = Inl d" "e = InvalidResolvedProfile d"
    by (cases scoped) (auto simp: resolve_with_defaults_def apply_scoped_def res_simps)
  then show ?thesis
  proof cases
    case 3
    then show ?thesis using apply_overlay_error unfolding conflict_in_def by blast
  next
    case 4
    then obtain ov where "scoped = Some ov" "apply_overlay c1 ov ws1 = Inl e"
      by (auto simp: apply_scoped_def split: option.splits)
    then show ?thesis using apply_overlay_error unfolding conflict_in_def by blast
  next
    case 5
    then have "chain_inv r c2" using apply_overlay_inv apply_scoped_inv assms(1) by blast
    then show ?thesis using 5 validate_under_contract_error by blast
  qed auto
qed

lemma resolve_with_defaults_error_ok:
  "chain_inv r c \<Longrightarrow> resolve_with_defaults r fl scoped c = Inl e \<Longrightarrow> resolve_error_ok r e"
  using resolve_with_defaults_error [of r c fl scoped e]
  by (auto simp: conflict_in_def dest: require_overlay_error)

lemma require_own_overlays:
  "require_overlay (overlay_flat r source values) r Flat = Inr ()"
  "require_overlay (overlay_scoped r source n values) r Scoped = Inr ()"
  "overlay_source (overlay_flat r source values) = source"
  "overlay_source (overlay_scoped r source n values) = source"
  by (simp_all add: require_overlay_def overlay_flat_def overlay_scoped_def raw_overlay_new_def)

section \<open>Frames of the settings\<close>

text \<open>The first three bytes of a name tell its table.\<close>

lemma not_in_table:
  "list_all (\<lambda>m. take 3 m \<in> P) (map fst table) \<Longrightarrow> take 3 n \<notin> P \<Longrightarrow> map_of table n = None"
  by (auto simp: list_all_iff map_of_eq_None_iff)

lemma in_table:
  "list_all (\<lambda>m. take 3 m \<in> P) (map fst table) \<Longrightarrow> n \<in> set (map fst table) \<Longrightarrow> take 3 n \<in> P"
  by (auto simp: list_all_iff)

lemma table_prefixes:
  "list_all (\<lambda>m. take 3 m \<in> {''ena'', ''sta'', ''inp'', ''out''}) (map fst chain_settings)"
  "list_all (\<lambda>m. take 3 m \<in> {''equ''}) (map fst equalizer_settings)"
  "list_all (\<lambda>m. take 3 m \<in> {''dee''}) (map fst deesser_settings)"
  "list_all (\<lambda>m. take 3 m \<in> {''agc''}) (map fst agc_settings)"
  "list_all (\<lambda>m. take 3 m \<in> {''exp''}) (map fst expander_settings)"
  "list_all (\<lambda>m. take 3 m \<in> {''com''}) (map fst compressor_settings)"
  "list_all (\<lambda>m. take 3 m \<in> {''lim''}) (map fst limiter_settings)"
  "list_all (\<lambda>m. take 3 m \<in> {''rnn'', ''rec'', ''ctc''}) (map fst receive_settings)"
  "list_all (\<lambda>m. take 3 m \<in> {''loo''}) (map fst peak_limiter_settings)"
  "list_all (\<lambda>m. take 3 m \<in> {''pos''}) (map fst transmit_tail_settings)"
  by (simp_all add: chain_settings_def equalizer_settings_def deesser_settings_def agc_settings_def expander_settings_def compressor_settings_def limiter_settings_def receive_settings_def peak_limiter_settings_def transmit_tail_settings_def)

lemmas absent = table_prefixes [THEN not_in_table]
lemmas present = table_prefixes [THEN in_table]

lemma equalizer_lookup: "\<forall>n \<in> set (map fst equalizer_settings). map_of setting_table n = map_of equalizer_settings n"
  by (rule ballI, drule present, elim insertE emptyE)
     (simp_all add: setting_table_def map_add_def absent split: option.split)

lemma deesser_lookup: "\<forall>n \<in> set (map fst deesser_settings). map_of setting_table n = map_of deesser_settings n"
  by (rule ballI, drule present, elim insertE emptyE)
     (simp_all add: setting_table_def map_add_def absent split: option.split)

lemma agc_lookup: "\<forall>n \<in> set (map fst agc_settings). map_of setting_table n = map_of agc_settings n"
  by (rule ballI, drule present, elim insertE emptyE)
     (simp_all add: setting_table_def map_add_def absent split: option.split)

lemma expander_lookup: "\<forall>n \<in> set (map fst expander_settings). map_of setting_table n = map_of expander_settings n"
  by (rule ballI, drule present, elim insertE emptyE)
     (simp_all add: setting_table_def map_add_def absent split: option.split)

lemma compressor_lookup: "\<forall>n \<in> set (map fst compressor_settings). map_of setting_table n = map_of compressor_settings n"
  by (rule ballI, drule present, elim insertE emptyE)
     (simp_all add: setting_table_def map_add_def absent split: option.split)

lemma limiter_lookup: "\<forall>n \<in> set (map fst limiter_settings). map_of setting_table n = map_of limiter_settings n"
  by (rule ballI, drule present, elim insertE emptyE)
     (simp_all add: setting_table_def map_add_def absent split: option.split)

lemma receive_lookup: "\<forall>n \<in> set (map fst receive_settings). map_of setting_table n = map_of receive_settings n"
  by (rule ballI, drule present, elim insertE emptyE)
     (simp_all add: setting_table_def map_add_def absent split: option.split)

lemma peak_limiter_lookup: "\<forall>n \<in> set (map fst peak_limiter_settings). map_of setting_table n = map_of peak_limiter_settings n"
  by (rule ballI, drule present, elim insertE emptyE)
     (simp_all add: setting_table_def map_add_def absent split: option.split)

lemma transmit_tail_lookup: "\<forall>n \<in> set (map fst transmit_tail_settings). map_of setting_table n = map_of transmit_tail_settings n"
  by (rule ballI, drule present, elim insertE emptyE)
     (simp_all add: setting_table_def map_add_def absent split: option.split)

text \<open>An applier that touches at most what \<open>keep\<close> forgets.\<close>

definition keeps :: "(processing_chain \<Rightarrow> 'b) \<Rightarrow> profile_applier \<Rightarrow> bool" where
  "keeps keep f \<longleftrightarrow> (\<forall>ov s c ws. keep (fst (f ov s c ws)) = keep c)"

lemma keeps_field: "(\<And>v c. keep (upd (\<lambda>_. v) c) = keep c) \<Longrightarrow> keeps keep (assign_field get upd f)"
  by (auto simp: keeps_def assign_field_def split: prod.splits)

lemma keeps_only: "keeps keep f \<Longrightarrow> keeps keep (only r f)"
  by (auto simp: keeps_def only_def)

lemma keeps_table:
  assumes "list_all (\<lambda>(name, f). keeps keep f) table"
    and "\<forall>name \<in> set (map fst table). map_of setting_table name = map_of table name"
  shows "list_all (\<lambda>name. keep (fst (apply_setting ov s name c ws)) = keep c) (map fst table)"
  unfolding list_all_iff
proof
  fix name assume "name \<in> set (map fst table)"
  then obtain f where f: "map_of table name = Some f" "map_of setting_table name = Some f"
    using assms(2) by (metis map_of_eq_None_iff list.set_map not_None_eq)
  then have "keeps keep f" using assms(1) by (auto simp: list_all_iff dest: map_of_SomeD)
  then show "keep (fst (apply_setting ov s name c ws)) = keep c"
    using f(2) by (simp add: keeps_def apply_setting_def)
qed

lemmas keeps_intros = conjI TrueI keeps_only keeps_field

lemma receive_table_frame:
  "list_all (\<lambda>(name, f). keeps (\<lambda>c. c\<lparr>rnnoise_enabled := n, receive := x\<rparr>) f) receive_settings"
  unfolding receive_settings_def table_defs by (intro keeps_intros) simp_all

lemma equalizer_table_frame: "list_all (\<lambda>(name, f). keeps (\<lambda>c. c\<lparr>equalizer := x\<rparr>) f) equalizer_settings"
  unfolding equalizer_settings_def table_defs by (intro keeps_intros) simp_all

lemma deesser_table_frame: "list_all (\<lambda>(name, f). keeps (\<lambda>c. c\<lparr>deesser := x\<rparr>) f) deesser_settings"
  unfolding deesser_settings_def table_defs by (intro keeps_intros) simp_all

lemma agc_table_frame: "list_all (\<lambda>(name, f). keeps (\<lambda>c. c\<lparr>agc := x\<rparr>) f) agc_settings"
  unfolding agc_settings_def table_defs by (intro keeps_intros) simp_all

lemma expander_table_frame: "list_all (\<lambda>(name, f). keeps (\<lambda>c. c\<lparr>expander := x\<rparr>) f) expander_settings"
  unfolding expander_settings_def table_defs by (intro keeps_intros) simp_all

lemma compressor_table_frame: "list_all (\<lambda>(name, f). keeps (\<lambda>c. c\<lparr>compressor := x\<rparr>) f) compressor_settings"
  unfolding compressor_settings_def table_defs by (intro keeps_intros) simp_all

lemma limiter_table_frame: "list_all (\<lambda>(name, f). keeps (\<lambda>c. c\<lparr>limiter := x\<rparr>) f) limiter_settings"
  unfolding limiter_settings_def table_defs by (intro keeps_intros) simp_all

lemma peak_limiter_table_frame: "list_all (\<lambda>(name, f). keeps (\<lambda>c. c\<lparr>peak_limiter := x\<rparr>) f) peak_limiter_settings"
  unfolding peak_limiter_settings_def table_defs by (intro keeps_intros) simp_all

lemma transmit_tail_table_frame: "list_all (\<lambda>(name, f). keeps (\<lambda>c. c\<lparr>transmit_tail := x\<rparr>) f) transmit_tail_settings"
  unfolding transmit_tail_settings_def table_defs by (intro keeps_intros) simp_all

lemma shipped_valid: "validate_chain (shipped r) = Inr ()"
  using shipped_contract [of r] validate_chain_under_contract [of "shipped r"]
  by (simp add: chain_inv_def shipped_enabled shipped_order shipped_orderings require_enabled_def
      stage_order_standard_def)

section \<open>Properties\<close>

text \<open>The shipped chain of every role passes the whole validation, and keeps its role.\<close>

theorem shipped_validates: "validate_chain (shipped r) = Inr () \<and> role (shipped r) = r"
  using shipped_contract [of r] by (simp add: shipped_valid chain_inv_def)

text \<open>One setting of an overlay is applied without a word, or the chain stays as it is and exactly one
  warning is appended. The warning names the overlay and the setting; its kind is \<open>UnknownOption\<close>
  exactly for a name outside the vocabulary. The contract of the chain is kept.\<close>

theorem apply_setting_tolerant:
  "case apply_setting ov s name c ws of (c', ws') \<Rightarrow>
     (ws' = ws \<or> c' = c \<and> (\<exists>w. ws' = ws @ [w])) \<and>
     (settings_ok c \<longrightarrow> settings_ok c') \<and> (settings_ok c \<longrightarrow> role c' = role c) \<and>
     (name \<notin> fst ` set setting_table \<longrightarrow>
        c' = c \<and> ws' = ws @ [\<lparr>warn_kind = UnknownOption, warn_source = overlay_source ov,
          warn_section = overlay_section ov, warn_name = raw_name s, warn_supplied_value = raw_value s,
          warn_fallback = ''ignored'', warn_reason = ''is unknown and was ignored''\<rparr>])"
proof -
  have good: "tolerant_step (c, ws) (apply_setting ov s name c ws)"
    "chain_inv (role c) c \<Longrightarrow> chain_inv (role c) (fst (apply_setting ov s name c ws))"
    using apply_setting_good [of name] by (auto simp: good_applier_def)
  have unknown: "name \<notin> fst ` set setting_table \<Longrightarrow> map_of setting_table name = None"
    by (simp add: map_of_eq_None_iff)
  show ?thesis
    using good unknown
    by (auto simp: chain_inv_def tolerant_step_def apply_setting_def overlay_unknown_def
        overlay_warning_def split: prod.splits)
qed

theorem apply_setting_tolerant_witness:
  "case apply_setting (overlay_flat LocalReceive ''radio.conf'' []) \<lparr>raw_name = ''Bogus'', raw_value = ''1''\<rparr>
       ''bogus'' (shipped LocalReceive) [] of (c, ws) \<Rightarrow>
     settings_ok c \<and> role c = LocalReceive \<and> map warn_kind ws = [UnknownOption]"
proof -
  have unknown: "''bogus'' \<notin> fst ` set setting_table"
    using absent [where n = "''bogus''"]
    by (simp add: setting_table_def map_of_eq_None_iff [symmetric] image_Un)
  have "settings_ok (shipped LocalReceive)" "role (shipped LocalReceive) = LocalReceive"
    using shipped_contract [of LocalReceive] by (simp_all add: chain_inv_def)
  then show ?thesis
    using apply_setting_tolerant [where ov = "overlay_flat LocalReceive ''radio.conf'' []"
        and s = "\<lparr>raw_name = ''Bogus'', raw_value = ''1''\<rparr>" and name = "''bogus''"
        and c = "shipped LocalReceive" and ws = "[]"] unknown
    by (auto split: prod.splits)
qed

text \<open>C31: Applying an overlay: when the variants of every name agree up to outer white space, each distinct
  name is applied once, in order, with its first value; otherwise two disagreeing variants are
  reported and nothing is applied.\<close>

theorem apply_overlay_outcome:
  "if consistent normal_name raw_value (overlay_settings ov)
   then apply_overlay c ov ws = Inr (apply_each apply_raw (effective_settings ov) c ws)
   else \<exists>s t. s \<in> set (overlay_settings ov) \<and> t \<in> set (overlay_settings ov) \<and>
     normal_name t = normal_name s \<and> trim (raw_value t) \<noteq> trim (raw_value s) \<and>
     apply_overlay c ov ws = Inl (ProfileConflict (overlay_source ov) (overlay_section ov)
       (normal_name s) (raw_value t) (raw_value s))"
  using apply_overlay_consistent [of ov c ws] apply_overlay_conflict [of ov c ws]
  by (simp add: conflict_error_def)

text \<open>C28: Resolving a profile never yields an unsafe chain. An accepted chain has the requested role, every
  number in its range, the five ordering conditions, and an order that lists every enabled stage. The possible
  errors are an overlay of another role or layer, two disagreeing case variants, a broken ordering condition, or
  an enabled stage that the order omits. A single setting can cause either of the last two.\<close>

theorem resolve_outcomes:
  "case resolve r flat_overlay scoped of
     Inr p \<Rightarrow> safe_chain r (rp_chain p) \<and> validate_chain (rp_chain p) = Inr ()
   | Inl e \<Rightarrow> resolve_error_ok r e"
proof (cases "resolve r flat_overlay scoped")
  case (Inl e)
  then show ?thesis
    using resolve_with_defaults_error_ok [OF shipped_contract] by (simp add: resolve_def)
next
  case (Inr p)
  have "safe_chain r (rp_chain p)"
    using Inr resolve_with_defaults_ok [OF shipped_contract] by (simp add: resolve_def)
  moreover have "chain_inv r (rp_chain p)" using calculation by (simp add: safe_chain_def chain_inv_def)
  ultimately show ?thesis using Inr validate_under_contract_ok by auto
qed

text \<open>Resolving a profile from a configuration document: an accepted chain is safe, its warnings start
  with those of the section lookup, and the errors are an ambiguous selector of this role, an invalid
  or missing channel, disagreeing case variants, or a cross-field condition. The overlays that the
  resolver builds itself are never rejected for their role or layer.\<close>

theorem from_document_outcomes:
  "case from_document doc source channel r of
     Inr p \<Rightarrow> safe_chain r (rp_chain p) \<and>
       (\<exists>section_warnings rest. rp_warnings p = section_warnings @ rest \<and> length section_warnings \<le> 1)
   | Inl (RoleMismatch _ _ _) \<Rightarrow> False
   | Inl (LayerMismatch _ _ _) \<Rightarrow> False
   | Inl (ProfileConflict source' _ _ first second) \<Rightarrow> source' = source \<and> trim first \<noteq> trim second
   | Inl (AmbiguousProfile channel' selector) \<Rightarrow>
       channel' = channel \<and> selector = role_section r @ ''_profile''
   | Inl (ProfileDocument e) \<Rightarrow> e = InvalidSectionName \<or> e = MissingChannel channel
   | Inl (InvalidResolvedProfile e) \<Rightarrow> cross_field_error e"
proof -
  obtain out ws where lookup: "resolved_section doc channel (role_section r) source [] = (out, ws)"
    by fastforce
  note facts = resolved_section_facts [OF lookup]
  let ?flat = "overlay_flat r source (explicit_values doc (role_section r))"
  let ?scoped = "\<lambda>s. if \<not> eq_ignore_ascii_case s (role_section r)
    then Some (overlay_scoped r source s (explicit_values doc s)) else None"
  show ?thesis
  proof (cases "reject_ambiguous_selector doc channel (role_section r)")
    case (Inl e)
    then have "e = AmbiguousProfile channel (role_section r @ ''_profile'')"
      by (simp add: reject_ambiguous_selector_def split: if_splits)
    then show ?thesis using Inl by (simp add: from_document_def from_document_with_defaults_def)
  next
    case accepted: (Inr u)
    show ?thesis
    proof (cases out)
      case (Inl e)
      then show ?thesis using accepted lookup facts(2) [of e]
        by (auto simp: from_document_def from_document_with_defaults_def)
    next
      case (Inr selected)
      define res where "res = resolve_with_defaults r ?flat (?scoped selected) (shipped r)"
      have doc: "from_document doc source channel r =
          res_bind res (\<lambda>p. Inr (p\<lparr>rp_warnings := ws @ rp_warnings p\<rparr>))"
        using accepted lookup Inr by (simp add: from_document_def from_document_with_defaults_def res_def)
      show ?thesis
      proof (cases res)
        case (Inl e)
        from resolve_with_defaults_error [OF shipped_contract this [unfolded res_def]]
        have "conflict_in ?flat e \<or> (\<exists>ov. ?scoped selected = Some ov \<and> conflict_in ov e) \<or>
            (\<exists>d. e = InvalidResolvedProfile d \<and> cross_field_error d)"
          by (auto simp: require_own_overlays split: if_splits)
        then show ?thesis using Inl doc
          by (auto simp: conflict_in_def require_own_overlays split: if_splits)
      next
        case (Inr p)
        then show ?thesis
          using doc facts(1) resolve_with_defaults_ok [OF shipped_contract] by (auto simp: res_def)
      qed
    qed
  qed
qed
text \<open>The settings of a stage change that stage only: whatever is stored in it afterwards, the rest of
  the chain, the role included, is as before. (The local receive settings may also set \<open>rnnoise_enabled\<close>.)\<close>

theorem apply_setting_frame:
  "list_all (\<lambda>name. (fst (apply_setting ov s name c ws))\<lparr>rnnoise_enabled := n, receive := v_receive\<rparr> =
       c\<lparr>rnnoise_enabled := n, receive := v_receive\<rparr>) (map fst receive_settings) \<and>
   list_all (\<lambda>name. (fst (apply_setting ov s name c ws))\<lparr>equalizer := v_equalizer\<rparr> = c\<lparr>equalizer := v_equalizer\<rparr>)
     (map fst equalizer_settings) \<and>
   list_all (\<lambda>name. (fst (apply_setting ov s name c ws))\<lparr>deesser := v_deesser\<rparr> = c\<lparr>deesser := v_deesser\<rparr>)
     (map fst deesser_settings) \<and>
   list_all (\<lambda>name. (fst (apply_setting ov s name c ws))\<lparr>agc := v_agc\<rparr> = c\<lparr>agc := v_agc\<rparr>)
     (map fst agc_settings) \<and>
   list_all (\<lambda>name. (fst (apply_setting ov s name c ws))\<lparr>expander := v_expander\<rparr> = c\<lparr>expander := v_expander\<rparr>)
     (map fst expander_settings) \<and>
   list_all (\<lambda>name. (fst (apply_setting ov s name c ws))\<lparr>compressor := v_compressor\<rparr> = c\<lparr>compressor := v_compressor\<rparr>)
     (map fst compressor_settings) \<and>
   list_all (\<lambda>name. (fst (apply_setting ov s name c ws))\<lparr>limiter := v_limiter\<rparr> = c\<lparr>limiter := v_limiter\<rparr>)
     (map fst limiter_settings) \<and>
   list_all (\<lambda>name. (fst (apply_setting ov s name c ws))\<lparr>peak_limiter := v_peak_limiter\<rparr> = c\<lparr>peak_limiter := v_peak_limiter\<rparr>)
     (map fst peak_limiter_settings) \<and>
   list_all (\<lambda>name. (fst (apply_setting ov s name c ws))\<lparr>transmit_tail := v_transmit_tail\<rparr> = c\<lparr>transmit_tail := v_transmit_tail\<rparr>)
     (map fst transmit_tail_settings)"
  by (intro conjI)
     (rule keeps_table [OF receive_table_frame receive_lookup],
      rule keeps_table [OF equalizer_table_frame equalizer_lookup],
      rule keeps_table [OF deesser_table_frame deesser_lookup],
      rule keeps_table [OF agc_table_frame agc_lookup],
      rule keeps_table [OF expander_table_frame expander_lookup],
      rule keeps_table [OF compressor_table_frame compressor_lookup],
      rule keeps_table [OF limiter_table_frame limiter_lookup],
      rule keeps_table [OF peak_limiter_table_frame peak_limiter_lookup],
      rule keeps_table [OF transmit_tail_table_frame transmit_tail_lookup])

text \<open>With no settings at all a resolution returns the shipped chain and no warning.\<close>

theorem resolve_empty:
  "resolve r (overlay_flat r source []) (if scoped then Some (overlay_scoped r source section_name []) else None) =
     Inr \<lparr>rp_chain = shipped r, rp_warnings = []\<rparr>"
  by (cases scoped)
     (simp_all add: resolve_def resolve_with_defaults_def require_own_overlays apply_overlay_def
       overlay_flat_def overlay_scoped_def raw_overlay_new_def require_overlay_def shipped_valid)

end
