(* ===== verification/Number_Text.thy ===== *)
theory Number_Text
  imports Prelude
begin

text \<open>
  Integers as text, as the Rust standard library reads and writes them: \<open>from_str_radix\<close> with its
  optional plus sign and its overflow check, and \<open>Display\<close> in a radix. Values are unbounded \<open>int\<close>s with
  the limit of the target type passed explicitly.
\<close>

definition u64_max :: int where
  "u64_max = 2 ^ 64 - 1"

text \<open>\<open>char::to_digit\<close>: the value of an ASCII digit or letter, when it is below the radix.\<close>

definition radix_digit :: "int \<Rightarrow> char \<Rightarrow> int option" where
  "radix_digit radix c =
     (let n = of_char c :: int;
          d = (if 48 \<le> n \<and> n \<le> 57 then n - 48
               else if 97 \<le> n \<and> n \<le> 122 then n - 87
               else if 65 \<le> n \<and> n \<le> 90 then n - 55
               else radix)
      in if d < radix then Some d else None)"

text \<open>The digit loop with its check of every multiplication and addition.\<close>

fun radix_value :: "int \<Rightarrow> int \<Rightarrow> int \<Rightarrow> string \<Rightarrow> int option" where
  "radix_value radix limit acc [] = Some acc"
| "radix_value radix limit acc (c # cs) =
     (case radix_digit radix c of
        None \<Rightarrow> None
      | Some d \<Rightarrow>
          if limit < acc * radix + d then None else radix_value radix limit (acc * radix + d) cs)"

definition from_str_radix :: "int \<Rightarrow> int \<Rightarrow> string \<Rightarrow> int option" where
  "from_str_radix radix limit s =
     (case s of
        [] \<Rightarrow> None
      | c # cs \<Rightarrow>
          if c = CHR ''+'' then (if cs = [] then None else radix_value radix limit 0 cs)
          else radix_value radix limit 0 (c # cs))"

text \<open>\<open>Display\<close> of a non-negative integer in a radix up to 16, without padding.\<close>

definition radix_char :: "int \<Rightarrow> char" where
  "radix_char d = char_of (if d < 10 then 48 + d else 87 + d)"

function radix_digits :: "int \<Rightarrow> int \<Rightarrow> string" where
  "radix_digits radix n =
     (if radix < 2 \<or> n < radix then [radix_char n]
      else radix_digits radix (n div radix) @ [radix_char (n mod radix)])"
  by pat_completeness auto
termination
proof (relation "measure (\<lambda>(_, n). nat n)")
  fix radix n :: int
  assume "\<not> (radix < 2 \<or> n < radix)"
  then have "2 \<le> radix" "radix \<le> n" by auto
  then have "n div radix < n" "0 \<le> n div radix"
    by (auto simp: int_div_less_self pos_imp_zdiv_nonneg_iff)
  then show "((radix, n div radix), (radix, n)) \<in> measure (\<lambda>(_, n). nat n)" by auto
qed simp

declare radix_digits.simps [simp del]

section \<open>Facts\<close>

lemma radix_digit_bounds: "radix_digit radix c = Some d \<Longrightarrow> d < radix \<and> 0 \<le> d"
  by (auto simp: radix_digit_def Let_def split: if_splits)

lemma radix_value_bounds:
  "radix_value radix limit acc cs = Some v \<Longrightarrow> 0 \<le> radix \<Longrightarrow> 0 \<le> acc \<Longrightarrow> acc \<le> limit \<Longrightarrow>
   0 \<le> v \<and> v \<le> limit"
proof (induction cs arbitrary: acc)
  case (Cons c cs)
  then obtain d where d: "radix_digit radix c = Some d" "acc * radix + d \<le> limit"
    "radix_value radix limit (acc * radix + d) cs = Some v"
    by (auto split: option.splits if_splits)
  then show ?case using Cons.IH [OF d(3)] Cons.prems radix_digit_bounds [OF d(1)] by simp
qed simp

lemma from_str_radix_bounds:
  "from_str_radix radix limit s = Some v \<Longrightarrow> 0 \<le> radix \<Longrightarrow> 0 \<le> limit \<Longrightarrow> 0 \<le> v \<and> v \<le> limit"
  by (auto simp: from_str_radix_def simp del: radix_value.simps split: list.splits if_splits
      dest: radix_value_bounds)

lemma radix_value_append:
  "radix_value radix limit acc (xs @ ys) =
     (case radix_value radix limit acc xs of
        None \<Rightarrow> None | Some v \<Rightarrow> radix_value radix limit v ys)"
  by (induction xs arbitrary: acc) (auto split: option.splits)

lemma digit_cases: "0 \<le> d \<Longrightarrow> d < 16 \<Longrightarrow> d \<in> {0, 1, 2, 3, 4, 5, 6, 7, 8, 9, 10, 11, 12, 13, 14, 15}" for d :: int
  by (simp, presburger)

lemma radix_char_digit:
  assumes "0 \<le> d" "d < radix" "radix \<le> 16"
  shows "radix_digit radix (radix_char d) = Some d" and "radix_char d \<noteq> CHR ''+''"
  using digit_cases [of d] assms by (auto simp: radix_digit_def radix_char_def Let_def char_of_eq_iff)

lemma radix_digits_not_Nil [simp]: "radix_digits radix n \<noteq> []"
  by (subst radix_digits.simps) auto

lemma radix_digits_value:
  "2 \<le> radix \<Longrightarrow> radix \<le> 16 \<Longrightarrow> 0 \<le> n \<Longrightarrow> n \<le> limit \<Longrightarrow>
   radix_value radix limit 0 (radix_digits radix n) = Some n \<and> hd (radix_digits radix n) \<noteq> CHR ''+''"
proof (induction radix n rule: radix_digits.induct)
  case (1 radix n)
  show ?case
  proof (cases "n < radix")
    case True
    then show ?thesis
      using 1 radix_char_digit [of n radix] by (subst (1 2) radix_digits.simps) simp
  next
    case False
    have m: "0 \<le> n mod radix" "n mod radix < radix" using 1 by auto
    have q: "0 \<le> n div radix" "n div radix \<le> limit"
    proof -
      show "0 \<le> n div radix" using 1 by (simp add: pos_imp_zdiv_nonneg_iff)
      have "n div radix \<le> n" using 1 False by (simp add: less_imp_le int_div_less_self)
      then show "n div radix \<le> limit" using 1 by simp
    qed
    have IH: "radix_value radix limit 0 (radix_digits radix (n div radix)) = Some (n div radix)"
      "hd (radix_digits radix (n div radix)) \<noteq> CHR ''+''"
      using 1 False q by auto
    then show ?thesis
      using 1 False m radix_char_digit [of "n mod radix" radix]
      by (subst (1 2) radix_digits.simps) (simp add: radix_value_append)
  qed
qed

lemma radix_roundtrip:
  "2 \<le> radix \<Longrightarrow> radix \<le> 16 \<Longrightarrow> 0 \<le> n \<Longrightarrow> n \<le> limit \<Longrightarrow>
   from_str_radix radix limit (radix_digits radix n) = Some n"
  using radix_digits_value [of radix n limit]
  by (cases "radix_digits radix n") (auto simp: from_str_radix_def)

end
