(* ===== verification/Station_Config.thy ===== *)
theory Station_Config
  imports Config_Document Rust_Float Number_Text
begin

text \<open>
  The typed station configuration, first half of \<^verbatim>\<open>rust/core/src/station_config.rs\<close>: the enumerations
  with their \<open>Display\<close> and parsers, CTCSS tones and DCS codes, the settings records with their shipped
  defaults, the numeric parser, and the cross-field validation. Constructors carry a prefix of their
  enumeration and fields one of their record; the integer fields (\<open>u8\<close>, \<open>u16\<close>, \<open>u32\<close>) are \<open>int\<close>, with
  every narrowing cast of the code written as \<open>mod\<close>.
\<close>

section \<open>Enumerations\<close>

datatype jitter_buffer_implementation =
  JitterFixed | JitterAdaptive

fun jitter_buffer_implementation_display :: "jitter_buffer_implementation \<Rightarrow> string" where
  "jitter_buffer_implementation_display JitterFixed = ''fixed''"
| "jitter_buffer_implementation_display JitterAdaptive = ''adaptive''"

datatype hardware_interface_type =
  InterfaceDudeUsb | InterfaceSphUsb | InterfaceNhrc | InterfaceCustom

fun hardware_interface_type_display :: "hardware_interface_type \<Rightarrow> string" where
  "hardware_interface_type_display InterfaceDudeUsb = ''0''"
| "hardware_interface_type_display InterfaceSphUsb = ''1''"
| "hardware_interface_type_display InterfaceNhrc = ''2''"
| "hardware_interface_type_display InterfaceCustom = ''3''"

datatype hardware_output_assignment =
  OutOff | OutVoice | OutCtcss | OutVoiceCtcss | OutAuxiliaryVoice

fun hardware_output_assignment_display :: "hardware_output_assignment \<Rightarrow> string" where
  "hardware_output_assignment_display OutOff = ''off''"
| "hardware_output_assignment_display OutVoice = ''voice''"
| "hardware_output_assignment_display OutCtcss = ''ctcss''"
| "hardware_output_assignment_display OutVoiceCtcss = ''voice_ctcss''"
| "hardware_output_assignment_display OutAuxiliaryVoice = ''auxvoice''"

datatype gpio_mode =
  GpioInput | GpioOutputLow | GpioOutputHigh

fun gpio_mode_display :: "gpio_mode \<Rightarrow> string" where
  "gpio_mode_display GpioInput = ''in''"
| "gpio_mode_display GpioOutputLow = ''out0''"
| "gpio_mode_display GpioOutputHigh = ''out1''"

datatype parallel_output_assignment =
  PinLow | PinHigh | PinPushToTalk

fun parallel_output_assignment_display :: "parallel_output_assignment \<Rightarrow> string" where
  "parallel_output_assignment_display PinLow = ''out0''"
| "parallel_output_assignment_display PinHigh = ''out1''"
| "parallel_output_assignment_display PinPushToTalk = ''ptt''"

datatype parallel_input_assignment =
  PinInput | PinCarrier | PinCtcss

fun parallel_input_assignment_display :: "parallel_input_assignment \<Rightarrow> string" where
  "parallel_input_assignment_display PinInput = ''in''"
| "parallel_input_assignment_display PinCarrier = ''cor''"
| "parallel_input_assignment_display PinCtcss = ''ctcss''"

datatype signaling_method_kind =
  SigCarrier | SigCtcss | SigDcs

fun signaling_method_kind_display :: "signaling_method_kind \<Rightarrow> string" where
  "signaling_method_kind_display SigCarrier = ''carrier''"
| "signaling_method_kind_display SigCtcss = ''ctcss''"
| "signaling_method_kind_display SigDcs = ''dcs''"

datatype receive_audio_source =
  AudioDisabled | AudioSpeaker | AudioFlat

fun receive_audio_source_display :: "receive_audio_source \<Rightarrow> string" where
  "receive_audio_source_display AudioDisabled = ''no''"
| "receive_audio_source_display AudioSpeaker = ''speaker''"
| "receive_audio_source_display AudioFlat = ''flat''"

datatype carrier_source =
  CosDisabled | CosDsp | CosVox | CosExternal | CosOpen | CosUsb | CosUsbInverted | CosParallel |
  CosParallelInverted

fun carrier_source_display :: "carrier_source \<Rightarrow> string" where
  "carrier_source_display CosDisabled = ''no''"
| "carrier_source_display CosDsp = ''dsp''"
| "carrier_source_display CosVox = ''vox''"
| "carrier_source_display CosExternal = ''external''"
| "carrier_source_display CosOpen = ''open''"
| "carrier_source_display CosUsb = ''usb''"
| "carrier_source_display CosUsbInverted = ''usbinvert''"
| "carrier_source_display CosParallel = ''pp''"
| "carrier_source_display CosParallelInverted = ''ppinvert''"

datatype vad_mode_kind =
  VadOff | VadKerchunk | VadOn

fun vad_mode_kind_display :: "vad_mode_kind \<Rightarrow> string" where
  "vad_mode_kind_display VadOff = ''off''"
| "vad_mode_kind_display VadKerchunk = ''kerchunk''"
| "vad_mode_kind_display VadOn = ''on''"

datatype ctcss_source =
  ToneDisabled | ToneUsb | ToneUsbInverted | ToneDsp | ToneParallel | ToneParallelInverted

fun ctcss_source_display :: "ctcss_source \<Rightarrow> string" where
  "ctcss_source_display ToneDisabled = ''no''"
| "ctcss_source_display ToneUsb = ''usb''"
| "ctcss_source_display ToneUsbInverted = ''usbinvert''"
| "ctcss_source_display ToneDsp = ''dsp''"
| "ctcss_source_display ToneParallel = ''pp''"
| "ctcss_source_display ToneParallelInverted = ''ppinvert''"

datatype ctcss_turnoff_mode =
  TurnoffNone | TurnoffPhaseShift | TurnoffToneRemove | TurnoffTailTone

fun ctcss_turnoff_mode_display :: "ctcss_turnoff_mode \<Rightarrow> string" where
  "ctcss_turnoff_mode_display TurnoffNone = ''no''"
| "ctcss_turnoff_mode_display TurnoffPhaseShift = ''ctcss_phase_shift''"
| "ctcss_turnoff_mode_display TurnoffToneRemove = ''ctcss_tone_remove''"
| "ctcss_turnoff_mode_display TurnoffTailTone = ''ctcss_tail_tone''"

datatype dcs_polarity =
  DcsNormal | DcsInverted

fun dcs_polarity_display :: "dcs_polarity \<Rightarrow> string" where
  "dcs_polarity_display DcsNormal = ''N''"
| "dcs_polarity_display DcsInverted = ''I''"

datatype radio_duplex_mode =
  DuplexHalf | DuplexFull

fun radio_duplex_mode_display :: "radio_duplex_mode \<Rightarrow> string" where
  "radio_duplex_mode_display DuplexHalf = ''0''"
| "radio_duplex_mode_display DuplexFull = ''1''"

definition carries_signaling :: "hardware_output_assignment \<Rightarrow> bool" where
  "carries_signaling route \<longleftrightarrow> route = OutCtcss \<or> route = OutVoiceCtcss"

section \<open>Numbers\<close>

definition parse_c_magnitude :: "string \<Rightarrow> int option" where
  "parse_c_magnitude s =
     (case (case strip_prefix ''0x'' s of Some rest \<Rightarrow> Some rest | None \<Rightarrow> strip_prefix ''0X'' s) of
        Some rest \<Rightarrow> if rest = [] then None else from_str_radix 16 u64_max rest
      | None \<Rightarrow>
          if 1 < length s \<and> starts_with ''0'' s
          then (if tl s = [] then None else from_str_radix 8 u64_max (tl s))
          else (if s = [] then None else from_str_radix 10 u64_max s))"

definition parse_c_unsigned :: "string \<Rightarrow> int option" where
  "parse_c_unsigned value =
     (let body = trim value;
          unsigned = (case strip_prefix ''+'' body of Some rest \<Rightarrow> rest | None \<Rightarrow> body)
      in if unsigned = [] \<or> starts_with ''-'' unsigned then None else parse_c_magnitude unsigned)"

section \<open>CTCSS tones\<close>

definition CTCSS_TENTHS_HZ :: "int list" where
  "CTCSS_TENTHS_HZ =
     [670, 719, 744, 770, 797, 825, 854, 885, 915, 948, 974, 1000, 1035, 1072, 1109, 1148, 1188,
      1230, 1273, 1318, 1365, 1413, 1462, 1514, 1567, 1622, 1679, 1738, 1799, 1862, 1928, 2035, 2107,
      2181, 2257, 2336, 2418, 2503]"

datatype ctcss_tone = CtcssTone (tenths_hz: int)

definition from_tenths_hz :: "int \<Rightarrow> ctcss_tone option" where
  "from_tenths_hz tenths = (if tenths \<in> set CTCSS_TENTHS_HZ then Some (CtcssTone tenths) else None)"

definition supported_tones :: "ctcss_tone list" where
  "supported_tones = map CtcssTone CTCSS_TENTHS_HZ"

text \<open>The position of an entry; \<open>None\<close> stands for the panic of \<open>expect\<close>.\<close>

fun position :: "'a \<Rightarrow> 'a list \<Rightarrow> nat option" where
  "position x [] = None"
| "position x (y # ys) = (if y = x then Some 0 else map_option Suc (position x ys))"

definition table_index :: "ctcss_tone \<Rightarrow> nat option" where
  "table_index tone = position (tenths_hz tone) CTCSS_TENTHS_HZ"

text \<open>
  \<open>f32::from(tenths) / 10.0\<close>: both operands are exact in \<open>f32\<close>, so the quotient is the rounding of the
  rational \<open>tenths / 10\<close>.
\<close>

definition tenths_as_hz :: "int \<Rightarrow> rust_float" where
  "tenths_as_hz tenths = float_of f32_format False (of_int tenths / 10)"

definition as_hz :: "ctcss_tone \<Rightarrow> rust_float" where
  "as_hz tone = tenths_as_hz (tenths_hz tone)"

definition ctcss_tone_display :: "ctcss_tone \<Rightarrow> string" where
  "ctcss_tone_display tone =
     dec_digits (tenths_hz tone div 10) @ ''.'' @ dec_digits (tenths_hz tone mod 10)"

text \<open>Equality of the bit patterns is equality of sign and magnitude.\<close>

definition ctcss_tone_from_str :: "string \<Rightarrow> ctcss_tone option" where
  "ctcss_tone_from_str s =
     (case parse_float f32_format (trim s) of
        None \<Rightarrow> None
      | Some parsed \<Rightarrow>
          if \<not> is_finite parsed then None
          else map_option CtcssTone (find (\<lambda>tenths. parsed = tenths_as_hz tenths) CTCSS_TENTHS_HZ))"

definition ctcss_tone_parse_error :: string where
  "ctcss_tone_parse_error = ''frequency is not a supported CTCSS tone''"

definition tone_list_error :: string where
  "tone_list_error = ''requires a nonempty comma-separated list of supported CTCSS tones''"

fun collect_tones :: "string list \<Rightarrow> ctcss_tone list option" where
  "collect_tones [] = Some []"
| "collect_tones (entry # rest) =
     (case ctcss_tone_from_str (trim entry) of
        None \<Rightarrow> None
      | Some tone \<Rightarrow> map_option (Cons tone) (collect_tones rest))"

definition parse_tone_list :: "string \<Rightarrow> (string, ctcss_tone list) result" where
  "parse_tone_list value =
     (if trim value = [] then Inl tone_list_error
      else
        (case collect_tones (split_on (\<lambda>c. c = CHR '','') value) of
           None \<Rightarrow> Inl tone_list_error
         | Some tones \<Rightarrow>
             if length CTCSS_TENTHS_HZ < length tones then Inl ''supports at most 38 CTCSS tone entries''
             else Inr tones))"

definition format_tone_list :: "ctcss_tone list \<Rightarrow> string" where
  "format_tone_list tones = join '','' (map ctcss_tone_display tones)"

section \<open>DCS codes\<close>

record dcs_code =
  code_value :: int
  code_polarity :: dcs_polarity

definition is_octal :: "char \<Rightarrow> bool" where
  "is_octal c \<longleftrightarrow> CHR ''0'' \<le> c \<and> c \<le> CHR ''7''"

text \<open>The format \<open>:03o\<close> pads with zeros to three digits.\<close>

definition pad3 :: "string \<Rightarrow> string" where
  "pad3 ds = replicate (3 - length ds) (CHR ''0'') @ ds"

definition dcs_code_display :: "dcs_code \<Rightarrow> string" where
  "dcs_code_display code =
     pad3 (radix_digits 8 (code_value code)) @ dcs_polarity_display (code_polarity code)"

definition dcs_code_from_str :: "string \<Rightarrow> dcs_code option" where
  "dcs_code_from_str s =
     (case s of
        [a, b, c, p] \<Rightarrow>
          if \<not> (is_octal a \<and> is_octal b \<and> is_octal c) then None
          else
            map_option
              (\<lambda>polarity. \<lparr>code_value = digit_value a * 64 + digit_value b * 8 + digit_value c,
                          code_polarity = polarity\<rparr>)
              (if p = CHR ''N'' \<or> p = CHR ''n'' then Some DcsNormal
               else if p = CHR ''I'' \<or> p = CHR ''i'' then Some DcsInverted
               else None)
      | _ \<Rightarrow> None)"

definition dcs_code_parse_error :: string where
  "dcs_code_parse_error = ''DCS code requires exactly three octal digits followed by N or I''"

section \<open>Settings\<close>

record asterisk_config =
  ast_jitter_buffer_enabled :: bool
  ast_jitter_buffer_max_size_ms :: int
  ast_jitter_buffer_resync_threshold_ms :: int
  ast_jitter_buffer_implementation :: jitter_buffer_implementation
  ast_jitter_buffer_logging_enabled :: bool
  ast_jitter_buffer_force_enabled :: bool
  ast_jitter_buffer_target_extra_ms :: int
  ast_jitter_buffer_video_sync_enabled :: bool

record parallel_port_config =
  pp_device :: string
  pp_base_address :: int
  pp_output_assignments :: "parallel_output_assignment option list"
  pp_input_assignments :: "parallel_input_assignment option list"

record hardware_config =
  hw_input_gain_db :: rust_float
  hw_output_a_gain_db :: rust_float
  hw_output_b_gain_db :: rust_float
  hw_input_extra_buffer_ms :: int
  hw_output_extra_buffer_ms :: int
  hw_output_a_assignment :: hardware_output_assignment
  hw_output_b_assignment :: hardware_output_assignment
  hw_ptt_inverted :: bool
  hw_deemphasis_corner_hz :: rust_float
  hw_preemphasis_corner_hz :: rust_float
  hw_device_identifier :: string
  hw_serial :: string
  hw_interface_type :: hardware_interface_type
  hw_eeprom_enabled :: bool
  hw_gpio_usb_port_path :: string
  hw_voter_reporting :: int
  hw_clip_led_gpio :: "int option"
  hw_gpio_modes :: "gpio_mode list"
  hw_parallel_port :: parallel_port_config

record receive_config =
  rx_signaling_method :: signaling_method_kind
  rx_audio_source :: receive_audio_source
  rx_cos_assignment :: carrier_source
  rx_vox_hang_ms :: int
  rx_vox_threshold :: int
  rx_vad_mode :: vad_mode_kind
  rx_vad_hang_ms :: int
  rx_noise_squelch_hysteresis :: int
  rx_noise_filter_type :: int
  rx_squelch_delay_ms :: int
  rx_on_delay_frames :: int
  rx_squelch_level :: int
  rx_frequency_hz :: int

record transmit_config =
  tx_signaling_method :: signaling_method_kind
  tx_preemphasis_enabled :: bool
  tx_settle_ms :: int
  tx_rx_blanking_ms :: int
  tx_off_delay_frames :: int
  tx_frequency_hz :: int

record ctcss_config =
  ct_receive_frequencies :: "ctcss_tone list"
  ct_transmit_frequencies :: "ctcss_tone list"
  ct_receive_source :: ctcss_source
  ct_receive_decoder_gain_db :: rust_float
  ct_receive_override_enabled :: bool
  ct_receive_relax :: int
  ct_transmit_default :: ctcss_tone
  ct_transmit_peak_dbfs :: rust_float
  ct_turnoff_mode :: ctcss_turnoff_mode
  ct_phase_shift_degrees :: rust_float
  ct_tail_duration_ms :: int
  ct_tail_frequency_hz :: rust_float

record dcs_config =
  dcs_receive_code :: dcs_code
  dcs_transmit_code :: dcs_code
  dcs_turnoff_code_enabled :: bool
  dcs_turnoff_duration_ms :: int
  dcs_peak_dbfs :: rust_float

record duplex_config =
  dx_radio_mode :: radio_duplex_mode
  dx_local_repeat_level :: int

record diagnostics_config =
  dg_status_publication_interval_ms :: int

record station_config =
  station_channel_enabled :: bool
  station_asterisk :: asterisk_config
  station_hardware :: hardware_config
  station_receive :: receive_config
  station_transmit :: transmit_config
  station_ctcss :: ctcss_config
  station_dcs :: dcs_config
  station_duplex :: duplex_config
  station_diagnostics :: diagnostics_config

section \<open>Shipped settings\<close>

definition asterisk_default :: asterisk_config where
  "asterisk_default =
     \<lparr>ast_jitter_buffer_enabled = False, ast_jitter_buffer_max_size_ms = 200,
      ast_jitter_buffer_resync_threshold_ms = 1000,
      ast_jitter_buffer_implementation = JitterFixed,
      ast_jitter_buffer_logging_enabled = False, ast_jitter_buffer_force_enabled = False,
      ast_jitter_buffer_target_extra_ms = 40, ast_jitter_buffer_video_sync_enabled = False\<rparr>"

definition parallel_port_default :: parallel_port_config where
  "parallel_port_default =
     \<lparr>pp_device = ''/dev/parport0'', pp_base_address = 888,
      pp_output_assignments = replicate 8 None, pp_input_assignments = replicate 4 None\<rparr>"

definition hardware_default :: hardware_config where
  "hardware_default =
     \<lparr>hw_input_gain_db = f64 0, hw_output_a_gain_db = f64 0, hw_output_b_gain_db = f64 0,
      hw_input_extra_buffer_ms = 0, hw_output_extra_buffer_ms = 0,
      hw_output_a_assignment = OutVoiceCtcss, hw_output_b_assignment = OutOff,
      hw_ptt_inverted = False, hw_deemphasis_corner_hz = f64 300,
      hw_preemphasis_corner_hz = f64 300, hw_device_identifier = [], hw_serial = [],
      hw_interface_type = InterfaceDudeUsb, hw_eeprom_enabled = True,
      hw_gpio_usb_port_path = [], hw_voter_reporting = 0, hw_clip_led_gpio = None,
      hw_gpio_modes = replicate 8 GpioInput, hw_parallel_port = parallel_port_default\<rparr>"

definition receive_default :: receive_config where
  "receive_default =
     \<lparr>rx_signaling_method = SigCarrier, rx_audio_source = AudioFlat, rx_cos_assignment = CosDsp,
      rx_vox_hang_ms = 2000, rx_vox_threshold = 0, rx_vad_mode = VadOff,
      rx_vad_hang_ms = 1000, rx_noise_squelch_hysteresis = 3000, rx_noise_filter_type = 0,
      rx_squelch_delay_ms = 0, rx_on_delay_frames = 0, rx_squelch_level = 500,
      rx_frequency_hz = 0\<rparr>"

definition transmit_default :: transmit_config where
  "transmit_default =
     \<lparr>tx_signaling_method = SigCarrier, tx_preemphasis_enabled = True, tx_settle_ms = 500,
      tx_rx_blanking_ms = 0, tx_off_delay_frames = 0, tx_frequency_hz = 0\<rparr>"

definition ctcss_default :: ctcss_config where
  "ctcss_default =
     \<lparr>ct_receive_frequencies = [CtcssTone 1000], ct_transmit_frequencies = [CtcssTone 1000],
      ct_receive_source = ToneDsp, ct_receive_decoder_gain_db = f64 0,
      ct_receive_override_enabled = False, ct_receive_relax = 1,
      ct_transmit_default = CtcssTone 1000, ct_transmit_peak_dbfs = f64 (- 24),
      ct_turnoff_mode = TurnoffPhaseShift, ct_phase_shift_degrees = f64 120,
      ct_tail_duration_ms = 180, ct_tail_frequency_hz = f64 55\<rparr>"

definition dcs_default :: dcs_config where
  "dcs_default =
     \<lparr>dcs_receive_code = \<lparr>code_value = 19, code_polarity = DcsNormal\<rparr>,
      dcs_transmit_code = \<lparr>code_value = 19, code_polarity = DcsNormal\<rparr>,
      dcs_turnoff_code_enabled = True, dcs_turnoff_duration_ms = 180,
      dcs_peak_dbfs = f64 (- 24)\<rparr>"

definition duplex_default :: duplex_config where
  "duplex_default =
     \<lparr>dx_radio_mode = DuplexHalf, dx_local_repeat_level = 0\<rparr>"

definition diagnostics_default :: diagnostics_config where
  "diagnostics_default =
     \<lparr>dg_status_publication_interval_ms = 50\<rparr>"

definition station_default :: station_config where
  "station_default =
     \<lparr>station_channel_enabled = True, station_asterisk = asterisk_default,
      station_hardware = hardware_default, station_receive = receive_default,
      station_transmit = transmit_default, station_ctcss = ctcss_default,
      station_dcs = dcs_default, station_duplex = duplex_default,
      station_diagnostics = diagnostics_default\<rparr>"

section \<open>Parsers of the enumerations\<close>

definition parse_vad_mode :: "string \<Rightarrow> (string, vad_mode_kind) result" where
  "parse_vad_mode value =
     (if eq_ignore_ascii_case value ''off'' then Inr VadOff
      else if eq_ignore_ascii_case value ''kerchunk'' then Inr VadKerchunk
      else if eq_ignore_ascii_case value ''on'' then Inr VadOn
      else Inl ''requires off, kerchunk, or on'')"

definition parse_jitter_implementation :: "string \<Rightarrow> (string, jitter_buffer_implementation) result" where
  "parse_jitter_implementation value =
     (if eq_ignore_ascii_case value ''fixed'' then Inr JitterFixed
      else if eq_ignore_ascii_case value ''adaptive'' then Inr JitterAdaptive
      else Inl ''requires fixed or adaptive'')"

definition parse_hardware_interface :: "string \<Rightarrow> (string, hardware_interface_type) result" where
  "parse_hardware_interface value =
     (case parse_c_unsigned value of
        Some parsed \<Rightarrow>
          (if parsed = 0 then Inr InterfaceDudeUsb
           else if parsed = 1 then Inr InterfaceSphUsb
           else if parsed = 2 then Inr InterfaceNhrc
           else if parsed = 3 then Inr InterfaceCustom
           else Inl ''requires 0, 1, 2, or 3'')
      | None \<Rightarrow> Inl ''requires 0, 1, 2, or 3'')"

definition parse_hardware_output :: "string \<Rightarrow> (string, hardware_output_assignment) result" where
  "parse_hardware_output value =
     (if eq_ignore_ascii_case value ''off'' then Inr OutOff
      else if eq_ignore_ascii_case value ''voice'' then Inr OutVoice
      else if eq_ignore_ascii_case value ''ctcss'' then Inr OutCtcss
      else if eq_ignore_ascii_case value ''voice_ctcss'' then Inr OutVoiceCtcss
      else if eq_ignore_ascii_case value ''auxvoice'' then Inr OutAuxiliaryVoice
      else Inl ''requires off, voice, ctcss, voice_ctcss, or auxvoice'')"

definition parse_gpio_mode :: "string \<Rightarrow> (string, gpio_mode) result" where
  "parse_gpio_mode value =
     (if eq_ignore_ascii_case value ''in'' then Inr GpioInput
      else if eq_ignore_ascii_case value ''out0'' then Inr GpioOutputLow
      else if eq_ignore_ascii_case value ''out1'' then Inr GpioOutputHigh
      else Inl ''requires in, out0, or out1'')"

definition parse_parallel_output :: "string \<Rightarrow> (string, parallel_output_assignment) result" where
  "parse_parallel_output value =
     (if eq_ignore_ascii_case value ''out0'' then Inr PinLow
      else if eq_ignore_ascii_case value ''out1'' then Inr PinHigh
      else if eq_ignore_ascii_case value ''ptt'' then Inr PinPushToTalk
      else Inl ''requires out0, out1, or ptt'')"

definition parse_parallel_input :: "string \<Rightarrow> (string, parallel_input_assignment) result" where
  "parse_parallel_input value =
     (if eq_ignore_ascii_case value ''in'' then Inr PinInput
      else if eq_ignore_ascii_case value ''cor'' then Inr PinCarrier
      else if eq_ignore_ascii_case value ''ctcss'' then Inr PinCtcss
      else Inl ''requires in, cor, or ctcss'')"

definition parse_signaling_method :: "string \<Rightarrow> (string, signaling_method_kind) result" where
  "parse_signaling_method value =
     (if eq_ignore_ascii_case value ''carrier'' then Inr SigCarrier
      else if eq_ignore_ascii_case value ''ctcss'' then Inr SigCtcss
      else if eq_ignore_ascii_case value ''dcs'' then Inr SigDcs
      else Inl ''requires carrier, ctcss, or dcs'')"

definition parse_receive_audio_source :: "string \<Rightarrow> (string, receive_audio_source) result" where
  "parse_receive_audio_source value =
     (if eq_ignore_ascii_case value ''no'' then Inr AudioDisabled
      else if eq_ignore_ascii_case value ''speaker'' then Inr AudioSpeaker
      else if eq_ignore_ascii_case value ''flat'' then Inr AudioFlat
      else Inl ''requires no, speaker, or flat'')"

definition parse_carrier_source :: "string \<Rightarrow> (string, carrier_source) result" where
  "parse_carrier_source value =
     (if eq_ignore_ascii_case value ''no'' then Inr CosDisabled
      else if eq_ignore_ascii_case value ''dsp'' then Inr CosDsp
      else if eq_ignore_ascii_case value ''vox'' then Inr CosVox
      else if eq_ignore_ascii_case value ''external'' then Inr CosExternal
      else if eq_ignore_ascii_case value ''open'' then Inr CosOpen
      else if eq_ignore_ascii_case value ''usb'' then Inr CosUsb
      else if eq_ignore_ascii_case value ''usbinvert'' then Inr CosUsbInverted
      else if eq_ignore_ascii_case value ''pp'' then Inr CosParallel
      else if eq_ignore_ascii_case value ''ppinvert'' then Inr CosParallelInverted
      else Inl ''requires no, dsp, vox, external, open, usb, usbinvert, pp, or ppinvert'')"

definition parse_ctcss_source :: "string \<Rightarrow> (string, ctcss_source) result" where
  "parse_ctcss_source value =
     (if eq_ignore_ascii_case value ''no'' then Inr ToneDisabled
      else if eq_ignore_ascii_case value ''usb'' then Inr ToneUsb
      else if eq_ignore_ascii_case value ''usbinvert'' then Inr ToneUsbInverted
      else if eq_ignore_ascii_case value ''dsp'' then Inr ToneDsp
      else if eq_ignore_ascii_case value ''pp'' then Inr ToneParallel
      else if eq_ignore_ascii_case value ''ppinvert'' then Inr ToneParallelInverted
      else Inl ''requires no, usb, usbinvert, dsp, pp, or ppinvert'')"

definition parse_ctcss_turnoff_mode :: "string \<Rightarrow> (string, ctcss_turnoff_mode) result" where
  "parse_ctcss_turnoff_mode value =
     (if eq_ignore_ascii_case value ''no'' then Inr TurnoffNone
      else if eq_ignore_ascii_case value ''ctcss_phase_shift'' then Inr TurnoffPhaseShift
      else if eq_ignore_ascii_case value ''ctcss_tone_remove'' then Inr TurnoffToneRemove
      else if eq_ignore_ascii_case value ''ctcss_tail_tone'' then Inr TurnoffTailTone
      else Inl ''requires no, ctcss_phase_shift, ctcss_tone_remove, or ctcss_tail_tone'')"

definition parse_radio_duplex_mode :: "string \<Rightarrow> (string, radio_duplex_mode) result" where
  "parse_radio_duplex_mode value =
     (case parse_c_unsigned value of
        Some parsed \<Rightarrow>
          (if parsed = 0 then Inr DuplexHalf
           else if parsed = 1 then Inr DuplexFull
           else Inl ''requires 0 or 1'')
      | None \<Rightarrow> Inl ''requires 0 or 1'')"

section \<open>Pins by name\<close>

definition gpio_mode_index :: "string \<Rightarrow> nat option" where
  "gpio_mode_index name =
     (case strip_prefix ''hardware_gpio_'' name of
        None \<Rightarrow> None
      | Some rest \<Rightarrow>
          (case strip_suffix ''_mode'' rest of
             None \<Rightarrow> None
           | Some number_text \<Rightarrow>
               (case from_str_radix 10 u64_max number_text of
                  None \<Rightarrow> None
                | Some pin \<Rightarrow> if 1 \<le> pin \<and> pin \<le> 8 then Some (nat (pin - 1)) else None)))"

definition parallel_output_index :: "string \<Rightarrow> nat option" where
  "parallel_output_index name = position name
     [''hardware_parallel_pin_2_assignment'', ''hardware_parallel_pin_3_assignment'',
      ''hardware_parallel_pin_4_assignment'', ''hardware_parallel_pin_5_assignment'',
      ''hardware_parallel_pin_6_assignment'', ''hardware_parallel_pin_7_assignment'',
      ''hardware_parallel_pin_8_assignment'', ''hardware_parallel_pin_9_assignment'']"

definition parallel_input_index :: "string \<Rightarrow> nat option" where
  "parallel_input_index name = position name
     [''hardware_parallel_pin_10_assignment'', ''hardware_parallel_pin_12_assignment'',
      ''hardware_parallel_pin_13_assignment'', ''hardware_parallel_pin_15_assignment'']"

section \<open>Validation\<close>

datatype station_validation_error =
    DisabledCtcssReceiveSource
  | CtcssMapLength nat nat
  | MissingTransmitSignalingRoute

fun station_validation_error_display :: "station_validation_error \<Rightarrow> string" where
  "station_validation_error_display DisabledCtcssReceiveSource =
     ''receive signaling_method=ctcss requires a non-disabled CTCSS receive source''"
| "station_validation_error_display (CtcssMapLength rx tx) =
     ''receive/transmit CTCSS maps must have equal lengths ('' @ dec_digits (int rx) @ '' != '' @
     dec_digits (int tx) @ '')''"
| "station_validation_error_display MissingTransmitSignalingRoute =
     ''transmit CTCSS or DCS requires hardware output A or B to carry signaling''"

definition validate_station :: "station_config \<Rightarrow> (station_validation_error, unit) result" where
  "validate_station config =
     (if rx_signaling_method (station_receive config) = SigCtcss \<and>
         ct_receive_source (station_ctcss config) = ToneDisabled
      then Inl DisabledCtcssReceiveSource
      else if rx_signaling_method (station_receive config) = SigCtcss \<and>
         tx_signaling_method (station_transmit config) = SigCtcss \<and>
         length (ct_receive_frequencies (station_ctcss config)) \<noteq>
         length (ct_transmit_frequencies (station_ctcss config))
      then Inl (CtcssMapLength (length (ct_receive_frequencies (station_ctcss config)))
                               (length (ct_transmit_frequencies (station_ctcss config))))
      else if tx_signaling_method (station_transmit config) \<in> {SigCtcss, SigDcs} \<and>
         \<not> carries_signaling (hw_output_a_assignment (station_hardware config)) \<and>
         \<not> carries_signaling (hw_output_b_assignment (station_hardware config))
      then Inl MissingTransmitSignalingRoute
      else Inr ())"

end
