(* ===== verification/Station_Resolution.thy ===== *)
theory Station_Resolution
  imports Station_Config Setting_Appliers
begin

text \<open>
  Resolution of the station configuration, second half of \<^verbatim>\<open>rust/core/src/station_config.rs\<close>: the
  assignment helpers, one applier per profile kind, the overlay loop with its conflict rule, the
  normalisation of the speech-admission mode, and \<open>from_document\<close>. An applier's match on the option
  name is a table; an entry holds the accessors of the field and the helper that parses the value.
\<close>

section \<open>Settings and warnings\<close>

record setting =
  setting_source :: string
  setting_section :: string
  setting_name :: string
  setting_value :: string

definition station_invalid :: "warnings \<Rightarrow> setting \<Rightarrow> string \<Rightarrow> string \<Rightarrow> warnings" where
  "station_invalid ws s fallback reason =
     ws @ [\<lparr>warn_kind = InvalidValue, warn_source = setting_source s, warn_section = setting_section s,
            warn_name = setting_name s, warn_supplied_value = setting_value s,
            warn_fallback = fallback, warn_reason = reason\<rparr>]"

definition station_unknown :: "warnings \<Rightarrow> setting \<Rightarrow> warnings" where
  "station_unknown ws s =
     ws @ [\<lparr>warn_kind = UnknownOption, warn_source = setting_source s, warn_section = setting_section s,
            warn_name = setting_name s, warn_supplied_value = setting_value s,
            warn_fallback = ''ignored'', warn_reason = ''is unknown and was ignored''\<rparr>]"

section \<open>Assigning one field\<close>

type_synonym 'a station_assigner = "'a \<Rightarrow> setting \<Rightarrow> warnings \<Rightarrow> 'a \<times> warnings"

definition station_yes_no :: "bool \<Rightarrow> string" where
  "station_yes_no value = (if value then ''yes'' else ''no'')"

definition station_format_number :: "rust_float \<Rightarrow> string" where
  "station_format_number value = float_display value"

definition assign_bool :: "bool station_assigner" where
  "assign_bool target s ws =
     (if eq_ignore_ascii_case (trim (setting_value s)) ''yes'' then (True, ws)
      else if eq_ignore_ascii_case (trim (setting_value s)) ''no'' then (False, ws)
      else (target, station_invalid ws s (station_yes_no target) ''requires yes or no''))"

definition parsed_u64 ::
  "setting \<Rightarrow> int \<Rightarrow> int \<Rightarrow> string \<Rightarrow> warnings \<Rightarrow> int option \<times> warnings" where
  "parsed_u64 s minimum maximum fallback ws =
     (case parse_c_unsigned (setting_value s) of
        Some value \<Rightarrow>
          if minimum \<le> value \<and> value \<le> maximum then (Some value, ws)
          else (None, station_invalid ws s fallback
                  (''requires an integer from '' @ dec_digits minimum @ '' through '' @ dec_digits maximum))
      | None \<Rightarrow>
          (None, station_invalid ws s fallback
             (''requires an integer from '' @ dec_digits minimum @ '' through '' @ dec_digits maximum)))"

definition assign_u8 :: "int \<Rightarrow> int \<Rightarrow> int station_assigner" where
  "assign_u8 minimum maximum target s ws =
     (case parsed_u64 s minimum maximum (dec_digits target) ws of
        (Some value, ws') \<Rightarrow> (value mod 2 ^ 8, ws')
      | (None, ws') \<Rightarrow> (target, ws'))"

definition assign_u16 :: "int \<Rightarrow> int \<Rightarrow> int station_assigner" where
  "assign_u16 minimum maximum target s ws =
     (case parsed_u64 s minimum maximum (dec_digits target) ws of
        (Some value, ws') \<Rightarrow> (value mod 2 ^ 16, ws')
      | (None, ws') \<Rightarrow> (target, ws'))"

definition assign_u32 :: "int \<Rightarrow> int \<Rightarrow> int station_assigner" where
  "assign_u32 minimum maximum target s ws =
     (case parsed_u64 s minimum maximum (dec_digits target) ws of
        (Some value, ws') \<Rightarrow> (value mod 2 ^ 32, ws')
      | (None, ws') \<Rightarrow> (target, ws'))"

definition assign_f64 :: "rust_float \<Rightarrow> rust_float \<Rightarrow> rust_float station_assigner" where
  "assign_f64 minimum maximum target s ws =
     (case parse_float f64_format (trim (setting_value s)) of
        Some value \<Rightarrow>
          if is_finite value \<and> float_le minimum value \<and> float_le value maximum then (value, ws)
          else (target, station_invalid ws s (station_format_number target)
                  (''requires a finite number from '' @ float_display minimum @ '' through '' @
                   float_display maximum))
      | None \<Rightarrow>
          (target, station_invalid ws s (station_format_number target)
             (''requires a finite number from '' @ float_display minimum @ '' through '' @
              float_display maximum)))"

definition assign_positive_f64 :: "string \<Rightarrow> rust_float station_assigner" where
  "assign_positive_f64 reason target s ws =
     (case parse_float f64_format (trim (setting_value s)) of
        Some value \<Rightarrow>
          if is_finite value \<and> float_lt (f64 0) value then (value, ws)
          else (target, station_invalid ws s (station_format_number target) reason)
      | None \<Rightarrow> (target, station_invalid ws s (station_format_number target) reason))"

definition assign_positive_bounded_f64 :: "rust_float \<Rightarrow> rust_float station_assigner" where
  "assign_positive_bounded_f64 maximum target s ws =
     (case parse_float f64_format (trim (setting_value s)) of
        Some value \<Rightarrow>
          if is_finite value \<and> float_lt (f64 0) value \<and> float_le value maximum then (value, ws)
          else (target, station_invalid ws s (station_format_number target)
                  (''requires a positive finite number through '' @ float_display maximum))
      | None \<Rightarrow>
          (target, station_invalid ws s (station_format_number target)
             (''requires a positive finite number through '' @ float_display maximum)))"

definition assign_display ::
  "('a \<Rightarrow> string) \<Rightarrow> (string \<Rightarrow> (string, 'a) result) \<Rightarrow> 'a station_assigner" where
  "assign_display display parse target s ws =
     (case parse (trim (setting_value s)) of
        Inr value \<Rightarrow> (value, ws)
      | Inl reason \<Rightarrow> (target, station_invalid ws s (display target) reason))"

definition assign_optional_display ::
  "('a \<Rightarrow> string) \<Rightarrow> (string \<Rightarrow> (string, 'a) result) \<Rightarrow> 'a option station_assigner" where
  "assign_optional_display display parse target s ws =
     (case parse (trim (setting_value s)) of
        Inr value \<Rightarrow> (Some value, ws)
      | Inl reason \<Rightarrow>
          (target, station_invalid ws s
             (case target of None \<Rightarrow> ''unconfigured'' | Some value \<Rightarrow> display value) reason))"

definition assign_tone_list :: "ctcss_tone list station_assigner" where
  "assign_tone_list target s ws =
     (case parse_tone_list (setting_value s) of
        Inr value \<Rightarrow> (value, ws)
      | Inl reason \<Rightarrow> (target, station_invalid ws s (format_tone_list target) reason))"

definition assign_tone :: "ctcss_tone station_assigner" where
  "assign_tone target s ws =
     (case ctcss_tone_from_str (setting_value s) of
        Some value \<Rightarrow> (value, ws)
      | None \<Rightarrow> (target, station_invalid ws s (ctcss_tone_display target) ctcss_tone_parse_error))"

definition assign_dcs_code :: "dcs_code station_assigner" where
  "assign_dcs_code target s ws =
     (case dcs_code_from_str (setting_value s) of
        Some value \<Rightarrow> (value, ws)
      | None \<Rightarrow> (target, station_invalid ws s (dcs_code_display target) dcs_code_parse_error))"

text \<open>The arms of \<open>apply_hardware\<close> that assign without a helper.\<close>

definition assign_text :: "string station_assigner" where
  "assign_text target s ws = (setting_value s, ws)"

definition assign_clip_led :: "int option station_assigner" where
  "assign_clip_led target s ws =
     (case parsed_u64 s 0 8 (case target of None \<Rightarrow> ''0'' | Some pin \<Rightarrow> dec_digits pin) ws of
        (Some value, ws') \<Rightarrow> ((if value \<noteq> 0 then Some (value mod 2 ^ 8) else None), ws')
      | (None, ws') \<Rightarrow> (target, ws'))"

definition assign_device :: "string station_assigner" where
  "assign_device target s ws =
     (if setting_value s = [] then (target, station_invalid ws s target ''requires a nonempty device path'')
      else (setting_value s, ws))"

definition assign_base_address :: "int station_assigner" where
  "assign_base_address target s ws =
     (case parsed_u64 s 1 4294967295 (''0x'' @ radix_digits 16 target) ws of
        (Some value, ws') \<Rightarrow> (value mod 2 ^ 32, ws')
      | (None, ws') \<Rightarrow> (target, ws'))"

section \<open>The appliers\<close>

type_synonym station_applier = "setting \<Rightarrow> station_config \<Rightarrow> warnings \<Rightarrow> station_config \<times> warnings"

definition station_field ::
  "(station_config \<Rightarrow> 'a) \<Rightarrow> (('a \<Rightarrow> 'a) \<Rightarrow> station_config \<Rightarrow> station_config) \<Rightarrow> 'a station_assigner \<Rightarrow>
   station_applier" where
  "station_field get upd assign s config ws =
     (case assign (get config) s ws of (value, ws') \<Rightarrow> (upd (\<lambda>_. value) config, ws'))"

definition apply_from :: "(string \<times> station_applier) list \<Rightarrow> string \<Rightarrow> station_applier" where
  "apply_from table name s config ws =
     (case map_of table name of
        Some apply \<Rightarrow> apply s config ws
      | None \<Rightarrow> (config, station_unknown ws s))"

definition ALL_PROFILE_SELECTORS :: "string list" where
  "ALL_PROFILE_SELECTORS =
     [''asterisk_profile'', ''hardware_profile'', ''receive_profile'', ''transmit_profile'',
      ''ctcss_profile'', ''dcs_profile'', ''duplex_profile'', ''diagnostics_profile'',
      ''local_profile'', ''link_profile'', ''voice_telemetry_profile'']"

definition apply_general :: "string \<Rightarrow> station_applier" where
  "apply_general name s config ws =
     (if name = ''channel_enabled''
      then station_field station_channel_enabled station_channel_enabled_update assign_bool s config ws
      else (config, station_unknown ws s))"

definition apply_radio :: "string \<Rightarrow> station_applier" where
  "apply_radio name s config ws =
     (if name = ''channel_enabled''
      then station_field station_channel_enabled station_channel_enabled_update assign_bool s config ws
      else if name \<in> set ALL_PROFILE_SELECTORS then (config, ws)
      else (config, station_unknown ws s))"

definition asterisk_table :: "(string \<times> station_applier) list" where
  "asterisk_table =
    [(''asterisk_jitter_buffer_enabled'',
       station_field (ast_jitter_buffer_enabled \<circ> station_asterisk)
         (station_asterisk_update \<circ> ast_jitter_buffer_enabled_update)
         assign_bool),
     (''asterisk_jitter_buffer_max_size_ms'',
       station_field (ast_jitter_buffer_max_size_ms \<circ> station_asterisk)
         (station_asterisk_update \<circ> ast_jitter_buffer_max_size_ms_update)
         (assign_u32 0 2147483647)),
     (''asterisk_jitter_buffer_resync_threshold_ms'',
       station_field (ast_jitter_buffer_resync_threshold_ms \<circ> station_asterisk)
         (station_asterisk_update \<circ> ast_jitter_buffer_resync_threshold_ms_update)
         (assign_u32 0 2147483647)),
     (''asterisk_jitter_buffer_implementation'',
       station_field (ast_jitter_buffer_implementation \<circ> station_asterisk)
         (station_asterisk_update \<circ> ast_jitter_buffer_implementation_update)
         (assign_display jitter_buffer_implementation_display parse_jitter_implementation)),
     (''asterisk_jitter_buffer_logging_enabled'',
       station_field (ast_jitter_buffer_logging_enabled \<circ> station_asterisk)
         (station_asterisk_update \<circ> ast_jitter_buffer_logging_enabled_update)
         assign_bool),
     (''asterisk_jitter_buffer_force_enabled'',
       station_field (ast_jitter_buffer_force_enabled \<circ> station_asterisk)
         (station_asterisk_update \<circ> ast_jitter_buffer_force_enabled_update)
         assign_bool),
     (''asterisk_jitter_buffer_target_extra_ms'',
       station_field (ast_jitter_buffer_target_extra_ms \<circ> station_asterisk)
         (station_asterisk_update \<circ> ast_jitter_buffer_target_extra_ms_update)
         (assign_u32 0 2147483647)),
     (''asterisk_jitter_buffer_video_sync_enabled'',
       station_field (ast_jitter_buffer_video_sync_enabled \<circ> station_asterisk)
         (station_asterisk_update \<circ> ast_jitter_buffer_video_sync_enabled_update)
         assign_bool)]"

definition apply_asterisk :: "string \<Rightarrow> station_applier" where
  "apply_asterisk name = apply_from asterisk_table name"

definition hardware_table :: "(string \<times> station_applier) list" where
  "hardware_table =
    [(''hardware_input_gain_db'',
       station_field (hw_input_gain_db \<circ> station_hardware)
         (station_hardware_update \<circ> hw_input_gain_db_update)
         (assign_f64 (f64 (- 30)) (f64 30))),
     (''hardware_output_a_gain_db'',
       station_field (hw_output_a_gain_db \<circ> station_hardware)
         (station_hardware_update \<circ> hw_output_a_gain_db_update)
         (assign_f64 (f64 (- 30)) (f64 30))),
     (''hardware_output_b_gain_db'',
       station_field (hw_output_b_gain_db \<circ> station_hardware)
         (station_hardware_update \<circ> hw_output_b_gain_db_update)
         (assign_f64 (f64 (- 30)) (f64 30))),
     (''hardware_input_extra_buffer_ms'',
       station_field (hw_input_extra_buffer_ms \<circ> station_hardware)
         (station_hardware_update \<circ> hw_input_extra_buffer_ms_update)
         (assign_u32 0 500)),
     (''hardware_output_extra_buffer_ms'',
       station_field (hw_output_extra_buffer_ms \<circ> station_hardware)
         (station_hardware_update \<circ> hw_output_extra_buffer_ms_update)
         (assign_u32 0 500)),
     (''hardware_output_a_assignment'',
       station_field (hw_output_a_assignment \<circ> station_hardware)
         (station_hardware_update \<circ> hw_output_a_assignment_update)
         (assign_display hardware_output_assignment_display parse_hardware_output)),
     (''hardware_output_b_assignment'',
       station_field (hw_output_b_assignment \<circ> station_hardware)
         (station_hardware_update \<circ> hw_output_b_assignment_update)
         (assign_display hardware_output_assignment_display parse_hardware_output)),
     (''hardware_ptt_inverted'',
       station_field (hw_ptt_inverted \<circ> station_hardware)
         (station_hardware_update \<circ> hw_ptt_inverted_update)
         assign_bool),
     (''hardware_deemphasis_corner_hz'',
       station_field (hw_deemphasis_corner_hz \<circ> station_hardware)
         (station_hardware_update \<circ> hw_deemphasis_corner_hz_update)
         (assign_positive_bounded_f64 (f64 500))),
     (''hardware_preemphasis_corner_hz'',
       station_field (hw_preemphasis_corner_hz \<circ> station_hardware)
         (station_hardware_update \<circ> hw_preemphasis_corner_hz_update)
         (assign_positive_bounded_f64 (f64 500))),
     (''hardware_device_identifier'',
       station_field (hw_device_identifier \<circ> station_hardware)
         (station_hardware_update \<circ> hw_device_identifier_update)
         assign_text),
     (''hardware_serial'',
       station_field (hw_serial \<circ> station_hardware)
         (station_hardware_update \<circ> hw_serial_update)
         assign_text),
     (''hardware_interface_type'',
       station_field (hw_interface_type \<circ> station_hardware)
         (station_hardware_update \<circ> hw_interface_type_update)
         (assign_display hardware_interface_type_display parse_hardware_interface)),
     (''hardware_eeprom_enabled'',
       station_field (hw_eeprom_enabled \<circ> station_hardware)
         (station_hardware_update \<circ> hw_eeprom_enabled_update)
         assign_bool),
     (''hardware_gpio_usb_port_path'',
       station_field (hw_gpio_usb_port_path \<circ> station_hardware)
         (station_hardware_update \<circ> hw_gpio_usb_port_path_update)
         assign_text),
     (''hardware_voter_reporting'',
       station_field (hw_voter_reporting \<circ> station_hardware)
         (station_hardware_update \<circ> hw_voter_reporting_update)
         (assign_u32 0 2147483647)),
     (''hardware_clip_led_gpio'',
       station_field (hw_clip_led_gpio \<circ> station_hardware)
         (station_hardware_update \<circ> hw_clip_led_gpio_update)
         assign_clip_led),
     (''hardware_parallel_port_device'',
       station_field (pp_device \<circ> hw_parallel_port \<circ> station_hardware)
         (station_hardware_update \<circ> hw_parallel_port_update \<circ> pp_device_update) assign_device),
     (''hardware_parallel_port_base_address'',
       station_field (pp_base_address \<circ> hw_parallel_port \<circ> station_hardware)
         (station_hardware_update \<circ> hw_parallel_port_update \<circ> pp_base_address_update) assign_base_address)]"

text \<open>The pins whose number is in the name.\<close>

definition gpio_field :: "nat \<Rightarrow> station_applier" where
  "gpio_field index = station_field (\<lambda>c. hw_gpio_modes (station_hardware c) ! index)
     (\<lambda>f. station_hardware_update (hw_gpio_modes_update (\<lambda>pins. pins[index := f (pins ! index)])))
     (assign_display gpio_mode_display parse_gpio_mode)"

definition parallel_output_field :: "nat \<Rightarrow> station_applier" where
  "parallel_output_field index =
     station_field (\<lambda>c. pp_output_assignments (hw_parallel_port (station_hardware c)) ! index)
       (\<lambda>f. station_hardware_update (hw_parallel_port_update
              (pp_output_assignments_update (\<lambda>pins. pins[index := f (pins ! index)]))))
       (assign_optional_display parallel_output_assignment_display parse_parallel_output)"

definition parallel_input_field :: "nat \<Rightarrow> station_applier" where
  "parallel_input_field index =
     station_field (\<lambda>c. pp_input_assignments (hw_parallel_port (station_hardware c)) ! index)
       (\<lambda>f. station_hardware_update (hw_parallel_port_update
              (pp_input_assignments_update (\<lambda>pins. pins[index := f (pins ! index)]))))
       (assign_optional_display parallel_input_assignment_display parse_parallel_input)"

definition apply_hardware :: "string \<Rightarrow> station_applier" where
  "apply_hardware name setting config ws =
     (case map_of hardware_table name of
        Some apply \<Rightarrow> apply setting config ws
      | None \<Rightarrow>
          (case gpio_mode_index name of
             Some index \<Rightarrow> gpio_field index setting config ws
           | None \<Rightarrow>
               (case parallel_output_index name of
                  Some index \<Rightarrow> parallel_output_field index setting config ws
                | None \<Rightarrow>
                    (case parallel_input_index name of
                       Some index \<Rightarrow> parallel_input_field index setting config ws
                     | None \<Rightarrow> (config, station_unknown ws setting)))))"

definition receive_table :: "(string \<times> station_applier) list" where
  "receive_table =
    [(''vad_mode'',
       station_field (rx_vad_mode \<circ> station_receive)
         (station_receive_update \<circ> rx_vad_mode_update)
         (assign_display vad_mode_kind_display parse_vad_mode)),
     (''vad_hang_ms'',
       station_field (rx_vad_hang_ms \<circ> station_receive)
         (station_receive_update \<circ> rx_vad_hang_ms_update)
         (assign_u32 0 32767)),
     (''signaling_method'',
       station_field (rx_signaling_method \<circ> station_receive)
         (station_receive_update \<circ> rx_signaling_method_update)
         (assign_display signaling_method_kind_display parse_signaling_method)),
     (''audio_source'',
       station_field (rx_audio_source \<circ> station_receive)
         (station_receive_update \<circ> rx_audio_source_update)
         (assign_display receive_audio_source_display parse_receive_audio_source)),
     (''cos_assignment'',
       station_field (rx_cos_assignment \<circ> station_receive)
         (station_receive_update \<circ> rx_cos_assignment_update)
         (assign_display carrier_source_display parse_carrier_source)),
     (''vox_hang_ms'',
       station_field (rx_vox_hang_ms \<circ> station_receive)
         (station_receive_update \<circ> rx_vox_hang_ms_update)
         (assign_u16 0 32767)),
     (''vox_threshold'',
       station_field (rx_vox_threshold \<circ> station_receive)
         (station_receive_update \<circ> rx_vox_threshold_update)
         (assign_u16 0 32767)),
     (''noise_squelch_hysteresis'',
       station_field (rx_noise_squelch_hysteresis \<circ> station_receive)
         (station_receive_update \<circ> rx_noise_squelch_hysteresis_update)
         (assign_u16 0 32767)),
     (''noise_filter_type'',
       station_field (rx_noise_filter_type \<circ> station_receive)
         (station_receive_update \<circ> rx_noise_filter_type_update)
         (assign_u8 0 1)),
     (''squelch_delay_ms'',
       station_field (rx_squelch_delay_ms \<circ> station_receive)
         (station_receive_update \<circ> rx_squelch_delay_ms_update)
         (assign_u16 0 511)),
     (''on_delay_frames'',
       station_field (rx_on_delay_frames \<circ> station_receive)
         (station_receive_update \<circ> rx_on_delay_frames_update)
         (assign_u16 0 3000)),
     (''squelch_level'',
       station_field (rx_squelch_level \<circ> station_receive)
         (station_receive_update \<circ> rx_squelch_level_update)
         (assign_u16 0 999)),
     (''frequency_hz'',
       station_field (rx_frequency_hz \<circ> station_receive)
         (station_receive_update \<circ> rx_frequency_hz_update)
         (assign_u32 0 2147483647))]"

definition apply_receive :: "string \<Rightarrow> station_applier" where
  "apply_receive name = apply_from receive_table name"

definition transmit_table :: "(string \<times> station_applier) list" where
  "transmit_table =
    [(''signaling_method'',
       station_field (tx_signaling_method \<circ> station_transmit)
         (station_transmit_update \<circ> tx_signaling_method_update)
         (assign_display signaling_method_kind_display parse_signaling_method)),
     (''preemphasis_enabled'',
       station_field (tx_preemphasis_enabled \<circ> station_transmit)
         (station_transmit_update \<circ> tx_preemphasis_enabled_update)
         assign_bool),
     (''settle_ms'',
       station_field (tx_settle_ms \<circ> station_transmit)
         (station_transmit_update \<circ> tx_settle_ms_update)
         (assign_u32 0 2147483647)),
     (''rx_blanking_ms'',
       station_field (tx_rx_blanking_ms \<circ> station_transmit)
         (station_transmit_update \<circ> tx_rx_blanking_ms_update)
         (assign_u16 0 32767)),
     (''off_delay_frames'',
       station_field (tx_off_delay_frames \<circ> station_transmit)
         (station_transmit_update \<circ> tx_off_delay_frames_update)
         (assign_u16 0 3000)),
     (''frequency_hz'',
       station_field (tx_frequency_hz \<circ> station_transmit)
         (station_transmit_update \<circ> tx_frequency_hz_update)
         (assign_u32 0 2147483647))]"

definition apply_transmit :: "string \<Rightarrow> station_applier" where
  "apply_transmit name = apply_from transmit_table name"

definition ctcss_table :: "(string \<times> station_applier) list" where
  "ctcss_table =
    [(''receive_frequencies'',
       station_field (ct_receive_frequencies \<circ> station_ctcss)
         (station_ctcss_update \<circ> ct_receive_frequencies_update)
         assign_tone_list),
     (''transmit_frequencies'',
       station_field (ct_transmit_frequencies \<circ> station_ctcss)
         (station_ctcss_update \<circ> ct_transmit_frequencies_update)
         assign_tone_list),
     (''receive_source'',
       station_field (ct_receive_source \<circ> station_ctcss)
         (station_ctcss_update \<circ> ct_receive_source_update)
         (assign_display ctcss_source_display parse_ctcss_source)),
     (''receive_decoder_gain_db'',
       station_field (ct_receive_decoder_gain_db \<circ> station_ctcss)
         (station_ctcss_update \<circ> ct_receive_decoder_gain_db_update)
         (assign_f64 (f64 (- 60)) (f64 60))),
     (''receive_override_enabled'',
       station_field (ct_receive_override_enabled \<circ> station_ctcss)
         (station_ctcss_update \<circ> ct_receive_override_enabled_update)
         assign_bool),
     (''receive_relax'',
       station_field (ct_receive_relax \<circ> station_ctcss)
         (station_ctcss_update \<circ> ct_receive_relax_update)
         (assign_u8 0 1)),
     (''transmit_default_hz'',
       station_field (ct_transmit_default \<circ> station_ctcss)
         (station_ctcss_update \<circ> ct_transmit_default_update)
         assign_tone),
     (''transmit_peak_dbfs'',
       station_field (ct_transmit_peak_dbfs \<circ> station_ctcss)
         (station_ctcss_update \<circ> ct_transmit_peak_dbfs_update)
         (assign_f64 (f64 (- 90)) (f64 0))),
     (''turnoff_mode'',
       station_field (ct_turnoff_mode \<circ> station_ctcss)
         (station_ctcss_update \<circ> ct_turnoff_mode_update)
         (assign_display ctcss_turnoff_mode_display parse_ctcss_turnoff_mode)),
     (''phase_shift_degrees'',
       station_field (ct_phase_shift_degrees \<circ> station_ctcss)
         (station_ctcss_update \<circ> ct_phase_shift_degrees_update)
         (assign_positive_f64 ''requires a positive finite number of degrees'')),
     (''tail_duration_ms'',
       station_field (ct_tail_duration_ms \<circ> station_ctcss)
         (station_ctcss_update \<circ> ct_tail_duration_ms_update)
         (assign_u16 40 32767)),
     (''tail_frequency_hz'',
       station_field (ct_tail_frequency_hz \<circ> station_ctcss)
         (station_ctcss_update \<circ> ct_tail_frequency_hz_update)
         (assign_positive_f64 ''requires a positive finite frequency''))]"

definition apply_ctcss :: "string \<Rightarrow> station_applier" where
  "apply_ctcss name = apply_from ctcss_table name"

definition dcs_table :: "(string \<times> station_applier) list" where
  "dcs_table =
    [(''receive_code'',
       station_field (dcs_receive_code \<circ> station_dcs)
         (station_dcs_update \<circ> dcs_receive_code_update)
         assign_dcs_code),
     (''transmit_code'',
       station_field (dcs_transmit_code \<circ> station_dcs)
         (station_dcs_update \<circ> dcs_transmit_code_update)
         assign_dcs_code),
     (''turnoff_code_enabled'',
       station_field (dcs_turnoff_code_enabled \<circ> station_dcs)
         (station_dcs_update \<circ> dcs_turnoff_code_enabled_update)
         assign_bool),
     (''turnoff_duration_ms'',
       station_field (dcs_turnoff_duration_ms \<circ> station_dcs)
         (station_dcs_update \<circ> dcs_turnoff_duration_ms_update)
         (assign_u16 150 200)),
     (''peak_dbfs'',
       station_field (dcs_peak_dbfs \<circ> station_dcs)
         (station_dcs_update \<circ> dcs_peak_dbfs_update)
         (assign_f64 (f64 (- 90)) (f64 0)))]"

definition apply_dcs :: "string \<Rightarrow> station_applier" where
  "apply_dcs name = apply_from dcs_table name"

definition duplex_table :: "(string \<times> station_applier) list" where
  "duplex_table =
    [(''duplex_radio_mode'',
       station_field (dx_radio_mode \<circ> station_duplex)
         (station_duplex_update \<circ> dx_radio_mode_update)
         (assign_display radio_duplex_mode_display parse_radio_duplex_mode)),
     (''duplex_local_repeat_level'',
       station_field (dx_local_repeat_level \<circ> station_duplex)
         (station_duplex_update \<circ> dx_local_repeat_level_update)
         (assign_u16 0 999))]"

definition apply_duplex :: "string \<Rightarrow> station_applier" where
  "apply_duplex name = apply_from duplex_table name"

definition diagnostics_table :: "(string \<times> station_applier) list" where
  "diagnostics_table =
    [(''diagnostics_status_publication_interval_ms'',
       station_field (dg_status_publication_interval_ms \<circ> station_diagnostics)
         (station_diagnostics_update \<circ> dg_status_publication_interval_ms_update)
         (assign_u32 1 4294967295))]"

definition apply_diagnostics :: "string \<Rightarrow> station_applier" where
  "apply_diagnostics name = apply_from diagnostics_table name"

definition PROFILE_KINDS :: "(string \<times> (string \<Rightarrow> station_applier)) list" where
  "PROFILE_KINDS =
     [(''asterisk'', apply_asterisk), (''hardware'', apply_hardware), (''receive'', apply_receive),
      (''transmit'', apply_transmit), (''ctcss'', apply_ctcss), (''dcs'', apply_dcs),
      (''duplex'', apply_duplex), (''diagnostics'', apply_diagnostics)]"

section \<open>Overlays\<close>

datatype station_config_error =
    StationDocument config_error
  | StationConflict string string string string string
  | StationAmbiguousProfile string string
  | InvalidResolvedConfiguration station_validation_error

text \<open>\<open>None\<close> for a repeated assignment of the same value, otherwise the extended map.\<close>

definition record_assignment ::
  "btree_map \<Rightarrow> string \<Rightarrow> string \<Rightarrow> string \<Rightarrow> string \<Rightarrow> (station_config_error, btree_map option) result" where
  "record_assignment seen source section_name name value =
     (case btree_get seen name of
        Some previous \<Rightarrow>
          if trim previous \<noteq> trim value
          then Inl (StationConflict source section_name name previous value)
          else Inr None
      | None \<Rightarrow> Inr (Some (btree_insert name value seen)))"

definition SILENTLY_IGNORED_SETTINGS :: "string list" where
  "SILENTLY_IGNORED_SETTINGS = [''duplexmode'', ''duplex_local_repeat_mode'']"

fun station_overlay_from ::
  "(string \<Rightarrow> station_applier) \<Rightarrow> string \<Rightarrow> string \<Rightarrow> btree_map \<Rightarrow> (string \<times> string) list \<Rightarrow>
   station_config \<Rightarrow> warnings \<Rightarrow> (station_config_error, station_config \<times> warnings) result" where
  "station_overlay_from apply source section_name seen [] config ws = Inr (config, ws)"
| "station_overlay_from apply source section_name seen ((raw, value) # rest) config ws =
     (if to_ascii_lowercase (trim raw) \<in> set SILENTLY_IGNORED_SETTINGS
      then station_overlay_from apply source section_name seen rest config ws
      else
        (case record_assignment seen source section_name (to_ascii_lowercase (trim raw)) value of
           Inl error \<Rightarrow> Inl error
         | Inr None \<Rightarrow> station_overlay_from apply source section_name seen rest config ws
         | Inr (Some seen') \<Rightarrow>
             (case apply (to_ascii_lowercase (trim raw))
                     \<lparr>setting_source = source, setting_section = section_name,
                      setting_name = raw, setting_value = value\<rparr> config ws of
                (config', ws') \<Rightarrow>
                  station_overlay_from apply source section_name seen' rest config' ws')))"

definition station_overlay ::
  "station_config \<Rightarrow> (string \<Rightarrow> station_applier) \<Rightarrow> string \<Rightarrow> string \<Rightarrow> btree_map \<Rightarrow> warnings \<Rightarrow>
   (station_config_error, station_config \<times> warnings) result" where
  "station_overlay config apply source section_name values ws =
     station_overlay_from apply source section_name [] values config ws"

text \<open>The loop of \<open>reject_ambiguous_selector\<close>.\<close>

fun station_selector_conflict :: "string \<Rightarrow> string option \<Rightarrow> btree_map \<Rightarrow> bool" where
  "station_selector_conflict selector selected [] = False"
| "station_selector_conflict selector selected ((name, value) # rest) =
     (if \<not> eq_ignore_ascii_case name selector then station_selector_conflict selector selected rest
      else
        (case selected of
           Some previous \<Rightarrow>
             if \<not> eq_ignore_ascii_case (trim previous) (trim value) then True
             else station_selector_conflict selector selected rest
         | None \<Rightarrow> station_selector_conflict selector (Some value) rest))"

definition station_reject_ambiguous ::
  "config_document \<Rightarrow> string \<Rightarrow> string \<Rightarrow> (station_config_error, unit) result" where
  "station_reject_ambiguous doc channel kind =
     (if station_selector_conflict (kind @ ''_profile'') None (explicit_values doc channel)
      then Inl (StationAmbiguousProfile channel (kind @ ''_profile'')) else Inr ())"

section \<open>Speech admission\<close>

definition carrier_gate :: "station_config \<Rightarrow> bool" where
  "carrier_gate config \<longleftrightarrow> rx_cos_assignment (station_receive config) \<notin> {CosDisabled, CosOpen}"

definition tone_gate :: "station_config \<Rightarrow> bool" where
  "tone_gate config \<longleftrightarrow>
     \<not> ct_receive_override_enabled (station_ctcss config) \<and>
     (case rx_signaling_method (station_receive config) of
        SigCarrier \<Rightarrow> False
      | SigCtcss \<Rightarrow> ct_receive_source (station_ctcss config) \<noteq> ToneDisabled
      | SigDcs \<Rightarrow> True)"

text \<open>The last assignment of the kerchunk mode in a section, as section, name and value.\<close>

fun vad_origin :: "string \<Rightarrow> string \<times> string \<times> string \<Rightarrow> btree_map \<Rightarrow> string \<times> string \<times> string" where
  "vad_origin section_name origin [] = origin"
| "vad_origin section_name origin ((name, value) # rest) =
     vad_origin section_name
       (if eq_ignore_ascii_case name ''vad_mode'' \<and> parse_vad_mode (trim value) = Inr VadKerchunk
        then (section_name, name, value) else origin) rest"

definition normalize_vad ::
  "station_config \<Rightarrow> config_document \<Rightarrow> string \<Rightarrow> string \<Rightarrow> warnings \<Rightarrow> station_config \<times> warnings" where
  "normalize_vad config doc source receive_section ws =
     (if rx_vad_mode (station_receive config) = VadOff then (config, ws)
      else
        (let opened =
               (if rx_cos_assignment (station_receive config) = CosDisabled
                then config\<lparr>station_receive := (station_receive config)\<lparr>rx_cos_assignment := CosOpen\<rparr>\<rparr>
                else config)
         in if rx_vad_mode (station_receive config) \<noteq> VadKerchunk \<or> carrier_gate config \<or> tone_gate config
            then (opened, ws)
            else
              (case vad_origin receive_section
                      (vad_origin ''receive'' (''receive'', ''vad_mode'', ''kerchunk'')
                         (explicit_values doc ''receive''))
                      (explicit_values doc receive_section) of
                 (origin_section, origin_name, origin_value) \<Rightarrow>
                   (opened\<lparr>station_receive := (station_receive opened)\<lparr>rx_vad_mode := VadOn\<rparr>\<rparr>,
                    station_invalid ws
                      \<lparr>setting_source = source, setting_section = origin_section,
                       setting_name = origin_name, setting_value = origin_value\<rparr> ''on''
                      ''requires a carrier or tone qualification capable of ending the RF burst''))))"

section \<open>Resolution\<close>

record resolved_station_config =
  rs_channel :: string
  rs_config :: station_config
  rs_warnings :: warnings

text \<open>The loop over the profile kinds; it returns the section selected for \<open>receive\<close> as well.\<close>

fun apply_kinds ::
  "config_document \<Rightarrow> string \<Rightarrow> string \<Rightarrow> (string \<times> (string \<Rightarrow> station_applier)) list \<Rightarrow>
   station_config \<Rightarrow> string \<Rightarrow> warnings \<Rightarrow>
   (station_config_error, station_config \<times> string \<times> warnings) result" where
  "apply_kinds doc source channel [] config receive_section ws = Inr (config, receive_section, ws)"
| "apply_kinds doc source channel ((kind, apply) # rest) config receive_section ws =
     (case resolved_section doc channel kind source ws of
        (Inl error, ws1) \<Rightarrow> Inl (StationDocument error)
      | (Inr selected, ws1) \<Rightarrow>
          res_bind (station_overlay config apply source kind (explicit_values doc kind) ws1)
            (\<lambda>(config2, ws2).
          res_bind
            (if \<not> eq_ignore_ascii_case selected kind
             then station_overlay config2 apply source selected (explicit_values doc selected) ws2
             else Inr (config2, ws2))
            (\<lambda>(config3, ws3).
          apply_kinds doc source channel rest config3
            (if kind = ''receive'' then selected else receive_section) ws3)))"

definition station_from_document_with_defaults ::
  "config_document \<Rightarrow> string \<Rightarrow> string \<Rightarrow> station_config \<Rightarrow>
   (station_config_error, resolved_station_config) result" where
  "station_from_document_with_defaults doc source channel config =
     (case resolved_section doc channel ''general'' source [] of
        (Inl error, ws) \<Rightarrow> Inl (StationDocument error)
      | (Inr _, ws) \<Rightarrow>
          res_bind (first_error (map (\<lambda>(kind, _). station_reject_ambiguous doc channel kind) PROFILE_KINDS))
            (\<lambda>_.
          res_bind (station_overlay config apply_general source ''general'' (explicit_values doc ''general'') ws)
            (\<lambda>(config1, ws1).
          res_bind (station_overlay config1 apply_radio source channel (explicit_values doc channel) ws1)
            (\<lambda>(config2, ws2).
          res_bind (apply_kinds doc source channel PROFILE_KINDS config2 ''receive'' ws2)
            (\<lambda>(config3, receive_section, ws3).
          (case normalize_vad config3 doc source receive_section ws3 of
             (config4, ws4) \<Rightarrow>
               res_bind (map_err InvalidResolvedConfiguration (validate_station config4))
                 (\<lambda>_. Inr \<lparr>rs_channel = channel, rs_config = config4, rs_warnings = ws4\<rparr>)))))))"

definition station_from_document ::
  "config_document \<Rightarrow> string \<Rightarrow> string \<Rightarrow> (station_config_error, resolved_station_config) result" where
  "station_from_document doc source channel =
     station_from_document_with_defaults doc source channel station_default"

end
