(* ===== verification/Station_Safety.thy ===== *)
theory Station_Safety
  imports Station_Resolution Float_Order
begin

text \<open>
  What station resolution guarantees: \<open>station_ok\<close> holds of every accepted configuration, whatever the
  document says, each setting is applied or rejected with one warning, and after the normalisation a
  speech-admission mode always has a gate that ends the burst.
\<close>

section \<open>The contract of a station\<close>

definition between :: "int \<Rightarrow> int \<Rightarrow> int \<Rightarrow> bool" where
  "between lo hi v \<longleftrightarrow> lo \<le> v \<and> v \<le> hi"

definition float_in :: "rust_float \<Rightarrow> rust_float \<Rightarrow> rust_float \<Rightarrow> bool" where
  "float_in lo hi v \<longleftrightarrow> is_finite v \<and> float_le lo v \<and> float_le v hi"

definition float_positive :: "rust_float \<Rightarrow> bool" where
  "float_positive v \<longleftrightarrow> is_finite v \<and> float_lt (f64 0) v"

definition tone_ok :: "ctcss_tone \<Rightarrow> bool" where
  "tone_ok tone \<longleftrightarrow> tenths_hz tone \<in> set CTCSS_TENTHS_HZ"

definition tones_ok :: "ctcss_tone list \<Rightarrow> bool" where
  "tones_ok tones \<longleftrightarrow> tones \<noteq> [] \<and> length tones \<le> 38 \<and> list_all tone_ok tones"

definition dcs_ok :: "dcs_code \<Rightarrow> bool" where
  "dcs_ok code \<longleftrightarrow> between 0 511 (code_value code)"

definition asterisk_ok :: "asterisk_config \<Rightarrow> bool" where
  "asterisk_ok a \<longleftrightarrow>
     between 0 2147483647 (ast_jitter_buffer_max_size_ms a) \<and>
     between 0 2147483647 (ast_jitter_buffer_resync_threshold_ms a) \<and>
     between 0 2147483647 (ast_jitter_buffer_target_extra_ms a)"

definition parallel_port_ok :: "parallel_port_config \<Rightarrow> bool" where
  "parallel_port_ok p \<longleftrightarrow>
     pp_device p \<noteq> [] \<and> between 1 4294967295 (pp_base_address p) \<and>
     length (pp_output_assignments p) = 8 \<and> length (pp_input_assignments p) = 4"

definition hardware_ok :: "hardware_config \<Rightarrow> bool" where
  "hardware_ok h \<longleftrightarrow>
     float_in (f64 (- 30)) (f64 30) (hw_input_gain_db h) \<and>
     float_in (f64 (- 30)) (f64 30) (hw_output_a_gain_db h) \<and>
     float_in (f64 (- 30)) (f64 30) (hw_output_b_gain_db h) \<and>
     between 0 500 (hw_input_extra_buffer_ms h) \<and> between 0 500 (hw_output_extra_buffer_ms h) \<and>
     float_positive (hw_deemphasis_corner_hz h) \<and> float_le (hw_deemphasis_corner_hz h) (f64 500) \<and>
     float_positive (hw_preemphasis_corner_hz h) \<and> float_le (hw_preemphasis_corner_hz h) (f64 500) \<and>
     between 0 2147483647 (hw_voter_reporting h) \<and>
     (case hw_clip_led_gpio h of None \<Rightarrow> True | Some pin \<Rightarrow> between 1 8 pin) \<and>
     length (hw_gpio_modes h) = 8 \<and> parallel_port_ok (hw_parallel_port h)"

definition rx_ok :: "receive_config \<Rightarrow> bool" where
  "rx_ok r \<longleftrightarrow>
     between 0 32767 (rx_vox_hang_ms r) \<and> between 0 32767 (rx_vox_threshold r) \<and>
     between 0 32767 (rx_vad_hang_ms r) \<and> between 0 32767 (rx_noise_squelch_hysteresis r) \<and>
     between 0 1 (rx_noise_filter_type r) \<and> between 0 511 (rx_squelch_delay_ms r) \<and>
     between 0 3000 (rx_on_delay_frames r) \<and> between 0 999 (rx_squelch_level r) \<and>
     between 0 2147483647 (rx_frequency_hz r)"

definition tx_ok :: "transmit_config \<Rightarrow> bool" where
  "tx_ok t \<longleftrightarrow>
     between 0 2147483647 (tx_settle_ms t) \<and> between 0 32767 (tx_rx_blanking_ms t) \<and>
     between 0 3000 (tx_off_delay_frames t) \<and> between 0 2147483647 (tx_frequency_hz t)"

definition ctcss_ok :: "ctcss_config \<Rightarrow> bool" where
  "ctcss_ok c \<longleftrightarrow>
     tones_ok (ct_receive_frequencies c) \<and> tones_ok (ct_transmit_frequencies c) \<and>
     float_in (f64 (- 60)) (f64 60) (ct_receive_decoder_gain_db c) \<and>
     between 0 1 (ct_receive_relax c) \<and> tone_ok (ct_transmit_default c) \<and>
     float_in (f64 (- 90)) (f64 0) (ct_transmit_peak_dbfs c) \<and>
     float_positive (ct_phase_shift_degrees c) \<and> between 40 32767 (ct_tail_duration_ms c) \<and>
     float_positive (ct_tail_frequency_hz c)"

definition dcs_config_ok :: "dcs_config \<Rightarrow> bool" where
  "dcs_config_ok d \<longleftrightarrow>
     dcs_ok (dcs_receive_code d) \<and> dcs_ok (dcs_transmit_code d) \<and>
     between 150 200 (dcs_turnoff_duration_ms d) \<and> float_in (f64 (- 90)) (f64 0) (dcs_peak_dbfs d)"

definition station_ok :: "station_config \<Rightarrow> bool" where
  "station_ok c \<longleftrightarrow>
     asterisk_ok (station_asterisk c) \<and> hardware_ok (station_hardware c) \<and>
     rx_ok (station_receive c) \<and> tx_ok (station_transmit c) \<and> ctcss_ok (station_ctcss c) \<and>
     dcs_config_ok (station_dcs c) \<and> between 0 999 (dx_local_repeat_level (station_duplex c)) \<and>
     between 1 4294967295 (dg_status_publication_interval_ms (station_diagnostics c))"

lemmas station_defs = asterisk_ok_def parallel_port_ok_def hardware_ok_def rx_ok_def tx_ok_def
  ctcss_ok_def dcs_config_ok_def

section \<open>Assigners\<close>

definition good_station_assigner :: "('a \<Rightarrow> bool) \<Rightarrow> 'a station_assigner \<Rightarrow> bool" where
  "good_station_assigner P f \<longleftrightarrow>
     (\<forall>v s ws. tolerant_step (v, ws) (f v s ws) \<and> (fst (f v s ws) = v \<or> P (fst (f v s ws))))"

lemmas assigner_simps = good_station_assigner_def tolerant_step_def station_invalid_def

lemma good_bool: "good_station_assigner (\<lambda>_. True) assign_bool"
  by (auto simp: assigner_simps assign_bool_def)

lemma good_text: "good_station_assigner (\<lambda>_. True) assign_text"
  by (auto simp: assigner_simps assign_text_def)

lemma good_device: "good_station_assigner (\<lambda>v. v \<noteq> []) assign_device"
  by (auto simp: assigner_simps assign_device_def)

lemma parsed_u64_cases:
  "(\<exists>v. parsed_u64 s lo hi fb ws = (Some v, ws) \<and> lo \<le> v \<and> v \<le> hi) \<or>
   (\<exists>w. parsed_u64 s lo hi fb ws = (None, ws @ [w]))"
  by (auto simp: parsed_u64_def station_invalid_def split: option.splits)

lemma good_u8: "0 \<le> lo \<Longrightarrow> hi < 2 ^ 8 \<Longrightarrow> good_station_assigner (between lo hi) (assign_u8 lo hi)"
  unfolding good_station_assigner_def
proof (intro allI)
  fix v s ws assume "0 \<le> lo" "hi < 2 ^ 8"
  then show "tolerant_step (v, ws) (assign_u8 lo hi v s ws) \<and>
      (fst (assign_u8 lo hi v s ws) = v \<or> between lo hi (fst (assign_u8 lo hi v s ws)))"
    using parsed_u64_cases [of s lo hi "dec_digits v" ws]
    by (auto simp: assign_u8_def tolerant_step_def between_def)
qed

lemma good_u16: "0 \<le> lo \<Longrightarrow> hi < 2 ^ 16 \<Longrightarrow> good_station_assigner (between lo hi) (assign_u16 lo hi)"
  unfolding good_station_assigner_def
proof (intro allI)
  fix v s ws assume "0 \<le> lo" "hi < 2 ^ 16"
  then show "tolerant_step (v, ws) (assign_u16 lo hi v s ws) \<and>
      (fst (assign_u16 lo hi v s ws) = v \<or> between lo hi (fst (assign_u16 lo hi v s ws)))"
    using parsed_u64_cases [of s lo hi "dec_digits v" ws]
    by (auto simp: assign_u16_def tolerant_step_def between_def)
qed

lemma good_u32: "0 \<le> lo \<Longrightarrow> hi < 2 ^ 32 \<Longrightarrow> good_station_assigner (between lo hi) (assign_u32 lo hi)"
  unfolding good_station_assigner_def
proof (intro allI)
  fix v s ws assume "0 \<le> lo" "hi < 2 ^ 32"
  then show "tolerant_step (v, ws) (assign_u32 lo hi v s ws) \<and>
      (fst (assign_u32 lo hi v s ws) = v \<or> between lo hi (fst (assign_u32 lo hi v s ws)))"
    using parsed_u64_cases [of s lo hi "dec_digits v" ws]
    by (auto simp: assign_u32_def tolerant_step_def between_def)
qed

lemma good_base_address: "good_station_assigner (between 1 4294967295) assign_base_address"
  unfolding good_station_assigner_def
proof (intro allI)
  fix v s ws
  show "tolerant_step (v, ws) (assign_base_address v s ws) \<and>
      (fst (assign_base_address v s ws) = v \<or> between 1 4294967295 (fst (assign_base_address v s ws)))"
    using parsed_u64_cases [of s 1 4294967295 "''0x'' @ radix_digits 16 v" ws]
    by (auto simp: assign_base_address_def tolerant_step_def between_def)
qed

lemma good_clip_led:
  "good_station_assigner (\<lambda>v. case v of None \<Rightarrow> True | Some pin \<Rightarrow> between 1 8 pin) assign_clip_led"
  unfolding good_station_assigner_def
proof (intro allI)
  fix v s ws
  show "tolerant_step (v, ws) (assign_clip_led v s ws) \<and> (fst (assign_clip_led v s ws) = v \<or>
      (case fst (assign_clip_led v s ws) of None \<Rightarrow> True | Some pin \<Rightarrow> between 1 8 pin))"
    using parsed_u64_cases [of s 0 8 "case v of None \<Rightarrow> ''0'' | Some pin \<Rightarrow> dec_digits pin" ws]
    by (auto simp: assign_clip_led_def tolerant_step_def between_def)
qed

lemma good_f64: "good_station_assigner (float_in lo hi) (assign_f64 lo hi)"
  by (auto simp: assigner_simps assign_f64_def float_in_def split: option.splits)

lemma good_positive: "good_station_assigner float_positive (assign_positive_f64 reason)"
  by (auto simp: assigner_simps assign_positive_f64_def float_positive_def split: option.splits)

lemma good_positive_bounded:
  "good_station_assigner (\<lambda>v. float_positive v \<and> float_le v hi) (assign_positive_bounded_f64 hi)"
  by (auto simp: assigner_simps assign_positive_bounded_f64_def float_positive_def split: option.splits)

lemma good_display: "good_station_assigner (\<lambda>_. True) (assign_display display parse)"
  by (auto simp: assigner_simps assign_display_def split: sum.splits)

lemma good_optional_display: "good_station_assigner (\<lambda>_. True) (assign_optional_display display parse)"
  by (auto simp: assigner_simps assign_optional_display_def split: sum.splits)

lemma tone_from_str_ok: "ctcss_tone_from_str s = Some tone \<Longrightarrow> tone_ok tone"
  by (auto simp: ctcss_tone_from_str_def tone_ok_def find_Some_iff split: option.splits if_splits)

lemma collect_tones_ok:
  "collect_tones es = Some tones \<Longrightarrow> list_all tone_ok tones \<and> length tones = length es"
  by (induction es arbitrary: tones) (auto split: option.splits dest: tone_from_str_ok)

lemma split_on_length: "split_on p s \<noteq> []"
  by (cases s) (auto split: list.splits)

lemma parse_tone_list_ok: "parse_tone_list v = Inr tones \<Longrightarrow> tones_ok tones"
  using split_on_length [of "\<lambda>c. c = CHR '',''" v]
  by (auto simp: parse_tone_list_def tones_ok_def CTCSS_TENTHS_HZ_def split: if_splits option.splits
      dest!: collect_tones_ok)

lemma good_tone_list: "good_station_assigner tones_ok assign_tone_list"
  by (auto simp: assigner_simps assign_tone_list_def split: sum.splits dest: parse_tone_list_ok)

lemma good_tone: "good_station_assigner tone_ok assign_tone"
  by (auto simp: assigner_simps assign_tone_def split: option.splits dest: tone_from_str_ok)

lemma octal_digit: "is_octal c \<Longrightarrow> 0 \<le> digit_value c \<and> digit_value c \<le> 7"
proof -
  assume "is_octal c"
  then have "48 \<le> (of_char c :: nat)" "of_char c \<le> (55 :: nat)"
    by (simp_all add: is_octal_def less_eq_char_def)
  moreover have "int (of_char c) = of_char c" by (rule of_nat_of_char)
  ultimately show ?thesis unfolding digit_value_def by linarith
qed

lemma dcs_from_str_ok: "dcs_code_from_str s = Some code \<Longrightarrow> dcs_ok code"
  by (auto simp: dcs_code_from_str_def dcs_ok_def between_def split: list.splits if_splits
      dest!: octal_digit)

lemma good_dcs_code: "good_station_assigner dcs_ok assign_dcs_code"
  by (auto simp: assigner_simps assign_dcs_code_def split: option.splits dest: dcs_from_str_ok)

section \<open>Appliers\<close>

definition good_station :: "station_applier \<Rightarrow> bool" where
  "good_station f \<longleftrightarrow>
     (\<forall>s c ws. tolerant_step (c, ws) (f s c ws) \<and> (station_ok c \<longrightarrow> station_ok (fst (f s c ws))))"

lemma good_station_field:
  assumes "good_station_assigner P f"
    and "\<And>c. upd (\<lambda>_. get c) c = c"
    and "\<And>c v. station_ok c \<Longrightarrow> P v \<Longrightarrow> station_ok (upd (\<lambda>_. v) c)"
  shows "good_station (station_field get upd f)"
proof -
  have "tolerant_step (c, ws) (station_field get upd f s c ws)"
    and "station_ok c \<Longrightarrow> station_ok (fst (station_field get upd f s c ws))" for s c ws
  proof -
    obtain v ws' where step: "f (get c) s ws = (v, ws')" by (cases "f (get c) s ws")
    then have T: "tolerant_step (get c, ws) (v, ws')" and V: "v = get c \<or> P v"
      using assms(1) unfolding good_station_assigner_def by (metis fst_conv)+
    show "tolerant_step (c, ws) (station_field get upd f s c ws)"
      using T step assms(2) by (auto simp: station_field_def tolerant_step_def)
    show "station_ok c \<Longrightarrow> station_ok (fst (station_field get upd f s c ws))"
      using V step assms(2,3) by (auto simp: station_field_def)
  qed
  then show ?thesis by (simp add: good_station_def)
qed

lemmas good_station_fields =
  good_station_field [OF good_bool] good_station_field [OF good_text] good_station_field [OF good_device]
  good_station_field [OF good_u8, rotated 2] good_station_field [OF good_u16, rotated 2]
  good_station_field [OF good_u32, rotated 2] good_station_field [OF good_base_address]
  good_station_field [OF good_clip_led] good_station_field [OF good_f64]
  good_station_field [OF good_positive] good_station_field [OF good_positive_bounded]
  good_station_field [OF good_display] good_station_field [OF good_optional_display]
  good_station_field [OF good_tone_list] good_station_field [OF good_tone]
  good_station_field [OF good_dcs_code]

abbreviation good_station_table :: "(string \<times> station_applier) list \<Rightarrow> bool" where
  "good_station_table table \<equiv> list_all (\<lambda>(name, f). good_station f) table"

lemmas station_table_defs = list_all_Nil_iff list_all_Cons_iff prod.case

lemma asterisk_station_good: "good_station_table asterisk_table"
  unfolding asterisk_table_def station_table_defs
  by (intro conjI TrueI; rule good_station_fields; simp add: station_ok_def asterisk_ok_def)

lemma hardware_station_good: "good_station_table hardware_table"
  unfolding hardware_table_def station_table_defs
  by (intro conjI TrueI; rule good_station_fields; simp add: station_ok_def hardware_ok_def parallel_port_ok_def)

lemma receive_station_good: "good_station_table receive_table"
  unfolding receive_table_def station_table_defs
  by (intro conjI TrueI; rule good_station_fields; simp add: station_ok_def rx_ok_def)

lemma transmit_station_good: "good_station_table transmit_table"
  unfolding transmit_table_def station_table_defs
  by (intro conjI TrueI; rule good_station_fields; simp add: station_ok_def tx_ok_def)

lemma ctcss_station_good: "good_station_table ctcss_table"
  unfolding ctcss_table_def station_table_defs
  by (intro conjI TrueI; rule good_station_fields; simp add: station_ok_def ctcss_ok_def)

lemma dcs_station_good: "good_station_table dcs_table"
  unfolding dcs_table_def station_table_defs
  by (intro conjI TrueI; rule good_station_fields; simp add: station_ok_def dcs_config_ok_def)

lemma duplex_station_good: "good_station_table duplex_table"
  unfolding duplex_table_def station_table_defs
  by (intro conjI TrueI; rule good_station_fields; simp add: station_ok_def )

lemma diagnostics_station_good: "good_station_table diagnostics_table"
  unfolding diagnostics_table_def station_table_defs
  by (intro conjI TrueI; rule good_station_fields; simp add: station_ok_def )

section \<open>The appliers of the sections\<close>

lemma good_unknown: "good_station (\<lambda>s c ws. (c, station_unknown ws s))"
  by (auto simp: good_station_def station_unknown_def tolerant_step_def)

lemma good_from_table: "good_station_table table \<Longrightarrow> good_station (apply_from table name)"
proof -
  assume table: "good_station_table table"
  have "good_station f" if "map_of table name = Some f" for f
    using table map_of_SomeD [OF that] by (auto simp: list_all_iff)
  then show ?thesis
    using good_unknown by (simp add: good_station_def apply_from_def split: option.split)
qed

lemma position_length: "position x xs = Some i \<Longrightarrow> i < length xs"
  by (induction xs arbitrary: i) (auto split: if_splits)

lemma good_gpio: "good_station (gpio_field i)"
  unfolding gpio_field_def
  by (rule good_station_field [OF good_display]) (auto simp: station_ok_def hardware_ok_def)

lemma good_parallel_output: "good_station (parallel_output_field i)"
  unfolding parallel_output_field_def
  by (rule good_station_field [OF good_optional_display])
     (auto simp: station_ok_def hardware_ok_def parallel_port_ok_def)

lemma good_parallel_input: "good_station (parallel_input_field i)"
  unfolding parallel_input_field_def
  by (rule good_station_field [OF good_optional_display])
     (auto simp: station_ok_def hardware_ok_def parallel_port_ok_def)

lemma good_hardware: "good_station (apply_hardware name)"
proof -
  have table: "map_of hardware_table name = Some f \<Longrightarrow> good_station f" for f
    using hardware_station_good by (auto simp: list_all_iff dest!: map_of_SomeD)
  show ?thesis
    using table good_gpio good_parallel_output good_parallel_input good_unknown
    by (simp add: good_station_def apply_hardware_def split: option.split)
qed

lemma good_channel_enabled:
  "good_station (station_field station_channel_enabled station_channel_enabled_update assign_bool)"
  by (rule good_station_field [OF good_bool]) (simp_all add: station_ok_def)

lemma good_general: "good_station (apply_general name)"
  using good_channel_enabled good_unknown by (simp add: good_station_def apply_general_def)

lemma good_radio: "good_station (apply_radio name)"
  using good_channel_enabled good_unknown
  by (simp add: good_station_def apply_radio_def tolerant_step_silent)

lemma good_kinds: "list_all (\<lambda>(kind, apply). \<forall>name. good_station (apply name)) PROFILE_KINDS"
  by (simp add: PROFILE_KINDS_def apply_asterisk_def apply_receive_def apply_transmit_def apply_ctcss_def
      apply_dcs_def apply_duplex_def apply_diagnostics_def good_hardware good_from_table
      asterisk_station_good receive_station_good transmit_station_good ctcss_station_good
      dcs_station_good duplex_station_good diagnostics_station_good)

text \<open>The applier of a section: its flat kind, \<open>general\<close>, or anything else for the channel section.\<close>

definition applier_of :: "string \<Rightarrow> string \<Rightarrow> station_applier" where
  "applier_of kind =
     (if kind = ''general'' then apply_general
      else (case map_of PROFILE_KINDS kind of Some apply \<Rightarrow> apply | None \<Rightarrow> apply_radio))"

lemma good_applier_of: "good_station (applier_of kind name)"
  using good_kinds good_general good_radio
  by (auto simp: applier_of_def list_all_iff split: option.splits dest!: map_of_SomeD)

text \<open>One setting of a section, under its normalised name.\<close>

definition apply_station :: "string \<times> setting \<Rightarrow> station_config \<Rightarrow> warnings \<Rightarrow> station_config \<times> warnings" where
  "apply_station k c ws =
     (case k of (kind, s) \<Rightarrow> applier_of kind (to_ascii_lowercase (trim (setting_name s))) s c ws)"

interpretation station: setting_applier apply_station station_ok
  using good_applier_of
  by unfold_locales (auto simp: apply_station_def good_station_def split: prod.splits)

section \<open>The loop over an overlay\<close>

definition setting_key :: "setting \<Rightarrow> string" where
  "setting_key s = to_ascii_lowercase (trim (setting_name s))"

definition station_conflict :: "setting \<Rightarrow> string \<Rightarrow> station_config_error" where
  "station_conflict s previous =
     StationConflict (setting_source s) (setting_section s) (setting_key s) previous (setting_value s)"

text \<open>The entries of a section that are not silently ignored, as settings.\<close>

definition section_settings :: "string \<Rightarrow> string \<Rightarrow> btree_map \<Rightarrow> setting list" where
  "section_settings source section_name values =
     map (\<lambda>(raw, value). \<lparr>setting_source = source, setting_section = section_name,
                           setting_name = raw, setting_value = value\<rparr>)
       (filter (\<lambda>(raw, _). to_ascii_lowercase (trim raw) \<notin> set SILENTLY_IGNORED_SETTINGS) values)"

lemma station_overlay_from_loop:
  "station_overlay_from (applier_of kind) source section_name seen entries c ws =
     checked_each setting_key setting_value station_conflict (\<lambda>s. apply_station (kind, s)) seen
       (section_settings source section_name entries) c ws"
  by (induction entries arbitrary: seen c ws)
     (auto simp: section_settings_def setting_key_def station_conflict_def apply_station_def
       record_assignment_def split: option.splits prod.splits)

lemma station_each_pair:
  "apply_each (\<lambda>s. f (k, s)) ss c ws = apply_each f (map (Pair k) ss) c ws"
  by (induction ss arbitrary: c ws) (auto split: prod.splits)

definition effective_station_settings ::
  "string \<Rightarrow> string \<Rightarrow> string \<Rightarrow> btree_map \<Rightarrow> (string \<times> setting) list" where
  "effective_station_settings kind source section_name values =
     map (Pair kind) (first_assignments setting_key {} (section_settings source section_name values))"

lemma station_overlay_consistent:
  "consistent setting_key setting_value (section_settings source section_name values) \<Longrightarrow>
   station_overlay c (applier_of kind) source section_name values ws =
     Inr (apply_each apply_station (effective_station_settings kind source section_name values) c ws)"
  by (simp add: station_overlay_def station_overlay_from_loop checked_each_ok station_each_pair
      effective_station_settings_def)

lemma station_overlay_conflict:
  "\<not> consistent setting_key setting_value (section_settings source section_name values) \<Longrightarrow>
   \<exists>s t. s \<in> set (section_settings source section_name values) \<and>
     t \<in> set (section_settings source section_name values) \<and> setting_key t = setting_key s \<and>
     trim (setting_value t) \<noteq> trim (setting_value s) \<and>
     station_overlay c (applier_of kind) source section_name values ws =
       Inl (station_conflict s (setting_value t))"
  unfolding station_overlay_def station_overlay_from_loop by (rule checked_each_conflict)

lemma section_settings_source: "s \<in> set (section_settings source section_name values) \<Longrightarrow>
   setting_source s = source \<and> setting_section s = section_name"
  by (auto simp: section_settings_def)

lemma station_overlay_inv:
  assumes "station_overlay c (applier_of kind) source section_name values ws = Inr (c', ws')"
    and "station_ok c"
  shows "station_ok c'"
proof (cases "consistent setting_key setting_value (section_settings source section_name values)")
  case True
  then show ?thesis
    using assms station_overlay_consistent [OF True, of c kind ws] station.inv_each
    by (metis fst_conv sum.inject(2))
next
  case False
  then show ?thesis using assms station_overlay_conflict [OF False, of c kind ws] by fastforce
qed

text \<open>The errors that one document can cause.\<close>

fun station_error_ok :: "string \<Rightarrow> string \<Rightarrow> station_config_error \<Rightarrow> bool" where
  "station_error_ok source channel (StationDocument e) = (e = InvalidSectionName \<or> e = MissingChannel channel)"
| "station_error_ok source channel (StationConflict source' _ _ first second) =
     (source' = source \<and> trim first \<noteq> trim second)"
| "station_error_ok source channel (StationAmbiguousProfile channel' selector) =
     (channel' = channel \<and> selector \<in> (\<lambda>(kind, _). kind @ ''_profile'') ` set PROFILE_KINDS)"
| "station_error_ok source channel (InvalidResolvedConfiguration e) =
     (\<exists>c. station_ok c \<and> validate_station c = Inl e)"

lemma station_overlay_error:
  assumes "station_overlay c (applier_of kind) source section_name values ws = Inl e"
  shows "station_error_ok source channel e"
proof (cases "consistent setting_key setting_value (section_settings source section_name values)")
  case True
  then show ?thesis using assms station_overlay_consistent [OF True, of c kind ws] by simp
next
  case False
  then show ?thesis
    using assms station_overlay_conflict [OF False, of c kind ws] section_settings_source
    by (auto simp: station_conflict_def)
qed

section \<open>The loop over the kinds\<close>

lemma kinds_appliers: "list_all (\<lambda>(kind, apply). apply = applier_of kind) PROFILE_KINDS"
  by (simp add: PROFILE_KINDS_def applier_of_def)

lemma general_applier: "apply_general = applier_of ''general''"
  by (simp add: applier_of_def)

lemma radio_applier: "apply_radio = applier_of ''radio''"
  by (simp add: applier_of_def PROFILE_KINDS_def)

lemma apply_kinds_inv:
  "apply_kinds doc source channel ks c rs ws = Inr (c', rs', ws') \<Longrightarrow>
   list_all (\<lambda>(kind, apply). apply = applier_of kind) ks \<Longrightarrow> station_ok c \<Longrightarrow> station_ok c'"
proof (induction doc source channel ks c rs ws rule: apply_kinds.induct)
  case (2 doc source channel kind app rest c rs ws)
  have a: "app = applier_of kind" using "2.prems" by simp
  obtain selected ws1 where sel: "resolved_section doc channel kind source ws = (Inr selected, ws1)"
    using "2.prems"(1) by (auto split: prod.splits sum.splits)
  obtain c2 ws2 where o2: "station_overlay c app source kind (explicit_values doc kind) ws1 = Inr (c2, ws2)"
    using "2.prems"(1) sel by (auto simp: res_simps)
  obtain c3 ws3 where o3: "(if \<not> eq_ignore_ascii_case selected kind
      then station_overlay c2 app source selected (explicit_values doc selected) ws2
      else Inr (c2, ws2)) = Inr (c3, ws3)"
    and rest: "apply_kinds doc source channel rest c3 (if kind = ''receive'' then selected else rs) ws3 =
      Inr (c', rs', ws')"
    using "2.prems"(1) sel o2 by (auto simp: res_simps)
  have "station_ok c2" using station_overlay_inv o2 "2.prems"(3) a by blast
  then have "station_ok c3" using station_overlay_inv o3 a by (auto split: if_splits)
  then show ?case using "2.IH" sel o2 o3 rest "2.prems"(2) by (auto split: if_splits)
qed simp

lemma apply_kinds_error:
  "apply_kinds doc source channel ks c rs ws = Inl e \<Longrightarrow>
   list_all (\<lambda>(kind, apply). apply = applier_of kind) ks \<Longrightarrow> station_error_ok source channel e"
proof (induction doc source channel ks c rs ws rule: apply_kinds.induct)
  case (2 doc source channel kind app rest c rs ws)
  have a: "app = applier_of kind" using "2.prems" by simp
  obtain out ws1 where sel: "resolved_section doc channel kind source ws = (out, ws1)" by fastforce
  show ?case
  proof (cases out)
    case (Inl error)
    then show ?thesis using "2.prems" sel resolved_section_facts(2) [OF sel] by auto
  next
    case (Inr selected)
    let ?second = "\<lambda>c2 ws2. if \<not> eq_ignore_ascii_case selected kind
      then station_overlay c2 app source selected (explicit_values doc selected) ws2
      else Inr (c2, ws2)"
    consider "station_overlay c app source kind (explicit_values doc kind) ws1 = Inl e"
      | c2 ws2 where "?second c2 ws2 = Inl e"
      | c2 ws2 c3 ws3 where "station_overlay c app source kind (explicit_values doc kind) ws1 = Inr (c2, ws2)"
        "?second c2 ws2 = Inr (c3, ws3)"
        "apply_kinds doc source channel rest c3 (if kind = ''receive'' then selected else rs) ws3 = Inl e"
      using "2.prems"(1) sel Inr by (auto simp: res_simps)
    then show ?thesis
    proof cases
      case 1
      then show ?thesis using station_overlay_error a by blast
    next
      case 2
      then show ?thesis using station_overlay_error a by (auto split: if_splits)
    next
      case 3
      then show ?thesis using "2.IH" sel Inr "2.prems"(2) by (auto split: if_splits)
    qed
  qed
qed simp

section \<open>Speech admission\<close>

definition vad_settled :: "station_config \<Rightarrow> bool" where
  "vad_settled c \<longleftrightarrow>
     (rx_vad_mode (station_receive c) \<noteq> VadOff \<longrightarrow> rx_cos_assignment (station_receive c) \<noteq> CosDisabled) \<and>
     (rx_vad_mode (station_receive c) = VadKerchunk \<longrightarrow> carrier_gate c \<or> tone_gate c)"

lemma normalize_vad_settled: "vad_settled (fst (normalize_vad c doc source rs ws))"
  by (auto simp: normalize_vad_def vad_settled_def carrier_gate_def tone_gate_def Let_def
      split: prod.split signaling_method_kind.split)

lemma normalize_vad_ok: "station_ok c \<Longrightarrow> station_ok (fst (normalize_vad c doc source rs ws))"
  by (auto simp: normalize_vad_def station_ok_def rx_ok_def Let_def split: prod.splits)

section \<open>The shipped station\<close>

lemma float_in_literal:
  "lo \<le> q \<Longrightarrow> q \<le> hi \<Longrightarrow> moderate lo \<Longrightarrow> moderate q \<Longrightarrow> moderate hi \<Longrightarrow> float_in (f64 lo) (f64 hi) (f64 q)"
  by (simp add: float_in_def f64_finite f64_le)

lemma float_positive_literal: "numeral n < (2 :: int) ^ 53 \<Longrightarrow> float_positive (f64 (numeral n))"
  using f64_less [of 0 "numeral n"] f64_of_int [of "numeral n"] by (simp add: float_positive_def)

lemma tone_1000: "tone_ok (CtcssTone 1000)"
  by (simp add: tone_ok_def CTCSS_TENTHS_HZ_def)

lemma station_default_ok: "station_ok station_default"
  by (simp add: station_ok_def station_defs station_default_def asterisk_default_def hardware_default_def
      parallel_port_default_def receive_default_def transmit_default_def ctcss_default_def dcs_default_def
      duplex_default_def diagnostics_default_def between_def float_in_literal float_positive_literal
      f64_le moderate_def tones_ok_def tone_1000 dcs_ok_def)

lemma station_default_valid: "validate_station station_default = Inr ()"
  by (simp add: validate_station_def station_default_def receive_default_def transmit_default_def)

section \<open>The whole resolution\<close>

lemma station_resolution_ok:
  assumes "station_from_document_with_defaults doc source channel c = Inr r" "station_ok c"
  shows "rs_channel r = channel \<and> station_ok (rs_config r) \<and> validate_station (rs_config r) = Inr () \<and>
    vad_settled (rs_config r)"
proof -
  obtain s ws c1 ws1 c2 ws2 c3 rs ws3 where
    1: "station_overlay c apply_general source ''general'' (explicit_values doc ''general'') ws = Inr (c1, ws1)"
    and 2: "station_overlay c1 apply_radio source channel (explicit_values doc channel) ws1 = Inr (c2, ws2)"
    and 3: "apply_kinds doc source channel PROFILE_KINDS c2 ''receive'' ws2 = Inr (c3, rs, ws3)"
    and 4: "(case normalize_vad c3 doc source rs ws3 of
             (config4, ws4) \<Rightarrow>
               res_bind (map_err InvalidResolvedConfiguration (validate_station config4))
                 (\<lambda>_. Inr \<lparr>rs_channel = channel, rs_config = config4, rs_warnings = ws4\<rparr>)) = Inr r"
    using assms(1)
    by (auto simp: station_from_document_with_defaults_def res_simps split: prod.splits sum.splits)
  have "station_ok c1" using station_overlay_inv [of c "''general''"] 1 assms(2) general_applier by metis
  then have "station_ok c2" using station_overlay_inv [of c1 "''radio''"] 2 radio_applier by metis
  then have "station_ok c3" using apply_kinds_inv [OF 3 kinds_appliers] by blast
  then show ?thesis
    using 4 normalize_vad_settled [of c3 doc source rs ws3] normalize_vad_ok [of c3 doc source rs ws3]
    by (auto simp: res_simps split: prod.splits)
qed

lemma first_error_mem: "first_error (map f xs) = Inl e \<Longrightarrow> \<exists>x \<in> set xs. f x = Inl e"
  using first_error_in [of "map f xs" e] by auto

lemma station_resolution_error:
  assumes "station_from_document_with_defaults doc source channel c = Inl e" "station_ok c"
  shows "station_error_ok source channel e"
proof -
  obtain out ws where g: "resolved_section doc channel ''general'' source [] = (out, ws)" by fastforce
  show ?thesis
  proof (cases out)
    case (Inl error)
    then show ?thesis
      using assms(1) g resolved_section_facts(2) [OF g] by (auto simp: station_from_document_with_defaults_def)
  next
    case (Inr s)
    let ?reject = "\<lambda>(kind, _). station_reject_ambiguous doc channel kind"
    from assms(1) g Inr consider
        "first_error (map ?reject PROFILE_KINDS) = Inl e"
      | "station_overlay c apply_general source ''general'' (explicit_values doc ''general'') ws = Inl e"
      | c1 ws1 where "station_overlay c1 apply_radio source channel (explicit_values doc channel) ws1 = Inl e"
      | c2 ws2 where "apply_kinds doc source channel PROFILE_KINDS c2 ''receive'' ws2 = Inl e"
      | c1 ws1 c2 ws2 c3 rs ws3 where
        "station_overlay c apply_general source ''general'' (explicit_values doc ''general'') ws = Inr (c1, ws1)"
        "station_overlay c1 apply_radio source channel (explicit_values doc channel) ws1 = Inr (c2, ws2)"
        "apply_kinds doc source channel PROFILE_KINDS c2 ''receive'' ws2 = Inr (c3, rs, ws3)"
        "(case normalize_vad c3 doc source rs ws3 of (c4, ws4) \<Rightarrow>
           res_bind (map_err InvalidResolvedConfiguration (validate_station c4))
             (\<lambda>_. Inr \<lparr>rs_channel = channel, rs_config = c4, rs_warnings = ws4\<rparr>)) = Inl e"
      unfolding station_from_document_with_defaults_def by (auto simp: res_bind_eq_Inl)
    then show ?thesis
    proof cases
      case 1
      from first_error_mem [OF this] show ?thesis
        by (force simp: station_reject_ambiguous_def split: if_splits)
    next
      case 2
      then show ?thesis using station_overlay_error general_applier by metis
    next
      case 3
      then show ?thesis using station_overlay_error radio_applier by metis
    next
      case 4
      then show ?thesis using apply_kinds_error kinds_appliers by blast
    next
      case 5
      have "station_ok c1" using station_overlay_inv [of c "''general''"] 5(1) assms(2) general_applier by metis
      then have "station_ok c2" using station_overlay_inv [of c1 "''radio''"] 5(2) radio_applier by metis
      then have "station_ok c3" using apply_kinds_inv [OF 5(3) kinds_appliers] by blast
      then show ?thesis
        using 5(4) normalize_vad_ok [of c3 doc source rs ws3] by (auto simp: res_simps split: prod.splits)
    qed
  qed
qed

section \<open>Properties\<close>

text \<open>C29: Resolving a station from any document. An accepted configuration belongs to the requested channel,
  has every field within its documented range, passes the cross-field validation, and its speech
  admission is settled: with a mode other than off the carrier source is not disabled, and the kerchunk
  mode has a carrier or tone gate. The only errors are an invalid or missing channel, disagreeing case
  variants, an ambiguous selector, and a violated cross-field condition.\<close>

theorem station_outcomes:
  "case station_from_document doc source channel of
     Inr r \<Rightarrow> rs_channel r = channel \<and> station_ok (rs_config r) \<and>
       validate_station (rs_config r) = Inr () \<and> vad_settled (rs_config r)
   | Inl e \<Rightarrow> station_error_ok source channel e"
  using station_resolution_ok [OF _ station_default_ok] station_resolution_error [OF _ station_default_ok]
  by (simp add: station_from_document_def split: sum.split)

text \<open>The result of the cross-field validation, condition by condition: it accepts exactly the stations
  whose received CTCSS has a source, whose simultaneous tone maps have equal lengths, and whose
  transmitted signaling has an output that carries it.\<close>

theorem validate_station_exact:
  "validate_station c = Inr () \<longleftrightarrow>
     \<not> (rx_signaling_method (station_receive c) = SigCtcss \<and> ct_receive_source (station_ctcss c) = ToneDisabled) \<and>
     \<not> (rx_signaling_method (station_receive c) = SigCtcss \<and>
        tx_signaling_method (station_transmit c) = SigCtcss \<and>
        length (ct_receive_frequencies (station_ctcss c)) \<noteq> length (ct_transmit_frequencies (station_ctcss c))) \<and>
     \<not> (tx_signaling_method (station_transmit c) \<noteq> SigCarrier \<and>
        \<not> carries_signaling (hw_output_a_assignment (station_hardware c)) \<and>
        \<not> carries_signaling (hw_output_b_assignment (station_hardware c)))"
  by (cases "tx_signaling_method (station_transmit c)") (auto simp: validate_station_def)

text \<open>One setting of any section is applied silently, or the configuration stays as it is and exactly one
  warning is appended; and the contract of the station is kept.\<close>

theorem station_setting_tolerant:
  "case applier_of kind name s c ws of (c', ws') \<Rightarrow>
     (ws' = ws \<or> c' = c \<and> (\<exists>w. ws' = ws @ [w])) \<and> (station_ok c \<longrightarrow> station_ok c')"
proof -
  have "tolerant_step (c, ws) (applier_of kind name s c ws) \<and>
      (station_ok c \<longrightarrow> station_ok (fst (applier_of kind name s c ws)))"
    using good_applier_of [of kind name] unfolding good_station_def by blast
  then show ?thesis by (auto simp: tolerant_step_def split: prod.splits)
qed

theorem station_setting_tolerant_witness:
  "station_ok (fst (applier_of ''receive'' ''squelch_level''
     \<lparr>setting_source = ''radio.conf'', setting_section = ''receive'', setting_name = ''squelch_level'',
      setting_value = ''9999''\<rparr> station_default []))"
  using station_setting_tolerant [where kind = "''receive''" and name = "''squelch_level''"
      and c = station_default and ws = "[]"
      and s = "\<lparr>setting_source = ''radio.conf'', setting_section = ''receive'',
        setting_name = ''squelch_level'', setting_value = ''9999''\<rparr>"] station_default_ok
  by (auto split: prod.splits)

text \<open>Applying one section: the silently ignored names are dropped; when the variants of every other name
  agree, each name is applied once, in order, with its first value, and otherwise two disagreeing
  variants of one name are reported.\<close>

theorem station_overlay_outcome:
  "if consistent setting_key setting_value (section_settings source section_name entries)
   then station_overlay c (applier_of kind) source section_name entries ws =
     Inr (apply_each apply_station (effective_station_settings kind source section_name entries) c ws)
   else \<exists>s t. s \<in> set (section_settings source section_name entries) \<and>
     t \<in> set (section_settings source section_name entries) \<and> setting_key t = setting_key s \<and>
     trim (setting_value t) \<noteq> trim (setting_value s) \<and>
     station_overlay c (applier_of kind) source section_name entries ws =
       Inl (StationConflict (setting_source s) (setting_section s) (setting_key s) (setting_value t)
              (setting_value s))"
  using station_overlay_consistent [of source section_name entries c kind ws]
    station_overlay_conflict [of source section_name entries c kind ws]
  by (simp add: station_conflict_def)

text \<open>The normalisation of the speech-admission mode changes two fields at most. A disabled carrier source
  becomes open when a mode is on; the kerchunk mode without a gate becomes on, with exactly one
  warning, and nothing else warns. Afterwards the mode is settled, and a second pass changes nothing.\<close>

theorem normalize_vad_outcome:
  "case normalize_vad c doc source rs ws of (c', ws') \<Rightarrow>
     c'\<lparr>station_receive := (station_receive c')\<lparr>rx_cos_assignment := a, rx_vad_mode := m\<rparr>\<rparr> =
       c\<lparr>station_receive := (station_receive c)\<lparr>rx_cos_assignment := a, rx_vad_mode := m\<rparr>\<rparr> \<and>
     vad_settled c' \<and>
     rx_vad_mode (station_receive c') =
       (if rx_vad_mode (station_receive c) = VadKerchunk \<and> \<not> carrier_gate c \<and> \<not> tone_gate c
        then VadOn else rx_vad_mode (station_receive c)) \<and>
     rx_cos_assignment (station_receive c') =
       (if rx_vad_mode (station_receive c) \<noteq> VadOff \<and> rx_cos_assignment (station_receive c) = CosDisabled
        then CosOpen else rx_cos_assignment (station_receive c)) \<and>
     (if rx_vad_mode (station_receive c') = rx_vad_mode (station_receive c) then ws' = ws
      else \<exists>w. ws' = ws @ [w] \<and> warn_kind w = InvalidValue \<and> warn_fallback w = ''on'' \<and>
             warn_source w = source) \<and>
     normalize_vad c' doc source rs ws' = (c', ws')"
proof (cases "rx_vad_mode (station_receive c) = VadOff")
  case True
  then show ?thesis by (simp add: normalize_vad_def vad_settled_def)
next
  case False
  let ?opened = "if rx_cos_assignment (station_receive c) = CosDisabled
    then c\<lparr>station_receive := (station_receive c)\<lparr>rx_cos_assignment := CosOpen\<rparr>\<rparr> else c"
  show ?thesis
  proof (cases "rx_vad_mode (station_receive c) = VadKerchunk \<and> \<not> carrier_gate c \<and> \<not> tone_gate c")
    case True
    then show ?thesis
      by (auto simp: normalize_vad_def Let_def vad_settled_def station_invalid_def carrier_gate_def
          split: prod.split)
  next
    case kept: False
    then have n: "normalize_vad c doc source rs ws = (?opened, ws)"
      using False by (auto simp: normalize_vad_def Let_def)
    have gates: "tone_gate ?opened = tone_gate c" "carrier_gate ?opened = carrier_gate c"
      by (simp_all add: tone_gate_def carrier_gate_def split: signaling_method_kind.split)
    show ?thesis
      using n gates False kept by (auto simp: vad_settled_def normalize_vad_def Let_def)
  qed
qed

end
