(* ===== verification/Station_Text.thy ===== *)
theory Station_Text
  imports Station_Config Float_Order
begin

text \<open>
  The textual forms of station values: what \<open>Display\<close> writes, the parser of the same option reads
  back. The warnings of the resolver quote these texts as the value in force.
\<close>

section \<open>Enumerations\<close>

text \<open>Every enumeration of the station configuration survives printing and parsing.\<close>

theorem enumerations_roundtrip:
  "list_all (\<lambda>v. parse_jitter_implementation (jitter_buffer_implementation_display v) = Inr v)
     [JitterFixed, JitterAdaptive] \<and>
   list_all (\<lambda>v. parse_hardware_interface (hardware_interface_type_display v) = Inr v)
     [InterfaceDudeUsb, InterfaceSphUsb, InterfaceNhrc, InterfaceCustom] \<and>
   list_all (\<lambda>v. parse_hardware_output (hardware_output_assignment_display v) = Inr v)
     [OutOff, OutVoice, OutCtcss, OutVoiceCtcss, OutAuxiliaryVoice] \<and>
   list_all (\<lambda>v. parse_gpio_mode (gpio_mode_display v) = Inr v) [GpioInput, GpioOutputLow, GpioOutputHigh] \<and>
   list_all (\<lambda>v. parse_parallel_output (parallel_output_assignment_display v) = Inr v)
     [PinLow, PinHigh, PinPushToTalk] \<and>
   list_all (\<lambda>v. parse_parallel_input (parallel_input_assignment_display v) = Inr v)
     [PinInput, PinCarrier, PinCtcss] \<and>
   list_all (\<lambda>v. parse_signaling_method (signaling_method_kind_display v) = Inr v)
     [SigCarrier, SigCtcss, SigDcs] \<and>
   list_all (\<lambda>v. parse_receive_audio_source (receive_audio_source_display v) = Inr v)
     [AudioDisabled, AudioSpeaker, AudioFlat] \<and>
   list_all (\<lambda>v. parse_carrier_source (carrier_source_display v) = Inr v)
     [CosDisabled, CosDsp, CosVox, CosExternal, CosOpen, CosUsb, CosUsbInverted, CosParallel,
      CosParallelInverted] \<and>
   list_all (\<lambda>v. parse_vad_mode (vad_mode_kind_display v) = Inr v) [VadOff, VadKerchunk, VadOn] \<and>
   list_all (\<lambda>v. parse_ctcss_source (ctcss_source_display v) = Inr v)
     [ToneDisabled, ToneUsb, ToneUsbInverted, ToneDsp, ToneParallel, ToneParallelInverted] \<and>
   list_all (\<lambda>v. parse_ctcss_turnoff_mode (ctcss_turnoff_mode_display v) = Inr v)
     [TurnoffNone, TurnoffPhaseShift, TurnoffToneRemove, TurnoffTailTone] \<and>
   list_all (\<lambda>v. parse_radio_duplex_mode (radio_duplex_mode_display v) = Inr v) [DuplexHalf, DuplexFull]"
  by code_simp

section \<open>DCS codes\<close>

lemma dcs_roundtrip_all:
  "list_all (\<lambda>n. list_all (\<lambda>p. dcs_code_from_str (dcs_code_display \<lparr>code_value = n, code_polarity = p\<rparr>) =
       Some \<lparr>code_value = n, code_polarity = p\<rparr>) [DcsNormal, DcsInverted]) [0..511]"
  by code_simp

text \<open>A DCS code of three octal digits survives printing and parsing.\<close>

theorem dcs_code_roundtrip:
  assumes "0 \<le> code_value code" and "code_value code \<le> 511"
  shows "dcs_code_from_str (dcs_code_display code) = Some code"
proof -
  have "code_value code \<in> set [0..511]" using assms by simp
  then show ?thesis
    using dcs_roundtrip_all by (cases code; cases "code_polarity code") (simp_all add: list_all_iff)
qed

theorem dcs_code_roundtrip_witness:
  "dcs_code_from_str (dcs_code_display \<lparr>code_value = 19, code_polarity = DcsInverted\<rparr>) =
     Some \<lparr>code_value = 19, code_polarity = DcsInverted\<rparr>"
  by (rule dcs_code_roundtrip) simp_all

section \<open>Integers\<close>

lemma dec_digits_radix: "0 \<le> n \<Longrightarrow> dec_digits n = radix_digits 10 n"
proof (induction n rule: dec_digits.induct)
  case (1 n)
  show ?case
  proof (cases "n < 10")
    case True
    then show ?thesis
      using 1 by (subst dec_digits.simps, subst radix_digits.simps) (simp add: digit_char_def radix_char_def)
  next
    case False
    then have "dec_digits (n div 10) = radix_digits 10 (n div 10)" using 1 by simp
    then show ?thesis using False
      by (subst dec_digits.simps, subst radix_digits.simps) (simp add: digit_char_def radix_char_def)
  qed
qed

lemma int_byte: "int (byte c) = of_char c"
  by (simp only: byte_def of_nat_of_char)

lemma byte_radix_char:
  assumes "0 \<le> d" "d < 16"
  shows "int (byte (radix_char d)) = (if d < 10 then 48 + d else 87 + d)"
  using digit_cases [OF assms] by (auto simp: int_byte radix_char_def)

lemma radix_char_visible:
  assumes "0 \<le> d" "d < 16" shows "ascii_visible (radix_char d)"
  using byte_radix_char [OF assms] assms unfolding ascii_visible_def by (simp split: if_splits)

lemma radix_char_facts:
  assumes "0 \<le> d" "d < 16"
  shows "radix_char d \<noteq> CHR ''+''" and "radix_char d \<noteq> CHR ''-''"
    and "radix_char d \<noteq> CHR ''x''" and "radix_char d \<noteq> CHR ''X''"
    and "radix_char d = CHR ''0'' \<longleftrightarrow> d = 0"
  using digit_cases [OF assms] by (auto simp: radix_char_def char_of_eq_iff)

lemma radix_digits_facts:
  assumes "2 \<le> radix" "radix \<le> 16" "0 \<le> n"
  shows "list_all ascii_visible (radix_digits radix n) \<and>
    hd (radix_digits radix n) \<notin> {CHR ''+'', CHR ''-'', CHR ''x'', CHR ''X''} \<and>
    (0 < n \<longrightarrow> hd (radix_digits radix n) \<noteq> CHR ''0'') \<and> (n = 0 \<longrightarrow> radix_digits radix n = ''0'')"
  using assms
proof (induction radix n rule: radix_digits.induct)
  case (1 radix n)
  show ?case
  proof (cases "n < radix")
    case True
    then have "radix_digits radix n = [radix_char n]" by (subst radix_digits.simps) simp
    then show ?thesis
      using True "1.prems" radix_char_facts [of n] radix_char_visible [of n] by (cases "n = 0") auto
  next
    case False
    have m: "0 \<le> n mod radix" "n mod radix < 16" using "1.prems" False
      by (auto intro: less_le_trans [of _ radix])
    have q: "0 < n div radix" using "1.prems" False by (simp add: pos_imp_zdiv_pos_iff)
    have IH: "list_all ascii_visible (radix_digits radix (n div radix)) \<and>
        hd (radix_digits radix (n div radix)) \<notin> {CHR ''+'', CHR ''-'', CHR ''x'', CHR ''X''} \<and>
        hd (radix_digits radix (n div radix)) \<noteq> CHR ''0''"
      using 1 False q by auto
    have step: "radix_digits radix n = radix_digits radix (n div radix) @ [radix_char (n mod radix)]"
      using False "1.prems" by (subst radix_digits.simps) simp
    show ?thesis unfolding step using IH radix_char_visible [OF m] False "1.prems" by simp
  qed
qed

lemma starts_with_Cons: "starts_with (c # p) (d # s) \<longleftrightarrow> c = d \<and> starts_with p s"
  by (auto simp: starts_with_def)

lemma starts_with_Nil: "\<not> starts_with (c # p) []" "starts_with [] s"
  by (auto simp: starts_with_def)

lemmas prefix_simps = strip_prefix_def starts_with_Cons starts_with_Nil

lemma parse_c_unsigned_visible:
  assumes "list_all ascii_visible s" "s \<noteq> []" "hd s \<notin> {CHR ''+'', CHR ''-''}"
  shows "parse_c_unsigned s = parse_c_magnitude s"
  using assms trim_visible [OF assms(1)] by (cases s) (auto simp: parse_c_unsigned_def prefix_simps)

text \<open>An unsigned number survives printing and parsing in each of the three C notations, up to the limit of
  \<open>u64\<close>: decimal, hexadecimal with \<open>0x\<close>, and octal with a leading zero.\<close>

theorem unsigned_roundtrip:
  assumes "0 \<le> n" and "n \<le> u64_max"
  shows "parse_c_unsigned (dec_digits n) = Some n \<and>
    parse_c_unsigned (''0x'' @ radix_digits 16 n) = Some n \<and>
    parse_c_unsigned (''0'' @ radix_digits 8 n) = Some n"
proof (intro conjI)
  obtain c cs where d: "radix_digits 10 n = c # cs" by (cases "radix_digits 10 n") auto
  have f: "list_all ascii_visible (c # cs)" "c \<notin> {CHR ''+'', CHR ''-'', CHR ''x'', CHR ''X''}"
    "0 < n \<longrightarrow> c \<noteq> CHR ''0''" "n = 0 \<longrightarrow> c # cs = ''0''"
    using radix_digits_facts [of 10 n] assms(1) d by auto
  have "parse_c_magnitude (c # cs) = from_str_radix 10 u64_max (c # cs)"
    using f assms(1) by (cases "n = 0") (auto simp: parse_c_magnitude_def prefix_simps)
  then show "parse_c_unsigned (dec_digits n) = Some n"
    using radix_roundtrip [of 10 n u64_max] assms f d parse_c_unsigned_visible [of "c # cs"]
    by (simp add: dec_digits_radix)
next
  have "list_all ascii_visible (radix_digits 16 n)"
    using radix_digits_facts [of 16 n] assms(1) by simp
  moreover have "parse_c_magnitude (''0x'' @ radix_digits 16 n) = from_str_radix 16 u64_max (radix_digits 16 n)"
    by (simp add: parse_c_magnitude_def prefix_simps)
  ultimately show "parse_c_unsigned (''0x'' @ radix_digits 16 n) = Some n"
    using radix_roundtrip [of 16 n u64_max] assms parse_c_unsigned_visible [of "''0x'' @ radix_digits 16 n"]
    by (simp add: ascii_visible_def byte_def)
next
  obtain c cs where d: "radix_digits 8 n = c # cs" by (cases "radix_digits 8 n") auto
  have f: "list_all ascii_visible (c # cs)" "c \<notin> {CHR ''+'', CHR ''-'', CHR ''x'', CHR ''X''}"
    using radix_digits_facts [of 8 n] assms(1) d by auto
  have "parse_c_magnitude (''0'' @ c # cs) = from_str_radix 8 u64_max (c # cs)"
    using f by (auto simp: parse_c_magnitude_def prefix_simps)
  then show "parse_c_unsigned (''0'' @ radix_digits 8 n) = Some n"
    using radix_roundtrip [of 8 n u64_max] assms f d parse_c_unsigned_visible [of "''0'' @ c # cs"]
    by (simp add: ascii_visible_def byte_def)
qed

theorem unsigned_roundtrip_witness:
  "parse_c_unsigned (dec_digits 888) = Some 888 \<and>
   parse_c_unsigned (''0x'' @ radix_digits 16 888) = Some 888 \<and>
   parse_c_unsigned (''0'' @ radix_digits 8 888) = Some 888"
  by (rule unsigned_roundtrip) (simp_all add: u64_max_def)

section \<open>CTCSS tones\<close>

lemma tone_text_all:
  "list_all (\<lambda>t. parse_decimal (ctcss_tone_display (CtcssTone t)) = Some (of_int t / 10) \<and>
       trim (ctcss_tone_display (CtcssTone t)) = ctcss_tone_display (CtcssTone t) \<and>
       \<not> starts_with ''-'' (ctcss_tone_display (CtcssTone t)) \<and>
       \<not> starts_with ''+'' (ctcss_tone_display (CtcssTone t)) \<and> 0 < t \<and> t < 2560)
     CTCSS_TENTHS_HZ"
  by code_simp

lemma parse_float_unsigned:
  "parse_decimal s = Some q \<Longrightarrow> \<not> starts_with ''-'' s \<Longrightarrow> \<not> starts_with ''+'' s \<Longrightarrow>
   parse_float fmt s = Some (float_of fmt False q)"
  by (cases s) (auto simp: parse_float_def starts_with_Cons starts_with_Nil)

lemma tenths_bounds:
  assumes "0 < t" "t < 2560"
  shows "tenths_as_hz t = FFin False (rounded f32_format (of_int t / 10))"
    and "\<bar>rounded f32_format (of_int t / 10) - of_int t / 10\<bar> \<le> 1 / 2 ^ 17"
proof -
  let ?q = "of_int t / 10 :: rat"
  have pos: "0 < ?q" using assms(1) by simp
  have "rat_of_int t < of_int 2560" using assms(2) by (simp only: of_int_less_iff)
  then have "?q < pow2 8" by (simp add: pow2_def)
  then have l: "ilog2 ?q < 8" using ilog2_less pos by blast
  then have e: "unit_exponent f32_format ?q \<le> - 16" by (simp add: unit_exponent_def f32_format_def)
  have "\<bar>rounded f32_format ?q - ?q\<bar> \<le> pow2 (unit_exponent f32_format ?q) / 2"
    by (rule rounded_error [OF pos])
  also have "\<dots> \<le> pow2 (- 16) / 2" using e by simp
  finally show "\<bar>rounded f32_format ?q - ?q\<bar> \<le> 1 / 2 ^ 17" by (simp add: pow2_def)
  have "rounded f32_format ?q \<le> pow2 8"
    using rounded_le_pow2 [of ?q 8 f32_format] pos \<open>?q < pow2 8\<close> e by simp
  then have "rounded f32_format ?q < pow2 128" using pow2_less_iff [of 8 128] by linarith
  then show "tenths_as_hz t = FFin False (rounded f32_format ?q)"
    using round_magnitude_rounded [OF pos, of f32_format]
    by (simp add: tenths_as_hz_def float_of_def f32_format_def)
qed

lemma tenths_injective:
  assumes "0 < s" "s < 2560" "0 < t" "t < 2560" "tenths_as_hz s = tenths_as_hz t"
  shows "s = t"
proof -
  define r where "r = rounded f32_format (of_int s / 10)"
  have r: "rounded f32_format (of_int t / 10) = r"
    using tenths_bounds(1) [OF assms(1,2)] tenths_bounds(1) [OF assms(3,4)] assms(5) by (simp add: r_def)
  have "\<bar>r - of_int s / 10\<bar> \<le> 1 / 131072" "\<bar>r - of_int t / 10\<bar> \<le> 1 / 131072"
    using tenths_bounds(2) [OF assms(1,2)] tenths_bounds(2) [OF assms(3,4)] unfolding r r_def [symmetric]
    by simp_all
  then have "\<bar>of_int s / 10 - of_int t / 10 :: rat\<bar> \<le> 1 / 65536" by linarith
  then have "rat_of_int s < rat_of_int (t + 1)" "rat_of_int t < rat_of_int (s + 1)"
    by (simp_all add: abs_if field_simps split: if_splits)
  then show ?thesis by (simp only: of_int_less_iff)
qed

lemma find_in_list:
  assumes "x \<in> set xs" "\<And>y. y \<in> set xs \<Longrightarrow> P y \<Longrightarrow> y = x" "P x"
  shows "find P xs = Some x"
proof (cases "find P xs")
  case None
  then show ?thesis using assms by (simp add: find_None_iff)
next
  case (Some y)
  then have "y \<in> set xs \<and> P y" by (auto simp: find_Some_iff)
  then show ?thesis using Some assms(2) by blast
qed

lemma position_found: "x \<in> set xs \<Longrightarrow> \<exists>i. position x xs = Some i \<and> i < length xs \<and> xs ! i = x"
proof (induction xs)
  case (Cons y ys)
  show ?case
  proof (cases "y = x")
    case False
    with Cons obtain i where "position x ys = Some i" "i < length ys" "ys ! i = x" by auto
    then show ?thesis using False by (intro exI [of _ "Suc i"]) simp
  qed simp
qed simp

lemma table_size: "length CTCSS_TENTHS_HZ = 38"
  by (simp add: CTCSS_TENTHS_HZ_def)

text \<open>Every supported CTCSS tone survives printing and parsing, although the parser compares
  single-precision bit patterns, and it has an index in the decoder table, so \<open>table_index\<close> never
  panics on it.\<close>

theorem ctcss_tone_roundtrip:
  "list_all (\<lambda>tone. ctcss_tone_from_str (ctcss_tone_display tone) = Some tone \<and>
     (\<exists>i. table_index tone = Some i \<and> i < 38 \<and> CTCSS_TENTHS_HZ ! i = tenths_hz tone)) supported_tones"
  unfolding list_all_iff
proof (intro ballI conjI)
  fix tone assume "tone \<in> set supported_tones"
  then obtain t where t: "tone = CtcssTone t" "t \<in> set CTCSS_TENTHS_HZ" by (auto simp: supported_tones_def)
  have facts: "parse_decimal (ctcss_tone_display (CtcssTone u)) = Some (of_int u / 10) \<and>
       trim (ctcss_tone_display (CtcssTone u)) = ctcss_tone_display (CtcssTone u) \<and>
       \<not> starts_with ''-'' (ctcss_tone_display (CtcssTone u)) \<and>
       \<not> starts_with ''+'' (ctcss_tone_display (CtcssTone u)) \<and> 0 < u \<and> u < 2560"
    if "u \<in> set CTCSS_TENTHS_HZ" for u
    using tone_text_all that unfolding list_all_iff by blast
  have "find (\<lambda>u. tenths_as_hz t = tenths_as_hz u) CTCSS_TENTHS_HZ = Some t"
  proof (rule find_in_list [OF t(2)])
    fix u assume "u \<in> set CTCSS_TENTHS_HZ" "tenths_as_hz t = tenths_as_hz u"
    then show "u = t" using tenths_injective [of t u] facts [of u] facts [OF t(2)] by simp
  qed simp
  moreover have "parse_float f32_format (trim (ctcss_tone_display tone)) = Some (tenths_as_hz t)"
    using parse_float_unsigned facts [OF t(2)] t(1) by (simp add: tenths_as_hz_def)
  moreover have "is_finite (tenths_as_hz t)" using tenths_bounds(1) facts [OF t(2)] by simp
  ultimately show "ctcss_tone_from_str (ctcss_tone_display tone) = Some tone"
    using t(1) by (simp add: ctcss_tone_from_str_def)
  show "\<exists>i. table_index tone = Some i \<and> i < 38 \<and> CTCSS_TENTHS_HZ ! i = tenths_hz tone"
    using position_found [OF t(2)] t(1) table_size by (simp add: table_index_def)
qed

end
