(* ===== verification/Channel_Configuration.thy ===== *)
theory Channel_Configuration
  imports Profile_Safety Station_Safety
begin

text \<open>
  One complete named channel, \<^verbatim>\<open>rust/core/src/channel_configuration.rs\<close>: the station is resolved first, then
  the local, link and voice/telemetry chains, and the warnings are put one after another in that order.
\<close>

section \<open>The resolver\<close>

datatype channel_configuration_error =
  StationFailure station_config_error | ProcessingFailure profile_resolution_error

record channel_configuration =
  cc_station :: station_config
  cc_local :: processing_chain
  cc_link :: processing_chain
  cc_voice_telemetry :: processing_chain

record resolved_channel_configuration =
  rch_channel :: string
  rch_config :: channel_configuration
  rch_warnings :: warnings

definition channel_from_document_with_defaults ::
  "config_document \<Rightarrow> string \<Rightarrow> string \<Rightarrow> station_config \<Rightarrow> processing_chain \<Rightarrow>
   (channel_configuration_error, resolved_channel_configuration) result" where
  "channel_from_document_with_defaults doc source channel defaults local_defaults =
     res_bind (map_err StationFailure (station_from_document_with_defaults doc source channel defaults)) (\<lambda>station.
     res_bind (map_err ProcessingFailure
       (from_document_with_defaults doc source channel LocalReceive local_defaults)) (\<lambda>local.
     res_bind (map_err ProcessingFailure (from_document doc source channel Link)) (\<lambda>link.
     res_bind (map_err ProcessingFailure (from_document doc source channel VoiceTelemetry)) (\<lambda>voice_telemetry.
       Inr \<lparr>rch_channel = channel,
            rch_config = \<lparr>cc_station = rs_config station, cc_local = rp_chain local, cc_link = rp_chain link,
                          cc_voice_telemetry = rp_chain voice_telemetry\<rparr>,
            rch_warnings = rs_warnings station @ rp_warnings local @ rp_warnings link @
                           rp_warnings voice_telemetry\<rparr>))))"

definition channel_from_document ::
  "config_document \<Rightarrow> string \<Rightarrow> string \<Rightarrow> (channel_configuration_error, resolved_channel_configuration) result" where
  "channel_from_document doc source channel =
     channel_from_document_with_defaults doc source channel station_default (shipped LocalReceive)"

section \<open>Lemmas\<close>

lemma profile_document_ok:
  assumes "chain_inv r c" "from_document_with_defaults doc source channel r c = Inr p"
  shows "safe_chain r (rp_chain p)"
  using assms(2) resolve_with_defaults_ok [OF assms(1)]
  by (auto simp: from_document_with_defaults_def res_simps split: prod.splits sum.splits if_splits)

text \<open>The processing errors of a document: none speaks of an overlay that the resolver built itself.\<close>

definition profile_error_ok :: "string \<Rightarrow> chain_role \<Rightarrow> profile_resolution_error \<Rightarrow> bool" where
  "profile_error_ok channel r e \<longleftrightarrow>
     (case e of
        RoleMismatch _ _ _ \<Rightarrow> False
      | LayerMismatch _ _ _ \<Rightarrow> False
      | ProfileConflict _ _ _ first second \<Rightarrow> trim first \<noteq> trim second
      | AmbiguousProfile ch selector \<Rightarrow> ch = channel \<and> selector = role_section r @ ''_profile''
      | ProfileDocument d \<Rightarrow> d = InvalidSectionName \<or> d = MissingChannel channel
      | InvalidResolvedProfile d \<Rightarrow> cross_field_error d)"

lemma profile_document_error:
  assumes "chain_inv r c" "from_document_with_defaults doc source channel r c = Inl e"
  shows "profile_error_ok channel r e"
proof -
  obtain out ws where lookup: "resolved_section doc channel (role_section r) source [] = (out, ws)"
    by fastforce
  let ?flat = "overlay_flat r source (explicit_values doc (role_section r))"
  let ?scoped = "\<lambda>s. if \<not> eq_ignore_ascii_case s (role_section r)
    then Some (overlay_scoped r source s (explicit_values doc s)) else None"
  consider "reject_ambiguous_selector doc channel (role_section r) = Inl e"
    | error where "out = Inl error" "e = ProfileDocument error"
    | selected where "resolve_with_defaults r ?flat (?scoped selected) c = Inl e"
    using assms(2) lookup
    by (cases out) (auto simp: from_document_with_defaults_def res_simps)
  then show ?thesis
  proof cases
    case 1
    then show ?thesis by (auto simp: reject_ambiguous_selector_def profile_error_ok_def split: if_splits)
  next
    case 2
    then show ?thesis using resolved_section_facts(2) [OF lookup] by (simp add: profile_error_ok_def)
  next
    case 3
    from resolve_with_defaults_error [OF assms(1) this] show ?thesis
      by (auto simp: require_own_overlays conflict_in_def profile_error_ok_def split: if_splits)
  qed
qed

definition channel_ok :: "channel_configuration \<Rightarrow> bool" where
  "channel_ok c \<longleftrightarrow>
     station_ok (cc_station c) \<and> validate_station (cc_station c) = Inr () \<and> vad_settled (cc_station c) \<and>
     safe_chain LocalReceive (cc_local c) \<and> safe_chain Link (cc_link c) \<and>
     safe_chain VoiceTelemetry (cc_voice_telemetry c)"

definition channel_error_ok :: "string \<Rightarrow> string \<Rightarrow> channel_configuration_error \<Rightarrow> bool" where
  "channel_error_ok source channel e \<longleftrightarrow>
     (case e of
        StationFailure d \<Rightarrow> station_error_ok source channel d
      | ProcessingFailure d \<Rightarrow> list_ex (\<lambda>r. profile_error_ok channel r d) [LocalReceive, Link, VoiceTelemetry])"

lemma channel_with_defaults_outcome:
  assumes "station_ok defaults" "chain_inv LocalReceive local_defaults"
  shows "case channel_from_document_with_defaults doc source channel defaults local_defaults of
     Inr r \<Rightarrow> rch_channel r = channel \<and> channel_ok (rch_config r)
   | Inl e \<Rightarrow> channel_error_ok source channel e"
proof (cases "channel_from_document_with_defaults doc source channel defaults local_defaults")
  case (Inl e)
  have "channel_error_ok source channel e"
    using Inl station_resolution_error [OF _ assms(1)] profile_document_error [OF assms(2)]
      profile_document_error [OF shipped_contract]
    by (auto simp: channel_from_document_with_defaults_def from_document_def channel_error_ok_def
        res_simps)
  then show ?thesis using Inl by simp
next
  case (Inr r)
  then show ?thesis
    using station_resolution_ok [OF _ assms(1)] profile_document_ok [OF assms(2)]
      profile_document_ok [OF shipped_contract]
    by (auto simp: channel_from_document_with_defaults_def from_document_def channel_ok_def
        res_simps)
qed

section \<open>The property\<close>

text \<open>C33: Resolving one complete channel from any document: an accepted channel has a station within its ranges,
  cross-field valid, with its speech admission settled, and three safe chains of their own roles; its
  warnings are those of the station, the local, the link and the voice/telemetry resolution, in that order.
  Every error is a station error or a processing error of one of the three roles, and none blames an
  overlay that the resolver built itself.
\<close>

theorem channel_outcomes:
  "case channel_from_document doc source channel of
     Inr r \<Rightarrow> rch_channel r = channel \<and> channel_ok (rch_config r) \<and>
       (\<exists>station local link voice.
          station_from_document doc source channel = Inr station \<and>
          from_document doc source channel LocalReceive = Inr local \<and>
          from_document doc source channel Link = Inr link \<and>
          from_document doc source channel VoiceTelemetry = Inr voice \<and>
          rch_warnings r = rs_warnings station @ rp_warnings local @ rp_warnings link @ rp_warnings voice)
   | Inl e \<Rightarrow> channel_error_ok source channel e"
proof (cases "channel_from_document doc source channel")
  case (Inl e)
  then show ?thesis
    using channel_with_defaults_outcome [OF station_default_ok shipped_contract,
        where doc = doc and source = source and channel = channel]
    by (simp add: channel_from_document_def)
next
  case (Inr r)
  then have "rch_channel r = channel \<and> channel_ok (rch_config r)"
    using channel_with_defaults_outcome [OF station_default_ok shipped_contract,
        where doc = doc and source = source and channel = channel]
    by (simp add: channel_from_document_def)
  then show ?thesis
    using Inr by (cases r) (auto simp: channel_from_document_def channel_from_document_with_defaults_def
        station_from_document_def from_document_def res_simps)
qed

end
