(* ===== verification/Radio_Control.thy ===== *)
theory Radio_Control
  imports Prelude
begin

text \<open>
  The host-neutral radio requests of \<^verbatim>\<open>rust/core/src/radio_control.rs\<close>, the pointer-free remote
  operations of \<^verbatim>\<open>rust/core/src/remote_operation.rs\<close>, and the fixed-rate stream contract of
  \<^verbatim>\<open>rust/core/src/native_stream.rs\<close>. Machine integers are \<open>int\<close>s in the range of their type; the
  constructors that validate return \<open>None\<close> or an error as the code does.
\<close>

section \<open>Radio requests\<close>

datatype request_tone = RequestTone (tenths_hz_of: int)

definition request_tone_from_tenths :: "int \<Rightarrow> request_tone option" where
  "request_tone_from_tenths tenths =
     (if 500 \<le> tenths \<and> tenths \<le> 3000 then Some (RequestTone tenths) else None)"

datatype gpio_pin = GpioPin (gpio_number: int)

definition gpio_pin_new :: "int \<Rightarrow> gpio_pin option" where
  "gpio_pin_new pin = (if 1 \<le> pin \<and> pin \<le> 8 then Some (GpioPin pin) else None)"

datatype parallel_pin = ParallelPin (parallel_number: int)

definition parallel_pin_new :: "int \<Rightarrow> parallel_pin option" where
  "parallel_pin_new pin = (if 2 \<le> pin \<and> pin \<le> 9 then Some (ParallelPin pin) else None)"

datatype output_request = OutputInactive | OutputActive | OutputPulse int

record remote_radio =
  radio_receive_hz :: int
  radio_transmit_hz :: int
  radio_receive_ctcss :: "request_tone option"
  radio_transmit_ctcss :: "request_tone option"
  radio_high_power :: bool

datatype parallel_radio_request = RequestChannel int | RequestConfigure remote_radio

section \<open>Remote operations\<close>

datatype remote_operation_kind =
    Recall | Frequency | Tone | ToneEnabled | PowerPreset | Status | Mode | Step | ScanPreset | Tune
  | GetSetting | SetSetting | StartScan | PauseScan | ResumeScan | StopScan | ScanDirection | Skip
  | Memory | Catalog | ScanStatus | Inhibit | Dwell | ResumeDelay | Priority | CurrentStatus | Invoke

fun kind_number :: "remote_operation_kind \<Rightarrow> int" where
  "kind_number Recall = 1"
| "kind_number Frequency = 2"
| "kind_number Tone = 3"
| "kind_number ToneEnabled = 4"
| "kind_number PowerPreset = 5"
| "kind_number Status = 6"
| "kind_number Mode = 7"
| "kind_number Step = 8"
| "kind_number ScanPreset = 9"
| "kind_number Tune = 10"
| "kind_number GetSetting = 11"
| "kind_number SetSetting = 12"
| "kind_number StartScan = 13"
| "kind_number PauseScan = 14"
| "kind_number ResumeScan = 15"
| "kind_number StopScan = 16"
| "kind_number ScanDirection = 17"
| "kind_number Skip = 18"
| "kind_number Memory = 19"
| "kind_number Catalog = 20"
| "kind_number ScanStatus = 21"
| "kind_number Inhibit = 22"
| "kind_number Dwell = 23"
| "kind_number ResumeDelay = 24"
| "kind_number Priority = 25"
| "kind_number CurrentStatus = 26"
| "kind_number Invoke = 27"

definition from_selector :: "int \<Rightarrow> remote_operation_kind option" where
  "from_selector n =
     map_of
       [(1, Recall), (2, Frequency), (3, Tone), (4, ToneEnabled), (5, PowerPreset), (6, Status),
        (7, Mode), (8, Step), (9, ScanPreset), (10, Tune), (11, GetSetting), (12, SetSetting),
        (13, StartScan), (14, PauseScan), (15, ResumeScan), (16, StopScan), (17, ScanDirection),
        (18, Skip), (19, Memory), (20, Catalog), (21, ScanStatus), (22, Inhibit), (23, Dwell),
        (24, ResumeDelay), (25, Priority), (26, CurrentStatus), (27, Invoke)] n"

record remote_operation =
  struct_size :: int
  abi_version :: int
  operation :: int
  selector :: int
  signed_value :: int
  magnitude :: int
  decimal_places :: int
  flags :: int

text \<open>\<open>size_of\<close> of the \<open>repr(C)\<close> record: four \<open>u32\<close>, an \<open>i64\<close>, a \<open>u64\<close> and two \<open>u32\<close>.\<close>

definition REMOTE_OPERATION_SIZE :: int where
  "REMOTE_OPERATION_SIZE = 4 * 4 + 8 + 8 + 2 * 4"

definition remote_operation_new :: "remote_operation_kind \<Rightarrow> remote_operation" where
  "remote_operation_new kind =
     \<lparr>struct_size = REMOTE_OPERATION_SIZE, abi_version = 1, operation = kind_number kind, selector = 0,
      signed_value = 0, magnitude = 0, decimal_places = 0, flags = 0\<rparr>"

definition operation_kind :: "remote_operation \<Rightarrow> remote_operation_kind option" where
  "operation_kind op =
     (if struct_size op \<noteq> REMOTE_OPERATION_SIZE \<or> abi_version op \<noteq> 1 then None
      else from_selector (operation op))"

definition urgent :: "remote_operation \<Rightarrow> bool" where
  "urgent op \<longleftrightarrow>
     operation_kind op = Some StopScan \<or> operation_kind op = Some Inhibit \<and> flags op = 1"

section \<open>Native streams\<close>

definition NATIVE_SAMPLE_RATE_HZ :: int where
  "NATIVE_SAMPLE_RATE_HZ = 48000"

datatype stream_spec_error = UnsupportedSampleRate | EmptyMaximumFrameCount

record native_stream_spec =
  maximum_frame_count :: int

definition native_stream_spec_new :: "int \<Rightarrow> int \<Rightarrow> (stream_spec_error, native_stream_spec) result" where
  "native_stream_spec_new rate frames =
     (if rate \<noteq> NATIVE_SAMPLE_RATE_HZ then Inl UnsupportedSampleRate
      else if frames = 0 then Inl EmptyMaximumFrameCount
      else Inr \<lparr>maximum_frame_count = frames\<rparr>)"

section \<open>Facts\<close>

lemma kind_roundtrip: "from_selector (kind_number k) = Some k"
  by (cases k) (simp_all add: from_selector_def)

lemma from_selector_number: "from_selector n = Some k \<Longrightarrow> kind_number k = n"
  unfolding from_selector_def by (drule map_of_SomeD) auto

lemma from_selector_iff: "from_selector n = Some k \<longleftrightarrow> n = kind_number k"
  using kind_roundtrip from_selector_number by blast

lemma new_kind: "operation_kind (remote_operation_new k) = Some k"
  by (simp add: operation_kind_def remote_operation_new_def kind_roundtrip)

lemma urgent_new: "urgent (remote_operation_new k) \<longleftrightarrow> k = StopScan"
  by (simp add: urgent_def new_kind) (simp add: remote_operation_new_def)

end
