(* ===== verification/Remote_Configuration.thy ===== *)
theory Remote_Configuration
  imports Config_Document Station_Config Number_Text Radio_Control
begin

text \<open>
  The remote-base resolver, \<^verbatim>\<open>rust/core/src/remote_configuration.rs\<close>: two overlay layers of base
  settings, the memories and the scan lists of one node, and the checks that make an enabled
  configuration complete. The order of the checks is the order of the code, so that the reported key is
  the same. The two \<open>expect\<close>s of \<open>signal\<close> are results of their own, \<open>RemotePanic\<close>; that they never
  occur is a theorem of \<open>Remote_Configuration_Safety\<close>.
\<close>

section \<open>Types\<close>

datatype remote_encoder_output = EncoderUsb gpio_pin | EncoderParallel parallel_pin

datatype remote_backend = BackendHamlib | BackendParallelChannel | BackendParallelRtx

datatype remote_audio_source = AudioCm119 | AudioAlsa

datatype remote_dtmf_access = AccessOpen | AccessLocked | AccessDisabled

datatype remote_signal_source = SignalDisabled | SignalDsp | SignalExternal | SignalRig | SignalAutomatic

record remote_signal =
  sig_source :: remote_signal_source
  sig_control_source :: "remote_signal_source option"
  sig_enabled :: bool
  sig_tone_tenths_hz :: int
  sig_dcs_code :: int
  sig_inverted :: bool

definition remote_signal_default :: remote_signal where
  "remote_signal_default =
     \<lparr>sig_source = SignalDisabled, sig_control_source = None, sig_enabled = False,
      sig_tone_tenths_hz = 0, sig_dcs_code = 0, sig_inverted = False\<rparr>"

record remote_operating_state =
  os_receive_hz :: int
  os_transmit_hz :: "int option"
  os_mode :: int
  os_bandwidth_hz :: int
  os_receive_vfo :: int
  os_transmit_vfo :: int
  os_split :: bool
  os_offset_hz :: int
  os_rit_hz :: int
  os_rit_enabled :: bool
  os_xit_hz :: int
  os_xit_enabled :: bool
  os_power_mw :: "int option"
  os_encode :: remote_signal
  os_decode :: remote_signal
  os_channel :: "int option"

record remote_memory =
  mem_selector :: int
  mem_name :: string
  mem_state :: remote_operating_state

record remote_scan_list =
  scan_selector :: int
  scan_name :: string
  scan_members :: "int list"
  scan_dwell_ms :: int
  scan_resume_delay_ms :: int
  scan_settle_ms :: int
  scan_priority :: "int option"

record resolved_remote_configuration =
  rc_backend :: remote_backend
  rc_audio_source :: remote_audio_source
  rc_hamlib_model :: string
  rc_hamlib_options :: btree_map
  rc_timeout_ms :: int
  rc_retries :: int
  rc_timeout_retries :: int
  rc_poll_interval_ms :: int
  rc_ptt_source :: "string option"
  rc_cor_source :: "string option"
  rc_external_encode_output :: "remote_encoder_output option"
  rc_external_encode_inverted :: bool
  rc_receive_ranges :: "(int \<times> int) list"
  rc_transmit_ranges :: "(int \<times> int) list"
  rc_receive_only_ranges :: "(int \<times> int) list"
  rc_modes :: "int list"
  rc_maximum_power_mw :: "int option"
  rc_memories :: "remote_memory list"
  rc_scan_lists :: "remote_scan_list list"
  rc_startup_memory :: int
  rc_dtmf_access :: remote_dtmf_access
  rc_dtmf_prefix :: string
  rc_offset_magnitude_hz :: "int option"
  rc_power_presets_mw :: "int option list"
  rc_scan_presets_ms :: "int option list"
  rc_tune_duration_ms :: int
  rc_warnings :: warnings

record remote_configuration_error =
  re_source :: string
  re_section :: string
  re_key :: string

definition remote_configuration_error_display :: "remote_configuration_error \<Rightarrow> string" where
  "remote_configuration_error_display e =
     re_source e @ '' ['' @ re_section e @ '']: invalid or missing remote-base '' @ re_key e"

datatype remote_failure = RemoteError remote_configuration_error | RemotePanic

section \<open>Numbers\<close>

definition parse_u8 :: "string \<Rightarrow> int option" where "parse_u8 = from_str_radix 10 255"
definition parse_u32 :: "string \<Rightarrow> int option" where "parse_u32 = from_str_radix 10 (2 ^ 32 - 1)"
definition parse_u64 :: "string \<Rightarrow> int option" where "parse_u64 = from_str_radix 10 (2 ^ 64 - 1)"

text \<open>A signed integer has its own limit below zero.\<close>

definition parse_i64 :: "string \<Rightarrow> int option" where
  "parse_i64 s =
     (case s of
        [] \<Rightarrow> None
      | c # cs \<Rightarrow>
          if c = CHR ''-'' then (if cs = [] then None else map_option uminus (radix_value 10 (2 ^ 63) 0 cs))
          else from_str_radix 10 (2 ^ 63 - 1) (c # cs))"

definition checked :: "int \<Rightarrow> int option" where
  "checked n = (if n < 2 ^ 32 then Some n else None)"

text \<open>A decimal with at most \<open>places\<close> digits after the point, as an integer of that unit.\<close>

definition scaled_text :: "string \<Rightarrow> nat \<Rightarrow> int option" where
  "scaled_text value places =
     (let (whole, fraction) = (case split_once (CHR ''.'') value of Some p \<Rightarrow> p | None \<Rightarrow> (value, [])) in
      if whole = [] \<or> \<not> list_all is_ascii_digit whole \<or> places < length fraction \<or>
         \<not> list_all is_ascii_digit fraction
      then None
      else
        Option.bind (parse_u32 whole) (\<lambda>w.
        Option.bind (checked (w * 10 ^ places)) (\<lambda>scaled.
        Option.bind
          (if fraction = [] then Some 0
           else Option.bind (parse_u32 fraction) (\<lambda>f. checked (f * 10 ^ (places - length fraction))))
          (\<lambda>part. checked (scaled + part)))))"

section \<open>Values\<close>

definition bool_value :: "string \<Rightarrow> bool option" where
  "bool_value value = (if value = ''yes'' then Some True else if value = ''no'' then Some False else None)"

definition encoder_output :: "string \<Rightarrow> remote_encoder_output option" where
  "encoder_output value =
     (case split_once (CHR '':'') value of
        None \<Rightarrow> None
      | Some (bank, pin) \<Rightarrow>
          (case parse_u8 pin of
             None \<Rightarrow> None
           | Some n \<Rightarrow>
               if bank = ''usb'' then map_option EncoderUsb (gpio_pin_new n)
               else if bank = ''parallel'' then map_option EncoderParallel (parallel_pin_new n)
               else None))"

definition REMOTE_MODES :: "string list" where
  "REMOTE_MODES =
     [''FM'', ''AM'', ''USB'', ''LSB'', ''CW'', ''CWR'', ''RTTY'', ''RTTYR'', ''WFM'', ''PKTFM'',
      ''PKTUSB'', ''PKTLSB'']"

fun mode_position :: "int \<Rightarrow> string list \<Rightarrow> string \<Rightarrow> int option" where
  "mode_position n [] value = None"
| "mode_position n (name # names) value =
     (if eq_ignore_ascii_case value name then Some n else mode_position (n + 1) names value)"

definition remote_mode :: "string \<Rightarrow> int option" where
  "remote_mode value = mode_position 1 REMOTE_MODES value"

definition parse_signal_source :: "string \<Rightarrow> remote_signal_source option" where
  "parse_signal_source value =
     (if value = ''disabled'' then Some SignalDisabled
      else if value = ''dsp'' then Some SignalDsp
      else if value = ''external'' then Some SignalExternal
      else if value = ''hamlib'' then Some SignalRig
      else if value = ''auto'' then Some SignalAutomatic
      else None)"

record remote_values =
  rv_source :: string
  rv_section :: string
  rv_map :: btree_map

definition values_error :: "remote_values \<Rightarrow> string \<Rightarrow> remote_failure" where
  "values_error v key =
     RemoteError \<lparr>re_source = rv_source v, re_section = rv_section v, re_key = key\<rparr>"

definition values_text :: "remote_values \<Rightarrow> string \<Rightarrow> string option" where
  "values_text v key = btree_get (rv_map v) key"

definition ok_or_error :: "remote_values \<Rightarrow> string \<Rightarrow> 'a option \<Rightarrow> (remote_failure, 'a) result" where
  "ok_or_error v key x = (case x of Some a \<Rightarrow> Inr a | None \<Rightarrow> Inl (values_error v key))"

definition values_required :: "remote_values \<Rightarrow> string \<Rightarrow> (remote_failure, string) result" where
  "values_required v key =
     (case values_text v key of
        Some value \<Rightarrow> if value \<noteq> [] then Inr value else Inl (values_error v key)
      | None \<Rightarrow> Inl (values_error v key))"

text \<open>\<open>number\<close> and \<open>optional\<close> at the integer type whose parser is given.\<close>

definition values_number ::
  "(string \<Rightarrow> int option) \<Rightarrow> remote_values \<Rightarrow> string \<Rightarrow> int \<Rightarrow> (remote_failure, int) result" where
  "values_number parse v key fallback =
     (case values_text v key of None \<Rightarrow> Inr fallback | Some value \<Rightarrow> ok_or_error v key (parse value))"

definition values_optional ::
  "(string \<Rightarrow> int option) \<Rightarrow> remote_values \<Rightarrow> string \<Rightarrow> (remote_failure, int option) result" where
  "values_optional parse v key =
     (case values_text v key of
        None \<Rightarrow> Inr None | Some value \<Rightarrow> ok_or_error v key (map_option Some (parse value)))"

definition values_scaled :: "remote_values \<Rightarrow> string \<Rightarrow> nat \<Rightarrow> (remote_failure, int option) result" where
  "values_scaled v key places = values_optional (\<lambda>value. scaled_text value places) v key"

definition remote_warning ::
  "string \<Rightarrow> string \<Rightarrow> string \<Rightarrow> resolution_warning_kind \<Rightarrow> string \<Rightarrow> resolution_warning" where
  "remote_warning source section key kind fallback =
     \<lparr>warn_kind = kind, warn_source = source, warn_section = section, warn_name = key,
      warn_supplied_value = ''<redacted>'', warn_fallback = fallback,
      warn_reason = ''remote-base setting was not applied''\<rparr>"

definition values_unknown :: "remote_values \<Rightarrow> string list \<Rightarrow> bool \<Rightarrow> warnings" where
  "values_unknown v allowed transport =
     map (\<lambda>(key, _). remote_warning (rv_source v) (rv_section v) key UnknownOption ''ignored'')
       (filter (\<lambda>(key, _). \<not> (key \<in> set allowed \<or> transport \<and> starts_with ''hamlib_option_'' key)) (rv_map v))"

text \<open>The first failure of a list of results, or all values.\<close>

fun collect_results :: "('e, 'a) result list \<Rightarrow> ('e, 'a list) result" where
  "collect_results [] = Inr []"
| "collect_results (r # rs) = res_bind r (\<lambda>a. res_bind (collect_results rs) (\<lambda>as. Inr (a # as)))"

definition parse_range :: "remote_values \<Rightarrow> string \<Rightarrow> string \<Rightarrow> (remote_failure, int \<times> int) result" where
  "parse_range v key part =
     res_bind (ok_or_error v key (split_once (CHR ''-'') (trim part))) (\<lambda>(low, high).
     res_bind (ok_or_error v key (parse_u64 (trim low))) (\<lambda>low.
     res_bind (ok_or_error v key (parse_u64 (trim high))) (\<lambda>high.
       if low = 0 \<or> high < low then Inl (values_error v key) else Inr (low, high))))"

definition remote_ranges :: "remote_values \<Rightarrow> string \<Rightarrow> (remote_failure, (int \<times> int) list) result" where
  "remote_ranges v key =
     (case values_text v key of
        None \<Rightarrow> Inr []
      | Some value \<Rightarrow> collect_results (map (parse_range v key) (split_on (\<lambda>c. c = CHR '','') value)))"

section \<open>Signals\<close>

definition direction_key :: "string \<Rightarrow> bool \<Rightarrow> string \<Rightarrow> string" where
  "direction_key prefix encode suffix = prefix @ (if encode then ''encode'' else ''decode'') @ suffix"

definition with_tone :: "bool \<Rightarrow> int \<Rightarrow> remote_signal \<Rightarrow> remote_signal" where
  "with_tone selected tone s =
     s\<lparr>sig_tone_tenths_hz := tone, sig_dcs_code := 0, sig_inverted := False,
       sig_source := (if selected then sig_source s else SignalAutomatic), sig_enabled := True\<rparr>"

definition with_code :: "bool \<Rightarrow> dcs_code \<Rightarrow> remote_signal \<Rightarrow> remote_signal" where
  "with_code selected code s =
     s\<lparr>sig_dcs_code := code_value code, sig_inverted := (code_polarity code = DcsInverted),
       sig_tone_tenths_hz := 0,
       sig_source := (if selected then sig_source s else SignalAutomatic), sig_enabled := True\<rparr>"

definition with_source :: "bool \<Rightarrow> remote_signal_source \<Rightarrow> remote_signal \<Rightarrow> remote_signal" where
  "with_source coded source s =
     (let s1 = s\<lparr>sig_source := source, sig_enabled := (source \<noteq> SignalDisabled)\<rparr> in
      if source = SignalExternal \<and> \<not> coded
      then s1\<lparr>sig_tone_tenths_hz := 0, sig_dcs_code := 0, sig_inverted := False\<rparr> else s1)"

definition signal_control ::
  "remote_values \<Rightarrow> bool \<Rightarrow> remote_signal \<Rightarrow> (remote_failure, remote_signal) result" where
  "signal_control v encode s =
     (if encode then Inr s
      else
        (case values_text v ''decode_control_source'' of
           None \<Rightarrow> Inr s
         | Some value \<Rightarrow>
             res_bind (ok_or_error v ''decode_control_source'' (parse_signal_source value))
               (\<lambda>control. Inr (s\<lparr>sig_control_source := Some control\<rparr>))))"

text \<open>
  The tone, the code and the provider, once they are read; \<open>toned\<close> tells whether a tone was written. The
  two \<open>None\<close> branches are the \<open>expect\<close>s.
\<close>

definition signal_settings ::
  "bool \<Rightarrow> int option \<Rightarrow> string option \<Rightarrow> string option \<Rightarrow> remote_signal \<Rightarrow> (remote_failure, remote_signal) result" where
  "signal_settings toned tone code selected s =
     (let s1 = (case tone of None \<Rightarrow> s | Some t \<Rightarrow> with_tone (selected \<noteq> None) t s) in
      res_bind
        (case code of
           None \<Rightarrow> Inr s1
         | Some value \<Rightarrow>
             (case dcs_code_from_str value of
                None \<Rightarrow> Inl RemotePanic
              | Some c \<Rightarrow> Inr (with_code (selected \<noteq> None) c s1)))
        (\<lambda>s2.
      case selected of
        None \<Rightarrow> Inr s2
      | Some value \<Rightarrow>
          (case parse_signal_source value of
             None \<Rightarrow> Inl RemotePanic
           | Some source \<Rightarrow> Inr (with_source (toned \<or> code \<noteq> None) source s2))))"

definition remote_signal_of ::
  "remote_values \<Rightarrow> bool \<Rightarrow> remote_signal \<Rightarrow> (remote_failure, remote_signal) result" where
  "remote_signal_of v encode inherited =
     (let tone_key = direction_key ''ctcss_'' encode ''_hz'';
          code = values_text v (direction_key ''dcs_'' encode ''_code'');
          source_key = direction_key ''ctcss_'' encode ''_source'';
          ctcss_source = values_text v source_key;
          dcs_source = values_text v (direction_key ''dcs_'' encode ''_source'')
      in
      if ctcss_source \<noteq> None \<and> dcs_source \<noteq> None then Inl (values_error v source_key)
      else
        res_bind (signal_control v encode inherited) (\<lambda>s.
        res_bind (values_scaled v tone_key 1) (\<lambda>tone.
        if tone \<noteq> None \<and> code \<noteq> None then Inl (values_error v tone_key)
        else
          signal_settings (values_text v tone_key \<noteq> None) tone code
            (case ctcss_source of Some x \<Rightarrow> Some x | None \<Rightarrow> dcs_source) s)))"

definition station_tone :: "station_config \<Rightarrow> bool \<Rightarrow> int" where
  "station_tone station encode =
     (if encode then tenths_hz (ct_transmit_default (station_ctcss station))
      else
        (case ct_receive_frequencies (station_ctcss station) of
           [] \<Rightarrow> 0 | tone # _ \<Rightarrow> tenths_hz tone))"

definition station_signal :: "station_config \<Rightarrow> bool \<Rightarrow> remote_signal" where
  "station_signal station encode =
     (let kind = (if encode then tx_signaling_method (station_transmit station)
                  else rx_signaling_method (station_receive station));
          source = (if encode then SignalDsp
                    else
                      (case ct_receive_source (station_ctcss station) of
                         ToneDisabled \<Rightarrow> SignalDisabled | ToneDsp \<Rightarrow> SignalDsp | _ \<Rightarrow> SignalExternal))
      in
      case kind of
        SigCtcss \<Rightarrow>
          remote_signal_default\<lparr>sig_source := source, sig_enabled := (source \<noteq> SignalDisabled),
            sig_tone_tenths_hz := station_tone station encode\<rparr>
      | SigDcs \<Rightarrow>
          (let code = (if encode then dcs_transmit_code (station_dcs station)
                       else dcs_receive_code (station_dcs station)) in
           remote_signal_default\<lparr>sig_source := source, sig_enabled := (source \<noteq> SignalDisabled),
             sig_dcs_code := code_value code, sig_inverted := (code_polarity code = DcsInverted)\<rparr>)
      | _ \<Rightarrow> remote_signal_default\<lparr>sig_tone_tenths_hz := station_tone station encode\<rparr>)"

definition remote_vfo :: "remote_values \<Rightarrow> string \<Rightarrow> int" where
  "remote_vfo v key =
     (let value = (case values_text v key of Some x \<Rightarrow> x | None \<Rightarrow> ''current'') in
      if value = ''A'' then 1 else if value = ''B'' then 2 else if value = ''main'' then 3
      else if value = ''sub'' then 4 else if value = ''memory'' then 5 else 0)"

section \<open>Overlays\<close>

definition in_bounds :: "int \<Rightarrow> int \<Rightarrow> int option \<Rightarrow> bool" where
  "in_bounds low high x = (case x of Some n \<Rightarrow> low \<le> n \<and> n \<le> high | None \<Rightarrow> False)"

definition valid_value :: "string \<Rightarrow> string \<Rightarrow> bool" where
  "valid_value key value =
     (if key \<in> {''enabled'', ''split'', ''rit_enabled'', ''xit_enabled'', ''external_encode_inverted''}
      then bool_value value \<noteq> None
      else if key = ''external_encode_output'' then value = [] \<or> encoder_output value \<noteq> None
      else if key = ''audio_source'' then value \<in> {''cm119'', ''alsa''}
      else if key = ''backend'' then value \<in> {''hamlib'', ''parallel_channel'', ''parallel_rtx''}
      else if key = ''dtmf_access'' then value \<in> {''open'', ''locked'', ''disabled''}
      else if key = ''dtmf_prefix'' then
        1 \<le> length value \<and> length value \<le> 63 \<and> list_all is_ascii_digit value
      else if key = ''timeout_ms'' then in_bounds 1 10000 (parse_u32 value)
      else if key = ''retries'' then in_bounds 0 10 (parse_u32 value)
      else if key = ''timeout_retries'' then in_bounds 0 100 (parse_u32 value)
      else if key \<in> {''poll_interval_ms'', ''dwell_ms'', ''scan_slow_ms'', ''scan_medium_ms'', ''scan_fast_ms''}
      then in_bounds 1 (2 ^ 64) (parse_u64 value)
      else if key \<in> {''resume_delay_ms'', ''settle_ms''} then parse_u64 value \<noteq> None
      else if key = ''tune_duration_ms'' then in_bounds 1 5000 (parse_u64 value)
      else if key = ''mode'' then remote_mode value \<noteq> None
      else if key \<in> {''receive_vfo'', ''transmit_vfo''} then
        value \<in> {''current'', ''A'', ''B'', ''main'', ''sub'', ''memory''}
      else if key = ''bandwidth_hz'' then parse_u32 value \<noteq> None
      else if key \<in> {''offset_hz'', ''rit_hz'', ''xit_hz''} then parse_i64 value \<noteq> None
      else if key \<in> {''ctcss_encode_hz'', ''ctcss_decode_hz''} then in_bounds 500 3000 (scaled_text value 1)
      else if key \<in> {''dcs_encode_code'', ''dcs_decode_code''} then dcs_code_from_str value \<noteq> None
      else if key \<in> {''ctcss_encode_source'', ''ctcss_decode_source'', ''dcs_encode_source'',
                     ''dcs_decode_source'', ''decode_control_source''}
      then parse_signal_source value \<noteq> None
      else if key \<in> {''power_low_w'', ''power_medium_w'', ''power_high_w'', ''max_power_w'', ''power_w''}
      then scaled_text value 3 \<noteq> None
      else True)"

definition optional_default :: "string \<Rightarrow> bool" where
  "optional_default key \<longleftrightarrow>
     starts_with ''ctcss_'' key \<or> starts_with ''dcs_'' key \<or>
     key \<in> {''power_low_w'', ''power_medium_w'', ''power_high_w'', ''scan_slow_ms'', ''scan_medium_ms'',
            ''scan_fast_ms''}"

text \<open>\<open>section_values\<close>: keys in lower case; two spellings of one key must agree.\<close>

fun normalize_values ::
  "string \<Rightarrow> string \<Rightarrow> btree_map \<Rightarrow> btree_map \<Rightarrow> (remote_failure, btree_map) result" where
  "normalize_values source section normalized [] = Inr normalized"
| "normalize_values source section normalized ((key, value) # rest) =
     (let key = to_ascii_lowercase key in
      case btree_get normalized key of
        Some old \<Rightarrow>
          if old \<noteq> value
          then Inl (RemoteError \<lparr>re_source = source, re_section = section, re_key = key\<rparr>)
          else normalize_values source section (btree_insert key value normalized) rest
      | None \<Rightarrow> normalize_values source section (btree_insert key value normalized) rest)"

definition section_values ::
  "config_document \<Rightarrow> string \<Rightarrow> string \<Rightarrow> (remote_failure, btree_map) result" where
  "section_values doc source section = normalize_values source section [] (explicit_values doc section)"

fun overlay_values :: "string \<Rightarrow> string \<Rightarrow> btree_map \<Rightarrow> btree_map \<Rightarrow> warnings \<Rightarrow> btree_map \<times> warnings" where
  "overlay_values source section [] inherited ws = (inherited, ws)"
| "overlay_values source section ((key, value) # rest) inherited ws =
     (if \<not> valid_value key value \<and> (btree_get inherited key \<noteq> None \<or> optional_default key)
      then overlay_values source section rest inherited
             (ws @ [remote_warning source section key InvalidValue ''inherited/default''])
      else overlay_values source section rest (btree_insert key value inherited) ws)"

definition remote_overlay ::
  "config_document \<Rightarrow> string \<Rightarrow> string \<Rightarrow> btree_map \<Rightarrow> warnings \<Rightarrow> (remote_failure, btree_map \<times> warnings) result" where
  "remote_overlay doc source section inherited ws =
     res_bind (section_values doc source section)
       (\<lambda>settings. Inr (overlay_values source section settings inherited ws))"

definition remote_defaults :: "(string \<times> string) list \<Rightarrow> btree_map" where
  "remote_defaults entries = btree_extend [] entries"

definition BASE_DEFAULTS :: "(string \<times> string) list" where
  "BASE_DEFAULTS =
     [(''external_encode_output'', ''''), (''external_encode_inverted'', ''no''), (''enabled'', ''no''),
      (''audio_source'', ''cm119''), (''dtmf_access'', ''locked''), (''dtmf_prefix'', ''6''),
      (''timeout_ms'', ''500''), (''retries'', ''2''), (''timeout_retries'', ''0''),
      (''poll_interval_ms'', ''500''), (''tune_duration_ms'', ''1000'')]"

definition MEMORY_DEFAULTS :: "(string \<times> string) list" where
  "MEMORY_DEFAULTS =
     [(''mode'', ''FM''), (''bandwidth_hz'', ''0''), (''receive_vfo'', ''current''),
      (''transmit_vfo'', ''current''), (''offset_hz'', ''0''), (''rit_hz'', ''0''), (''xit_hz'', ''0'')]"

definition SCAN_DEFAULTS :: "(string \<times> string) list" where
  "SCAN_DEFAULTS = [(''dwell_ms'', ''500''), (''resume_delay_ms'', ''2000''), (''settle_ms'', ''0'')]"

definition SIGNAL_KEYS :: "string list" where
  "SIGNAL_KEYS =
     [''ctcss_encode_hz'', ''ctcss_decode_hz'', ''ctcss_encode_source'', ''ctcss_decode_source'',
      ''dcs_encode_code'', ''dcs_decode_code'', ''dcs_encode_source'', ''dcs_decode_source'',
      ''decode_control_source'']"

definition BASE_KEYS :: "string list" where
  "BASE_KEYS =
     [''external_encode_output'', ''external_encode_inverted'', ''enabled'', ''backend'', ''hamlib_model'',
      ''hamlib_device'', ''audio_source'', ''startup_memory'', ''allowed_rx_ranges_hz'',
      ''allowed_tx_ranges_hz'', ''receive_only_ranges_hz'', ''allowed_modes'', ''max_power_w'',
      ''timeout_ms'', ''retries'', ''timeout_retries'', ''poll_interval_ms'', ''ptt_source'',
      ''cor_source'', ''dtmf_access'', ''dtmf_prefix'', ''offset_magnitude_hz'', ''power_low_w'',
      ''power_medium_w'', ''power_high_w'', ''scan_slow_ms'', ''scan_medium_ms'', ''scan_fast_ms'',
      ''tune_duration_ms''] @ SIGNAL_KEYS"

definition MEMORY_KEYS :: "string list" where
  "MEMORY_KEYS =
     [''selector'', ''rx_frequency_hz'', ''tx_frequency_hz'', ''mode'', ''power_w'', ''bandwidth_hz'',
      ''receive_vfo'', ''transmit_vfo'', ''split'', ''offset_hz'', ''rit_hz'', ''xit_hz'',
      ''rit_enabled'', ''xit_enabled'', ''channel''] @ SIGNAL_KEYS"

definition SCAN_KEYS :: "string list" where
  "SCAN_KEYS = [''selector'', ''members'', ''dwell_ms'', ''settle_ms'', ''resume_delay_ms'', ''priority'']"

section \<open>Sections of a node\<close>

text \<open>\<open>splitn\<close> at white space: the bytes before and after the first white-space character.\<close>

definition split_whitespace_once :: "string \<Rightarrow> (string \<times> string) option" where
  "split_whitespace_once s =
     (if \<not> contains_whitespace s then None
      else
        (let word = until_whitespace s; rest = drop (length word) s
         in Some (word, drop (token_len ws_tokens rest) rest)))"

fun splitn_whitespace :: "nat \<Rightarrow> string \<Rightarrow> string list" where
  "splitn_whitespace 0 s = []"
| "splitn_whitespace (Suc n) s =
     (if n = 0 then [s]
      else (case split_whitespace_once s of None \<Rightarrow> [s] | Some (word, rest) \<Rightarrow> word # splitn_whitespace n rest))"

text \<open>\<open>None\<close> when the section is not of this kind and node; otherwise its name, if there is one.\<close>

definition node_section :: "string \<Rightarrow> string \<Rightarrow> string \<Rightarrow> string option option" where
  "node_section kind node section =
     (case splitn_whitespace 3 section of
        first # second # rest \<Rightarrow>
          if eq_ignore_ascii_case first kind \<and> second = node
          then Some (case rest of [] \<Rightarrow> None | name # _ \<Rightarrow> if name = [] then None else Some name)
          else None
      | _ \<Rightarrow> None)"

section \<open>Memories\<close>

definition memory_transmit :: "remote_values \<Rightarrow> (remote_failure, int option) result" where
  "memory_transmit m =
     (case values_text m ''tx_frequency_hz'' of
        None \<Rightarrow> Inr None
      | Some value \<Rightarrow>
          if value = ''none'' then Inr None
          else ok_or_error m ''tx_frequency_hz'' (map_option Some (parse_u64 value)))"

definition flag_or :: "remote_values \<Rightarrow> string \<Rightarrow> bool \<Rightarrow> bool" where
  "flag_or v key otherwise =
     (case Option.bind (values_text v key) bool_value of Some b \<Rightarrow> b | None \<Rightarrow> otherwise)"

definition memory_state ::
  "remote_values \<Rightarrow> remote_signal \<Rightarrow> remote_signal \<Rightarrow> int \<Rightarrow> int option \<Rightarrow> int \<Rightarrow> int option \<Rightarrow>
   (remote_failure, remote_operating_state) result" where
  "memory_state m encode decode receive transmit mode channel =
     res_bind (values_number parse_u32 m ''bandwidth_hz'' 0) (\<lambda>bandwidth.
     res_bind (values_number parse_i64 m ''offset_hz'' 0) (\<lambda>offset.
     res_bind (values_number parse_i64 m ''rit_hz'' 0) (\<lambda>rit.
     res_bind (values_number parse_i64 m ''xit_hz'' 0) (\<lambda>xit.
     res_bind (values_scaled m ''power_w'' 3) (\<lambda>power.
     res_bind (remote_signal_of m True encode) (\<lambda>encode.
     res_bind (remote_signal_of m False decode) (\<lambda>decode.
       Inr \<lparr>os_receive_hz = receive, os_transmit_hz = transmit, os_mode = mode, os_bandwidth_hz = bandwidth,
            os_receive_vfo = remote_vfo m ''receive_vfo'', os_transmit_vfo = remote_vfo m ''transmit_vfo'',
            os_split = flag_or m ''split''
              (case transmit of Some hz \<Rightarrow> hz \<noteq> receive | None \<Rightarrow> False),
            os_offset_hz = offset, os_rit_hz = rit, os_rit_enabled = flag_or m ''rit_enabled'' (rit \<noteq> 0),
            os_xit_hz = xit, os_xit_enabled = flag_or m ''xit_enabled'' (xit \<noteq> 0),
            os_power_mw = power, os_encode = encode, os_decode = decode, os_channel = channel\<rparr>)))))))"

definition resolve_memory ::
  "remote_values \<Rightarrow> string \<Rightarrow> remote_signal \<Rightarrow> remote_signal \<Rightarrow> remote_memory list \<Rightarrow>
   (remote_failure, remote_memory) result" where
  "resolve_memory m name encode decode memories =
     res_bind (values_number parse_u32 m ''selector'' 0) (\<lambda>selector.
     if selector = 0 \<or> list_ex (\<lambda>old. mem_selector old = selector) memories
     then Inl (values_error m ''selector'')
     else
       res_bind (values_number parse_u64 m ''rx_frequency_hz'' 0) (\<lambda>receive.
       if receive = 0 then Inl (values_error m ''rx_frequency_hz'')
       else
         res_bind (memory_transmit m) (\<lambda>transmit.
         res_bind
           (ok_or_error m ''mode''
             (remote_mode (case values_text m ''mode'' of Some x \<Rightarrow> x | None \<Rightarrow> ''FM''))) (\<lambda>mode.
         res_bind (values_optional parse_u8 m ''channel'') (\<lambda>channel.
         if (case channel of Some n \<Rightarrow> 15 < n | None \<Rightarrow> False) then Inl (values_error m ''channel'')
         else
           res_bind (memory_state m encode decode receive transmit mode channel) (\<lambda>state.
             Inr \<lparr>mem_selector = selector, mem_name = name, mem_state = state\<rparr>))))))"

fun resolve_memories ::
  "config_document \<Rightarrow> string \<Rightarrow> string \<Rightarrow> remote_values \<Rightarrow> remote_signal \<Rightarrow> remote_signal \<Rightarrow> string list \<Rightarrow>
   remote_memory list \<Rightarrow> warnings \<Rightarrow> (remote_failure, remote_memory list \<times> warnings) result" where
  "resolve_memories doc source node v encode decode [] memories ws = Inr (memories, ws)"
| "resolve_memories doc source node v encode decode (section # sections) memories ws =
     (case node_section ''remote_memory'' node section of
        None \<Rightarrow> resolve_memories doc source node v encode decode sections memories ws
      | Some None \<Rightarrow> Inl (values_error v ''memory name'')
      | Some (Some name) \<Rightarrow>
          res_bind (remote_overlay doc source section (remote_defaults MEMORY_DEFAULTS) ws) (\<lambda>(settings, ws).
          (let m = \<lparr>rv_source = source, rv_section = section, rv_map = settings\<rparr> in
           res_bind (resolve_memory m name encode decode memories) (\<lambda>memory.
             resolve_memories doc source node v encode decode sections (memories @ [memory])
               (ws @ values_unknown m MEMORY_KEYS False)))))"

definition memory_lookup :: "remote_memory list \<Rightarrow> string \<Rightarrow> int option" where
  "memory_lookup memories name = map_option mem_selector (find (\<lambda>m. mem_name m = name) memories)"

section \<open>Scan lists\<close>

definition resolve_scan ::
  "remote_values \<Rightarrow> string \<Rightarrow> remote_memory list \<Rightarrow> remote_scan_list list \<Rightarrow>
   (remote_failure, remote_scan_list) result" where
  "resolve_scan v name memories scans =
     res_bind (values_number parse_u32 v ''selector'' 0) (\<lambda>selector.
     if selector = 0 \<or> list_ex (\<lambda>old. scan_selector old = selector) scans
     then Inl (values_error v ''selector'')
     else
       res_bind (values_required v ''members'') (\<lambda>names.
       res_bind
         (collect_results
           (map (\<lambda>name. ok_or_error v ''members'' (memory_lookup memories (trim name)))
             (split_on (\<lambda>c. c = CHR '','') names))) (\<lambda>members.
       res_bind
         (case values_text v ''priority'' of
            None \<Rightarrow> Inr None
          | Some name \<Rightarrow> ok_or_error v ''priority'' (map_option Some (memory_lookup memories name))) (\<lambda>priority.
       res_bind (values_number parse_u64 v ''dwell_ms'' 500) (\<lambda>dwell.
       res_bind (values_number parse_u64 v ''settle_ms'' 0) (\<lambda>settle.
       if 2 ^ 64 \<le> dwell + settle \<or> (case priority of Some m \<Rightarrow> m \<notin> set members | None \<Rightarrow> False)
       then Inl (values_error v ''timing/priority'')
       else
         res_bind (values_number parse_u64 v ''resume_delay_ms'' 2000) (\<lambda>resume.
           Inr \<lparr>scan_selector = selector, scan_name = name, scan_members = members, scan_dwell_ms = dwell,
                scan_resume_delay_ms = resume, scan_settle_ms = settle, scan_priority = priority\<rparr>)))))))"

fun resolve_scans ::
  "config_document \<Rightarrow> string \<Rightarrow> string \<Rightarrow> remote_values \<Rightarrow> remote_memory list \<Rightarrow> string list \<Rightarrow>
   remote_scan_list list \<Rightarrow> warnings \<Rightarrow> (remote_failure, remote_scan_list list \<times> warnings) result" where
  "resolve_scans doc source node v memories [] scans ws = Inr (scans, ws)"
| "resolve_scans doc source node v memories (section # sections) scans ws =
     (case node_section ''remote_scan'' node section of
        None \<Rightarrow> resolve_scans doc source node v memories sections scans ws
      | Some None \<Rightarrow> Inl (values_error v ''scan name'')
      | Some (Some name) \<Rightarrow>
          res_bind (remote_overlay doc source section (remote_defaults SCAN_DEFAULTS) ws) (\<lambda>(settings, ws).
          (let s = \<lparr>rv_source = source, rv_section = section, rv_map = settings\<rparr> in
           res_bind (resolve_scan s name memories scans) (\<lambda>scan.
             resolve_scans doc source node v memories sections (scans @ [scan])
               (ws @ values_unknown s SCAN_KEYS False)))))"

section \<open>The base configuration\<close>

definition hamlib_model_ok :: "string \<Rightarrow> bool" where
  "hamlib_model_ok model \<longleftrightarrow>
     starts_with ''RIG_MODEL_'' model \<and> 10 < length model \<and>
     list_all (\<lambda>c. is_ascii_alphanumeric c \<or> c = CHR ''_'') model"

fun hamlib_options :: "remote_values \<Rightarrow> btree_map \<Rightarrow> btree_map \<Rightarrow> (remote_failure, btree_map) result" where
  "hamlib_options v [] options = Inr options"
| "hamlib_options v ((key, value) # rest) options =
     (case strip_prefix ''hamlib_option_'' key of
        None \<Rightarrow> hamlib_options v rest options
      | Some option \<Rightarrow>
          if option = [] \<or> option \<in> {''timeout'', ''retry'', ''timeout_retry'', ''rig_pathname''}
          then Inl (values_error v key)
          else hamlib_options v rest (btree_insert option value options))"

record remote_base_settings =
  base_backend :: remote_backend
  base_audio_source :: remote_audio_source
  base_hamlib_model :: string
  base_hamlib_options :: btree_map
  base_timeout_ms :: int
  base_retries :: int
  base_timeout_retries :: int
  base_poll_interval_ms :: int
  base_modes :: "int list"
  base_receive_ranges :: "(int \<times> int) list"
  base_encode :: remote_signal
  base_decode :: remote_signal

definition value_or :: "remote_values \<Rightarrow> string \<Rightarrow> string \<Rightarrow> string" where
  "value_or v key otherwise = (case values_text v key of Some x \<Rightarrow> x | None \<Rightarrow> otherwise)"

definition backend_of :: "remote_values \<Rightarrow> (remote_failure, remote_backend) result" where
  "backend_of v =
     res_bind (values_required v ''backend'') (\<lambda>value.
       if value = ''hamlib'' then Inr BackendHamlib
       else if value = ''parallel_channel'' then Inr BackendParallelChannel
       else if value = ''parallel_rtx'' then Inr BackendParallelRtx
       else Inl (values_error v ''backend''))"

text \<open>The settings read before the memories, in their order.\<close>

definition resolve_base :: "remote_values \<Rightarrow> station_config \<Rightarrow> (remote_failure, remote_base_settings) result" where
  "resolve_base v station =
     res_bind (backend_of v) (\<lambda>backend.
     (let model = value_or v ''hamlib_model'' '''' in
      if backend = BackendHamlib \<and> \<not> hamlib_model_ok model then Inl (values_error v ''hamlib_model'')
      else
        res_bind
          (hamlib_options v (rv_map v)
            (case values_text v ''hamlib_device'' of
               None \<Rightarrow> [] | Some device \<Rightarrow> btree_insert ''rig_pathname'' device [])) (\<lambda>options.
        res_bind (values_number parse_u32 v ''timeout_ms'' 500) (\<lambda>timeout.
        res_bind (values_number parse_u32 v ''retries'' 2) (\<lambda>retries.
        res_bind (values_number parse_u32 v ''timeout_retries'' 0) (\<lambda>timeout_retries.
        res_bind (values_number parse_u64 v ''poll_interval_ms'' 500) (\<lambda>poll.
        res_bind (values_required v ''allowed_modes'') (\<lambda>names.
        res_bind
          (collect_results
            (map (\<lambda>name. ok_or_error v ''allowed_modes'' (remote_mode (trim name)))
              (split_on (\<lambda>c. c = CHR '','') names))) (\<lambda>modes.
        res_bind (remote_ranges v ''allowed_rx_ranges_hz'') (\<lambda>receive_ranges.
        if receive_ranges = [] then Inl (values_error v ''allowed_rx_ranges_hz'')
        else
          res_bind (remote_signal_of v True (station_signal station True)) (\<lambda>encode.
          res_bind (remote_signal_of v False (station_signal station False)) (\<lambda>decode.
            Inr \<lparr>base_backend = backend,
                 base_audio_source = (if value_or v ''audio_source'' ''cm119'' = ''alsa'' then AudioAlsa else AudioCm119),
                 base_hamlib_model = model, base_hamlib_options = options, base_timeout_ms = timeout,
                 base_retries = retries, base_timeout_retries = timeout_retries, base_poll_interval_ms = poll,
                 base_modes = modes, base_receive_ranges = receive_ranges,
                 base_encode = encode, base_decode = decode\<rparr>))))))))))))"

definition source_allowed :: "remote_values \<Rightarrow> string \<Rightarrow> string list \<Rightarrow> bool" where
  "source_allowed v key allowed = (case values_text v key of None \<Rightarrow> True | Some x \<Rightarrow> x \<in> set allowed)"

text \<open>The settings read after the scan lists.\<close>

definition finish_remote ::
  "remote_values \<Rightarrow> remote_base_settings \<Rightarrow> remote_memory list \<Rightarrow> int \<Rightarrow> remote_scan_list list \<Rightarrow> warnings \<Rightarrow>
   (remote_failure, resolved_remote_configuration) result" where
  "finish_remote v base memories startup scans ws =
     res_bind (values_number parse_u64 v ''tune_duration_ms'' 1000) (\<lambda>tune.
     if \<not> source_allowed v ''ptt_source'' [''hamlib'', ''usb'', ''parallel''] \<or>
        \<not> source_allowed v ''cor_source'' [''hamlib'', ''dsp'', ''usb'', ''parallel'', ''open'']
     then Inl (values_error v ''ptt/cor source'')
     else
       res_bind (remote_ranges v ''allowed_tx_ranges_hz'') (\<lambda>transmit_ranges.
       res_bind (remote_ranges v ''receive_only_ranges_hz'') (\<lambda>receive_only.
       res_bind (values_scaled v ''max_power_w'' 3) (\<lambda>maximum_power.
       res_bind (values_optional parse_u64 v ''offset_magnitude_hz'') (\<lambda>offset.
       res_bind (values_scaled v ''power_low_w'' 3) (\<lambda>low.
       res_bind (values_scaled v ''power_medium_w'' 3) (\<lambda>medium.
       res_bind (values_scaled v ''power_high_w'' 3) (\<lambda>high.
       res_bind (values_optional parse_u64 v ''scan_slow_ms'') (\<lambda>slow.
       res_bind (values_optional parse_u64 v ''scan_medium_ms'') (\<lambda>middle.
       res_bind (values_optional parse_u64 v ''scan_fast_ms'') (\<lambda>fast.
         Inr \<lparr>rc_backend = base_backend base, rc_audio_source = base_audio_source base,
              rc_hamlib_model = base_hamlib_model base, rc_hamlib_options = base_hamlib_options base,
              rc_timeout_ms = base_timeout_ms base, rc_retries = base_retries base,
              rc_timeout_retries = base_timeout_retries base,
              rc_poll_interval_ms = base_poll_interval_ms base,
              rc_ptt_source = values_text v ''ptt_source'', rc_cor_source = values_text v ''cor_source'',
              rc_external_encode_output =
                Option.bind (values_text v ''external_encode_output'') encoder_output,
              rc_external_encode_inverted =
                (bool_value (value_or v ''external_encode_inverted'' ''no'') = Some True),
              rc_receive_ranges = base_receive_ranges base, rc_transmit_ranges = transmit_ranges,
              rc_receive_only_ranges = receive_only, rc_modes = base_modes base,
              rc_maximum_power_mw = maximum_power, rc_memories = memories, rc_scan_lists = scans,
              rc_startup_memory = startup,
              rc_dtmf_access =
                (let access = value_or v ''dtmf_access'' ''locked'' in
                 if access = ''open'' then AccessOpen else if access = ''disabled'' then AccessDisabled
                 else AccessLocked),
              rc_dtmf_prefix = value_or v ''dtmf_prefix'' ''6'', rc_offset_magnitude_hz = offset,
              rc_power_presets_mw = [low, medium, high], rc_scan_presets_ms = [slow, middle, fast],
              rc_tune_duration_ms = tune, rc_warnings = ws\<rparr>)))))))))))"

definition remote_from_document ::
  "config_document \<Rightarrow> string \<Rightarrow> string \<Rightarrow> station_config \<Rightarrow>
   (remote_failure, resolved_remote_configuration option) result" where
  "remote_from_document doc source node station =
     (let base_section = ''remote_base '' @ node in
      res_bind (remote_overlay doc source ''remote_base'' (remote_defaults BASE_DEFAULTS) []) (\<lambda>(global, ws).
      res_bind (remote_overlay doc source base_section global ws) (\<lambda>(global, ws).
      (let v = \<lparr>rv_source = source, rv_section = base_section, rv_map = global\<rparr> in
       res_bind (ok_or_error v ''enabled'' (bool_value (value_or v ''enabled'' ''no''))) (\<lambda>enabled.
       if \<not> enabled then Inr None
       else
         res_bind (resolve_base v station) (\<lambda>base.
         res_bind
           (resolve_memories doc source node v (base_encode base) (base_decode base) (section_names doc) []
             (ws @ values_unknown v BASE_KEYS True)) (\<lambda>(memories, ws).
         res_bind (values_required v ''startup_memory'') (\<lambda>name.
         res_bind (ok_or_error v ''startup_memory'' (memory_lookup memories name)) (\<lambda>startup.
         res_bind (resolve_scans doc source node v memories (section_names doc) [] ws) (\<lambda>(scans, ws).
         res_bind (finish_remote v base memories startup scans ws) (\<lambda>config. Inr (Some config))))))))))))"

end
