(* ===== verification/Remote_Configuration_Safety.thy ===== *)
theory Remote_Configuration_Safety
  imports Remote_Configuration
begin

text \<open>
  What the remote-base resolver promises: it never reaches one of its \<open>expect\<close>s, its errors name the
  document, its warnings never echo a supplied value, and an enabled configuration that it accepts is
  complete and consistent. The two overlay layers keep an invariant of the value map, which carries the
  validity of the defaulted settings to the places that read them.
\<close>

section \<open>The value map\<close>

definition good_values :: "string set \<Rightarrow> btree_map \<Rightarrow> bool" where
  "good_values D m \<longleftrightarrow>
     (\<forall>k \<in> D. \<exists>x. btree_get m k = Some x \<and> valid_value k x) \<and>
     (\<forall>k x. btree_get m k = Some x \<longrightarrow> optional_default k \<longrightarrow> valid_value k x)"

lemma good_values_insert:
  assumes "good_values D m" "valid_value k x \<or> btree_get m k = None \<and> \<not> optional_default k"
  shows "good_values D (btree_insert k x m)"
  using assms by (fastforce simp: good_values_def btree_get_insert)

lemma overlay_values_good:
  "good_values D m \<Longrightarrow> overlay_values source section es m ws = (m', ws') \<Longrightarrow> good_values D m'"
proof (induction source "section" es m ws rule: overlay_values.induct)
  case (2 source sect key x rest m ws)
  then show ?case by (auto split: if_splits intro: good_values_insert)
qed simp

lemma remote_overlay_good:
  "good_values D m \<Longrightarrow> remote_overlay doc source section m ws = Inr (m', ws') \<Longrightarrow> good_values D m'"
  unfolding remote_overlay_def res_bind_eq_Inr using overlay_values_good by (metis sum.inject(2))

lemma get_defaults: "btree_get (remote_defaults es) k = map_of (rev es) k"
proof -
  have "btree_get (btree_extend m es) k = (btree_get m ++ map_of (rev es)) k" for m
    by (induction m es rule: btree_extend.induct) (auto simp: btree_get_insert map_add_def split: option.splits)
  from this [of "[]"] show ?thesis by (simp add: remote_defaults_def btree_get_def map_add_def split: option.split)
qed

abbreviation base_keys :: "string set" where "base_keys \<equiv> fst ` set BASE_DEFAULTS"
abbreviation memory_keys :: "string set" where "memory_keys \<equiv> fst ` set MEMORY_DEFAULTS"
abbreviation scan_keys :: "string set" where "scan_keys \<equiv> fst ` set SCAN_DEFAULTS"

lemma defaults_sound:
  "list_all (\<lambda>table. list_all (\<lambda>(k, x). map_of (rev table) k = Some x \<and> valid_value k x \<and> \<not> optional_default k) table)
     [BASE_DEFAULTS, MEMORY_DEFAULTS, SCAN_DEFAULTS]"
  by code_simp

lemma base_defaults_good: "good_values base_keys (remote_defaults BASE_DEFAULTS)"
proof -
  have "list_all (\<lambda>(k, x). map_of (rev BASE_DEFAULTS) k = Some x \<and> valid_value k x \<and> \<not> optional_default k) BASE_DEFAULTS"
    using defaults_sound by simp
  then show ?thesis
    by (fastforce simp: good_values_def get_defaults list_all_iff dest: map_of_SomeD)
qed

lemma memory_defaults_good: "good_values memory_keys (remote_defaults MEMORY_DEFAULTS)"
proof -
  have "list_all (\<lambda>(k, x). map_of (rev MEMORY_DEFAULTS) k = Some x \<and> valid_value k x \<and> \<not> optional_default k) MEMORY_DEFAULTS"
    using defaults_sound by simp
  then show ?thesis
    by (fastforce simp: good_values_def get_defaults list_all_iff dest: map_of_SomeD)
qed

lemma scan_defaults_good: "good_values scan_keys (remote_defaults SCAN_DEFAULTS)"
proof -
  have "list_all (\<lambda>(k, x). map_of (rev SCAN_DEFAULTS) k = Some x \<and> valid_value k x \<and> \<not> optional_default k) SCAN_DEFAULTS"
    using defaults_sound by simp
  then show ?thesis
    by (fastforce simp: good_values_def get_defaults list_all_iff dest: map_of_SomeD)
qed

section \<open>Calm results: no panic, and errors that name the source\<close>

definition calm :: "string \<Rightarrow> (remote_failure, 'a) result \<Rightarrow> bool" where
  "calm source r \<longleftrightarrow>
     (case r of Inl RemotePanic \<Rightarrow> False | Inl (RemoteError e) \<Rightarrow> re_source e = source | Inr _ \<Rightarrow> True)"

named_theorems calm_intros

lemma calm_Inr [simp]: "calm source (Inr a)"
  by (simp add: calm_def)

lemma calm_error [simp]: "calm (rv_source v) (Inl (values_error v key))"
  by (simp add: calm_def values_error_def)

lemma calm_bind [calm_intros]:
  "calm source r \<Longrightarrow> (\<And>a. r = Inr a \<Longrightarrow> calm source (f a)) \<Longrightarrow> calm source (res_bind r f)"
  by (cases r) (auto simp: calm_def)

lemma calm_if [calm_intros]:
  "(c \<Longrightarrow> calm source a) \<Longrightarrow> (\<not> c \<Longrightarrow> calm source b) \<Longrightarrow> calm source (if c then a else b)"
  by simp

lemma calm_option [calm_intros]:
  "(x = None \<Longrightarrow> calm source a) \<Longrightarrow> (\<And>y. x = Some y \<Longrightarrow> calm source (f y)) \<Longrightarrow>
   calm source (case x of None \<Rightarrow> a | Some y \<Rightarrow> f y)"
  by (cases x) auto

lemma calm_ok_or_error [calm_intros]: "calm (rv_source v) (ok_or_error v key x)"
  by (simp add: ok_or_error_def split: option.split)

lemma calm_required [calm_intros]: "calm (rv_source v) (values_required v key)"
  by (simp add: values_required_def split: option.split)

lemma calm_number [calm_intros]: "calm (rv_source v) (values_number parse v key n)"
  by (simp add: values_number_def calm_ok_or_error split: option.split)

lemma calm_optional [calm_intros]: "calm (rv_source v) (values_optional parse v key)"
  by (simp add: values_optional_def calm_ok_or_error split: option.split)

lemma calm_scaled [calm_intros]: "calm (rv_source v) (values_scaled v key places)"
  by (simp add: values_scaled_def calm_optional)

lemma calm_collect [calm_intros]: "(\<And>r. r \<in> set rs \<Longrightarrow> calm source r) \<Longrightarrow> calm source (collect_results rs)"
  by (induction rs) (auto intro!: calm_bind)

lemma calm_ranges [calm_intros]: "calm (rv_source v) (remote_ranges v key)"
  unfolding remote_ranges_def
  by (auto split: option.split intro!: calm_collect calm_bind calm_ok_or_error simp: parse_range_def)

lemma calm_overlay [calm_intros]: "calm source (remote_overlay doc source section m ws)"
proof -
  have "calm source (normalize_values source section acc es)" for acc es
    by (induction source "section" acc es rule: normalize_values.induct) (auto simp: Let_def calm_def split: option.split)
  then show ?thesis by (auto simp: remote_overlay_def section_values_def intro!: calm_bind)
qed

section \<open>Ok results\<close>

lemma ok_or_error_Inr [res_simps]: "ok_or_error v key x = Inr a \<longleftrightarrow> x = Some a"
  by (simp add: ok_or_error_def split: option.split)

lemma collect_results_Inr: "collect_results rs = Inr as \<longleftrightarrow> rs = map Inr as"
  by (induction rs arbitrary: as) (auto simp: res_simps)

lemma values_number_bounds:
  assumes "values_number parse v key n = Inr a" "values_text v key = Some x" "in_bounds low high (parse x)"
  shows "low \<le> a \<and> a \<le> high"
  using assms by (auto simp: values_number_def res_simps in_bounds_def)

definition good_range :: "int \<times> int \<Rightarrow> bool" where
  "good_range r \<longleftrightarrow> 0 < fst r \<and> fst r \<le> snd r \<and> snd r < 2 ^ 64"

lemma parse_u64_bounds: "parse_u64 x = Some n \<Longrightarrow> 0 \<le> n \<and> n < 2 ^ 64"
  unfolding parse_u64_def using from_str_radix_bounds [of 10 "2 ^ 64 - 1" x n] by simp

lemma parse_u32_bounds: "parse_u32 x = Some n \<Longrightarrow> 0 \<le> n \<and> n < 2 ^ 32"
  unfolding parse_u32_def using from_str_radix_bounds [of 10 "2 ^ 32 - 1" x n] by simp

lemma parse_u8_bounds: "parse_u8 x = Some n \<Longrightarrow> 0 \<le> n \<and> n \<le> 255"
  unfolding parse_u8_def using from_str_radix_bounds [of 10 255 x n] by simp

lemma parse_range_good: "parse_range v key part = Inr r \<Longrightarrow> good_range r"
  by (auto simp: parse_range_def res_simps good_range_def split: if_splits dest!: parse_u64_bounds)

lemma remote_ranges_good: "remote_ranges v key = Inr rs \<Longrightarrow> list_all good_range rs"
proof (cases "values_text v key")
  case (Some x)
  assume "remote_ranges v key = Inr rs"
  then have eq: "map (parse_range v key) (split_on (\<lambda>c. c = CHR '','') x) = map Inr rs"
    using Some by (simp add: remote_ranges_def collect_results_Inr)
  have "good_range r" if "r \<in> set rs" for r
  proof -
    have "Inr r \<in> set (map (parse_range v key) (split_on (\<lambda>c. c = CHR '','') x))" unfolding eq using that by simp
    then show ?thesis using parse_range_good by (metis imageE set_map)
  qed
  then show ?thesis by (simp add: list_all_iff)
qed (simp add: remote_ranges_def)

lemma mode_position_bounds: "mode_position n names x = Some m \<Longrightarrow> n \<le> m \<and> m < n + int (length names)"
  by (induction n names x rule: mode_position.induct) (auto split: if_splits)

lemma remote_mode_bounds: "remote_mode x = Some m \<Longrightarrow> 1 \<le> m \<and> m \<le> 12"
  using mode_position_bounds [of 1 REMOTE_MODES x m] by (simp add: remote_mode_def REMOTE_MODES_def)

section \<open>Signals\<close>

text \<open>One signaling type at a time, and enabled exactly with a provider.\<close>

definition signal_ok :: "remote_signal \<Rightarrow> bool" where
  "signal_ok s \<longleftrightarrow>
     (sig_tone_tenths_hz s = 0 \<or> sig_dcs_code s = 0) \<and>
     (sig_enabled s \<longleftrightarrow> sig_source s \<noteq> SignalDisabled)"

lemma station_signal_ok: "signal_ok (station_signal station encode)"
  by (simp add: station_signal_def signal_ok_def remote_signal_default_def Let_def
      split: signaling_method_kind.split)

lemma signal_keys_optional:
  "optional_default (direction_key ''ctcss_'' encode suffix)" "optional_default (direction_key ''dcs_'' encode suffix)"
  by (simp_all add: optional_default_def direction_key_def starts_with_def)

lemma valid_code_key: "valid_value (direction_key ''dcs_'' encode ''_code'') x \<longleftrightarrow> dcs_code_from_str x \<noteq> None"
  by (cases encode) (simp_all add: valid_value_def direction_key_def)

lemma valid_source_key:
  "valid_value (direction_key ''ctcss_'' encode ''_source'') x \<longleftrightarrow> parse_signal_source x \<noteq> None"
  "valid_value (direction_key ''dcs_'' encode ''_source'') x \<longleftrightarrow> parse_signal_source x \<noteq> None"
  by (cases encode; simp add: valid_value_def direction_key_def)+

lemma signal_control_ok: "signal_control v encode s = Inr s' \<Longrightarrow>
    sig_tone_tenths_hz s' = sig_tone_tenths_hz s \<and> sig_dcs_code s' = sig_dcs_code s \<and>
    sig_enabled s' = sig_enabled s \<and> sig_source s' = sig_source s"
  by (auto simp: signal_control_def res_simps split: if_splits option.splits)

lemma signal_settings_calm:
  assumes "\<And>x. code = Some x \<Longrightarrow> dcs_code_from_str x \<noteq> None" "\<And>x. selected = Some x \<Longrightarrow> parse_signal_source x \<noteq> None"
  shows "calm source (signal_settings toned tone code selected s)"
  using assms unfolding signal_settings_def Let_def
  by (intro calm_bind calm_option calm_Inr) auto

lemma signal_settings_ok:
  assumes "signal_ok s" "tone = None \<or> code = None" "signal_settings toned tone code selected s = Inr s'"
  shows "signal_ok s'"
  using assms
  by (cases tone; cases code; cases selected)
     (auto simp: signal_settings_def signal_ok_def with_tone_def with_code_def with_source_def Let_def
      split: option.splits if_splits)

lemma good_optional:
  "good_values D (rv_map v) \<Longrightarrow> values_text v k = Some x \<Longrightarrow> optional_default k \<Longrightarrow> valid_value k x"
  by (simp add: good_values_def values_text_def)

lemma good_default:
  "good_values D (rv_map v) \<Longrightarrow> k \<in> D \<Longrightarrow> \<exists>x. values_text v k = Some x \<and> valid_value k x"
  by (simp add: good_values_def values_text_def)

lemma remote_signal_calm:
  assumes "good_values D (rv_map v)" shows "calm (rv_source v) (remote_signal_of v encode inherited)"
proof -
  have code: "dcs_code_from_str x \<noteq> None" if "values_text v (direction_key ''dcs_'' encode ''_code'') = Some x" for x
    using good_optional [OF assms that signal_keys_optional(2)] valid_code_key by simp
  have source: "parse_signal_source x \<noteq> None"
    if "values_text v (direction_key ''ctcss_'' encode ''_source'') = Some x \<or>
      values_text v (direction_key ''dcs_'' encode ''_source'') = Some x" for x
    using that good_optional [OF assms _ signal_keys_optional(1)] good_optional [OF assms _ signal_keys_optional(2)]
      valid_source_key by fastforce
  have control: "calm (rv_source v) (signal_control v encode inherited)"
    by (auto simp: signal_control_def split: option.split intro!: calm_bind calm_ok_or_error)
  show ?thesis
    unfolding remote_signal_of_def Let_def
    by (intro calm_bind calm_if control calm_scaled calm_error signal_settings_calm)
      (use code source in \<open>auto split: option.splits\<close>)
qed

lemma remote_signal_ok:
  assumes "signal_ok inherited" "remote_signal_of v encode inherited = Inr s"
  shows "signal_ok s"
proof -
  obtain s0 tone where s0: "signal_control v encode inherited = Inr s0"
    and conflict: "tone = None \<or> values_text v (direction_key ''dcs_'' encode ''_code'') = None"
    and s: "signal_settings (values_text v (direction_key ''ctcss_'' encode ''_hz'') \<noteq> None) tone
      (values_text v (direction_key ''dcs_'' encode ''_code''))
      (case values_text v (direction_key ''ctcss_'' encode ''_source'') of Some x \<Rightarrow> Some x
       | None \<Rightarrow> values_text v (direction_key ''dcs_'' encode ''_source'')) s0 = Inr s"
    using assms(2) unfolding remote_signal_of_def Let_def res_bind_eq_Inr by (auto simp: res_simps split: if_splits)
  have "signal_ok s0" using assms(1) signal_control_ok [OF s0] by (simp add: signal_ok_def)
  then show ?thesis using signal_settings_ok conflict s by blast
qed

section \<open>The base settings\<close>

lemma calm_hamlib_options: "calm (rv_source v) (hamlib_options v es options)"
  by (induction v es options rule: hamlib_options.induct) (auto split: option.split)

lemma calm_backend: "calm (rv_source v) (backend_of v)"
  unfolding backend_of_def by (intro calm_bind calm_required calm_if) auto

lemma base_values_bounds:
  assumes "good_values base_keys (rv_map v)"
  shows "values_number parse_u32 v ''timeout_ms'' n = Inr a \<Longrightarrow> 1 \<le> a \<and> a \<le> 10000"
    and "values_number parse_u32 v ''retries'' n = Inr a \<Longrightarrow> 0 \<le> a \<and> a \<le> 10"
    and "values_number parse_u32 v ''timeout_retries'' n = Inr a \<Longrightarrow> 0 \<le> a \<and> a \<le> 100"
    and "values_number parse_u64 v ''poll_interval_ms'' n = Inr a \<Longrightarrow> 1 \<le> a \<and> a \<le> 2 ^ 64"
    and "values_number parse_u64 v ''tune_duration_ms'' n = Inr a \<Longrightarrow> 1 \<le> a \<and> a \<le> 5000"
proof -
  have g: "\<exists>x. values_text v k = Some x \<and> valid_value k x"
    if "k \<in> {''timeout_ms'', ''retries'', ''timeout_retries'', ''poll_interval_ms'', ''tune_duration_ms''}" for k
    using good_default [OF assms, of k] that by (auto simp: BASE_DEFAULTS_def)
  show "values_number parse_u32 v ''timeout_ms'' n = Inr a \<Longrightarrow> 1 \<le> a \<and> a \<le> 10000"
    using g [of "''timeout_ms''"] values_number_bounds [of parse_u32 v "''timeout_ms''" n a]
    by (auto simp: valid_value_def)
  show "values_number parse_u32 v ''retries'' n = Inr a \<Longrightarrow> 0 \<le> a \<and> a \<le> 10"
    using g [of "''retries''"] values_number_bounds [of parse_u32 v "''retries''" n a]
    by (auto simp: valid_value_def)
  show "values_number parse_u32 v ''timeout_retries'' n = Inr a \<Longrightarrow> 0 \<le> a \<and> a \<le> 100"
    using g [of "''timeout_retries''"] values_number_bounds [of parse_u32 v "''timeout_retries''" n a]
    by (auto simp: valid_value_def)
  show "values_number parse_u64 v ''poll_interval_ms'' n = Inr a \<Longrightarrow> 1 \<le> a \<and> a \<le> 2 ^ 64"
    using g [of "''poll_interval_ms''"] values_number_bounds [of parse_u64 v "''poll_interval_ms''" n a _ 1 "2 ^ 64"]
    by (auto simp: valid_value_def)
  show "values_number parse_u64 v ''tune_duration_ms'' n = Inr a \<Longrightarrow> 1 \<le> a \<and> a \<le> 5000"
    using g [of "''tune_duration_ms''"] values_number_bounds [of parse_u64 v "''tune_duration_ms''" n a]
    by (auto simp: valid_value_def)
qed

definition mode_ok :: "int \<Rightarrow> bool" where
  "mode_ok m \<longleftrightarrow> 1 \<le> m \<and> m \<le> 12"

definition base_ok :: "remote_base_settings \<Rightarrow> bool" where
  "base_ok b \<longleftrightarrow>
     1 \<le> base_timeout_ms b \<and> base_timeout_ms b \<le> 10000 \<and> 0 \<le> base_retries b \<and> base_retries b \<le> 10 \<and>
     0 \<le> base_timeout_retries b \<and> base_timeout_retries b \<le> 100 \<and> 1 \<le> base_poll_interval_ms b \<and>
     base_modes b \<noteq> [] \<and> list_all mode_ok (base_modes b) \<and>
     base_receive_ranges b \<noteq> [] \<and> list_all good_range (base_receive_ranges b) \<and>
     (base_backend b = BackendHamlib \<longrightarrow> hamlib_model_ok (base_hamlib_model b)) \<and>
     signal_ok (base_encode b) \<and> signal_ok (base_decode b)"

lemma allowed_modes_ok:
  assumes "collect_results (map (\<lambda>name. ok_or_error v key (remote_mode (trim name)))
      (split_on p names)) = Inr modes"
  shows "modes \<noteq> [] \<and> list_all mode_ok modes"
proof -
  have eq: "map (\<lambda>name. ok_or_error v key (remote_mode (trim name))) (split_on p names) = map Inr modes"
    using assms by (simp add: collect_results_Inr)
  have "mode_ok m" if "m \<in> set modes" for m
  proof -
    have "Inr m \<in> set (map (\<lambda>name. ok_or_error v key (remote_mode (trim name))) (split_on p names))"
      unfolding eq using that by simp
    then show ?thesis using remote_mode_bounds by (auto simp: mode_ok_def res_simps dest!: sym [of "Inr m"])
  qed
  then show ?thesis using eq by (auto simp: list_all_iff)
qed

lemma resolve_base_calm:
  assumes "good_values D (rv_map v)" shows "calm (rv_source v) (resolve_base v station)"
  unfolding resolve_base_def Let_def
  by (intro calm_bind calm_if calm_backend calm_hamlib_options calm_number calm_required calm_collect calm_ranges
      calm_error calm_Inr remote_signal_calm [OF assms]) (auto intro: calm_ok_or_error)

lemma resolve_base_ok:
  assumes "good_values base_keys (rv_map v)" "resolve_base v station = Inr b"
  shows "base_ok b"
proof -
  obtain backend options timeout retries timeout_retries poll names modes ranges encode decode where
    b: "values_number parse_u32 v ''timeout_ms'' 500 = Inr timeout"
      "values_number parse_u32 v ''retries'' 2 = Inr retries"
      "values_number parse_u32 v ''timeout_retries'' 0 = Inr timeout_retries"
      "values_number parse_u64 v ''poll_interval_ms'' 500 = Inr poll"
      "collect_results (map (\<lambda>name. ok_or_error v ''allowed_modes'' (remote_mode (trim name)))
        (split_on (\<lambda>c. c = CHR '','') names)) = Inr modes"
      "remote_ranges v ''allowed_rx_ranges_hz'' = Inr ranges" "ranges \<noteq> []"
      "remote_signal_of v True (station_signal station True) = Inr encode"
      "remote_signal_of v False (station_signal station False) = Inr decode"
      "backend = BackendHamlib \<longrightarrow> hamlib_model_ok (value_or v ''hamlib_model'' '''')"
    and eq: "b = \<lparr>base_backend = backend,
                 base_audio_source = (if value_or v ''audio_source'' ''cm119'' = ''alsa'' then AudioAlsa else AudioCm119),
                 base_hamlib_model = value_or v ''hamlib_model'' '''', base_hamlib_options = options, base_timeout_ms = timeout,
                 base_retries = retries, base_timeout_retries = timeout_retries, base_poll_interval_ms = poll,
                 base_modes = modes, base_receive_ranges = ranges,
                 base_encode = encode, base_decode = decode\<rparr>"
    using assms(2) unfolding resolve_base_def Let_def res_bind_eq_Inr by (auto simp: res_simps split: if_splits)
  show ?thesis
    using base_values_bounds [OF assms(1)] b(1-4) allowed_modes_ok [OF b(5)] remote_ranges_good [OF b(6)] b(7,10)
      remote_signal_ok [OF station_signal_ok b(8)] remote_signal_ok [OF station_signal_ok b(9)]
    unfolding eq base_ok_def by simp
qed

section \<open>Memories\<close>

definition memory_ok :: "remote_memory \<Rightarrow> bool" where
  "memory_ok m \<longleftrightarrow>
     0 < mem_selector m \<and> mem_selector m < 2 ^ 32 \<and> 0 < os_receive_hz (mem_state m) \<and>
     mode_ok (os_mode (mem_state m)) \<and>
     (case os_channel (mem_state m) of None \<Rightarrow> True | Some c \<Rightarrow> 0 \<le> c \<and> c \<le> 15) \<and>
     signal_ok (os_encode (mem_state m)) \<and> signal_ok (os_decode (mem_state m))"

definition memories_ok :: "remote_memory list \<Rightarrow> bool" where
  "memories_ok ms \<longleftrightarrow> list_all memory_ok ms \<and> distinct (map mem_selector ms)"

lemma memory_state_calm:
  assumes "good_values D (rv_map m)"
  shows "calm (rv_source m) (memory_state m encode decode receive transmit mode channel)"
  unfolding memory_state_def
  by (intro calm_bind calm_number calm_scaled calm_Inr remote_signal_calm [OF assms])

lemma memory_state_ok:
  assumes "memory_state m encode decode receive transmit mode channel = Inr s" "signal_ok encode" "signal_ok decode"
  shows "os_receive_hz s = receive \<and> os_mode s = mode \<and> os_channel s = channel \<and>
    signal_ok (os_encode s) \<and> signal_ok (os_decode s)"
  using assms remote_signal_ok unfolding memory_state_def res_bind_eq_Inr by auto

lemma calm_transmit: "calm (rv_source m) (memory_transmit m)"
  by (auto simp: memory_transmit_def calm_ok_or_error split: option.split)

lemma resolve_memory_calm:
  assumes "good_values D (rv_map m)"
  shows "calm (rv_source m) (resolve_memory m name encode decode memories)"
  unfolding resolve_memory_def
  by (intro calm_bind calm_if calm_number calm_transmit calm_ok_or_error calm_optional calm_error calm_Inr
      memory_state_calm [OF assms])

lemma resolve_memory_ok:
  assumes "resolve_memory m name encode decode memories = Inr memory" "signal_ok encode" "signal_ok decode"
  shows "memory_ok memory \<and> mem_selector memory \<notin> mem_selector ` set memories"
proof -
  obtain selector receive transmit mode channel state where
    r: "values_number parse_u32 m ''selector'' 0 = Inr selector" "selector \<noteq> 0"
      "\<not> list_ex (\<lambda>old. mem_selector old = selector) memories"
      "values_number parse_u64 m ''rx_frequency_hz'' 0 = Inr receive" "receive \<noteq> 0"
      "remote_mode (case values_text m ''mode'' of Some x \<Rightarrow> x | None \<Rightarrow> ''FM'') = Some mode"
      "values_optional parse_u8 m ''channel'' = Inr channel" "case channel of Some n \<Rightarrow> n \<le> 15 | None \<Rightarrow> True"
      "memory_state m encode decode receive transmit mode channel = Inr state"
    and eq: "memory = \<lparr>mem_selector = selector, mem_name = name, mem_state = state\<rparr>"
    using assms(1) unfolding resolve_memory_def res_bind_eq_Inr
    by (auto simp: res_simps not_less split: if_splits option.splits)
  have "0 \<le> selector \<and> selector < 2 ^ 32" "0 \<le> receive"
    using r(1,4) parse_u32_bounds parse_u64_bounds by (auto simp: values_number_def res_simps split: option.splits)
  moreover have "case channel of None \<Rightarrow> True | Some c \<Rightarrow> 0 \<le> c \<and> c \<le> 15"
    using r(7,8) parse_u8_bounds by (auto simp: values_optional_def res_simps split: option.splits)
  ultimately show ?thesis
    using r(2,3,5) remote_mode_bounds [OF r(6)] memory_state_ok [OF r(9) assms(2,3)]
    by (auto simp: eq memory_ok_def mode_ok_def list_ex_iff)
qed

lemma resolve_memories_outcome:
  assumes "signal_ok encode" "signal_ok decode" "rv_source v = source"
  shows "calm source (resolve_memories doc source node v encode decode sections ms ws) \<and>
    (memories_ok ms \<longrightarrow>
     (case resolve_memories doc source node v encode decode sections ms ws of
        Inr (ms', _) \<Rightarrow> memories_ok ms' | Inl _ \<Rightarrow> True))"
proof (induction sections arbitrary: ms ws)
  case (Cons sect sections)
  show ?case
  proof (cases "node_section ''remote_memory'' node sect")
    case None
    then show ?thesis using Cons by simp
  next
    case (Some found)
    show ?thesis
    proof (cases found)
      case None
      then show ?thesis using Some assms(3) calm_error [of v] by auto
    next
      case (Some name)
      note node = \<open>node_section ''remote_memory'' node sect = Some found\<close> Some
      show ?thesis
      proof (cases "remote_overlay doc source sect (remote_defaults MEMORY_DEFAULTS) ws")
        case (Inl e)
        then show ?thesis
          using node calm_overlay [of source doc sect "remote_defaults MEMORY_DEFAULTS" ws] by (auto simp: calm_def)
      next
        case (Inr sw)
        obtain settings ws1 where sw: "sw = (settings, ws1)" by (cases sw)
        let ?m = "\<lparr>rv_source = source, rv_section = sect, rv_map = settings\<rparr>"
        have good: "good_values memory_keys (rv_map ?m)"
          using remote_overlay_good [OF memory_defaults_good] Inr sw by fastforce
        show ?thesis
        proof (cases "resolve_memory ?m name encode decode ms")
          case (Inl e)
          then show ?thesis
            using node \<open>_ = Inr sw\<close> sw resolve_memory_calm [OF good, of name encode decode ms] by (auto simp: calm_def)
        next
          case (Inr memory)
          have "memories_ok ms \<Longrightarrow> memories_ok (ms @ [memory])"
            using resolve_memory_ok [OF Inr assms(1,2)] by (auto simp: memories_ok_def)
          then show ?thesis
            using node \<open>remote_overlay _ _ _ _ _ = Inr sw\<close> sw Inr
              Cons [of "ms @ [memory]" "ws1 @ values_unknown ?m MEMORY_KEYS False"]
            by (auto split: sum.splits)
        qed
      qed
    qed
  qed
qed simp

lemma memory_lookup_member: "memory_lookup ms name = Some s \<Longrightarrow> s \<in> mem_selector ` set ms"
  by (auto simp: memory_lookup_def find_Some_iff)

section \<open>Scan lists\<close>

definition scan_ok :: "remote_memory list \<Rightarrow> remote_scan_list \<Rightarrow> bool" where
  "scan_ok ms s \<longleftrightarrow>
     0 < scan_selector s \<and> scan_selector s < 2 ^ 32 \<and> scan_members s \<noteq> [] \<and>
     set (scan_members s) \<subseteq> mem_selector ` set ms \<and>
     (case scan_priority s of None \<Rightarrow> True | Some p \<Rightarrow> p \<in> set (scan_members s)) \<and>
     1 \<le> scan_dwell_ms s \<and> 0 \<le> scan_settle_ms s \<and> scan_dwell_ms s + scan_settle_ms s < 2 ^ 64 \<and>
     0 \<le> scan_resume_delay_ms s \<and> scan_resume_delay_ms s < 2 ^ 64"

definition scans_ok :: "remote_memory list \<Rightarrow> remote_scan_list list \<Rightarrow> bool" where
  "scans_ok ms ss \<longleftrightarrow> list_all (scan_ok ms) ss \<and> distinct (map scan_selector ss)"

lemma resolve_scan_calm: "calm (rv_source v) (resolve_scan v name memories scans)"
  unfolding resolve_scan_def
  by (intro calm_bind calm_if calm_option calm_number calm_required calm_collect calm_ok_or_error calm_error calm_Inr)
     (auto intro: calm_ok_or_error)

lemma resolve_scan_ok:
  assumes "resolve_scan v name memories scans = Inr scan" "good_values scan_keys (rv_map v)"
  shows "scan_ok memories scan \<and> scan_selector scan \<notin> scan_selector ` set scans"
proof -
  obtain selector names members priority dwell settle resume where
    r: "values_number parse_u32 v ''selector'' 0 = Inr selector" "selector \<noteq> 0"
      "\<not> list_ex (\<lambda>old. scan_selector old = selector) scans"
      "collect_results (map (\<lambda>name. ok_or_error v ''members'' (memory_lookup memories (trim name)))
        (split_on (\<lambda>c. c = CHR '','') names)) = Inr members"
      "values_number parse_u64 v ''dwell_ms'' 500 = Inr dwell" "values_number parse_u64 v ''settle_ms'' 0 = Inr settle"
      "dwell + settle < 2 ^ 64" "case priority of Some m \<Rightarrow> m \<in> set members | None \<Rightarrow> True"
      "values_number parse_u64 v ''resume_delay_ms'' 2000 = Inr resume"
    and eq: "scan = \<lparr>scan_selector = selector, scan_name = name, scan_members = members, scan_dwell_ms = dwell,
                scan_resume_delay_ms = resume, scan_settle_ms = settle, scan_priority = priority\<rparr>"
    using assms(1) unfolding resolve_scan_def res_bind_eq_Inr
    by (auto simp: res_simps not_le split: if_splits option.splits)
  have numbers: "0 \<le> selector \<and> selector < 2 ^ 32" "0 \<le> settle" "0 \<le> resume \<and> resume < 2 ^ 64"
    using r(1,6,9) parse_u32_bounds parse_u64_bounds by (auto simp: values_number_def res_simps split: option.splits)
  obtain x where "values_text v ''dwell_ms'' = Some x" "valid_value ''dwell_ms'' x"
    using good_default [OF assms(2), of "''dwell_ms''"] by (auto simp: SCAN_DEFAULTS_def)
  then have dwell: "1 \<le> dwell"
    using values_number_bounds [OF r(5), of x 1 "2 ^ 64"] by (simp add: valid_value_def)
  have map_eq: "map (\<lambda>name. ok_or_error v ''members'' (memory_lookup memories (trim name)))
      (split_on (\<lambda>c. c = CHR '','') names) = map Inr members"
    using r(4) by (simp add: collect_results_Inr)
  have members: "m \<in> mem_selector ` set memories" if "m \<in> set members" for m
  proof -
    have "Inr m \<in> set (map (\<lambda>name. ok_or_error v ''members'' (memory_lookup memories (trim name)))
        (split_on (\<lambda>c. c = CHR '','') names))"
      unfolding map_eq using that by simp
    then show ?thesis using memory_lookup_member by (auto simp: res_simps dest!: sym [of "Inr m"])
  qed
  have "members \<noteq> []" using map_eq by auto
  then show ?thesis
    using r(2,3,7,8) numbers dwell members by (auto simp: eq scan_ok_def list_ex_iff split: option.splits)
qed

lemma resolve_scans_outcome:
  assumes "rv_source v = source"
  shows "calm source (resolve_scans doc source node v memories sections ss ws) \<and>
    (scans_ok memories ss \<longrightarrow>
     (case resolve_scans doc source node v memories sections ss ws of
        Inr (ss', _) \<Rightarrow> scans_ok memories ss' | Inl _ \<Rightarrow> True))"
proof (induction sections arbitrary: ss ws)
  case (Cons sect sections)
  show ?case
  proof (cases "node_section ''remote_scan'' node sect")
    case None
    then show ?thesis using Cons by simp
  next
    case (Some found)
    show ?thesis
    proof (cases found)
      case None
      then show ?thesis using Some assms calm_error [of v] by auto
    next
      case (Some name)
      note node = \<open>node_section ''remote_scan'' node sect = Some found\<close> Some
      show ?thesis
      proof (cases "remote_overlay doc source sect (remote_defaults SCAN_DEFAULTS) ws")
        case (Inl e)
        then show ?thesis
          using node calm_overlay [of source doc sect "remote_defaults SCAN_DEFAULTS" ws] by (auto simp: calm_def)
      next
        case (Inr sw)
        obtain settings ws1 where sw: "sw = (settings, ws1)" by (cases sw)
        let ?s = "\<lparr>rv_source = source, rv_section = sect, rv_map = settings\<rparr>"
        have good: "good_values scan_keys (rv_map ?s)"
          using remote_overlay_good [OF scan_defaults_good] Inr sw by fastforce
        show ?thesis
        proof (cases "resolve_scan ?s name memories ss")
          case (Inl e)
          then show ?thesis
            using node \<open>_ = Inr sw\<close> sw resolve_scan_calm [of ?s name memories ss] by (auto simp: calm_def)
        next
          case (Inr scan)
          have "scans_ok memories ss \<Longrightarrow> scans_ok memories (ss @ [scan])"
            using resolve_scan_ok [OF Inr good] by (auto simp: scans_ok_def)
          then show ?thesis
            using node \<open>remote_overlay _ _ _ _ _ = Inr sw\<close> sw Inr
              Cons [of "ss @ [scan]" "ws1 @ values_unknown ?s SCAN_KEYS False"]
            by (auto split: sum.splits)
        qed
      qed
    qed
  qed
qed simp

section \<open>Warnings\<close>

definition redacted :: "warnings \<Rightarrow> bool" where
  "redacted ws \<longleftrightarrow> list_all (\<lambda>w. warn_supplied_value w = ''<redacted>'') ws"

lemma redacted_simps [simp]:
  "redacted []" "redacted (ws @ ws') \<longleftrightarrow> redacted ws \<and> redacted ws'"
  "redacted [remote_warning source sect key kind fallback]"
  by (simp_all add: redacted_def remote_warning_def)

lemma values_unknown_redacted [simp]: "redacted (values_unknown v allowed transport)"
  by (auto simp: redacted_def values_unknown_def remote_warning_def list_all_iff)

lemma overlay_values_redacted:
  "redacted ws \<Longrightarrow> overlay_values source section es m ws = (m', ws') \<Longrightarrow> redacted ws'"
  by (induction source "section" es m ws rule: overlay_values.induct) (auto split: if_splits)

lemma remote_overlay_redacted:
  "redacted ws \<Longrightarrow> remote_overlay doc source section m ws = Inr (m', ws') \<Longrightarrow> redacted ws'"
  unfolding remote_overlay_def res_bind_eq_Inr using overlay_values_redacted by (metis sum.inject(2))

lemma resolve_memories_redacted:
  "resolve_memories doc source node v encode decode sections ms ws = Inr (ms', ws') \<Longrightarrow> redacted ws \<Longrightarrow> redacted ws'"
proof (induction sections arbitrary: ms ws)
  case (Cons sect sections)
  then show ?case
    by (auto simp: Let_def res_bind_eq_Inr split: option.splits
        dest!: remote_overlay_redacted [OF Cons.prems(2)])
qed simp

lemma resolve_scans_redacted:
  "resolve_scans doc source node v memories sections ss ws = Inr (ss', ws') \<Longrightarrow> redacted ws \<Longrightarrow> redacted ws'"
proof (induction sections arbitrary: ss ws)
  case (Cons sect sections)
  then show ?case
    by (auto simp: Let_def res_bind_eq_Inr split: option.splits
        dest!: remote_overlay_redacted [OF Cons.prems(2)])
qed simp

section \<open>The whole configuration\<close>

definition source_ok :: "string list \<Rightarrow> string option \<Rightarrow> bool" where
  "source_ok allowed x \<longleftrightarrow> (case x of None \<Rightarrow> True | Some s \<Rightarrow> s \<in> set allowed)"

definition dtmf_prefix_ok :: "string \<Rightarrow> bool" where
  "dtmf_prefix_ok s \<longleftrightarrow> 1 \<le> length s \<and> length s \<le> 63 \<and> list_all is_ascii_digit s"

definition remote_ok :: "resolved_remote_configuration \<Rightarrow> bool" where
  "remote_ok c \<longleftrightarrow>
     1 \<le> rc_timeout_ms c \<and> rc_timeout_ms c \<le> 10000 \<and> 0 \<le> rc_retries c \<and> rc_retries c \<le> 10 \<and>
     0 \<le> rc_timeout_retries c \<and> rc_timeout_retries c \<le> 100 \<and> 1 \<le> rc_poll_interval_ms c \<and>
     1 \<le> rc_tune_duration_ms c \<and> rc_tune_duration_ms c \<le> 5000 \<and>
     rc_modes c \<noteq> [] \<and> list_all mode_ok (rc_modes c) \<and>
     rc_receive_ranges c \<noteq> [] \<and> list_all good_range (rc_receive_ranges c) \<and>
     list_all good_range (rc_transmit_ranges c) \<and> list_all good_range (rc_receive_only_ranges c) \<and>
     (rc_backend c = BackendHamlib \<longrightarrow> hamlib_model_ok (rc_hamlib_model c)) \<and>
     memories_ok (rc_memories c) \<and> rc_startup_memory c \<in> mem_selector ` set (rc_memories c) \<and>
     scans_ok (rc_memories c) (rc_scan_lists c) \<and>
     source_ok [''hamlib'', ''usb'', ''parallel''] (rc_ptt_source c) \<and>
     source_ok [''hamlib'', ''dsp'', ''usb'', ''parallel'', ''open''] (rc_cor_source c) \<and>
     dtmf_prefix_ok (rc_dtmf_prefix c) \<and> redacted (rc_warnings c)"

lemma finish_remote_calm: "calm (rv_source v) (finish_remote v base memories startup scans ws)"
  unfolding finish_remote_def
  by (intro calm_bind calm_if calm_number calm_ranges calm_scaled calm_optional calm_error calm_Inr)

lemma finish_remote_ok:
  assumes "finish_remote v base memories startup scans ws = Inr c" "good_values base_keys (rv_map v)"
    "base_ok base" "memories_ok memories" "startup \<in> mem_selector ` set memories" "scans_ok memories scans"
    "redacted ws"
  shows "remote_ok c"
proof -
  obtain tune transmit only where r: "values_number parse_u64 v ''tune_duration_ms'' 1000 = Inr tune"
      "source_allowed v ''ptt_source'' [''hamlib'', ''usb'', ''parallel'']"
      "source_allowed v ''cor_source'' [''hamlib'', ''dsp'', ''usb'', ''parallel'', ''open'']"
      "remote_ranges v ''allowed_tx_ranges_hz'' = Inr transmit" "remote_ranges v ''receive_only_ranges_hz'' = Inr only"
    and eq: "rc_tune_duration_ms c = tune" "rc_transmit_ranges c = transmit" "rc_receive_only_ranges c = only"
      "rc_ptt_source c = values_text v ''ptt_source''" "rc_cor_source c = values_text v ''cor_source''"
      "rc_dtmf_prefix c = value_or v ''dtmf_prefix'' ''6''" "rc_warnings c = ws"
      "rc_memories c = memories" "rc_scan_lists c = scans" "rc_startup_memory c = startup"
      "rc_backend c = base_backend base" "rc_hamlib_model c = base_hamlib_model base"
      "rc_timeout_ms c = base_timeout_ms base" "rc_retries c = base_retries base"
      "rc_timeout_retries c = base_timeout_retries base" "rc_poll_interval_ms c = base_poll_interval_ms base"
      "rc_receive_ranges c = base_receive_ranges base" "rc_modes c = base_modes base"
    using assms(1) unfolding finish_remote_def res_bind_eq_Inr by (auto simp: res_simps split: if_splits)
  have "valid_value ''dtmf_prefix'' (value_or v ''dtmf_prefix'' ''6'')"
    using good_default [OF assms(2), of "''dtmf_prefix''"] by (auto simp: BASE_DEFAULTS_def value_or_def)
  then have "dtmf_prefix_ok (rc_dtmf_prefix c)" by (simp add: eq valid_value_def dtmf_prefix_ok_def)
  moreover have "source_ok [''hamlib'', ''usb'', ''parallel''] (rc_ptt_source c)"
    "source_ok [''hamlib'', ''dsp'', ''usb'', ''parallel'', ''open''] (rc_cor_source c)"
    using r(2,3) by (simp_all only: eq source_ok_def source_allowed_def)
  ultimately show ?thesis
    using assms(3-7) base_values_bounds(5) [OF assms(2) r(1)] remote_ranges_good [OF r(4)] remote_ranges_good [OF r(5)]
    by (simp add: remote_ok_def base_ok_def eq)
qed

text \<open>Without a word in a section on the transmit ranges there are none; written empty, they are an error.\<close>

lemma empty_ranges:
  "values_text v key = None \<Longrightarrow> remote_ranges v key = Inr []"
  "values_text v key = Some [] \<Longrightarrow> remote_ranges v key = Inl (values_error v key)"
  by (simp_all add: remote_ranges_def parse_range_def ok_or_error_def trim_def trim_start_def)


lemma resolve_memories_ok:
  assumes "resolve_memories doc source node v encode decode sections [] ws = Inr (ms, ws')"
    "signal_ok encode" "signal_ok decode" "rv_source v = source"
  shows "memories_ok ms"
  using resolve_memories_outcome [OF assms(2-4), of doc node sections "[]" ws] assms(1) by (simp add: memories_ok_def)

lemma resolve_scans_ok:
  assumes "resolve_scans doc source node v memories sections [] ws = Inr (ss, ws')" "rv_source v = source"
  shows "scans_ok memories ss"
  using resolve_scans_outcome [OF assms(2), of doc node memories sections "[]" ws] assms(1) by (simp add: scans_ok_def)

lemma remote_from_document_ok:
  assumes "remote_from_document doc source node station = Inr (Some c)"
  shows "remote_ok c"
proof -
  obtain m0 ws0 m1 ws1 base memories ws2 name startup scans ws3 where
    o: "remote_overlay doc source ''remote_base'' (remote_defaults BASE_DEFAULTS) [] = Inr (m0, ws0)"
      "remote_overlay doc source (''remote_base '' @ node) m0 ws0 = Inr (m1, ws1)"
    and r: "resolve_base \<lparr>rv_source = source, rv_section = ''remote_base '' @ node, rv_map = m1\<rparr> station = Inr base"
      "resolve_memories doc source node \<lparr>rv_source = source, rv_section = ''remote_base '' @ node, rv_map = m1\<rparr>
        (base_encode base) (base_decode base) (section_names doc) []
        (ws1 @ values_unknown \<lparr>rv_source = source, rv_section = ''remote_base '' @ node, rv_map = m1\<rparr> BASE_KEYS True)
        = Inr (memories, ws2)"
      "memory_lookup memories name = Some startup"
      "resolve_scans doc source node \<lparr>rv_source = source, rv_section = ''remote_base '' @ node, rv_map = m1\<rparr>
        memories (section_names doc) [] ws2 = Inr (scans, ws3)"
      "finish_remote \<lparr>rv_source = source, rv_section = ''remote_base '' @ node, rv_map = m1\<rparr>
        base memories startup scans ws3 = Inr c"
    using assms unfolding remote_from_document_def Let_def res_bind_eq_Inr
    by (auto simp: res_simps res_bind_eq_Inr split: if_splits)
  have good: "good_values base_keys m1"
    using remote_overlay_good [OF remote_overlay_good [OF base_defaults_good o(1)] o(2)] .
  have base: "base_ok base" using resolve_base_ok [OF _ r(1)] good by simp
  have signals: "signal_ok (base_encode base)" "signal_ok (base_decode base)" using base by (simp_all add: base_ok_def)
  have memories: "memories_ok memories" using resolve_memories_ok [OF r(2) signals] by simp
  have "redacted ws1"
    using remote_overlay_redacted [OF _ o(2)] remote_overlay_redacted [OF _ o(1)] by simp
  then have "redacted ws3"
    using resolve_memories_redacted [OF r(2)] resolve_scans_redacted [OF r(4)] by simp
  then show ?thesis
    using finish_remote_ok [OF r(5) _ base memories memory_lookup_member [OF r(3)] resolve_scans_ok [OF r(4)]] good
    by simp
qed

lemma calm_bind_pair:
  "calm source r \<Longrightarrow> (\<And>a b. r = Inr (a, b) \<Longrightarrow> calm source (f a b)) \<Longrightarrow>
   calm source (res_bind r (\<lambda>(a, b). f a b))"
  by (cases r) (auto simp: calm_def)

lemma remote_from_document_calm: "calm source (remote_from_document doc source node station)"
proof -
  let ?v = "\<lambda>m. \<lparr>rv_source = source, rv_section = ''remote_base '' @ node, rv_map = m\<rparr>"
  have overlays: "good_values base_keys m1"
    if "remote_overlay doc source ''remote_base'' (remote_defaults BASE_DEFAULTS) [] = Inr (m0, ws0)"
      "remote_overlay doc source (''remote_base '' @ node) m0 ws0 = Inr (m1, ws1)" for m0 ws0 m1 ws1
    using remote_overlay_good [OF remote_overlay_good [OF base_defaults_good that(1)] that(2)] .
  have parts: "calm source (ok_or_error (?v m) k x)" "calm source (values_required (?v m) k)"
    "calm source (finish_remote (?v m) base memories startup scans ws)"
    "calm source (resolve_scans doc source node (?v m) memories sections [] ws)" for m k base memories startup scans ws sections
      and x :: "'x option"
    using calm_ok_or_error [of "?v m" k x] calm_required [of "?v m"] finish_remote_calm [of "?v m"]
      resolve_scans_outcome [of "?v m" source] by simp_all
  have lookup: "calm source (ok_or_error (?v m) k x)" for m k and x :: "int option"
    using calm_ok_or_error [of "?v m" k x] by simp
  have enabled: "calm source (ok_or_error (?v m) k x)" for m k and x :: "bool option"
    using calm_ok_or_error [of "?v m" k x] by simp
  have base: "calm source (resolve_base (?v m) station)" if "good_values base_keys m" for m
    using resolve_base_calm [of base_keys "?v m"] that by simp
  have memories: "calm source (resolve_memories doc source node (?v m) (base_encode b) (base_decode b) sections [] ws)"
    if "good_values base_keys m" "resolve_base (?v m) station = Inr b" for m b sections ws
    using resolve_memories_outcome [of "base_encode b" "base_decode b" "?v m" source]
      resolve_base_ok [of "?v m" station b] that by (simp add: base_ok_def)
  show ?thesis
    unfolding remote_from_document_def Let_def
    by (rule calm_bind_pair calm_bind calm_if calm_overlay calm_Inr enabled lookup parts base memories | erule (1) overlays | assumption)+
qed

section \<open>The property\<close>

text \<open>C32: Resolving the remote base of a node never reaches an \<open>expect\<close> of the code, and an error names the
  document that was given. A disabled remote base gives no configuration; an enabled one that is accepted
  has its timing in range, at least one mode and one receive range, ordered nonempty ranges, a Hamlib model
  of the required form when Hamlib is the back end, memories with distinct selectors, one signaling type
  and a valid mode and channel each, a startup memory among them, scan lists with distinct selectors whose
  members and priority are memories, permitted PTT and COR sources, a DTMF prefix of 1 to 63 digits, and
  warnings that never repeat a supplied value.
\<close>

theorem remote_outcomes:
  "case remote_from_document doc source node station of
     Inl (RemoteError e) \<Rightarrow> re_source e = source
   | Inl RemotePanic \<Rightarrow> False
   | Inr None \<Rightarrow> True
   | Inr (Some c) \<Rightarrow> remote_ok c"
  using remote_from_document_calm [of source doc node station] remote_from_document_ok [of doc source node station]
  by (auto simp: calm_def split: sum.splits remote_failure.splits option.splits)

end
