(* ===== verification/Handoff.thy ===== *)
theory Handoff
  imports Prelude Transition_System "HOL-Library.Word" "HOL-Library.Sublist"
begin

unbundle bit_operations_syntax

text \<open>
  The newest-audio handoff between the real-time producer and the Asterisk consumer,
  \<^verbatim>\<open>rust/asl3/src/handoff.rs\<close>: a lock-free ring of slots with one producer and one consumer. Every
  atomic access of \<open>push\<close>, \<open>pop\<close> and \<open>observe\<close>, and every access to a slot, is a step of its own; the steps of the
  two endpoints interleave freely, under sequential consistency. The shared words keep their 64-bit
  width: \<open>consumer_state\<close> carries the claim bit above the index, and \<open>generation\<close> and \<open>discarded\<close> wrap.

  The fields from \<open>bumps\<close> on are history that no step reads: the number of generation increments,
  the published and the delivered values, how many published values have left the queue, and how many
  were evicted or dropped.
\<close>

section \<open>State\<close>

definition READING :: "64 word" where
  "READING = push_bit 63 1"

definition INDEX_MASK :: "64 word" where
  "INDEX_MASK = NOT READING"

datatype handoff_error = InvalidSlotCount

datatype publish_outcome = Published | ReplacedStale | DroppedDuringRead

text \<open>
  Where the producer is in \<open>push\<close>: before the first load of the consumer state, before the first
  increment of the generation, before the second load, before the exchange, before the statistics of an
  eviction, before the slot write and the cursor store (the flag tells an eviction), before the last
  increment, and before the two steps of \<open>finish_drop\<close>.
\<close>

datatype 'a producer_pc =
    PIdle
  | PLoad 'a
  | PBump 'a
  | PReload 'a
  | PExchange 'a nat
  | PCount 'a nat
  | PWrite 'a bool
  | PStore 'a bool
  | PFinish
  | PDropCount
  | PDropBump

text \<open>
  Where the consumer is in \<open>pop\<close>: before the load of the generation, of the consumer state, of the
  cursor, before the claim, before the check of the generation, before giving a claim back, before the
  copy, and before the release.
\<close>

datatype 'a consumer_pc =
    CIdle
  | CGeneration
  | CState "64 word"
  | CCursor "64 word" nat
  | CClaim "64 word"
  | CCheck "64 word" nat
  | CUnclaim nat
  | CCopy nat
  | CRelease nat 'a

record 'a handoff =
  slots :: "'a option list"
  producer :: nat
  consumer_state :: "64 word"
  generation :: "64 word"
  discarded :: "64 word"
  producer_at :: "'a producer_pc"
  consumer_at :: "'a consumer_pc"
  pushed :: "publish_outcome option"
  popped :: "'a option"
  bumps :: nat
  published :: "'a list"
  gone :: nat
  delivered :: "'a list"
  evicted :: nat
  dropped :: nat

definition next_index :: "nat \<Rightarrow> nat \<Rightarrow> nat" where
  "next_index index count = (index + 1) mod count"

definition distance :: "nat \<Rightarrow> nat \<Rightarrow> nat \<Rightarrow> nat" where
  "distance first second count = (second + count - first) mod count"

definition cs_index :: "64 word \<Rightarrow> nat" where
  "cs_index w = unat (w AND INDEX_MASK)"

definition handoff_split :: "nat \<Rightarrow> (handoff_error, 'a handoff) result" where
  "handoff_split slot_count =
     (if \<not> (2 \<le> slot_count \<and> slot_count \<le> unat INDEX_MASK) then Inl InvalidSlotCount
      else Inr \<lparr>slots = replicate slot_count None, producer = 0, consumer_state = 0, generation = 0,
                discarded = 0, producer_at = PIdle, consumer_at = CIdle, pushed = None, popped = None,
                bumps = 0, published = [], gone = 0, delivered = [], evicted = 0, dropped = 0\<rparr>)"

definition bump :: "'a handoff \<Rightarrow> 'a handoff" where
  "bump s = s\<lparr>generation := generation s + 1, bumps := bumps s + 1\<rparr>"

section \<open>The producer\<close>

text \<open>One step of \<open>push\<close>; the producer waits for no one, so the step is a function.\<close>

definition producer_next :: "'a handoff \<Rightarrow> 'a handoff" where
  "producer_next s =
     (case producer_at s of
        PIdle \<Rightarrow> s
      | PLoad v \<Rightarrow>
          if next_index (producer s) (length (slots s)) \<noteq> cs_index (consumer_state s)
          then s\<lparr>producer_at := PWrite v False\<rparr>
          else s\<lparr>producer_at := PBump v\<rparr>
      | PBump v \<Rightarrow> (bump s)\<lparr>producer_at := PReload v\<rparr>
      | PReload v \<Rightarrow> s\<lparr>producer_at := PExchange v (cs_index (consumer_state s))\<rparr>
      | PExchange v consumer \<Rightarrow>
          if consumer_state s = word_of_nat consumer
          then s\<lparr>consumer_state := word_of_nat (producer s), producer_at := PCount v consumer,
                 gone := length (published s),
                 evicted := evicted s + (length (published s) - gone s)\<rparr>
          else s\<lparr>producer_at := PDropCount\<rparr>
      | PCount v consumer \<Rightarrow>
          s\<lparr>discarded := discarded s +
              word_of_nat (distance consumer (producer s) (length (slots s))),
            producer_at := PWrite v True\<rparr>
      | PWrite v replaced \<Rightarrow>
          s\<lparr>slots := (slots s)[producer s := Some v], producer_at := PStore v replaced\<rparr>
      | PStore v replaced \<Rightarrow>
          s\<lparr>producer := next_index (producer s) (length (slots s)),
            published := published s @ [v],
            producer_at := (if replaced then PFinish else PIdle),
            pushed := (if replaced then pushed s else Some Published)\<rparr>
      | PFinish \<Rightarrow> (bump s)\<lparr>producer_at := PIdle, pushed := Some ReplacedStale\<rparr>
      | PDropCount \<Rightarrow> s\<lparr>discarded := discarded s + 1, dropped := dropped s + 1, producer_at := PDropBump\<rparr>
      | PDropBump \<Rightarrow> (bump s)\<lparr>producer_at := PIdle, pushed := Some DroppedDuringRead\<rparr>)"

section \<open>The consumer\<close>

definition consumer_next :: "'a handoff \<Rightarrow> 'a handoff" where
  "consumer_next s =
     (case consumer_at s of
        CIdle \<Rightarrow> s
      | CGeneration \<Rightarrow>
          if generation s AND 1 \<noteq> 0 then s\<lparr>consumer_at := CIdle, popped := None\<rparr>
          else s\<lparr>consumer_at := CState (generation s)\<rparr>
      | CState g \<Rightarrow> s\<lparr>consumer_at := CCursor g (cs_index (consumer_state s))\<rparr>
      | CCursor g consumer \<Rightarrow>
          if consumer = producer s then s\<lparr>consumer_at := CIdle, popped := None\<rparr>
          else s\<lparr>consumer_at := CClaim g\<rparr>
      | CClaim g \<Rightarrow>
          s\<lparr>consumer_state := consumer_state s OR READING,
            consumer_at := CCheck g (cs_index (consumer_state s))\<rparr>
      | CCheck g claimed \<Rightarrow>
          if generation s \<noteq> g then s\<lparr>consumer_at := CUnclaim claimed\<rparr>
          else s\<lparr>consumer_at := CCopy claimed\<rparr>
      | CUnclaim claimed \<Rightarrow>
          s\<lparr>consumer_state := word_of_nat claimed, consumer_at := CGeneration\<rparr>
      | CCopy claimed \<Rightarrow>
          (case slots s ! claimed of
             Some v \<Rightarrow> s\<lparr>consumer_at := CRelease claimed v\<rparr>
           | None \<Rightarrow> s)
      | CRelease claimed v \<Rightarrow>
          s\<lparr>consumer_state := word_of_nat (next_index claimed (length (slots s))),
            consumer_at := CIdle, popped := Some v,
            gone := gone s + 1, delivered := delivered s @ [v]\<rparr>)"

text \<open>
  The interleaving: a call begins at an idle endpoint, or one endpoint takes its next step. A copy of an
  uninitialised slot would be undefined behaviour; \<open>consumer_next\<close> stays there, and the safety theorem
  shows that it never happens.
\<close>

inductive handoff_step :: "'a handoff \<Rightarrow> 'a handoff \<Rightarrow> bool" where
  step_push: "producer_at s = PIdle \<Longrightarrow> handoff_step s (s\<lparr>producer_at := PLoad v, pushed := None\<rparr>)"
| step_pop: "consumer_at s = CIdle \<Longrightarrow> handoff_step s (s\<lparr>consumer_at := CGeneration, popped := None\<rparr>)"
| step_producer: "producer_at s \<noteq> PIdle \<Longrightarrow> handoff_step s (producer_next s)"
| step_consumer: "consumer_at s \<noteq> CIdle \<Longrightarrow> handoff_step s (consumer_next s)"

definition handoff_init :: "'a handoff \<Rightarrow> bool" where
  "handoff_init s \<longleftrightarrow> (\<exists>slot_count. handoff_split slot_count = Inr s)"

section \<open>The observer\<close>

text \<open>
  \<open>observe\<close> belongs to no endpoint's call: it loads the producer cursor, the consumer state, the
  statistics and the generation one after the other, and the steps of both endpoints may come between
  any two of its loads. Where it is carries what it has read so far.
\<close>

record handoff_observation =
  available :: nat
  observed_discarded :: "64 word"
  resynchronization_generation :: "64 word"

datatype observer_pc =
    OProducer
  | OConsumer nat
  | ODiscarded nat
  | OGeneration nat "64 word"
  | ODone handoff_observation

definition observer_next :: "'a handoff \<Rightarrow> observer_pc \<Rightarrow> observer_pc" where
  "observer_next s pc =
     (case pc of
        OProducer \<Rightarrow> OConsumer (producer s)
      | OConsumer cursor \<Rightarrow>
          ODiscarded (distance (cs_index (consumer_state s)) cursor (length (slots s)))
      | ODiscarded count \<Rightarrow> OGeneration count (discarded s)
      | OGeneration count lost \<Rightarrow>
          ODone \<lparr>available = count, observed_discarded = lost,
                 resynchronization_generation = generation s\<rparr>
      | ODone got \<Rightarrow> ODone got)"

inductive observer_step :: "'a handoff \<times> observer_pc \<Rightarrow> 'a handoff \<times> observer_pc \<Rightarrow> bool" where
  observer_endpoints: "handoff_step s t \<Longrightarrow> observer_step (s, pc) (t, pc)"
| observer_loads: "observer_step (s, pc) (s, observer_next s pc)"

fun observer_result :: "observer_pc \<Rightarrow> handoff_observation option" where
  "observer_result (ODone got) = Some got"
| "observer_result _ = None"

text \<open>An observation between whose loads neither endpoint takes a step.\<close>

definition observe_alone :: "'a handoff \<Rightarrow> handoff_observation option" where
  "observe_alone s = observer_result ((observer_next s ^^ 4) OProducer)"

section \<open>Runs\<close>

text \<open>
  A schedule of the two endpoints as a list: beginning a call, or the next step of one endpoint. A move
  that is not possible leaves the state.
\<close>

datatype 'a handoff_move = BeginPush 'a | BeginPop | ProducerMove | ConsumerMove

fun handoff_run :: "'a handoff_move list \<Rightarrow> 'a handoff \<Rightarrow> 'a handoff" where
  "handoff_run [] s = s"
| "handoff_run (BeginPush v # ms) s =
     handoff_run ms (if producer_at s = PIdle then s\<lparr>producer_at := PLoad v, pushed := None\<rparr> else s)"
| "handoff_run (BeginPop # ms) s =
     handoff_run ms (if consumer_at s = CIdle then s\<lparr>consumer_at := CGeneration, popped := None\<rparr> else s)"
| "handoff_run (ProducerMove # ms) s = handoff_run ms (producer_next s)"
| "handoff_run (ConsumerMove # ms) s = handoff_run ms (consumer_next s)"

text \<open>How many slots lie from the consumer index up to the producer cursor, and what they hold.\<close>

definition ring_count :: "'a handoff \<Rightarrow> nat" where
  "ring_count s = distance (cs_index (consumer_state s)) (producer s) (length (slots s))"

definition handoff_contents :: "'a handoff \<Rightarrow> 'a option list" where
  "handoff_contents s =
     map (\<lambda>i. slots s ! ((cs_index (consumer_state s) + i) mod length (slots s)))
       [0..<ring_count s]"

end
