(* ===== verification/Handoff_Safety.thy ===== *)
theory Handoff_Safety
  imports Handoff
begin

text \<open>
  Safety of the newest-audio handoff under every interleaving. The invariant relates the shared words
  to the abstract queue, the published values that have not left it: the slots from the consumer index
  up to the producer cursor hold that queue in order, a claim bit is set exactly while the consumer
  holds a claim, the generation is odd exactly while the producer replaces stale values, and a
  generation that the consumer read and that is still current means that no replacement intervened.
  All of it holds as long as the generation word has not wrapped (fewer than \<open>2\<^sup>6\<^sup>4\<close> increments).
\<close>

section \<open>Indices\<close>

lemma next_index_if: "i < n \<Longrightarrow> next_index i n = (if i + 1 = n then 0 else i + 1)"
  by (simp add: next_index_def)

lemma next_index_less: "0 < n \<Longrightarrow> next_index i n < n"
  by (simp add: next_index_def)

lemma distance_if: "c < n \<Longrightarrow> p < n \<Longrightarrow> distance c p n = (if c \<le> p then p - c else p + n - c)"
  unfolding distance_def by (cases "c \<le> p") (auto simp: le_mod_geq mod_if)

lemma distance_zero: "c < n \<Longrightarrow> p < n \<Longrightarrow> distance c p n = 0 \<longleftrightarrow> c = p"
  by (auto simp: distance_if)

lemma distance_less: "c < n \<Longrightarrow> p < n \<Longrightarrow> distance c p n < n"
  by (auto simp: distance_if)

lemma distance_next_producer:
  "c < n \<Longrightarrow> p < n \<Longrightarrow> next_index p n \<noteq> c \<Longrightarrow> distance c (next_index p n) n = distance c p n + 1"
  by (auto simp: distance_if next_index_if split: if_splits)

lemma distance_next_consumer:
  "c < n \<Longrightarrow> p < n \<Longrightarrow> c \<noteq> p \<Longrightarrow> distance c p n = distance (next_index c n) p n + 1"
  by (auto simp: distance_if next_index_if split: if_splits)

lemma slot_of_distance: "c < n \<Longrightarrow> p < n \<Longrightarrow> (c + distance c p n) mod n = p"
  by (auto simp: distance_if)

lemma slot_if: "c < n \<Longrightarrow> i < n \<Longrightarrow> (c + i) mod n = (if c + i < n then c + i else c + i - n)" for c :: nat
  by (cases "c + i < n") (simp_all add: le_mod_geq)

lemma slot_not_producer:
  assumes "c < n" "p < n" "i < distance c p n" shows "(c + i) mod n \<noteq> p"
proof -
  have "i < n" using assms distance_less [of c n p] by simp
  then show ?thesis using assms slot_if [of c n i] by (auto simp: distance_if split: if_splits)
qed

lemma slot_after_release: "c < n \<Longrightarrow> (next_index c n + i) mod n = (c + (i + 1)) mod n"
  by (simp add: next_index_def mod_add_left_eq)

section \<open>The consumer word\<close>

definition enc :: "nat \<Rightarrow> bool \<Rightarrow> 64 word" where
  "enc c r = (if r then word_of_nat c OR READING else word_of_nat c)"

lemma bit_READING: "bit READING i \<longleftrightarrow> i = 63"
  unfolding READING_def bit_push_bit_iff by (auto simp: bit_1_iff)

lemma bit_small: "c < 2 ^ 63 \<Longrightarrow> \<not> bit (word_of_nat c :: 64 word) 63"
proof -
  assume "c < 2 ^ 63"
  then have "c div 2 ^ 63 = 0" by (rule div_less)
  then have "\<not> bit c 63" by (simp only: bit_iff_odd) simp
  then show ?thesis by (simp only: bit_of_nat_iff) simp
qed

lemma mask_enc: "c < 2 ^ 63 \<Longrightarrow> enc c r AND INDEX_MASK = word_of_nat c"
  by (rule bit_word_eqI)
     (use bit_small [of c] in \<open>auto simp: enc_def INDEX_MASK_def bit_and_iff bit_or_iff bit_not_iff bit_READING
        simp del: bit_of_nat_iff\<close>)

lemma cs_index_enc: "c < 2 ^ 63 \<Longrightarrow> cs_index (enc c r) = c"
  by (simp add: cs_index_def mask_enc unat_of_nat)

lemma enc_or: "enc c r OR READING = enc c True"
  by (simp add: enc_def or.assoc)

lemma word_of_nat_small:
  "c < 2 ^ 63 \<Longrightarrow> d < 2 ^ 63 \<Longrightarrow> (word_of_nat d :: 64 word) = word_of_nat c \<longleftrightarrow> d = c"
  by (metis cs_index_enc enc_def)

lemma enc_eq_plain:
  assumes "c < 2 ^ 63" "d < 2 ^ 63" shows "enc c r = word_of_nat d \<longleftrightarrow> \<not> r \<and> c = d"
proof (cases r)
  case True
  have "bit (enc c True) 63" by (simp add: enc_def bit_simps bit_READING)
  then show ?thesis using True bit_small [OF assms(2)] by metis
next
  case False
  then show ?thesis using word_of_nat_small [OF assms(2,1)] by (auto simp: enc_def)
qed

lemma unat_INDEX_MASK: "unat INDEX_MASK = 2 ^ 63 - 1"
  by (simp add: INDEX_MASK_def READING_def)

lemma generation_parity: "(word_of_nat b :: 64 word) AND 1 \<noteq> 0 \<longleftrightarrow> odd b"
proof -
  have "odd (word_of_nat b :: 64 word) \<longleftrightarrow> odd b"
    using bit_of_nat_iff [where 'a = "64 word", of b 0] by (simp add: bit_0)
  then show ?thesis by (simp add: and_one_eq mod_2_eq_odd)
qed

lemma generation_inj:
  "b < 2 ^ 64 \<Longrightarrow> m \<le> b \<Longrightarrow> (word_of_nat b :: 64 word) = word_of_nat m \<longleftrightarrow> m = b"
proof -
  assume b: "b < 2 ^ 64" "m \<le> b"
  have "unat (word_of_nat b :: 64 word) = b" "unat (word_of_nat m :: 64 word) = m"
    using b by (simp_all add: unat_of_nat)
  then show ?thesis by metis
qed

section \<open>The invariant\<close>

definition critical :: "'a producer_pc \<Rightarrow> bool" where
  "critical pc \<longleftrightarrow>
     (case pc of PIdle \<Rightarrow> False | PLoad _ \<Rightarrow> False | PBump _ \<Rightarrow> False | PWrite _ r \<Rightarrow> r
      | PStore _ r \<Rightarrow> r | _ \<Rightarrow> True)"

text \<open>What the claim bit and the index say about the consumer.\<close>

definition claim_inv :: "nat \<Rightarrow> bool \<Rightarrow> 'a consumer_pc \<Rightarrow> bool" where
  "claim_inv c r pc \<longleftrightarrow>
     (case pc of CCheck _ k \<Rightarrow> r \<and> k = c | CUnclaim k \<Rightarrow> r \<and> k = c | CCopy k \<Rightarrow> r \<and> k = c
      | CRelease k _ \<Rightarrow> r \<and> k = c | _ \<Rightarrow> \<not> r)"

text \<open>A generation that the consumer read, and what it may conclude from it while it is current.\<close>

definition seen :: "'a handoff \<Rightarrow> 64 word \<Rightarrow> bool \<Rightarrow> bool" where
  "seen s g conclusion \<longleftrightarrow>
     (\<exists>m. g = word_of_nat m \<and> m \<le> bumps s \<and> even m \<and> (m = bumps s \<longrightarrow> conclusion))"

definition consumer_inv :: "nat \<Rightarrow> 'a handoff \<Rightarrow> bool" where
  "consumer_inv c s \<longleftrightarrow>
     (case consumer_at s of
        CState g \<Rightarrow> seen s g True
      | CCursor g k \<Rightarrow> seen s g (k = c)
      | CClaim g \<Rightarrow> seen s g (c \<noteq> producer s)
      | CCheck g _ \<Rightarrow> seen s g (c \<noteq> producer s)
      | CCopy _ \<Rightarrow> c \<noteq> producer s
      | CRelease _ v \<Rightarrow> c \<noteq> producer s \<and> slots s ! c = Some v
      | _ \<Rightarrow> True)"

definition producer_inv :: "nat \<Rightarrow> 'a handoff \<Rightarrow> bool" where
  "producer_inv c s \<longleftrightarrow>
     (case producer_at s of
        PExchange _ k \<Rightarrow> k < length (slots s)
      | PCount _ k \<Rightarrow> c = producer s \<and> k < length (slots s)
      | PWrite _ True \<Rightarrow> c = producer s
      | PWrite _ False \<Rightarrow> next_index (producer s) (length (slots s)) \<noteq> c
      | PStore v True \<Rightarrow> c = producer s \<and> slots s ! producer s = Some v
      | PStore v False \<Rightarrow> next_index (producer s) (length (slots s)) \<noteq> c \<and> slots s ! producer s = Some v
      | _ \<Rightarrow> True)"

text \<open>The slots from the consumer index to the cursor hold the published values that have not left.\<close>

definition queue_inv :: "nat \<Rightarrow> 'a handoff \<Rightarrow> bool" where
  "queue_inv c s \<longleftrightarrow>
     length (published s) = gone s + distance c (producer s) (length (slots s)) \<and>
     (\<forall>i < distance c (producer s) (length (slots s)).
        slots s ! ((c + i) mod length (slots s)) = Some (published s ! (gone s + i)))"

definition history_inv :: "'a handoff \<Rightarrow> bool" where
  "history_inv s \<longleftrightarrow>
     subseq (delivered s) (take (gone s) (published s)) \<and>
     gone s = length (delivered s) + evicted s \<and>
     (case producer_at s of
        PCount _ k \<Rightarrow>
          discarded s + word_of_nat (distance k (producer s) (length (slots s))) =
            word_of_nat (evicted s + dropped s)
      | _ \<Rightarrow> discarded s = word_of_nat (evicted s + dropped s))"

definition shape_inv :: "nat \<Rightarrow> bool \<Rightarrow> 'a handoff \<Rightarrow> bool" where
  "shape_inv c r s \<longleftrightarrow>
     2 \<le> length (slots s) \<and> length (slots s) < 2 ^ 63 \<and> c < length (slots s) \<and>
     producer s < length (slots s) \<and> consumer_state s = enc c r \<and>
     generation s = word_of_nat (bumps s) \<and> (odd (bumps s) \<longleftrightarrow> critical (producer_at s))"

definition core :: "nat \<Rightarrow> bool \<Rightarrow> 'a handoff \<Rightarrow> bool" where
  "core c r s \<longleftrightarrow>
     shape_inv c r s \<and> claim_inv c r (consumer_at s) \<and> consumer_inv c s \<and> producer_inv c s \<and>
     queue_inv c s \<and> history_inv s"

lemmas core_defs = core_def shape_inv_def claim_inv_def consumer_inv_def producer_inv_def queue_inv_def
  history_inv_def

section \<open>Every step keeps the invariant\<close>

lemma core_init: "handoff_split n = Inr s \<Longrightarrow> core 0 False s"
  by (auto simp: handoff_split_def core_defs critical_def enc_def distance_def unat_INDEX_MASK
      split: if_splits)

lemma core_push: "core c r s \<Longrightarrow> producer_at s = PIdle \<Longrightarrow> core c r (s\<lparr>producer_at := PLoad v, pushed := None\<rparr>)"
  by (auto simp: core_defs critical_def seen_def split: consumer_pc.splits)

lemma core_pop: "core c r s \<Longrightarrow> consumer_at s = CIdle \<Longrightarrow> core c r (s\<lparr>consumer_at := CGeneration, popped := None\<rparr>)"
  by (auto simp: core_defs critical_def seen_def split: producer_pc.splits bool.splits)

lemma core_cs: "core c r s \<Longrightarrow> cs_index (consumer_state s) = c"
  by (simp add: core_defs cs_index_enc)

lemma seen_producer_at [simp]:
  "seen (s\<lparr>producer_at := pc\<rparr>) g b = seen s g b" "seen (s\<lparr>pushed := x\<rparr>) g b = seen s g b"
  "seen (s\<lparr>consumer_at := pc'\<rparr>) g b = seen s g b" "seen (s\<lparr>popped := y\<rparr>) g b = seen s g b"
  "seen (s\<lparr>slots := sl\<rparr>) g b = seen s g b" "seen (s\<lparr>producer := q\<rparr>) g b = seen s g b"
  "seen (s\<lparr>consumer_state := w\<rparr>) g b = seen s g b" "seen (s\<lparr>discarded := d\<rparr>) g b = seen s g b"
  "seen (s\<lparr>published := ps\<rparr>) g b = seen s g b" "seen (s\<lparr>gone := k\<rparr>) g b = seen s g b"
  "seen (s\<lparr>evicted := e\<rparr>) g b = seen s g b" "seen (s\<lparr>dropped := e\<rparr>) g b = seen s g b"
  "seen (s\<lparr>delivered := ps\<rparr>) g b = seen s g b"
  by (simp_all add: seen_def)

text \<open>Only the producer's position changes, between two positions of the same parity.\<close>

lemma core_producer_at:
  assumes "core c r s" "critical pc = critical (producer_at s)" "producer_inv c (s\<lparr>producer_at := pc\<rparr>)"
    and "\<nexists>v k. producer_at s = PCount v k" "\<nexists>v k. pc = PCount v k"
  shows "core c r (s\<lparr>producer_at := pc\<rparr>)"
proof -
  have "history_inv (s\<lparr>producer_at := pc\<rparr>)"
    using assms by (auto simp: core_def history_inv_def split: producer_pc.splits)
  then show ?thesis
    using assms by (auto simp: core_def shape_inv_def consumer_inv_def queue_inv_def split: consumer_pc.splits)
qed

text \<open>An increment of the generation: what the consumer saw is no longer current.\<close>

lemma core_bump:
  assumes "core c r s" "critical pc \<noteq> critical (producer_at s)"
    and "producer_inv c (s\<lparr>producer_at := pc\<rparr>)"
    and "\<nexists>v k. producer_at s = PCount v k" "\<nexists>v k. pc = PCount v k"
  shows "core c r ((bump s)\<lparr>producer_at := pc, pushed := x\<rparr>)"
proof -
  have seen: "seen s g b \<Longrightarrow> seen ((bump s)\<lparr>producer_at := pc, pushed := x\<rparr>) g b'" for g b b'
    by (auto simp: seen_def bump_def)
  have "history_inv ((bump s)\<lparr>producer_at := pc, pushed := x\<rparr>)"
    using assms by (auto simp: core_def history_inv_def bump_def split: producer_pc.splits)
  moreover have "producer_inv c ((bump s)\<lparr>producer_at := pc, pushed := x\<rparr>)"
    using assms(3) by (auto simp: producer_inv_def bump_def split: producer_pc.splits bool.splits)
  moreover have "consumer_inv c ((bump s)\<lparr>producer_at := pc, pushed := x\<rparr>)"
    using assms(1) seen
    by (auto simp: core_def consumer_inv_def bump_def [of s] split: consumer_pc.splits)
  ultimately show ?thesis
    using assms(1,2) by (auto simp: core_def shape_inv_def queue_inv_def bump_def)
qed

lemma core_bump': "core c r s \<Longrightarrow> critical pc \<noteq> critical (producer_at s) \<Longrightarrow>
   producer_inv c (s\<lparr>producer_at := pc\<rparr>) \<Longrightarrow> \<nexists>v k. producer_at s = PCount v k \<Longrightarrow> \<nexists>v k. pc = PCount v k \<Longrightarrow>
   core c r ((bump s)\<lparr>producer_at := pc\<rparr>)"
  using core_bump [of c r s pc "pushed (bump s)"] by simp

lemma subseq_take: "subseq xs (take k ys) \<Longrightarrow> subseq xs ys"
  using subseq_rev_drop_many [of xs "take k ys" "drop k ys"] by simp

text \<open>The exchange evicts the whole queue, and only when no claim is held.\<close>

lemma core_exchange:
  assumes "core c r s" "producer_at s = PExchange v k" "consumer_state s = word_of_nat k"
  shows "core (producer s) False (producer_next s)"
proof -
  have k: "k < length (slots s)" "length (slots s) < 2 ^ 63" "c < length (slots s)"
    using assms by (auto simp: core_defs)
  then have c: "c = k" "\<not> r" using assms enc_eq_plain [of c k r] by (auto simp: core_def shape_inv_def)
  have d: "distance (producer s) (producer s) (length (slots s)) = 0"
    by (simp add: distance_def)
  have odd: "odd (bumps s)" using assms by (auto simp: core_def shape_inv_def critical_def)
  have seen: "seen s g b \<Longrightarrow> seen s g b'" for g b b' using odd by (auto simp: seen_def)
  have sub: "subseq (delivered s) (published s)"
    using assms(1) subseq_take by (auto simp: core_def history_inv_def)
  have len: "length (published s) = gone s + distance k (producer s) (length (slots s))"
    using assms(1) c by (auto simp: core_def queue_inv_def)
  have h: "history_inv (producer_next s)"
    using assms len sub unfolding producer_next_def by (simp add: core_def history_inv_def)
  have "consumer_inv (producer s) (producer_next s)"
    using assms c seen unfolding producer_next_def
    by (auto simp: core_def consumer_inv_def claim_inv_def split: consumer_pc.splits)
  then show ?thesis
    using assms c k d h odd unfolding producer_next_def
    by (auto simp: core_def shape_inv_def claim_inv_def producer_inv_def queue_inv_def enc_def critical_def
        split: consumer_pc.splits)
qed

lemma core_count:
  assumes "core c r s" "producer_at s = PCount v k"
  shows "core c r (producer_next s)"
  using assms unfolding producer_next_def
  by (auto simp: core_defs critical_def split: consumer_pc.splits)

lemma core_drop_count:
  assumes "core c r s" "producer_at s = PDropCount"
  shows "core c r (producer_next s)"
  using assms unfolding producer_next_def
  by (auto simp: core_defs critical_def algebra_simps split: consumer_pc.splits)

lemma queue_after_write:
  assumes "queue_inv c s" "c < length (slots s)" "producer s < length (slots s)"
  shows "queue_inv c (s\<lparr>slots := (slots s)[producer s := Some v], producer_at := pc\<rparr>)"
  using assms slot_not_producer [OF assms(2,3), THEN not_sym] by (auto simp: queue_inv_def)

lemma core_write:
  assumes "core c r s" "producer_at s = PWrite v b"
  shows "core c r (producer_next s)"
proof -
  have n: "c < length (slots s)" "producer s < length (slots s)"
    using assms(1) by (auto simp: core_defs)
  let ?s = "s\<lparr>slots := (slots s)[producer s := Some v], producer_at := PStore v b\<rparr>"
  have q: "queue_inv c ?s"
    using assms(1) n queue_after_write by (auto simp: core_def)
  have pr: "producer_inv c ?s"
    using assms n by (auto simp: core_def producer_inv_def split: bool.splits)
  have co: "consumer_inv c ?s"
    using assms(1) n by (auto simp: core_def consumer_inv_def split: consumer_pc.splits)
  have "shape_inv c r ?s" "history_inv ?s"
    using assms by (auto simp: core_def shape_inv_def history_inv_def critical_def)
  then show ?thesis
    using assms q pr co by (simp add: producer_next_def core_def)
qed

text \<open>The cursor store appends the value to the queue.\<close>

lemma queue_after_store:
  assumes "queue_inv c s" "c < length (slots s)" "producer s < length (slots s)"
    and "next_index (producer s) (length (slots s)) \<noteq> c" "slots s ! producer s = Some v"
  shows "queue_inv c (s\<lparr>producer := next_index (producer s) (length (slots s)),
    published := published s @ [v], producer_at := pc, pushed := x\<rparr>)"
  using assms distance_next_producer [OF assms(2,3,4)] slot_of_distance [OF assms(2,3)]
  by (auto simp: queue_inv_def nth_append less_Suc_eq)

lemma next_index_not_self: "2 \<le> n \<Longrightarrow> i < n \<Longrightarrow> next_index i n \<noteq> i"
  by (auto simp: next_index_if)

lemma core_store:
  assumes "core c r s" "producer_at s = PStore v b"
  shows "core c r (producer_next s)"
proof -
  have n: "c < length (slots s)" "producer s < length (slots s)" "2 \<le> length (slots s)"
    using assms(1) by (auto simp: core_defs)
  have fresh: "next_index (producer s) (length (slots s)) \<noteq> c" and v: "slots s ! producer s = Some v"
    using assms n next_index_not_self by (auto simp: core_def producer_inv_def split: bool.splits)
  have odd: "b \<Longrightarrow> odd (bumps s)" using assms by (auto simp: core_def shape_inv_def critical_def)
  let ?s = "s\<lparr>producer := next_index (producer s) (length (slots s)), published := published s @ [v],
    producer_at := (if b then PFinish else PIdle), pushed := (if b then pushed s else Some Published)\<rparr>"
  have q: "queue_inv c ?s"
    using assms(1) by (intro queue_after_store n fresh v) (simp add: core_def)
  have co: "consumer_inv c ?s"
    using assms(1) fresh unfolding core_def consumer_inv_def
    by (auto simp: seen_def split: consumer_pc.splits)
  have h: "history_inv ?s"
    using assms by (auto simp: core_def history_inv_def queue_inv_def)
  have "shape_inv c r ?s" "producer_inv c ?s"
    using assms next_index_less [of "length (slots s)" "producer s"] n
    by (fastforce simp: core_def shape_inv_def critical_def producer_inv_def)+
  then show ?thesis
    using assms q co h by (simp add: producer_next_def core_def)
qed

lemma core_producer_next:
  assumes "core c r s"
  shows "\<exists>c' r'. core c' r' (producer_next s)"
proof (cases "producer_at s")
  case PIdle
  then show ?thesis using assms by (auto simp: producer_next_def)
next
  case (PLoad v)
  have "core c r (producer_next s)"
    using assms PLoad core_cs [OF assms] unfolding producer_next_def
    by (auto intro!: core_producer_at simp: critical_def producer_inv_def)
  then show ?thesis by blast
next
  case (PBump v)
  have "core c r (producer_next s)"
    using assms PBump unfolding producer_next_def
    by (auto intro!: core_bump' simp: critical_def producer_inv_def)
  then show ?thesis by blast
next
  case (PReload v)
  have "core c r (producer_next s)"
    using assms PReload core_cs [OF assms] unfolding producer_next_def
    by (auto intro!: core_producer_at simp: critical_def producer_inv_def) (simp add: core_defs)
  then show ?thesis by blast
next
  case (PExchange v k)
  show ?thesis
  proof (cases "consumer_state s = word_of_nat k")
    case True
    then show ?thesis using core_exchange [OF assms PExchange] by blast
  next
    case False
    then have "core c r (producer_next s)"
      using assms PExchange unfolding producer_next_def
      by (auto intro!: core_producer_at simp: critical_def producer_inv_def)
    then show ?thesis by blast
  qed
next
  case PFinish
  have "core c r (producer_next s)"
    using assms PFinish unfolding producer_next_def
    by (auto intro!: core_bump simp: critical_def producer_inv_def)
  then show ?thesis by blast
next
  case PDropBump
  have "core c r (producer_next s)"
    using assms PDropBump unfolding producer_next_def
    by (auto intro!: core_bump simp: critical_def producer_inv_def)
  then show ?thesis by blast
qed (use core_count [OF assms] core_write [OF assms] core_store [OF assms] core_drop_count [OF assms] in metis)+

text \<open>Only the consumer's position changes.\<close>

lemma core_consumer_at:
  assumes "core c r s" "claim_inv c r pc" "consumer_inv c (s\<lparr>consumer_at := pc\<rparr>)"
  shows "core c r (s\<lparr>consumer_at := pc, popped := x\<rparr>)"
proof -
  have "producer_inv c (s\<lparr>consumer_at := pc, popped := x\<rparr>)"
    using assms(1) by (auto simp: core_def producer_inv_def split: producer_pc.splits bool.splits)
  moreover have "consumer_inv c (s\<lparr>consumer_at := pc, popped := x\<rparr>)"
    using assms(3) by (auto simp: consumer_inv_def split: consumer_pc.splits)
  moreover have "history_inv (s\<lparr>consumer_at := pc, popped := x\<rparr>)"
    using assms(1) by (auto simp: core_def history_inv_def split: producer_pc.splits)
  ultimately show ?thesis
    using assms by (auto simp: core_def shape_inv_def queue_inv_def)
qed

lemma core_consumer_at': "core c r s \<Longrightarrow> claim_inv c r pc \<Longrightarrow> consumer_inv c (s\<lparr>consumer_at := pc\<rparr>) \<Longrightarrow>
   core c r (s\<lparr>consumer_at := pc\<rparr>)"
  using core_consumer_at [of c r s pc "popped s"] by simp

text \<open>The claim bit changes and the index stays.\<close>

lemma core_consumer_word:
  assumes "core c r s" "claim_inv c r' pc" "consumer_inv c (s\<lparr>consumer_at := pc\<rparr>)"
  shows "core c r' (s\<lparr>consumer_state := enc c r', consumer_at := pc\<rparr>)"
proof -
  let ?s = "s\<lparr>consumer_state := enc c r', consumer_at := pc\<rparr>"
  have "producer_inv c ?s"
    using assms(1) by (auto simp: core_def producer_inv_def split: producer_pc.splits bool.splits)
  moreover have "consumer_inv c ?s"
    using assms(3) by (auto simp: consumer_inv_def split: consumer_pc.splits)
  moreover have "history_inv ?s"
    using assms(1) by (auto simp: core_def history_inv_def split: producer_pc.splits)
  ultimately show ?thesis
    using assms by (auto simp: core_def shape_inv_def queue_inv_def)
qed

text \<open>The release takes the head of the queue.\<close>

lemma subseq_snoc_take:
  assumes "subseq xs (take k ys)" "k < length ys"
  shows "subseq (xs @ [ys ! k]) (take (k + 1) ys)"
proof -
  have "take (k + 1) ys = take k ys @ [ys ! k]" using assms(2) by (simp add: take_Suc_conv_app_nth)
  then show ?thesis using assms(1) by simp
qed

lemma core_release:
  assumes "core c r s" "consumer_at s = CRelease k v"
  shows "core (next_index c (length (slots s))) False (consumer_next s)"
proof -
  let ?n = "length (slots s)"
  have n: "c < ?n" "producer s < ?n" and r: "k = c" "c \<noteq> producer s" "slots s ! c = Some v"
    using assms by (auto simp: core_defs)
  have next_less: "next_index c ?n < ?n" using n next_index_less [of ?n c] by linarith
  have d: "distance c (producer s) ?n = distance (next_index c ?n) (producer s) ?n + 1"
    using distance_next_consumer [OF n r(2)] .
  have q: "length (published s) = gone s + distance c (producer s) ?n"
    "\<And>i. i < distance c (producer s) ?n \<Longrightarrow> slots s ! ((c + i) mod ?n) = Some (published s ! (gone s + i))"
    using assms(1) by (auto simp: core_def queue_inv_def)
  have v: "published s ! gone s = v" using q(2) [of 0] d n r by simp
  have sub: "subseq (delivered s @ [v]) (take (gone s + 1) (published s))"
    using subseq_snoc_take [of "delivered s" "gone s" "published s"] assms(1) q(1) d v
    by (auto simp: core_def history_inv_def)
  have queue: "queue_inv (next_index c ?n) (consumer_next s)"
    using assms(2) q(1) q(2) [of "Suc _"] d n by (simp add: consumer_next_def queue_inv_def slot_after_release)
  have pr: "producer_inv (next_index c ?n) (consumer_next s)"
    using assms r n unfolding consumer_next_def
    by (auto simp: core_def producer_inv_def next_index_if split: producer_pc.splits bool.splits if_splits)
  have "history_inv (consumer_next s)"
    using assms sub unfolding consumer_next_def
    by (auto simp: core_def history_inv_def split: producer_pc.splits)
  then show ?thesis
    using assms r n queue pr next_less unfolding consumer_next_def
    by (auto simp: core_def shape_inv_def claim_inv_def consumer_inv_def enc_def)
qed

lemma seen_current: "seen s g b \<Longrightarrow> g = generation s \<Longrightarrow> generation s = word_of_nat (bumps s) \<Longrightarrow>
   bumps s < 2 ^ 64 \<Longrightarrow> b"
  using generation_inj by (auto simp: seen_def)

lemma seen_now: "generation s = word_of_nat (bumps s) \<Longrightarrow> generation s AND 1 = 0 \<Longrightarrow> seen s (generation s) True"
  unfolding seen_def using generation_parity [of "bumps s"] by auto

lemma seen_mono: "seen s g b \<Longrightarrow> b \<longrightarrow> b' \<Longrightarrow> seen s g b'"
  by (auto simp: seen_def)

lemma core_consumer_next:
  assumes "core c r s" "bumps s < 2 ^ 64"
  shows "\<exists>c' r'. core c' r' (consumer_next s)"
proof (cases "consumer_at s")
  case CIdle
  then show ?thesis using assms by (auto simp: consumer_next_def)
next
  case CGeneration
  have "\<not> r" "generation s = word_of_nat (bumps s)"
    using assms CGeneration by (auto simp: core_def claim_inv_def shape_inv_def)
  then have "core c r (consumer_next s)"
    using assms(1) CGeneration seen_now [of s] unfolding consumer_next_def
    by (auto intro!: core_consumer_at core_consumer_at' simp: claim_inv_def consumer_inv_def)
  then show ?thesis by blast
next
  case (CState g)
  have "\<not> r" "seen s g True" using assms CState by (auto simp: core_def claim_inv_def consumer_inv_def)
  then have "core c r (consumer_next s)"
    using assms(1) CState core_cs [OF assms(1)] unfolding consumer_next_def
    by (auto intro!: core_consumer_at' simp: claim_inv_def consumer_inv_def)
  then show ?thesis by blast
next
  case (CCursor g k)
  have "\<not> r" "seen s g (k = c)" using assms CCursor by (auto simp: core_def claim_inv_def consumer_inv_def)
  then have "core c r (consumer_next s)"
    using assms(1) CCursor seen_mono [of s g "k = c" "c \<noteq> producer s"] unfolding consumer_next_def
    by (auto intro!: core_consumer_at core_consumer_at' simp: claim_inv_def consumer_inv_def)
  then show ?thesis by blast
next
  case (CClaim g)
  have w: "consumer_state s = enc c r" "seen s g (c \<noteq> producer s)"
    using assms CClaim by (auto simp: core_def shape_inv_def consumer_inv_def)
  have "core c True (s\<lparr>consumer_state := enc c True, consumer_at := CCheck g c\<rparr>)"
    using assms(1) w by (intro core_consumer_word) (auto simp: claim_inv_def consumer_inv_def)
  then show ?thesis
    using CClaim core_cs [OF assms(1)] w by (auto simp: consumer_next_def enc_or)
next
  case (CCheck g k)
  have w: "r" "k = c" "seen s g (c \<noteq> producer s)" "generation s = word_of_nat (bumps s)"
    using assms CCheck by (auto simp: core_def claim_inv_def consumer_inv_def shape_inv_def)
  then have "core c r (consumer_next s)"
    using assms CCheck seen_current [OF w(3) _ w(4)] unfolding consumer_next_def
    by (auto intro!: core_consumer_at' simp: claim_inv_def consumer_inv_def)
  then show ?thesis by blast
next
  case (CUnclaim k)
  have "core c False (s\<lparr>consumer_state := enc c False, consumer_at := CGeneration\<rparr>)"
    using assms(1) by (intro core_consumer_word) (auto simp: claim_inv_def consumer_inv_def)
  moreover have "k = c" using assms CUnclaim by (auto simp: core_def claim_inv_def)
  ultimately show ?thesis using CUnclaim by (auto simp: consumer_next_def enc_def)
next
  case (CCopy k)
  have w: "r" "k = c" "c \<noteq> producer s"
    using assms CCopy by (auto simp: core_def claim_inv_def consumer_inv_def)
  then have "core c r (consumer_next s)"
    using assms(1) CCopy unfolding consumer_next_def
    by (auto intro!: core_consumer_at' simp: claim_inv_def consumer_inv_def split: option.splits)
  then show ?thesis by blast
next
  case (CRelease k v)
  then show ?thesis using core_release [OF assms(1)] by blast
qed

lemma bumps_producer: "bumps s \<le> bumps (producer_next s)"
  by (auto simp: producer_next_def bump_def split: producer_pc.splits)

lemma bumps_consumer: "bumps (consumer_next s) = bumps s"
  by (auto simp: consumer_next_def split: consumer_pc.splits option.splits)

definition handoff_inv :: "'a handoff \<Rightarrow> bool" where
  "handoff_inv s \<longleftrightarrow> (bumps s < 2 ^ 64 \<longrightarrow> (\<exists>c r. core c r s))"

lemma handoff_inv_init: "handoff_init s \<Longrightarrow> handoff_inv s"
  unfolding handoff_init_def handoff_inv_def using core_init by blast

lemma handoff_inv_step: "handoff_inv s \<Longrightarrow> handoff_step s s' \<Longrightarrow> handoff_inv s'"
proof (erule handoff_step.cases, goal_cases)
  case (1 t v)
  then show ?case using core_push [of _ _ t v] by (auto simp: handoff_inv_def)
next
  case (2 t)
  then show ?case using core_pop [of _ _ t] by (auto simp: handoff_inv_def)
next
  case (3 t)
  then show ?case
    using core_producer_next [of _ _ t] bumps_producer [of t] unfolding handoff_inv_def
    by (meson le_less_trans)
next
  case (4 t)
  then show ?case
    using core_consumer_next [of _ _ t] by (auto simp: handoff_inv_def bumps_consumer)
qed

interpretation handoff: transition_system handoff_init handoff_step handoff_inv
  by unfold_locales (auto intro: handoff_inv_init handoff_inv_step)

lemma handoff_core:
  "reachable handoff_init handoff_step s \<Longrightarrow> bumps s < 2 ^ 64 \<Longrightarrow> \<exists>c r. core c r s"
  using handoff.reachable_inv [of s] unfolding handoff_inv_def by blast

section \<open>Runs\<close>

lemma producer_next_idle: "producer_at s = PIdle \<Longrightarrow> producer_next s = s"
  by (simp add: producer_next_def)

lemma consumer_next_idle: "consumer_at s = CIdle \<Longrightarrow> consumer_next s = s"
  by (simp add: consumer_next_def)

lemma reachable_run:
  "reachable handoff_init handoff_step s \<Longrightarrow> reachable handoff_init handoff_step (handoff_run ms s)"
proof (induction ms s rule: handoff_run.induct)
  case (2 v ms s)
  then show ?case using reachable_step [OF 2(2) step_push [of s v]] by auto
next
  case (3 ms s)
  then show ?case using reachable_step [OF 3(2) step_pop [of s]] by auto
next
  case (4 ms s)
  then show ?case
    using reachable_step [OF 4(2) step_producer [of s]]
    by (cases "producer_at s = PIdle") (auto simp: producer_next_idle)
next
  case (5 ms s)
  then show ?case
    using reachable_step [OF 5(2) step_consumer [of s]]
    by (cases "consumer_at s = CIdle") (auto simp: consumer_next_idle)
qed simp

lemma reachable_split:
  "handoff_split n = Inr s \<Longrightarrow> reachable handoff_init handoff_step (handoff_run ms s)"
  by (rule reachable_run, rule reachable_init) (auto simp: handoff_init_def)

lemma run_producer_idle: "producer_at s = PIdle \<Longrightarrow> handoff_run (replicate k ProducerMove) s = s"
  by (induction k) (simp_all add: producer_next_idle)

lemma run_consumer_idle: "consumer_at s = CIdle \<Longrightarrow> handoff_run (replicate k ConsumerMove) s = s"
  by (induction k) (simp_all add: consumer_next_idle)

lemma core_contents:
  assumes "core c r s"
  shows "handoff_contents s = map Some (drop (gone s) (published s))"
proof -
  have "length (published s) = gone s + distance c (producer s) (length (slots s))"
    using assms by (auto simp: core_def queue_inv_def)
  then show ?thesis
    using assms core_cs [OF assms]
    by (intro nth_equalityI) (auto simp: handoff_contents_def ring_count_def core_def queue_inv_def)
qed

lemma length_contents: "length (handoff_contents s) = ring_count s"
  by (simp add: handoff_contents_def)

text \<open>How many steps a call of \<open>push\<close> still has at most.\<close>

definition push_steps :: "'a producer_pc \<Rightarrow> nat" where
  "push_steps pc =
     (case pc of PIdle \<Rightarrow> 0 | PLoad _ \<Rightarrow> 8 | PBump _ \<Rightarrow> 7 | PReload _ \<Rightarrow> 6 | PExchange _ _ \<Rightarrow> 5
      | PCount _ _ \<Rightarrow> 4 | PWrite _ _ \<Rightarrow> 3 | PStore _ _ \<Rightarrow> 2 | PFinish \<Rightarrow> 1 | PDropCount \<Rightarrow> 2 | PDropBump \<Rightarrow> 1)"

lemma push_steps_next: "push_steps (producer_at (producer_next s)) \<le> push_steps (producer_at s) - 1"
  by (auto simp: producer_next_def push_steps_def bump_def split: producer_pc.splits)

lemma push_steps_consumer: "producer_at (consumer_next s) = producer_at s"
  by (auto simp: consumer_next_def split: consumer_pc.splits option.splits)

lemma push_steps_run:
  "list_all (\<lambda>m. case m of BeginPush _ \<Rightarrow> False | _ \<Rightarrow> True) ms \<Longrightarrow>
   push_steps (producer_at (handoff_run ms s)) \<le>
     push_steps (producer_at s) - count_list ms ProducerMove"
proof (induction ms s rule: handoff_run.induct)
  case (4 ms s)
  then show ?case using push_steps_next [of s] by simp
qed (auto simp: push_steps_consumer split: if_splits)

lemma push_steps_zero: "push_steps pc = 0 \<longleftrightarrow> pc = PIdle"
  by (simp add: push_steps_def split: producer_pc.splits)

lemma push_steps_le: "push_steps pc \<le> 8"
  by (simp add: push_steps_def split: producer_pc.splits)

section \<open>Observations\<close>

definition pending_count :: "'a handoff \<Rightarrow> 64 word" where
  "pending_count s =
     (case producer_at s of
        PCount _ consumer \<Rightarrow> word_of_nat (distance consumer (producer s) (length (slots s)))
      | _ \<Rightarrow> 0)"

lemma core_counts:
  assumes "core c r s"
  shows "length (published s) = length (delivered s) + evicted s + ring_count s"
    "ring_count s < length (slots s)"
    "discarded s + pending_count s = word_of_nat (evicted s + dropped s)"
  using assms core_cs [OF assms] distance_less
  by (auto simp: core_def queue_inv_def history_inv_def shape_inv_def ring_count_def pending_count_def
      split: producer_pc.splits)

lemma slots_step: "handoff_step s t \<Longrightarrow> length (slots t) = length (slots s)"
  by (auto simp: producer_next_def consumer_next_def bump_def elim!: handoff_step.cases
      split: producer_pc.splits consumer_pc.splits option.splits)

lemma slots_steps: "handoff_step\<^sup>*\<^sup>* s t \<Longrightarrow> length (slots t) = length (slots s)"
  by (induction rule: rtranclp_induct) (auto dest: slots_step)

text \<open>What an observation under way has read, and of which states.\<close>

definition observer_trace :: "'a handoff \<Rightarrow> 'a handoff \<Rightarrow> observer_pc \<Rightarrow> bool" where
  "observer_trace s0 s pc \<longleftrightarrow>
     (case pc of
        OProducer \<Rightarrow> handoff_step\<^sup>*\<^sup>* s0 s
      | OConsumer cursor \<Rightarrow> \<exists>p. handoff_step\<^sup>*\<^sup>* s0 p \<and> handoff_step\<^sup>*\<^sup>* p s \<and> cursor = producer p
      | ODiscarded n \<Rightarrow> \<exists>p c. handoff_step\<^sup>*\<^sup>* s0 p \<and> handoff_step\<^sup>*\<^sup>* p c \<and> handoff_step\<^sup>*\<^sup>* c s \<and>
          n = distance (cs_index (consumer_state c)) (producer p) (length (slots c))
      | OGeneration n lost \<Rightarrow> \<exists>p c d. handoff_step\<^sup>*\<^sup>* s0 p \<and> handoff_step\<^sup>*\<^sup>* p c \<and> handoff_step\<^sup>*\<^sup>* c d \<and>
          handoff_step\<^sup>*\<^sup>* d s \<and> n = distance (cs_index (consumer_state c)) (producer p) (length (slots c)) \<and>
          lost = discarded d
      | ODone got \<Rightarrow> \<exists>p c d g. handoff_step\<^sup>*\<^sup>* s0 p \<and> handoff_step\<^sup>*\<^sup>* p c \<and> handoff_step\<^sup>*\<^sup>* c d \<and>
          handoff_step\<^sup>*\<^sup>* d g \<and> handoff_step\<^sup>*\<^sup>* g s \<and>
          available got = distance (cs_index (consumer_state c)) (producer p) (length (slots c)) \<and>
          observed_discarded got = discarded d \<and> resynchronization_generation got = generation g)"

lemma trace_endpoints: "observer_trace s0 s pc \<Longrightarrow> handoff_step s t \<Longrightarrow> observer_trace s0 t pc"
  by (cases pc; simp add: observer_trace_def; blast intro: rtranclp.rtrancl_into_rtrancl)

lemma trace_loads: "observer_trace s0 s pc \<Longrightarrow> observer_trace s0 s (observer_next s pc)"
  by (cases pc; simp add: observer_trace_def observer_next_def; blast)

lemma trace_steps: "observer_step\<^sup>*\<^sup>* (s0, OProducer) (s, pc) \<Longrightarrow> observer_trace s0 s pc"
proof (induction "(s, pc)" arbitrary: s pc rule: rtranclp_induct)
  case base
  then show ?case by (simp add: observer_trace_def)
next
  case (step y)
  obtain t q where y: "y = (t, q)" by (cases y)
  from step(2) show ?case
    unfolding y by (rule observer_step.cases) (use step(3) [OF y] in \<open>auto intro: trace_endpoints trace_loads\<close>)
qed

lemma trace_reached: "observer_trace s0 s pc \<Longrightarrow> handoff_step\<^sup>*\<^sup>* s0 s"
  by (cases pc) (auto simp: observer_trace_def)

lemma observer_steps: "observer_step\<^sup>*\<^sup>* (s0, OProducer) (s, pc) \<Longrightarrow> handoff_step\<^sup>*\<^sup>* s0 s"
  by (rule trace_reached [OF trace_steps])

lemma observer_reads:
  assumes "observer_step\<^sup>*\<^sup>* (s0, OProducer) (s, ODone got)"
  shows "\<exists>p c d g. handoff_step\<^sup>*\<^sup>* s0 p \<and> handoff_step\<^sup>*\<^sup>* p c \<and> handoff_step\<^sup>*\<^sup>* c d \<and> handoff_step\<^sup>*\<^sup>* d g \<and>
    handoff_step\<^sup>*\<^sup>* g s \<and>
    available got = distance (cs_index (consumer_state c)) (producer p) (length (slots s)) \<and>
    observed_discarded got = discarded d \<and> resynchronization_generation got = generation g"
proof -
  obtain p c d g where *: "handoff_step\<^sup>*\<^sup>* s0 p" "handoff_step\<^sup>*\<^sup>* p c" "handoff_step\<^sup>*\<^sup>* c d"
      "handoff_step\<^sup>*\<^sup>* d g" "handoff_step\<^sup>*\<^sup>* g s"
      "available got = distance (cs_index (consumer_state c)) (producer p) (length (slots c))"
      "observed_discarded got = discarded d" "resynchronization_generation got = generation g"
    using trace_steps [OF assms] by (auto simp: observer_trace_def)
  have "length (slots s) = length (slots c)" using slots_steps *(3,4,5) by metis
  then show ?thesis using * by metis
qed

lemma observer_small:
  assumes "observer_step\<^sup>*\<^sup>* (s0, OProducer) (s, ODone got)" "0 < length (slots s)"
  shows "available got < length (slots s)"
  using observer_reads [OF assms(1)] assms(2) by (auto simp: distance_def)

lemma observe_alone_value:
  "observe_alone s = Some \<lparr>available = ring_count s, observed_discarded = discarded s,
     resynchronization_generation = generation s\<rparr>"
  by (simp add: observe_alone_def observer_next_def ring_count_def eval_nat_numeral)

lemma observer_alone: "\<exists>got. observer_step\<^sup>*\<^sup>* (s, OProducer) (s, ODone got)"
proof -
  have step: "observer_step\<^sup>*\<^sup>* (s, pc) (s, (observer_next s ^^ n) pc)" for pc n
    by (induction n) (auto intro: rtranclp.rtrancl_into_rtrancl observer_loads)
  have "(observer_next s ^^ 4) OProducer = ODone \<lparr>available = ring_count s, observed_discarded = discarded s,
     resynchronization_generation = generation s\<rparr>"
    by (simp add: observer_next_def ring_count_def eval_nat_numeral)
  then show ?thesis using step [of OProducer 4] by metis
qed

section \<open>Properties\<close>

lemma core_copy:
  assumes "core c r s" "consumer_at s = CCopy k"
  shows "k < length (slots s) \<and> k \<noteq> producer s \<and> slots s ! k \<noteq> None"
proof -
  have k: "k = c" "c \<noteq> producer s" "c < length (slots s)" "producer s < length (slots s)"
    using assms by (auto simp: core_def claim_inv_def consumer_inv_def shape_inv_def)
  then have "0 < distance c (producer s) (length (slots s))"
    using distance_zero [of c "length (slots s)" "producer s"] by auto
  then have "slots s ! c = Some (published s ! gone s)"
    using assms(1) k by (fastforce simp: core_def queue_inv_def)
  then show ?thesis using k by auto
qed

text \<open>A small ring with two calls under way, for the examples.\<close>

lemma cs_index_0: "cs_index 0 = 0"
  by (simp add: cs_index_def)

lemma cs_index_READING: "cs_index READING = 0"
  by (simp add: cs_index_def INDEX_MASK_def)

definition sample :: "nat option list \<Rightarrow> nat \<Rightarrow> 64 word \<Rightarrow> nat producer_pc \<Rightarrow> nat consumer_pc \<Rightarrow>
    nat list \<Rightarrow> publish_outcome option \<Rightarrow> nat handoff" where
  "sample sl p w pa ca ps out = \<lparr>slots = sl, producer = p, consumer_state = w, generation = 0,
     discarded = 0, producer_at = pa, consumer_at = ca, pushed = out, popped = None, bumps = 0,
     published = ps, gone = 0, delivered = [], evicted = 0, dropped = 0\<rparr>"

lemma sample_steps:
  "producer_next (sample [None, None, None] 0 0 (PLoad 7) CIdle [] None) =
     sample [None, None, None] 0 0 (PWrite 7 False) CIdle [] None"
  "producer_next (sample [None, None, None] 0 0 (PWrite 7 False) CIdle [] None) =
     sample [Some 7, None, None] 0 0 (PStore 7 False) CIdle [] None"
  "producer_next (sample [Some 7, None, None] 0 0 (PStore 7 False) CIdle [] None) =
     sample [Some 7, None, None] 1 0 PIdle CIdle [7] (Some Published)"
  "consumer_next (sample [Some 7, None, None] 1 0 PIdle CGeneration [7] out) =
     sample [Some 7, None, None] 1 0 PIdle (CState 0) [7] out"
  "consumer_next (sample [Some 7, None, None] 1 0 PIdle (CState 0) [7] out) =
     sample [Some 7, None, None] 1 0 PIdle (CCursor 0 0) [7] out"
  "consumer_next (sample [Some 7, None, None] 1 0 PIdle (CCursor 0 0) [7] out) =
     sample [Some 7, None, None] 1 0 PIdle (CClaim 0) [7] out"
  "consumer_next (sample [Some 7, None, None] 1 0 PIdle (CClaim 0) [7] out) =
     sample [Some 7, None, None] 1 READING PIdle (CCheck 0 0) [7] out"
  "consumer_next (sample [Some 7, None, None] 1 READING PIdle (CCheck 0 0) [7] out) =
     sample [Some 7, None, None] 1 READING PIdle (CCopy 0) [7] out"
  "producer_next (sample [Some 7, None, None] 1 READING (PLoad 8) (CCopy 0) [7] out) =
     sample [Some 7, None, None] 1 READING (PWrite 8 False) (CCopy 0) [7] out"
  by (simp_all add: sample_def producer_next_def consumer_next_def next_index_def cs_index_0 cs_index_READING)

lemma sample_begins:
  "handoff_run (BeginPush v # ms) (sample sl p w PIdle ca ps out) =
     handoff_run ms (sample sl p w (PLoad v) ca ps None)"
  "handoff_run (BeginPop # ms) (sample sl p w pa CIdle ps out) =
     handoff_run ms (sample sl p w pa CGeneration ps out)"
  by (simp_all add: sample_def)

lemma sample_run:
  "handoff_run [BeginPush 7, ProducerMove, ProducerMove, ProducerMove, BeginPop, ConsumerMove,
     ConsumerMove, ConsumerMove, ConsumerMove, ConsumerMove, BeginPush 8, ProducerMove]
     (sample [None, None, None] 0 0 PIdle CIdle [] None) =
   sample [Some 7, None, None] 1 READING (PWrite 8 False) (CCopy 0) [7] None"
  by (simp only: sample_begins handoff_run.simps(1,4,5) sample_steps)

lemma handoff_split_3: "handoff_split 3 = Inr (sample [None, None, None] 0 0 PIdle CIdle [] None)"
  by (simp add: handoff_split_def unat_INDEX_MASK numeral_3_eq_3 sample_def)

abbreviation copying :: "nat handoff" where
  "copying \<equiv> sample [Some 7, None, None] 1 READING (PWrite 8 False) (CCopy 0) [7] None"

lemma copying_reachable: "reachable handoff_init handoff_step copying"
  using reachable_split [OF handoff_split_3] sample_run by metis

lemma sample_reachable:
  "reachable handoff_init handoff_step (sample [None, None, None] 0 0 PIdle CIdle [] None)"
  using reachable_split [OF handoff_split_3, of "[]"] by simp

text \<open>C1: in every interleaving the consumer copies only a slot that lies inside the ring, was written
  before, and is not the slot the producer writes: no data race and no read of uninitialised memory.\<close>

theorem handoff_copy_safe:
  assumes "reachable handoff_init handoff_step s" "bumps s < 2 ^ 64" "consumer_at s = CCopy k"
  shows "k < length (slots s) \<and> slots s ! k \<noteq> None \<and>
    (case producer_at s of PWrite _ _ \<Rightarrow> producer s \<noteq> k | _ \<Rightarrow> True)"
  using handoff_core [OF assms(1,2)] core_copy [OF _ assms(3)] by (auto split: producer_pc.splits)

lemma handoff_copy_safe_witness:
  "slots copying ! 0 = Some 7 \<and> producer_at copying = PWrite 8 False \<and>
   producer copying \<noteq> 0"
  using handoff_copy_safe [OF copying_reachable, of 0] by (simp add: sample_def)

text \<open>C2: the slots from the consumer index to the producer cursor always hold exactly the published
  values that have not left, in their order of publication, and the delivered values are a subsequence
  of those that have left: nothing is delivered twice, out of order, or without having been published.\<close>

theorem handoff_order:
  assumes "reachable handoff_init handoff_step s" "bumps s < 2 ^ 64"
  shows "handoff_contents s = map Some (drop (gone s) (published s)) \<and>
    subseq (delivered s) (take (gone s) (published s))"
  using handoff_core [OF assms] core_contents by (auto simp: core_def history_inv_def)

lemma handoff_order_witness:
  "handoff_contents copying = [Some 7]"
  using handoff_order [OF copying_reachable] by (simp add: sample_def)



text \<open>C4: \<open>push\<close> is wait-free: whatever the consumer does in between, eight steps of the producer finish
  any call.\<close>

theorem push_wait_free:
  assumes "8 \<le> count_list ms ProducerMove"
    and "list_all (\<lambda>m. case m of BeginPush _ \<Rightarrow> False | _ \<Rightarrow> True) ms"
  shows "producer_at (handoff_run ms s) = PIdle"
  using push_steps_run [OF assms(2), of s] push_steps_le [of "producer_at s"] assms(1)
    push_steps_zero [of "producer_at (handoff_run ms s)"] by simp

lemma push_wait_free_witness:
  "producer_at (handoff_run (concat (replicate 8 [ConsumerMove, ProducerMove])) copying) = PIdle"
  by (rule push_wait_free) code_simp+

lemma run_producer_Suc: "handoff_run (replicate (Suc k) ProducerMove) s = handoff_run (replicate k ProducerMove) (producer_next s)"
  by simp

lemma run_consumer_Suc: "handoff_run (replicate (Suc k) ConsumerMove) s = handoff_run (replicate k ConsumerMove) (consumer_next s)"
  by simp

lemmas run_Suc = run_producer_Suc run_consumer_Suc

lemma push_with_room:
  assumes "producer_at s = PIdle" "next_index (producer s) (length (slots s)) \<noteq> cs_index (consumer_state s)"
  shows "handoff_run (BeginPush v # replicate 8 ProducerMove) s =
    s\<lparr>slots := (slots s)[producer s := Some v], producer := next_index (producer s) (length (slots s)),
      published := published s @ [v], producer_at := PIdle, pushed := Some Published\<rparr>" (is "_ = ?s4")
proof -
  let ?s1 = "s\<lparr>producer_at := PLoad v, pushed := None\<rparr>"
  let ?s2 = "?s1\<lparr>producer_at := PWrite v False\<rparr>"
  let ?s3 = "?s2\<lparr>slots := (slots s)[producer s := Some v], producer_at := PStore v False\<rparr>"
  have "producer_next ?s1 = ?s2" "producer_next ?s2 = ?s3" "producer_next ?s3 = ?s4"
    using assms by (simp_all add: producer_next_def)
  then have "handoff_run (replicate (Suc (Suc (Suc 5))) ProducerMove) ?s1 = ?s4"
    by (simp only: run_Suc run_producer_idle [of ?s4 5, simplified])
  then show ?thesis using assms(1) by simp
qed

lemma push_when_full:
  assumes "producer_at s = PIdle" "c < 2 ^ 63" "consumer_state s = word_of_nat c"
    and "next_index (producer s) (length (slots s)) = c"
  shows "\<exists>t. handoff_run (BeginPush v # replicate 8 ProducerMove) s = t \<and>
    slots t = (slots s)[producer s := Some v] \<and> consumer_state t = word_of_nat (producer s) \<and>
    producer t = c \<and> producer_at t = PIdle \<and> pushed t = Some ReplacedStale \<and>
    discarded t = discarded s + word_of_nat (distance c (producer s) (length (slots s)))"
proof -
  have c: "cs_index (consumer_state s) = c" using assms(2,3) cs_index_enc [of c False] by (simp add: enc_def)
  let ?s1 = "s\<lparr>producer_at := PLoad v, pushed := None\<rparr>"
  let ?s2 = "?s1\<lparr>producer_at := PBump v\<rparr>"
  let ?s3 = "(bump ?s2)\<lparr>producer_at := PReload v\<rparr>"
  let ?s4 = "?s3\<lparr>producer_at := PExchange v c\<rparr>"
  let ?s5 = "?s4\<lparr>consumer_state := word_of_nat (producer s), producer_at := PCount v c,
    gone := length (published s), evicted := evicted s + (length (published s) - gone s)\<rparr>"
  let ?s6 = "?s5\<lparr>discarded := discarded s + word_of_nat (distance c (producer s) (length (slots s))),
    producer_at := PWrite v True\<rparr>"
  let ?s7 = "?s6\<lparr>slots := (slots s)[producer s := Some v], producer_at := PStore v True\<rparr>"
  let ?s8 = "?s7\<lparr>producer := c, published := published s @ [v], producer_at := PFinish\<rparr>"
  let ?s9 = "(bump ?s8)\<lparr>producer_at := PIdle, pushed := Some ReplacedStale\<rparr>"
  have steps: "producer_next ?s1 = ?s2" "producer_next ?s2 = ?s3" "producer_next ?s3 = ?s4"
    "producer_next ?s4 = ?s5" "producer_next ?s5 = ?s6" "producer_next ?s6 = ?s7"
    "producer_next ?s7 = ?s8" "producer_next ?s8 = ?s9"
    using assms c by (simp_all add: producer_next_def bump_def)
  have "handoff_run (replicate (Suc (Suc (Suc (Suc (Suc (Suc (Suc (Suc 0)))))))) ProducerMove) ?s1 = ?s9"
    by (simp only: run_Suc steps replicate_0 handoff_run.simps(1))
  then show ?thesis
    using assms(1) by (simp add: bump_def eval_nat_numeral)
qed

lemma pop_empty:
  assumes "consumer_at s = CIdle" "generation s AND 1 = 0" "cs_index (consumer_state s) = producer s"
  shows "handoff_run (BeginPop # replicate 7 ConsumerMove) s = s\<lparr>consumer_at := CIdle, popped := None\<rparr>"
    (is "_ = ?s4")
proof -
  let ?s1 = "s\<lparr>consumer_at := CGeneration, popped := None\<rparr>"
  let ?s2 = "?s1\<lparr>consumer_at := CState (generation s)\<rparr>"
  let ?s3 = "?s2\<lparr>consumer_at := CCursor (generation s) (producer s)\<rparr>"
  have "consumer_next ?s1 = ?s2" "consumer_next ?s2 = ?s3" "consumer_next ?s3 = ?s4"
    using assms by (simp_all add: consumer_next_def)
  then have "handoff_run (replicate (Suc (Suc (Suc 4))) ConsumerMove) ?s1 = ?s4"
    by (simp only: run_Suc run_consumer_idle [of ?s4 4, simplified])
  then show ?thesis using assms(1) by simp
qed

lemma pop_head:
  assumes "consumer_at s = CIdle" "generation s AND 1 = 0" "c < 2 ^ 63" "consumer_state s = word_of_nat c"
    and "c \<noteq> producer s" "slots s ! c = Some v"
  shows "\<exists>t. handoff_run (BeginPop # replicate 7 ConsumerMove) s = t \<and> slots t = slots s \<and>
    producer t = producer s \<and> consumer_state t = word_of_nat (next_index c (length (slots s))) \<and>
    consumer_at t = CIdle \<and> popped t = Some v"
proof -
  have c: "cs_index (consumer_state s) = c" using assms(3,4) cs_index_enc [of c False] by (simp add: enc_def)
  let ?g = "generation s"
  let ?s1 = "s\<lparr>consumer_at := CGeneration, popped := None\<rparr>"
  let ?s2 = "?s1\<lparr>consumer_at := CState ?g\<rparr>"
  let ?s3 = "?s2\<lparr>consumer_at := CCursor ?g c\<rparr>"
  let ?s4 = "?s3\<lparr>consumer_at := CClaim ?g\<rparr>"
  let ?s5 = "?s4\<lparr>consumer_state := consumer_state s OR READING, consumer_at := CCheck ?g c\<rparr>"
  let ?s6 = "?s5\<lparr>consumer_at := CCopy c\<rparr>"
  let ?s7 = "?s6\<lparr>consumer_at := CRelease c v\<rparr>"
  let ?s8 = "?s7\<lparr>consumer_state := word_of_nat (next_index c (length (slots s))), consumer_at := CIdle,
    popped := Some v, gone := gone s + 1, delivered := delivered s @ [v]\<rparr>"
  have steps: "consumer_next ?s1 = ?s2" "consumer_next ?s2 = ?s3" "consumer_next ?s3 = ?s4"
    "consumer_next ?s4 = ?s5" "consumer_next ?s5 = ?s6" "consumer_next ?s6 = ?s7" "consumer_next ?s7 = ?s8"
    using assms c by (simp_all add: consumer_next_def)
  have "handoff_run (replicate (Suc (Suc (Suc (Suc (Suc (Suc (Suc 0))))))) ConsumerMove) ?s1 = ?s8"
    by (simp only: run_Suc steps replicate_0 handoff_run.simps(1))
  then show ?thesis
    using assms(1) by (simp add: eval_nat_numeral)
qed

text \<open>The contents of the ring, as a function of the slots and the two indices.\<close>

definition ring_contents :: "'a option list \<Rightarrow> nat \<Rightarrow> nat \<Rightarrow> 'a option list" where
  "ring_contents sl c p = map (\<lambda>i. sl ! ((c + i) mod length sl)) [0..<distance c p (length sl)]"

lemma contents_ring: "handoff_contents s = ring_contents (slots s) (cs_index (consumer_state s)) (producer s)"
  by (simp add: handoff_contents_def ring_count_def ring_contents_def)

lemma length_ring: "length (ring_contents sl c p) = distance c p (length sl)"
  by (simp add: ring_contents_def)

lemma ring_append:
  assumes "c < length sl" "p < length sl" "next_index p (length sl) \<noteq> c"
  shows "ring_contents (sl[p := x]) c (next_index p (length sl)) = ring_contents sl c p @ [x]"
  using assms distance_next_producer [OF assms] slot_of_distance [OF assms(1,2)]
    slot_not_producer [OF assms(1,2), THEN not_sym]
  by (auto simp: ring_contents_def)

lemma ring_none: "p < length sl \<Longrightarrow> ring_contents sl p p = []"
  by (simp add: ring_contents_def distance_zero)

lemma ring_tail:
  assumes "c < length sl" "p < length sl" "c \<noteq> p"
  shows "ring_contents sl c p = sl ! c # ring_contents sl (next_index c (length sl)) p"
  using assms slot_after_release [of c "length sl"]
  by (simp add: ring_contents_def distance_next_consumer [OF assms] upt_conv_Cons map_Suc_upt [symmetric]
      del: upt_Suc)

lemma room_iff: "c < n \<Longrightarrow> p < n \<Longrightarrow> next_index p n = c \<longleftrightarrow> distance c p n + 1 = n"
  by (auto simp: distance_if next_index_if split: if_splits)

lemma core_idle:
  assumes "core c r s" "producer_at s = PIdle" "consumer_at s = CIdle"
  shows "c < length (slots s)" "producer s < length (slots s)" "c < 2 ^ 63" "2 \<le> length (slots s)"
    "length (slots s) < 2 ^ 63"
    "consumer_state s = word_of_nat c" "generation s AND 1 = 0"
  using assms generation_parity [of "bumps s"]
  by (auto simp: core_def shape_inv_def claim_inv_def enc_def critical_def)

text \<open>A \<open>push\<close> that runs while the consumer is idle appends the value when there is room, and
  otherwise evicts everything, counts it as discarded and leaves just the new value.\<close>

theorem push_alone:
  assumes "reachable handoff_init handoff_step s" "bumps s < 2 ^ 64"
    and "producer_at s = PIdle" "consumer_at s = CIdle"
  shows "let t = handoff_run (BeginPush v # replicate 8 ProducerMove) s in
    producer_at t = PIdle \<and>
    (if length (handoff_contents s) + 1 < length (slots s)
     then pushed t = Some Published \<and> handoff_contents t = handoff_contents s @ [Some v] \<and>
       discarded t = discarded s
     else pushed t = Some ReplacedStale \<and> handoff_contents t = [Some v] \<and>
       discarded t = discarded s + word_of_nat (length (handoff_contents s)))"
proof -
  obtain c r where core: "core c r s" using handoff_core [OF assms(1,2)] by blast
  note idle = core_idle [OF core assms(3,4)]
  have cs: "cs_index (word_of_nat k) = k" if "k < length (slots s)" for k
    using cs_index_enc [of k False] idle(5) that by (simp add: enc_def)
  show ?thesis
  proof (cases "next_index (producer s) (length (slots s)) = c")
    case True
    obtain t where t: "handoff_run (BeginPush v # replicate 8 ProducerMove) s = t"
      "slots t = (slots s)[producer s := Some v]" "consumer_state t = word_of_nat (producer s)"
      "producer t = c" "producer_at t = PIdle" "pushed t = Some ReplacedStale"
      "discarded t = discarded s + word_of_nat (distance c (producer s) (length (slots s)))"
      using push_when_full [OF assms(3) idle(3,6) True] by blast
    have "handoff_contents t = [Some v]"
      using ring_append [of "producer s" "slots s" "producer s" "Some v"] idle t True cs
        next_index_not_self [OF idle(4,2)]
      by (simp add: contents_ring ring_none)
    then show ?thesis
      using t idle cs room_iff [OF idle(1,2)] True by (simp add: Let_def contents_ring length_ring)
  next
    case False
    have room: "length (handoff_contents s) + 1 < length (slots s)"
      using idle cs room_iff [OF idle(1,2)] distance_less [OF idle(1,2)] False
      by (simp add: contents_ring length_ring)
    show ?thesis
      using push_with_room [OF assms(3), of v] ring_append [OF idle(1,2), of "Some v"] idle cs room False
      by (simp add: Let_def contents_ring)
  qed
qed

lemma push_alone_witness:
  "handoff_contents (handoff_run (BeginPush 9 # replicate 8 ProducerMove)
     (sample [None, None, None] 0 0 PIdle CIdle [] None)) = [Some 9]"
  using push_alone [OF sample_reachable, of 9]
  by (simp add: sample_def contents_ring ring_contents_def cs_index_0 distance_def Let_def)

text \<open>A \<open>pop\<close> that runs while the producer is idle returns and removes the oldest value, and returns
  nothing exactly when the ring is empty.\<close>

theorem pop_alone:
  assumes "reachable handoff_init handoff_step s" "bumps s < 2 ^ 64"
    and "producer_at s = PIdle" "consumer_at s = CIdle"
  shows "let t = handoff_run (BeginPop # replicate 7 ConsumerMove) s in
    consumer_at t = CIdle \<and>
    (case handoff_contents s of
       [] \<Rightarrow> popped t = None \<and> handoff_contents t = []
     | v # vs \<Rightarrow> popped t = v \<and> handoff_contents t = vs)"
proof -
  obtain c r where core: "core c r s" using handoff_core [OF assms(1,2)] by blast
  note idle = core_idle [OF core assms(3,4)]
  have cs: "cs_index (word_of_nat k) = k" if "k < length (slots s)" for k
    using cs_index_enc [of k False] idle(5) that by (simp add: enc_def)
  show ?thesis
  proof (cases "c = producer s")
    case True
    then show ?thesis
      using pop_empty [OF assms(4) idle(7)] idle cs by (simp add: Let_def contents_ring ring_none)
  next
    case False
    have tail: "handoff_contents s =
        slots s ! c # ring_contents (slots s) (next_index c (length (slots s))) (producer s)"
      using ring_tail [OF idle(1,2) False] idle cs by (simp add: contents_ring)
    then have "slots s ! c \<noteq> None" using core_contents [OF core] by (cases "slots s ! c") auto
    then obtain v where v: "slots s ! c = Some v" by blast
    obtain t where t: "handoff_run (BeginPop # replicate 7 ConsumerMove) s = t" "slots t = slots s"
      "producer t = producer s" "consumer_state t = word_of_nat (next_index c (length (slots s)))"
      "consumer_at t = CIdle" "popped t = Some v"
      using pop_head [OF assms(4) idle(7,3,6) False v] by blast
    have "next_index c (length (slots s)) < length (slots s)"
      using next_index_less [of "length (slots s)" c] idle(4) by linarith
    then show ?thesis
      using t tail v cs by (simp add: Let_def contents_ring)
  qed
qed

lemma pop_alone_witness:
  "popped (handoff_run (BeginPop # replicate 7 ConsumerMove)
     (sample [None, None, None] 0 0 PIdle CIdle [] None)) = None"
  using pop_alone [OF sample_reachable]
  by (simp add: sample_def contents_ring ring_contents_def cs_index_0 distance_def Let_def)

end
