(* ===== verification/Float_Arithmetic.thy ===== *)
theory Float_Arithmetic
  imports Float_Order
begin

text \<open>
  The floating-point operations of the sample paths: product, quotient and conversions, each correctly
  rounded in its format, and rounding to an integer. The section on exactness shows when nothing is
  rounded: a magnitude that is a multiple of a representable power of two and fits in the mantissa.
\<close>

section \<open>Operations\<close>

fun float_negative :: "rust_float \<Rightarrow> bool" where
  "float_negative FNaN = False"
| "float_negative (FInf neg) = neg"
| "float_negative (FFin neg _) = neg"

fun float_mul :: "float_format \<Rightarrow> rust_float \<Rightarrow> rust_float \<Rightarrow> rust_float" where
  "float_mul fmt (FFin a p) (FFin b q) = float_of fmt (a \<noteq> b) (p * q)"
| "float_mul fmt (FInf a) (FFin b q) = (if q = 0 then FNaN else FInf (a \<noteq> b))"
| "float_mul fmt (FFin a p) (FInf b) = (if p = 0 then FNaN else FInf (a \<noteq> b))"
| "float_mul fmt (FInf a) (FInf b) = FInf (a \<noteq> b)"
| "float_mul fmt FNaN _ = FNaN"
| "float_mul fmt _ FNaN = FNaN"

fun float_div :: "float_format \<Rightarrow> rust_float \<Rightarrow> rust_float \<Rightarrow> rust_float" where
  "float_div fmt (FFin a p) (FFin b q) =
     (if q = 0 then (if p = 0 then FNaN else FInf (a \<noteq> b)) else float_of fmt (a \<noteq> b) (p / q))"
| "float_div fmt (FInf a) (FFin b _) = FInf (a \<noteq> b)"
| "float_div fmt (FFin a _) (FInf b) = FFin (a \<noteq> b) 0"
| "float_div fmt (FInf _) (FInf _) = FNaN"
| "float_div fmt FNaN _ = FNaN"
| "float_div fmt _ FNaN = FNaN"

text \<open>Conversion of a value to a format (\<open>f64::from\<close>, \<open>as f32\<close>) and of an integer.\<close>

fun float_convert :: "float_format \<Rightarrow> rust_float \<Rightarrow> rust_float" where
  "float_convert fmt (FFin neg q) = float_of fmt neg q"
| "float_convert fmt x = x"

definition float_from_int :: "float_format \<Rightarrow> int \<Rightarrow> rust_float" where
  "float_from_int fmt n = float_of fmt (n < 0) (of_int \<bar>n\<bar>)"

text \<open>\<open>round_ties_even\<close> and \<open>round\<close> (half away from zero) of a finite value, as an integer.\<close>

fun float_round_even :: "rust_float \<Rightarrow> int" where
  "float_round_even (FFin neg q) = (if neg then - round_even q else round_even q)"
| "float_round_even _ = 0"

fun float_round_away :: "rust_float \<Rightarrow> int" where
  "float_round_away (FFin neg q) = (let r = \<lfloor>q + 1 / 2\<rfloor> in if neg then - r else r)"
| "float_round_away _ = 0"

section \<open>Exactness\<close>

lemma pow2_ratio: "e \<le> k \<Longrightarrow> pow2 k = of_int (2 ^ nat (k - e)) * pow2 e"
  using pow2_of_nat [of "nat (k - e)"] pow2_add [of "k - e" e] by simp

lemma rounded_exact:
  assumes "0 < n" "n < 2 ^ mantissa_bits fmt" "min_exponent fmt \<le> k"
  shows "rounded fmt (of_int n * pow2 k) = of_int n * pow2 k"
proof -
  let ?q = "of_int n * pow2 k" and ?e = "unit_exponent fmt (of_int n * pow2 k)"
  have q: "0 < ?q" using assms(1) by simp
  have "rat_of_int n < of_int (2 ^ mantissa_bits fmt)" using assms(2) by (simp only: of_int_less_iff)
  then have "?q < pow2 (int (mantissa_bits fmt)) * pow2 k"
    by (simp add: pow2_of_nat)
  then have "ilog2 ?q < int (mantissa_bits fmt) + k" using q ilog2_less by (simp add: pow2_add)
  then have e: "?e \<le> k" using assms(3) by (simp add: unit_exponent_def)
  have split: "?q = of_int (n * 2 ^ nat (k - ?e)) * pow2 ?e"
    using pow2_ratio [OF e] by simp
  then have "?q / pow2 ?e = of_int (n * 2 ^ nat (k - ?e))"
    by (metis nonzero_mult_div_cancel_right less_imp_neq pow2_pos)
  then have "round_even (?q / pow2 ?e) = n * 2 ^ nat (k - ?e)" by (simp only: round_even_of_int)
  then show ?thesis using split unfolding rounded_def by auto
qed

lemma float_of_exact:
  assumes "0 \<le> n" "n < 2 ^ mantissa_bits fmt" "min_exponent fmt \<le> k"
    "int (mantissa_bits fmt) + k \<le> max_exponent fmt"
  shows "float_of fmt neg (of_int n * pow2 k) = FFin neg (of_int n * pow2 k)"
proof (cases "n = 0")
  case True
  then show ?thesis by (simp add: float_of_def round_magnitude_def)
next
  case False
  let ?q = "of_int n * pow2 k"
  have n: "0 < n" using False assms(1) by simp
  have "rat_of_int n < of_int (2 ^ mantissa_bits fmt)" using assms(2) by (simp only: of_int_less_iff)
  then have "?q < pow2 (int (mantissa_bits fmt) + k)" by (simp add: pow2_of_nat pow2_add)
  moreover have "pow2 (int (mantissa_bits fmt) + k) \<le> pow2 (max_exponent fmt)" using assms(4) by simp
  ultimately have "\<not> pow2 (max_exponent fmt) \<le> ?q" by linarith
  then show ?thesis
    using rounded_exact [OF n assms(2,3)] n round_magnitude_rounded [of ?q fmt] by (simp add: float_of_def)
qed

lemma float_from_int_exact:
  assumes "\<bar>n\<bar> < 2 ^ mantissa_bits fmt" "min_exponent fmt \<le> 0" "int (mantissa_bits fmt) \<le> max_exponent fmt"
  shows "float_from_int fmt n = FFin (n < 0) (of_int \<bar>n\<bar>)"
  using float_of_exact [of "\<bar>n\<bar>" fmt 0 "n < 0"] assms by (simp add: float_from_int_def pow2_def)

section \<open>Order\<close>

lemma float_of_mono:
  assumes "0 \<le> p" "p \<le> q" "0 < mantissa_bits fmt"
  shows "float_le (float_of fmt False p) (float_of fmt False q)"
    and "float_le (float_of fmt True q) (float_of fmt True p)"
proof -
  have r: "p \<noteq> 0 \<Longrightarrow> rounded fmt p \<le> rounded fmt q" "p \<noteq> 0 \<Longrightarrow> 0 \<le> rounded fmt p"
      "q \<noteq> 0 \<Longrightarrow> 0 \<le> rounded fmt q"
    using assms rounded_mono [of p q fmt] rounded_nonneg by auto
  have z: "round_magnitude fmt 0 = Some 0" by (simp add: round_magnitude_def)
  have cases: "p = 0 \<or> 0 < p" "q = 0 \<or> 0 < q" using assms by auto
  show "float_le (float_of fmt False p) (float_of fmt False q)"
    "float_le (float_of fmt True q) (float_of fmt True p)"
    using cases r z round_magnitude_rounded [of p fmt] round_magnitude_rounded [of q fmt] assms
    by (auto simp: float_of_def)
qed

lemma float_of_negative_le:
  assumes "0 \<le> p" "0 \<le> q"
  shows "float_le (float_of fmt True p) (float_of fmt False q)"
proof -
  have z: "round_magnitude fmt 0 = Some 0" by (simp add: round_magnitude_def)
  have cases: "p = 0 \<or> 0 < p" "q = 0 \<or> 0 < q" using assms by auto
  have "p \<noteq> 0 \<Longrightarrow> 0 \<le> rounded fmt p" "q \<noteq> 0 \<Longrightarrow> 0 \<le> rounded fmt q"
    using assms rounded_nonneg by auto
  then show ?thesis
    using cases z round_magnitude_rounded [of p fmt] round_magnitude_rounded [of q fmt]
    by (auto simp: float_of_def)
qed

lemma round_even_bounds: "0 \<le> q \<Longrightarrow> q \<le> of_int k \<Longrightarrow> 0 \<le> round_even q \<and> round_even q \<le> k"
  using round_even_ge_of_int [of 0 q] round_even_le_of_int [of q k] by simp

lemma float_round_even_mono:
  assumes "float_le x y" "is_finite x" "is_finite y"
    "\<And>a p. x = FFin a p \<Longrightarrow> 0 \<le> p" "\<And>a p. y = FFin a p \<Longrightarrow> 0 \<le> p"
  shows "float_round_even x \<le> float_round_even y"
proof -
  obtain a p b q where xy: "x = FFin a p" "y = FFin b q" using assms(2,3) by (cases x; cases y) auto
  have nonneg: "0 \<le> p" "0 \<le> q" "0 \<le> round_even p" "0 \<le> round_even q"
    using assms(4,5) xy round_even_ge_of_int [of 0] by auto
  have "round_even p = 0 \<and> round_even q = 0" if "p \<le> - q"
  proof -
    have "p = 0" "q = 0" using that nonneg by linarith+
    then show ?thesis using round_even_of_int [of 0] by simp
  qed
  then show ?thesis
    using assms(1) nonneg round_even_mono [of p q] round_even_mono [of q p] xy
    by (cases a; cases b) (auto intro: order_trans [of "- round_even p" 0])
qed

end
