(* ===== verification/Pcm.thy ===== *)
theory Pcm
  imports Float_Arithmetic
begin

text \<open>
  The signed-16 PCM boundary to Asterisk, \<^verbatim>\<open>rust/asl3/src/pcm.rs\<close>: the conversion of samples, the
  controller frames, and the assembly of converted spans into 20 ms frames in a fixed buffer. An \<open>i16\<close>
  is an integer in its range; a buffer that Rust updates in place is a list of the same length.
\<close>

section \<open>Modes and frames\<close>

definition APP_RPT_FRAME_SAMPLES :: nat where "APP_RPT_FRAME_SAMPLES = 160"
definition ADVANCED_FRAME_SAMPLES :: nat where "ADVANCED_FRAME_SAMPLES = 960"
definition ASSEMBLY_CAPACITY :: nat where "ASSEMBLY_CAPACITY = ADVANCED_FRAME_SAMPLES * 2"

datatype asterisk_pcm_mode = AppRpt | Advanced

definition sample_rate_hz :: "asterisk_pcm_mode \<Rightarrow> int" where
  "sample_rate_hz mode = (case mode of AppRpt \<Rightarrow> 8000 | Advanced \<Rightarrow> 48000)"

definition frame_samples :: "asterisk_pcm_mode \<Rightarrow> nat" where
  "frame_samples mode =
     (case mode of AppRpt \<Rightarrow> APP_RPT_FRAME_SAMPLES | Advanced \<Rightarrow> ADVANCED_FRAME_SAMPLES)"

record controller_pcm_frame =
  frame_mode :: asterisk_pcm_mode
  frame_storage :: "int list"

text \<open>\<open>copy_from_slice\<close> and \<open>fill\<close> on a part of a buffer.\<close>

definition overwrite :: "nat \<Rightarrow> 'a list \<Rightarrow> 'a list \<Rightarrow> 'a list" where
  "overwrite start source buffer = take start buffer @ source @ drop (start + length source) buffer"

definition silence :: "asterisk_pcm_mode \<Rightarrow> controller_pcm_frame" where
  "silence mode = \<lparr>frame_mode = mode, frame_storage = replicate ADVANCED_FRAME_SAMPLES 0\<rparr>"

definition app_rpt :: "int list \<Rightarrow> controller_pcm_frame" where
  "app_rpt input =
     \<lparr>frame_mode = AppRpt, frame_storage = overwrite 0 input (replicate ADVANCED_FRAME_SAMPLES 0)\<rparr>"

definition advanced :: "int list \<Rightarrow> controller_pcm_frame" where
  "advanced input = \<lparr>frame_mode = Advanced, frame_storage = input\<rparr>"

definition frame_audio :: "controller_pcm_frame \<Rightarrow> int list" where
  "frame_audio frame = take (frame_samples (frame_mode frame)) (frame_storage frame)"

datatype pcm_boundary_error = AssemblyOverflow | InvalidFrameSize

fun pcm_boundary_error_display :: "pcm_boundary_error \<Rightarrow> string" where
  "pcm_boundary_error_display AssemblyOverflow = ''Asterisk PCM assembly overflow''"
| "pcm_boundary_error_display InvalidFrameSize = ''invalid Asterisk PCM frame size''"

section \<open>Samples\<close>

definition s16_to_f32 :: "int \<Rightarrow> rust_float" where
  "s16_to_f32 s = float_div f32_format (float_from_int f32_format s) (float_from_int f32_format 32768)"

definition f32_to_s16 :: "rust_float \<Rightarrow> int" where
  "f32_to_s16 x =
     (if \<not> is_finite x then 0
      else
        (let scaled = float_mul f64_format (float_convert f64_format x) (f64 32768) in
         if float_le (float_from_int f64_format 32767) scaled then 32767
         else if float_le scaled (float_from_int f64_format (-32768)) then -32768
         else float_round_even scaled))"

section \<open>Frame assembly\<close>

record frame_assembler =
  assembler_mode :: asterisk_pcm_mode
  assembler_samples :: "int list"
  assembler_count :: nat

definition assembler_new :: "asterisk_pcm_mode \<Rightarrow> frame_assembler" where
  "assembler_new mode =
     \<lparr>assembler_mode = mode, assembler_samples = replicate ASSEMBLY_CAPACITY 0, assembler_count = 0\<rparr>"

definition assembler_append ::
  "int list \<Rightarrow> frame_assembler \<Rightarrow> (pcm_boundary_error, unit) result \<times> frame_assembler" where
  "assembler_append input a =
     (let finish = assembler_count a + length input in
      if length (assembler_samples a) < finish then (Inl AssemblyOverflow, a)
      else (Inr (),
        a\<lparr>assembler_samples := overwrite (assembler_count a) input (assembler_samples a),
          assembler_count := finish\<rparr>))"

text \<open>\<open>copy_within(from..to, 0)\<close>.\<close>

definition copy_down :: "nat \<Rightarrow> nat \<Rightarrow> 'a list \<Rightarrow> 'a list" where
  "copy_down from to buffer = overwrite 0 (take (to - from) (drop from buffer)) buffer"

text \<open>The caller's output buffer goes in and comes back.\<close>

definition assembler_take ::
  "int list \<Rightarrow> frame_assembler \<Rightarrow> (pcm_boundary_error, bool) result \<times> int list \<times> frame_assembler" where
  "assembler_take output a =
     (let n = frame_samples (assembler_mode a) in
      if length output \<noteq> n then (Inl InvalidFrameSize, output, a)
      else if assembler_count a < n then (Inr False, output, a)
      else (Inr True, take n (assembler_samples a),
        a\<lparr>assembler_samples := copy_down n (assembler_count a) (assembler_samples a),
          assembler_count := assembler_count a - n\<rparr>))"

definition assembler_take_padded ::
  "int list \<Rightarrow> frame_assembler \<Rightarrow> (pcm_boundary_error, unit) result \<times> int list \<times> frame_assembler" where
  "assembler_take_padded output a =
     (let n = frame_samples (assembler_mode a) in
      if length output \<noteq> n then (Inl InvalidFrameSize, output, a)
      else
        (let copied = min (assembler_count a) n in
         (Inr (), take copied (assembler_samples a) @ replicate (n - copied) 0,
          a\<lparr>assembler_samples := copy_down copied (assembler_count a) (assembler_samples a),
            assembler_count := assembler_count a - copied\<rparr>)))"

definition assembler_clear :: "frame_assembler \<Rightarrow> frame_assembler" where
  "assembler_clear a =
     a\<lparr>assembler_samples := overwrite 0 (replicate (assembler_count a) 0) (assembler_samples a),
       assembler_count := 0\<rparr>"

definition pending_samples :: "frame_assembler \<Rightarrow> nat" where
  "pending_samples a = assembler_count a"

section \<open>Facts about samples\<close>

definition i16 :: "int \<Rightarrow> bool" where
  "i16 s \<longleftrightarrow> -32768 \<le> s \<and> s \<le> 32767"

lemma pow2_minus_15: "pow2 (-15) = 1 / 32768"
  by (simp add: pow2_def)

lemma f32_int: "\<bar>s\<bar> < 2 ^ 24 \<Longrightarrow> float_from_int f32_format s = FFin (s < 0) (of_int \<bar>s\<bar>)"
  by (rule float_from_int_exact) (auto simp: f32_format_def)

lemma f64_int: "\<bar>s\<bar> < 2 ^ 53 \<Longrightarrow> float_from_int f64_format s = FFin (s < 0) (of_int \<bar>s\<bar>)"
  by (rule float_from_int_exact) (auto simp: f64_format_def)

lemma s16_to_f32_exact:
  assumes "i16 s" shows "s16_to_f32 s = FFin (s < 0) (of_int \<bar>s\<bar> / 32768)"
proof -
  have "float_of f32_format (s < 0) (of_int \<bar>s\<bar> * pow2 (-15)) = FFin (s < 0) (of_int \<bar>s\<bar> * pow2 (-15))"
    by (rule float_of_exact) (use assms in \<open>auto simp: i16_def f32_format_def\<close>)
  moreover have "\<bar>s\<bar> < 2 ^ 24" using assms by (auto simp: i16_def)
  ultimately show ?thesis
    using f32_int [of s] f32_int [of 32768] by (simp add: s16_to_f32_def pow2_minus_15)
qed

lemma f64_32768: "f64 32768 = FFin False 32768"
  using f64_of_int [of 32768] by simp

definition f64_scaled :: "rust_float \<Rightarrow> rust_float" where
  "f64_scaled x = float_mul f64_format (float_convert f64_format x) (f64 32768)"

lemma f32_to_s16_cases:
  "f32_to_s16 x =
     (if \<not> is_finite x then 0
      else if float_le (FFin False 32767) (f64_scaled x) then 32767
      else if float_le (f64_scaled x) (FFin True 32768) then -32768
      else float_round_even (f64_scaled x))"
  unfolding f32_to_s16_def f64_scaled_def
  using f64_int [of 32767] f64_int [of "- 32768"] by (simp add: Let_def)

lemma scaled_s16:
  assumes "i16 s" shows "f64_scaled (s16_to_f32 s) = FFin (s < 0) (of_int \<bar>s\<bar>)"
proof -
  have "float_of f64_format (s < 0) (of_int \<bar>s\<bar> * pow2 (-15)) = FFin (s < 0) (of_int \<bar>s\<bar> * pow2 (-15))"
    by (rule float_of_exact) (use assms in \<open>auto simp: i16_def f64_format_def\<close>)
  moreover have "float_of f64_format (s < 0) (of_int \<bar>s\<bar> * pow2 0) = FFin (s < 0) (of_int \<bar>s\<bar> * pow2 0)"
    by (rule float_of_exact) (use assms in \<open>auto simp: i16_def f64_format_def\<close>)
  ultimately show ?thesis
    using s16_to_f32_exact [OF assms] by (simp add: f64_scaled_def f64_32768 pow2_minus_15 pow2_def)
qed

text \<open>A signed-16 sample survives the conversion to normalised \<open>f32\<close> and back.\<close>

theorem pcm_sample_roundtrip: "i16 s \<Longrightarrow> f32_to_s16 (s16_to_f32 s) = s"
  using scaled_s16 [of s] s16_to_f32_exact [of s] round_even_of_int [of "\<bar>s\<bar>"]
  by (auto simp: f32_to_s16_cases i16_def)

lemma pcm_sample_roundtrip_witness: "f32_to_s16 (s16_to_f32 (- 32768)) = - 32768"
  by (rule pcm_sample_roundtrip) (simp add: i16_def)

text \<open>The magnitude of a finite binary32 value.\<close>

definition f32_magnitude :: "rat \<Rightarrow> bool" where
  "f32_magnitude q \<longleftrightarrow> (\<exists>n k. q = of_int n * pow2 k \<and> 0 \<le> n \<and> n < 2 ^ 24 \<and> -149 \<le> k \<and> k \<le> 104)"

lemma scaled_f32:
  assumes "f32_magnitude q" shows "f64_scaled (FFin neg q) = FFin neg (q * 32768)"
proof -
  obtain n k where q: "q = of_int n * pow2 k" "0 \<le> n" "n < 2 ^ 24" "-149 \<le> k" "k \<le> 104"
    using assms by (auto simp: f32_magnitude_def)
  have pow2_15: "pow2 15 = 32768" by (simp add: pow2_def)
  then have scaled: "q * 32768 = of_int n * pow2 (k + 15)" using q(1) pow2_15 by (simp add: pow2_add)
  have "float_of f64_format neg q = FFin neg q"
    unfolding q(1) by (rule float_of_exact) (use q in \<open>auto simp: f64_format_def\<close>)
  moreover have "float_of f64_format neg (q * 32768) = FFin neg (q * 32768)"
    unfolding scaled by (rule float_of_exact) (use q in \<open>auto simp: f64_format_def\<close>)
  ultimately show ?thesis by (simp add: f64_scaled_def f64_32768)
qed

text \<open>C40: quantisation is exact rounding with saturation: a finite \<open>f32\<close> sample becomes its multiple of
  32768, rounded once to nearest with ties to even and clamped to the range of an \<open>i16\<close>; nothing wraps,
  and a non-finite sample becomes silence.\<close>

theorem pcm_quantisation:
  assumes "f32_magnitude q"
  shows "f32_to_s16 (FFin neg q) = max (-32768) (min 32767 (float_round_even (FFin neg (q * 32768)))) \<and>
    f32_to_s16 FNaN = 0 \<and> f32_to_s16 (FInf neg) = 0"
proof -
  have q: "0 \<le> q" using assms by (auto simp: f32_magnitude_def less_imp_le)
  have "0 \<le> round_even (q * 32768)" using q round_even_ge_of_int [of 0 "q * 32768"] by simp
  moreover have "32767 \<le> q * 32768 \<Longrightarrow> 32767 \<le> round_even (q * 32768)"
    "32768 \<le> q * 32768 \<Longrightarrow> 32768 \<le> round_even (q * 32768)"
    using round_even_ge_of_int [of 32767 "q * 32768"] round_even_ge_of_int [of 32768 "q * 32768"] by simp_all
  moreover have "q * 32768 \<le> 32767 \<Longrightarrow> round_even (q * 32768) \<le> 32767"
    "q * 32768 \<le> 32768 \<Longrightarrow> round_even (q * 32768) \<le> 32768"
    using round_even_le_of_int [of "q * 32768" 32767] round_even_le_of_int [of "q * 32768" 32768] by simp_all
  ultimately show ?thesis
    using scaled_f32 [OF assms, of neg] q by (cases neg) (auto simp: f32_to_s16_cases max_def min_def)
qed

lemma pcm_quantisation_witness: "f32_to_s16 (FFin True (3 / 65536)) = - 2"
proof -
  have "f32_magnitude (3 / 65536)"
    unfolding f32_magnitude_def by (rule exI [of _ 3], rule exI [of _ "- 16"]) (simp add: pow2_def)
  moreover have "round_even (3 / 2) = 2" by code_simp
  ultimately show ?thesis using pcm_quantisation [of "3 / 65536" True] by simp
qed

section \<open>Facts about the assembler\<close>

definition assembler_inv :: "frame_assembler \<Rightarrow> bool" where
  "assembler_inv a \<longleftrightarrow> length (assembler_samples a) = ASSEMBLY_CAPACITY \<and> assembler_count a \<le> ASSEMBLY_CAPACITY"

text \<open>The queue of samples that await delivery.\<close>

definition pending :: "frame_assembler \<Rightarrow> int list" where
  "pending a = take (assembler_count a) (assembler_samples a)"

lemma length_overwrite: "start + length src \<le> length buf \<Longrightarrow> length (overwrite start src buf) = length buf"
  by (simp add: overwrite_def)

lemma take_overwrite: "start \<le> length buf \<Longrightarrow> take (start + length src) (overwrite start src buf) = take start buf @ src"
  by (simp add: overwrite_def)

lemma take_copy_down:
  "hi \<le> length buf \<Longrightarrow> take (hi - lo) (copy_down lo hi buf) = drop lo (take hi buf)"
  using take_overwrite [of 0 buf "take (hi - lo) (drop lo buf)"] diff_le_mono [of hi "length buf" lo]
  by (simp add: copy_down_def drop_take)

lemma length_copy_down: "hi \<le> length buf \<Longrightarrow> length (copy_down lo hi buf) = length buf"
  unfolding copy_down_def by (subst length_overwrite) auto

lemma assembler_new_inv: "assembler_inv (assembler_new mode) \<and> pending (assembler_new mode) = []"
  by (simp add: assembler_inv_def assembler_new_def pending_def)

lemma assembler_append_outcome:
  assumes "assembler_inv a" "assembler_append xs a = (r, a')"
  shows "assembler_inv a' \<and> assembler_mode a' = assembler_mode a \<and>
    (if length (pending a) + length xs \<le> ASSEMBLY_CAPACITY
     then r = Inr () \<and> pending a' = pending a @ xs else r = Inl AssemblyOverflow \<and> a' = a)"
  using assms take_overwrite [of "assembler_count a" "assembler_samples a" xs]
  by (auto simp: assembler_append_def assembler_inv_def pending_def Let_def length_overwrite split: if_splits)

lemma frame_samples_bounds: "0 < frame_samples m" "frame_samples m \<le> ASSEMBLY_CAPACITY"
  by (simp_all add: frame_samples_def ASSEMBLY_CAPACITY_def APP_RPT_FRAME_SAMPLES_def
      ADVANCED_FRAME_SAMPLES_def split: asterisk_pcm_mode.split)

lemma assembler_take_outcome:
  assumes "assembler_inv a" "assembler_take out a = (r, out', a')"
  shows "assembler_inv a' \<and> assembler_mode a' = assembler_mode a \<and>
    (if length out \<noteq> frame_samples (assembler_mode a) then r = Inl InvalidFrameSize \<and> out' = out \<and> a' = a
     else if length (pending a) < frame_samples (assembler_mode a) then r = Inr False \<and> out' = out \<and> a' = a
     else r = Inr True \<and> length out' = length out \<and> pending a = out' @ pending a')"
  using assms take_copy_down [of "assembler_count a" "assembler_samples a" "frame_samples (assembler_mode a)"]
    append_take_drop_id [of "frame_samples (assembler_mode a)" "take (assembler_count a) (assembler_samples a)"]
  by (auto simp: assembler_take_def assembler_inv_def pending_def Let_def length_copy_down min_def split: if_splits)

lemma assembler_take_padded_outcome:
  assumes "assembler_inv a" "assembler_take_padded out a = (r, out', a')"
  shows "assembler_inv a' \<and> assembler_mode a' = assembler_mode a \<and>
    (if length out \<noteq> frame_samples (assembler_mode a) then r = Inl InvalidFrameSize \<and> out' = out \<and> a' = a
     else r = Inr () \<and> length out' = length out \<and>
       (\<exists>audio. pending a = audio @ pending a' \<and> out' = audio @ replicate (length out - length audio) 0 \<and>
          length audio = min (length (pending a)) (length out)))"
proof -
  let ?n = "min (assembler_count a) (frame_samples (assembler_mode a))"
  have "take ?n (assembler_samples a) @ drop ?n (take (assembler_count a) (assembler_samples a)) =
      take (assembler_count a) (assembler_samples a)"
    using append_take_drop_id [of ?n "take (assembler_count a) (assembler_samples a)"] by (simp add: min_def split: if_splits)
  then show ?thesis
    using assms take_copy_down [of "assembler_count a" "assembler_samples a" ?n]
    by (auto simp: assembler_take_padded_def assembler_inv_def pending_def Let_def length_copy_down
        intro!: exI [of _ "take ?n (assembler_samples a)"] split: if_splits)
qed

lemma assembler_clear_outcome:
  "assembler_inv a \<Longrightarrow> assembler_inv (assembler_clear a) \<and> pending (assembler_clear a) = []"
  by (simp add: assembler_clear_def assembler_inv_def pending_def length_overwrite)

section \<open>The stream through the assembler\<close>

text \<open>
  A use of the assembler: spans appended, frames taken with a buffer of the frame size, padded frames
  and discards. The trace keeps the samples accepted since the last discard, the audio in the frames
  taken since then (without padding), and every frame.
\<close>

datatype assembler_use = Append "int list" | Take | TakePadded | Clear

record assembler_trace =
  assembler :: frame_assembler
  accepted :: "int list"
  audio :: "int list"
  frames :: "int list list"

definition use_step :: "assembler_use \<Rightarrow> assembler_trace \<Rightarrow> assembler_trace" where
  "use_step u t =
     (let a = assembler t; buffer = replicate (frame_samples (assembler_mode a)) 0 in
      case u of
        Append xs \<Rightarrow>
          (case assembler_append xs a of
             (Inr _, a') \<Rightarrow> t\<lparr>assembler := a', accepted := accepted t @ xs\<rparr>
           | (Inl _, a') \<Rightarrow> t\<lparr>assembler := a'\<rparr>)
      | Take \<Rightarrow>
          (case assembler_take buffer a of
             (Inr True, frame, a') \<Rightarrow>
               t\<lparr>assembler := a', audio := audio t @ frame, frames := frames t @ [frame]\<rparr>
           | (_, _, a') \<Rightarrow> t\<lparr>assembler := a'\<rparr>)
      | TakePadded \<Rightarrow>
          (case assembler_take_padded buffer a of
             (Inr _, frame, a') \<Rightarrow>
               t\<lparr>assembler := a', audio := audio t @ take (pending_samples a) frame, frames := frames t @ [frame]\<rparr>
           | (Inl _, _, a') \<Rightarrow> t\<lparr>assembler := a'\<rparr>)
      | Clear \<Rightarrow> t\<lparr>assembler := assembler_clear a, accepted := [], audio := []\<rparr>)"

definition trace_new :: "asterisk_pcm_mode \<Rightarrow> assembler_trace" where
  "trace_new mode = \<lparr>assembler = assembler_new mode, accepted = [], audio = [], frames = []\<rparr>"

definition trace_inv :: "asterisk_pcm_mode \<Rightarrow> assembler_trace \<Rightarrow> bool" where
  "trace_inv mode t \<longleftrightarrow>
     assembler_inv (assembler t) \<and> assembler_mode (assembler t) = mode \<and>
     accepted t = audio t @ pending (assembler t) \<and> list_all (\<lambda>f. length f = frame_samples mode) (frames t)"

lemma length_pending: "assembler_inv a \<Longrightarrow> length (pending a) = pending_samples a"
  by (simp add: pending_def assembler_inv_def pending_samples_def)

lemma use_step_inv:
  assumes "trace_inv mode t" shows "trace_inv mode (use_step u t)"
proof -
  have inv: "assembler_inv (assembler t)" "assembler_mode (assembler t) = mode"
    using assms by (simp_all add: trace_inv_def)
  let ?buf = "replicate (frame_samples mode) (0 :: int)"
  show ?thesis
  proof (cases u)
    case (Append xs)
    obtain r a' where r: "assembler_append xs (assembler t) = (r, a')" by fastforce
    show ?thesis
      using assembler_append_outcome [OF inv(1) r] assms r Append
      by (auto simp: use_step_def trace_inv_def Let_def split: if_splits)
  next
    case Take
    obtain r f a' where r: "assembler_take ?buf (assembler t) = (r, f, a')" by (metis surj_pair)
    show ?thesis
      using assembler_take_outcome [OF inv(1) r] assms inv r Take
      by (auto simp: use_step_def trace_inv_def Let_def split: if_splits)
  next
    case TakePadded
    obtain r f a' where r: "assembler_take_padded ?buf (assembler t) = (r, f, a')" by (metis surj_pair)
    show ?thesis
      using assembler_take_padded_outcome [OF inv(1) r] assms inv r TakePadded length_pending [OF inv(1)]
      by (auto simp: use_step_def trace_inv_def Let_def split: if_splits)
  next
    case Clear
    then show ?thesis
      using assms assembler_clear_outcome [OF inv(1)]
      by (auto simp: use_step_def trace_inv_def Let_def assembler_clear_def)
  qed
qed

lemma uses_inv: "trace_inv mode t \<Longrightarrow> trace_inv mode (fold use_step us t)"
  by (induction us arbitrary: t) (auto intro: use_step_inv)

text \<open>C39: whatever sequence of appends, takes, padded takes and discards, every frame has the size of the
  mode, and the accepted samples since the last discard are exactly the audio of the frames followed by
  the pending samples: none is lost, repeated or reordered, and the buffer never exceeds its capacity.\<close>

theorem assembler_stream:
  "let t = fold use_step us (trace_new mode) in
   accepted t = audio t @ pending (assembler t) \<and>
   list_all (\<lambda>f. length f = frame_samples mode) (frames t) \<and>
   pending_samples (assembler t) = length (pending (assembler t)) \<and>
   pending_samples (assembler t) \<le> ASSEMBLY_CAPACITY"
proof -
  have "trace_inv mode (fold use_step us (trace_new mode))"
    by (rule uses_inv) (use assembler_new_inv [of mode] in
      \<open>simp add: trace_inv_def trace_new_def assembler_new_def\<close>)
  then show ?thesis
    using length_pending by (auto simp: Let_def trace_inv_def pending_samples_def assembler_inv_def)
qed

end
