(* ===== verification/Controller_Text.thy ===== *)
theory Controller_Text
  imports Radio_Control Number_Text Float_Arithmetic
begin

text \<open>
  The typed controller messages of \<^verbatim>\<open>rust/asl3/src/control.rs\<close>: the parser of the retained app_rpt text
  commands and the key state that the messages drive.
\<close>

section \<open>Messages and state\<close>

datatype control_message =
    TransmitKey "request_tone option"
  | TransmitUnkey
  | SelectChannel int
  | ReceiveCtcss bool
  | TransmitCtcss bool
  | Gpio gpio_pin output_request
  | Parallel parallel_pin output_request
  | RemoteRadio remote_radio

datatype control_action =
    SetTransmit bool "request_tone option"
  | ActSelectChannel int
  | SetReceiveCtcss bool
  | SetTransmitCtcss bool
  | SetGpio gpio_pin output_request
  | SetParallel parallel_pin output_request
  | ConfigureRemoteRadio remote_radio

record control_snapshot =
  transmit_keyed :: bool
  forced_ctcss :: "request_tone option"
  receive_ctcss_enabled :: bool
  transmit_ctcss_enabled :: bool

definition control_snapshot_default :: control_snapshot where
  "control_snapshot_default =
     \<lparr>transmit_keyed = False, forced_ctcss = None, receive_ctcss_enabled = True,
      transmit_ctcss_enabled = True\<rparr>"

fun control_apply :: "control_message \<Rightarrow> control_snapshot \<Rightarrow> control_action \<times> control_snapshot" where
  "control_apply (TransmitKey tone) s = (SetTransmit True tone, s\<lparr>transmit_keyed := True, forced_ctcss := tone\<rparr>)"
| "control_apply TransmitUnkey s = (SetTransmit False None, s\<lparr>transmit_keyed := False, forced_ctcss := None\<rparr>)"
| "control_apply (SelectChannel channel) s = (ActSelectChannel channel, s)"
| "control_apply (ReceiveCtcss enabled) s = (SetReceiveCtcss enabled, s\<lparr>receive_ctcss_enabled := enabled\<rparr>)"
| "control_apply (TransmitCtcss enabled) s = (SetTransmitCtcss enabled, s\<lparr>transmit_ctcss_enabled := enabled\<rparr>)"
| "control_apply (Gpio pin request) s = (SetGpio pin request, s)"
| "control_apply (Parallel pin request) s = (SetParallel pin request, s)"
| "control_apply (RemoteRadio settings) s = (ConfigureRemoteRadio settings, s)"

datatype control_parse_error = UnknownCommand | WrongFieldCount | InvalidField

fun control_parse_error_display :: "control_parse_error \<Rightarrow> string" where
  "control_parse_error_display UnknownCommand = ''unknown app_rpt control command''"
| "control_parse_error_display WrongFieldCount = ''wrong app_rpt control field count''"
| "control_parse_error_display InvalidField = ''invalid app_rpt control field''"

section \<open>Fields\<close>

definition is_ascii_whitespace :: "char \<Rightarrow> bool" where
  "is_ascii_whitespace c \<longleftrightarrow> byte c \<in> {9, 10, 12, 13, 32}"

definition split_ascii_whitespace :: "string \<Rightarrow> string list" where
  "split_ascii_whitespace s = filter (\<lambda>w. w \<noteq> []) (split_on is_ascii_whitespace s)"

text \<open>The iterator over the fields is the list of those that remain.\<close>

fun next_field :: "string list \<Rightarrow> (control_parse_error, string \<times> string list) result" where
  "next_field [] = Inl WrongFieldCount"
| "next_field (w # ws) = Inr (w, ws)"

text \<open>\<open>parse_next\<close> and \<open>parse_one\<close> at \<open>u8\<close>.\<close>

definition parse_next_u8 :: "string list \<Rightarrow> (control_parse_error, int \<times> string list) result" where
  "parse_next_u8 ws =
     res_bind (next_field ws) (\<lambda>(w, ws).
     res_bind (ok_or InvalidField (from_str_radix 10 255 w)) (\<lambda>n. Inr (n, ws)))"

definition parse_switch :: "string \<Rightarrow> (control_parse_error, bool) result" where
  "parse_switch w = (if w = ''0'' then Inr False else if w = ''1'' then Inr True else Inl InvalidField)"

definition parse_output :: "string \<Rightarrow> (control_parse_error, output_request) result" where
  "parse_output w =
     res_bind (ok_or InvalidField (from_str_radix 10 (2 ^ 32 - 1) w)) (\<lambda>n.
       Inr (if n = 0 then OutputInactive else if n = 1 then OutputActive else OutputPulse (n - 1)))"

text \<open>\<open>as u32\<close>, \<open>as u16\<close>: a float saturates at the ends of the integer type.\<close>

definition as_unsigned :: "int \<Rightarrow> rust_float \<Rightarrow> int" where
  "as_unsigned limit x = max 0 (min limit (float_round_away x))"

definition float_eq :: "rust_float \<Rightarrow> rust_float \<Rightarrow> bool" where
  "float_eq a b \<longleftrightarrow> float_le a b \<and> float_le b a"

definition parse_mhz :: "string \<Rightarrow> (control_parse_error, int) result" where
  "parse_mhz w =
     res_bind (ok_or InvalidField (parse_float f64_format w)) (\<lambda>mhz.
       let hz = float_mul f64_format mhz (f64 1000000) in
       if \<not> is_finite hz \<or> float_le hz (f64 0) \<or> float_lt (float_from_int f64_format (2 ^ 32 - 1)) hz
       then Inl InvalidField
       else Inr (as_unsigned (2 ^ 32 - 1) hz))"

definition parse_tone :: "string \<Rightarrow> (control_parse_error, request_tone option) result" where
  "parse_tone w =
     res_bind (ok_or InvalidField (parse_float f64_format w)) (\<lambda>hz.
       if float_eq hz (f64 0) then Inr None
       else
         (let tenths = float_mul f64_format hz (f64 10) in
          if \<not> is_finite hz \<or> float_lt hz (f64 0) \<or> float_lt (float_from_int f64_format 65535) tenths
          then Inl InvalidField
          else ok_or InvalidField (map_option Some (request_tone_from_tenths (as_unsigned 65535 tenths)))))"

section \<open>The parser\<close>

definition parse_setfreq :: "string list \<Rightarrow> (control_parse_error, remote_radio \<times> string list) result" where
  "parse_setfreq ws =
     res_bind (next_field ws) (\<lambda>(w, ws). res_bind (parse_mhz w) (\<lambda>receive.
     res_bind (next_field ws) (\<lambda>(w, ws). res_bind (parse_mhz w) (\<lambda>transmit.
     res_bind (next_field ws) (\<lambda>(w, ws). res_bind (parse_tone w) (\<lambda>receive_tone.
     res_bind (next_field ws) (\<lambda>(w, ws). res_bind (parse_tone w) (\<lambda>transmit_tone.
     res_bind (next_field ws) (\<lambda>(w, ws).
       if w = ''H'' \<or> w = ''L'' then
         Inr (\<lparr>radio_receive_hz = receive, radio_transmit_hz = transmit, radio_receive_ctcss = receive_tone,
               radio_transmit_ctcss = transmit_tone, radio_high_power = (w = ''H'')\<rparr>, ws)
       else Inl InvalidField)))))))))"

definition parse_command :: "string \<Rightarrow> string list \<Rightarrow> (control_parse_error, control_message \<times> string list) result" where
  "parse_command command ws =
     (if command = ''SETCHAN'' then
        res_bind (parse_next_u8 ws) (\<lambda>(n, ws). Inr (SelectChannel n, ws))
      else if command = ''RXCTCSS'' then
        res_bind (next_field ws) (\<lambda>(w, ws). res_bind (parse_switch w) (\<lambda>b. Inr (ReceiveCtcss b, ws)))
      else if command = ''TXCTCSS'' then
        res_bind (next_field ws) (\<lambda>(w, ws). res_bind (parse_switch w) (\<lambda>b. Inr (TransmitCtcss b, ws)))
      else if command = ''GPIO'' then
        res_bind (parse_next_u8 ws) (\<lambda>(n, ws). res_bind (ok_or InvalidField (gpio_pin_new n)) (\<lambda>pin.
        res_bind (next_field ws) (\<lambda>(w, ws). res_bind (parse_output w) (\<lambda>request. Inr (Gpio pin request, ws)))))
      else if command = ''PP'' then
        res_bind (parse_next_u8 ws) (\<lambda>(n, ws). res_bind (ok_or InvalidField (parallel_pin_new n)) (\<lambda>pin.
        res_bind (next_field ws) (\<lambda>(w, ws). res_bind (parse_output w) (\<lambda>request. Inr (Parallel pin request, ws)))))
      else if command = ''SETFREQ'' then
        res_bind (parse_setfreq ws) (\<lambda>(radio, ws). Inr (RemoteRadio radio, ws))
      else Inl UnknownCommand)"

definition parse_controller_text :: "string \<Rightarrow> (control_parse_error, control_message) result" where
  "parse_controller_text s =
     res_bind (next_field (split_ascii_whitespace s)) (\<lambda>(command, ws).
     res_bind (parse_command command ws) (\<lambda>(message, rest).
       if rest \<noteq> [] then Inl WrongFieldCount else Inr message))"

section \<open>Every accepted message is in range\<close>

definition tone_request_ok :: "request_tone option \<Rightarrow> bool" where
  "tone_request_ok t \<longleftrightarrow> (case t of None \<Rightarrow> True | Some (RequestTone n) \<Rightarrow> 500 \<le> n \<and> n \<le> 3000)"

definition output_ok :: "output_request \<Rightarrow> bool" where
  "output_ok r \<longleftrightarrow> (case r of OutputPulse n \<Rightarrow> 1 \<le> n \<and> n < 2 ^ 32 | _ \<Rightarrow> True)"

definition radio_ok :: "remote_radio \<Rightarrow> bool" where
  "radio_ok r \<longleftrightarrow>
     0 \<le> radio_receive_hz r \<and> radio_receive_hz r < 2 ^ 32 \<and>
     0 \<le> radio_transmit_hz r \<and> radio_transmit_hz r < 2 ^ 32 \<and>
     tone_request_ok (radio_receive_ctcss r) \<and> tone_request_ok (radio_transmit_ctcss r)"

definition message_ok :: "control_message \<Rightarrow> bool" where
  "message_ok m \<longleftrightarrow>
     (case m of
        TransmitKey t \<Rightarrow> tone_request_ok t
      | SelectChannel n \<Rightarrow> 0 \<le> n \<and> n \<le> 255
      | Gpio (GpioPin p) r \<Rightarrow> 1 \<le> p \<and> p \<le> 8 \<and> output_ok r
      | Parallel (ParallelPin p) r \<Rightarrow> 2 \<le> p \<and> p \<le> 9 \<and> output_ok r
      | RemoteRadio r \<Rightarrow> radio_ok r
      | _ \<Rightarrow> True)"

lemma ok_or_Inr [res_simps]: "ok_or e x = Inr a \<longleftrightarrow> x = Some a"
  by (simp add: ok_or_def split: option.split)

lemma ok_or_Inl [res_simps]: "ok_or e x = Inl d \<longleftrightarrow> x = None \<and> d = e"
  by (auto simp: ok_or_def split: option.split)

lemma parse_next_u8_range: "parse_next_u8 ws = Inr (n, ws') \<Longrightarrow> 0 \<le> n \<and> n \<le> 255"
  using from_str_radix_bounds [of 10 255] by (fastforce simp: parse_next_u8_def res_simps)

lemma parse_output_ok: "parse_output w = Inr r \<Longrightarrow> output_ok r"
  using from_str_radix_bounds [of 10 "2 ^ 32 - 1" w]
  by (auto simp: parse_output_def res_simps output_ok_def split: if_splits)

lemma parse_mhz_range: "parse_mhz w = Inr hz \<Longrightarrow> 0 \<le> hz \<and> hz < 2 ^ 32"
  by (auto simp: parse_mhz_def res_simps Let_def as_unsigned_def split: if_splits)

lemma parse_tone_ok: "parse_tone w = Inr t \<Longrightarrow> tone_request_ok t"
  by (auto simp: parse_tone_def res_simps Let_def tone_request_ok_def request_tone_from_tenths_def
      split: if_splits)

lemma parse_setfreq_ok: "parse_setfreq ws = Inr (r, ws') \<Longrightarrow> radio_ok r"
  using parse_mhz_range parse_tone_ok
  by (auto simp: parse_setfreq_def res_simps radio_ok_def split: if_splits)

lemma parse_command_ok: "parse_command c ws = Inr (m, ws') \<Longrightarrow> message_ok m"
  using parse_next_u8_range parse_output_ok parse_setfreq_ok
  by (auto simp: parse_command_def res_simps message_ok_def gpio_pin_new_def parallel_pin_new_def
      split: if_splits)

lemma parse_controller_text_ok: "parse_controller_text s = Inr m \<Longrightarrow> message_ok m"
  using parse_command_ok by (auto simp: parse_controller_text_def res_simps split: if_splits)

section \<open>Printed commands\<close>

lemma split_on_word: "\<forall>c \<in> set w. \<not> p c \<Longrightarrow> split_on p w = [w]"
  by (induction w) auto

lemma split_on_first: "\<forall>c \<in> set w. \<not> p c \<Longrightarrow> p d \<Longrightarrow> split_on p (w @ d # s) = w # split_on p s"
  by (induction w) auto

definition plain_field :: "string \<Rightarrow> bool" where
  "plain_field w \<longleftrightarrow> w \<noteq> [] \<and> (\<forall>c \<in> set w. \<not> is_ascii_whitespace c)"

lemma split_join:
  "\<forall>w \<in> set ws. plain_field w \<Longrightarrow> split_ascii_whitespace (join '' '' ws) = ws"
proof (induction ws rule: induct_list012)
  case (2 w)
  then show ?case by (simp add: split_ascii_whitespace_def split_on_word plain_field_def)
next
  case (3 w v ws)
  have "is_ascii_whitespace (CHR '' '')" by (simp add: is_ascii_whitespace_def byte_def)
  then show ?case
    using 3 split_on_first [of w is_ascii_whitespace "CHR '' ''"]
    by (simp add: split_ascii_whitespace_def plain_field_def)
qed (simp add: split_ascii_whitespace_def)

lemma ascii_whitespace_chars:
  "is_ascii_whitespace c \<longleftrightarrow> c \<in> {CHR 0x09, CHR 0x0A, CHR 0x0C, CHR 0x0D, CHR 0x20}"
  using byte_inject [of c "CHR 0x09"] byte_inject [of c "CHR 0x0A"] byte_inject [of c "CHR 0x0C"]
    byte_inject [of c "CHR 0x0D"] byte_inject [of c "CHR 0x20"]
  by (simp add: is_ascii_whitespace_def byte_def)

lemma radix_char_plain: "0 \<le> d \<Longrightarrow> d < 10 \<Longrightarrow> \<not> is_ascii_whitespace (radix_char d)"
  using digit_cases [of d] by (auto simp: ascii_whitespace_chars radix_char_def char_of_eq_iff)

lemma digits_plain: "0 \<le> n \<Longrightarrow> plain_field (radix_digits 10 n)"
proof (induction "10 :: int" n rule: radix_digits.induct)
  case (1 n)
  show ?case
  proof (cases "n < 10")
    case True
    then show ?thesis using 1 radix_char_plain [of n] by (subst radix_digits.simps) (simp add: plain_field_def)
  next
    case False
    have "0 \<le> n mod 10" "n mod 10 < 10" "0 \<le> n div 10" using 1 by auto
    then show ?thesis
      using 1 False radix_char_plain [of "n mod 10"]
      by (subst radix_digits.simps) (auto simp: plain_field_def)
  qed
qed

section \<open>Properties\<close>

text \<open>A text command either is rejected or yields a message whose every operand is in range: a channel
  of a byte, a pin of its bank, a pulse of at least one tick, frequencies of 32 bits, and tones between
  50 and 300 Hz.\<close>

theorem controller_text_range:
  "case parse_controller_text s of Inr m \<Rightarrow> message_ok m | Inl _ \<Rightarrow> True"
  using parse_controller_text_ok [of s] by (simp split: sum.split)

definition output_of :: "int \<Rightarrow> output_request" where
  "output_of v = (if v = 0 then OutputInactive else if v = 1 then OutputActive else OutputPulse (v - 1))"

lemma parse_u8_digits: "0 \<le> n \<Longrightarrow> n \<le> 255 \<Longrightarrow> parse_next_u8 (radix_digits 10 n # ws) = Inr (n, ws)"
  using radix_roundtrip [of 10 n 255] by (simp add: parse_next_u8_def ok_or_def)

lemma parse_output_digits: "0 \<le> v \<Longrightarrow> v < 2 ^ 32 \<Longrightarrow> parse_output (radix_digits 10 v) = Inr (output_of v)"
  using radix_roundtrip [of 10 v "2 ^ 32 - 1"] by (simp add: parse_output_def ok_or_def output_of_def)

lemma plain_keywords:
  "plain_field ''GPIO''" "plain_field ''PP''" "plain_field ''SETCHAN''"
  by (simp_all add: plain_field_def is_ascii_whitespace_def byte_def)

lemma parse_joined:
  "\<forall>w \<in> set (c # ws). plain_field w \<Longrightarrow>
   parse_controller_text (join '' '' (c # ws)) =
     res_bind (parse_command c ws) (\<lambda>(message, rest). if rest \<noteq> [] then Inl WrongFieldCount else Inr message)"
  using split_join [of "c # ws"] by (simp add: parse_controller_text_def)

text \<open>Every printed output command is read back: the bank, the pin and the request; a pin outside the
  bank is an invalid field and a surplus field a wrong field count.\<close>

theorem controller_output_roundtrip:
  assumes "0 \<le> p" "p \<le> 255" "0 \<le> v" "v < 2 ^ 32"
  shows "parse_controller_text (join '' '' [''GPIO'', radix_digits 10 p, radix_digits 10 v]) =
      (if p \<in> {1..8} then Inr (Gpio (GpioPin p) (output_of v)) else Inl InvalidField) \<and>
    parse_controller_text (join '' '' [''PP'', radix_digits 10 p, radix_digits 10 v]) =
      (if p \<in> {2..9} then Inr (Parallel (ParallelPin p) (output_of v)) else Inl InvalidField) \<and>
    parse_controller_text (join '' '' [''SETCHAN'', radix_digits 10 p]) = Inr (SelectChannel p) \<and>
    parse_controller_text (join '' '' [''SETCHAN'', radix_digits 10 p, radix_digits 10 v]) = Inl WrongFieldCount"
  using assms parse_u8_digits [OF assms(1,2)] parse_output_digits [OF assms(3,4)] digits_plain plain_keywords
  by (auto simp: parse_joined parse_command_def gpio_pin_new_def parallel_pin_new_def ok_or_def
      simp del: join.simps)

lemma controller_output_roundtrip_witness:
  "parse_controller_text (join '' '' [''GPIO'', radix_digits 10 8, radix_digits 10 5]) =
   Inr (Gpio (GpioPin 8) (OutputPulse 4))"
  using controller_output_roundtrip [of 8 5] by (simp add: output_of_def)

text \<open>After any sequence of messages, the action of the next message reports exactly the new state, a
  forced tone is active only while the transmitter is keyed, and a message changes only its own part.\<close>

theorem control_key_state:
  "let s = fold (\<lambda>m s. snd (control_apply m s)) ms control_snapshot_default;
       (action, t) = control_apply m s in
   (transmit_keyed t \<or> forced_ctcss t = None) \<and>
   (case action of
      SetTransmit keyed tone \<Rightarrow>
        t = s\<lparr>transmit_keyed := keyed, forced_ctcss := tone\<rparr>
    | SetReceiveCtcss enabled \<Rightarrow> t = s\<lparr>receive_ctcss_enabled := enabled\<rparr>
    | SetTransmitCtcss enabled \<Rightarrow> t = s\<lparr>transmit_ctcss_enabled := enabled\<rparr>
    | _ \<Rightarrow> t = s)"
proof -
  have keep: "transmit_keyed (snd (control_apply m s)) \<or> forced_ctcss (snd (control_apply m s)) = None"
    if "transmit_keyed s \<or> forced_ctcss s = None" for m s
    using that by (cases m) auto
  have inv: "transmit_keyed (fold (\<lambda>m s. snd (control_apply m s)) ms s) \<or>
      forced_ctcss (fold (\<lambda>m s. snd (control_apply m s)) ms s) = None"
    if "transmit_keyed s \<or> forced_ctcss s = None" for s
    using that by (induction ms arbitrary: s) (auto simp: keep)
  have "transmit_keyed control_snapshot_default \<or> forced_ctcss control_snapshot_default = None"
    by (simp add: control_snapshot_default_def)
  then show ?thesis using keep [OF inv, of control_snapshot_default m] by (cases m) (auto simp: Let_def)
qed

end
