(* ===== verification/Bounded_Queue.thy ===== *)
theory Bounded_Queue
  imports Prelude
begin

text \<open>
  The bounded lock-free queue of the crossbeam crate, as a parameter: a record of its operations, and
  the locale of its documented behaviour. A queue has a fixed number of slots; a push into a full queue
  gives the value back, a pop takes the oldest value, and every operation is atomic. The last section
  gives the contract a concrete queue.
\<close>

record ('q, 'a) array_queue =
  aq_new :: "nat \<Rightarrow> 'q"
  aq_push :: "'q \<Rightarrow> 'a \<Rightarrow> 'q option"
  aq_pop :: "'q \<Rightarrow> ('a \<times> 'q) option"
  aq_is_empty :: "'q \<Rightarrow> bool"

locale bounded_fifo =
  fixes Q :: "('q, 'a) array_queue"
    and items :: "'q \<Rightarrow> 'a list"
    and slots :: "'q \<Rightarrow> nat"
  assumes new_items: "0 < n \<Longrightarrow> items (aq_new Q n) = []"
    and new_slots: "0 < n \<Longrightarrow> slots (aq_new Q n) = n"
    and push_full: "slots q \<le> length (items q) \<Longrightarrow> aq_push Q q a = None"
    and push_room: "length (items q) < slots q \<Longrightarrow>
      \<exists>q'. aq_push Q q a = Some q' \<and> items q' = items q @ [a] \<and> slots q' = slots q"
    and pop_empty: "items q = [] \<Longrightarrow> aq_pop Q q = None"
    and pop_head: "items q = a # as \<Longrightarrow>
      \<exists>q'. aq_pop Q q = Some (a, q') \<and> items q' = as \<and> slots q' = slots q"
    and is_empty: "aq_is_empty Q q \<longleftrightarrow> items q = []"
begin

lemma push_Some:
  "aq_push Q q a = Some q' \<Longrightarrow> length (items q) < slots q \<and> items q' = items q @ [a] \<and> slots q' = slots q"
  using push_room [of q a] push_full [of q a] by (cases "length (items q) < slots q") auto

lemma push_None: "aq_push Q q a = None \<longleftrightarrow> slots q \<le> length (items q)"
  using push_room [of q a] push_full [of q a] by (cases "length (items q) < slots q") auto

lemma pop_Some:
  "aq_pop Q q = Some (a, q') \<Longrightarrow> items q = a # items q' \<and> slots q' = slots q"
  using pop_empty [of q] pop_head [of q] by (cases "items q") auto

lemma pop_None: "aq_pop Q q = None \<longleftrightarrow> items q = []"
  using pop_empty [of q] pop_head [of q] by (cases "items q") auto

end

section \<open>A queue with the contract\<close>

type_synonym 'a list_queue = "nat \<times> 'a list"

definition list_array_queue :: "('a list_queue, 'a) array_queue" where
  "list_array_queue =
     \<lparr>aq_new = (\<lambda>n. (n, [])),
      aq_push = (\<lambda>(n, xs) a. if length xs < n then Some (n, xs @ [a]) else None),
      aq_pop = (\<lambda>(n, xs). case xs of [] \<Rightarrow> None | a # as \<Rightarrow> Some (a, (n, as))),
      aq_is_empty = (\<lambda>(n, xs). xs = [])\<rparr>"

interpretation list_queue: bounded_fifo "list_array_queue :: ('a list_queue, 'a) array_queue" snd fst
  by unfold_locales (auto simp: list_array_queue_def)

end
