(* ===== verification/Remote_Queue.thy ===== *)
theory Remote_Queue
  imports Radio_Control Bounded_Queue "HOL-Library.Word"
begin

unbundle bit_operations_syntax

text \<open>
  The command port of a remote radio, \<^verbatim>\<open>rust/driver/src/remote_base.rs\<close>: callers submit operations
  into a bounded queue with one reserved urgent slot and hold a ticket, the physical worker takes work
  and completes it, and retirement makes every ticket terminal. The shared ticket states live in a heap
  and a ticket or a piece of work is its index. Replies are a type parameter; the two array queues are
  parameters, \<open>W\<close> for the work and \<open>R\<close> for the result slot of a ticket. The atomic accesses of a
  completion (claim, error, publication) are functions of their own, which the interleaved model of
  \<open>Remote_Queue_Safety\<close> takes one at a time.
\<close>

section \<open>State\<close>

datatype remote_request_error = Busy | Stopped | StaleSource | Rejected int

record remote_source =
  source_local :: bool
  source_valid :: bool
  source_active :: bool

type_synonym 'r completion = "(remote_request_error, 'r) result"

datatype remote_input = InputCommand remote_operation | InputParallel parallel_radio_request

record 's ticket_state =
  detached :: bool
  ticket_local :: bool
  source_bits :: "8 word"
  ticket_completed :: bool
  ticket_result :: 's

record remote_work =
  work_input :: remote_input
  work_ticket :: nat

record ('w, 's) remote_queue =
  ready_flag :: bool
  parallel_error_code :: int
  accepting :: bool
  ordinary :: 'w
  urgent_slot :: 'w
  heap :: "'s ticket_state list"

definition remote_queue_new :: "('w, remote_work) array_queue \<Rightarrow> nat \<Rightarrow> ('w, 's) remote_queue" where
  "remote_queue_new W capacity =
     \<lparr>ready_flag = False, parallel_error_code = 0, accepting = True, ordinary = aq_new W capacity,
      urgent_slot = aq_new W 1, heap = []\<rparr>"

section \<open>Tickets\<close>

definition update_ticket ::
  "nat \<Rightarrow> ('s ticket_state \<Rightarrow> 's ticket_state) \<Rightarrow> ('w, 's) remote_queue \<Rightarrow> ('w, 's) remote_queue" where
  "update_ticket i f q = q\<lparr>heap := (heap q)[i := f (heap q ! i)]\<rparr>"

definition ticket_source :: "nat \<Rightarrow> ('w, 's) remote_queue \<Rightarrow> remote_source" where
  "ticket_source i q =
     \<lparr>source_local = ticket_local (heap q ! i),
      source_valid = (source_bits (heap q ! i) AND 1 \<noteq> 0 \<and> accepting q),
      source_active = (source_bits (heap q ! i) AND 2 \<noteq> 0)\<rparr>"

definition error_code :: "remote_request_error \<Rightarrow> int" where
  "error_code e = (case e of Rejected code \<Rightarrow> code | Busy \<Rightarrow> -9 | Stopped \<Rightarrow> -10 | StaleSource \<Rightarrow> -10)"

text \<open>The three atomic accesses of \<open>TicketState::complete\<close>.\<close>

definition claim_ticket :: "nat \<Rightarrow> ('w, 's) remote_queue \<Rightarrow> bool \<times> ('w, 's) remote_queue" where
  "claim_ticket i q =
     (if ticket_completed (heap q ! i) then (False, q)
      else (True, update_ticket i (ticket_completed_update (\<lambda>_. True)) q))"

definition report_error :: "'r completion \<Rightarrow> nat \<Rightarrow> ('w, 's) remote_queue \<Rightarrow> ('w, 's) remote_queue" where
  "report_error r i q =
     (case r of
        Inl e \<Rightarrow>
          if detached (heap q ! i) \<and> parallel_error_code q = 0
          then q\<lparr>parallel_error_code := error_code e\<rparr> else q
      | Inr _ \<Rightarrow> q)"

definition publish_result ::
  "('s, 'r completion) array_queue \<Rightarrow> 'r completion \<Rightarrow> nat \<Rightarrow> ('w, 's) remote_queue \<Rightarrow> ('w, 's) remote_queue" where
  "publish_result R r i q =
     (case aq_push R (ticket_result (heap q ! i)) r of
        Some slot \<Rightarrow> update_ticket i (ticket_result_update (\<lambda>_. slot)) q
      | None \<Rightarrow> q)"

definition complete_ticket ::
  "('s, 'r completion) array_queue \<Rightarrow> 'r completion \<Rightarrow> nat \<Rightarrow> ('w, 's) remote_queue \<Rightarrow> ('w, 's) remote_queue" where
  "complete_ticket R r i q =
     (let (won, q1) = claim_ticket i q in
      if won then publish_result R r i (report_error r i q1) else q1)"

definition source_state :: "bool \<Rightarrow> bool \<Rightarrow> nat \<Rightarrow> ('w, 's) remote_queue \<Rightarrow> ('w, 's) remote_queue" where
  "source_state active valid i q =
     update_ticket i
       (source_bits_update (\<lambda>old.
          of_bool (valid \<and> old AND 1 \<noteq> 0) OR push_bit 1 (of_bool active))) q"

definition ticket_drop :: "nat \<Rightarrow> ('w, 's) remote_queue \<Rightarrow> ('w, 's) remote_queue" where
  "ticket_drop i q = update_ticket i (source_bits_update (\<lambda>old. old AND NOT 1)) q"

definition pop_result ::
  "('s, 'r completion) array_queue \<Rightarrow> nat \<Rightarrow> ('w, 's) remote_queue \<Rightarrow> 'r completion option \<times> ('w, 's) remote_queue" where
  "pop_result R i q =
     (case aq_pop R (ticket_result (heap q ! i)) of
        None \<Rightarrow> (None, q)
      | Some (r, slot) \<Rightarrow> (Some r, update_ticket i (ticket_result_update (\<lambda>_. slot)) q))"

definition take_completion ::
  "('s, 'r completion) array_queue \<Rightarrow> nat \<Rightarrow> ('w, 's) remote_queue \<Rightarrow> 'r completion option \<times> ('w, 's) remote_queue" where
  "take_completion R i q =
     pop_result R i (if \<not> accepting q then complete_ticket R (Inl Stopped) i q else q)"

section \<open>Work\<close>

definition work_operation :: "remote_work \<Rightarrow> remote_operation option" where
  "work_operation w = (case work_input w of InputCommand op \<Rightarrow> Some op | InputParallel _ \<Rightarrow> None)"

definition work_parallel_request :: "remote_work \<Rightarrow> parallel_radio_request option" where
  "work_parallel_request w = (case work_input w of InputParallel r \<Rightarrow> Some r | InputCommand _ \<Rightarrow> None)"

definition work_source :: "remote_work \<Rightarrow> ('w, 's) remote_queue \<Rightarrow> remote_source" where
  "work_source w q = ticket_source (work_ticket w) q"

text \<open>What the worker publishes: nothing succeeds for a retired port or a stale source.\<close>

definition final_result :: "'r completion \<Rightarrow> remote_work \<Rightarrow> ('w, 's) remote_queue \<Rightarrow> 'r completion" where
  "final_result r w q =
     (if \<not> accepting q then Inl Stopped
      else if (case r of Inr _ \<Rightarrow> True | Inl _ \<Rightarrow> False) \<and> \<not> source_valid (work_source w q) then Inl StaleSource
      else r)"

definition work_drop ::
  "('s, 'r completion) array_queue \<Rightarrow> remote_work \<Rightarrow> ('w, 's) remote_queue \<Rightarrow> ('w, 's) remote_queue" where
  "work_drop R w q = complete_ticket R (Inl Stopped) (work_ticket w) q"

text \<open>\<open>complete\<close> consumes the work, so its destructor runs at the end.\<close>

definition work_complete ::
  "('s, 'r completion) array_queue \<Rightarrow> 'r completion \<Rightarrow> remote_work \<Rightarrow> ('w, 's) remote_queue \<Rightarrow> ('w, 's) remote_queue" where
  "work_complete R r w q = work_drop R w (complete_ticket R (final_result r w q) (work_ticket w) q)"

section \<open>The port\<close>

definition mark_ready :: "('w, 's) remote_queue \<Rightarrow> ('w, 's) remote_queue" where
  "mark_ready q = q\<lparr>ready_flag := True\<rparr>"

definition queue_ready :: "('w, 's) remote_queue \<Rightarrow> bool" where
  "queue_ready q \<longleftrightarrow> accepting q \<and> ready_flag q"

definition input_urgent :: "remote_input \<Rightarrow> bool" where
  "input_urgent input = (case input of InputCommand op \<Rightarrow> urgent op | InputParallel _ \<Rightarrow> False)"

definition input_invalid :: "remote_input \<Rightarrow> bool" where
  "input_invalid input =
     (case input of InputCommand op \<Rightarrow> operation_kind op = None | InputParallel _ \<Rightarrow> False)"

definition ticket_new ::
  "('s, 'r completion) array_queue \<Rightarrow> remote_input \<Rightarrow> bool \<Rightarrow> bool \<Rightarrow> 's ticket_state" where
  "ticket_new R input local active =
     \<lparr>detached = (case input of InputParallel _ \<Rightarrow> True | InputCommand _ \<Rightarrow> False), ticket_local = local,
      source_bits = 1 OR push_bit 1 (of_bool active), ticket_completed = False,
      ticket_result = aq_new R 1\<rparr>"

text \<open>
  The allocation and the push of \<open>enqueue\<close>: whether the queue took the work, and the ticket. A refused
  work item comes back from the queue and is dropped, which completes its ticket as stopped.
\<close>

definition admit ::
  "('w, remote_work) array_queue \<Rightarrow> ('s, 'r completion) array_queue \<Rightarrow> remote_input \<Rightarrow> bool \<Rightarrow> bool \<Rightarrow>
   ('w, 's) remote_queue \<Rightarrow> bool \<times> remote_work \<times> ('w, 's) remote_queue" where
  "admit W R input local active q =
     (let w = \<lparr>work_input = input, work_ticket = length (heap q)\<rparr>;
          q1 = q\<lparr>heap := heap q @ [ticket_new R input local active]\<rparr> in
      if input_urgent input then
        (case aq_push W (urgent_slot q) w of
           Some u \<Rightarrow> (True, w, q1\<lparr>urgent_slot := u\<rparr>) | None \<Rightarrow> (False, w, q1))
      else
        (case aq_push W (ordinary q) w of
           Some u \<Rightarrow> (True, w, q1\<lparr>ordinary := u\<rparr>) | None \<Rightarrow> (False, w, q1)))"

definition enqueue ::
  "('w, remote_work) array_queue \<Rightarrow> ('s, 'r completion) array_queue \<Rightarrow> remote_input \<Rightarrow> bool \<Rightarrow> bool \<Rightarrow>
   ('w, 's) remote_queue \<Rightarrow> (remote_request_error, nat) result \<times> ('w, 's) remote_queue" where
  "enqueue W R input local active q =
     (if \<not> accepting q then (Inl Stopped, q)
      else if input_invalid input then (Inl (Rejected (-1003)), q)
      else
        (case admit W R input local active q of
           (True, w, q') \<Rightarrow> (Inr (work_ticket w), q')
         | (False, w, q') \<Rightarrow> (Inl Busy, work_drop R w q')))"

definition submit ::
  "('w, remote_work) array_queue \<Rightarrow> ('s, 'r completion) array_queue \<Rightarrow> remote_operation \<Rightarrow> bool \<Rightarrow> bool \<Rightarrow>
   ('w, 's) remote_queue \<Rightarrow> (remote_request_error, nat) result \<times> ('w, 's) remote_queue" where
  "submit W R op local active q = enqueue W R (InputCommand op) local active q"

definition submit_parallel ::
  "('w, remote_work) array_queue \<Rightarrow> ('s, 'r completion) array_queue \<Rightarrow> parallel_radio_request \<Rightarrow>
   ('w, 's) remote_queue \<Rightarrow> (remote_request_error, unit) result \<times> ('w, 's) remote_queue" where
  "submit_parallel W R request q =
     (case enqueue W R (InputParallel request) True False q of
        (Inl e, q') \<Rightarrow> (Inl e, q') | (Inr _, q') \<Rightarrow> (Inr (), q'))"

definition next_urgent ::
  "('w, remote_work) array_queue \<Rightarrow> ('w, 's) remote_queue \<Rightarrow> remote_work option \<times> ('w, 's) remote_queue" where
  "next_urgent W q =
     (case aq_pop W (urgent_slot q) of None \<Rightarrow> (None, q) | Some (w, u) \<Rightarrow> (Some w, q\<lparr>urgent_slot := u\<rparr>))"

definition next_ordinary ::
  "('w, remote_work) array_queue \<Rightarrow> ('w, 's) remote_queue \<Rightarrow> remote_work option \<times> ('w, 's) remote_queue" where
  "next_ordinary W q =
     (case aq_pop W (ordinary q) of None \<Rightarrow> (None, q) | Some (w, u) \<Rightarrow> (Some w, q\<lparr>ordinary := u\<rparr>))"

definition next_work ::
  "('w, remote_work) array_queue \<Rightarrow> ('w, 's) remote_queue \<Rightarrow> remote_work option \<times> ('w, 's) remote_queue" where
  "next_work W q =
     (case next_urgent W q of (Some w, q') \<Rightarrow> (Some w, q') | (None, q') \<Rightarrow> next_ordinary W q')"

definition has_urgent :: "('w, remote_work) array_queue \<Rightarrow> ('w, 's) remote_queue \<Rightarrow> bool" where
  "has_urgent W q \<longleftrightarrow> \<not> aq_is_empty W (urgent_slot q)"

definition retire :: "('w, 's) remote_queue \<Rightarrow> ('w, 's) remote_queue" where
  "retire q = q\<lparr>accepting := False\<rparr>"

end
