(* ===== verification/Remote_Queue_Safety.thy ===== *)
theory Remote_Queue_Safety
  imports Remote_Queue Transition_System
begin

text \<open>
  Safety of the remote command port. The interleaved system lets any number of completions of any ticket
  run at once, one atomic access at a time, beside submissions, dequeues, revocations and retirement; its
  invariant counts, for every ticket, the results that are in flight, in the slot or taken. The rest is
  the behaviour of single calls: back pressure, the reserved urgent slot, retirement and revocation.
\<close>

section \<open>Interleaved completions\<close>

datatype 'r completion_call = Claim nat "'r completion" | Report nat "'r completion" | Publish nat "'r completion"

fun call_ticket :: "'r completion_call \<Rightarrow> nat" where
  "call_ticket (Claim i _) = i"
| "call_ticket (Report i _) = i"
| "call_ticket (Publish i _) = i"

text \<open>A completion that has won the claim of ticket \<open>i\<close>.\<close>

fun won_call :: "nat \<Rightarrow> 'r completion_call \<Rightarrow> bool" where
  "won_call i (Claim _ _) = False"
| "won_call i (Report j _) = (i = j)"
| "won_call i (Publish j _) = (i = j)"

record ('w, 's, 'r) port_system =
  port :: "('w, 's) remote_queue"
  calls :: "'r completion_call list"
  taken :: "(nat \<times> 'r completion) list"

inductive port_step ::
  "('w, remote_work) array_queue \<Rightarrow> ('s, 'r completion) array_queue \<Rightarrow>
   ('w, 's, 'r) port_system \<Rightarrow> ('w, 's, 'r) port_system \<Rightarrow> bool" for W R where
  begin_complete: "i < length (heap (port s)) \<Longrightarrow> port_step W R s (s\<lparr>calls := calls s @ [Claim i r]\<rparr>)"
| claim: "calls s = xs @ Claim i r # ys \<Longrightarrow> claim_ticket i (port s) = (won, q) \<Longrightarrow>
    port_step W R s (s\<lparr>port := q, calls := xs @ (if won then [Report i r] else []) @ ys\<rparr>)"
| report: "calls s = xs @ Report i r # ys \<Longrightarrow>
    port_step W R s (s\<lparr>port := report_error r i (port s), calls := xs @ Publish i r # ys\<rparr>)"
| publish: "calls s = xs @ Publish i r # ys \<Longrightarrow>
    port_step W R s (s\<lparr>port := publish_result R r i (port s), calls := xs @ ys\<rparr>)"
| take: "i < length (heap (port s)) \<Longrightarrow> pop_result R i (port s) = (x, q) \<Longrightarrow>
    port_step W R s (s\<lparr>port := q, taken := taken s @ (case x of None \<Rightarrow> [] | Some r \<Rightarrow> [(i, r)])\<rparr>)"
| admit: "admit W R input local active (port s) = (ok, w, q) \<Longrightarrow>
    port_step W R s (s\<lparr>port := q, calls := calls s @ (if ok then [] else [Claim (work_ticket w) (Inl Stopped)])\<rparr>)"
| dequeue: "next_urgent W (port s) = (x, q) \<or> next_ordinary W (port s) = (x, q) \<Longrightarrow>
    port_step W R s (s\<lparr>port := q\<rparr>)"
| revoke: "i < length (heap (port s)) \<Longrightarrow> q = source_state active valid i (port s) \<or> q = ticket_drop i (port s) \<Longrightarrow>
    port_step W R s (s\<lparr>port := q\<rparr>)"
| lifecycle: "q = mark_ready (port s) \<or> q = retire (port s) \<Longrightarrow> port_step W R s (s\<lparr>port := q\<rparr>)"

definition port_init ::
  "('w, remote_work) array_queue \<Rightarrow> nat \<Rightarrow> ('w, 's, 'r) port_system \<Rightarrow> bool" where
  "port_init W capacity s \<longleftrightarrow> s = \<lparr>port = remote_queue_new W capacity, calls = [], taken = []\<rparr>"

definition in_flight :: "nat \<Rightarrow> ('w, 's, 'r) port_system \<Rightarrow> nat" where
  "in_flight i s = length (filter (won_call i) (calls s))"

definition times_taken :: "nat \<Rightarrow> ('w, 's, 'r) port_system \<Rightarrow> nat" where
  "times_taken i s = length (filter (\<lambda>(j, _). j = i) (taken s))"

lemma heap_simps [simp]:
  "heap (update_ticket i f q) = (heap q)[i := f (heap q ! i)]"
  "accepting (retire q) = False" "heap (report_error r i q) = heap q" "heap (mark_ready q) = heap q" "heap (retire q) = heap q"
  by (auto simp: update_ticket_def report_error_def mark_ready_def retire_def split: sum.split)

lemma heap_next: "next_urgent W q = (x, q') \<Longrightarrow> heap q' = heap q" "next_ordinary W q = (x, q') \<Longrightarrow> heap q' = heap q"
  by (auto simp: next_urgent_def next_ordinary_def split: option.splits prod.splits)

lemma admit_heap:
  "admit W R input local active q = (ok, w, q') \<Longrightarrow>
   heap q' = heap q @ [ticket_new R input local active] \<and> work_ticket w = length (heap q)"
  by (auto simp: admit_def Let_def split: if_splits option.splits)

text \<open>The result slot of a ticket is an array queue of completions.\<close>

locale result_slot = bounded_fifo R items slots
  for R :: "('s, 'r completion) array_queue" and items :: "'s \<Rightarrow> 'r completion list" and slots :: "'s \<Rightarrow> nat"
begin

definition ticket_inv :: "('w, 's, 'r) port_system \<Rightarrow> nat \<Rightarrow> bool" where
  "ticket_inv s i \<longleftrightarrow>
     slots (ticket_result (heap (port s) ! i)) = 1 \<and>
     length (items (ticket_result (heap (port s) ! i))) + in_flight i s + times_taken i s =
       of_bool (ticket_completed (heap (port s) ! i))"

definition port_inv :: "('w, 's, 'r) port_system \<Rightarrow> bool" where
  "port_inv s \<longleftrightarrow>
     (\<forall>c \<in> set (calls s). call_ticket c < length (heap (port s))) \<and>
     (\<forall>(i, r) \<in> set (taken s). i < length (heap (port s))) \<and>
     (\<forall>i < length (heap (port s)). ticket_inv s i)"

lemmas port_inv_defs = port_inv_def ticket_inv_def in_flight_def times_taken_def

lemma port_inv_init: "port_init W capacity s \<Longrightarrow> port_inv s"
  by (auto simp: port_init_def port_inv_defs remote_queue_new_def)

lemma won_call_ticket: "won_call i c \<Longrightarrow> call_ticket c = i"
  by (cases c) auto

text \<open>A ticket that is not allocated yet has no call and no taken result.\<close>

lemma fresh_ticket:
  assumes "port_inv s" "length (heap (port s)) \<le> i"
  shows "in_flight i s = 0" "times_taken i s = 0"
proof -
  have "\<not> won_call i c" if "c \<in> set (calls s)" for c
    using that assms won_call_ticket [of i c] by (auto simp: port_inv_def)
  then show "in_flight i s = 0" by (simp add: in_flight_def filter_empty_conv)
  show "times_taken i s = 0" using assms by (auto simp: port_inv_def times_taken_def filter_empty_conv)
qed

lemma publish_slot:
  assumes "port_inv s" "Publish i r \<in> set (calls s)"
  shows "\<exists>slot. aq_push R (ticket_result (heap (port s) ! i)) r = Some slot \<and> items slot = [r] \<and> slots slot = 1"
proof -
  have "i < length (heap (port s))" using assms by (fastforce simp: port_inv_def)
  then have inv: "ticket_inv s i" using assms(1) by (simp add: port_inv_def)
  have "0 < in_flight i s" using assms(2) by (force simp: in_flight_def length_greater_0_conv filter_empty_conv)
  then have "length (items (ticket_result (heap (port s) ! i))) = 0"
    using inv by (cases "ticket_completed (heap (port s) ! i)") (simp_all add: ticket_inv_def del: length_0_conv)
  then show ?thesis using inv push_room [of "ticket_result (heap (port s) ! i)" r] by (simp add: ticket_inv_def)
qed

lemma port_inv_step:
  assumes "port_step W R s s'" "port_inv s" shows "port_inv s'"
  using assms
proof (cases rule: port_step.cases)
  case (begin_complete i r)
  then show ?thesis using assms(2) by (auto simp: port_inv_defs)
next
  case (claim xs i r ys won q)
  then show ?thesis
    using assms(2)
    by (auto simp: port_inv_defs claim_ticket_def nth_list_update split: if_splits)
next
  case (report xs i r ys)
  then show ?thesis using assms(2) by (auto simp: port_inv_defs)
next
  case (publish xs i r ys)
  then have i: "i < length (heap (port s))" using assms(2) by (auto simp: port_inv_def)
  obtain slot where "aq_push R (ticket_result (heap (port s) ! i)) r = Some slot" "items slot = [r]" "slots slot = 1"
    using publish_slot [OF assms(2), of i r] publish by auto
  then show ?thesis
    using assms(2) publish i by (auto simp: port_inv_defs publish_result_def nth_list_update)
next
  case (take i x q)
  then show ?thesis
    using assms(2) pop_Some
    by (auto simp: port_inv_defs pop_result_def nth_list_update split: option.splits dest!: pop_Some)
next
  case (admit input local active ok w q)
  then show ?thesis
    using assms(2) admit_heap [OF admit(2)] fresh_ticket [OF assms(2)] new_items [of 1] new_slots [of 1]
    by (auto simp: port_inv_def ticket_inv_def in_flight_def times_taken_def ticket_new_def nth_append less_Suc_eq)
next
  case (dequeue x q)
  then show ?thesis using assms(2) heap_next [of W "port s"] by (auto simp: port_inv_defs)
next
  case (revoke i q active valid)
  then show ?thesis
    using assms(2) by (auto simp: port_inv_defs source_state_def ticket_drop_def nth_list_update split: if_splits)
next
  case (lifecycle q)
  then show ?thesis using assms(2) by (auto simp: port_inv_defs)
qed

sublocale port: transition_system "port_init W capacity" "port_step W R" port_inv
  by unfold_locales (auto intro: port_inv_init port_inv_step)

lemma reachable_tickets:
  assumes "reachable (port_init W capacity) (port_step W R) s" "i < length (heap (port s))"
  shows "length (items (ticket_result (heap (port s) ! i))) + in_flight i s + times_taken i s =
      of_bool (ticket_completed (heap (port s) ! i)) \<and>
    list_all (\<lambda>c. case c of Publish j r \<Rightarrow> aq_push R (ticket_result (heap (port s) ! j)) r \<noteq> None | _ \<Rightarrow> True) (calls s)"
proof -
  have inv: "port_inv s" using port.reachable_inv [OF assms(1)] .
  have "case c of Publish j r \<Rightarrow> aq_push R (ticket_result (heap (port s) ! j)) r \<noteq> None | _ \<Rightarrow> True"
    if "c \<in> set (calls s)" for c
    using publish_slot [OF inv] that by (cases c) fastforce+
  then show ?thesis using inv assms(2) by (simp add: port_inv_def ticket_inv_def list_all_iff)
qed

text \<open>Completing and taking in one ticket, without interleaving.\<close>

lemma complete_fresh:
  assumes "i < length (heap q)" "\<not> ticket_completed (heap q ! i)"
    "slots (ticket_result (heap q ! i)) = 1" "items (ticket_result (heap q ! i)) = []"
  shows "\<exists>slot. items slot = [r] \<and>
    heap (complete_ticket R r i q) =
      (heap q)[i := (heap q ! i)\<lparr>ticket_completed := True, ticket_result := slot\<rparr>] \<and>
    accepting (complete_ticket R r i q) = accepting q"
proof -
  obtain slot where "aq_push R (ticket_result (heap q ! i)) r = Some slot" "items slot = [r]"
    using push_room [of "ticket_result (heap q ! i)" r] assms(3,4) by auto
  then show ?thesis
    using assms(1,2)
    by (auto simp: complete_ticket_def claim_ticket_def publish_result_def report_error_def update_ticket_def
        Let_def split: sum.split)
qed

lemma complete_again: "ticket_completed (heap q ! i) \<Longrightarrow> complete_ticket R r i q = q"
  by (simp add: complete_ticket_def claim_ticket_def)

lemma pop_slot:
  assumes "i < length (heap q)" "items (ticket_result (heap q ! i)) = a # as"
  shows "\<exists>q' slot. pop_result R i q = (Some a, q') \<and> items slot = as \<and>
    heap q' = (heap q)[i := (heap q ! i)\<lparr>ticket_result := slot\<rparr>] \<and> accepting q' = accepting q"
  using pop_head [OF assms(2)] assms(1) by (auto simp: pop_result_def update_ticket_def)

lemma pop_no_slot: "items (ticket_result (heap q ! i)) = [] \<Longrightarrow> pop_result R i q = (None, q)"
  using pop_empty by (simp add: pop_result_def)

text \<open>A caller of a retired port takes at most once more.\<close>

lemma take_completed:
  fixes q :: "('w, 's) remote_queue"
  assumes "ticket_completed (heap q ! i)" "i < length (heap q)" "length (items (ticket_result (heap q ! i))) \<le> 1"
  shows "fst (take_completion R i q) =
      (case items (ticket_result (heap q ! i)) of [] \<Rightarrow> None | a # _ \<Rightarrow> Some a) \<and>
    fst (take_completion R i (snd (take_completion R i q))) = None"
proof -
  have t: "take_completion R i q' = pop_result R i q'" if "ticket_completed (heap q' ! i)" for q' :: "('w, 's) remote_queue"
    using that by (simp add: take_completion_def complete_again)
  show ?thesis
  proof (cases "items (ticket_result (heap q ! i))")
    case Nil
    then show ?thesis using t [OF assms(1)] pop_no_slot [of q i] by simp
  next
    case (Cons a as)
    then obtain q' slot where q': "pop_result R i q = (Some a, q')" "items slot = as"
      "heap q' = (heap q)[i := (heap q ! i)\<lparr>ticket_result := slot\<rparr>]"
      using pop_slot [OF assms(2)] by metis
    then have "ticket_completed (heap q' ! i)" "items (ticket_result (heap q' ! i)) = []"
      using assms Cons by auto
    then show ?thesis using t [OF assms(1)] t [of q'] pop_no_slot [of q' i] q' Cons by simp
  qed
qed

lemma take_retired:
  assumes "\<not> accepting q" "i < length (heap q)" "slots (ticket_result (heap q ! i)) = 1"
    and "length (items (ticket_result (heap q ! i))) \<le> of_bool (ticket_completed (heap q ! i))"
  shows "let (x, q1) = take_completion R i q in
    x = (if \<not> ticket_completed (heap q ! i) then Some (Inl Stopped)
         else case items (ticket_result (heap q ! i)) of [] \<Rightarrow> None | a # _ \<Rightarrow> Some a) \<and>
    fst (take_completion R i q1) = None"
proof (cases "ticket_completed (heap q ! i)")
  case True
  then show ?thesis using take_completed [OF True assms(2)] assms(4)
    by (cases "take_completion R i q") auto
next
  case False
  let ?q = "complete_ticket R (Inl Stopped) i q"
  have empty: "items (ticket_result (heap q ! i)) = []" using assms(4) False by simp
  obtain slot where q: "items slot = [Inl Stopped]" "accepting ?q = accepting q"
    "heap ?q = (heap q)[i := (heap q ! i)\<lparr>ticket_completed := True, ticket_result := slot\<rparr>]"
    using complete_fresh [OF assms(2) False assms(3) empty, of "Inl Stopped"] by blast
  have finished: "ticket_completed (heap ?q ! i)" "i < length (heap ?q)" "items (ticket_result (heap ?q ! i)) = [Inl Stopped]"
    using q assms(2) by auto
  have "take_completion R i q = take_completion R i ?q"
    using assms(1) q(2) complete_again [OF finished(1)] by (simp add: take_completion_def)
  then show ?thesis using take_completed [OF finished(1,2)] finished(3) False
    by (cases "take_completion R i ?q") auto
qed

end

interpretation list_result: result_slot "list_array_queue :: ('r completion list_queue, 'r completion) array_queue" snd fst
  by unfold_locales
section \<open>Back pressure\<close>

locale work_queue = bounded_fifo W items slots
  for W :: "('w, remote_work) array_queue" and items :: "'w \<Rightarrow> remote_work list" and slots :: "'w \<Rightarrow> nat"
begin

lemma admit_room:
  assumes "length (items (if input_urgent input then urgent_slot q else ordinary q)) <
      slots (if input_urgent input then urgent_slot q else ordinary q)"
  shows "\<exists>q'. admit W R input local active q = (True, \<lparr>work_input = input, work_ticket = length (heap q)\<rparr>, q') \<and>
    items (if input_urgent input then urgent_slot q' else ordinary q') =
      items (if input_urgent input then urgent_slot q else ordinary q) @
        [\<lparr>work_input = input, work_ticket = length (heap q)\<rparr>] \<and>
    (if input_urgent input then ordinary q' = ordinary q else urgent_slot q' = urgent_slot q) \<and>
    heap q' = heap q @ [ticket_new R input local active] \<and> parallel_error_code q' = parallel_error_code q"
  using push_room [OF assms, of "\<lparr>work_input = input, work_ticket = length (heap q)\<rparr>"]
  by (cases "input_urgent input") (auto simp: admit_def Let_def)

lemma admit_full:
  assumes "slots (if input_urgent input then urgent_slot q else ordinary q) \<le>
      length (items (if input_urgent input then urgent_slot q else ordinary q))"
  shows "admit W R input local active q =
    (False, \<lparr>work_input = input, work_ticket = length (heap q)\<rparr>,
     q\<lparr>heap := heap q @ [ticket_new R input local active]\<rparr>)"
  using push_full [OF assms] by (cases "input_urgent input") (auto simp: admit_def Let_def)

lemma next_work_order:
  "next_work W q =
     (case items (urgent_slot q) of
        [] \<Rightarrow> next_ordinary W q
      | w # ws \<Rightarrow> (Some w, snd (next_urgent W q)))"
  using pop_None [of "urgent_slot q"]
  by (auto simp: next_work_def next_urgent_def split: list.split option.splits dest!: pop_Some)

end

interpretation list_work: work_queue "list_array_queue :: (remote_work list_queue, remote_work) array_queue" snd fst
  by unfold_locales

lemma complete_other:
  "i < length (heap q) \<Longrightarrow> j \<noteq> i \<Longrightarrow> heap (complete_ticket R r i q) ! j = heap q ! j"
  "length (heap (complete_ticket R r i q)) = length (heap q)"
  "ordinary (complete_ticket R r i q) = ordinary q" "urgent_slot (complete_ticket R r i q) = urgent_slot q"
  by (auto simp: complete_ticket_def claim_ticket_def publish_result_def report_error_def Let_def
      update_ticket_def split: option.splits sum.splits)

lemma complete_error_code:
  "parallel_error_code (complete_ticket R r i q) =
     (case r of
        Inl e \<Rightarrow>
          if \<not> ticket_completed (heap q ! i) \<and> detached (heap q ! i) \<and> parallel_error_code q = 0 \<and> i < length (heap q)
          then error_code e
          else if i < length (heap q) then parallel_error_code q else parallel_error_code (complete_ticket R r i q)
      | Inr _ \<Rightarrow> parallel_error_code q)"
  by (auto simp: complete_ticket_def claim_ticket_def publish_result_def report_error_def Let_def
      update_ticket_def split: option.splits sum.splits)

section \<open>Properties\<close>

text \<open>C35: however the completions, submissions, revocations and the retirement of a port interleave, every
  ticket is completed at most once: its results in flight, in the slot and taken by the caller are
  together exactly one when it is completed and none before, and a claimed completion always finds the
  slot free.\<close>

theorem ticket_exactly_once:
  assumes "result_slot R items slots" "reachable (port_init W capacity) (port_step W R) s"
    and "i < length (heap (port s))"
  shows "length (items (ticket_result (heap (port s) ! i))) + in_flight i s + times_taken i s =
      of_bool (ticket_completed (heap (port s) ! i)) \<and>
    list_all (\<lambda>c. case c of Publish j r \<Rightarrow> aq_push R (ticket_result (heap (port s) ! j)) r \<noteq> None | _ \<Rightarrow> True) (calls s)"
  using result_slot.reachable_tickets [OF assms] .

abbreviation sample_work_queue :: "(remote_work list_queue, remote_work) array_queue" where
  "sample_work_queue \<equiv> list_array_queue"

abbreviation sample_result_queue :: "(unit completion list_queue, unit completion) array_queue" where
  "sample_result_queue \<equiv> list_array_queue"

definition claimed_port :: "(remote_work list_queue, unit completion list_queue, unit) port_system" where
  "claimed_port =
     \<lparr>port = snd (claim_ticket 0 (snd (snd (admit sample_work_queue sample_result_queue
        (InputCommand (remote_operation_new Tune)) True False (remote_queue_new sample_work_queue 2))))),
      calls = [Report 0 (Inr ())], taken = []\<rparr>"

lemma claimed_port_reachable:
  "reachable (port_init sample_work_queue 2) (port_step sample_work_queue sample_result_queue) claimed_port"
proof -
  let ?q0 = "remote_queue_new sample_work_queue 2 :: (remote_work list_queue, unit completion list_queue) remote_queue"
  let ?a = "admit sample_work_queue sample_result_queue (InputCommand (remote_operation_new Tune)) True False ?q0"
  let ?s0 = "\<lparr>port = ?q0, calls = [], taken = []\<rparr>" and ?s1 = "\<lparr>port = snd (snd ?a), calls = [], taken = []\<rparr>"
  let ?s2 = "\<lparr>port = snd (snd ?a), calls = [Claim 0 (Inr ())], taken = []\<rparr>"
  have a: "?a = (True, fst (snd ?a), snd (snd ?a))" "0 < length (heap (snd (snd ?a)))"
    "\<not> ticket_completed (heap (snd (snd ?a)) ! 0)"
    by (simp_all add: admit_def Let_def remote_queue_new_def list_array_queue_def input_urgent_def urgent_new ticket_new_def)
  have "reachable (port_init sample_work_queue 2) (port_step sample_work_queue sample_result_queue) ?s0"
    by (rule reachable_init) (simp add: port_init_def)
  moreover have "port_step sample_work_queue sample_result_queue ?s0 ?s1"
    using port_step.admit [of sample_work_queue sample_result_queue "InputCommand (remote_operation_new Tune)"
        True False ?s0 True "fst (snd ?a)" "snd (snd ?a)"] a(1) by simp
  moreover have "port_step sample_work_queue sample_result_queue ?s1 ?s2"
    using begin_complete [of 0 ?s1 _ _ "Inr ()"] a(2) by simp
  moreover have "port_step sample_work_queue sample_result_queue ?s2 claimed_port"
    using claim [of ?s2 "[]" 0 "Inr ()" "[]"] a(3) by (simp add: claimed_port_def claim_ticket_def)
  ultimately show ?thesis by (blast intro: reachable_step)
qed

lemma ticket_exactly_once_witness:
  "in_flight 0 claimed_port = 1 \<and> snd (ticket_result (heap (port claimed_port) ! 0)) = []"
proof -
  have "0 < length (heap (port claimed_port))" "ticket_completed (heap (port claimed_port) ! 0)"
    "in_flight 0 claimed_port = 1"
    by (simp_all add: claimed_port_def claim_ticket_def update_ticket_def admit_def Let_def remote_queue_new_def
        list_array_queue_def input_urgent_def urgent_new ticket_new_def in_flight_def)
  then show ?thesis
    using ticket_exactly_once [OF list_result.result_slot_axioms claimed_port_reachable, of 0] by simp
qed

text \<open>C36: what a submission does: refused when the port is retired or the operation is unknown, admitted at the
  end of its own queue when that has room, and otherwise refused as busy with the queues and all other
  tickets as they were; urgent operations never compete with ordinary ones. A refused legacy request is
  recorded with the code of a stopped port, because the rejected work is dropped.\<close>

theorem enqueue_outcome:
  assumes "work_queue W items slots"
  shows "let (result, q') = enqueue W R input local active q;
      target = (\<lambda>q. if input_urgent input then urgent_slot q else ordinary q);
      other = (\<lambda>q. if input_urgent input then ordinary q else urgent_slot q) in
    if \<not> accepting q then result = Inl Stopped \<and> q' = q
    else if input_invalid input then result = Inl (Rejected (-1003)) \<and> q' = q
    else if length (items (target q)) < slots (target q)
    then result = Inr (length (heap q)) \<and> other q' = other q \<and>
      items (target q') = items (target q) @ [\<lparr>work_input = input, work_ticket = length (heap q)\<rparr>] \<and>
      heap q' = heap q @ [ticket_new R input local active] \<and>
      parallel_error_code q' = parallel_error_code q
    else result = Inl Busy \<and> ordinary q' = ordinary q \<and> urgent_slot q' = urgent_slot q \<and>
      take (length (heap q)) (heap q') = heap q \<and>
      parallel_error_code q' =
        (case input of
           InputParallel _ \<Rightarrow> if parallel_error_code q = 0 then -10 else parallel_error_code q
         | InputCommand _ \<Rightarrow> parallel_error_code q)"
proof (cases "accepting q \<and> \<not> input_invalid input")
  case True
  let ?target = "if input_urgent input then urgent_slot q else ordinary q"
  show ?thesis
  proof (cases "length (items ?target) < slots ?target")
    case room: True
    show ?thesis
      using work_queue.admit_room [OF assms room, of R local active] room True
      by (auto simp: enqueue_def Let_def split: if_splits)
  next
    case False
    let ?q = "q\<lparr>heap := heap q @ [ticket_new R input local active]\<rparr>"
    let ?q' = "complete_ticket R (Inl Stopped) (length (heap q)) ?q"
    have same: "take (length (heap q)) (heap ?q') = heap q"
      using complete_other(1,2) [where i = "length (heap q)" and q = ?q and R = R and r = "Inl Stopped"] by (intro nth_equalityI) (auto simp: nth_append)
    have e: "enqueue W R input local active q = (Inl Busy, ?q')"
      using work_queue.admit_full [OF assms, of input q R local active] False True
      by (simp add: enqueue_def work_drop_def)
    show ?thesis
      unfolding e using same True False complete_other(3,4) [where i = "length (heap q)" and q = ?q and R = R and r = "Inl Stopped"]
        complete_error_code [where i = "length (heap q)" and q = ?q and R = R and r = "Inl Stopped"]
      by (auto simp: Let_def ticket_new_def error_code_def nth_append split: remote_input.splits)
  qed
qed (auto simp: enqueue_def Let_def)

lemma enqueue_outcome_witness:
  "let q = remote_queue_new list_array_queue 1 in
   fst (enqueue list_array_queue list_array_queue (InputParallel (RequestChannel 7)) True False
     (snd (enqueue list_array_queue (list_array_queue :: (unit completion list_queue, unit completion) array_queue)
        (InputParallel (RequestChannel 7)) True False q))) = Inl Busy \<and>
   parallel_error_code (snd (enqueue list_array_queue list_array_queue (InputParallel (RequestChannel 7)) True False
     (snd (enqueue list_array_queue (list_array_queue :: (unit completion list_queue, unit completion) array_queue)
        (InputParallel (RequestChannel 7)) True False q)))) = -10"
proof -
  let ?L = "list_array_queue :: (unit completion list_queue, unit completion) array_queue"
  let ?I = "InputParallel (RequestChannel 7)"
  let ?q = "snd (enqueue list_array_queue ?L ?I True False (remote_queue_new list_array_queue 1))"
  have q: "accepting ?q" "items = snd \<Longrightarrow> slots = fst \<Longrightarrow> \<not> length (items (ordinary ?q)) < slots (ordinary ?q)"
    "parallel_error_code ?q = 0" for items slots
    by (simp_all add: enqueue_def admit_def Let_def remote_queue_new_def list_array_queue_def
        input_invalid_def input_urgent_def)
  show ?thesis
    using enqueue_outcome [OF list_work.work_queue_axioms, of ?L ?I True False ?q] q
    by (simp add: Let_def input_invalid_def input_urgent_def split: prod.splits)
qed

text \<open>C37: once a port is retired, nothing is admitted and no completion that starts afterwards reports
  success; a caller who asks gets a result at once, \<open>Stopped\<close> where none was published, unless the
  single result was already taken or is being published; asking again gives nothing.\<close>

theorem retirement_terminal:
  assumes "result_slot R items slots" "i < length (heap q)" "slots (ticket_result (heap q ! i)) = 1"
    and "length (items (ticket_result (heap q ! i))) \<le> of_bool (ticket_completed (heap q ! i))"
  shows "enqueue W R input local active (retire q) = (Inl Stopped, retire q) \<and>
    final_result r w (retire q) = Inl Stopped \<and>
    (let (x, q1) = take_completion R i (retire q) in
     x = (if \<not> ticket_completed (heap q ! i) then Some (Inl Stopped)
          else case items (ticket_result (heap q ! i)) of [] \<Rightarrow> None | a # _ \<Rightarrow> Some a) \<and>
     fst (take_completion R i q1) = None)"
  using result_slot.take_retired [OF assms(1), of "retire q" i] assms(2-4)
  by (cases "take_completion R i (retire q)") (simp add: enqueue_def final_result_def split: if_splits)

definition waiting_port :: "(remote_work list_queue, unit completion list_queue) remote_queue" where
  "waiting_port =
     snd (enqueue list_array_queue list_array_queue (InputCommand (remote_operation_new Tune)) True False
       (remote_queue_new list_array_queue 2))"

lemma waiting_port_facts:
  "heap waiting_port = [ticket_new list_array_queue (InputCommand (remote_operation_new Tune)) True False]"
  "accepting waiting_port"
  by (simp_all add: waiting_port_def enqueue_def admit_def Let_def remote_queue_new_def list_array_queue_def
      input_invalid_def input_urgent_def new_kind urgent_new)

lemma retirement_terminal_witness:
  "fst (take_completion list_array_queue 0 (retire waiting_port)) = Some (Inl Stopped)"
proof -
  have t: "\<not> ticket_completed (heap waiting_port ! 0)" "snd (ticket_result (heap waiting_port ! 0)) = []"
    "fst (ticket_result (heap waiting_port ! 0)) = 1" "0 < length (heap waiting_port)"
    by (simp_all add: waiting_port_facts ticket_new_def list_array_queue_def)
  then show ?thesis
    using retirement_terminal [OF list_result.result_slot_axioms, of 0 waiting_port list_array_queue
        "InputParallel (RequestChannel 7)" True False "Inr ()" undefined]
    by (cases "take_completion list_array_queue 0 (retire waiting_port)") auto
qed

text \<open>The validity of a source needs its bit and an accepting port; no step sets either.\<close>

lemma source_valid_iff: "source_valid (ticket_source i q) \<longleftrightarrow> source_bits (heap q ! i) AND 1 \<noteq> 0 \<and> accepting q"
  by (simp add: ticket_source_def)

lemma source_bits_set: "(of_bool b OR push_bit 1 (of_bool a)) AND 1 \<noteq> (0 :: 8 word) \<longleftrightarrow> b"
  by (cases b; cases a) simp_all

lemma source_bits_active: "push_bit 1 (of_bool a) AND 1 = (0 :: 8 word)"
  by (cases a) simp_all

lemma source_bits_clear: "(old AND NOT 1) AND 1 = (0 :: 8 word)" "(old AND -2) AND 1 = (0 :: 8 word)"
  by (simp_all add: and.assoc)

lemmas source_bits_revoke = source_bits_set source_bits_active source_bits_clear

text \<open>All but a revocation leave the source words of the existing tickets.\<close>

definition same_sources :: "('w, 's) remote_queue \<Rightarrow> ('w, 's) remote_queue \<Rightarrow> bool" where
  "same_sources q q' \<longleftrightarrow>
     length (heap q) \<le> length (heap q') \<and> (accepting q' \<longrightarrow> accepting q) \<and>
     (\<forall>i < length (heap q). source_bits (heap q' ! i) = source_bits (heap q ! i))"

lemma same_sources_update:
  "(\<And>t. source_bits (f t) = source_bits t) \<Longrightarrow> same_sources q (update_ticket i f q)"
  by (auto simp: same_sources_def update_ticket_def) (metis nth_list_update_eq nth_list_update_neq)

lemma same_sources_refl: "same_sources q q"
  by (simp add: same_sources_def)

lemma same_sources_steps:
  "claim_ticket i q = (won, q') \<Longrightarrow> same_sources q q'"
  "same_sources q (report_error r i q)"
  "same_sources q (publish_result R r i q)"
  "pop_result R i q = (x, q') \<Longrightarrow> same_sources q q'"
  "admit W R input local active q = (ok, w, q') \<Longrightarrow> same_sources q q'"
  "next_urgent W q = (y, q') \<Longrightarrow> same_sources q q'"
  "next_ordinary W q = (y, q') \<Longrightarrow> same_sources q q'"
  "same_sources q (mark_ready q)" "same_sources q (retire q)"
proof -
  show "claim_ticket i q = (won, q') \<Longrightarrow> same_sources q q'"
    by (auto simp: claim_ticket_def same_sources_refl intro!: same_sources_update split: if_splits)
  show "same_sources q (report_error r i q)"
    by (auto simp: report_error_def same_sources_def split: sum.splits)
  show "same_sources q (publish_result R r i q)"
    by (auto simp: publish_result_def same_sources_refl intro!: same_sources_update split: option.splits)
  show "pop_result R i q = (x, q') \<Longrightarrow> same_sources q q'"
    by (auto simp: pop_result_def same_sources_refl intro!: same_sources_update split: option.splits)
  show "admit W R input local active q = (ok, w, q') \<Longrightarrow> same_sources q q'"
    by (auto simp: admit_def same_sources_def Let_def nth_append split: option.splits if_splits)
qed (auto simp: next_urgent_def next_ordinary_def mark_ready_def retire_def same_sources_def split: option.splits)

lemma same_sources_valid:
  "same_sources q q' \<Longrightarrow> i < length (heap q) \<Longrightarrow> \<not> source_valid (ticket_source i q) \<Longrightarrow>
   i < length (heap q') \<and> \<not> source_valid (ticket_source i q')"
  by (auto simp: same_sources_def source_valid_iff)

lemma revoked_valid:
  assumes "i < length (heap q)" "\<not> source_valid (ticket_source i q)"
    and "q' = source_state active valid j q \<or> q' = ticket_drop j q"
  shows "i < length (heap q') \<and> \<not> source_valid (ticket_source i q')"
  using assms source_bits_revoke
  by (cases "j = i")
     (auto simp: source_valid_iff source_state_def ticket_drop_def update_ticket_def simp del: push_bit_of_1)

lemma step_valid:
  assumes "port_step W R s s'" "i < length (heap (port s))" "\<not> source_valid (ticket_source i (port s))"
  shows "i < length (heap (port s')) \<and> \<not> source_valid (ticket_source i (port s'))"
proof -
  have "same_sources (port s) (port s') \<or>
      (\<exists>j active valid. port s' = source_state active valid j (port s) \<or> port s' = ticket_drop j (port s))"
    using assms(1)
  proof cases
    case (revoke j q active valid)
    then have "port s' = source_state active valid j (port s) \<or> port s' = ticket_drop j (port s)" by auto
    then show ?thesis by blast
  qed (rule disjI1, auto simp: same_sources_refl dest: same_sources_steps(1,4,5,6,7) intro: same_sources_steps(2,3,8,9))+
  then show ?thesis
  proof
    assume "same_sources (port s) (port s')"
    then show ?thesis by (rule same_sources_valid [OF _ assms(2,3)])
  next
    assume "\<exists>j active valid. port s' = source_state active valid j (port s) \<or> port s' = ticket_drop j (port s)"
    then obtain j active valid where "port s' = source_state active valid j (port s) \<or> port s' = ticket_drop j (port s)"
      by (elim exE)
    then show ?thesis by (rule revoked_valid [OF assms(2,3)])
  qed
qed

text \<open>A source that lost its validity, by revocation, by dropping its ticket or by the retirement of the
  port, never becomes valid again, whatever happens afterwards.\<close>

theorem revocation_permanent:
  assumes "(port_step W R)\<^sup>*\<^sup>* s s'" "i < length (heap (port s))"
    and "\<not> source_valid (ticket_source i (port s))"
  shows "\<not> source_valid (ticket_source i (port s'))"
proof -
  have "i < length (heap (port s')) \<and> \<not> source_valid (ticket_source i (port s'))"
    using assms by (induction rule: rtranclp_induct) (auto dest: step_valid)
  then show ?thesis ..
qed

lemma revocation_permanent_witness:
  "\<not> source_valid (ticket_source 0 (retire (mark_ready waiting_port)))"
proof -
  let ?s = "\<lparr>port = ticket_drop 0 waiting_port, calls = [], taken = []\<rparr> ::
    (remote_work list_queue, unit completion list_queue, unit) port_system"
  have "port_step list_array_queue list_array_queue ?s (?s\<lparr>port := mark_ready (ticket_drop 0 waiting_port)\<rparr>)"
    using lifecycle [of "mark_ready (port ?s)" ?s] by simp
  then have "(port_step list_array_queue list_array_queue)\<^sup>*\<^sup>* ?s (?s\<lparr>port := mark_ready (ticket_drop 0 waiting_port)\<rparr>)"
    by blast
  moreover have "\<not> source_valid (ticket_source 0 (ticket_drop 0 waiting_port))"
    by (simp add: source_valid_iff ticket_drop_def update_ticket_def waiting_port_facts source_bits_revoke)
  ultimately have "\<not> source_valid (ticket_source 0 (mark_ready (ticket_drop 0 waiting_port)))"
    using revocation_permanent [of list_array_queue list_array_queue ?s
        "?s\<lparr>port := mark_ready (ticket_drop 0 waiting_port)\<rparr>" 0]
    by (simp add: waiting_port_facts ticket_drop_def update_ticket_def)
  then show ?thesis by (simp add: source_valid_iff)
qed

end
