(* ===== verification/Station_Update.thy ===== *)
theory Station_Update
  imports Prelude Transition_System "HOL-Library.Word"
begin

text \<open>
  Live replacement of the settings of a running station, \<^verbatim>\<open>rust/station/src/update.rs\<close>: the control owner
  publishes a pointer to prepared storage in two mailboxes, the receive and the transmit callback each
  take theirs, apply it and acknowledge, and the control owner commits or rolls back. Nothing but the
  protocol keeps the storage alive while a callback still uses it.

  The two callbacks and the control owner interleave. Every access to a shared word is a step of its own,
  but for two groups: the two loads of \<open>result\<close> are one step, since an acknowledgment stays until the next
  publication, which only the control owner makes; and the rest of a control operation, which no callback
  sees, is part of the step of its last load. A stopped station has no callbacks (\<open>stop\<close> waits for them), and
  the control owner makes their steps itself.
\<close>

section \<open>Owners and errors\<close>

datatype radio_error =
    IncompatibleAdapter
  | InvalidArgument
  | ProviderFailed
  | FrameCountExceeded
  | Unsupported
  | NotReady
  | RadioBusy
  | AdapterFailure

datatype 'e station_update_error =
    UpdateIncompatible
  | UpdateBusy
  | UpdatePending
  | UpdatePreparation 'e
  | UpdateRadio radio_error

text \<open>
  One prepared generation. The address stands for its storage; the provider identifies the function table
  of the radio core; the tables are what the receive callback copies.
\<close>

record ('f, 'c) update_owner =
  owner_address :: nat
  owner_provider :: 'f
  owner_receive_frames :: int
  owner_transmit_frames :: int
  owner_ctcss :: 'c
  owner_voter :: bool

record ('f, 'c, 'p) station_update =
  update_plan :: 'p
  update_previous :: 'p
  update_forward :: "('f, 'c) update_owner"
  update_reverse :: "('f, 'c) update_owner"
  update_source :: nat
  update_revision :: "64 word"

text \<open>\<open>SessionInner::validate_update\<close> of \<^verbatim>\<open>rust/radio/src/session.rs\<close>.\<close>

record 'f radio_session =
  session_provider :: 'f
  session_receive_frames :: int
  session_transmit_frames :: int

definition validate_update :: "'f radio_session \<Rightarrow> ('f, 'c) update_owner \<Rightarrow> (radio_error, unit) result" where
  "validate_update session owner =
     (if session_provider session \<noteq> owner_provider owner then Inl IncompatibleAdapter
      else if session_receive_frames session \<noteq> owner_receive_frames owner \<or>
              session_transmit_frames session \<noteq> owner_transmit_frames owner
      then Inl Unsupported
      else Inr ())"

text \<open>The adapter of the radio core is outside; \<open>adapter\<close> is its answer.\<close>

definition apply_update ::
  "'f radio_session \<Rightarrow> (radio_error, unit) result \<Rightarrow> ('f, 'c) update_owner \<Rightarrow> (radio_error, unit) result" where
  "apply_update session adapter owner = res_bind (validate_update session owner) (\<lambda>_. adapter)"

section \<open>Preparation\<close>

record ('h, 'm, 't, 'x) station_plan =
  plan_hardware :: 'h
  plan_remote :: 'm
  plan_transport :: 't
  plan_receive_frames :: int
  plan_rest :: 'x

record ('f, 'p) update_preparation =
  prep_previous :: 'p
  prep_source :: nat
  prep_revision :: "64 word"

text \<open>
  The remote carry-over, the processing factory and the radio provider are parameters: \<open>retain\<close>,
  \<open>forward_of\<close> and \<open>reverse_of\<close>.
\<close>

definition prepare_station_update ::
  "(('h, 'm, 't, 'x) station_plan \<Rightarrow> ('h, 'm, 't, 'x) station_plan \<Rightarrow> ('e, ('h, 'm, 't, 'x) station_plan) result) \<Rightarrow>
   (('h, 'm, 't, 'x) station_plan \<Rightarrow> ('e station_update_error, ('f, 'c) update_owner) result) \<Rightarrow>
   (('f, 'c) update_owner \<Rightarrow> ('e station_update_error, ('f, 'c) update_owner) result) \<Rightarrow>
   ('f, ('h, 'm, 't, 'x) station_plan) update_preparation \<Rightarrow> ('h, 'm, 't, 'x) station_plan \<Rightarrow>
   ('e station_update_error, ('f, 'c, ('h, 'm, 't, 'x) station_plan) station_update) result" where
  "prepare_station_update retain forward_of reverse_of prep candidate =
     res_bind (map_err UpdatePreparation (retain candidate (prep_previous prep))) (\<lambda>plan.
     if plan_hardware plan \<noteq> plan_hardware (prep_previous prep) \<or>
        plan_remote plan \<noteq> plan_remote (prep_previous prep) \<or>
        plan_transport plan \<noteq> plan_transport (prep_previous prep) \<or>
        plan_receive_frames plan \<noteq> plan_receive_frames (prep_previous prep)
     then Inl UpdateIncompatible
     else
       res_bind (forward_of plan) (\<lambda>forward.
       res_bind (reverse_of forward) (\<lambda>reverse.
         Inr \<lparr>update_plan = plan, update_previous = prep_previous prep, update_forward = forward,
              update_reverse = reverse, update_source = prep_source prep,
              update_revision = prep_revision prep\<rparr>)))"

section \<open>One audio callback\<close>

text \<open>
  Where a callback is in \<open>receive\<close> or \<open>transmit\<close>: outside, before \<open>apply_update\<close>, before the store of the
  processing pointer, before the acknowledgment.
\<close>

datatype 'o audio_pc = AudioIdle | AudioApply 'o | AudioProcessing 'o | AudioAck bool

text \<open>
  The mailbox words of one direction and its callback. \<open>side_uses\<close> is history: the generation whose ports
  the radio session borrows, \<open>None\<close> for the one of the start. The context holds the tables of the receive
  callback; the transmit callback has none.
\<close>

record ('f, 'c) audio_side =
  side_slot :: "('f, 'c) update_owner option"
  side_result :: int
  side_processing :: "('f, 'c) update_owner option"
  side_at :: "('f, 'c) update_owner audio_pc"
  side_context :: "('c \<times> bool) option"
  side_uses :: "('f, 'c) update_owner option"

definition side_next ::
  "'f radio_session \<Rightarrow> (radio_error, unit) result \<Rightarrow> ('f, 'c) audio_side \<Rightarrow> ('f, 'c) audio_side" where
  "side_next session adapter d =
     (case side_at d of
        AudioIdle \<Rightarrow>
          (case side_slot d of
             None \<Rightarrow> d
           | Some owner \<Rightarrow> d\<lparr>side_slot := None, side_at := AudioApply owner\<rparr>)
      | AudioApply owner \<Rightarrow>
          (case apply_update session adapter owner of
             Inl _ \<Rightarrow> d\<lparr>side_at := AudioAck False\<rparr>
           | Inr _ \<Rightarrow>
               d\<lparr>side_uses := Some owner,
                 side_context := map_option (\<lambda>_. (owner_ctcss owner, owner_voter owner)) (side_context d),
                 side_at := AudioProcessing owner\<rparr>)
      | AudioProcessing owner \<Rightarrow> d\<lparr>side_processing := Some owner, side_at := AudioAck True\<rparr>
      | AudioAck ok \<Rightarrow> d\<lparr>side_result := (if ok then 1 else -1), side_at := AudioIdle\<rparr>)"

text \<open>A whole call, by the control owner of a stopped station.\<close>

definition side_service ::
  "'f radio_session \<Rightarrow> (radio_error, unit) result \<Rightarrow> ('f, 'c) audio_side \<Rightarrow> ('f, 'c) audio_side" where
  "side_service session adapter d =
     (if side_slot d = None then d else (side_next session adapter ^^ 4) d)"

section \<open>The system\<close>

text \<open>
  Where the control owner is: outside, within \<open>publish\<close> after a number of its stores, before
  \<open>apply_stopped_update\<close>, and before the last result of a rollback. The flag tells a rollback.
\<close>

datatype 'o control_pc = ControlIdle | ControlPublish nat 'o bool | ControlApply bool | ControlRollback

text \<open>\<open>returned\<close> is the result of the last control operation that finished.\<close>

record ('f, 'c, 'p, 'e) update_system =
  mailbox :: nat
  control_mailbox :: nat
  session :: "'f radio_session"
  receive_side :: "('f, 'c) audio_side"
  transmit_side :: "('f, 'c) audio_side"
  current_owner :: "('f, 'c) update_owner option"
  transaction :: "(('f, 'c, 'p) station_update \<times> bool) option"
  revision :: "64 word"
  control_plan :: 'p
  running :: bool
  control_at :: "('f, 'c) update_owner control_pc"
  returned :: "('e station_update_error, unit) result option"

definition answer ::
  "('e station_update_error, unit) result \<Rightarrow> ('f, 'c, 'p, 'e) update_system \<Rightarrow> ('f, 'c, 'p, 'e) update_system" where
  "answer r s = s\<lparr>control_at := ControlIdle, returned := Some r\<rparr>"

definition update_result :: "('f, 'c, 'p, 'e) update_system \<Rightarrow> ('e station_update_error, unit) result" where
  "update_result s =
     (let rx = side_result (receive_side s); tx = side_result (transmit_side s) in
      if rx = 0 \<or> tx = 0 then Inl UpdatePending
      else if rx < 0 \<or> tx < 0 then Inl (UpdateRadio InvalidArgument)
      else Inr ())"

definition publish ::
  "('f, 'c) update_owner \<Rightarrow> bool \<Rightarrow> ('f, 'c, 'p, 'e) update_system \<Rightarrow> ('f, 'c, 'p, 'e) update_system" where
  "publish owner reversing s = s\<lparr>control_at := ControlPublish 0 owner reversing, returned := None\<rparr>"

text \<open>The adapter's answers to the receive and to the transmit half.\<close>

type_synonym answers = "(radio_error, unit) result \<times> (radio_error, unit) result"

definition apply_stopped_update ::
  "answers \<Rightarrow> ('f, 'c, 'p, 'e) update_system \<Rightarrow> ('f, 'c, 'p, 'e) update_system" where
  "apply_stopped_update as s =
     (if running s then s
      else s\<lparr>receive_side := side_service (session s) (fst as) (receive_side s),
             transmit_side := side_service (session s) (snd as) (transmit_side s)\<rparr>)"

definition begin_update ::
  "('f, 'c, 'p) station_update \<Rightarrow> ('f, 'c, 'p, 'e) update_system \<Rightarrow> ('f, 'c, 'p, 'e) update_system" where
  "begin_update u s =
     (if update_source u \<noteq> mailbox s \<or> mailbox s \<noteq> control_mailbox s then answer (Inl UpdateIncompatible) s
      else
        (case res_bind (validate_update (session s) (update_forward u))
                (\<lambda>_. validate_update (session s) (update_reverse u)) of
           Inl e \<Rightarrow> answer (Inl (UpdateRadio e)) s
         | Inr _ \<Rightarrow>
             if transaction s \<noteq> None \<or> revision s \<noteq> update_revision u then answer (Inl UpdateBusy) s
             else publish (update_forward u) False (s\<lparr>transaction := Some (u, False)\<rparr>)))"

text \<open>The retained owner becomes the current one; all others of the transaction are released.\<close>

definition retire_transaction ::
  "'p \<Rightarrow> ('f, 'c) update_owner \<Rightarrow> ('f, 'c, 'p, 'e) update_system \<Rightarrow> ('f, 'c, 'p, 'e) update_system" where
  "retire_transaction plan owner s =
     answer (Inr ())
       (s\<lparr>control_plan := plan, current_owner := Some owner, transaction := None, revision := revision s + 1\<rparr>)"

definition accept_update :: "('f, 'c, 'p, 'e) update_system \<Rightarrow> ('f, 'c, 'p, 'e) update_system" where
  "accept_update s =
     (if mailbox s \<noteq> control_mailbox s then answer (Inl UpdateIncompatible) s
      else
        (case update_result s of
           Inl e \<Rightarrow> answer (Inl e) s
         | Inr _ \<Rightarrow>
             (case transaction s of
                None \<Rightarrow> answer (Inl UpdateBusy) s
              | Some (u, reversing) \<Rightarrow>
                  if reversing then answer (Inl UpdateBusy) s
                  else answer (Inr ()) (s\<lparr>control_plan := update_plan u\<rparr>))))"

definition finish_commit ::
  "('f, 'c, 'p) station_update \<Rightarrow> bool \<Rightarrow> ('f, 'c, 'p, 'e) update_system \<Rightarrow> ('f, 'c, 'p, 'e) update_system" where
  "finish_commit u reversing s =
     (case update_result s of
        Inl e \<Rightarrow> answer (Inl e) s
      | Inr _ \<Rightarrow>
          if reversing then answer (Inl UpdateBusy) s
          else retire_transaction (update_plan u) (update_forward u) s)"

definition finish_reverse ::
  "('f, 'c, 'p) station_update \<Rightarrow> ('f, 'c, 'p, 'e) update_system \<Rightarrow> ('f, 'c, 'p, 'e) update_system" where
  "finish_reverse u s =
     (case update_result s of
        Inl e \<Rightarrow> answer (Inl e) s
      | Inr _ \<Rightarrow> retire_transaction (update_previous u) (update_reverse u) s)"

definition finish_rollback ::
  "('f, 'c, 'p) station_update \<Rightarrow> bool \<Rightarrow> ('f, 'c, 'p, 'e) update_system \<Rightarrow> ('f, 'c, 'p, 'e) update_system" where
  "finish_rollback u reversing s =
     (if update_result s = Inl UpdatePending then answer (Inl UpdatePending) s
      else if reversing then finish_reverse u s
      else publish (update_reverse u) True (s\<lparr>transaction := Some (u, True)\<rparr>))"

definition finish_update ::
  "answers \<Rightarrow> bool \<Rightarrow> ('f, 'c, 'p, 'e) update_system \<Rightarrow> ('f, 'c, 'p, 'e) update_system" where
  "finish_update as commit s =
     (if mailbox s \<noteq> control_mailbox s then answer (Inl UpdateIncompatible) s
      else
        (let s = apply_stopped_update as s in
         case transaction s of
           None \<Rightarrow> answer (Inr ()) s
         | Some (u, reversing) \<Rightarrow>
             if commit then finish_commit u reversing s else finish_rollback u reversing s))"

text \<open>The steps of an operation that has published, in the order of the code.\<close>

definition control_next :: "answers \<Rightarrow> ('f, 'c, 'p, 'e) update_system \<Rightarrow> ('f, 'c, 'p, 'e) update_system" where
  "control_next as s =
     (case control_at s of
        ControlIdle \<Rightarrow> s
      | ControlPublish n owner reversing \<Rightarrow>
          if n = 0 then
            s\<lparr>receive_side := (receive_side s)\<lparr>side_result := 0\<rparr>, control_at := ControlPublish 1 owner reversing\<rparr>
          else if n = 1 then
            s\<lparr>transmit_side := (transmit_side s)\<lparr>side_result := 0\<rparr>, control_at := ControlPublish 2 owner reversing\<rparr>
          else if n = 2 then
            s\<lparr>receive_side := (receive_side s)\<lparr>side_slot := Some owner\<rparr>,
              control_at := ControlPublish 3 owner reversing\<rparr>
          else
            s\<lparr>transmit_side := (transmit_side s)\<lparr>side_slot := Some owner\<rparr>, control_at := ControlApply reversing\<rparr>
      | ControlApply reversing \<Rightarrow>
          (let s = apply_stopped_update as s in
           if reversing then s\<lparr>control_at := ControlRollback\<rparr> else answer (Inr ()) s)
      | ControlRollback \<Rightarrow>
          (case transaction s of None \<Rightarrow> s | Some (u, _) \<Rightarrow> finish_reverse u s))"

section \<open>Steps\<close>

text \<open>The owners that the control side keeps alive.\<close>

definition retained :: "('f, 'c, 'p, 'e) update_system \<Rightarrow> ('f, 'c) update_owner set" where
  "retained s =
     set_option (current_owner s) \<union>
     (case transaction s of None \<Rightarrow> {} | Some (u, _) \<Rightarrow> {update_forward u, update_reverse u})"

text \<open>
  A callback runs only while the station runs; \<open>stop\<close> waits for both. The owners of an update are fresh
  allocations, of two addresses that nothing alive has.
\<close>

inductive update_step :: "('f, 'c, 'p, 'e) update_system \<Rightarrow> ('f, 'c, 'p, 'e) update_system \<Rightarrow> bool" where
  step_receive: "running s \<Longrightarrow>
    update_step s (s\<lparr>receive_side := side_next (session s) adapter (receive_side s)\<rparr>)"
| step_transmit: "running s \<Longrightarrow>
    update_step s (s\<lparr>transmit_side := side_next (session s) adapter (transmit_side s)\<rparr>)"
| step_begin: "control_at s = ControlIdle \<Longrightarrow>
    owner_address (update_forward u) \<noteq> owner_address (update_reverse u) \<Longrightarrow>
    owner_address (update_forward u) \<notin> owner_address ` retained s \<Longrightarrow>
    owner_address (update_reverse u) \<notin> owner_address ` retained s \<Longrightarrow>
    update_step s (begin_update u s)"
| step_accept: "control_at s = ControlIdle \<Longrightarrow> update_step s (accept_update s)"
| step_finish: "control_at s = ControlIdle \<Longrightarrow> update_step s (finish_update as commit s)"
| step_control: "update_step s (control_next as s)"
| step_start: "control_at s = ControlIdle \<Longrightarrow> update_step s (s\<lparr>running := True\<rparr>)"
| step_stop: "control_at s = ControlIdle \<Longrightarrow> side_at (receive_side s) = AudioIdle \<Longrightarrow>
    side_at (transmit_side s) = AudioIdle \<Longrightarrow> update_step s (s\<lparr>running := False\<rparr>)"

definition side_new :: "('c \<times> bool) option \<Rightarrow> ('f, 'c) audio_side" where
  "side_new context =
     \<lparr>side_slot = None, side_result = 0, side_processing = None, side_at = AudioIdle,
      side_context = context, side_uses = None\<rparr>"

definition update_init :: "('f, 'c, 'p, 'e) update_system \<Rightarrow> bool" where
  "update_init s \<longleftrightarrow>
     (\<exists>context. receive_side s = side_new (Some context)) \<and> transmit_side s = side_new None \<and>
     current_owner s = None \<and> transaction s = None \<and> revision s = 0 \<and> \<not> running s \<and>
     control_at s = ControlIdle \<and> returned s = None"

end
