(* ===== verification/Station_Update_Safety.thy ===== *)
theory Station_Update_Safety
  imports Station_Update
begin

text \<open>
  What the live-update protocol guarantees in every interleaving: whatever a callback holds, borrows or
  may still take is kept alive by the control owner; without a transaction both callbacks use the current
  generation; and a stopped station settles an update at once.
\<close>

section \<open>The invariant of one side\<close>

text \<open>Nothing published and nothing under way; the side uses \<open>old\<close>.\<close>

definition quiet :: "('f, 'c) update_owner option \<Rightarrow> ('f, 'c) audio_side \<Rightarrow> bool" where
  "quiet old d \<longleftrightarrow> side_slot d = None \<and> side_at d = AudioIdle \<and> side_uses d = old \<and> side_processing d = old"

text \<open>The owner \<open>p\<close> is published, under way or acknowledged; before, the side used \<open>old\<close>.\<close>

definition served ::
  "('f, 'c) update_owner option \<Rightarrow> ('f, 'c) update_owner \<Rightarrow> ('f, 'c) audio_side \<Rightarrow> bool" where
  "served old p d \<longleftrightarrow>
     (case side_at d of
        AudioIdle \<Rightarrow>
          side_slot d = Some p \<and> side_result d = 0 \<and> side_uses d = old \<and> side_processing d = old \<or>
          side_slot d = None \<and> side_result d = 1 \<and> side_uses d = Some p \<and> side_processing d = Some p \<or>
          side_slot d = None \<and> side_result d = -1 \<and> side_uses d = old \<and> side_processing d = old
      | AudioApply q \<Rightarrow>
          q = p \<and> side_slot d = None \<and> side_result d = 0 \<and> side_uses d = old \<and> side_processing d = old
      | AudioProcessing q \<Rightarrow>
          q = p \<and> side_slot d = None \<and> side_result d = 0 \<and> side_uses d = Some p \<and> side_processing d = old
      | AudioAck ok \<Rightarrow>
          side_slot d = None \<and> side_result d = 0 \<and>
          side_uses d = (if ok then Some p else old) \<and> side_processing d = (if ok then Some p else old))"

lemma quiet_next: "side_slot d = None \<Longrightarrow> side_at d = AudioIdle \<Longrightarrow> side_next radio adapter d = d"
  by (simp add: side_next_def)

lemma served_next: "served old p d \<Longrightarrow> served old p (side_next radio adapter d)"
  by (auto simp: served_def side_next_def split: audio_pc.splits option.splits sum.splits)

lemma served_power: "served old p d \<Longrightarrow> served old p ((side_next radio adapter ^^ n) d)"
  by (induction n) (simp_all add: served_next)

lemma served_published:
  "quiet old d \<Longrightarrow> side_result d = 0 \<Longrightarrow> served old p (d\<lparr>side_slot := Some p\<rparr>)"
  by (simp add: quiet_def served_def)

lemma quiet_result: "quiet old (d\<lparr>side_result := r\<rparr>) \<longleftrightarrow> quiet old d"
  by (simp add: quiet_def)

text \<open>How many steps a callback needs at most until it has acknowledged.\<close>

definition side_steps :: "('f, 'c) audio_side \<Rightarrow> nat" where
  "side_steps d =
     (case side_at d of AudioIdle \<Rightarrow> if side_slot d = None then 0 else 4
      | AudioApply _ \<Rightarrow> 3 | AudioProcessing _ \<Rightarrow> 2 | AudioAck _ \<Rightarrow> 1)"

lemma side_steps_next: "served old p d \<Longrightarrow> side_steps (side_next radio adapter d) \<le> side_steps d - 1"
  by (auto simp: side_steps_def side_next_def served_def split: audio_pc.splits option.splits sum.splits)

lemma side_steps_power:
  "served old p d \<Longrightarrow> side_steps ((side_next radio adapter ^^ n) d) \<le> side_steps d - n"
proof (induction n)
  case (Suc n)
  then show ?case
    using side_steps_next [OF served_power [OF Suc.prems, of n radio adapter], of radio adapter] by simp
qed simp

lemma settled_side:
  "served old p d \<Longrightarrow> side_steps d = 0 \<longleftrightarrow> side_result d \<noteq> 0"
  by (auto simp: side_steps_def served_def split: audio_pc.splits if_splits)

lemma settled_quiet:
  assumes "served old p d" "side_result d \<noteq> 0"
  shows "quiet (side_uses d) d \<and> side_uses d \<in> {old, Some p} \<and> (0 \<le> side_result d \<longrightarrow> side_uses d = Some p)"
  using assms by (auto simp: served_def quiet_def split: audio_pc.splits if_splits)

lemma side_steps_le: "side_steps d \<le> 4"
  by (simp add: side_steps_def split: audio_pc.split)

lemma service_served: "served old p d \<Longrightarrow> served old p (side_service radio adapter d)"
  by (simp add: side_service_def served_power del: funpow.simps)

lemma service_quiet: "quiet old d \<Longrightarrow> side_service radio adapter d = d"
  by (simp add: side_service_def quiet_def)

lemma service_settles:
  assumes "served old p d" "side_at d = AudioIdle"
  shows "side_result (side_service radio adapter d) \<noteq> 0 \<and> side_at (side_service radio adapter d) = AudioIdle"
proof -
  have "side_steps (side_service radio adapter d) = 0"
    using side_steps_power [OF assms(1), of 4 radio adapter] side_steps_le [of d] assms
    by (auto simp: side_service_def side_steps_def served_def simp del: funpow.simps split: if_splits)
  then show ?thesis
    using settled_side [OF service_served [OF assms(1)], of radio adapter]
      settled_quiet [OF service_served [OF assms(1)], of radio adapter] by (auto simp: quiet_def)
qed

section \<open>The invariant of the system\<close>

definition update_target :: "('f, 'c, 'p) station_update \<Rightarrow> bool \<Rightarrow> ('f, 'c) update_owner" where
  "update_target u reversing = (if reversing then update_reverse u else update_forward u)"

definition former ::
  "('f, 'c) update_owner option \<Rightarrow> ('f, 'c, 'p) station_update \<Rightarrow> bool \<Rightarrow> ('f, 'c) update_owner option set" where
  "former current u reversing = (if reversing then {current, Some (update_forward u)} else {current})"

definition publishing ::
  "nat \<Rightarrow> ('f, 'c) update_owner \<Rightarrow> ('f, 'c) update_owner option \<Rightarrow> ('f, 'c) update_owner option \<Rightarrow>
   ('f, 'c) audio_side \<Rightarrow> ('f, 'c) audio_side \<Rightarrow> bool" where
  "publishing n p old_receive old_transmit rx tx \<longleftrightarrow>
     n \<le> 3 \<and> quiet old_transmit tx \<and> (2 \<le> n \<longrightarrow> side_result tx = 0) \<and>
     (if n = 3 then served old_receive p rx
      else quiet old_receive rx \<and> (1 \<le> n \<longrightarrow> side_result rx = 0))"

definition transaction_at ::
  "('f, 'c, 'p) station_update \<Rightarrow> bool \<Rightarrow> ('f, 'c) update_owner option \<Rightarrow> ('f, 'c) update_owner option \<Rightarrow>
   ('f, 'c) update_owner control_pc \<Rightarrow> ('f, 'c) audio_side \<Rightarrow> ('f, 'c) audio_side \<Rightarrow> bool" where
  "transaction_at u reversing old_receive old_transmit pc rx tx \<longleftrightarrow>
     (case pc of
        ControlPublish n q b \<Rightarrow>
          q = update_target u reversing \<and> b = reversing \<and>
          publishing n (update_target u reversing) old_receive old_transmit rx tx
      | ControlApply b \<Rightarrow>
          b = reversing \<and>
          served old_receive (update_target u reversing) rx \<and> served old_transmit (update_target u reversing) tx
      | ControlRollback \<Rightarrow>
          reversing \<and>
          served old_receive (update_target u reversing) rx \<and> served old_transmit (update_target u reversing) tx
      | ControlIdle \<Rightarrow>
          served old_receive (update_target u reversing) rx \<and> served old_transmit (update_target u reversing) tx)"

definition transaction_inv ::
  "('f, 'c, 'p) station_update \<Rightarrow> bool \<Rightarrow> ('f, 'c) update_owner option \<Rightarrow> ('f, 'c) update_owner control_pc \<Rightarrow>
   ('f, 'c) audio_side \<Rightarrow> ('f, 'c) audio_side \<Rightarrow> bool" where
  "transaction_inv u reversing current pc rx tx \<longleftrightarrow>
     (\<exists>old_receive \<in> former current u reversing. \<exists>old_transmit \<in> former current u reversing.
        transaction_at u reversing old_receive old_transmit pc rx tx)"

definition update_inv :: "('f, 'c, 'p, 'e) update_system \<Rightarrow> bool" where
  "update_inv s \<longleftrightarrow>
     (\<not> running s \<longrightarrow> side_at (receive_side s) = AudioIdle \<and> side_at (transmit_side s) = AudioIdle) \<and>
     (case transaction s of
        None \<Rightarrow> control_at s = ControlIdle \<and>
          quiet (current_owner s) (receive_side s) \<and> quiet (current_owner s) (transmit_side s)
      | Some (u, reversing) \<Rightarrow>
          transaction_inv u reversing (current_owner s) (control_at s) (receive_side s) (transmit_side s))"

lemma transaction_at_receive:
  "transaction_at u reversing r t pc rx tx \<Longrightarrow> transaction_at u reversing r t pc (side_next radio adapter rx) tx"
  by (cases pc) (auto simp: transaction_at_def publishing_def served_next quiet_def quiet_next)

lemma transaction_at_transmit:
  "transaction_at u reversing r t pc rx tx \<Longrightarrow> transaction_at u reversing r t pc rx (side_next radio adapter tx)"
  by (cases pc) (auto simp: transaction_at_def publishing_def served_next quiet_def quiet_next)

lemma transaction_inv_next:
  "transaction_inv u reversing current pc rx tx \<Longrightarrow> transaction_inv u reversing current pc (side_next radio adapter rx) tx"
  "transaction_inv u reversing current pc rx tx \<Longrightarrow> transaction_inv u reversing current pc rx (side_next radio adapter tx)"
  unfolding transaction_inv_def using transaction_at_receive transaction_at_transmit by fast+

section \<open>The steps of the control owner\<close>

lemma answer_inv:
  "update_inv s \<Longrightarrow> control_at s = ControlIdle \<Longrightarrow> update_inv (answer r s)"
  by (simp add: update_inv_def answer_def split: option.splits prod.splits)

text \<open>Before a publication both sides rest: each uses one of the former owners.\<close>

lemma publish_inv:
  assumes "quiet r (receive_side s)" "quiet t (transmit_side s)"
    and "r \<in> former (current_owner s) u b" "t \<in> former (current_owner s) u b"
    and "transaction s = Some (u, b)" "p = update_target u b"
  shows "update_inv (publish p b s)"
  using assms
  by (auto simp: update_inv_def publish_def transaction_inv_def transaction_at_def publishing_def quiet_def)

text \<open>Outside a publication both sides are served.\<close>

definition both_served :: "('f, 'c, 'p, 'e) update_system \<Rightarrow> ('f, 'c, 'p) station_update \<Rightarrow> bool \<Rightarrow> bool" where
  "both_served s u b \<longleftrightarrow>
     (\<exists>r \<in> former (current_owner s) u b. \<exists>t \<in> former (current_owner s) u b.
        served r (update_target u b) (receive_side s) \<and> served t (update_target u b) (transmit_side s))"

lemma both_served_inv:
  assumes "update_inv s" "transaction s = Some (u, b)" "\<forall>n p c. control_at s \<noteq> ControlPublish n p c"
  shows "both_served s u b"
  using assms
  by (cases "control_at s") (auto simp: update_inv_def transaction_inv_def transaction_at_def both_served_def Let_def)

lemma both_served_idle:
  assumes "both_served s u b" "transaction s = Some (u, b)" "control_at s = ControlIdle"
    "\<not> running s \<Longrightarrow> side_at (receive_side s) = AudioIdle \<and> side_at (transmit_side s) = AudioIdle"
  shows "update_inv s"
  using assms
  by (auto simp: update_inv_def transaction_inv_def transaction_at_def both_served_def Let_def)

lemma both_settled:
  assumes "both_served s u b" "update_result s \<noteq> Inl UpdatePending"
  shows "\<exists>r \<in> former (current_owner s) u b \<union> {Some (update_target u b)}.
    \<exists>t \<in> former (current_owner s) u b \<union> {Some (update_target u b)}.
      quiet r (receive_side s) \<and> quiet t (transmit_side s) \<and>
      (update_result s = Inr () \<longrightarrow> r = Some (update_target u b) \<and> t = Some (update_target u b))"
proof -
  obtain r t where rt: "r \<in> former (current_owner s) u b" "t \<in> former (current_owner s) u b"
      "served r (update_target u b) (receive_side s)" "served t (update_target u b) (transmit_side s)"
    using assms(1) by (auto simp: both_served_def)
  have nz: "side_result (receive_side s) \<noteq> 0" "side_result (transmit_side s) \<noteq> 0"
    using assms(2) by (auto simp: update_result_def Let_def split: if_splits)
  have "update_result s = Inr () \<Longrightarrow> 0 \<le> side_result (receive_side s) \<and> 0 \<le> side_result (transmit_side s)"
    by (auto simp: update_result_def Let_def split: if_splits)
  then show ?thesis
    using settled_quiet [OF rt(3) nz(1)] settled_quiet [OF rt(4) nz(2)] rt(1,2) by blast
qed

lemma retire_inv:
  assumes "quiet (Some p) (receive_side s)" "quiet (Some p) (transmit_side s)"
  shows "update_inv (retire_transaction plan p s)"
  using assms by (simp add: update_inv_def retire_transaction_def answer_def quiet_def)

lemma answer_served:
  assumes "update_inv s" "transaction s = Some (u, b)" "\<forall>n p c. control_at s \<noteq> ControlPublish n p c"
  shows "update_inv (answer r s)"
proof (rule both_served_idle [of _ u b])
  show "both_served (answer r s) u b"
    using both_served_inv [OF assms] by (simp add: both_served_def answer_def)
qed (use assms in \<open>auto simp: answer_def update_inv_def\<close>)

lemma finish_reverse_inv:
  assumes "update_inv s" "transaction s = Some (u, True)" "\<forall>n p c. control_at s \<noteq> ControlPublish n p c"
  shows "update_inv (finish_reverse u s)"
proof (cases "update_result s")
  case (Inl e)
  then show ?thesis using answer_served [OF assms] by (simp add: finish_reverse_def)
next
  case (Inr x)
  then show ?thesis
    using both_settled [OF both_served_inv [OF assms]] retire_inv [of "update_reverse u" s]
    by (auto simp: finish_reverse_def update_target_def)
qed

lemma finish_rollback_inv:
  assumes "update_inv s" "transaction s = Some (u, b)" "control_at s = ControlIdle"
  shows "update_inv (finish_rollback u b s)"
proof (cases "update_result s = Inl UpdatePending \<or> b")
  case True
  then show ?thesis
    using answer_served [OF assms(1,2)] finish_reverse_inv [OF assms(1)] assms(2,3)
    by (auto simp: finish_rollback_def)
next
  case False
  then obtain r t where "quiet r (receive_side s)" "quiet t (transmit_side s)"
      "r \<in> {current_owner s, Some (update_forward u)}" "t \<in> {current_owner s, Some (update_forward u)}"
    using both_settled [OF both_served_inv [OF assms(1,2)]] assms(3) by (auto simp: former_def update_target_def)
  then show ?thesis
    using False publish_inv [of r "s\<lparr>transaction := Some (u, True)\<rparr>" t u True "update_reverse u"]
    by (simp add: finish_rollback_def former_def update_target_def)
qed

lemma finish_commit_inv:
  assumes "update_inv s" "transaction s = Some (u, b)" "control_at s = ControlIdle"
  shows "update_inv (finish_commit u b s)"
proof (cases "update_result s = Inr () \<and> \<not> b")
  case True
  then show ?thesis
    using both_settled [OF both_served_inv [OF assms(1,2)]] assms(3) retire_inv [of "update_forward u" s]
    by (auto simp: finish_commit_def update_target_def)
next
  case False
  then show ?thesis
    using answer_served [OF assms(1,2)] assms(3) by (auto simp: finish_commit_def split: sum.splits)
qed

text \<open>A stopped station settles whatever is published.\<close>

lemma stopped_inv:
  assumes "update_inv s" "\<forall>n p c. control_at s \<noteq> ControlPublish n p c"
  shows "update_inv (apply_stopped_update as s)"
    and "\<not> running s \<Longrightarrow> transaction s \<noteq> None \<Longrightarrow> update_result (apply_stopped_update as s) \<noteq> Inl UpdatePending"
proof -
  have idle: "\<not> running s \<Longrightarrow> side_at (receive_side s) = AudioIdle \<and> side_at (transmit_side s) = AudioIdle"
    using assms(1) by (simp add: update_inv_def)
  show "update_inv (apply_stopped_update as s)"
  proof (cases "transaction s")
    case None
    then show ?thesis
      using assms by (auto simp: apply_stopped_update_def update_inv_def service_quiet)
  next
    case (Some ub)
    obtain u b where ub: "ub = (u, b)" by (cases ub)
    obtain r t where rt: "r \<in> former (current_owner s) u b" "t \<in> former (current_owner s) u b"
      "transaction_at u b r t (control_at s) (receive_side s) (transmit_side s)"
      using assms(1) Some ub by (auto simp: update_inv_def transaction_inv_def)
    then have "transaction_at u b r t (control_at s)
        (side_service (session s) x (receive_side s)) (side_service (session s) y (transmit_side s))" for x y
      using assms(2) service_served by (cases "control_at s") (auto simp: transaction_at_def)
    moreover have "\<not> running s \<Longrightarrow>
        side_at (side_service (session s) x (receive_side s)) = AudioIdle \<and>
        side_at (side_service (session s) y (transmit_side s)) = AudioIdle" for x y
      using rt(3) idle assms(2) service_settles [of r "update_target u b" "receive_side s" "session s" x]
        service_settles [of t "update_target u b" "transmit_side s" "session s" y]
      by (cases "control_at s") (auto simp: transaction_at_def)
    ultimately show ?thesis
      using assms(1) Some ub rt(1,2) by (auto simp: apply_stopped_update_def update_inv_def transaction_inv_def)
  qed
  assume "\<not> running s" "transaction s \<noteq> None"
  then obtain u b where "transaction s = Some (u, b)" by auto
  then obtain r t where "served r (update_target u b) (receive_side s)" "served t (update_target u b) (transmit_side s)"
    using both_served_inv [OF assms(1) _ assms(2)] by (auto simp: both_served_def)
  then show "update_result (apply_stopped_update as s) \<noteq> Inl UpdatePending"
    using idle \<open>\<not> running s\<close> service_settles [of r "update_target u b" "receive_side s" "session s" "fst as"]
      service_settles [of t "update_target u b" "transmit_side s" "session s" "snd as"]
    by (auto simp: apply_stopped_update_def update_result_def Let_def)
qed

lemma finish_inv:
  assumes "update_inv s" "control_at s = ControlIdle" shows "update_inv (finish_update as commit s)"
proof (cases "mailbox s = control_mailbox s")
  case True
  let ?t = "apply_stopped_update as s"
  have t: "update_inv ?t" "control_at ?t = ControlIdle"
    using stopped_inv(1) [OF assms(1)] assms(2) by (simp_all add: apply_stopped_update_def)
  then show ?thesis
    using True answer_inv [OF t] finish_commit_inv [OF t(1) _ t(2)] finish_rollback_inv [OF t(1) _ t(2)]
    by (auto simp: finish_update_def Let_def split: option.split)
next
  case False
  then show ?thesis using answer_inv [OF assms] by (simp add: finish_update_def)
qed

lemma begin_inv:
  assumes "update_inv s" "control_at s = ControlIdle" shows "update_inv (begin_update u s)"
proof -
  have "update_inv (publish (update_forward u) False (s\<lparr>transaction := Some (u, False)\<rparr>))"
    if "transaction s = None"
    using that assms(1)
    by (intro publish_inv [of "current_owner s" _ "current_owner s" u])
       (auto simp: update_inv_def former_def update_target_def)
  then show ?thesis
    using answer_inv [OF assms] by (cases "transaction s") (auto simp: begin_update_def split: sum.split)
qed

lemma accept_inv:
  assumes "update_inv s" "control_at s = ControlIdle" shows "update_inv (accept_update s)"
proof -
  have "update_inv (s\<lparr>control_plan := plan\<rparr>)" for plan
    using assms(1) by (simp add: update_inv_def split: option.splits prod.splits)
  then show ?thesis
    using answer_inv [OF assms] answer_inv [of "s\<lparr>control_plan := plan\<rparr>" for plan] assms(2)
    by (auto simp: accept_update_def split: sum.split option.split)
qed

lemma publish_step_inv:
  assumes "update_inv s" "control_at s = ControlPublish n p b"
  shows "update_inv (control_next as s)"
proof -
  obtain u c where t: "transaction s = Some (u, c)" using assms by (auto simp: update_inv_def split: option.splits)
  obtain r q where rq: "r \<in> former (current_owner s) u c" "q \<in> former (current_owner s) u c"
      "transaction_at u c r q (ControlPublish n p b) (receive_side s) (transmit_side s)"
    using assms t by (auto simp: update_inv_def transaction_inv_def)
  have "n \<le> 3" using rq(3) by (simp add: transaction_at_def publishing_def)
  then consider "n = 0" | "n = 1" | "n = 2" | "n = 3" by linarith
  then show ?thesis
  proof cases
    case 4
    have "served q p ((transmit_side s)\<lparr>side_slot := Some p\<rparr>)"
      using rq(3) 4 by (intro served_published) (simp_all add: transaction_at_def publishing_def)
    then show ?thesis
      using assms t rq 4 by (auto simp: update_inv_def control_next_def transaction_inv_def transaction_at_def publishing_def)
  next
    case 3
    have "served r p ((receive_side s)\<lparr>side_slot := Some p\<rparr>)"
      using rq(3) 3 by (intro served_published) (simp_all add: transaction_at_def publishing_def)
    then show ?thesis
      using assms t rq 3 by (auto simp: update_inv_def control_next_def transaction_inv_def transaction_at_def publishing_def)
  qed (use assms t rq in \<open>auto simp: update_inv_def control_next_def transaction_inv_def transaction_at_def
      publishing_def quiet_result\<close>)
qed

lemma control_next_inv:
  assumes "update_inv s" shows "update_inv (control_next as s)"
proof (cases "control_at s")
  case ControlIdle
  then show ?thesis using assms by (simp add: control_next_def)
next
  case (ControlPublish n p b)
  then show ?thesis using publish_step_inv [OF assms] by simp
next
  case (ControlApply b)
  let ?t = "apply_stopped_update as s"
  obtain u where t: "transaction s = Some (u, b)"
    using assms ControlApply
    by (auto simp: update_inv_def transaction_inv_def transaction_at_def split: option.splits)
  have inv: "update_inv ?t" and pc: "control_at ?t = ControlApply b" "transaction ?t = Some (u, b)"
    using stopped_inv(1) [OF assms] ControlApply t by (simp_all add: apply_stopped_update_def)
  have "update_inv (?t\<lparr>control_at := ControlRollback\<rparr>)" if b
    using inv pc that by (auto simp: update_inv_def transaction_inv_def transaction_at_def)
  then show ?thesis
    using answer_served [OF inv pc(2)] pc ControlApply by (auto simp: control_next_def Let_def)
next
  case ControlRollback
  then obtain u where "transaction s = Some (u, True)"
    using assms by (auto simp: update_inv_def transaction_inv_def transaction_at_def split: option.splits)
  then show ?thesis
    using finish_reverse_inv [OF assms] ControlRollback by (simp add: control_next_def)
qed

lemma side_step_inv:
  assumes "update_inv s" "running s"
  shows "update_inv (s\<lparr>receive_side := side_next (session s) adapter (receive_side s)\<rparr>)"
    and "update_inv (s\<lparr>transmit_side := side_next (session s) adapter (transmit_side s)\<rparr>)"
  using assms
  by (auto simp: update_inv_def quiet_def quiet_next intro: transaction_inv_next split: option.splits)

lemma update_step_inv:
  assumes "update_inv s" "update_step s s'" shows "update_inv s'"
  using assms(2)
proof cases
  case (step_start)
  then show ?thesis using assms(1) by (simp add: update_inv_def split: option.splits prod.splits)
next
  case (step_stop)
  then show ?thesis using assms(1) by (simp add: update_inv_def split: option.splits prod.splits)
qed (use assms(1) side_step_inv begin_inv accept_inv finish_inv control_next_inv in auto)

section \<open>Storage\<close>

text \<open>Every owner that a callback holds, borrows or may still take, or that is about to be published.\<close>

definition side_owners :: "('f, 'c) audio_side \<Rightarrow> ('f, 'c) update_owner set" where
  "side_owners d =
     set_option (side_slot d) \<union> set_option (side_processing d) \<union> set_option (side_uses d) \<union>
     (case side_at d of AudioApply p \<Rightarrow> {p} | AudioProcessing p \<Rightarrow> {p} | _ \<Rightarrow> {})"

definition referenced :: "('f, 'c, 'p, 'e) update_system \<Rightarrow> ('f, 'c) update_owner set" where
  "referenced s =
     side_owners (receive_side s) \<union> side_owners (transmit_side s) \<union>
     (case control_at s of ControlPublish _ p _ \<Rightarrow> {p} | _ \<Rightarrow> {})"

lemma quiet_owners: "quiet old d \<Longrightarrow> side_owners d = set_option old"
  by (simp add: quiet_def side_owners_def)

lemma served_owners: "served old p d \<Longrightarrow> side_owners d \<subseteq> insert p (set_option old)"
  by (auto simp: served_def side_owners_def split: audio_pc.splits if_splits)

lemma former_retained:
  "transaction s = Some (u, b) \<Longrightarrow> r \<in> former (current_owner s) u b \<Longrightarrow>
   insert (update_target u b) (set_option r) \<subseteq> retained s"
  by (auto simp: former_def update_target_def retained_def split: if_splits)

lemma inv_referenced:
  assumes "update_inv s" shows "referenced s \<subseteq> retained s"
proof (cases "transaction s")
  case None
  then show ?thesis
    using assms by (auto simp: update_inv_def referenced_def retained_def quiet_owners)
next
  case (Some ub)
  obtain u b where ub: "transaction s = Some (u, b)" using Some by (cases ub) simp
  obtain r t where rt: "r \<in> former (current_owner s) u b" "t \<in> former (current_owner s) u b"
      "transaction_at u b r t (control_at s) (receive_side s) (transmit_side s)"
    using assms ub by (auto simp: update_inv_def transaction_inv_def)
  have "side_owners (receive_side s) \<subseteq> insert (update_target u b) (set_option r)"
    "side_owners (transmit_side s) \<subseteq> insert (update_target u b) (set_option t)"
    using rt(3) served_owners [of r "update_target u b" "receive_side s"]
      served_owners [of t "update_target u b" "transmit_side s"]
      quiet_owners [of r "receive_side s"] quiet_owners [of t "transmit_side s"]
    by (cases "control_at s"; auto simp: transaction_at_def publishing_def split: if_splits)+
  moreover have "(case control_at s of ControlPublish _ p _ \<Rightarrow> {p} | _ \<Rightarrow> {}) \<subseteq> {update_target u b}"
    using rt(3) by (auto simp: transaction_at_def split: control_pc.splits)
  ultimately show ?thesis
    using former_retained [OF ub rt(1)] former_retained [OF ub rt(2)] unfolding referenced_def by blast
qed

text \<open>The tables of a callback are those of the owner it uses.\<close>

definition context_inv :: "('f, 'c) audio_side \<Rightarrow> bool" where
  "context_inv d \<longleftrightarrow>
     (case (side_context d, side_uses d) of
        (Some c, Some p) \<Rightarrow> c = (owner_ctcss p, owner_voter p)
      | _ \<Rightarrow> True)"

lemma context_next: "context_inv d \<Longrightarrow> context_inv (side_next radio adapter d)"
  by (auto simp: context_inv_def side_next_def split: audio_pc.splits option.splits sum.splits)

lemma context_service: "context_inv d \<Longrightarrow> context_inv (side_service radio adapter d)"
proof -
  have "context_inv d \<Longrightarrow> context_inv ((side_next radio adapter ^^ n) d)" for n
    by (induction n) (simp_all add: context_next)
  then show "context_inv d \<Longrightarrow> context_inv (side_service radio adapter d)"
    by (simp add: side_service_def del: funpow.simps)
qed

lemma context_fields [simp]:
  "context_inv (d\<lparr>side_slot := x\<rparr>) = context_inv d" "context_inv (d\<lparr>side_result := r\<rparr>) = context_inv d"
  by (simp_all add: context_inv_def)

definition storage_inv :: "('f, 'c, 'p, 'e) update_system \<Rightarrow> bool" where
  "storage_inv s \<longleftrightarrow>
     inj_on owner_address (retained s) \<and> context_inv (receive_side s) \<and> context_inv (transmit_side s)"

lemma storage_parts:
  assumes "storage_inv s" "retained s' \<subseteq> retained s"
    "context_inv (receive_side s')" "context_inv (transmit_side s')"
  shows "storage_inv s'"
  using assms inj_on_subset by (auto simp: storage_inv_def)

lemma storage_answer: "storage_inv (answer r s) = storage_inv s"
  by (simp add: storage_inv_def answer_def retained_def)

lemma storage_stopped: "storage_inv s \<Longrightarrow> storage_inv (apply_stopped_update as s)"
  by (auto simp: storage_inv_def apply_stopped_update_def retained_def context_service)

lemma storage_retire:
  "storage_inv s \<Longrightarrow> p \<in> retained s \<Longrightarrow> storage_inv (retire_transaction plan p s)"
  by (rule storage_parts [of s]) (auto simp: retire_transaction_def answer_def storage_inv_def retained_def)

lemma storage_reverse:
  assumes "storage_inv s" "transaction s = Some (u, b)" shows "storage_inv (finish_reverse u s)"
  using assms by (auto simp: finish_reverse_def storage_answer retained_def intro!: storage_retire split: sum.split)

lemma storage_finish:
  assumes "storage_inv s" shows "storage_inv (finish_update as commit s)"
proof -
  let ?t = "apply_stopped_update as s"
  have "storage_inv (publish p True (?t\<lparr>transaction := Some (u, True)\<rparr>))" if "transaction ?t = Some (u, b)" for p u b
    using storage_stopped [OF assms, of as] that
    by (auto intro: storage_parts simp: storage_inv_def publish_def retained_def)
  then show ?thesis
    using assms storage_stopped [OF assms, of as] storage_reverse [of ?t]
    by (auto simp: finish_update_def finish_commit_def finish_rollback_def storage_answer Let_def retained_def
        intro!: storage_retire split: option.split sum.split)
qed

lemma storage_begin:
  assumes "storage_inv s" "owner_address (update_forward u) \<noteq> owner_address (update_reverse u)"
    "owner_address (update_forward u) \<notin> owner_address ` retained s"
    "owner_address (update_reverse u) \<notin> owner_address ` retained s"
  shows "storage_inv (begin_update u s)"
proof -
  have "storage_inv (publish (update_forward u) False (s\<lparr>transaction := Some (u, False)\<rparr>))" if "transaction s = None"
    using assms that by (auto simp: storage_inv_def publish_def retained_def inj_on_def)
  then show ?thesis
    using assms(1) by (cases "transaction s") (auto simp: begin_update_def storage_answer split: sum.split)
qed

lemma storage_accept: "storage_inv s \<Longrightarrow> storage_inv (accept_update s)"
  by (auto simp: accept_update_def storage_answer split: sum.split option.split)
     (simp add: storage_inv_def retained_def)

lemma storage_sides:
  assumes "storage_inv s" "context_inv (receive_side s')" "context_inv (transmit_side s')"
    "current_owner s' = current_owner s" "transaction s' = transaction s"
  shows "storage_inv s'"
  using assms by (simp add: storage_inv_def retained_def)

lemma storage_control:
  assumes "storage_inv s" shows "storage_inv (control_next as s)"
proof (cases "control_at s")
  case (ControlPublish n p b)
  then show ?thesis
    using assms by (auto simp: control_next_def storage_inv_def retained_def)
next
  case (ControlApply b)
  then show ?thesis
    using storage_stopped [OF assms, of as]
    by (auto simp: control_next_def Let_def storage_answer) (simp add: storage_inv_def retained_def)
next
  case ControlRollback
  then show ?thesis
    using assms storage_reverse [OF assms] by (auto simp: control_next_def split: option.split)
qed (use assms in \<open>simp add: control_next_def\<close>)

lemma update_step_storage:
  assumes "storage_inv s" "update_step s s'" shows "storage_inv s'"
proof -
  have contexts: "context_inv (receive_side s)" "context_inv (transmit_side s)"
    using assms(1) by (simp_all add: storage_inv_def)
  from assms(2) show ?thesis
  proof cases
    case (step_receive adapter)
    then show ?thesis using contexts by (auto intro!: storage_sides [OF assms(1)] context_next)
  next
    case (step_transmit adapter)
    then show ?thesis using contexts by (auto intro!: storage_sides [OF assms(1)] context_next)
  next
    case step_start
    then show ?thesis using contexts by (auto intro!: storage_sides [OF assms(1)])
  next
    case step_stop
    then show ?thesis using contexts by (auto intro!: storage_sides [OF assms(1)])
  qed (use assms(1) storage_begin storage_accept storage_finish storage_control in blast)+
qed

lemma update_init_inv: "update_init s \<Longrightarrow> update_inv s \<and> storage_inv s"
  by (auto simp: update_init_def update_inv_def storage_inv_def retained_def quiet_def side_new_def context_inv_def)

interpretation update_protocol: transition_system update_init update_step "\<lambda>s. update_inv s \<and> storage_inv s"
  by unfold_locales (use update_init_inv update_step_inv update_step_storage in blast)+

section \<open>Progress\<close>

text \<open>A sequence of callback steps: which callback, and the adapter's answer.\<close>

fun audio_run :: "(bool \<times> (radio_error, unit) result) list \<Rightarrow> ('f, 'c, 'p, 'e) update_system \<Rightarrow> ('f, 'c, 'p, 'e) update_system" where
  "audio_run [] s = s"
| "audio_run ((receiving, adapter) # ms) s =
     audio_run ms
       (if receiving then s\<lparr>receive_side := side_next (session s) adapter (receive_side s)\<rparr>
        else s\<lparr>transmit_side := side_next (session s) adapter (transmit_side s)\<rparr>)"

lemma audio_run_served:
  assumes "served r p (receive_side s)" "served t p (transmit_side s)"
  shows "served r p (receive_side (audio_run ms s)) \<and> served t p (transmit_side (audio_run ms s)) \<and>
    side_steps (receive_side (audio_run ms s)) \<le> side_steps (receive_side s) - length (filter fst ms) \<and>
    side_steps (transmit_side (audio_run ms s)) \<le> side_steps (transmit_side s) - length (filter (Not \<circ> fst) ms)"
  using assms
proof (induction ms s rule: audio_run.induct)
  case (2 receiving adapter ms s)
  show ?case
  proof (cases receiving)
    case True
    then show ?thesis
      using 2(1) served_next [OF 2(2), of "session s" adapter] side_steps_next [OF 2(2), of "session s" adapter] 2(3)
      by auto
  next
    case False
    then show ?thesis
      using 2(1) served_next [OF 2(3), of "session s" adapter] side_steps_next [OF 2(3), of "session s" adapter] 2(2)
      by auto
  qed
qed simp

lemma settled_result:
  assumes "served r p (receive_side s)" "served t p (transmit_side s)"
    "side_steps (receive_side s) = 0" "side_steps (transmit_side s) = 0"
  shows "update_result s \<noteq> Inl UpdatePending"
  using assms settled_side by (auto simp: update_result_def Let_def)

text \<open>The remaining steps of a control operation.\<close>

definition control_steps :: "('f, 'c) update_owner control_pc \<Rightarrow> nat" where
  "control_steps pc =
     (case pc of ControlIdle \<Rightarrow> 0 | ControlPublish n _ _ \<Rightarrow> 6 - min n 3 | ControlApply _ \<Rightarrow> 2 | ControlRollback \<Rightarrow> 1)"

definition settled_answer :: "('f, 'c, 'p, 'e) update_system \<Rightarrow> bool" where
  "settled_answer s \<longleftrightarrow>
     (case control_at s of
        ControlIdle \<Rightarrow> returned s \<noteq> None \<and> returned s \<noteq> Some (Inl UpdatePending)
      | ControlRollback \<Rightarrow> update_result s \<noteq> Inl UpdatePending
      | _ \<Rightarrow> True)"

lemma answer_settled: "settled_answer (answer r s) \<longleftrightarrow> r \<noteq> Inl UpdatePending"
  by (simp add: settled_answer_def answer_def)

lemma publish_settled: "settled_answer (publish p b s)"
  by (simp add: settled_answer_def publish_def)

lemma reverse_settled: "update_result s \<noteq> Inl UpdatePending \<Longrightarrow> settled_answer (finish_reverse u s)"
  by (auto simp: finish_reverse_def answer_settled retire_transaction_def split: sum.split)

lemma finish_reverse_idle: "control_at (finish_reverse u s) = ControlIdle"
  by (auto simp: finish_reverse_def retire_transaction_def answer_def split: sum.split)

lemma operation_running [simp]:
  "running (answer r s) = running s" "running (publish p b s) = running s"
  "running (retire_transaction plan p s) = running s" "running (apply_stopped_update as s) = running s"
  "running (finish_reverse u s) = running s"
  by (simp_all add: answer_def publish_def retire_transaction_def apply_stopped_update_def finish_reverse_def
      split: sum.split)

lemma finish_running: "running (finish_update as commit s) = running s"
  by (simp add: finish_update_def finish_commit_def finish_rollback_def Let_def split: option.split sum.split)

lemma control_next_running: "running (control_next as s) = running s"
  by (auto simp: control_next_def apply_stopped_update_def answer_def finish_reverse_def retire_transaction_def Let_def
      split: control_pc.split option.split sum.split)

lemma control_next_settles:
  assumes "update_inv s" "\<not> running s" "settled_answer s"
  shows "settled_answer (control_next as s) \<and> control_steps (control_at (control_next as s)) \<le> control_steps (control_at s) - 1"
proof (cases "control_at s")
  case ControlIdle
  then show ?thesis using assms(3) by (simp add: control_next_def control_steps_def)
next
  case (ControlPublish n p b)
  then show ?thesis by (auto simp: control_next_def control_steps_def settled_answer_def)
next
  case (ControlApply b)
  then have "transaction s \<noteq> None" using assms(1) by (cases "transaction s") (auto simp: update_inv_def)
  then have "update_result (apply_stopped_update as s) \<noteq> Inl UpdatePending"
    using stopped_inv(2) [OF assms(1) _ assms(2)] ControlApply by simp
  then show ?thesis
    using ControlApply
    by (auto simp: control_next_def Let_def settled_answer_def control_steps_def answer_def update_result_def)
next
  case ControlRollback
  then obtain u b where "transaction s = Some (u, b)" using assms(1) by (auto simp: update_inv_def split: option.splits)
  then show ?thesis
    using ControlRollback assms(3) reverse_settled [of s u] finish_reverse_idle [of u s]
    by (simp add: control_next_def control_steps_def settled_answer_def)
qed

lemma control_power_settles:
  assumes "update_inv s" "\<not> running s" "settled_answer s"
  shows "update_inv ((control_next as ^^ n) s) \<and> \<not> running ((control_next as ^^ n) s) \<and>
    settled_answer ((control_next as ^^ n) s) \<and>
    control_steps (control_at ((control_next as ^^ n) s)) \<le> control_steps (control_at s) - n"
proof (induction n)
  case (Suc n)
  then show ?case
    using control_next_settles [of "(control_next as ^^ n) s" as] control_next_inv [of "(control_next as ^^ n) s" as]
      control_next_running [of as "(control_next as ^^ n) s"] by auto
qed (use assms in simp)

lemma control_settled:
  assumes "update_inv s" "\<not> running s" "settled_answer s"
  shows "control_at ((control_next as ^^ 6) s) = ControlIdle \<and> returned ((control_next as ^^ 6) s) \<noteq> None \<and>
    returned ((control_next as ^^ 6) s) \<noteq> Some (Inl UpdatePending)"
proof -
  have "control_steps (control_at s) \<le> 6" by (simp add: control_steps_def split: control_pc.split)
  then have "control_steps (control_at ((control_next as ^^ 6) s)) = 0" and s: "settled_answer ((control_next as ^^ 6) s)"
    using control_power_settles [OF assms, of 6 as] by simp_all
  then have "control_at ((control_next as ^^ 6) s) = ControlIdle"
    by (simp add: control_steps_def split: control_pc.splits)
  then show ?thesis using s by (simp add: settled_answer_def)
qed

lemma finish_settles:
  assumes "update_inv s" "\<not> running s" "control_at s = ControlIdle"
  shows "settled_answer (finish_update as commit s)"
proof -
  let ?t = "apply_stopped_update as s"
  have "update_result ?t \<noteq> Inl UpdatePending" if "transaction ?t \<noteq> None"
    using stopped_inv(2) [OF assms(1) _ assms(2)] that assms(2,3) by (simp add: apply_stopped_update_def)
  then show ?thesis
    using reverse_settled [of ?t]
    by (cases "transaction ?t"; cases commit; cases "update_result ?t")
       (auto simp: finish_update_def finish_commit_def finish_rollback_def Let_def answer_settled
        retire_transaction_def publish_settled)
qed

section \<open>An example\<close>

definition sample_owner :: "nat \<Rightarrow> (unit, nat) update_owner" where
  "sample_owner a =
     \<lparr>owner_address = a, owner_provider = (), owner_receive_frames = 960, owner_transmit_frames = 960,
      owner_ctcss = a, owner_voter = False\<rparr>"

definition sample_update :: "(unit, nat, nat) station_update" where
  "sample_update =
     \<lparr>update_plan = 1, update_previous = 0, update_forward = sample_owner 7, update_reverse = sample_owner 8,
      update_source = 0, update_revision = 0\<rparr>"

definition sample_side :: "(nat \<times> bool) option \<Rightarrow> nat option \<Rightarrow> int \<Rightarrow> nat option \<Rightarrow> (unit, nat) audio_side" where
  "sample_side context slot result used =
     \<lparr>side_slot = map_option sample_owner slot, side_result = result, side_processing = map_option sample_owner used,
      side_at = AudioIdle, side_context = context, side_uses = map_option sample_owner used\<rparr>"

definition sample ::
  "bool \<Rightarrow> (unit, nat) audio_side \<Rightarrow> (unit, nat) audio_side \<Rightarrow> bool \<Rightarrow> (unit, nat) update_owner control_pc \<Rightarrow>
   (unit station_update_error, unit) result option \<Rightarrow> (unit, nat, nat, unit) update_system" where
  "sample live rx tx begun pc res =
     \<lparr>mailbox = 0, control_mailbox = 0,
      session = \<lparr>session_provider = (), session_receive_frames = 960, session_transmit_frames = 960\<rparr>,
      receive_side = rx, transmit_side = tx, current_owner = None,
      transaction = (if begun then Some (sample_update, False) else None), revision = 0, control_plan = 0,
      running = live, control_at = pc, returned = res\<rparr>"

definition sample_system :: "bool \<Rightarrow> (unit, nat, nat, unit) update_system" where
  "sample_system live =
     sample live (sample_side (Some (0, False)) None 0 None) (sample_side None None 0 None) False ControlIdle None"

abbreviation accepted :: answers where "accepted \<equiv> (Inr (), Inr ())"

definition sample_published :: "bool \<Rightarrow> (unit, nat, nat, unit) update_system" where
  "sample_published live =
     control_next accepted (control_next accepted (control_next accepted (control_next accepted (control_next accepted
       (begin_update sample_update (sample_system live))))))"

lemma reachable_control:
  "reachable update_init update_step s \<Longrightarrow> reachable update_init update_step (control_next as s)"
  by (auto intro: reachable_step step_control)

lemma sample_published_reachable: "reachable update_init update_step (sample_published live)"
proof -
  have "reachable update_init update_step (sample_system False)"
    by (rule reachable_init) (auto simp: update_init_def sample_system_def sample_def sample_side_def side_new_def)
  moreover have "update_step (sample_system False) (sample_system True)"
    using step_start [of "sample_system False"] by (simp add: sample_system_def sample_def)
  ultimately have "reachable update_init update_step (sample_system live)"
    by (cases live) (auto intro: reachable_step)
  then have "reachable update_init update_step (begin_update sample_update (sample_system live))"
    by (rule reachable_step)
       (auto intro!: step_begin simp: sample_system_def sample_def sample_update_def sample_owner_def retained_def)
  then show ?thesis unfolding sample_published_def by (intro reachable_control)
qed

abbreviation (input) quiet_receive where "quiet_receive \<equiv> sample_side (Some (0, False)) None 0 None"
abbreviation (input) quiet_transmit where "quiet_transmit \<equiv> sample_side None None 0 None"

lemma sample_begun:
  "begin_update sample_update (sample_system live) =
     sample live quiet_receive quiet_transmit True (ControlPublish 0 (sample_owner 7) False) None"
  by (simp add: begin_update_def publish_def sample_system_def sample_def sample_update_def sample_owner_def
      validate_update_def)

lemma sample_publish:
  "control_next as (sample live quiet_receive tx True (ControlPublish 0 p b) res) =
     sample live quiet_receive tx True (ControlPublish 1 p b) res"
  "control_next as (sample live rx quiet_transmit True (ControlPublish 1 p b) res) =
     sample live rx quiet_transmit True (ControlPublish 2 p b) res"
  "control_next as (sample live quiet_receive tx True (ControlPublish 2 (sample_owner 7) b) res) =
     sample live (sample_side (Some (0, False)) (Some 7) 0 None) tx True (ControlPublish 3 (sample_owner 7) b) res"
  "control_next as (sample live rx quiet_transmit True (ControlPublish 3 (sample_owner 7) b) res) =
     sample live rx (sample_side None (Some 7) 0 None) True (ControlApply b) res"
  by (simp_all add: control_next_def sample_def sample_side_def)

lemma sample_service:
  "side_service \<lparr>session_provider = (), session_receive_frames = 960, session_transmit_frames = 960\<rparr> (Inr ())
     (sample_side context (Some 7) 0 None) =
   sample_side (map_option (\<lambda>_. (7, False)) context) None 1 (Some 7)"
  by (simp add: side_service_def numeral_eq_Suc side_next_def sample_side_def apply_update_def validate_update_def
      sample_owner_def)

lemma sample_apply:
  "control_next accepted (sample live (sample_side (Some (0, False)) (Some 7) 0 None) (sample_side None (Some 7) 0 None)
       True (ControlApply False) res) =
     (if live
      then sample live (sample_side (Some (0, False)) (Some 7) 0 None) (sample_side None (Some 7) 0 None) True ControlIdle
             (Some (Inr ()))
      else sample live (sample_side (Some (7, False)) None 1 (Some 7)) (sample_side None None 1 (Some 7)) True ControlIdle
             (Some (Inr ())))"
  by (simp add: control_next_def apply_stopped_update_def sample_def sample_service answer_def)

lemma sample_published_eq:
  "sample_published live =
     (if live
      then sample live (sample_side (Some (0, False)) (Some 7) 0 None) (sample_side None (Some 7) 0 None) True ControlIdle
             (Some (Inr ()))
      else sample live (sample_side (Some (7, False)) None 1 (Some 7)) (sample_side None None 1 (Some 7)) True ControlIdle
             (Some (Inr ())))"
  by (simp only: sample_published_def sample_begun sample_publish sample_apply)

lemma sample_published_facts:
  "control_at (sample_published live) = ControlIdle" "transaction (sample_published live) = Some (sample_update, False)"
  "running (sample_published live) = live" "current_owner (sample_published live) = None"
  "side_slot (receive_side (sample_published True)) = Some (sample_owner 7)"
  by (simp_all add: sample_published_eq sample_def sample_side_def)

section \<open>Properties\<close>

text \<open>C5: In every interleaving of the two callbacks and the control owner, every generation that a callback
  holds, borrows, has handed to the loudness reader, or may still take is kept alive by the control owner,
  and no two retained generations share their storage: no callback ever touches released memory.\<close>

theorem update_storage_safe:
  assumes "reachable update_init update_step s"
  shows "referenced s \<subseteq> retained s \<and> inj_on owner_address (retained s)"
  using update_protocol.reachable_inv [OF assms] inv_referenced [of s] by (simp add: storage_inv_def)

lemma update_storage_safe_witness:
  "sample_owner 7 \<in> referenced (sample_published True) \<and> referenced (sample_published True) \<subseteq> retained (sample_published True)"
  using update_storage_safe [OF sample_published_reachable [of True]]
  by (auto simp: referenced_def side_owners_def sample_published_facts)

text \<open>C6: While no update is under way, both callbacks run the current generation, the loudness readers
  read it, and the receive callback has its tables. During an update each callback runs the current
  generation, the new one, or, while rolling back, the restored one, and nothing else.\<close>

theorem update_agreement:
  assumes "reachable update_init update_step s"
  shows "case transaction s of
      None \<Rightarrow>
        side_uses (receive_side s) = current_owner s \<and> side_uses (transmit_side s) = current_owner s \<and>
        side_processing (receive_side s) = current_owner s \<and> side_processing (transmit_side s) = current_owner s \<and>
        context_inv (receive_side s)
    | Some (u, reversing) \<Rightarrow>
        {side_uses (receive_side s), side_uses (transmit_side s)} \<subseteq>
          {current_owner s, Some (update_forward u)} \<union> (if reversing then {Some (update_reverse u)} else {})"
proof (cases "transaction s")
  case None
  then show ?thesis
    using update_protocol.reachable_inv [OF assms] by (auto simp: update_inv_def storage_inv_def quiet_def)
next
  case (Some ub)
  obtain u b where ub: "ub = (u, b)" by (cases ub)
  have "set_option (side_uses (receive_side s)) \<union> set_option (side_uses (transmit_side s)) \<subseteq> referenced s"
    by (auto simp: referenced_def side_owners_def)
  obtain r t where "r \<in> former (current_owner s) u b" "t \<in> former (current_owner s) u b"
      "transaction_at u b r t (control_at s) (receive_side s) (transmit_side s)"
    using update_protocol.reachable_inv [OF assms] Some ub by (auto simp: update_inv_def transaction_inv_def)
  moreover have "side_uses d \<in> {old, Some p}" if "served old p d \<or> quiet old d" for old p and d :: "('a, 'b) audio_side"
    using that by (auto simp: served_def quiet_def split: audio_pc.splits if_splits)
  ultimately show ?thesis
    using Some ub by (cases "control_at s") (auto simp: transaction_at_def publishing_def former_def update_target_def split: if_splits)
qed

lemma update_agreement_witness:
  "{side_uses (receive_side (sample_published True)), side_uses (transmit_side (sample_published True))}
     \<subseteq> {None, Some (sample_owner 7)}"
  using update_agreement [OF sample_published_reachable [of True]]
  by (simp add: sample_published_facts sample_update_def)

text \<open>C7: Committing is all or nothing: either an error is returned and plan, generation, transaction and
  revision stay as they are, or success, and then both callbacks have adopted the new generation, which is
  now the current one with its plan; without an update there is nothing to do.\<close>

theorem commit_outcome:
  assumes "reachable update_init update_step s" "control_at s = ControlIdle"
  shows "let t = finish_update as True s in
    case returned t of
      Some (Inr _) \<Rightarrow>
        transaction t = None \<and> side_uses (receive_side t) = current_owner t \<and>
        side_uses (transmit_side t) = current_owner t \<and>
        (case transaction s of
           None \<Rightarrow> control_plan t = control_plan s \<and> current_owner t = current_owner s \<and> revision t = revision s
         | Some (u, reversing) \<Rightarrow>
             \<not> reversing \<and> control_plan t = update_plan u \<and> current_owner t = Some (update_forward u) \<and>
             revision t = revision s + 1)
    | Some (Inl _) \<Rightarrow>
        control_plan t = control_plan s \<and> current_owner t = current_owner s \<and>
        transaction t = transaction s \<and> revision t = revision s
    | None \<Rightarrow> False"
proof -
  let ?t = "finish_update as True s"
  have inv: "update_inv ?t"
    using update_protocol.reachable_inv [OF assms(1)] finish_inv assms(2) by blast
  have uses: "transaction ?t = None \<Longrightarrow>
      side_uses (receive_side ?t) = current_owner ?t \<and> side_uses (transmit_side ?t) = current_owner ?t"
    using inv by (simp add: update_inv_def quiet_def)
  let ?a = "apply_stopped_update as s"
  have same: "control_plan ?a = control_plan s" "current_owner ?a = current_owner s"
    "transaction ?a = transaction s" "revision ?a = revision s"
    by (simp_all add: apply_stopped_update_def)
  consider "mailbox s \<noteq> control_mailbox s" | "mailbox s = control_mailbox s" "transaction s = None"
    | u b where "mailbox s = control_mailbox s" "transaction s = Some (u, b)"
    by (cases "transaction s") auto
  then show ?thesis
  proof cases
    case 3
    have t: "?t = finish_commit u b ?a" using 3 same by (simp add: finish_update_def)
    show ?thesis
      using uses 3 same unfolding t
      by (cases "update_result ?a"; cases b) (simp_all add: finish_commit_def answer_def retire_transaction_def Let_def)
  qed (use uses same in \<open>simp_all add: finish_update_def answer_def Let_def\<close>)
qed

lemma commit_outcome_witness:
  "current_owner (finish_update accepted True (sample_published False)) = Some (sample_owner 7)"
proof -
  have "returned (finish_update accepted True (sample_published False)) = Some (Inr ())"
    by (simp add: finish_update_def finish_commit_def apply_stopped_update_def side_service_def sample_published_eq
        sample_def sample_side_def update_result_def retire_transaction_def answer_def Let_def)
  then show ?thesis
    using commit_outcome [OF sample_published_reachable [of False], of accepted]
    by (simp add: sample_published_facts sample_update_def Let_def)
qed

text \<open>On a stopped station an update never waits: finishing it, either way, returns within six more
  steps, and with another result than pending.\<close>

theorem stopped_update_settles:
  assumes "reachable update_init update_step s" "control_at s = ControlIdle" "\<not> running s"
  shows "let t = (control_next as' ^^ 6) (finish_update as commit s) in
    control_at t = ControlIdle \<and> returned t \<noteq> None \<and> returned t \<noteq> Some (Inl UpdatePending)"
proof -
  have inv: "update_inv s" using update_protocol.reachable_inv [OF assms(1)] by simp
  show ?thesis
    using control_settled [OF finish_inv [OF inv assms(2)] _ finish_settles [OF inv assms(3,2)]] assms(3)
    by (simp add: Let_def finish_running)
qed

lemma stopped_update_settles_witness:
  "control_at ((control_next accepted ^^ 6) (finish_update accepted False (sample_published False))) = ControlIdle"
  using stopped_update_settles [OF sample_published_reachable [of False], of accepted accepted False]
  by (simp add: sample_published_facts Let_def)

text \<open>Four steps of each callback, however they interleave, settle a published update: its result is
  then no longer pending.\<close>

theorem callbacks_acknowledge:
  assumes "reachable update_init update_step s" "control_at s = ControlIdle" "transaction s \<noteq> None"
    and "4 \<le> length (filter fst ms)" "4 \<le> length (filter (Not \<circ> fst) ms)"
  shows "update_result (audio_run ms s) \<noteq> Inl UpdatePending"
proof -
  obtain u b where t: "transaction s = Some (u, b)" using assms(3) by auto
  obtain r t where served: "served r (update_target u b) (receive_side s)" "served t (update_target u b) (transmit_side s)"
    using both_served_inv [OF _ t] update_protocol.reachable_inv [OF assms(1)] assms(2) by (auto simp: both_served_def)
  have "side_steps (receive_side s) \<le> 4" "side_steps (transmit_side s) \<le> 4" by (rule side_steps_le)+
  then show ?thesis
    using audio_run_served [OF served, of ms] assms(4,5)
      settled_result [of r "update_target u b" "audio_run ms s" t] by simp
qed

lemma callbacks_acknowledge_witness:
  "update_result (audio_run (replicate 4 (True, Inr ()) @ replicate 4 (False, Inl Unsupported)) (sample_published True))
     \<noteq> Inl UpdatePending"
  by (rule callbacks_acknowledge [OF sample_published_reachable]) (simp_all add: sample_published_facts)

end
