(* ===== verification/Reload_Transaction.thy ===== *)
theory Reload_Transaction
  imports Prelude Number_Text
begin

text \<open>
  The configuration reload of the Asterisk host, \<^verbatim>\<open>rust/asterisk/src/host/reload.rs\<close>: prepare every
  candidate, then publish all of them or roll all of them back. The coordinator drives the operations of a
  trait; here a reload appends every call to a history, and an environment answers it from the history,
  which is any deterministic behaviour of the operations. A phase that reports pending is polled until a
  deadline; the loop is partial, and it is a theorem that it returns when the clock advances.
\<close>

section \<open>Calls and environment\<close>

definition URP_AST_OK :: int where "URP_AST_OK = 0"
definition URP_AST_RELOAD_PENDING :: int where "URP_AST_RELOAD_PENDING = 1"
definition URP_AST_SETUP_FAILED :: int where "URP_AST_SETUP_FAILED = -6"
definition URP_AST_ASTERISK_FAILURE :: int where "URP_AST_ASTERISK_FAILURE = -8"

record reload_configuration =
  reload_source :: string
  reload_text :: string

record reload_failure =
  failed_phase :: string
  failed_status :: int
  failed_channel :: "nat option"

text \<open>The methods of \<open>ReloadOperations\<close> that do something, and the sleep between two polls.\<close>

datatype reload_call =
    ReadConfiguration
  | SetControlGate bool
  | DriverPrepare reload_configuration
  | ChannelPrepare nat
  | LinkPrepare
  | ChannelActivate nat
  | DriverFinish bool
  | LinkFinish bool
  | ChannelFinish nat bool
  | MarkJitterPending nat
  | LogError string int "nat option"
  | Sleep

type_synonym reload_history = "reload_call list"

text \<open>The answers: to a call the history that ends with it, to a query the history so far.\<close>

record reload_environment =
  env_status :: "reload_history \<Rightarrow> int"
  env_configuration :: "reload_history \<Rightarrow> (int, reload_configuration) result"
  env_channels :: "reload_history \<Rightarrow> nat"
  env_clock :: "reload_history \<Rightarrow> int"

definition invoke :: "reload_environment \<Rightarrow> reload_call \<Rightarrow> reload_history \<Rightarrow> int \<times> reload_history" where
  "invoke env c h = (env_status env (h @ [c]), h @ [c])"

section \<open>Polling\<close>

partial_function (option) complete_phase_until ::
  "reload_environment \<Rightarrow> reload_call \<Rightarrow> int \<Rightarrow> reload_history \<Rightarrow> (int \<times> reload_history) option" where
  "complete_phase_until env c deadline h =
     (let (status, h1) = invoke env c h in
      if status \<noteq> URP_AST_RELOAD_PENDING then Some (status, h1)
      else if deadline \<le> env_clock env h1 then Some (URP_AST_SETUP_FAILED, h1)
      else complete_phase_until env c deadline (h1 @ [Sleep]))"

definition complete_phase ::
  "reload_environment \<Rightarrow> reload_call \<Rightarrow> reload_history \<Rightarrow> (int \<times> reload_history) option" where
  "complete_phase env c h = complete_phase_until env c (env_clock env h + 30000) h"

section \<open>The transaction\<close>

type_synonym outcome = "((reload_failure, unit) result \<times> reload_history) option"

definition check_phase :: "string \<Rightarrow> int \<Rightarrow> nat option \<Rightarrow> (reload_failure, unit) result" where
  "check_phase phase status channel =
     (if status = URP_AST_OK then Inr ()
      else Inl \<lparr>failed_phase = phase, failed_status = status, failed_channel = channel\<rparr>)"

text \<open>A polled phase of every channel, up to the first failure.\<close>

fun check_channels ::
  "reload_environment \<Rightarrow> string \<Rightarrow> (nat \<Rightarrow> reload_call) \<Rightarrow> nat list \<Rightarrow> reload_history \<Rightarrow> outcome" where
  "check_channels env phase call [] h = Some (Inr (), h)"
| "check_channels env phase call (index # indices) h =
     (case complete_phase env (call index) h of
        None \<Rightarrow> None
      | Some (status, h) \<Rightarrow>
          (case check_phase phase status (Some index) of
             Inl failure \<Rightarrow> Some (Inl failure, h)
           | Inr _ \<Rightarrow> check_channels env phase call indices h))"

text \<open>The end of a transaction for every channel; a failure is only logged.\<close>

fun finish_channels ::
  "reload_environment \<Rightarrow> string \<Rightarrow> bool \<Rightarrow> nat list \<Rightarrow> reload_history \<Rightarrow> reload_history option" where
  "finish_channels env phase commit [] h = Some h"
| "finish_channels env phase commit (index # indices) h =
     (case complete_phase env (ChannelFinish index commit) h of
        None \<Rightarrow> None
      | Some (status, h) \<Rightarrow>
          finish_channels env phase commit indices
            (if status \<noteq> URP_AST_OK then h @ [LogError phase status (Some index)] else h))"

text \<open>The closure of \<open>reload_gated\<close>: all phases up to the driver's commit.\<close>

definition reload_phases :: "reload_environment \<Rightarrow> nat \<Rightarrow> reload_history \<Rightarrow> outcome" where
  "reload_phases env channels h =
     (case check_channels env ''channel prepare'' ChannelPrepare [0..<channels] h of
        None \<Rightarrow> None
      | Some (Inl failure, h) \<Rightarrow> Some (Inl failure, h)
      | Some (Inr _, h) \<Rightarrow>
          (let (status, h) = invoke env LinkPrepare h in
           case check_phase ''link prepare'' status None of
             Inl failure \<Rightarrow> Some (Inl failure, h)
           | Inr _ \<Rightarrow>
               (case check_channels env ''channel activate'' ChannelActivate [0..<channels] h of
                  None \<Rightarrow> None
                | Some (Inl failure, h) \<Rightarrow> Some (Inl failure, h)
                | Some (Inr _, h) \<Rightarrow>
                    (let (status, h) = invoke env (DriverFinish True) h in
                     Some (check_phase ''driver commit'' status None, h)))))"

definition roll_back :: "reload_environment \<Rightarrow> nat \<Rightarrow> reload_failure \<Rightarrow> reload_history \<Rightarrow> outcome" where
  "roll_back env channels failure h =
     (case finish_channels env ''channel rollback'' False [0..<channels] (h @ [LinkFinish False]) of
        None \<Rightarrow> None
      | Some h \<Rightarrow>
          (let (status, h) = invoke env (DriverFinish False) h in
           Some (Inl failure, if status \<noteq> URP_AST_OK then h @ [LogError ''driver rollback'' status None] else h)))"

definition publish_all :: "reload_environment \<Rightarrow> nat \<Rightarrow> reload_history \<Rightarrow> outcome" where
  "publish_all env channels h =
     (case finish_channels env ''channel commit'' True [0..<channels] (h @ [LinkFinish True]) of
        None \<Rightarrow> None
      | Some h \<Rightarrow> Some (Inr (), h @ map MarkJitterPending [0..<channels]))"

definition reload_gated ::
  "reload_environment \<Rightarrow> reload_configuration \<Rightarrow> nat \<Rightarrow> reload_history \<Rightarrow> outcome" where
  "reload_gated env configuration channels h =
     (let (status, h) = invoke env (DriverPrepare configuration) h in
      if status \<noteq> URP_AST_OK
      then Some (Inl \<lparr>failed_phase = ''driver prepare'', failed_status = status, failed_channel = None\<rparr>, h)
      else
        (case reload_phases env channels h of
           None \<Rightarrow> None
         | Some (Inl failure, h) \<Rightarrow> roll_back env channels failure h
         | Some (Inr _, h) \<Rightarrow> publish_all env channels h))"

definition reload :: "reload_environment \<Rightarrow> reload_history \<Rightarrow> outcome" where
  "reload env h =
     (let h1 = h @ [ReadConfiguration] in
      case env_configuration env h1 of
        Inl status \<Rightarrow>
          Some (Inl \<lparr>failed_phase = ''configuration read'', failed_status = status, failed_channel = None\<rparr>, h1)
      | Inr configuration \<Rightarrow>
          (let h2 = h1 @ [SetControlGate True] in
           map_option (\<lambda>(r, h). (r, h @ [SetControlGate False]))
             (reload_gated env configuration (env_channels env h2) h2)))"

text \<open>
  The module entry: without a registered driver nothing is called; a failure is logged and its status
  returned.
\<close>

definition reload_entry :: "reload_environment \<Rightarrow> bool \<Rightarrow> reload_history \<Rightarrow> (int \<times> reload_history) option" where
  "reload_entry env registered h =
     (if \<not> registered then Some (URP_AST_ASTERISK_FAILURE, h)
      else
        map_option
          (\<lambda>(r, h).
             case r of
               Inr _ \<Rightarrow> (URP_AST_OK, h)
             | Inl failure \<Rightarrow>
                 (failed_status failure,
                  h @ [LogError (failed_phase failure) (failed_status failure) (failed_channel failure)]))
          (reload env h))"

section \<open>The reference\<close>

text \<open>
  The calls of a transaction, without polling and logging: the forward phases, and what follows a success or
  a failure.
\<close>

definition forward_calls :: "nat \<Rightarrow> reload_call list" where
  "forward_calls n = map ChannelPrepare [0..<n] @ [LinkPrepare] @ map ChannelActivate [0..<n] @ [DriverFinish True]"

definition commit_calls :: "nat \<Rightarrow> reload_call list" where
  "commit_calls n = [LinkFinish True] @ map (\<lambda>i. ChannelFinish i True) [0..<n] @ map MarkJitterPending [0..<n]"

definition rollback_calls :: "nat \<Rightarrow> reload_call list" where
  "rollback_calls n = [LinkFinish False] @ map (\<lambda>i. ChannelFinish i False) [0..<n] @ [DriverFinish False]"

text \<open>One call with its polls and the log entry of a failed end.\<close>

definition is_log :: "reload_call \<Rightarrow> bool" where
  "is_log c \<longleftrightarrow> (case c of LogError _ _ _ \<Rightarrow> True | _ \<Rightarrow> False)"

definition is_polled :: "reload_call \<Rightarrow> bool" where
  "is_polled c \<longleftrightarrow>
     (case c of ChannelPrepare _ \<Rightarrow> True | ChannelActivate _ \<Rightarrow> True | ChannelFinish _ _ \<Rightarrow> True | _ \<Rightarrow> False)"

definition is_finish :: "reload_call \<Rightarrow> bool" where
  "is_finish c \<longleftrightarrow> (case c of ChannelFinish _ _ \<Rightarrow> True | DriverFinish False \<Rightarrow> True | _ \<Rightarrow> False)"

definition carried_out :: "reload_call \<Rightarrow> reload_history \<Rightarrow> bool" where
  "carried_out c b \<longleftrightarrow>
     (\<exists>m logs. b = c # concat (replicate m [Sleep, c]) @ logs \<and> list_all is_log logs \<and> length logs \<le> 1 \<and>
        (is_polled c \<or> m = 0) \<and> (is_finish c \<or> logs = []))"

definition realizes :: "reload_call list \<Rightarrow> reload_history \<Rightarrow> bool" where
  "realizes cs t \<longleftrightarrow> (\<exists>bs. list_all2 carried_out cs bs \<and> t = concat bs)"

section \<open>Facts\<close>

lemma realizes_Nil [simp]: "realizes [] []"
  by (simp add: realizes_def)

lemma realizes_append: "realizes cs t \<Longrightarrow> realizes ds u \<Longrightarrow> realizes (cs @ ds) (t @ u)"
  unfolding realizes_def by (metis concat_append list_all2_appendI)

lemma realizes_block: "carried_out c b \<Longrightarrow> realizes [c] b"
  unfolding realizes_def by (intro exI [of _ "[b]"]) simp

lemma realizes_Cons: "carried_out c b \<Longrightarrow> realizes cs t \<Longrightarrow> realizes (c # cs) (b @ t)"
  using realizes_append [OF realizes_block] by fastforce

lemma carried_out_call: "carried_out c [c]"
  unfolding carried_out_def by (intro exI [of _ 0] exI [of _ "[]"]) simp

lemma carried_out_polls: "is_polled c \<Longrightarrow> carried_out c (c # concat (replicate m [Sleep, c]))"
  unfolding carried_out_def by (intro exI [of _ m] exI [of _ "[]"]) simp

lemma realizes_calls: "realizes cs cs"
  by (induction cs) (use realizes_Cons [OF carried_out_call] in auto)

text \<open>A polled phase appends the call and its polls; it returns once the clock passes the deadline.\<close>

lemma complete_phase_until_history:
  assumes "complete_phase_until env c deadline h = Some y"
  shows "(\<exists>m. snd y = h @ c # concat (replicate m [Sleep, c])) \<and> fst y \<noteq> URP_AST_RELOAD_PENDING"
proof (rule complete_phase_until.raw_induct [OF _ assms,
      of "\<lambda>env c deadline h y. (\<exists>m. snd y = h @ c # concat (replicate m [Sleep, c])) \<and> fst y \<noteq> URP_AST_RELOAD_PENDING"])
  fix poll env c deadline h and y :: "int \<times> reload_history"
  assume step: "\<And>env c deadline h y. poll env c deadline h = Some y \<Longrightarrow>
      (\<exists>m. snd y = h @ c # concat (replicate m [Sleep, c])) \<and> fst y \<noteq> URP_AST_RELOAD_PENDING"
    and body: "(let (status, h1) = invoke env c h in
      if status \<noteq> URP_AST_RELOAD_PENDING then Some (status, h1)
      else if deadline \<le> env_clock env h1 then Some (URP_AST_SETUP_FAILED, h1)
      else poll env c deadline (h1 @ [Sleep])) = Some y"
  consider "y = (env_status env (h @ [c]), h @ [c])" "fst y \<noteq> URP_AST_RELOAD_PENDING"
    | "y = (URP_AST_SETUP_FAILED, h @ [c])" | "poll env c deadline (h @ [c, Sleep]) = Some y"
    using body unfolding invoke_def Let_def prod.case
    by (cases "env_status env (h @ [c]) = URP_AST_RELOAD_PENDING"; cases "deadline \<le> env_clock env (h @ [c])") auto
  then show "(\<exists>m. snd y = h @ c # concat (replicate m [Sleep, c])) \<and> fst y \<noteq> URP_AST_RELOAD_PENDING"
  proof cases
    case 3
    then obtain m where "snd y = (h @ [c, Sleep]) @ c # concat (replicate m [Sleep, c])" "fst y \<noteq> URP_AST_RELOAD_PENDING"
      using step by blast
    then have "snd y = h @ c # concat (replicate (Suc m) [Sleep, c])" by simp
    then show ?thesis using \<open>fst y \<noteq> _\<close> by blast
  next
    case 1
    then show ?thesis by (auto intro!: exI [of _ 0])
  next
    case 2
    then show ?thesis by (auto intro!: exI [of _ 0] simp: URP_AST_SETUP_FAILED_def URP_AST_RELOAD_PENDING_def)
  qed
qed

lemma complete_phase_history:
  assumes "complete_phase env c h = Some (status, h')" "is_polled c"
  shows "\<exists>b. h' = h @ b \<and> carried_out c b \<and> (\<forall>l. is_finish c \<and> is_log l \<longrightarrow> carried_out c (b @ [l]))"
proof -
  obtain m where m: "h' = h @ c # concat (replicate m [Sleep, c])"
    using complete_phase_until_history [OF assms(1) [unfolded complete_phase_def]] by auto
  have "carried_out c ((c # concat (replicate m [Sleep, c])) @ [l])" if "is_finish c" "is_log l" for l
    unfolding carried_out_def using that assms(2) by (intro exI [of _ m] exI [of _ "[l]"]) simp
  then show ?thesis using m carried_out_polls [OF assms(2), of m] by blast
qed

definition clock_advances :: "reload_environment \<Rightarrow> bool" where
  "clock_advances env \<longleftrightarrow>
     (\<forall>h c. env_clock env h \<le> env_clock env (h @ [c])) \<and> (\<forall>h. env_clock env h + 1 \<le> env_clock env (h @ [Sleep]))"

lemma complete_phase_until_returns:
  assumes "clock_advances env"
  shows "\<exists>y. complete_phase_until env c deadline h = Some y"
proof (induction "nat (deadline - env_clock env h)" arbitrary: h rule: less_induct)
  case less
  have "env_clock env h \<le> env_clock env (h @ [c])" "env_clock env (h @ [c]) + 1 \<le> env_clock env (h @ [c, Sleep])"
    using assms [unfolded clock_advances_def] by (metis append.assoc append_Cons append_Nil)+
  then have "\<not> deadline \<le> env_clock env (h @ [c]) \<Longrightarrow>
      \<exists>y. complete_phase_until env c deadline (h @ [c, Sleep]) = Some y"
    by (intro less) auto
  then show ?case
    by (subst complete_phase_until.simps) (auto simp: invoke_def)
qed

lemma complete_phase_returns: "clock_advances env \<Longrightarrow> \<exists>status h'. complete_phase env c h = Some (status, h')"
  unfolding complete_phase_def using complete_phase_until_returns [of env] by fastforce

section \<open>What the phases call\<close>

lemma check_channels_calls:
  assumes "check_channels env phase call is h = Some (r, h')" "\<And>i. is_polled (call i)"
  shows "\<exists>k t. h' = h @ t \<and> realizes (map call (take k is)) t \<and> k \<le> length is \<and>
    (case r of Inr _ \<Rightarrow> k = length is | Inl failure \<Rightarrow> 0 < k \<and> failed_status failure \<noteq> URP_AST_OK)"
  using assms(1)
proof (induction "is" arbitrary: h)
  case (Cons i "is")
  then obtain status h1 where c: "complete_phase env (call i) h = Some (status, h1)"
    by (auto split: option.splits)
  obtain b where b: "h1 = h @ b" "carried_out (call i) b" using complete_phase_history [OF c assms(2)] by blast
  show ?case
  proof (cases "status = URP_AST_OK")
    case True
    then obtain k t where "h' = h1 @ t" "realizes (map call (take k is)) t" "k \<le> length is"
        "case r of Inr _ \<Rightarrow> k = length is | Inl failure \<Rightarrow> 0 < k \<and> failed_status failure \<noteq> URP_AST_OK"
      using Cons.IH [of h1] Cons.prems c by (auto simp: check_phase_def)
    then show ?thesis
      using realizes_Cons [OF b(2)] b(1)
      by (intro exI [of _ "Suc k"] exI [of _ "b @ t"]) (auto split: sum.splits)
  next
    case False
    then show ?thesis
      using Cons.prems c b realizes_block [OF b(2)]
      by (intro exI [of _ 1] exI [of _ b]) (auto simp: check_phase_def)
  qed
qed auto

lemma finish_channels_calls:
  assumes "finish_channels env phase commit is h = Some h'"
  shows "\<exists>t. h' = h @ t \<and> realizes (map (\<lambda>i. ChannelFinish i commit) is) t"
  using assms
proof (induction "is" arbitrary: h)
  case (Cons i "is")
  then obtain status h1 where c: "complete_phase env (ChannelFinish i commit) h = Some (status, h1)"
    by (auto split: option.splits)
  obtain b where b: "h1 = h @ b" "carried_out (ChannelFinish i commit) b"
      "\<forall>l. is_log l \<longrightarrow> carried_out (ChannelFinish i commit) (b @ [l])"
    using complete_phase_history [OF c] by (auto simp: is_polled_def is_finish_def)
  let ?h2 = "if status \<noteq> URP_AST_OK then h1 @ [LogError phase status (Some i)] else h1"
  obtain t where t: "h' = ?h2 @ t" "realizes (map (\<lambda>i. ChannelFinish i commit) is) t"
    using Cons.IH [of ?h2] Cons.prems c by auto
  have log: "carried_out (ChannelFinish i commit) (b @ [LogError phase status (Some i)])"
    using b(3) by (simp add: is_log_def)
  show ?case
    using t(1) b(1) realizes_Cons [OF b(2) t(2)] realizes_Cons [OF log t(2)] by (auto split: if_splits)
qed simp

lemma take_sections:
  "k \<le> length xs \<Longrightarrow> take k (xs @ ys) = take k xs"
  "take (length xs + k) (xs @ ys) = xs @ take k ys"
  by simp_all

lemma check_prepare:
  assumes "check_channels env phase ChannelPrepare [0..<n] h = Some (r, h')"
  shows "\<exists>k t. h' = h @ t \<and> realizes (take k (map ChannelPrepare [0..<n])) t \<and> k \<le> n \<and>
    (case r of Inr _ \<Rightarrow> k = n | Inl failure \<Rightarrow> 0 < k \<and> failed_status failure \<noteq> URP_AST_OK)"
  using check_channels_calls [OF assms, unfolded length_upt diff_zero] unfolding take_map by (simp add: is_polled_def)

lemma check_activate:
  assumes "check_channels env phase ChannelActivate [0..<n] h = Some (r, h')"
  shows "\<exists>k t. h' = h @ t \<and> realizes (take k (map ChannelActivate [0..<n])) t \<and> k \<le> n \<and>
    (case r of Inr _ \<Rightarrow> k = n | Inl failure \<Rightarrow> 0 < k \<and> failed_status failure \<noteq> URP_AST_OK)"
  using check_channels_calls [OF assms, unfolded length_upt diff_zero] unfolding take_map by (simp add: is_polled_def)

lemma reload_phases_calls:
  assumes "reload_phases env n h = Some (r, h')"
  shows "\<exists>k t. h' = h @ t \<and> realizes (take k (forward_calls n)) t \<and> k \<le> length (forward_calls n) \<and>
    (case r of Inr _ \<Rightarrow> k = length (forward_calls n) | Inl failure \<Rightarrow> 0 < k \<and> failed_status failure \<noteq> URP_AST_OK)"
proof -
  let ?prepares = "map ChannelPrepare [0..<n]" and ?activates = "map ChannelActivate [0..<n]"
  obtain r1 h1 where p: "check_channels env ''channel prepare'' ChannelPrepare [0..<n] h = Some (r1, h1)"
    using assms by (auto simp: reload_phases_def split: option.splits)
  obtain k1 t1 where 1: "h1 = h @ t1" "realizes (take k1 ?prepares) t1" "k1 \<le> n"
      "case r1 of Inr _ \<Rightarrow> k1 = n | Inl failure \<Rightarrow> 0 < k1 \<and> failed_status failure \<noteq> URP_AST_OK"
    using check_prepare [OF p] by blast
  show ?thesis
  proof (cases r1)
    case (Inl failure)
    then show ?thesis
      using assms p 1
      by (intro exI [of _ k1] exI [of _ t1]) (auto simp: reload_phases_def forward_calls_def)
  next
    case prepared: (Inr u)
    let ?status = "env_status env (h1 @ [LinkPrepare])"
    have t1: "realizes ?prepares t1" using 1 prepared by simp
    have link: "realizes (?prepares @ [LinkPrepare]) (t1 @ [LinkPrepare])"
      using realizes_append [OF t1 realizes_calls] .
    show ?thesis
    proof (cases "?status = URP_AST_OK")
      case False
      then show ?thesis
        using assms p prepared link 1(1)
        by (intro exI [of _ "Suc n"] exI [of _ "t1 @ [LinkPrepare]"])
           (auto simp: reload_phases_def invoke_def check_phase_def forward_calls_def)
    next
      case True
      obtain r2 h2 where a: "check_channels env ''channel activate'' ChannelActivate [0..<n] (h1 @ [LinkPrepare]) = Some (r2, h2)"
        using assms p prepared True
        by (auto simp: reload_phases_def invoke_def check_phase_def Let_def split: option.splits)
      obtain k2 t2 where 2: "h2 = h1 @ [LinkPrepare] @ t2" "realizes (take k2 ?activates) t2" "k2 \<le> n"
          "case r2 of Inr _ \<Rightarrow> k2 = n | Inl failure \<Rightarrow> 0 < k2 \<and> failed_status failure \<noteq> URP_AST_OK"
        using check_activate [OF a] by auto
      have active: "realizes ((?prepares @ [LinkPrepare]) @ take k2 ?activates) ((t1 @ [LinkPrepare]) @ t2)"
        using realizes_append [OF link 2(2)] .
      show ?thesis
      proof (cases r2)
        case (Inl failure)
        then show ?thesis
          using assms p prepared True a 1(1) 2 active
          by (intro exI [of _ "n + 1 + k2"] exI [of _ "t1 @ [LinkPrepare] @ t2"])
             (auto simp: reload_phases_def invoke_def check_phase_def forward_calls_def)
      next
        case (Inr v)
        then have "realizes (forward_calls n) (((t1 @ [LinkPrepare]) @ t2) @ [DriverFinish True])"
          using realizes_append [OF active realizes_calls [of "[DriverFinish True]"]] 2(4) by (simp add: forward_calls_def)
        then show ?thesis
          using assms p prepared True a 1(1) 2(1) Inr
          by (intro exI [of _ "length (forward_calls n)"] exI [of _ "((t1 @ [LinkPrepare]) @ t2) @ [DriverFinish True]"])
             (auto simp: reload_phases_def invoke_def check_phase_def forward_calls_def)
      qed
    qed
  qed
qed

lemma roll_back_calls:
  assumes "roll_back env n failure h = Some (r, h')"
  shows "r = Inl failure \<and> (\<exists>t. h' = h @ t \<and> realizes (rollback_calls n) t)"
proof -
  obtain h1 where f: "finish_channels env ''channel rollback'' False [0..<n] (h @ [LinkFinish False]) = Some h1"
    using assms by (auto simp: roll_back_def split: option.splits)
  obtain t where t: "h1 = (h @ [LinkFinish False]) @ t" "realizes (map (\<lambda>i. ChannelFinish i False) [0..<n]) t"
    using finish_channels_calls [OF f] by blast
  have log: "carried_out (DriverFinish False) (DriverFinish False # logs)" if "list_all is_log logs" "length logs \<le> 1" for logs
    unfolding carried_out_def using that by (intro exI [of _ 0] exI [of _ logs]) (simp add: is_finish_def)
  have end_block: "carried_out (DriverFinish False) [DriverFinish False]"
    "carried_out (DriverFinish False) [DriverFinish False, LogError ''driver rollback'' status None]" for status
    using log [of "[]"] log [of "[LogError ''driver rollback'' status None]"] by (simp_all add: is_log_def)
  have all: "realizes (rollback_calls n) ([LinkFinish False] @ t @ b)" if "carried_out (DriverFinish False) b" for b
    unfolding rollback_calls_def
    by (intro realizes_append realizes_calls t(2) realizes_block that)
  show ?thesis
    using assms f t(1) all [OF end_block(1)] all [OF end_block(2)]
    by (fastforce simp: roll_back_def invoke_def Let_def split: if_splits)
qed

lemma publish_all_calls:
  assumes "publish_all env n h = Some (r, h')"
  shows "r = Inr () \<and> (\<exists>t. h' = h @ t \<and> realizes (commit_calls n) t)"
proof -
  obtain h1 where f: "finish_channels env ''channel commit'' True [0..<n] (h @ [LinkFinish True]) = Some h1"
    using assms by (auto simp: publish_all_def split: option.splits)
  obtain t where t: "h1 = (h @ [LinkFinish True]) @ t" "realizes (map (\<lambda>i. ChannelFinish i True) [0..<n]) t"
    using finish_channels_calls [OF f] by blast
  have "realizes (commit_calls n) ([LinkFinish True] @ t @ map MarkJitterPending [0..<n])"
    unfolding commit_calls_def by (intro realizes_append realizes_calls t(2))
  then show ?thesis using assms f t(1) by (auto simp: publish_all_def)
qed

text \<open>The gated part: complete, or rolled back after a nonempty part of the phases, or nothing prepared.\<close>

definition gated_outcome ::
  "reload_configuration \<Rightarrow> nat \<Rightarrow> (reload_failure, unit) result \<Rightarrow> reload_history \<Rightarrow> bool" where
  "gated_outcome configuration n r t \<longleftrightarrow>
     (case r of
        Inr _ \<Rightarrow> realizes ([DriverPrepare configuration] @ forward_calls n @ commit_calls n) t
      | Inl failure \<Rightarrow>
          failed_status failure \<noteq> URP_AST_OK \<and>
          (realizes [DriverPrepare configuration] t \<or>
           (\<exists>k. 0 < k \<and> k \<le> length (forward_calls n) \<and>
              realizes ([DriverPrepare configuration] @ take k (forward_calls n) @ rollback_calls n) t)))"

lemma reload_gated_calls:
  assumes "reload_gated env configuration n h = Some (r, h')"
  shows "\<exists>t. h' = h @ t \<and> gated_outcome configuration n r t"
proof (cases "env_status env (h @ [DriverPrepare configuration]) = URP_AST_OK")
  case False
  then show ?thesis
    using assms realizes_calls [of "[DriverPrepare configuration]"]
    by (auto simp: reload_gated_def invoke_def gated_outcome_def)
next
  case True
  let ?h1 = "h @ [DriverPrepare configuration]"
  obtain r1 h2 where p: "reload_phases env n ?h1 = Some (r1, h2)"
    using assms True by (auto simp: reload_gated_def invoke_def split: option.splits)
  obtain k t where t: "h2 = ?h1 @ t" "realizes (take k (forward_calls n)) t" "k \<le> length (forward_calls n)"
      "case r1 of Inr _ \<Rightarrow> k = length (forward_calls n) | Inl failure \<Rightarrow> 0 < k \<and> failed_status failure \<noteq> URP_AST_OK"
    using reload_phases_calls [OF p] by blast
  have all: "realizes ([DriverPrepare configuration] @ take k (forward_calls n) @ cs) ([DriverPrepare configuration] @ t @ u)"
    if "realizes cs u" for cs u
    using that by (intro realizes_append realizes_calls t(2))
  show ?thesis
  proof (cases r1)
    case (Inl failure)
    then have "roll_back env n failure h2 = Some (r, h')" using assms True p by (simp add: reload_gated_def invoke_def)
    from roll_back_calls [OF this] obtain u where "r = Inl failure" "h' = h2 @ u" "realizes (rollback_calls n) u" by blast
    then show ?thesis
      using t Inl all [of "rollback_calls n" u] by (auto simp: gated_outcome_def)
  next
    case (Inr v)
    then have "publish_all env n h2 = Some (r, h')" using assms True p by (simp add: reload_gated_def invoke_def)
    from publish_all_calls [OF this] obtain u where "r = Inr ()" "h' = h2 @ u" "realizes (commit_calls n) u" by blast
    then show ?thesis
      using t Inr all [of "commit_calls n" u] by (auto simp: gated_outcome_def)
  qed
qed

section \<open>Return\<close>

lemma check_channels_returns:
  "clock_advances env \<Longrightarrow> \<exists>y. check_channels env phase call is h = Some y"
proof (induction "is" arbitrary: h)
  case (Cons i "is")
  obtain status h1 where "complete_phase env (call i) h = Some (status, h1)"
    using complete_phase_returns [OF Cons.prems] by blast
  then show ?case using Cons by (auto split: sum.split)
qed simp

lemma finish_channels_returns:
  "clock_advances env \<Longrightarrow> \<exists>y. finish_channels env phase commit is h = Some y"
proof (induction "is" arbitrary: h)
  case (Cons i "is")
  obtain status h1 where "complete_phase env (ChannelFinish i commit) h = Some (status, h1)"
    using complete_phase_returns [OF Cons.prems] by blast
  then show ?case using Cons by auto
qed simp

lemma reload_phases_returns:
  assumes "clock_advances env" shows "\<exists>y. reload_phases env n h = Some y"
proof -
  obtain r1 h1 where p: "check_channels env ''channel prepare'' ChannelPrepare [0..<n] h = Some (r1, h1)"
    using check_channels_returns [OF assms] by fastforce
  obtain r2 h2 where "check_channels env ''channel activate'' ChannelActivate [0..<n] (h1 @ [LinkPrepare]) = Some (r2, h2)"
    using check_channels_returns [OF assms] by fastforce
  then show ?thesis using p by (auto simp: reload_phases_def invoke_def check_phase_def split: sum.split)
qed

lemma reload_gated_returns:
  assumes "clock_advances env" shows "\<exists>y. reload_gated env configuration n h = Some y"
proof -
  obtain r1 h1 where p: "reload_phases env n (h @ [DriverPrepare configuration]) = Some (r1, h1)"
    using reload_phases_returns [OF assms] by fastforce
  have "\<exists>y. roll_back env n failure h1 = Some y" for failure
    using finish_channels_returns [OF assms, of "''channel rollback''" False "[0..<n]" "h1 @ [LinkFinish False]"]
    by (auto simp: roll_back_def invoke_def)
  moreover have "\<exists>y. publish_all env n h1 = Some y"
    using finish_channels_returns [OF assms, of "''channel commit''" True "[0..<n]" "h1 @ [LinkFinish True]"]
    by (auto simp: publish_all_def)
  ultimately show ?thesis using p by (auto simp: reload_gated_def invoke_def split: sum.split)
qed

section \<open>The coordinator\<close>

lemma reload_cases:
  assumes "reload env h = Some (r, h')"
  obtains status where "env_configuration env (h @ [ReadConfiguration]) = Inl status"
      "r = Inl \<lparr>failed_phase = ''configuration read'', failed_status = status, failed_channel = None\<rparr>"
      "h' = h @ [ReadConfiguration]"
  | configuration h2 where "env_configuration env (h @ [ReadConfiguration]) = Inr configuration"
      "reload_gated env configuration (env_channels env (h @ [ReadConfiguration, SetControlGate True]))
         (h @ [ReadConfiguration, SetControlGate True]) = Some (r, h2)"
      "h' = h2 @ [SetControlGate False]"
  using assms by (auto simp: reload_def Let_def split: sum.splits)

lemma complete_phase_now:
  assumes "env_status env (h @ [c]) \<noteq> URP_AST_RELOAD_PENDING"
  shows "complete_phase env c h = Some (env_status env (h @ [c]), h @ [c])"
  using assms by (subst complete_phase_def, subst complete_phase_until.simps) (simp add: invoke_def)

text \<open>C10:
  A reload is a transaction. When the configuration cannot be read, nothing else is called and the error names
  that phase. Otherwise everything happens with control admission closed, and admission is open again at the
  end on every path. In between, a successful reload prepares the driver, prepares every channel, prepares the
  links, activates every channel, commits the driver, then commits the links and every channel and marks every
  channel's jitter buffer. A failed reload either failed to prepare the driver and calls nothing more, or
  performs a nonempty initial part of these phases and then rolls back the links, every channel and the driver, in
  this order, and reports a failure status. Only the polls of pending channel phases and the log entries of
  failed ends come between these calls.
\<close>

theorem reload_transaction:
  assumes "reload env h = Some (r, h')"
  shows "case env_configuration env (h @ [ReadConfiguration]) of
      Inl status \<Rightarrow>
        h' = h @ [ReadConfiguration] \<and>
        r = Inl \<lparr>failed_phase = ''configuration read'', failed_status = status, failed_channel = None\<rparr>
    | Inr configuration \<Rightarrow>
        (\<exists>t. h' = h @ [ReadConfiguration, SetControlGate True] @ t @ [SetControlGate False] \<and>
           gated_outcome configuration (env_channels env (h @ [ReadConfiguration, SetControlGate True])) r t)"
  using assms
proof (cases rule: reload_cases)
  case (2 configuration h2)
  then show ?thesis using reload_gated_calls [OF 2(2)] by auto
qed simp

text \<open>A host with one channel whose activation fails once it was pending for one poll.\<close>

definition failing_host :: reload_environment where
  "failing_host =
     \<lparr>env_status = (\<lambda>h. if h \<noteq> [] \<and> last h = ChannelActivate 0 then (if Sleep \<in> set h then -2 else 1) else 0),
      env_configuration = (\<lambda>h. Inr \<lparr>reload_source = ''etc'', reload_text = ''[usb]''\<rparr>),
      env_channels = (\<lambda>h. 1),
      env_clock = (\<lambda>h. int (length (filter (\<lambda>c. c = Sleep) h)))\<rparr>"

lemma failing_host_answers:
  "env_status failing_host h = (if h \<noteq> [] \<and> last h = ChannelActivate 0 then (if Sleep \<in> set h then -2 else 1) else 0)"
  "env_configuration failing_host h = Inr \<lparr>reload_source = ''etc'', reload_text = ''[usb]''\<rparr>"
  "env_channels failing_host h = 1"
  by (simp_all add: failing_host_def)

lemma failing_host_polls:
  "complete_phase failing_host (ChannelActivate 0) h =
     Some (-2, if Sleep \<in> set h then h @ [ChannelActivate 0] else h @ [ChannelActivate 0, Sleep, ChannelActivate 0])"
  unfolding complete_phase_def
  by (subst complete_phase_until.simps, cases "Sleep \<in> set h")
     (simp_all add: invoke_def failing_host_def URP_AST_RELOAD_PENDING_def complete_phase_until.simps)

lemma failing_host_reload:
  "reload failing_host [] =
     Some (Inl \<lparr>failed_phase = ''channel activate'', failed_status = -2, failed_channel = Some 0\<rparr>,
       [ReadConfiguration, SetControlGate True, DriverPrepare \<lparr>reload_source = ''etc'', reload_text = ''[usb]''\<rparr>,
        ChannelPrepare 0, LinkPrepare, ChannelActivate 0, Sleep, ChannelActivate 0,
        LinkFinish False, ChannelFinish 0 False, DriverFinish False, SetControlGate False])"
proof -
  have now: "complete_phase failing_host c h = Some (0, h @ [c])" if "c \<noteq> ChannelActivate 0" for c h
    using that by (subst complete_phase_now) (simp_all add: failing_host_def URP_AST_RELOAD_PENDING_def)
  show ?thesis
    by (simp add: reload_def reload_gated_def reload_phases_def roll_back_def invoke_def check_phase_def now
        failing_host_polls failing_host_answers URP_AST_OK_def)
qed

lemma reload_transaction_witness:
  "\<exists>t. gated_outcome \<lparr>reload_source = ''etc'', reload_text = ''[usb]''\<rparr> 1
     (Inl \<lparr>failed_phase = ''channel activate'', failed_status = -2, failed_channel = Some 0\<rparr>) t"
  using reload_transaction [OF failing_host_reload] by (auto simp: failing_host_def)

text \<open>C38:
  A reload returns, whatever the operations answer and however long a phase stays pending, when the clock never
  goes back and every sleep of a millisecond advances it by at least a millisecond.
\<close>

theorem reload_returns:
  assumes "clock_advances env"
  shows "\<exists>status h'. reload_entry env registered h = Some (status, h')"
proof -
  obtain r h' where "reload env h = Some (r, h')"
    using reload_gated_returns [OF assms] by (fastforce simp: reload_def Let_def split: sum.split)
  then show ?thesis by (cases r) (auto simp: reload_entry_def)
qed

lemma reload_returns_witness:
  "clock_advances (failing_host\<lparr>env_status := \<lambda>h. 1\<rparr>) \<and>
   (\<exists>status h'. reload_entry (failing_host\<lparr>env_status := \<lambda>h. 1\<rparr>) True [] = Some (status, h'))"
proof -
  have "clock_advances (failing_host\<lparr>env_status := \<lambda>h. 1\<rparr>)"
    by (simp add: clock_advances_def failing_host_def)
  then show ?thesis using reload_returns by blast
qed

end
