(* ===== verification/Adapter.thy ===== *)
theory Adapter
  imports Pcm Controller_Text Handoff
begin

text \<open>
  One ASL3 channel, \<^verbatim>\<open>rust/asl3/src/adapter.rs\<close>: the publisher in the native callback, which converts
  spans of samples and hands complete controller frames over, and the serialized controller, which delivers
  receiver edges, statuses and voice in order and writes the program audio, the legacy echo included.

  The handoff between the two is the parameter pair \<open>push\<close> and \<open>pop\<close> on a state of its own; the locale of
  \<^verbatim>\<open>Adapter_Handoff\<close> states its contract and interprets it on the modelled ring. The sample-rate
  converter and the program ring are code outside, and parameters as well. A method returns its result and
  the updated state; an early return keeps what was changed before it.
\<close>

section \<open>Values\<close>

definition STATUS_CAPACITY :: nat where "STATUS_CAPACITY = 16"
definition CTCSS_TONE_COUNT :: int where "CTCSS_TONE_COUNT = 38"
definition MAX_ECHO_FRAMES :: nat where "MAX_ECHO_FRAMES = 1000"

datatype conversion_error = ConversionError
datatype program_producer_error = ProgramProducerError

datatype ctcss_tone_index = CtcssToneIndex int

definition ctcss_tone_index_new :: "int \<Rightarrow> ctcss_tone_index option" where
  "ctcss_tone_index_new index = (if index < CTCSS_TONE_COUNT then Some (CtcssToneIndex index) else None)"

record receive_qualification =
  carrier_active :: bool
  subaudible_active :: bool
  receiver_keyed :: bool
  ctcss_decoded :: "ctcss_tone_index option"
  dcs_valid :: bool

definition receive_qualification_default :: receive_qualification where
  "receive_qualification_default =
     \<lparr>carrier_active = False, subaudible_active = False, receiver_keyed = False, ctcss_decoded = None,
      dcs_valid = False\<rparr>"

record echo_configuration =
  echo_config_enabled :: bool
  echo_maximum_frames :: nat

definition echo_configuration_disabled :: echo_configuration where
  "echo_configuration_disabled = \<lparr>echo_config_enabled = False, echo_maximum_frames = 0\<rparr>"

definition echo_configuration_default :: echo_configuration where
  "echo_configuration_default = \<lparr>echo_config_enabled = False, echo_maximum_frames = MAX_ECHO_FRAMES\<rparr>"

datatype receive_status = StatusTransmitCtcssReady request_tone | StatusVoterRssi int

record receive_metadata =
  meta_qualification :: receive_qualification
  meta_controller_ctcss :: "request_tone option"
  meta_statuses :: "receive_status option \<times> receive_status option"

text \<open>\<open>into_iter().flatten()\<close> of the two optional statuses.\<close>

definition new_statuses :: "receive_metadata \<Rightarrow> receive_status list" where
  "new_statuses m =
     (case meta_statuses m of (a, b) \<Rightarrow>
        (case a of None \<Rightarrow> [] | Some x \<Rightarrow> [x]) @ (case b of None \<Rightarrow> [] | Some y \<Rightarrow> [y]))"

section \<open>The status journal\<close>

text \<open>The last statuses in a ring; \<open>journal_produced\<close> counts all of them in 64 bits.\<close>

record status_journal =
  journal_events :: "receive_status list"
  journal_produced :: nat

definition journal_new :: status_journal where
  "journal_new = \<lparr>journal_events = replicate STATUS_CAPACITY (StatusVoterRssi 0), journal_produced = 0\<rparr>"

definition journal_push :: "receive_status \<Rightarrow> status_journal \<Rightarrow> status_journal" where
  "journal_push status j =
     \<lparr>journal_events = (journal_events j)[journal_produced j mod STATUS_CAPACITY := status],
      journal_produced = (journal_produced j + 1) mod 2 ^ 64\<rparr>"

definition oldest_sequence :: "status_journal \<Rightarrow> nat" where
  "oldest_sequence j = journal_produced j - STATUS_CAPACITY"

definition journal_get :: "nat \<Rightarrow> status_journal \<Rightarrow> receive_status" where
  "journal_get sequence j = journal_events j ! (sequence mod STATUS_CAPACITY)"

record receive_packet =
  packet_frame :: controller_pcm_frame
  packet_qualification :: receive_qualification
  packet_controller_ctcss :: "request_tone option"
  packet_statuses :: status_journal

section \<open>The publisher\<close>

datatype 'c receive_egress = EgressAppRpt 'c | EgressAdvanced

record 'c receive_publisher =
  publisher_mode :: asterisk_pcm_mode
  egress :: "'c receive_egress"
  assembler :: frame_assembler
  native_remainder :: nat
  converted :: "rust_float list"
  quantized :: "int list"
  statuses :: status_journal

record publish_report =
  completed_frame :: bool
  report_handoff :: "publish_outcome option"

datatype adapter_error =
    InvalidNativeFrame
  | SampleRate conversion_error
  | ConversionStalled
  | InvalidConversionResult
  | PcmError pcm_boundary_error
  | WrongInterface
  | ProgramRing program_producer_error
  | InvalidProgramRingResult

fun adapter_error_display :: "adapter_error \<Rightarrow> string" where
  "adapter_error_display InvalidNativeFrame = ''invalid native receive frame''"
| "adapter_error_display (SampleRate _) = ''app_rpt sample-rate conversion failed''"
| "adapter_error_display ConversionStalled = ''sample-rate conversion stalled''"
| "adapter_error_display InvalidConversionResult = ''sample-rate converter returned invalid counts''"
| "adapter_error_display (PcmError error) = pcm_boundary_error_display error"
| "adapter_error_display WrongInterface = ''controller PCM interface mismatch''"
| "adapter_error_display (ProgramRing _) = ''program-ring producer failed''"
| "adapter_error_display InvalidProgramRingResult = ''program ring accepted beyond submitted audio''"

text \<open>
  \<open>AppRptConverter::process\<close>: from the input and the output buffer to the counts of samples used and
  generated, or an error, what the output buffer then holds, and the converter's own state.
\<close>

type_synonym 'c converter =
  "rust_float list \<Rightarrow> rust_float list \<Rightarrow> 'c \<Rightarrow> (conversion_error, nat \<times> nat) result \<times> rust_float list \<times> 'c"

text \<open>An append moves the count by what it appends, and never past the end of the buffer.\<close>

lemma assembler_append_room:
  assumes "assembler_append xs a = (Inr u, b)"
  shows "length (assembler_samples b) = length (assembler_samples a)"
    "assembler_count b = assembler_count a + length xs" "assembler_count b \<le> length (assembler_samples b)"
  using assms by (auto simp: assembler_append_def overwrite_def Let_def split: if_splits)

text \<open>
  The loop of the app_rpt egress over the samples not yet used. A callee can write into a slice but not change
  its length.
\<close>

function convert_app_rpt ::
  "'c converter \<Rightarrow> rust_float list \<Rightarrow> 'c \<Rightarrow> 'c receive_publisher \<Rightarrow>
   (adapter_error, unit) result \<times> 'c receive_publisher" where
  "convert_app_rpt process input c p =
     (if input = [] then (Inr (), p)
      else
        (case process input (converted p) c of
           (r, out, c) \<Rightarrow>
             let p = p\<lparr>egress := EgressAppRpt c,
                       converted := overwrite 0 (take (length (converted p)) out) (converted p)\<rparr> in
             (case r of
                Inl error \<Rightarrow> (Inl (SampleRate error), p)
              | Inr (input_used, output_generated) \<Rightarrow>
                  if length input < input_used \<or> length (converted p) < output_generated
                  then (Inl InvalidConversionResult, p)
                  else if input_used = 0 \<and> output_generated = 0 then (Inl ConversionStalled, p)
                  else
                    (let p = p\<lparr>quantized :=
                           overwrite 0 (map f32_to_s16 (take output_generated (converted p))) (quantized p)\<rparr> in
                     case assembler_append (take output_generated (quantized p)) (assembler p) of
                       (Inl error, a) \<Rightarrow> (Inl (PcmError error), p\<lparr>assembler := a\<rparr>)
                     | (Inr _, a) \<Rightarrow> convert_app_rpt process (drop input_used input) c (p\<lparr>assembler := a\<rparr>)))))"
  by pat_completeness auto

termination
proof (relation "measures [\<lambda>(process, input, c, p). length input,
      \<lambda>(process, input, c, p). length (assembler_samples (assembler p)) - assembler_count (assembler p)]", goal_cases)
  case (2 process input c p x y out c' p1 b used generated p2 r a u)
  have "length (assembler_samples a) = length (assembler_samples (assembler p))"
    "assembler_count a = assembler_count (assembler p) + length (take generated (quantized p2))"
    "assembler_count a \<le> length (assembler_samples a)"
    using assembler_append_room [of "take generated (quantized p2)" "assembler p2" u a] 2(4,9-11) by simp_all
  moreover have "generated \<le> length (quantized p2)" using 2 by (auto simp: overwrite_def)
  ultimately show ?case using 2 by (cases input) auto
qed simp

declare convert_app_rpt.simps [simp del]

definition convert_span ::
  "'c converter \<Rightarrow> rust_float list \<Rightarrow> 'c receive_publisher \<Rightarrow>
   (adapter_error, unit) result \<times> 'c receive_publisher" where
  "convert_span process input p =
     (case egress p of
        EgressAdvanced \<Rightarrow>
          (let p = p\<lparr>quantized := overwrite 0 (map f32_to_s16 input) (quantized p)\<rparr> in
           case assembler_append (take (length input) (quantized p)) (assembler p) of
             (r, a) \<Rightarrow> (map_err PcmError r, p\<lparr>assembler := a\<rparr>))
      | EgressAppRpt c \<Rightarrow> convert_app_rpt process input c p)"

text \<open>The two arms of the mode differ in the frame size and the constructor of the frame.\<close>

definition take_frame ::
  "bool \<Rightarrow> 'c receive_publisher \<Rightarrow> (adapter_error, controller_pcm_frame) result \<times> 'c receive_publisher" where
  "take_frame keyed p =
     (case assembler_take_padded (replicate (frame_samples (publisher_mode p)) 0) (assembler p) of
        (Inl error, samples, a) \<Rightarrow> (Inl (PcmError error), p\<lparr>assembler := a\<rparr>)
      | (Inr _, samples, a) \<Rightarrow>
          (let samples = (if keyed then samples else replicate (length samples) 0) in
           (Inr (case publisher_mode p of AppRpt \<Rightarrow> app_rpt samples | Advanced \<Rightarrow> advanced samples),
            p\<lparr>assembler := a\<rparr>)))"

lemma convert_app_rpt_remainder: "native_remainder (snd (convert_app_rpt process input c p)) = native_remainder p"
  by (induction process input c p rule: convert_app_rpt.induct)
     (subst convert_app_rpt.simps, auto simp: Let_def split: sum.split prod.split)

lemma convert_span_remainder: "native_remainder (snd (convert_span process input p)) = native_remainder p"
  using convert_app_rpt_remainder by (auto simp: convert_span_def Let_def split: receive_egress.split prod.split)

lemma take_frame_remainder: "native_remainder (snd (take_frame keyed p)) = native_remainder p"
  by (auto simp: take_frame_def Let_def split: prod.split sum.split)

text \<open>
  The loop of \<open>publish\<close> over the samples not yet converted. The subtraction of the remainder wraps; that it
  never does is part of the invariant.
\<close>

function publish_spans ::
  "'c converter \<Rightarrow> (receive_packet \<Rightarrow> 'h \<Rightarrow> publish_outcome \<times> 'h) \<Rightarrow> receive_metadata \<Rightarrow> rust_float list \<Rightarrow>
   publish_report \<Rightarrow> 'c receive_publisher \<Rightarrow> 'h \<Rightarrow>
   (adapter_error, publish_report) result \<times> 'c receive_publisher \<times> 'h" where
  "publish_spans process push metadata input report p h =
     (if input = [] then (Inr report, p, h)
      else
        (let count =
           (if native_remainder p \<le> ADVANCED_FRAME_SAMPLES
            then min (ADVANCED_FRAME_SAMPLES - native_remainder p) (length input) else length input) in
         case convert_span process (take count input) p of
           (Inl error, p) \<Rightarrow> (Inl error, p, h)
         | (Inr _, p) \<Rightarrow>
             (let p = p\<lparr>native_remainder := native_remainder p + count\<rparr> in
              if native_remainder p = ADVANCED_FRAME_SAMPLES then
                (case take_frame (receiver_keyed (meta_qualification metadata)) (p\<lparr>native_remainder := 0\<rparr>) of
                   (Inl error, p) \<Rightarrow> (Inl error, p, h)
                 | (Inr frame, p) \<Rightarrow>
                     (let packet = \<lparr>packet_frame = frame, packet_qualification = meta_qualification metadata,
                                    packet_controller_ctcss = meta_controller_ctcss metadata,
                                    packet_statuses = statuses p\<rparr> in
                      case push packet h of
                        (outcome, h) \<Rightarrow>
                          publish_spans process push metadata (drop count input)
                            (report\<lparr>completed_frame := True, report_handoff := Some outcome\<rparr>) p h))
              else publish_spans process push metadata (drop count input) report p h)))"
  by pat_completeness auto

termination
proof (relation "measures [\<lambda>(process, push, metadata, input, report, p, h). length input,
      \<lambda>(process, push, metadata, input, report, p, h). if native_remainder p = ADVANCED_FRAME_SAMPLES then 1 else 0]",
    goal_cases)
  case (2 process push metadata input report p h count r p1 b p2 r' p3 frame packet outcome h')
  have "p1 = snd (convert_span process (take count input) p)" using 2(3) by (metis snd_conv)
  then have remainder: "native_remainder p1 = native_remainder p" by (simp only: convert_span_remainder)
  have "p3 = snd (take_frame (receiver_keyed (meta_qualification metadata)) (p2\<lparr>native_remainder := 0\<rparr>))"
    using 2(7) by (metis snd_conv)
  then have "native_remainder p3 = 0" by (simp add: take_frame_remainder)
  with remainder show ?case using 2(1,2,5,6) by (cases input) (auto simp: ADVANCED_FRAME_SAMPLES_def split: if_splits)
next
  case (3 process push metadata input report p h count r p1 b p2)
  have "p1 = snd (convert_span process (take count input) p)" using 3(3) by (metis snd_conv)
  then have "native_remainder p1 = native_remainder p" by (simp only: convert_span_remainder)
  then show ?case using 3(1,2,5,6) by (cases input) (auto simp: ADVANCED_FRAME_SAMPLES_def split: if_splits)
qed simp

declare publish_spans.simps [simp del]

definition publish_audio ::
  "'c converter \<Rightarrow> (receive_packet \<Rightarrow> 'h \<Rightarrow> publish_outcome \<times> 'h) \<Rightarrow> rust_float list \<Rightarrow> receive_metadata \<Rightarrow>
   'c receive_publisher \<Rightarrow> 'h \<Rightarrow> (adapter_error, publish_report) result \<times> 'c receive_publisher \<times> 'h" where
  "publish_audio process push native_mono metadata p h =
     (if native_mono = [] \<or> ADVANCED_FRAME_SAMPLES < length native_mono then (Inl InvalidNativeFrame, p, h)
      else
        publish_spans process push metadata native_mono \<lparr>completed_frame = False, report_handoff = None\<rparr>
          (p\<lparr>statuses := fold journal_push (new_statuses metadata) (statuses p)\<rparr>) h)"

section \<open>Delivery state\<close>

datatype delivery_phase = DeliverReceiverState | DeliverStatus | DeliverVoice

datatype delivery_action =
    ReceiverKey "request_tone option"
  | ReceiverUnkey
  | Voice
  | DeliverTransmitCtcssReady request_tone
  | DeliverVoterRssi int

record status_observation =
  next_sequence :: nat
  status_discarded :: nat

datatype dtmf_event_kind = DtmfBegin | DtmfEnd

record dtmf_event =
  dtmf_kind :: dtmf_event_kind
  dtmf_digit :: int

datatype dtmf_action =
    PassVoice
  | ForwardBegin int
  | ForwardEnd int nat
  | MutePseudoDigit
  | SuppressRepeatedBegin

section \<open>Legacy echo\<close>

datatype echo_mode = EchoDisabled | EchoRecording | EchoPlaying

record legacy_echo =
  echo_state :: echo_mode
  echo_samples :: "int list"
  echo_length :: nat
  echo_playback :: nat

definition legacy_echo_new :: "echo_configuration \<Rightarrow> legacy_echo" where
  "legacy_echo_new configuration =
     \<lparr>echo_state = (if echo_config_enabled configuration then EchoRecording else EchoDisabled),
      echo_samples = replicate (echo_maximum_frames configuration * APP_RPT_FRAME_SAMPLES) 0,
      echo_length = 0, echo_playback = 0\<rparr>"

definition legacy_echo_enabled :: "legacy_echo \<Rightarrow> bool" where
  "legacy_echo_enabled e \<longleftrightarrow> echo_state e \<noteq> EchoDisabled"

definition legacy_echo_playing :: "legacy_echo \<Rightarrow> bool" where
  "legacy_echo_playing e \<longleftrightarrow> echo_state e = EchoPlaying"

definition legacy_echo_clear :: "legacy_echo \<Rightarrow> legacy_echo" where
  "legacy_echo_clear e =
     e\<lparr>echo_samples := overwrite 0 (replicate (echo_length e) 0) (echo_samples e),
       echo_length := 0, echo_playback := 0\<rparr>"

definition legacy_echo_set_enabled :: "bool \<Rightarrow> legacy_echo \<Rightarrow> legacy_echo" where
  "legacy_echo_set_enabled enabled e =
     (legacy_echo_clear e)\<lparr>echo_state := (if enabled then EchoRecording else EchoDisabled)\<rparr>"

definition legacy_echo_receive :: "controller_pcm_frame \<Rightarrow> bool \<Rightarrow> legacy_echo \<Rightarrow> legacy_echo" where
  "legacy_echo_receive frame keyed e =
     (if echo_state e \<noteq> EchoRecording then e
      else if keyed \<and> frame_mode frame = AppRpt then
        (let samples = frame_audio frame;
             copied = min (length samples) (length (echo_samples e) - echo_length e) in
         e\<lparr>echo_samples := overwrite (echo_length e) (take copied samples) (echo_samples e),
           echo_length := echo_length e + copied\<rparr>)
      else if echo_length e \<noteq> 0 then e\<lparr>echo_state := EchoPlaying, echo_playback := 0\<rparr>
      else e)"

definition finish_playback_frame :: "nat \<Rightarrow> legacy_echo \<Rightarrow> legacy_echo" where
  "finish_playback_frame count e =
     (let e = e\<lparr>echo_playback := echo_playback e + count\<rparr> in
      if echo_length e \<le> echo_playback e then (legacy_echo_clear e)\<lparr>echo_state := EchoRecording\<rparr> else e)"

section \<open>Legacy DTMF\<close>

record dtmf_state =
  dtmf_enabled :: bool
  active_since_ms :: "nat option"

definition dtmf_state_new :: "bool \<Rightarrow> dtmf_state" where
  "dtmf_state_new enabled = \<lparr>dtmf_enabled = enabled, active_since_ms = None\<rparr>"

definition dtmf_handle :: "dtmf_event \<Rightarrow> nat \<Rightarrow> dtmf_state \<Rightarrow> dtmf_action \<times> dtmf_state" where
  "dtmf_handle event now_ms d =
     (if \<not> dtmf_enabled d then (PassVoice, d)
      else if dtmf_digit event = byte (CHR ''m'') \<or> dtmf_digit event = byte (CHR ''u'') then (MutePseudoDigit, d)
      else
        (case dtmf_kind event of
           DtmfBegin \<Rightarrow>
             if active_since_ms d \<noteq> None then (SuppressRepeatedBegin, d)
             else (ForwardBegin (dtmf_digit event), d\<lparr>active_since_ms := Some now_ms\<rparr>)
         | DtmfEnd \<Rightarrow>
             (ForwardEnd (dtmf_digit event)
                (case active_since_ms d of None \<Rightarrow> 0 | Some started \<Rightarrow> now_ms - started),
              d\<lparr>active_since_ms := None\<rparr>)))"

section \<open>The controller\<close>

datatype program_source = SourceController | SourceLegacyEcho

record program_write =
  write_source :: program_source
  submitted_samples :: nat
  accepted_samples :: nat
  echo_completed :: bool

text \<open>The program ring is a parameter with the state \<open>program_ring\<close>.\<close>

record 'p controller_state =
  controller_mode :: asterisk_pcm_mode
  pending_delivery :: "(receive_packet \<times> delivery_phase) option"
  delivered_keyed :: bool
  status_progress :: status_observation
  program_ring :: 'p
  program_f32 :: "rust_float list"
  controller_echo :: legacy_echo
  controller_dtmf :: dtmf_state
  controller_control :: control_snapshot
  latest_receive :: receive_qualification

type_synonym 'p program_push =
  "rust_float list \<Rightarrow> receive_qualification \<Rightarrow> 'p \<Rightarrow> (program_producer_error, nat) result \<times> 'p"

record controller_reload_state =
  reload_mode :: asterisk_pcm_mode
  reload_delivered_keyed :: bool
  reload_echo :: legacy_echo
  reload_dtmf :: dtmf_state
  reload_control :: control_snapshot
  reload_latest_receive :: receive_qualification

definition publisher_new :: "asterisk_pcm_mode \<Rightarrow> 'c receive_egress \<Rightarrow> 'c receive_publisher" where
  "publisher_new mode output =
     \<lparr>publisher_mode = mode, egress = output, assembler = assembler_new mode, native_remainder = 0,
      converted = replicate ADVANCED_FRAME_SAMPLES (f64 0),
      quantized = replicate ADVANCED_FRAME_SAMPLES 0, statuses = journal_new\<rparr>"

definition controller_new :: "asterisk_pcm_mode \<Rightarrow> 'p \<Rightarrow> echo_configuration \<Rightarrow> 'p controller_state" where
  "controller_new mode program echo =
     \<lparr>controller_mode = mode, pending_delivery = None, delivered_keyed = False,
      status_progress = \<lparr>next_sequence = 0, status_discarded = 0\<rparr>, program_ring = program,
      program_f32 = replicate ADVANCED_FRAME_SAMPLES (f64 0), controller_echo = legacy_echo_new echo,
      controller_dtmf = dtmf_state_new (mode = AppRpt),
      controller_control = control_snapshot_default,
      latest_receive = receive_qualification_default\<rparr>"

definition adapter_prepare ::
  "asterisk_pcm_mode \<Rightarrow> 'c receive_egress \<Rightarrow> 'p \<Rightarrow> nat \<Rightarrow> echo_configuration \<Rightarrow>
   (handoff_error, 'c receive_publisher \<times> 'p controller_state \<times> receive_packet handoff) result" where
  "adapter_prepare mode output program handoff_slots echo =
     res_bind (handoff_split handoff_slots) (\<lambda>h.
       Inr (publisher_new mode output, controller_new mode program echo, h))"

definition prepare_app_rpt ::
  "'c \<Rightarrow> 'p \<Rightarrow> nat \<Rightarrow> echo_configuration \<Rightarrow>
   (handoff_error, 'c receive_publisher \<times> 'p controller_state \<times> receive_packet handoff) result" where
  "prepare_app_rpt converter program handoff_slots echo =
     adapter_prepare AppRpt (EgressAppRpt converter) program handoff_slots echo"

definition prepare_advanced ::
  "'p \<Rightarrow> nat \<Rightarrow> (handoff_error, 'c receive_publisher \<times> 'p controller_state \<times> receive_packet handoff) result" where
  "prepare_advanced program handoff_slots =
     adapter_prepare Advanced EgressAdvanced program handoff_slots echo_configuration_disabled"

definition status_action :: "receive_status \<Rightarrow> delivery_action" where
  "status_action status =
     (case status of
        StatusTransmitCtcssReady tone \<Rightarrow> DeliverTransmitCtcssReady tone
      | StatusVoterRssi v \<Rightarrow> DeliverVoterRssi v)"

definition phase_rank :: "('k \<times> delivery_phase) option \<Rightarrow> nat" where
  "phase_rank d =
     (case d of None \<Rightarrow> 3 | Some (_, DeliverReceiverState) \<Rightarrow> 2 | Some (_, DeliverStatus) \<Rightarrow> 1 | Some (_, DeliverVoice) \<Rightarrow> 0)"

text \<open>
  The loop of \<open>next_action\<close>; the frame that it writes to the caller's buffer is part of its result. Without a
  pending packet it takes one; every other round moves the phase on or returns.
\<close>

function next_action ::
  "('h \<Rightarrow> receive_packet option \<times> 'h) \<Rightarrow> 'p controller_state \<Rightarrow> 'h \<Rightarrow>
   (delivery_action \<times> controller_pcm_frame option) option \<times> 'p controller_state \<times> 'h" where
  "next_action pop s h =
     (case pending_delivery s of
        None \<Rightarrow>
          (case pop h of
             (None, h) \<Rightarrow> (None, s, h)
           | (Some packet, h) \<Rightarrow>
               next_action pop (s\<lparr>pending_delivery := Some (packet, DeliverReceiverState)\<rparr>) h)
      | Some (packet, DeliverReceiverState) \<Rightarrow>
          (let keyed = receiver_keyed (packet_qualification packet);
               s' = s\<lparr>pending_delivery := Some (packet, DeliverStatus),
                      latest_receive := packet_qualification packet\<rparr> in
           if delivered_keyed s \<noteq> keyed
           then (Some (if keyed then ReceiverKey (packet_controller_ctcss packet) else ReceiverUnkey, None),
                 s'\<lparr>delivered_keyed := keyed\<rparr>, h)
           else next_action pop s' h)
      | Some (packet, DeliverStatus) \<Rightarrow>
          (let oldest = oldest_sequence (packet_statuses packet);
               progress = status_progress s;
               progress = (if next_sequence progress < oldest
                           then \<lparr>next_sequence = oldest,
                                 status_discarded = status_discarded progress + (oldest - next_sequence progress)\<rparr>
                           else progress) in
           if next_sequence progress < journal_produced (packet_statuses packet)
           then (Some (status_action (journal_get (next_sequence progress) (packet_statuses packet)), None),
                 s\<lparr>status_progress := progress\<lparr>next_sequence := next_sequence progress + 1\<rparr>\<rparr>, h)
           else next_action pop
                  (s\<lparr>status_progress := progress, pending_delivery := Some (packet, DeliverVoice)\<rparr>) h)
      | Some (packet, DeliverVoice) \<Rightarrow>
          (Some (Voice, Some (packet_frame packet)),
           s\<lparr>pending_delivery := None,
             controller_echo := legacy_echo_receive (packet_frame packet)
               (receiver_keyed (packet_qualification packet)) (controller_echo s)\<rparr>, h))"
  by pat_completeness auto

termination
  by (relation "measure (\<lambda>(pop, s, h). phase_rank (pending_delivery s))") (auto simp: phase_rank_def)

declare next_action.simps [simp del]

text \<open>
  The samples of a program write: an index out of range is a panic, and then there is no result.
\<close>

definition echo_frame :: "legacy_echo \<Rightarrow> int list option" where
  "echo_frame e =
     (if echo_playback e + APP_RPT_FRAME_SAMPLES \<le> length (echo_samples e)
      then Some (take APP_RPT_FRAME_SAMPLES (drop (echo_playback e) (echo_samples e))) else None)"

definition write_program ::
  "'p program_push \<Rightarrow> controller_pcm_frame \<Rightarrow> 'p controller_state \<Rightarrow>
   ((adapter_error, program_write) result \<times> 'p controller_state) option" where
  "write_program push frame s =
     (if frame_mode frame \<noteq> controller_mode s then Some (Inl WrongInterface, s)
      else
        (let source = (if legacy_echo_playing (controller_echo s) then SourceLegacyEcho else SourceController) in
         case (if source = SourceLegacyEcho then echo_frame (controller_echo s) else Some (frame_audio frame)) of
           None \<Rightarrow> None
         | Some samples \<Rightarrow>
             (let sample_count = length samples;
                  s = s\<lparr>program_f32 := overwrite 0 (map s16_to_f32 samples) (program_f32 s)\<rparr> in
              case push (take sample_count (program_f32 s)) (latest_receive s) (program_ring s) of
                (Inl error, p) \<Rightarrow> Some (Inl (ProgramRing error), s\<lparr>program_ring := p\<rparr>)
              | (Inr n, p) \<Rightarrow>
                  if sample_count < n then Some (Inl InvalidProgramRingResult, s\<lparr>program_ring := p\<rparr>)
                  else
                    (let e = controller_echo s;
                         completed = (source = SourceLegacyEcho \<and> echo_length e \<le> echo_playback e + sample_count) in
                     Some (Inr \<lparr>write_source = source, submitted_samples = sample_count,
                                accepted_samples = n, echo_completed = completed\<rparr>,
                       s\<lparr>program_ring := p,
                         controller_echo := (if source = SourceLegacyEcho then finish_playback_frame sample_count e else e)\<rparr>)))))"

definition adapter_apply_control :: "control_message \<Rightarrow> 'p controller_state \<Rightarrow> control_action \<times> 'p controller_state" where
  "adapter_apply_control message s =
     (case control_apply message (controller_control s) of (action, c) \<Rightarrow> (action, s\<lparr>controller_control := c\<rparr>))"

definition set_dtmf_detection :: "bool \<Rightarrow> 'p controller_state \<Rightarrow> 'p controller_state" where
  "set_dtmf_detection enabled s =
     (if controller_mode s = AppRpt then
        s\<lparr>controller_dtmf :=
            \<lparr>dtmf_enabled = enabled,
             active_since_ms = (if enabled then active_since_ms (controller_dtmf s) else None)\<rparr>\<rparr>
      else s)"

definition handle_dtmf :: "dtmf_event \<Rightarrow> nat \<Rightarrow> 'p controller_state \<Rightarrow> dtmf_action \<times> 'p controller_state" where
  "handle_dtmf event now_ms s =
     (case dtmf_handle event now_ms (controller_dtmf s) of (action, d) \<Rightarrow> (action, s\<lparr>controller_dtmf := d\<rparr>))"

definition set_echo_enabled :: "bool \<Rightarrow> 'p controller_state \<Rightarrow> 'p controller_state" where
  "set_echo_enabled enabled s =
     (if controller_mode s = AppRpt
      then s\<lparr>controller_echo := legacy_echo_set_enabled enabled (controller_echo s)\<rparr> else s)"

text \<open>\<open>observe\<close> is what the handoff reports.\<close>

definition reload_state :: "handoff_observation \<Rightarrow> 'p controller_state \<Rightarrow> controller_reload_state option" where
  "reload_state observe s =
     (if pending_delivery s \<noteq> None \<or> available observe \<noteq> 0 then None
      else Some \<lparr>reload_mode = controller_mode s, reload_delivered_keyed = delivered_keyed s,
                 reload_echo = controller_echo s, reload_dtmf = controller_dtmf s,
                 reload_control = controller_control s, reload_latest_receive = latest_receive s\<rparr>)"

definition restore_reload_state :: "controller_reload_state \<Rightarrow> 'p controller_state \<Rightarrow> 'p controller_state" where
  "restore_reload_state r s =
     (if controller_mode s \<noteq> reload_mode r then s
      else s\<lparr>delivered_keyed := reload_delivered_keyed r, controller_echo := reload_echo r,
             controller_dtmf := reload_dtmf r, controller_control := reload_control r,
             latest_receive := reload_latest_receive r\<rparr>)"

end
