(* ===== verification/Adapter_Publisher.thy ===== *)
theory Adapter_Publisher
  imports Adapter "HOL-Library.Sublist"
begin

text \<open>
  The receive half of the adapter: the publisher of the fixed-rate interface as a function of the sample
  stream, its invariant on every path, and the journal that carries the statuses.
\<close>

section \<open>The journal\<close>

definition journal_of :: "receive_status list \<Rightarrow> status_journal" where
  "journal_of sts = fold journal_push sts journal_new"

lemma journal_of_snoc: "journal_of (sts @ [x]) = journal_push x (journal_of sts)"
  by (simp add: journal_of_def)

lemma journal_of_append: "fold journal_push ys (journal_of xs) = journal_of (xs @ ys)"
  by (simp add: journal_of_def)

lemma length_journal_of: "length (journal_events (journal_of sts)) = STATUS_CAPACITY"
  by (induction sts rule: rev_induct) (simp_all add: journal_of_snoc journal_push_def journal_of_def journal_new_def)

lemma journal_produced_of: "length sts < 2 ^ 64 \<Longrightarrow> journal_produced (journal_of sts) = length sts"
  by (induction sts rule: rev_induct)
     (simp_all add: journal_of_snoc journal_push_def, simp add: journal_of_def journal_new_def)

lemma mod_distinct:
  fixes a b m :: nat
  assumes "a mod m = b mod m" "a < b" shows "a + m \<le> b"
proof -
  have "m dvd b - a" using assms by (metis mod_eq_dvd_iff_nat less_imp_le_nat)
  then have "m \<le> b - a" using assms(2) by (simp add: dvd_imp_le)
  then show ?thesis using assms(2) by simp
qed

text \<open>The last statuses of the stream can be read by their number.\<close>

lemma journal_get_of:
  assumes "length sts < 2 ^ 64" "i < length sts" "oldest_sequence (journal_of sts) \<le> i"
  shows "journal_get i (journal_of sts) = sts ! i"
  using assms
proof (induction sts rule: rev_induct)
  case (snoc x sts)
  have produced: "journal_produced (journal_of sts) = length sts"
    "journal_produced (journal_of (sts @ [x])) = Suc (length sts)"
    using snoc.prems(1) journal_produced_of [of sts] journal_produced_of [of "sts @ [x]"] by simp_all
  show ?case
  proof (cases "i = length sts")
    case True
    then show ?thesis
      using produced length_journal_of [of sts]
      by (simp add: journal_of_snoc journal_push_def journal_get_def STATUS_CAPACITY_def)
  next
    case False
    then have i: "i < length sts" "length sts < i + STATUS_CAPACITY"
      using snoc.prems(2,3) produced by (auto simp: oldest_sequence_def STATUS_CAPACITY_def)
    then have "i mod STATUS_CAPACITY \<noteq> length sts mod STATUS_CAPACITY" using mod_distinct by fastforce
    then show ?thesis
      using snoc.IH snoc.prems(1) i produced
      by (simp add: journal_of_snoc journal_push_def journal_get_def oldest_sequence_def nth_append)
  qed
qed simp

section \<open>One call\<close>

text \<open>The state between two calls on the fixed-rate interface; the assembler holds what is left of a frame.\<close>

definition advanced_publisher :: "'c receive_publisher \<Rightarrow> bool" where
  "advanced_publisher p \<longleftrightarrow>
     publisher_mode p = Advanced \<and> egress p = EgressAdvanced \<and> assembler_inv (assembler p) \<and>
     assembler_mode (assembler p) = Advanced \<and> length (quantized p) = ADVANCED_FRAME_SAMPLES \<and>
     native_remainder p = length (pending (assembler p)) \<and> native_remainder p \<le> ADVANCED_FRAME_SAMPLES"

lemma convert_span_advanced:
  assumes "advanced_publisher p" "native_remainder p + length input \<le> ADVANCED_FRAME_SAMPLES"
  shows "\<exists>p'. convert_span process input p = (Inr (), p') \<and>
    advanced_publisher (p'\<lparr>native_remainder := native_remainder p + length input\<rparr>) \<and>
    pending (assembler p') = pending (assembler p) @ map f32_to_s16 input \<and>
    statuses p' = statuses p \<and> native_remainder p' = native_remainder p"
proof -
  let ?q = "overwrite 0 (map f32_to_s16 input) (quantized p)"
  obtain r a where a: "assembler_append (map f32_to_s16 input) (assembler p) = (r, a)" by fastforce
  have "length input \<le> length (quantized p)" using assms by (simp add: advanced_publisher_def)
  then have q: "take (length input) ?q = map f32_to_s16 input" "length ?q = length (quantized p)"
    by (simp_all add: overwrite_def)
  have "ADVANCED_FRAME_SAMPLES \<le> ASSEMBLY_CAPACITY" by (simp add: ASSEMBLY_CAPACITY_def)
  then have "length (pending (assembler p)) + length input \<le> ASSEMBLY_CAPACITY"
    using assms by (simp add: advanced_publisher_def)
  then have out: "r = Inr ()" "pending a = pending (assembler p) @ map f32_to_s16 input" "assembler_inv a"
      "assembler_mode a = Advanced"
    using assembler_append_outcome [OF _ a] assms(1) by (auto simp: advanced_publisher_def)
  show ?thesis
    using assms q a out by (auto simp: convert_span_def advanced_publisher_def Let_def)
qed

lemma take_frame_advanced:
  assumes "advanced_publisher p" "native_remainder p = ADVANCED_FRAME_SAMPLES"
  shows "\<exists>p'. take_frame keyed (p\<lparr>native_remainder := 0\<rparr>) =
      (Inr (advanced (if keyed then pending (assembler p) else replicate ADVANCED_FRAME_SAMPLES 0)), p') \<and>
    advanced_publisher p' \<and> pending (assembler p') = [] \<and> statuses p' = statuses p \<and> native_remainder p' = 0"
proof -
  let ?zeros = "replicate (frame_samples Advanced) 0"
  obtain r out a where t: "assembler_take_padded ?zeros (assembler p) = (r, out, a)" by (metis prod_cases3)
  have n: "frame_samples Advanced = ADVANCED_FRAME_SAMPLES" by (simp add: frame_samples_def)
  obtain buf where "r = Inr ()" "pending (assembler p) = buf @ pending a"
      "out = buf @ replicate (ADVANCED_FRAME_SAMPLES - length buf) 0" "length buf = ADVANCED_FRAME_SAMPLES"
      "assembler_inv a" "assembler_mode a = Advanced"
    using assembler_take_padded_outcome [OF _ t] assms n by (auto simp: advanced_publisher_def)
  moreover from this have "pending a = []" "out = pending (assembler p)"
    using assms by (auto simp: advanced_publisher_def)
  ultimately show ?thesis
    using assms t n by (auto simp: take_frame_def advanced_publisher_def)
qed

text \<open>The packet of a completed frame.\<close>

definition packet_for :: "receive_metadata \<Rightarrow> status_journal \<Rightarrow> int list \<Rightarrow> receive_packet" where
  "packet_for metadata j buf =
     \<lparr>packet_frame =
        advanced (if receiver_keyed (meta_qualification metadata) then buf else replicate ADVANCED_FRAME_SAMPLES 0),
      packet_qualification = meta_qualification metadata,
      packet_controller_ctcss = meta_controller_ctcss metadata, packet_statuses = j\<rparr>"

text \<open>Between two calls less than a frame is left.\<close>

definition resting_publisher :: "'c receive_publisher \<Rightarrow> bool" where
  "resting_publisher p \<longleftrightarrow> advanced_publisher p \<and> native_remainder p < ADVANCED_FRAME_SAMPLES"

lemma publish_spans_short:
  assumes "resting_publisher p" "native_remainder p + length input < ADVANCED_FRAME_SAMPLES"
  shows "\<exists>p'. publish_spans process push metadata input report p h = (Inr report, p', h) \<and> resting_publisher p' \<and>
    pending (assembler p') = pending (assembler p) @ map f32_to_s16 input \<and> statuses p' = statuses p"
proof (cases "input = []")
  case True
  then show ?thesis using assms by (auto simp: publish_spans.simps)
next
  case False
  have p: "advanced_publisher p" using assms(1) by (simp add: resting_publisher_def)
  have count: "min (ADVANCED_FRAME_SAMPLES - native_remainder p) (length input) = length input" using assms(2) by simp
  obtain p' where "convert_span process input p = (Inr (), p')"
      "advanced_publisher (p'\<lparr>native_remainder := native_remainder p + length input\<rparr>)"
      "pending (assembler p') = pending (assembler p) @ map f32_to_s16 input"
      "statuses p' = statuses p" "native_remainder p' = native_remainder p"
    using convert_span_advanced [OF p] assms(2) by (metis less_imp_le_nat)
  then show ?thesis
    using assms False
    by (subst publish_spans.simps, simp only: count) (auto simp: resting_publisher_def publish_spans.simps [of _ _ _ "[]"])
qed

lemma publish_spans_full:
  fixes metadata :: receive_metadata
  assumes "resting_publisher p" "ADVANCED_FRAME_SAMPLES \<le> native_remainder p + length input"
    and "length input \<le> ADVANCED_FRAME_SAMPLES"
  defines "buf \<equiv> pending (assembler p) @ map f32_to_s16 input"
    and "packet \<equiv> packet_for metadata (statuses p)
      (take ADVANCED_FRAME_SAMPLES (pending (assembler p) @ map f32_to_s16 input))"
  shows "\<exists>p'. publish_spans process push metadata input report p h =
      (Inr (report\<lparr>completed_frame := True, report_handoff := Some (fst (push packet h))\<rparr>), p', snd (push packet h)) \<and>
    resting_publisher p' \<and> pending (assembler p') = drop ADVANCED_FRAME_SAMPLES buf \<and> statuses p' = statuses p"
proof -
  let ?n = "ADVANCED_FRAME_SAMPLES - native_remainder p"
  have p: "advanced_publisher p" "native_remainder p < ADVANCED_FRAME_SAMPLES"
    "native_remainder p = length (pending (assembler p))"
    using assms(1) by (auto simp: resting_publisher_def advanced_publisher_def)
  have n: "?n \<le> length input" "0 < ?n" "input \<noteq> []" "length (take ?n input) = ?n" using assms(2) p(2) by auto
  have count: "min ?n (length input) = ?n" using n by simp
  obtain p1 where c: "convert_span process (take ?n input) p = (Inr (), p1)"
      "advanced_publisher (p1\<lparr>native_remainder := ADVANCED_FRAME_SAMPLES\<rparr>)"
      "pending (assembler p1) = pending (assembler p) @ map f32_to_s16 (take ?n input)"
      "statuses p1 = statuses p" "native_remainder p1 = native_remainder p"
    using convert_span_advanced [OF p(1), of "take ?n input"] n p(2) by auto
  obtain p2 where f: "take_frame (receiver_keyed (meta_qualification metadata)) (p1\<lparr>native_remainder := 0\<rparr>) =
      (Inr (advanced (if receiver_keyed (meta_qualification metadata) then pending (assembler p1)
         else replicate ADVANCED_FRAME_SAMPLES 0)), p2)"
      "advanced_publisher p2" "pending (assembler p2) = []" "statuses p2 = statuses p" "native_remainder p2 = 0"
    using take_frame_advanced [OF c(2), of "receiver_keyed (meta_qualification metadata)"] c(4) by auto
  have whole: "take ADVANCED_FRAME_SAMPLES (pending (assembler p) @ map f32_to_s16 input) = pending (assembler p1)"
    "drop ADVANCED_FRAME_SAMPLES buf = map f32_to_s16 (drop ?n input)"
    using p(2,3) by (simp_all add: c(3) buf_def take_map drop_map)
  have "resting_publisher p2" "native_remainder p2 + length (drop ?n input) < ADVANCED_FRAME_SAMPLES"
    using f(2,5) assms(3) n(2) by (auto simp: resting_publisher_def ADVANCED_FRAME_SAMPLES_def)
  from publish_spans_short [OF this] obtain p3 where r:
      "publish_spans process push metadata (drop ?n input)
         (report\<lparr>completed_frame := True, report_handoff := Some (fst (push packet h))\<rparr>) p2 (snd (push packet h)) =
       (Inr (report\<lparr>completed_frame := True, report_handoff := Some (fst (push packet h))\<rparr>), p3, snd (push packet h))"
      "resting_publisher p3" "pending (assembler p3) = map f32_to_s16 (drop ?n input)" "statuses p3 = statuses p"
    using f(3,4) by fastforce
  have "packet = \<lparr>packet_frame = advanced (if receiver_keyed (meta_qualification metadata) then pending (assembler p1)
         else replicate ADVANCED_FRAME_SAMPLES 0), packet_qualification = meta_qualification metadata,
       packet_controller_ctcss = meta_controller_ctcss metadata, packet_statuses = statuses p2\<rparr>"
    unfolding packet_def packet_for_def whole(1) using f(4) by simp
  then have "publish_spans process push metadata input report p h =
      publish_spans process push metadata (drop ?n input)
        (report\<lparr>completed_frame := True, report_handoff := Some (fst (push packet h))\<rparr>) p2 (snd (push packet h))"
    using n p(2) c(1,5) f(1)
    by (subst publish_spans.simps, simp only: count) (simp add: Let_def split: prod.split)
  then show ?thesis using r whole(2) by auto
qed

section \<open>A run of calls\<close>

definition accepted_call :: "rust_float list \<times> receive_metadata \<Rightarrow> bool" where
  "accepted_call call \<longleftrightarrow> fst call \<noteq> [] \<and> length (fst call) \<le> ADVANCED_FRAME_SAMPLES"

definition answered :: "rust_float list \<times> receive_metadata \<Rightarrow> (adapter_error, publish_report) result \<Rightarrow> bool" where
  "answered call r \<longleftrightarrow> (if accepted_call call then \<not> isl r else r = Inl InvalidNativeFrame)"

lemma answered_simps:
  "accepted_call call \<Longrightarrow> answered call (Inr report)"
  "\<not> accepted_call call \<Longrightarrow> answered call (Inl InvalidNativeFrame)"
  by (simp_all add: answered_def)

fun publish_run ::
  "'c converter \<Rightarrow> (receive_packet \<Rightarrow> 'h \<Rightarrow> publish_outcome \<times> 'h) \<Rightarrow> (rust_float list \<times> receive_metadata) list \<Rightarrow>
   'c receive_publisher \<Rightarrow> 'h \<Rightarrow> (adapter_error, publish_report) result list \<times> 'c receive_publisher \<times> 'h" where
  "publish_run process push [] p h = ([], p, h)"
| "publish_run process push ((input, metadata) # calls) p h =
     (case publish_audio process push input metadata p h of
        (r, p, h) \<Rightarrow>
          (case publish_run process push calls p h of (rs, p, h) \<Rightarrow> (r # rs, p, h)))"

text \<open>The packets of a run as a function of the pending samples, the statuses so far and the calls.\<close>

fun packets_of ::
  "int list \<Rightarrow> receive_status list \<Rightarrow> (rust_float list \<times> receive_metadata) list \<Rightarrow> receive_packet list" where
  "packets_of buf sts [] = []"
| "packets_of buf sts (call # calls) =
     (if \<not> accepted_call call then packets_of buf sts calls
      else
        (let buf = buf @ map f32_to_s16 (fst call); sts = sts @ new_statuses (snd call) in
         if ADVANCED_FRAME_SAMPLES \<le> length buf
         then packet_for (snd call) (journal_of sts) (take ADVANCED_FRAME_SAMPLES buf) #
           packets_of (drop ADVANCED_FRAME_SAMPLES buf) sts calls
         else packets_of buf sts calls))"

fun rest_after :: "int list \<Rightarrow> (rust_float list \<times> receive_metadata) list \<Rightarrow> int list" where
  "rest_after buf [] = buf"
| "rest_after buf (call # calls) =
     (if \<not> accepted_call call then rest_after buf calls
      else
        (let buf = buf @ map f32_to_s16 (fst call) in
         rest_after (if ADVANCED_FRAME_SAMPLES \<le> length buf then drop ADVANCED_FRAME_SAMPLES buf else buf) calls))"

lemma publish_audio_rejected:
  "\<not> accepted_call (input, metadata) \<Longrightarrow> publish_audio process push input metadata p h = (Inl InvalidNativeFrame, p, h)"
  by (auto simp: publish_audio_def accepted_call_def)

lemma publish_audio_accepted:
  assumes "resting_publisher p" "statuses p = journal_of sts" "accepted_call (input, metadata)"
  defines "buf \<equiv> pending (assembler p) @ map f32_to_s16 input"
    and "packet \<equiv> packet_for metadata (journal_of (sts @ new_statuses metadata))
      (take ADVANCED_FRAME_SAMPLES (pending (assembler p) @ map f32_to_s16 input))"
  shows "\<exists>report p'. publish_audio process push input metadata p h =
      (Inr report, p', if ADVANCED_FRAME_SAMPLES \<le> length buf then snd (push packet h) else h) \<and>
    resting_publisher p' \<and> statuses p' = journal_of (sts @ new_statuses metadata) \<and>
    pending (assembler p') = (if ADVANCED_FRAME_SAMPLES \<le> length buf then drop ADVANCED_FRAME_SAMPLES buf else buf)"
proof -
  let ?p = "p\<lparr>statuses := fold journal_push (new_statuses metadata) (statuses p)\<rparr>"
  have p: "resting_publisher ?p" using assms(1) by (simp add: resting_publisher_def advanced_publisher_def)
  have sts: "statuses ?p = journal_of (sts @ new_statuses metadata)" by (simp add: assms(2) journal_of_append)
  have n: "native_remainder ?p + length input = length buf" "length input \<le> ADVANCED_FRAME_SAMPLES" "input \<noteq> []"
    using assms(1,3) by (auto simp: resting_publisher_def advanced_publisher_def buf_def accepted_call_def)
  have run: "publish_audio process push input metadata p h =
      publish_spans process push metadata input \<lparr>completed_frame = False, report_handoff = None\<rparr> ?p h"
    using n by (simp add: publish_audio_def)
  show ?thesis
  proof (cases "ADVANCED_FRAME_SAMPLES \<le> length buf")
    case True
    then show ?thesis
      using publish_spans_full [OF p, of input process push metadata _ h] n sts
      unfolding run packet_def buf_def by fastforce
  next
    case False
    then show ?thesis
      using publish_spans_short [OF p, of input process push metadata _ h] n sts
      unfolding run buf_def by fastforce
  qed
qed

lemma publish_run_packets:
  assumes "resting_publisher p" "statuses p = journal_of sts"
  shows "\<exists>rs p'. publish_run process push calls p h =
      (rs, p', fold (\<lambda>k h. snd (push k h)) (packets_of (pending (assembler p)) sts calls) h) \<and>
    resting_publisher p' \<and> pending (assembler p') = rest_after (pending (assembler p)) calls \<and>
    list_all2 answered calls rs"
  using assms
proof (induction calls arbitrary: p sts h)
  case (Cons call calls)
  obtain input metadata where call: "call = (input, metadata)" by fastforce
  show ?case
  proof (cases "accepted_call call")
    case False
    then show ?thesis
      using Cons.IH [OF Cons.prems, of h] publish_audio_rejected [of input metadata process push p h] call by (auto simp: answered_simps)
  next
    case True
    let ?buf = "pending (assembler p) @ map f32_to_s16 input"
    let ?packet = "packet_for metadata (journal_of (sts @ new_statuses metadata)) (take ADVANCED_FRAME_SAMPLES ?buf)"
    obtain report p1 where 1: "publish_audio process push input metadata p h =
        (Inr report, p1, if ADVANCED_FRAME_SAMPLES \<le> length ?buf then snd (push ?packet h) else h)"
        "resting_publisher p1" "statuses p1 = journal_of (sts @ new_statuses metadata)"
        "pending (assembler p1) = (if ADVANCED_FRAME_SAMPLES \<le> length ?buf then drop ADVANCED_FRAME_SAMPLES ?buf else ?buf)"
      using publish_audio_accepted [OF Cons.prems, of input metadata process push h] True call by auto
    show ?thesis
      using Cons.IH [OF 1(2,3), of "if ADVANCED_FRAME_SAMPLES \<le> length ?buf then snd (push ?packet h) else h"] 1 True call
      by (auto simp: Let_def answered_simps)
  qed
qed simp

section \<open>The stream\<close>

definition carries :: "int list \<Rightarrow> receive_packet \<Rightarrow> bool" where
  "carries chunk packet \<longleftrightarrow>
     length chunk = ADVANCED_FRAME_SAMPLES \<and> frame_mode (packet_frame packet) = Advanced \<and>
     frame_audio (packet_frame packet) =
       (if receiver_keyed (packet_qualification packet) then chunk else replicate ADVANCED_FRAME_SAMPLES 0)"

lemma packet_for_carries:
  "length chunk = ADVANCED_FRAME_SAMPLES \<Longrightarrow> carries chunk (packet_for metadata j chunk)"
  by (simp add: carries_def packet_for_def advanced_def frame_audio_def frame_samples_def)

definition samples_of :: "(rust_float list \<times> receive_metadata) list \<Rightarrow> int list" where
  "samples_of calls = map f32_to_s16 (concat (map fst (filter accepted_call calls)))"

definition statuses_of :: "(rust_float list \<times> receive_metadata) list \<Rightarrow> receive_status list" where
  "statuses_of calls = concat (map (new_statuses \<circ> snd) (filter accepted_call calls))"

lemma packets_of_stream:
  assumes "length buf < ADVANCED_FRAME_SAMPLES"
  shows "\<exists>chunks. concat chunks @ rest_after buf calls = buf @ samples_of calls \<and>
    length (rest_after buf calls) < ADVANCED_FRAME_SAMPLES \<and> list_all2 carries chunks (packets_of buf sts calls)"
  using assms
proof (induction calls arbitrary: buf sts)
  case Nil
  then show ?case by (intro exI [of _ "[]"]) (simp add: samples_of_def)
next
  case (Cons call calls)
  let ?buf = "buf @ map f32_to_s16 (fst call)" and ?sts = "sts @ new_statuses (snd call)"
  consider "\<not> accepted_call call" | "accepted_call call" "length ?buf < ADVANCED_FRAME_SAMPLES"
    | "accepted_call call" "ADVANCED_FRAME_SAMPLES \<le> length ?buf"
    by (meson not_less)
  then show ?case
  proof cases
    case 1
    then show ?thesis using Cons by (simp add: samples_of_def)
  next
    case 2
    then show ?thesis using Cons.IH [OF 2(2), of ?sts] by (simp add: samples_of_def Let_def)
  next
    case 3
    let ?chunk = "take ADVANCED_FRAME_SAMPLES ?buf" and ?rest = "drop ADVANCED_FRAME_SAMPLES ?buf"
    have "length ?rest < ADVANCED_FRAME_SAMPLES" using 3(1) Cons.prems by (auto simp: accepted_call_def ADVANCED_FRAME_SAMPLES_def)
    from Cons.IH [OF this, of ?sts] obtain chunks where c:
        "concat chunks @ rest_after ?rest calls = ?rest @ samples_of calls"
        "length (rest_after ?rest calls) < ADVANCED_FRAME_SAMPLES"
        "list_all2 carries chunks (packets_of ?rest ?sts calls)"
      by blast
    have "concat (?chunk # chunks) @ rest_after ?rest calls = (?chunk @ ?rest) @ samples_of calls"
      using c(1) by (simp only: concat.simps append_assoc)
    also have "\<dots> = buf @ samples_of (call # calls)"
      using 3(1) unfolding append_take_drop_id by (simp add: samples_of_def)
    finally have "concat (?chunk # chunks) @ rest_after ?rest calls = buf @ samples_of (call # calls)" .
    moreover have "rest_after buf (call # calls) = rest_after ?rest calls"
      "packets_of buf sts (call # calls) = packet_for (snd call) (journal_of ?sts) ?chunk # packets_of ?rest ?sts calls"
      using 3 by (simp_all add: Let_def)
    moreover have "carries ?chunk (packet_for (snd call) (journal_of ?sts) ?chunk)"
      using 3(2) by (intro packet_for_carries) simp
    ultimately show ?thesis using c(2,3) by (intro exI [of _ "?chunk # chunks"]) simp
  qed
qed

text \<open>Every packet carries the journal of the statuses so far.\<close>

definition snapshots :: "receive_status list \<Rightarrow> nat list \<Rightarrow> receive_packet list \<Rightarrow> bool" where
  "snapshots sts ns packets \<longleftrightarrow>
     sorted ns \<and> list_all (\<lambda>n. n \<le> length sts) ns \<and>
     list_all2 (\<lambda>n packet. packet_statuses packet = journal_of (take n sts)) ns packets"

lemma packets_of_snapshots:
  "\<exists>ns. snapshots (sts @ statuses_of calls) ns (packets_of buf sts calls) \<and> list_all (\<lambda>n. length sts \<le> n) ns"
proof (induction calls arbitrary: buf sts)
  case Nil
  then show ?case by (intro exI [of _ "[]"]) (simp add: snapshots_def)
next
  case (Cons call calls)
  let ?buf = "buf @ map f32_to_s16 (fst call)" and ?sts = "sts @ new_statuses (snd call)"
  show ?case
  proof (cases "accepted_call call")
    case False
    then show ?thesis using Cons.IH [of sts buf] by (simp add: statuses_of_def)
  next
    case True
    let ?rest = "if ADVANCED_FRAME_SAMPLES \<le> length ?buf then drop ADVANCED_FRAME_SAMPLES ?buf else ?buf"
    have all: "sts @ statuses_of (call # calls) = ?sts @ statuses_of calls"
      using True by (simp add: statuses_of_def)
    obtain ns where ns: "snapshots (?sts @ statuses_of calls) ns (packets_of ?rest ?sts calls)"
        "list_all (\<lambda>n. length ?sts \<le> n) ns"
      using Cons.IH by blast
    let ?packet = "packet_for (snd call) (journal_of ?sts) (take ADVANCED_FRAME_SAMPLES ?buf)"
    show ?thesis
    proof (cases "ADVANCED_FRAME_SAMPLES \<le> length ?buf")
      case full: True
      have "snapshots (?sts @ statuses_of calls) (length ?sts # ns) (?packet # packets_of ?rest ?sts calls)"
        using ns by (auto simp: snapshots_def packet_for_def list_all_iff)
      moreover have "packets_of buf sts (call # calls) = ?packet # packets_of ?rest ?sts calls"
        using True full by (simp add: Let_def)
      ultimately show ?thesis
        using ns(2) unfolding all by (intro exI [of _ "length ?sts # ns"]) (simp add: list_all_iff, fastforce)
    next
      case False
      then have "packets_of buf sts (call # calls) = packets_of ?rest ?sts calls"
        using True by (simp add: Let_def)
      then show ?thesis using ns unfolding all by (intro exI [of _ ns]) (simp add: list_all_iff, fastforce)
    qed
  qed
qed

lemma resting_publisher_new: "resting_publisher (publisher_new Advanced EgressAdvanced)"
  using assembler_new_inv [of Advanced]
  by (simp add: resting_publisher_def advanced_publisher_def publisher_new_def ADVANCED_FRAME_SAMPLES_def assembler_new_def)

section \<open>Properties\<close>


end
