(* ===== verification/Adapter_Delivery.thy ===== *)
theory Adapter_Delivery
  imports Adapter_Publisher
begin

text \<open>
  The delivery half of the adapter: what the controller delivers as a function of the packets in the handoff.
  The handoff is an interface, a locale with the contract of \<open>pop\<close>; its interpretation on the modelled
  ring is in \<^verbatim>\<open>Adapter_Handoff\<close>, the one here is the queue of packets itself.
\<close>

section \<open>The deliveries of a packet\<close>

type_synonym delivery = "delivery_action \<times> controller_pcm_frame option"

definition packet_edge :: "bool \<Rightarrow> receive_packet \<Rightarrow> delivery list" where
  "packet_edge keyed packet =
     (let now = receiver_keyed (packet_qualification packet) in
      if keyed = now then []
      else [(if now then ReceiverKey (packet_controller_ctcss packet) else ReceiverUnkey, None)])"

text \<open>Statuses that the journal no longer holds are skipped and counted.\<close>

definition skip_lost :: "status_journal \<Rightarrow> status_observation \<Rightarrow> status_observation" where
  "skip_lost j progress =
     (if next_sequence progress < oldest_sequence j
      then \<lparr>next_sequence = oldest_sequence j,
            status_discarded = status_discarded progress + (oldest_sequence j - next_sequence progress)\<rparr>
      else progress)"

definition status_deliveries :: "status_journal \<Rightarrow> status_observation \<Rightarrow> delivery list" where
  "status_deliveries j progress =
     map (\<lambda>i. (status_action (journal_get i j), None)) [next_sequence (skip_lost j progress)..<journal_produced j]"

definition all_delivered :: "status_journal \<Rightarrow> status_observation \<Rightarrow> status_observation" where
  "all_delivered j progress =
     (let p = skip_lost j progress in p\<lparr>next_sequence := max (next_sequence p) (journal_produced j)\<rparr>)"

definition voice_delivery :: "receive_packet \<Rightarrow> delivery" where
  "voice_delivery packet = (Voice, Some (packet_frame packet))"

fun deliveries :: "bool \<Rightarrow> status_observation \<Rightarrow> receive_packet list \<Rightarrow> delivery list" where
  "deliveries keyed progress [] = []"
| "deliveries keyed progress (packet # packets) =
     packet_edge keyed packet @ status_deliveries (packet_statuses packet) progress @
     voice_delivery packet #
     deliveries (receiver_keyed (packet_qualification packet)) (all_delivered (packet_statuses packet) progress) packets"

text \<open>What a controller in any state still delivers when these packets are in the handoff.\<close>

definition to_deliver :: "'p controller_state \<Rightarrow> receive_packet list \<Rightarrow> delivery list" where
  "to_deliver s packets =
     (let keyed = delivered_keyed s; progress = status_progress s in
      case pending_delivery s of
        None \<Rightarrow> deliveries keyed progress packets
      | Some (packet, phase) \<Rightarrow>
          (let j = packet_statuses packet in
           case phase of
             DeliverReceiverState \<Rightarrow> deliveries keyed progress (packet # packets)
           | DeliverStatus \<Rightarrow>
               status_deliveries j progress @ voice_delivery packet # deliveries keyed (all_delivered j progress) packets
           | DeliverVoice \<Rightarrow> voice_delivery packet # deliveries keyed progress packets))"

text \<open>The progress once these have been delivered.\<close>

definition final_progress :: "'p controller_state \<Rightarrow> receive_packet list \<Rightarrow> status_observation" where
  "final_progress s packets =
     fold (\<lambda>k. all_delivered (packet_statuses k)) packets
       (case pending_delivery s of
          None \<Rightarrow> status_progress s
        | Some (packet, DeliverVoice) \<Rightarrow> status_progress s
        | Some (packet, _) \<Rightarrow> all_delivered (packet_statuses packet) (status_progress s))"

text \<open>The receiver edge of a pending packet has been delivered, and its key is the delivered one.\<close>

definition delivery_inv :: "'p controller_state \<Rightarrow> bool" where
  "delivery_inv s \<longleftrightarrow>
     (case pending_delivery s of
        Some (packet, DeliverStatus) \<Rightarrow> delivered_keyed s = receiver_keyed (packet_qualification packet)
      | Some (packet, DeliverVoice) \<Rightarrow> delivered_keyed s = receiver_keyed (packet_qualification packet)
      | _ \<Rightarrow> True)"

lemma status_deliveries_step:
  assumes "next_sequence (skip_lost j progress) < journal_produced j"
  shows "status_deliveries j progress =
      (status_action (journal_get (next_sequence (skip_lost j progress)) j), None) #
      status_deliveries j ((skip_lost j progress)\<lparr>next_sequence := next_sequence (skip_lost j progress) + 1\<rparr>)"
    "all_delivered j progress =
      all_delivered j ((skip_lost j progress)\<lparr>next_sequence := next_sequence (skip_lost j progress) + 1\<rparr>)"
proof -
  let ?p = "(skip_lost j progress)\<lparr>next_sequence := next_sequence (skip_lost j progress) + 1\<rparr>"
  have "oldest_sequence j \<le> next_sequence (skip_lost j progress)" by (simp add: skip_lost_def)
  then have p: "skip_lost j ?p = ?p" by (simp add: skip_lost_def)
  show "status_deliveries j progress =
      (status_action (journal_get (next_sequence (skip_lost j progress)) j), None) # status_deliveries j ?p"
    using assms unfolding status_deliveries_def p by (simp add: upt_conv_Cons)
  show "all_delivered j progress = all_delivered j ?p"
    using assms unfolding all_delivered_def p by (simp add: max_def)
qed

lemma status_deliveries_done:
  assumes "\<not> next_sequence (skip_lost j progress) < journal_produced j"
  shows "status_deliveries j progress = []" "all_delivered j progress = skip_lost j progress"
  using assms by (simp_all add: status_deliveries_def all_delivered_def max_def)

section \<open>The handoff as an interface\<close>

text \<open>The rounds of the loop.\<close>

lemma next_action_pop:
  assumes "pending_delivery s = None"
  shows "pop h = (None, h1) \<Longrightarrow> next_action pop s h = (None, s, h1)"
    "pop h = (Some k, h1) \<Longrightarrow>
       next_action pop s h = next_action pop (s\<lparr>pending_delivery := Some (k, DeliverReceiverState)\<rparr>) h1"
  using assms by (subst next_action.simps, simp)+

lemma next_action_edge:
  assumes "pending_delivery s = Some (k, DeliverReceiverState)"
  defines "keyed \<equiv> receiver_keyed (packet_qualification k)"
  shows "delivered_keyed s \<noteq> keyed \<Longrightarrow> next_action pop s h =
       (Some (if keyed then ReceiverKey (packet_controller_ctcss k) else ReceiverUnkey, None),
        s\<lparr>pending_delivery := Some (k, DeliverStatus), latest_receive := packet_qualification k,
          delivered_keyed := keyed\<rparr>, h)"
    "delivered_keyed s = keyed \<Longrightarrow> next_action pop s h =
       next_action pop (s\<lparr>pending_delivery := Some (k, DeliverStatus), latest_receive := packet_qualification k\<rparr>) h"
  using assms by (subst next_action.simps, simp)+

lemma next_action_status:
  assumes "pending_delivery s = Some (k, DeliverStatus)"
  defines "progress \<equiv> skip_lost (packet_statuses k) (status_progress s)"
  shows "next_sequence progress < journal_produced (packet_statuses k) \<Longrightarrow> next_action pop s h =
       (Some (status_action (journal_get (next_sequence progress) (packet_statuses k)), None),
        s\<lparr>status_progress := progress\<lparr>next_sequence := next_sequence progress + 1\<rparr>\<rparr>, h)"
    "\<not> next_sequence progress < journal_produced (packet_statuses k) \<Longrightarrow> next_action pop s h =
       next_action pop (s\<lparr>status_progress := progress, pending_delivery := Some (k, DeliverVoice)\<rparr>) h"
  using assms by (subst next_action.simps, simp add: Let_def flip: skip_lost_def)+

lemma next_action_voice:
  assumes "pending_delivery s = Some (k, DeliverVoice)"
  shows "next_action pop s h =
     (Some (Voice, Some (packet_frame k)),
      s\<lparr>pending_delivery := None,
        controller_echo := legacy_echo_receive (packet_frame k) (receiver_keyed (packet_qualification k)) (controller_echo s)\<rparr>, h)"
  using assms by (subst next_action.simps) simp

text \<open>What every round keeps, a whole call keeps.\<close>

lemma next_action_keeps:
  assumes "P s h"
    and none: "\<And>s h h1. P s h \<Longrightarrow> pending_delivery s = None \<Longrightarrow> pop h = (None, h1) \<Longrightarrow> P s h1"
    and packet: "\<And>s h h1 k. P s h \<Longrightarrow> pending_delivery s = None \<Longrightarrow> pop h = (Some k, h1) \<Longrightarrow>
      P (s\<lparr>pending_delivery := Some (k, DeliverReceiverState)\<rparr>) h1"
    and edge: "\<And>s h k. P s h \<Longrightarrow> pending_delivery s = Some (k, DeliverReceiverState) \<Longrightarrow>
      P (s\<lparr>pending_delivery := Some (k, DeliverStatus), latest_receive := packet_qualification k,
           delivered_keyed := receiver_keyed (packet_qualification k)\<rparr>) h"
    and status: "\<And>s h k progress phase. P s h \<Longrightarrow> pending_delivery s = Some (k, DeliverStatus) \<Longrightarrow>
      P (s\<lparr>status_progress := progress, pending_delivery := Some (k, phase)\<rparr>) h"
    and voice: "\<And>s h k. P s h \<Longrightarrow> pending_delivery s = Some (k, DeliverVoice) \<Longrightarrow>
      P (s\<lparr>pending_delivery := None,
           controller_echo := legacy_echo_receive (packet_frame k) (receiver_keyed (packet_qualification k)) (controller_echo s)\<rparr>) h"
  shows "P (fst (snd (next_action pop s h))) (snd (snd (next_action pop s h)))"
  using assms(1)
proof (induction "phase_rank (pending_delivery s)" arbitrary: s h rule: less_induct)
  case less
  show ?case
  proof (cases "pending_delivery s")
    case None
    obtain r h1 where h1: "pop h = (r, h1)" by fastforce
    show ?thesis
    proof (cases r)
      case n: None
      then show ?thesis using next_action_pop(1) [OF None, of pop h h1] none [OF less.prems None] h1 by simp
    next
      case (Some k)
      then show ?thesis
        using next_action_pop(2) [OF None, of pop h k h1] packet [OF less.prems None] h1 None
          less.hyps [of "s\<lparr>pending_delivery := Some (k, DeliverReceiverState)\<rparr>" h1] by (simp add: phase_rank_def)
    qed
  next
    case (Some kp)
    obtain k phase where kp: "kp = (k, phase)" by fastforce
    show ?thesis
    proof (cases phase)
      case DeliverReceiverState
      note p = Some [unfolded kp DeliverReceiverState]
      let ?keyed = "receiver_keyed (packet_qualification k)"
      show ?thesis
      proof (cases "delivered_keyed s = ?keyed")
        case True
        then have "s\<lparr>pending_delivery := Some (k, DeliverStatus), latest_receive := packet_qualification k, delivered_keyed := ?keyed\<rparr> =
            s\<lparr>pending_delivery := Some (k, DeliverStatus), latest_receive := packet_qualification k\<rparr>"
          by (simp flip: True)
        then show ?thesis
          using next_action_edge(2) [OF p True, of pop h] edge [OF less.prems p]
            less.hyps [of "s\<lparr>pending_delivery := Some (k, DeliverStatus), latest_receive := packet_qualification k\<rparr>" h]
          by (simp add: p phase_rank_def)
      next
        case False
        then show ?thesis using next_action_edge(1) [OF p False, of pop h] edge [OF less.prems p] by simp
      qed
    next
      case DeliverStatus
      note p = Some [unfolded kp DeliverStatus]
      let ?progress = "skip_lost (packet_statuses k) (status_progress s)"
      show ?thesis
      proof (cases "next_sequence ?progress < journal_produced (packet_statuses k)")
        case True
        let ?next = "?progress\<lparr>next_sequence := next_sequence ?progress + 1\<rparr>"
        have "s\<lparr>status_progress := ?next, pending_delivery := Some (k, DeliverStatus)\<rparr> = s\<lparr>status_progress := ?next\<rparr>"
          using p by simp
        then show ?thesis
          using next_action_status(1) [OF p True, of pop h] status [OF less.prems p, where progress = ?next and phase = DeliverStatus] by simp
      next
        case False
        then show ?thesis
          using next_action_status(2) [OF p False, of pop h] status [OF less.prems p, where progress = ?progress and phase = DeliverVoice]
            less.hyps [of "s\<lparr>status_progress := ?progress, pending_delivery := Some (k, DeliverVoice)\<rparr>" h]
          by (simp add: p phase_rank_def)
      qed
    next
      case DeliverVoice
      then show ?thesis
        using next_action_voice [of s k pop h] voice [OF less.prems, of k] Some kp by simp
    qed
  qed
qed

text \<open>
  The two counters of the statuses are 64-bit words of the code, which numbers cannot overflow: what is
  discarded never exceeds the next sequence, and that never exceeds what the journals produced.
\<close>

definition counters_fit :: "'p controller_state \<Rightarrow> bool" where
  "counters_fit s \<longleftrightarrow>
     status_discarded (status_progress s) \<le> next_sequence (status_progress s) \<and>
     next_sequence (status_progress s) < 2 ^ 64 \<and>
     (case pending_delivery s of None \<Rightarrow> True | Some (k, _) \<Rightarrow> journal_produced (packet_statuses k) < 2 ^ 64)"

lemma skip_lost_fit:
  "status_discarded p \<le> next_sequence p \<Longrightarrow> status_discarded (skip_lost j p) \<le> next_sequence (skip_lost j p)"
  "journal_produced j < 2 ^ 64 \<Longrightarrow> next_sequence p < 2 ^ 64 \<Longrightarrow> next_sequence (skip_lost j p) < 2 ^ 64"
  by (auto simp: skip_lost_def oldest_sequence_def)

lemma next_action_counters:
  assumes "\<And>h k h'. pop h = (Some k, h') \<Longrightarrow> journal_produced (packet_statuses k) < 2 ^ 64" "counters_fit s"
  shows "counters_fit (fst (snd (next_action pop s h)))"
  using assms(2)
proof (induction "phase_rank (pending_delivery s)" arbitrary: s h rule: less_induct)
  case less
  show ?case
  proof (cases "pending_delivery s")
    case None
    obtain r h1 where pop: "pop h = (r, h1)" by fastforce
    show ?thesis
    proof (cases r)
      case (Some k)
      then show ?thesis
        using next_action_pop(2) [where pop = pop and h = h, OF None] pop assms(1) [of h k h1] less None
          less.hyps [of "s\<lparr>pending_delivery := Some (k, DeliverReceiverState)\<rparr>" h1]
        by (simp add: counters_fit_def phase_rank_def)
    qed (use next_action_pop(1) [where pop = pop and h = h, OF None] pop less.prems in simp)
  next
    case (Some kp)
    obtain k phase where kp: "kp = (k, phase)" by fastforce
    note fit = less.prems [unfolded counters_fit_def]
    show ?thesis
    proof (cases phase)
      case DeliverReceiverState
      note p = Some [unfolded kp DeliverReceiverState]
      show ?thesis
        using next_action_edge [OF p, of pop h] fit p
          less.hyps [of "s\<lparr>pending_delivery := Some (k, DeliverStatus), latest_receive := packet_qualification k\<rparr>" h]
        by (cases "delivered_keyed s = receiver_keyed (packet_qualification k)")
           (simp_all add: counters_fit_def phase_rank_def)
    next
      case DeliverStatus
      note p = Some [unfolded kp DeliverStatus]
      let ?progress = "skip_lost (packet_statuses k) (status_progress s)"
      note lost = skip_lost_fit [where p = "status_progress s" and j = "packet_statuses k"]
      show ?thesis
      proof (cases "next_sequence ?progress < journal_produced (packet_statuses k)")
        case True
        then show ?thesis
          using next_action_status(1) [OF p True, of pop h] fit lost p by (simp add: counters_fit_def)
      next
        case False
        then show ?thesis
          using next_action_status(2) [OF p False, of pop h] fit lost p
            less.hyps [of "s\<lparr>status_progress := ?progress, pending_delivery := Some (k, DeliverVoice)\<rparr>" h]
          by (simp add: counters_fit_def phase_rank_def)
      qed
    next
      case DeliverVoice
      then show ?thesis
        using next_action_voice [of s k pop h] Some kp fit by (simp add: counters_fit_def)
    qed
  qed
qed

text \<open>The serialized owner calls until there is nothing to deliver, or a number of times.\<close>

fun take_actions ::
  "('h \<Rightarrow> receive_packet option \<times> 'h) \<Rightarrow> nat \<Rightarrow> 'p controller_state \<Rightarrow> 'h \<Rightarrow>
   delivery list \<times> 'p controller_state \<times> 'h" where
  "take_actions pop 0 s h = ([], s, h)"
| "take_actions pop (Suc n) s h =
     (case next_action pop s h of
        (None, s, h) \<Rightarrow> ([], s, h)
      | (Some d, s, h) \<Rightarrow> (case take_actions pop n s h of (ds, s, h) \<Rightarrow> (d # ds, s, h)))"

locale packet_source =
  fixes pop :: "'h \<Rightarrow> receive_packet option \<times> 'h"
    and valid :: "'h \<Rightarrow> bool"
    and contents :: "'h \<Rightarrow> receive_packet list"
  assumes source_empty: "valid h \<Longrightarrow> pop h = (None, h') \<Longrightarrow> contents h = [] \<and> contents h' = [] \<and> valid h'"
    and source_packet: "valid h \<Longrightarrow> pop h = (Some k, h') \<Longrightarrow> contents h = k # contents h' \<and> valid h'"
begin

text \<open>
  One call delivers the head of what is to be delivered: the loop is a simulation of the specification.
\<close>

lemma next_action_delivers:
  assumes "valid h" "delivery_inv s" "next_action pop s h = (r, s', h')"
  shows "valid h' \<and> delivery_inv s' \<and>
    to_deliver s (contents h) = (case r of None \<Rightarrow> [] | Some d \<Rightarrow> d # to_deliver s' (contents h')) \<and>
    final_progress s (contents h) = final_progress s' (contents h') \<and>
    (r = None \<longrightarrow> contents h' = [] \<and> pending_delivery s' = None)"
  using assms
proof (induction "phase_rank (pending_delivery s)" arbitrary: s h rule: less_induct)
  case less
  show ?case
  proof (cases "pending_delivery s")
    case None
    show ?thesis
    proof (cases "fst (pop h)")
      case empty: None
      then obtain h1 where h1: "pop h = (None, h1)" by (metis prod.collapse)
      then have "r = None" "s' = s" "h' = h1" using less.prems(3) next_action_pop(1) [where pop = pop and h = h, OF None h1] by simp_all
      then show ?thesis
        using less.prems(1,2) source_empty [OF less.prems(1) h1] None
        by (simp add: to_deliver_def final_progress_def)
    next
      case (Some k)
      then obtain h1 where h1: "pop h = (Some k, h1)" by (metis prod.collapse)
      let ?s = "s\<lparr>pending_delivery := Some (k, DeliverReceiverState)\<rparr>"
      have "phase_rank (pending_delivery ?s) < phase_rank (pending_delivery s)" by (simp add: phase_rank_def None)
      moreover have "contents h = k # contents h1" "valid h1" using source_packet [OF less.prems(1) h1] by auto
      moreover have "to_deliver s (contents h) = to_deliver ?s (contents h1)"
        "final_progress s (contents h) = final_progress ?s (contents h1)"
        using calculation None by (simp_all add: to_deliver_def final_progress_def)
      ultimately show ?thesis
        using less.hyps [of ?s h1] less.prems(2,3) next_action_pop(2) [where pop = pop and h = h, OF None h1] by (simp add: delivery_inv_def)
    qed
  next
    case (Some kp)
    obtain k phase where kp: "kp = (k, phase)" by fastforce
    let ?keyed = "receiver_keyed (packet_qualification k)" and ?j = "packet_statuses k"
    show ?thesis
    proof (cases phase)
      case DeliverReceiverState
      note p = Some [unfolded kp DeliverReceiverState]
      show ?thesis
      proof (cases "delivered_keyed s = ?keyed")
        case True
        let ?s = "s\<lparr>pending_delivery := Some (k, DeliverStatus), latest_receive := packet_qualification k\<rparr>"
        have "phase_rank (pending_delivery ?s) < phase_rank (pending_delivery s)" by (simp add: phase_rank_def p)
        moreover have "to_deliver s (contents h) = to_deliver ?s (contents h)" "delivery_inv ?s"
          "final_progress s (contents h) = final_progress ?s (contents h)"
          using p True by (simp_all add: to_deliver_def final_progress_def delivery_inv_def packet_edge_def Let_def)
        ultimately show ?thesis
          using less.hyps [of ?s h] less.prems(1,3) next_action_edge(2) [OF p True, of pop h] by simp
      next
        case False
        then show ?thesis
          using less.prems next_action_edge(1) [OF p False, of pop h] p
          by (auto simp: to_deliver_def final_progress_def delivery_inv_def packet_edge_def Let_def)
      qed
    next
      case DeliverStatus
      note p = Some [unfolded kp DeliverStatus]
      let ?progress = "skip_lost ?j (status_progress s)"
      have keyed: "delivered_keyed s = ?keyed" using less.prems(2) p by (simp add: delivery_inv_def)
      show ?thesis
      proof (cases "next_sequence ?progress < journal_produced ?j")
        case True
        then show ?thesis
          using less.prems next_action_status(1) [OF p True, of pop h] p keyed
            status_deliveries_step [OF True]
          by (auto simp: to_deliver_def final_progress_def delivery_inv_def Let_def)
      next
        case False
        let ?s = "s\<lparr>status_progress := ?progress, pending_delivery := Some (k, DeliverVoice)\<rparr>"
        have "phase_rank (pending_delivery ?s) < phase_rank (pending_delivery s)" by (simp add: phase_rank_def p)
        moreover have "to_deliver s (contents h) = to_deliver ?s (contents h)" "delivery_inv ?s"
          "final_progress s (contents h) = final_progress ?s (contents h)"
          using p keyed status_deliveries_done [OF False] by (simp_all add: to_deliver_def final_progress_def delivery_inv_def Let_def)
        ultimately show ?thesis
          using less.hyps [of ?s h] less.prems(1,3) next_action_status(2) [OF p False, of pop h] by simp
      qed
    next
      case DeliverVoice
      note p = Some [unfolded kp DeliverVoice]
      show ?thesis
        using less.prems next_action_voice [OF p, of pop h] p
        by (auto simp: to_deliver_def final_progress_def delivery_inv_def voice_delivery_def Let_def)
    qed
  qed
qed

lemma take_actions_deliver:
  assumes "valid h" "delivery_inv s" "take_actions pop n s h = (ds, s', h')"
  shows "valid h' \<and> delivery_inv s' \<and> to_deliver s (contents h) = ds @ to_deliver s' (contents h') \<and>
    final_progress s (contents h) = final_progress s' (contents h') \<and>
    length ds \<le> n \<and> (length ds < n \<longrightarrow> contents h' = [] \<and> pending_delivery s' = None)"
  using assms
proof (induction n arbitrary: s h ds s' h')
  case (Suc n)
  obtain r s1 h1 where na: "next_action pop s h = (r, s1, h1)" by (metis prod_cases3)
  note one = next_action_delivers [OF Suc.prems(1,2) na]
  show ?case
  proof (cases r)
    case None
    then show ?thesis using Suc.prems(3) na one by (auto simp: to_deliver_def)
  next
    case (Some d)
    obtain ds1 s2 h2 where ta: "take_actions pop n s1 h1 = (ds1, s2, h2)" by (metis prod_cases3)
    have "ds = d # ds1" "s' = s2" "h' = h2" using Suc.prems(3) na ta Some by simp_all
    then show ?thesis using Suc.IH [OF _ _ ta] one Some by simp
  qed
qed simp

text \<open>Enough calls deliver everything.\<close>

lemma take_actions_all:
  assumes "valid h" "delivery_inv s" "take_actions pop n s h = (ds, s', h')"
    and "length (to_deliver s (contents h)) < n"
  shows "ds = to_deliver s (contents h) \<and> contents h' = [] \<and> pending_delivery s' = None \<and>
    status_progress s' = final_progress s (contents h)"
proof -
  note all = take_actions_deliver [OF assms(1-3)]
  then have "length ds < n" using assms(4) by simp
  then have "contents h' = []" "pending_delivery s' = None" using all by auto
  then show ?thesis using all by (simp add: to_deliver_def final_progress_def)
qed

end

section \<open>The queue of packets\<close>

fun list_pop :: "receive_packet list \<Rightarrow> receive_packet option \<times> receive_packet list" where
  "list_pop [] = (None, [])"
| "list_pop (k # ks) = (Some k, ks)"

interpretation packet_list: packet_source list_pop "\<lambda>_. True" "\<lambda>ks. ks"
proof (unfold_locales, goal_cases)
  case (1 h h')
  then show ?case by (cases h) simp_all
next
  case (2 h k h')
  then show ?case by (cases h) simp_all
qed

section \<open>Statuses\<close>

definition is_status :: "delivery_action \<Rightarrow> bool" where
  "is_status a \<longleftrightarrow> (case a of DeliverTransmitCtcssReady _ \<Rightarrow> True | DeliverVoterRssi _ \<Rightarrow> True | _ \<Rightarrow> False)"

definition statuses_in :: "delivery list \<Rightarrow> delivery_action list" where
  "statuses_in ds = filter is_status (map fst ds)"

lemma is_status_action [simp]: "is_status (status_action s)"
  by (simp add: is_status_def status_action_def split: receive_status.split)

lemma statuses_in_packet:
  "statuses_in (deliveries keyed progress (k # ks)) =
     map (\<lambda>i. status_action (journal_get i (packet_statuses k)))
       [next_sequence (skip_lost (packet_statuses k) progress)..<journal_produced (packet_statuses k)] @
     statuses_in (deliveries (receiver_keyed (packet_qualification k)) (all_delivered (packet_statuses k) progress) ks)"
proof -
  have "filter is_status (map fst (packet_edge keyed k)) = []" "\<not> is_status Voice"
    by (simp_all add: packet_edge_def is_status_def Let_def)
  moreover have "filter is_status (map fst (status_deliveries j p)) =
      map (\<lambda>i. status_action (journal_get i j)) [next_sequence (skip_lost j p)..<journal_produced j]" for j p
    by (simp add: status_deliveries_def comp_def)
  ultimately show ?thesis by (simp add: statuses_in_def voice_delivery_def)
qed

text \<open>
  The statuses of any packets of one publisher: in the order of the stream, each at most once, and the
  others counted.
\<close>

lemma statuses_in_deliveries:
  assumes "snapshots sts ns packets" "length sts < 2 ^ 64"
  shows "\<exists>is. statuses_in (deliveries keyed progress packets) = map (\<lambda>i. status_action (sts ! i)) is \<and>
    sorted_wrt (<) is \<and> list_all (\<lambda>i. next_sequence progress \<le> i \<and> i < last (0 # ns)) is \<and>
    (let end = fold (\<lambda>k. all_delivered (packet_statuses k)) packets progress in
     next_sequence end = max (next_sequence progress) (last (0 # ns)) \<and>
     status_discarded end + next_sequence progress + length is = status_discarded progress + next_sequence end)"
  using assms(1)
proof (induction packets arbitrary: ns keyed progress)
  case Nil
  then show ?case by (auto simp: snapshots_def statuses_in_def intro: exI [of _ "[]"])
next
  case (Cons k ks)
  obtain n ns' where ns: "ns = n # ns'" "n \<le> length sts" "packet_statuses k = journal_of (take n sts)"
      "snapshots sts ns' ks" "n \<le> last (n # ns')"
    using Cons.prems by (auto simp: snapshots_def list_all2_Cons2)
  let ?j = "packet_statuses k" and ?next = "next_sequence progress"
  let ?progress = "all_delivered ?j progress" and ?is = "[max ?next (n - STATUS_CAPACITY)..<n]"
  have len: "length (take n sts) = n" "n < 2 ^ 64" using ns(2) assms(2) by simp_all
  have j: "journal_produced ?j = n" "oldest_sequence ?j = n - STATUS_CAPACITY"
    using journal_produced_of [of "take n sts"] len ns(3) by (simp_all add: oldest_sequence_def)
  have skip: "next_sequence (skip_lost ?j progress) = max ?next (n - STATUS_CAPACITY)"
    by (simp add: skip_lost_def j(2))
  have get: "journal_get i ?j = sts ! i" if "i \<in> set ?is" for i
    using journal_get_of [of "take n sts" i] that j len ns(2) by (simp add: ns(3))
  have next1: "next_sequence ?progress = max ?next n"
    using skip j(1) by (auto simp: all_delivered_def Let_def)
  have count1: "status_discarded ?progress + ?next + length ?is = status_discarded progress + max ?next n"
    by (auto simp: all_delivered_def skip_lost_def j Let_def)
  obtain js where js:
      "statuses_in (deliveries (receiver_keyed (packet_qualification k)) ?progress ks) = map (\<lambda>i. status_action (sts ! i)) js"
      "sorted_wrt (<) js" "list_all (\<lambda>i. max ?next n \<le> i \<and> i < last (0 # ns')) js"
      "next_sequence (fold (\<lambda>k. all_delivered (packet_statuses k)) ks ?progress) = max (max ?next n) (last (0 # ns'))"
      "status_discarded (fold (\<lambda>k. all_delivered (packet_statuses k)) ks ?progress) + max ?next n + length js =
         status_discarded ?progress + next_sequence (fold (\<lambda>k. all_delivered (packet_statuses k)) ks ?progress)"
    using Cons.IH [OF ns(4), of "receiver_keyed (packet_qualification k)" ?progress] unfolding next1 Let_def by blast
  have "statuses_in (deliveries keyed progress (k # ks)) = map (\<lambda>i. status_action (sts ! i)) (?is @ js)"
    using get js(1) unfolding statuses_in_packet skip j(1) by simp
  moreover have "sorted_wrt (<) (?is @ js)"
    using js(2,3) by (fastforce simp: sorted_wrt_append list_all_iff)
  moreover have "list_all (\<lambda>i. ?next \<le> i \<and> i < last (0 # ns)) (?is @ js)"
    using js(3) ns(1,5) by (cases ns') (auto simp: list_all_iff)
  moreover have "max (max ?next n) (last (0 # ns')) = max ?next (last (0 # ns))"
    using ns(1,5) by (cases ns') auto
  ultimately show ?case
    using js(4,5) count1 by (intro exI [of _ "?is @ js"]) (simp add: Let_def)
qed

section \<open>Properties\<close>

definition log_push :: "receive_packet \<Rightarrow> receive_packet list \<Rightarrow> publish_outcome \<times> receive_packet list" where
  "log_push k ks = (Published, ks @ [k])"

lemma fold_log_push: "fold (\<lambda>k h. snd (log_push k h)) ks h = h @ ks"
  by (induction ks arbitrary: h) (simp_all add: log_push_def)

lemma snapshots_subseq:
  assumes "subseq packets packets'" "snapshots sts ns packets'"
  shows "\<exists>ms. snapshots sts ms packets \<and> set ms \<subseteq> set ns"
  using assms
proof (induction arbitrary: ns rule: list_emb.induct)
  case (list_emb_Nil ys)
  then show ?case by (intro exI [of _ "[]"]) (simp add: snapshots_def)
next
  case (list_emb_Cons xs ys y)
  from list_emb_Cons.prems obtain n ns' where n: "ns = n # ns'" "snapshots sts ns' ys"
    by (auto simp: snapshots_def list_all2_Cons2)
  from list_emb_Cons.IH [OF n(2)] show ?case by (auto simp: n(1))
next
  case (list_emb_Cons2 x y xs ys)
  from list_emb_Cons2.prems obtain n ns' where n: "ns = n # ns'" "snapshots sts ns' ys" "n \<le> length sts"
      "\<forall>m \<in> set ns'. n \<le> m" "packet_statuses y = journal_of (take n sts)"
    by (auto simp: snapshots_def list_all2_Cons2)
  from list_emb_Cons2.IH [OF n(2)] obtain ms where ms: "snapshots sts ms xs" "set ms \<subseteq> set ns'" by blast
  then have "snapshots sts (n # ms) (x # xs)"
    using n list_emb_Cons2.hyps(1) by (auto simp: snapshots_def)
  then show ?case using ms(2) n(1) by (intro exI [of _ "n # ms"]) auto
qed

text \<open>
  Whatever a span does, on either interface and even when it fails, every packet it publishes carries the
  journal of that call.
\<close>

lemma convert_app_rpt_statuses: "statuses (snd (convert_app_rpt process input c p)) = statuses p"
  by (induction process input c p rule: convert_app_rpt.induct)
     (subst convert_app_rpt.simps, auto simp: Let_def split: sum.split prod.split)

lemma convert_span_statuses: "statuses (snd (convert_span process input p)) = statuses p"
  using convert_app_rpt_statuses by (auto simp: convert_span_def Let_def split: receive_egress.split prod.split)

lemma take_frame_statuses: "statuses (snd (take_frame keyed p)) = statuses p"
  by (auto simp: take_frame_def Let_def split: prod.split sum.split)

lemma publish_spans_log:
  "\<exists>ks. snd (snd (publish_spans process log_push metadata input report p h)) = h @ ks \<and>
     list_all (\<lambda>k. packet_statuses k = statuses p) ks \<and>
     statuses (fst (snd (publish_spans process log_push metadata input report p h))) = statuses p"
proof (induction process "log_push" metadata input report p h rule: publish_spans.induct)
  case (1 process metadata input report p h)
  show ?case
  proof (cases "input = []")
    case True
    then show ?thesis by (simp add: publish_spans.simps)
  next
    case False
    let ?count = "if native_remainder p \<le> ADVANCED_FRAME_SAMPLES
      then min (ADVANCED_FRAME_SAMPLES - native_remainder p) (length input) else length input"
    obtain r p1 where c: "convert_span process (take ?count input) p = (r, p1)" by fastforce
    then have s1: "statuses p1 = statuses p" using convert_span_statuses [of process "take ?count input" p] by simp
    let ?p2 = "p1\<lparr>native_remainder := native_remainder p1 + ?count\<rparr>"
    obtain r2 p3 where t: "take_frame (receiver_keyed (meta_qualification metadata)) (?p2\<lparr>native_remainder := 0\<rparr>) = (r2, p3)"
      by fastforce
    then have s3: "statuses p3 = statuses p"
      using take_frame_statuses [of "receiver_keyed (meta_qualification metadata)" "?p2\<lparr>native_remainder := 0\<rparr>"] s1 by simp
    consider (bad) e where "r = Inl e" | (short) u where "r = Inr u" "native_remainder ?p2 \<noteq> ADVANCED_FRAME_SAMPLES"
      | (fail) u e where "r = Inr u" "native_remainder ?p2 = ADVANCED_FRAME_SAMPLES" "r2 = Inl e"
      | (full) u f where "r = Inr u" "native_remainder ?p2 = ADVANCED_FRAME_SAMPLES" "r2 = Inr f"
      by (metis sum.exhaust)
    then show ?thesis
    proof cases
      case bad
      then show ?thesis using False c s1 by (subst (1 2) publish_spans.simps) (simp add: Let_def)
    next
      case short
      show ?thesis
        using "1.hyps"(2) [OF False refl c [symmetric] short(1) refl short(2)] False c s1 short
        by (subst (1 2) publish_spans.simps) (simp add: Let_def)
    next
      case fail
      then show ?thesis using False c s3 t by (subst (1 2) publish_spans.simps) (simp add: Let_def)
    next
      case full
      let ?packet = "\<lparr>packet_frame = f, packet_qualification = meta_qualification metadata,
        packet_controller_ctcss = meta_controller_ctcss metadata, packet_statuses = statuses p3\<rparr>"
      let ?rest = "publish_spans process log_push metadata (drop ?count input)
        (report\<lparr>completed_frame := True, report_handoff := Some Published\<rparr>) p3 (h @ [?packet])"
      obtain ks where ks: "snd (snd ?rest) = (h @ [?packet]) @ ks" "list_all (\<lambda>k. packet_statuses k = statuses p3) ks"
          "statuses (fst (snd ?rest)) = statuses p3"
        using "1.hyps"(1) [OF False refl c [symmetric] full(1) refl full(2) t [symmetric] full(3) refl log_push_def [symmetric]]
        by blast
      have "publish_spans process log_push metadata input report p h = ?rest"
        using False c t full by (subst publish_spans.simps) (simp add: Let_def log_push_def split del: if_split)
      then show ?thesis using ks s3 by (intro exI [of _ "?packet # ks"]) (simp split del: if_split)
    qed
  qed
qed

lemma snapshots_before:
  assumes "snapshots sts ns packets" "list_all (\<lambda>n. m \<le> n) ns" "m \<le> length sts"
    and "list_all (\<lambda>k. packet_statuses k = journal_of (take m sts)) ks"
  shows "snapshots sts (replicate (length ks) m @ ns) (ks @ packets)"
  using assms
  by (auto simp: snapshots_def sorted_append list_all_iff list_all2_conv_all_nth nth_append)

lemma publish_run_log:
  assumes "statuses p = journal_of sts"
  shows "\<exists>ns ks. snd (snd (publish_run process log_push calls p h)) = h @ ks \<and>
    snapshots (sts @ statuses_of calls) ns ks \<and> list_all (\<lambda>n. length sts \<le> n) ns"
  using assms
proof (induction calls arbitrary: p h sts)
  case Nil
  then show ?case by (auto simp: snapshots_def intro: exI [of _ "[]"])
next
  case (Cons call calls)
  obtain input metadata where call: "call = (input, metadata)" by fastforce
  show ?case
  proof (cases "accepted_call call")
    case False
    then show ?thesis
      using Cons.IH [OF Cons.prems, of h] publish_audio_rejected [of input metadata process log_push p h]
      by (auto simp: call statuses_of_def split: prod.split)
  next
    case True
    let ?sts = "sts @ new_statuses metadata"
    let ?p = "p\<lparr>statuses := fold journal_push (new_statuses metadata) (statuses p)\<rparr>"
    obtain r p1 h1 where run: "publish_audio process log_push input metadata p h = (r, p1, h1)" by (metis prod_cases3)
    have "publish_audio process log_push input metadata p h =
        publish_spans process log_push metadata input \<lparr>completed_frame = False, report_handoff = None\<rparr> ?p h"
      using True call by (auto simp: publish_audio_def accepted_call_def)
    moreover have "statuses ?p = journal_of ?sts" by (simp add: Cons.prems journal_of_append)
    ultimately obtain ks where ks: "h1 = h @ ks" "list_all (\<lambda>k. packet_statuses k = journal_of ?sts) ks"
        "statuses p1 = journal_of ?sts"
      using publish_spans_log [of process metadata input "\<lparr>completed_frame = False, report_handoff = None\<rparr>" ?p h] run
      by (metis fst_conv snd_conv)
    obtain ns packets where rest: "snd (snd (publish_run process log_push calls p1 h1)) = h1 @ packets"
        "snapshots (?sts @ statuses_of calls) ns packets" "list_all (\<lambda>n. length ?sts \<le> n) ns"
      using Cons.IH [OF ks(3), of h1] by blast
    have all: "sts @ statuses_of (call # calls) = ?sts @ statuses_of calls"
      using True by (simp add: call statuses_of_def)
    have "snapshots (?sts @ statuses_of calls) (replicate (length ks) (length ?sts) @ ns) (ks @ packets)"
      using rest(2,3) ks(2) by (intro snapshots_before) simp_all
    moreover have "snd (snd (publish_run process log_push (call # calls) p h)) = h @ ks @ packets"
      using rest(1) run ks(1)
      by (cases "publish_run process log_push calls p1 h1") (simp add: call)
    ultimately show ?thesis
      using rest(3) unfolding all
      by (intro exI [of _ "replicate (length ks) (length ?sts) @ ns"] exI [of _ "ks @ packets"])
         (auto simp: list_all_iff)
  qed
qed

text \<open>C12:
  One call of \<open>next_action\<close> delivers exactly the head of the specified deliveries of the waiting packets, and
  nothing exactly when there are none: for each packet the receiver edge when the key changed, then the
  statuses of its journal that were not delivered before, then the voice frame.
\<close>

theorem next_action_refines:
  assumes "delivery_inv s"
  shows "case next_action list_pop s packets of
      (r, s', packets') \<Rightarrow>
        delivery_inv s' \<and>
        (case r of
           None \<Rightarrow> to_deliver s packets = [] \<and> packets' = [] \<and> pending_delivery s' = None
         | Some d \<Rightarrow> to_deliver s packets = d # to_deliver s' packets')"
proof -
  obtain r s' packets' where na: "next_action list_pop s packets = (r, s', packets')" by (metis prod_cases3)
  show ?thesis
    using packet_list.next_action_delivers [OF _ assms na] na by (auto split: option.splits)
qed

definition sample_controller :: "unit controller_state" where
  "sample_controller = controller_new Advanced () echo_configuration_disabled"

definition sample_packet :: receive_packet where
  "sample_packet =
     \<lparr>packet_frame = silence Advanced, packet_qualification = receive_qualification_default\<lparr>receiver_keyed := True\<rparr>,
      packet_controller_ctcss = None, packet_statuses = journal_push (StatusVoterRssi 7) journal_new\<rparr>"

lemma sample_deliveries:
  "to_deliver sample_controller [sample_packet] =
     [(ReceiverKey None, None), (DeliverVoterRssi 7, None), (Voice, Some (silence Advanced))]"
  by (simp add: sample_controller_def sample_packet_def to_deliver_def controller_new_def packet_edge_def
      status_deliveries_def skip_lost_def journal_push_def journal_new_def oldest_sequence_def journal_get_def
      status_action_def voice_delivery_def all_delivered_def STATUS_CAPACITY_def receive_qualification_default_def Let_def)

lemma next_action_refines_witness:
  "fst (next_action list_pop sample_controller [sample_packet]) = Some (ReceiverKey None, None)"
proof -
  have "delivery_inv sample_controller" by (simp add: delivery_inv_def controller_new_def sample_controller_def)
  from next_action_refines [OF this, of "[sample_packet]"] show ?thesis
    unfolding sample_deliveries by (auto split: prod.splits option.splits)
qed

text \<open>C13:
  No status is delivered twice or out of order, and none is lost unnoticed. The publisher is of either interface,
  called with any spans, and each call may fail: refused spans bring no statuses, a call that fails later has
  recorded them. Whichever of its packets the handoff let through, a controller of either interface that has
  delivered them all has delivered statuses of the one stream at strictly increasing positions; with the ones
  counted as discarded they are all statuses before the next one it expects.
\<close>

theorem statuses_exactly_once:
  assumes "publish_run process log_push calls (publisher_new publisher_interface egress_path) [] = (rs, p, sent)"
    and "subseq received sent" "length (statuses_of calls) < 2 ^ 64"
    and "take_actions list_pop n (controller_new controller_interface program echo) received = (ds, s, rest)"
    and "length ds < n"
  shows "\<exists>is. statuses_in ds = map (\<lambda>i. status_action (statuses_of calls ! i)) is \<and>
    sorted_wrt (<) is \<and> list_all (\<lambda>i. i < next_sequence (status_progress s)) is \<and>
    next_sequence (status_progress s) \<le> length (statuses_of calls) \<and>
    length is + status_discarded (status_progress s) = next_sequence (status_progress s)"
proof -
  let ?p = "publisher_new publisher_interface egress_path" and ?s = "controller_new controller_interface program echo"
  have new: "statuses ?p = journal_of []" by (simp add: publisher_new_def journal_of_def)
  obtain ms where "snapshots (statuses_of calls) ms sent"
    using publish_run_log [OF new, of process calls "[]"] assms(1) by auto
  then obtain ns where ns: "snapshots (statuses_of calls) ns received"
    using snapshots_subseq [OF assms(2)] by blast
  have s: "delivery_inv ?s" "to_deliver ?s received = deliveries False \<lparr>next_sequence = 0, status_discarded = 0\<rparr> received"
    by (simp_all add: delivery_inv_def to_deliver_def controller_new_def)
  have "ds = to_deliver ?s received" "status_progress s = final_progress ?s received"
    using packet_list.take_actions_deliver [OF _ s(1) assms(4)] assms(5)
    by (auto simp: to_deliver_def final_progress_def)
  moreover have "final_progress ?s received =
      fold (\<lambda>k. all_delivered (packet_statuses k)) received \<lparr>next_sequence = 0, status_discarded = 0\<rparr>"
    by (simp add: final_progress_def controller_new_def)
  moreover have "last (0 # ns) \<le> length (statuses_of calls)"
    using ns last_in_set [of ns] by (auto simp: snapshots_def list_all_iff)
  ultimately show ?thesis
    using statuses_in_deliveries [OF ns assms(3), of False "\<lparr>next_sequence = 0, status_discarded = 0\<rparr>"] s(2)
    by (auto simp: Let_def)
qed

definition sample_calls :: "(rust_float list \<times> receive_metadata) list" where
  "sample_calls =
     [(replicate ADVANCED_FRAME_SAMPLES (FFin False 0),
       \<lparr>meta_qualification = receive_qualification_default, meta_controller_ctcss = None,
        meta_statuses = (Some (StatusVoterRssi 7), None)\<rparr>)]"

lemma sample_calls_sent:
  "\<exists>rs p k. publish_run process log_push sample_calls (publisher_new Advanced EgressAdvanced) [] = (rs, p, [k]) \<and>
     packet_statuses k = journal_of [StatusVoterRssi 7] \<and> \<not> receiver_keyed (packet_qualification k)"
proof -
  have new: "pending (assembler (publisher_new Advanced EgressAdvanced)) = []"
    "statuses (publisher_new Advanced EgressAdvanced) = journal_of []"
    using assembler_new_inv by (simp_all add: publisher_new_def journal_of_def)
  have "\<exists>k. packets_of [] [] sample_calls = [k] \<and> packet_statuses k = journal_of [StatusVoterRssi 7] \<and>
      \<not> receiver_keyed (packet_qualification k)"
    by (simp add: sample_calls_def accepted_call_def Let_def ADVANCED_FRAME_SAMPLES_def packet_for_def new_statuses_def
        receive_qualification_default_def)
  then show ?thesis
    using publish_run_packets [OF resting_publisher_new new(2), of process log_push sample_calls "[]"]
    by (auto simp: fold_log_push new(1))
qed

lemma sample_calls_statuses: "statuses_of sample_calls = [StatusVoterRssi 7]"
  by (simp add: sample_calls_def statuses_of_def accepted_call_def new_statuses_def ADVANCED_FRAME_SAMPLES_def)

lemma statuses_exactly_once_witness:
  "\<exists>k. length (statuses_in (fst (take_actions list_pop 4 sample_controller [k]))) \<le> 1"
proof -
  obtain rs p k where run: "publish_run (\<lambda>x y c. (Inl ConversionError, y, c)) log_push sample_calls
      (publisher_new Advanced (EgressAdvanced :: unit receive_egress)) [] = (rs, p, [k])"
      and k: "packet_statuses k = journal_of [StatusVoterRssi 7]" "\<not> receiver_keyed (packet_qualification k)"
    using sample_calls_sent by blast
  obtain ds s rest where t: "take_actions list_pop 4 sample_controller [k] = (ds, s, rest)" by (metis prod_cases3)
  have "delivery_inv sample_controller" by (simp add: delivery_inv_def controller_new_def sample_controller_def)
  from packet_list.take_actions_deliver [OF _ this t] have "length ds \<le> length (to_deliver sample_controller [k])"
    by simp
  also have "\<dots> = 2"
    using k by (simp add: sample_controller_def to_deliver_def controller_new_def packet_edge_def status_deliveries_def
        skip_lost_def oldest_sequence_def journal_produced_of STATUS_CAPACITY_def Let_def)
  finally have "length ds < 4" by simp
  then show ?thesis
    using statuses_exactly_once [OF run subseq_order.refl _ t [unfolded sample_controller_def]]
    by (intro exI [of _ k]) (auto simp: sample_calls_statuses t)
qed

end
