(* ===== verification/Adapter_Handoff.thy ===== *)
theory Adapter_Handoff
  imports Adapter_Delivery Handoff_Safety
begin

text \<open>
  The controller on the modelled ring: a \<open>pop\<close> of the ring that the publisher does not interrupt meets the
  contract that the deliveries rest on, so that a drained controller can hand its state to the next
  generation of its station without losing or repeating a receiver edge.
\<close>

section \<open>The ring as a source of packets\<close>

definition ring_pop :: "'a handoff \<Rightarrow> 'a option \<times> 'a handoff" where
  "ring_pop h = (let t = handoff_run (BeginPop # replicate 7 ConsumerMove) h in (popped t, t))"

definition ring_valid :: "'a handoff \<Rightarrow> bool" where
  "ring_valid h \<longleftrightarrow>
     reachable handoff_init handoff_step h \<and> bumps h < 2 ^ 64 \<and> producer_at h = PIdle \<and> consumer_at h = CIdle"

definition ring_packets :: "'a handoff \<Rightarrow> 'a list" where
  "ring_packets h = map the (handoff_contents h)"

lemma consumer_next_producer: "producer_at (consumer_next s) = producer_at s"
  by (auto simp: consumer_next_def split: consumer_pc.splits option.splits)

lemma run_consumer_frame:
  "bumps (handoff_run (replicate k ConsumerMove) s) = bumps s"
  "producer_at (handoff_run (replicate k ConsumerMove) s) = producer_at s"
  by (induction k arbitrary: s) (simp_all add: bumps_consumer consumer_next_producer)

lemma pop_run_frame:
  assumes "consumer_at h = CIdle"
  shows "bumps (handoff_run (BeginPop # replicate k ConsumerMove) h) = bumps h"
    "producer_at (handoff_run (BeginPop # replicate k ConsumerMove) h) = producer_at h"
  using assms by (simp_all add: run_consumer_frame)

lemma contents_some:
  assumes "ring_valid h" shows "handoff_contents h = map Some (ring_packets h)"
proof -
  obtain c r where "core c r h" using handoff_core [of h] assms unfolding ring_valid_def by blast
  then have "handoff_contents h = map Some (drop (gone h) (published h))" by (rule core_contents)
  then show ?thesis by (simp add: ring_packets_def comp_def)
qed

lemma ring_pop_outcome:
  assumes "ring_valid h" "ring_pop h = (r, h')"
  shows "ring_valid h' \<and> (case ring_packets h of
      [] \<Rightarrow> r = None \<and> ring_packets h' = []
    | k # ks \<Rightarrow> r = Some k \<and> ring_packets h' = ks)"
proof -
  let ?ms = "BeginPop # replicate 7 ConsumerMove"
  have h: "reachable handoff_init handoff_step h" "bumps h < 2 ^ 64" "producer_at h = PIdle" "consumer_at h = CIdle"
    using assms(1) by (auto simp: ring_valid_def)
  have h': "h' = handoff_run ?ms h" "r = popped h'" using assms(2) by (auto simp: ring_pop_def Let_def)
  note alone = pop_alone [OF h, unfolded Let_def, folded h'(1)]
  have "bumps h' = bumps h" "producer_at h' = producer_at h"
    by (rule pop_run_frame [OF h(4), of 7, folded h'(1)])+
  then have valid: "ring_valid h'"
    using reachable_run [OF h(1), of ?ms, folded h'(1)] alone h by (simp add: ring_valid_def)
  show ?thesis
    using alone valid contents_some [OF assms(1)] h'(2)
    by (cases "ring_packets h") (simp_all add: ring_packets_def [of h'])
qed

interpretation packet_ring: packet_source ring_pop ring_valid ring_packets
proof (unfold_locales, goal_cases)
  case (1 h h')
  then show ?case using ring_pop_outcome [OF 1] by (auto split: list.splits)
next
  case (2 h k h')
  then show ?case using ring_pop_outcome [OF 2] by (auto split: list.splits)
qed

section \<open>Reload\<close>

lemma ring_available:
  assumes "observe_alone h = Some got" shows "available got = length (ring_packets h)"
  using assms by (auto simp: observe_alone_value ring_packets_def handoff_contents_def)

lemma restored_deliveries:
  assumes "reload_state observe s = Some r" "controller_mode new = controller_mode s" "pending_delivery new = None"
  shows "to_deliver (restore_reload_state r new) packets = deliveries (delivered_keyed s) (status_progress new) packets"
  using assms by (auto simp: reload_state_def restore_reload_state_def to_deliver_def split: if_splits)

definition kept :: "'p controller_state \<Rightarrow> asterisk_pcm_mode \<times> dtmf_state \<times> control_snapshot \<times> 'p" where
  "kept s = (controller_mode s, controller_dtmf s, controller_control s, program_ring s)"

lemma next_action_kept: "kept (fst (snd (next_action pop s h))) = kept s"
  by (rule next_action_keeps [where P = "\<lambda>t h. kept t = kept s"]) (simp_all add: kept_def)

lemma take_actions_kept: "kept (fst (snd (take_actions pop n s h))) = kept s"
proof (induction n arbitrary: s h)
  case (Suc n)
  then show ?case
    using next_action_kept [of pop s h] by (auto split: option.split prod.split) (metis fst_conv snd_conv)
qed simp

section \<open>Property\<close>

text \<open>C14:
  A hot reload is seamless. The publisher takes no step while the owner drains the controller and observes the
  ring. When the owner has drained the controller, which takes as many calls as there are
  deliveries and one more, the state can be captured, and restoring it into the controller of the next
  generation keeps the key that was delivered, so that the packets of the new generation cause exactly the
  receiver edges they would have caused without the reload; echo, DTMF and control state carry over.
\<close>

theorem reload_continuity:
  assumes "ring_valid h" "delivery_inv s" "take_actions ring_pop n s h = (ds, s', h')"
    and "length (to_deliver s (ring_packets h)) < n"
    and "controller_mode new = controller_mode s" "pending_delivery new = None"
  shows "ds = to_deliver s (ring_packets h) \<and>
    (case Option.bind (observe_alone h') (\<lambda>got. reload_state got s') of
       None \<Rightarrow> False
     | Some r \<Rightarrow>
         (let t = restore_reload_state r new in
          to_deliver t packets = deliveries (delivered_keyed s') (status_progress new) packets \<and>
          controller_echo t = controller_echo s' \<and> controller_dtmf t = controller_dtmf s \<and>
          controller_control t = controller_control s \<and> program_ring t = program_ring new))"
proof -
  note all = packet_ring.take_actions_all [OF assms(1-4)]
  have same: "controller_mode s' = controller_mode s" "controller_dtmf s' = controller_dtmf s"
    "controller_control s' = controller_control s"
    using take_actions_kept [of ring_pop n s h] assms(3) by (simp_all add: kept_def)
  obtain got where got: "observe_alone h' = Some got" by (simp add: observe_alone_value)
  obtain r where r: "reload_state got s' = Some r"
      "r = \<lparr>reload_mode = controller_mode s', reload_delivered_keyed = delivered_keyed s',
            reload_echo = controller_echo s', reload_dtmf = controller_dtmf s',
            reload_control = controller_control s', reload_latest_receive = latest_receive s'\<rparr>"
    using all ring_available [OF got] by (simp add: reload_state_def)
  then have "to_deliver (restore_reload_state r new) packets = deliveries (delivered_keyed s') (status_progress new) packets"
    using restored_deliveries assms(5,6) same(1) by metis
  then show ?thesis
    using all r got same assms(5) by (simp add: restore_reload_state_def Let_def)
qed

lemma new_ring:
  assumes "handoff_split slot_count = Inr h" shows "ring_valid h" "ring_packets h = []"
proof -
  show "ring_valid h"
    using reachable_split [OF assms, of "[]"] assms by (auto simp: ring_valid_def handoff_split_def split: if_splits)
  show "ring_packets h = []"
    using assms by (auto simp: ring_packets_def contents_ring ring_contents_def handoff_split_def cs_index_0 distance_def
        split: if_splits)
qed

lemma reload_continuity_witness:
  "\<exists>ring ds s h r. handoff_split 3 = Inr ring \<and>
     take_actions ring_pop 4 (sample_controller\<lparr>pending_delivery := Some (sample_packet, DeliverReceiverState)\<rparr>) ring =
       (ds, s, h) \<and>
     length ds = 3 \<and> Option.bind (observe_alone h) (\<lambda>got. reload_state got s) = Some r"
proof -
  let ?s = "sample_controller\<lparr>pending_delivery := Some (sample_packet, DeliverReceiverState)\<rparr>"
  obtain ring :: "receive_packet handoff" where ring: "handoff_split 3 = Inr ring"
    by (simp add: handoff_split_def unat_INDEX_MASK)
  obtain ds s h where t: "take_actions ring_pop 4 ?s ring = (ds, s, h)" by (metis prod_cases3)
  have three: "length (to_deliver ?s (ring_packets ring)) = 3"
  proof -
    have "to_deliver ?s (ring_packets ring) = to_deliver sample_controller [sample_packet]"
      by (simp add: to_deliver_def new_ring(2) [OF ring] sample_controller_def controller_new_def)
    then show ?thesis by (simp add: sample_deliveries)
  qed
  have "delivery_inv ?s" by (simp add: delivery_inv_def)
  from reload_continuity [OF new_ring(1) [OF ring] this t _ _ , of sample_controller "[]"] three t ring
  show ?thesis
    by (auto simp: sample_controller_def controller_new_def split: option.splits)
qed

end
