(* ===== verification/Adapter_Echo.thy ===== *)
theory Adapter_Echo
  imports Adapter_Delivery
begin

text \<open>
  The program half of the adapter: the legacy echo records and plays whole frames, so that a program write
  never reads behind the recording, and what was recorded is what is played.
\<close>

section \<open>Invariant\<close>

definition echo_inv :: "legacy_echo \<Rightarrow> bool" where
  "echo_inv e \<longleftrightarrow>
     APP_RPT_FRAME_SAMPLES dvd length (echo_samples e) \<and> APP_RPT_FRAME_SAMPLES dvd echo_length e \<and>
     APP_RPT_FRAME_SAMPLES dvd echo_playback e \<and> echo_length e \<le> length (echo_samples e) \<and>
     (echo_state e = EchoPlaying \<longrightarrow> echo_playback e < echo_length e)"

definition frame_ok :: "controller_pcm_frame \<Rightarrow> bool" where
  "frame_ok f \<longleftrightarrow> length (frame_storage f) = ADVANCED_FRAME_SAMPLES"

lemma frame_positive: "0 < APP_RPT_FRAME_SAMPLES"
  by (simp add: APP_RPT_FRAME_SAMPLES_def)

lemma length_frame_audio: "frame_ok f \<Longrightarrow> length (frame_audio f) = frame_samples (frame_mode f)"
  by (auto simp: frame_ok_def frame_audio_def frame_samples_def APP_RPT_FRAME_SAMPLES_def ADVANCED_FRAME_SAMPLES_def
      split: asterisk_pcm_mode.split)

lemma dvd_room:
  fixes m :: nat
  assumes "m dvd a" "m dvd b" "a < b" shows "a + m \<le> b"
proof -
  have "m dvd b - a" using assms by (simp add: dvd_diff_nat)
  then have "m \<le> b - a" using assms(3) by (simp add: dvd_imp_le)
  then show ?thesis using assms(3) by simp
qed

lemma echo_inv_new: "echo_inv (legacy_echo_new configuration)"
  by (simp add: echo_inv_def legacy_echo_new_def)

lemma echo_inv_clear: "echo_inv e \<Longrightarrow> echo_inv (legacy_echo_clear e\<lparr>echo_state := EchoRecording\<rparr>)"
  "echo_inv e \<Longrightarrow> echo_inv (legacy_echo_clear e\<lparr>echo_state := EchoDisabled\<rparr>)"
  by (simp_all add: echo_inv_def legacy_echo_clear_def length_overwrite)

lemma echo_inv_receive:
  assumes "echo_inv e" "frame_ok f" shows "echo_inv (legacy_echo_receive f keyed e)"
proof (cases "echo_state e = EchoRecording \<and> keyed \<and> frame_mode f = AppRpt")
  case True
  let ?n = "min APP_RPT_FRAME_SAMPLES (length (echo_samples e) - echo_length e)"
  have n: "length (frame_audio f) = APP_RPT_FRAME_SAMPLES" using True assms(2) by (simp add: length_frame_audio frame_samples_def)
  have "?n = 0 \<or> ?n = APP_RPT_FRAME_SAMPLES"
    using dvd_room [of APP_RPT_FRAME_SAMPLES "echo_length e" "length (echo_samples e)"] assms(1)
    by (cases "echo_length e < length (echo_samples e)") (auto simp: echo_inv_def)
  then have "APP_RPT_FRAME_SAMPLES dvd ?n" by auto
  moreover have "length (overwrite (echo_length e) (take ?n (frame_audio f)) (echo_samples e)) = length (echo_samples e)"
    using assms(1) by (intro length_overwrite) (auto simp: n echo_inv_def)
  moreover have "echo_length e + ?n \<le> length (echo_samples e)" using assms(1) by (auto simp: echo_inv_def)
  ultimately show ?thesis
    using assms(1) True by (simp add: legacy_echo_receive_def echo_inv_def n Let_def)
next
  case False
  then show ?thesis using assms(1) by (auto simp: legacy_echo_receive_def echo_inv_def)
qed

lemma echo_frame_playing:
  assumes "echo_inv e" "legacy_echo_playing e"
  shows "echo_frame e = Some (take APP_RPT_FRAME_SAMPLES (drop (echo_playback e) (echo_samples e)))"
    "length (take APP_RPT_FRAME_SAMPLES (drop (echo_playback e) (echo_samples e))) = APP_RPT_FRAME_SAMPLES"
  using assms dvd_room [of APP_RPT_FRAME_SAMPLES "echo_playback e" "echo_length e"]
  by (auto simp: echo_frame_def echo_inv_def legacy_echo_playing_def)

lemma echo_inv_finish:
  assumes "echo_inv e" "legacy_echo_playing e"
  shows "echo_inv (finish_playback_frame APP_RPT_FRAME_SAMPLES e)"
  using assms echo_inv_clear(1) [of "e\<lparr>echo_playback := echo_playback e + APP_RPT_FRAME_SAMPLES\<rparr>"]
  by (auto simp: finish_playback_frame_def echo_inv_def legacy_echo_playing_def legacy_echo_clear_def length_overwrite Let_def)

section \<open>The reachable controllers\<close>

definition controller_inv :: "'p controller_state \<Rightarrow> bool" where
  "controller_inv s \<longleftrightarrow>
     echo_inv (controller_echo s) \<and> (case pending_delivery s of None \<Rightarrow> True | Some (k, _) \<Rightarrow> frame_ok (packet_frame k))"

text \<open>Every use of a controller, with packets and frames as the modules around it make them.\<close>

inductive controller_reachable :: "'p controller_state \<Rightarrow> bool" where
  reach_new: "controller_reachable (controller_new mode program echo)"
| reach_next: "controller_reachable s \<Longrightarrow> list_all (\<lambda>k. frame_ok (packet_frame k)) ks \<Longrightarrow>
    next_action list_pop s ks = (r, s', ks') \<Longrightarrow> controller_reachable s'"
| reach_write: "controller_reachable s \<Longrightarrow> frame_ok frame \<Longrightarrow>
    write_program push frame s = Some (result, s') \<Longrightarrow> controller_reachable s'"
| reach_control: "controller_reachable s \<Longrightarrow> controller_reachable (snd (adapter_apply_control message s))"
| reach_dtmf: "controller_reachable s \<Longrightarrow> controller_reachable (snd (handle_dtmf event now_ms s))"
| reach_detection: "controller_reachable s \<Longrightarrow> controller_reachable (set_dtmf_detection enabled s)"
| reach_echo: "controller_reachable s \<Longrightarrow> controller_reachable (set_echo_enabled enabled s)"
| reach_restore: "controller_reachable s \<Longrightarrow> controller_reachable t \<Longrightarrow> reload_state observe s = Some r \<Longrightarrow>
    controller_reachable (restore_reload_state r t)"

lemma next_action_controller_inv:
  assumes "controller_inv s" "list_all (\<lambda>k. frame_ok (packet_frame k)) ks" "next_action list_pop s ks = (r, s', ks')"
  shows "controller_inv s'"
proof -
  have "(\<lambda>s ks. controller_inv s \<and> list_all (\<lambda>k. frame_ok (packet_frame k)) ks)
      (fst (snd (next_action list_pop s ks))) (snd (snd (next_action list_pop s ks)))"
  proof (rule next_action_keeps, goal_cases)
    case 1
    then show ?case using assms by simp
  next
    case (2 s h h1)
    then show ?case by (cases h) auto
  next
    case (3 s h h1 k)
    then show ?case by (cases h) (auto simp: controller_inv_def)
  next
    case (6 s h k)
    then show ?case by (auto simp: controller_inv_def echo_inv_receive)
  qed (auto simp: controller_inv_def)
  then show ?thesis by (simp add: assms(3))
qed

lemma write_program_cases:
  assumes "controller_inv s" "frame_ok frame"
  shows "\<exists>result s'. write_program push frame s = Some (result, s') \<and> controller_inv s'"
  using assms echo_frame_playing [of "controller_echo s"] echo_inv_finish [of "controller_echo s"]
  by (auto simp: write_program_def controller_inv_def Let_def split: prod.splits sum.splits option.splits)

lemma controller_reachable_inv: "controller_reachable s \<Longrightarrow> controller_inv s"
proof (induction rule: controller_reachable.induct)
  case (reach_new mode program echo)
  then show ?case using echo_inv_new by (simp add: controller_inv_def controller_new_def)
next
  case (reach_next s ks r s' ks')
  then show ?case using next_action_controller_inv by blast
next
  case (reach_write s frame push result s')
  then show ?case using write_program_cases [of s frame push] by simp
next
  case (reach_echo s enabled)
  then show ?case
    using echo_inv_clear [of "controller_echo s"]
    by (auto simp: set_echo_enabled_def legacy_echo_set_enabled_def controller_inv_def)
next
  case (reach_restore s t observe r)
  then show ?case
    by (auto simp: restore_reload_state_def reload_state_def controller_inv_def split: if_splits option.splits)
qed (auto simp: controller_inv_def adapter_apply_control_def handle_dtmf_def set_dtmf_detection_def split: prod.splits)

section \<open>What is recorded is played\<close>

lemma concat_same_length:
  "list_all (\<lambda>x. length x = m) xs \<Longrightarrow> length (concat xs) = length xs * m"
  by (induction xs) simp_all

lemma concat_nth:
  assumes "list_all (\<lambda>x. length x = m) xs" "k < length xs"
  shows "take m (drop (k * m) (concat xs)) = xs ! k"
  using assms
proof (induction xs arbitrary: k)
  case (Cons x xs)
  then show ?case by (cases k) auto
qed simp

definition has_recorded :: "nat \<Rightarrow> int list list \<Rightarrow> legacy_echo \<Rightarrow> bool" where
  "has_recorded cap xs e \<longleftrightarrow>
     list_all (\<lambda>x. length x = APP_RPT_FRAME_SAMPLES) xs \<and> length xs \<le> cap \<and>
     echo_state e = EchoRecording \<and> echo_playback e = 0 \<and>
     length (echo_samples e) = cap * APP_RPT_FRAME_SAMPLES \<and>
     echo_length e = length xs * APP_RPT_FRAME_SAMPLES \<and> take (echo_length e) (echo_samples e) = concat xs"

lemma recording_step:
  assumes "has_recorded cap xs e" "frame_ok f" "frame_mode f = AppRpt"
  shows "has_recorded cap (take cap (xs @ [frame_audio f])) (legacy_echo_receive f True e)"
proof -
  have n: "length (frame_audio f) = APP_RPT_FRAME_SAMPLES" using assms(2,3) by (simp add: length_frame_audio frame_samples_def)
  have e: "list_all (\<lambda>x. length x = APP_RPT_FRAME_SAMPLES) xs" "length xs \<le> cap" "echo_state e = EchoRecording"
    "echo_playback e = 0" "length (echo_samples e) = cap * APP_RPT_FRAME_SAMPLES"
    "echo_length e = length xs * APP_RPT_FRAME_SAMPLES"
    "take (length xs * APP_RPT_FRAME_SAMPLES) (echo_samples e) = concat xs"
    using assms(1) by (auto simp: has_recorded_def)
  show ?thesis
  proof (cases "length xs < cap")
    case True
    then have "APP_RPT_FRAME_SAMPLES + length xs * APP_RPT_FRAME_SAMPLES \<le> cap * APP_RPT_FRAME_SAMPLES"
      using mult_le_mono1 [of "Suc (length xs)" cap APP_RPT_FRAME_SAMPLES] by simp
    then have "min APP_RPT_FRAME_SAMPLES (length (echo_samples e) - echo_length e) = APP_RPT_FRAME_SAMPLES"
      "echo_length e + length (frame_audio f) \<le> length (echo_samples e)"
      using e n by auto
    then show ?thesis
      using e assms(3) True n take_overwrite [of "echo_length e" "echo_samples e" "frame_audio f"]
      by (simp add: has_recorded_def legacy_echo_receive_def Let_def length_overwrite)
  next
    case False
    then have "length xs = cap" using e by simp
    then show ?thesis
      using e assms(3) n by (simp add: has_recorded_def legacy_echo_receive_def Let_def overwrite_def)
  qed
qed

definition recorded :: "nat \<Rightarrow> controller_pcm_frame list \<Rightarrow> legacy_echo" where
  "recorded cap fs =
     fold (\<lambda>f. legacy_echo_receive f True) fs
       (legacy_echo_new \<lparr>echo_config_enabled = True, echo_maximum_frames = cap\<rparr>)"

lemma recorded_frames:
  assumes "list_all (\<lambda>f. frame_ok f \<and> frame_mode f = AppRpt) fs"
  shows "has_recorded cap (take cap (map frame_audio fs)) (recorded cap fs)"
  using assms
proof (induction fs rule: rev_induct)
  case Nil
  then show ?case by (simp add: recorded_def legacy_echo_new_def has_recorded_def)
next
  case (snoc f fs)
  let ?xs = "take cap (map frame_audio fs)"
  have "take cap (?xs @ [frame_audio f]) = take cap (map frame_audio (fs @ [f]))" by (simp add: min_def)
  moreover have "recorded cap (fs @ [f]) = legacy_echo_receive f True (recorded cap fs)" by (simp add: recorded_def)
  ultimately show ?case using recording_step [of cap ?xs "recorded cap fs" f] snoc by simp
qed

text \<open>The program ring that keeps what it is given.\<close>

definition program_log :: "rust_float list list program_push" where
  "program_log samples q p = (Inr (length samples), p @ [samples])"

fun write_all ::
  "'p program_push \<Rightarrow> controller_pcm_frame list \<Rightarrow> 'p controller_state \<Rightarrow>
   ((adapter_error, program_write) result list \<times> 'p controller_state) option" where
  "write_all push [] s = Some ([], s)"
| "write_all push (f # fs) s =
     (case write_program push f s of
        None \<Rightarrow> None
      | Some (r, s) \<Rightarrow> (case write_all push fs s of None \<Rightarrow> None | Some (rs, s) \<Rightarrow> Some (r # rs, s)))"

text \<open>A playing echo that holds these frames and has played some of them.\<close>

definition holds_frames :: "int list list \<Rightarrow> nat \<Rightarrow> legacy_echo \<Rightarrow> bool" where
  "holds_frames xs k e \<longleftrightarrow>
     list_all (\<lambda>x. length x = APP_RPT_FRAME_SAMPLES) xs \<and> echo_state e = EchoPlaying \<and>
     echo_playback e = k * APP_RPT_FRAME_SAMPLES \<and> echo_length e = length xs * APP_RPT_FRAME_SAMPLES \<and>
     echo_length e \<le> length (echo_samples e) \<and> take (echo_length e) (echo_samples e) = concat xs"

definition echoed :: "bool \<Rightarrow> program_write" where
  "echoed final =
     \<lparr>write_source = SourceLegacyEcho, submitted_samples = APP_RPT_FRAME_SAMPLES,
      accepted_samples = APP_RPT_FRAME_SAMPLES, echo_completed = final\<rparr>"

definition silent_recording :: "legacy_echo \<Rightarrow> bool" where
  "silent_recording e \<longleftrightarrow> echo_state e = EchoRecording \<and> echo_length e = 0 \<and> echo_playback e = 0"

lemma write_program_echo:
  assumes "holds_frames xs k (controller_echo s)" "k < length xs" "controller_mode s = AppRpt" "frame_mode f = AppRpt"
  shows "\<exists>s'. write_program program_log f s = Some (Inr (echoed (Suc k = length xs)), s') \<and>
    controller_mode s' = AppRpt \<and> program_ring s' = program_ring s @ [map s16_to_f32 (xs ! k)] \<and>
    (if Suc k = length xs then silent_recording (controller_echo s') else holds_frames xs (Suc k) (controller_echo s'))"
proof -
  let ?e = "controller_echo s" and ?m = APP_RPT_FRAME_SAMPLES
  have e: "list_all (\<lambda>x. length x = ?m) xs" "echo_state ?e = EchoPlaying" "echo_playback ?e = k * ?m"
    "echo_length ?e = length xs * ?m" "echo_length ?e \<le> length (echo_samples ?e)"
    "take (echo_length ?e) (echo_samples ?e) = concat xs"
    using assms(1) by (auto simp: holds_frames_def)
  have room: "k * ?m + ?m \<le> length xs * ?m" using mult_le_mono1 [of "Suc k" "length xs" ?m] assms(2) by simp
  have "take ?m (drop (k * ?m) (echo_samples ?e)) = take ?m (drop (k * ?m) (take (echo_length ?e) (echo_samples ?e)))"
    using room by (simp add: drop_take e(4))
  then have frame: "echo_frame ?e = Some (xs ! k)" "length (xs ! k) = ?m"
    using concat_nth [OF e(1) assms(2)] room e assms(2) by (auto simp: echo_frame_def list_all_length)
  have over: "length xs * ?m \<le> k * ?m + ?m \<longleftrightarrow> Suc k = length xs"
    using mult_le_cancel2 [of "length xs" ?m "Suc k"] frame_positive assms(2) by auto
  show ?thesis
    using assms(3,4) e frame over
    by (auto simp: write_program_def program_log_def legacy_echo_playing_def finish_playback_frame_def Let_def echoed_def
        holds_frames_def silent_recording_def legacy_echo_clear_def overwrite_def)
qed

lemma write_all_echo:
  assumes "holds_frames xs k (controller_echo s)" "k + length programs = length xs" "programs \<noteq> []"
    and "controller_mode s = AppRpt" "list_all (\<lambda>f. frame_mode f = AppRpt) programs"
  shows "\<exists>s'. write_all program_log programs s =
      Some (map (\<lambda>i. Inr (echoed (Suc i = length xs))) [k..<length xs], s') \<and>
    program_ring s' = program_ring s @ map (map s16_to_f32) (drop k xs) \<and> silent_recording (controller_echo s')"
  using assms
proof (induction programs arbitrary: k s)
  case (Cons f programs)
  have k: "k < length xs" using Cons.prems(2) by simp
  obtain s1 where s1: "write_program program_log f s = Some (Inr (echoed (Suc k = length xs)), s1)"
      "controller_mode s1 = AppRpt" "program_ring s1 = program_ring s @ [map s16_to_f32 (xs ! k)]"
      "if Suc k = length xs then silent_recording (controller_echo s1) else holds_frames xs (Suc k) (controller_echo s1)"
    using write_program_echo [OF Cons.prems(1) k Cons.prems(4), of f] Cons.prems(5) by auto
  have upt: "[k..<length xs] = k # [Suc k..<length xs]" "drop k xs = xs ! k # drop (Suc k) xs"
    using k by (simp_all add: upt_conv_Cons Cons_nth_drop_Suc)
  show ?case
  proof (cases "programs = []")
    case True
    then show ?thesis using s1 Cons.prems(2) upt by auto
  next
    case False
    then have "Suc k \<noteq> length xs" using Cons.prems(2) by (cases programs) auto
    then show ?thesis
      using Cons.IH [of "Suc k" s1] s1 Cons.prems(2,5) False upt by auto
  qed
qed simp

lemma playing_after_recording:
  assumes "has_recorded cap xs e" "xs \<noteq> []"
  shows "holds_frames xs 0 (legacy_echo_receive f False e)"
proof -
  have "echo_length e \<noteq> 0" using assms frame_positive by (auto simp: has_recorded_def)
  moreover have "echo_length e \<le> length (echo_samples e)" using assms(1) by (auto simp: has_recorded_def)
  ultimately show ?thesis
    using assms(1) unfolding has_recorded_def holds_frames_def legacy_echo_receive_def by (elim conjE) simp
qed

section \<open>Properties\<close>

text \<open>C18:
  A program write never reads outside the echo recording, in whatever order the operations of a controller were
  used before, reloads included: it returns, refuses a frame of the other interface without any effect, and
  otherwise submits one whole frame, of the echo exactly while it plays.
\<close>

theorem program_write_safe:
  assumes "controller_reachable s" "frame_ok frame"
  shows "case write_program push frame s of
      None \<Rightarrow> False
    | Some (r, s') \<Rightarrow>
        if frame_mode frame \<noteq> controller_mode s then r = Inl WrongInterface \<and> s' = s
        else
          (case r of
             Inl _ \<Rightarrow> controller_echo s' = controller_echo s
           | Inr w \<Rightarrow>
               accepted_samples w \<le> submitted_samples w \<and>
               (if legacy_echo_playing (controller_echo s)
                then write_source w = SourceLegacyEcho \<and> submitted_samples w = APP_RPT_FRAME_SAMPLES
                else write_source w = SourceController \<and> submitted_samples w = frame_samples (frame_mode frame) \<and>
                  controller_echo s' = controller_echo s))"
proof -
  have inv: "echo_inv (controller_echo s)"
    using controller_reachable_inv [OF assms(1)] by (simp add: controller_inv_def)
  show ?thesis
    using echo_frame_playing [OF inv] length_frame_audio [OF assms(2)]
    by (auto simp: write_program_def Let_def split: prod.split sum.split option.split)
qed

lemma program_write_safe_witness:
  "write_program program_log (silence AppRpt) (controller_new AppRpt [] echo_configuration_default) \<noteq> None"
proof -
  have "frame_ok (silence AppRpt)" by (simp add: frame_ok_def silence_def)
  from program_write_safe [OF reach_new [of AppRpt "[]" echo_configuration_default] this, where push = program_log]
  show ?thesis by (cases "write_program program_log (silence AppRpt) (controller_new AppRpt [] echo_configuration_default)") simp_all
qed

text \<open>C17:
  The legacy echo plays what was recorded: after keyed frames and an unkeyed one, the program writes submit the
  recorded frames sample for sample in order, up to the limit of the recording, the last one reports completion,
  and the echo is then empty and records again.
\<close>

theorem echo_roundtrip:
  assumes "list_all (\<lambda>f. frame_ok f \<and> frame_mode f = AppRpt) fs" "0 < cap" "fs \<noteq> []"
    and "controller_mode s = AppRpt" "controller_echo s = legacy_echo_receive unkeyed False (recorded cap fs)"
    and "list_all (\<lambda>f. frame_mode f = AppRpt) programs" "length programs = min cap (length fs)"
  shows "\<exists>s'. write_all program_log programs s =
      Some (map (\<lambda>i. Inr (echoed (Suc i = length programs))) [0..<length programs], s') \<and>
    program_ring s' = program_ring s @ map (map s16_to_f32 \<circ> frame_audio) (take cap fs) \<and>
    silent_recording (controller_echo s')"
proof -
  let ?xs = "take cap (map frame_audio fs)"
  have e: "has_recorded cap ?xs (recorded cap fs)" by (rule recorded_frames [OF assms(1)])
  have "0 < length programs" unfolding assms(7) using assms(2,3) by (simp add: min_def)
  then have "programs \<noteq> []" by auto
  moreover have "?xs \<noteq> []" "length ?xs = length programs" using assms(2,3) by (auto simp: assms(7))
  moreover have "holds_frames ?xs 0 (controller_echo s)"
    unfolding assms(5) by (rule playing_after_recording [OF e calculation(2)])
  ultimately show ?thesis
    using write_all_echo [of ?xs 0 s programs] assms(4,6) by (simp add: take_map)
qed

lemma echo_roundtrip_witness:
  "\<exists>s. write_all program_log [silence AppRpt]
      ((controller_new AppRpt [] echo_configuration_default)
         \<lparr>controller_echo := legacy_echo_receive (silence AppRpt) False (recorded 3 [app_rpt (replicate 160 7)])\<rparr>) =
    Some ([Inr (echoed True)], s) \<and> program_ring s = [map s16_to_f32 (replicate 160 7)]"
proof -
  have frame: "frame_ok (app_rpt (replicate 160 7))" "frame_mode (app_rpt (replicate 160 7)) = AppRpt"
    "frame_audio (app_rpt (replicate 160 7)) = replicate 160 7"
    by (simp_all add: frame_ok_def app_rpt_def overwrite_def ADVANCED_FRAME_SAMPLES_def frame_audio_def frame_samples_def
        APP_RPT_FRAME_SAMPLES_def)
  show ?thesis
    using echo_roundtrip [of "[app_rpt (replicate 160 7)]" 3
        "(controller_new AppRpt [] echo_configuration_default)
           \<lparr>controller_echo := legacy_echo_receive (silence AppRpt) False (recorded 3 [app_rpt (replicate 160 7)])\<rparr>"
        "silence AppRpt" "[silence AppRpt]"] frame
    by (fastforce simp add: controller_new_def silence_def simp del: write_all.simps)
qed

end
