(* ===== verification/Loudness_Meter.thy ===== *)
theory Loudness_Meter
  imports Float_Arithmetic Transition_System "HOL-Library.Word"
begin

text \<open>
  The output loudness meter, \<^verbatim>\<open>rust/core/src/loudness_meter.rs\<close>: the analysis of bounded blocks by its audio
  owner, and the publication of snapshots to observers on other threads through a sequence lock. The EBU R128
  analyzer is code outside and a parameter, like the decibel conversion of a peak.

  Every atomic access of \<open>publish\<close> and of \<open>snapshot\<close> is a step of its own, and the steps interleave freely; all
  accesses of the code are sequentially consistent. The four shared words hold the epoch and the sample count
  as integers and the two measurements as the bits of a float, which the model keeps as the float. The
  sequence keeps its 64 bits and wraps.
\<close>

section \<open>Snapshots\<close>

datatype output_loudness_error = UnsupportedSampleRate | InvalidMaximumFrameCount | FrameTooLarge

fun output_loudness_error_display :: "output_loudness_error \<Rightarrow> string" where
  "output_loudness_error_display UnsupportedSampleRate = ''output meter sample rate must be 8000 through 384000 Hz''"
| "output_loudness_error_display InvalidMaximumFrameCount =
     ''output meter maximum frame count must be 1 through 4096''"
| "output_loudness_error_display FrameTooLarge = ''output meter input exceeds its prepared frame bound''"

record loudness_snapshot =
  snapshot_epoch :: nat
  snapshot_count :: nat
  integrated_lufs :: "rust_float option"
  true_peak_dbtp :: "rust_float option"

datatype cell = CellInt nat | CellFloat rust_float

definition or_nan :: "rust_float option \<Rightarrow> rust_float" where
  "or_nan x = (case x of None \<Rightarrow> FNaN | Some v \<Rightarrow> v)"

definition finite_some :: "rust_float \<Rightarrow> rust_float option" where
  "finite_some x = (if is_finite x then Some x else None)"

definition snapshot_cells :: "loudness_snapshot \<Rightarrow> cell list" where
  "snapshot_cells v =
     [CellInt (snapshot_epoch v), CellInt (snapshot_count v), CellFloat (or_nan (integrated_lufs v)),
      CellFloat (or_nan (true_peak_dbtp v))]"

fun cell_int :: "cell \<Rightarrow> nat" where
  "cell_int (CellInt n) = n"
| "cell_int (CellFloat _) = 0"

fun cell_float :: "cell \<Rightarrow> rust_float" where
  "cell_float (CellFloat x) = x"
| "cell_float (CellInt _) = FNaN"

definition cells_snapshot :: "cell list \<Rightarrow> loudness_snapshot" where
  "cells_snapshot cs =
     \<lparr>snapshot_epoch = cell_int (cs ! 0), snapshot_count = cell_int (cs ! 1),
      integrated_lufs = finite_some (cell_float (cs ! 2)), true_peak_dbtp = finite_some (cell_float (cs ! 3))\<rparr>"

text \<open>Nothing measured yet, or nothing that could be read.\<close>

definition unmeasured :: "nat \<Rightarrow> loudness_snapshot" where
  "unmeasured epoch =
     \<lparr>snapshot_epoch = epoch, snapshot_count = 0, integrated_lufs = None, true_peak_dbtp = None\<rparr>"

section \<open>The sequence lock\<close>

text \<open>
  The writer is before the first increment, before the store of a word, and before the second increment. The
  reader is before a load of the sequence, before the load of a word with what it has, before the check, and
  before the load of the epoch alone; the number counts the attempts.
\<close>

datatype writer_pc = WriterIdle | WriterBegin loudness_snapshot | WriterStore nat loudness_snapshot | WriterEnd loudness_snapshot

datatype reader_pc =
    ReaderIdle
  | ReaderLoad nat
  | ReaderWords nat "64 word" "cell list"
  | ReaderCheck nat "64 word" "cell list"
  | ReaderEpoch

text \<open>\<open>published_snapshots\<close> is history: every completed publication, the initial contents first.\<close>

record loudness_cell =
  sequence :: "64 word"
  shared_words :: "cell list"
  writer_at :: writer_pc
  reader_at :: reader_pc
  snapshot_read :: "loudness_snapshot option"
  published_snapshots :: "loudness_snapshot list"

definition published_new :: "nat \<Rightarrow> loudness_cell" where
  "published_new epoch =
     \<lparr>sequence = 0, shared_words = snapshot_cells (unmeasured epoch), writer_at = WriterIdle,
      reader_at = ReaderIdle, snapshot_read = None, published_snapshots = [unmeasured epoch]\<rparr>"

definition writer_next :: "loudness_cell \<Rightarrow> loudness_cell" where
  "writer_next s =
     (case writer_at s of
        WriterIdle \<Rightarrow> s
      | WriterBegin v \<Rightarrow> s\<lparr>sequence := sequence s + 1, writer_at := WriterStore 0 v\<rparr>
      | WriterStore n v \<Rightarrow>
          s\<lparr>shared_words := (shared_words s)[n := snapshot_cells v ! n],
            writer_at := (if n + 1 < 4 then WriterStore (n + 1) v else WriterEnd v)\<rparr>
      | WriterEnd v \<Rightarrow>
          s\<lparr>sequence := sequence s + 1, writer_at := WriterIdle,
            published_snapshots := published_snapshots s @ [v]\<rparr>)"

definition next_attempt :: "nat \<Rightarrow> reader_pc" where
  "next_attempt k = (if k + 1 < 3 then ReaderLoad (k + 1) else ReaderEpoch)"

definition reader_next :: "loudness_cell \<Rightarrow> loudness_cell" where
  "reader_next s =
     (case reader_at s of
        ReaderIdle \<Rightarrow> s
      | ReaderLoad k \<Rightarrow>
          if odd (sequence s) then s\<lparr>reader_at := next_attempt k\<rparr>
          else s\<lparr>reader_at := ReaderWords k (sequence s) []\<rparr>
      | ReaderWords k q cs \<Rightarrow>
          (let cs = cs @ [shared_words s ! length cs] in
           s\<lparr>reader_at := (if length cs < 4 then ReaderWords k q cs else ReaderCheck k q cs)\<rparr>)
      | ReaderCheck k q cs \<Rightarrow>
          if sequence s \<noteq> q then s\<lparr>reader_at := next_attempt k\<rparr>
          else s\<lparr>reader_at := ReaderIdle, snapshot_read := Some (cells_snapshot cs)\<rparr>
      | ReaderEpoch \<Rightarrow>
          s\<lparr>reader_at := ReaderIdle, snapshot_read := Some (unmeasured (cell_int (shared_words s ! 0)))\<rparr>)"

inductive loudness_step :: "loudness_cell \<Rightarrow> loudness_cell \<Rightarrow> bool" where
  step_publish: "writer_at s = WriterIdle \<Longrightarrow> loudness_step s (s\<lparr>writer_at := WriterBegin v\<rparr>)"
| step_writer: "loudness_step s (writer_next s)"
| step_snapshot: "reader_at s = ReaderIdle \<Longrightarrow>
    loudness_step s (s\<lparr>reader_at := ReaderLoad 0, snapshot_read := None\<rparr>)"
| step_reader: "loudness_step s (reader_next s)"

definition loudness_init :: "loudness_cell \<Rightarrow> bool" where
  "loudness_init s \<longleftrightarrow> (\<exists>epoch. s = published_new epoch)"

section \<open>The analyzer\<close>

text \<open>The analyzer \<open>EbuR128\<close> with its state, and \<open>20 log10\<close> of an amplitude.\<close>

record 'e loudness_analyzer =
  add_frames :: "rust_float list \<Rightarrow> 'e \<Rightarrow> 'e"
  loudness_global :: "'e \<Rightarrow> rust_float"
  true_peak :: "'e \<Rightarrow> rust_float"
  analyzer_reset :: "'e \<Rightarrow> 'e"
  decibels :: "rust_float \<Rightarrow> rust_float"

record 'e loudness_meter =
  meter_state :: 'e
  meter_scratch :: "rust_float list"
  meter_rate :: nat
  meter_samples :: nat
  meter_phase :: nat
  meter_integrated :: "rust_float option"
  meter_epoch :: nat

definition meter_new :: "'e \<Rightarrow> nat \<Rightarrow> nat \<Rightarrow> nat \<Rightarrow> (output_loudness_error, 'e loudness_meter) result" where
  "meter_new analyzer epoch rate maximum_samples =
     (if \<not> (8000 \<le> rate \<and> rate \<le> 384000) then Inl UnsupportedSampleRate
      else if \<not> (1 \<le> maximum_samples \<and> maximum_samples \<le> 4096) then Inl InvalidMaximumFrameCount
      else Inr \<lparr>meter_state = analyzer, meter_scratch = replicate maximum_samples (f64 0), meter_rate = rate,
                meter_samples = 0, meter_phase = 0, meter_integrated = None, meter_epoch = epoch\<rparr>)"

text \<open>The snapshot that a reset or a block publishes is part of the result.\<close>

definition meter_reset :: "'e loudness_analyzer \<Rightarrow> nat \<Rightarrow> 'e loudness_meter \<Rightarrow> loudness_snapshot \<times> 'e loudness_meter" where
  "meter_reset e epoch m =
     (unmeasured epoch,
      m\<lparr>meter_state := analyzer_reset e (meter_state m), meter_samples := 0, meter_phase := 0,
        meter_integrated := None, meter_epoch := epoch\<rparr>)"

definition meter_interval :: "'e loudness_meter \<Rightarrow> nat" where
  "meter_interval m = (meter_rate m + 5) div 10"

text \<open>The end of a window of 100 ms, and the peak; both wait for 400 ms.\<close>

definition meter_window :: "'e loudness_analyzer \<Rightarrow> 'e loudness_meter \<Rightarrow> 'e loudness_meter" where
  "meter_window e m =
     (if meter_interval m \<le> meter_phase m then
        m\<lparr>meter_phase := meter_phase m mod meter_interval m,
          meter_integrated :=
            (if 4 * meter_interval m \<le> meter_samples m then finite_some (loudness_global e (meter_state m))
             else meter_integrated m)\<rparr>
      else m)"

definition meter_peak :: "'e loudness_analyzer \<Rightarrow> 'e loudness_meter \<Rightarrow> rust_float option" where
  "meter_peak e m =
     (if 4 * meter_interval m \<le> meter_samples m then
        (let amplitude = true_peak e (meter_state m) in
         if is_finite amplitude \<and> float_lt (f64 0) amplitude then Some (decibels e amplitude) else None)
      else None)"

definition meter_process ::
  "'e loudness_analyzer \<Rightarrow> rust_float list \<Rightarrow> 'e loudness_meter \<Rightarrow>
   (output_loudness_error, loudness_snapshot option) result \<times> 'e loudness_meter" where
  "meter_process e samples m =
     (if length (meter_scratch m) < length samples then (Inl FrameTooLarge, m)
      else if samples = [] then (Inr None, m)
      else
        (let prefix = map (\<lambda>x. if is_finite x then x else f64 0) samples;
             m = meter_window e
               (m\<lparr>meter_scratch := prefix @ drop (length samples) (meter_scratch m),
                  meter_state := add_frames e prefix (meter_state m),
                  meter_samples := min (meter_samples m + length samples) (2 ^ 64 - 1),
                  meter_phase := meter_phase m + length samples\<rparr>) in
         (Inr (Some \<lparr>snapshot_epoch = meter_epoch m, snapshot_count = meter_samples m,
                     integrated_lufs = meter_integrated m, true_peak_dbtp = meter_peak e m\<rparr>), m)))"

section \<open>Invariant of the sequence lock\<close>

definition writing :: "loudness_cell \<Rightarrow> bool" where
  "writing s \<longleftrightarrow> (case writer_at s of WriterStore _ _ \<Rightarrow> True | WriterEnd _ \<Rightarrow> True | _ \<Rightarrow> False)"

text \<open>The number of increments of the sequence so far.\<close>

definition increments :: "loudness_cell \<Rightarrow> nat" where
  "increments s = 2 * (length (published_snapshots s) - 1) + (if writing s then 1 else 0)"

text \<open>What a reader with this sequence value holds: words of one publication, unless the sequence has moved.\<close>

definition consistent_words :: "loudness_cell \<Rightarrow> 64 word \<Rightarrow> cell list \<Rightarrow> bool" where
  "consistent_words s q cs \<longleftrightarrow>
     (\<exists>p < length (published_snapshots s). q = word_of_nat (2 * p) \<and>
        (increments s = 2 * p \<longrightarrow> cs = take (length cs) (snapshot_cells (published_snapshots s ! p))))"

definition snapshot_ok :: "loudness_cell \<Rightarrow> loudness_snapshot \<Rightarrow> bool" where
  "snapshot_ok s r \<longleftrightarrow>
     (\<exists>v \<in> set (published_snapshots s). r = cells_snapshot (snapshot_cells v)) \<or> r = unmeasured (snapshot_epoch r)"

definition writer_ok :: "loudness_cell \<Rightarrow> bool" where
  "writer_ok s \<longleftrightarrow>
     (case writer_at s of
        WriterStore n v \<Rightarrow> n < 4 \<and> take n (shared_words s) = take n (snapshot_cells v)
      | WriterEnd v \<Rightarrow> shared_words s = snapshot_cells v
      | _ \<Rightarrow> shared_words s = snapshot_cells (last (published_snapshots s)))"

definition reader_ok :: "loudness_cell \<Rightarrow> bool" where
  "reader_ok s \<longleftrightarrow>
     (case reader_at s of
        ReaderLoad k \<Rightarrow> k < 3
      | ReaderWords k q cs \<Rightarrow> k < 3 \<and> length cs < 4 \<and> consistent_words s q cs
      | ReaderCheck k q cs \<Rightarrow> k < 3 \<and> length cs = 4 \<and> consistent_words s q cs
      | _ \<Rightarrow> True)"

definition read_ok :: "loudness_cell \<Rightarrow> bool" where
  "read_ok s \<longleftrightarrow> (case snapshot_read s of None \<Rightarrow> True | Some r \<Rightarrow> snapshot_ok s r)"

definition loudness_core :: "loudness_cell \<Rightarrow> bool" where
  "loudness_core s \<longleftrightarrow>
     published_snapshots s \<noteq> [] \<and> sequence s = word_of_nat (increments s) \<and> length (shared_words s) = 4 \<and>
     writer_ok s \<and> reader_ok s \<and> read_ok s"

definition loudness_inv :: "loudness_cell \<Rightarrow> bool" where
  "loudness_inv s \<longleftrightarrow> published_snapshots s \<noteq> [] \<and> (increments s < 2 ^ 64 \<longrightarrow> loudness_core s)"

end
