(* ===== verification/Loudness_Safety.thy ===== *)
theory Loudness_Safety
  imports Loudness_Meter
begin

text \<open>
  The sequence lock of the loudness meter under every interleaving: a reader returns one whole publication or an
  unmeasured snapshot, in a bounded number of its own steps. The sequence is exact as long as it has not wrapped,
  that is for \<open>2 ^ 63\<close> publications.
\<close>

section \<open>The invariant\<close>

lemma length_snapshot_cells [simp]: "length (snapshot_cells v) = 4"
  by (simp add: snapshot_cells_def)

lemma increments_simps:
  "writer_at s = WriterIdle \<Longrightarrow> increments s = 2 * (length (published_snapshots s) - 1)"
  "writer_at s = WriterBegin v \<Longrightarrow> increments s = 2 * (length (published_snapshots s) - 1)"
  "writer_at s = WriterStore n v \<Longrightarrow> increments s = 2 * (length (published_snapshots s) - 1) + 1"
  "writer_at s = WriterEnd v \<Longrightarrow> increments s = 2 * (length (published_snapshots s) - 1) + 1"
  by (simp_all add: increments_def writing_def)

lemma even_sequence: "sequence s = word_of_nat (increments s) \<Longrightarrow> even (sequence s) \<longleftrightarrow> \<not> writing s"
  by (simp add: increments_def)

lemma sequence_inj: "(word_of_nat a :: 64 word) = word_of_nat b \<Longrightarrow> a < 2 ^ 64 \<Longrightarrow> b < 2 ^ 64 \<Longrightarrow> a = b"
  by (simp add: word_of_nat_eq_iff take_bit_nat_eq_self)

text \<open>A step that leaves the reader alone keeps its part when no even sequence value comes back.\<close>

lemma reader_frame:
  assumes "reader_ok s" "read_ok s" "reader_at t = reader_at s" "snapshot_read t = snapshot_read s"
    and "published_snapshots t = published_snapshots s @ vs"
    and "\<And>p. p < length (published_snapshots s) \<Longrightarrow> increments t = 2 * p \<Longrightarrow> increments s = increments t"
  shows "reader_ok t \<and> read_ok t"
proof -
  have "consistent_words t q cs" if "consistent_words s q cs" for q cs
    using that assms(5,6) by (fastforce simp: consistent_words_def nth_append)
  moreover have "snapshot_ok t r" if "snapshot_ok s r" for r
    using that assms(5) by (auto simp: snapshot_ok_def)
  ultimately show ?thesis
    using assms(1-4) by (auto simp: reader_ok_def read_ok_def split: reader_pc.splits option.splits)
qed

lemma writer_ok_cong:
  "writer_at t = writer_at s \<Longrightarrow> shared_words t = shared_words s \<Longrightarrow>
     published_snapshots t = published_snapshots s \<Longrightarrow> writer_ok t = writer_ok s"
  by (simp add: writer_ok_def split: writer_pc.split)

lemma writer_core:
  assumes "loudness_core s" shows "loudness_core (writer_next s)"
proof -
  let ?t = "writer_next s"
  have s: "published_snapshots s \<noteq> []" "sequence s = word_of_nat (increments s)" "length (shared_words s) = 4"
    "writer_ok s" "reader_ok s" "read_ok s"
    using assms by (auto simp: loudness_core_def)
  show ?thesis
  proof (cases "writer_at s")
    case WriterIdle
    then show ?thesis using assms by (simp add: writer_next_def)
  next
    case (WriterBegin v)
    then have t: "?t = s\<lparr>sequence := sequence s + 1, writer_at := WriterStore 0 v\<rparr>" by (simp add: writer_next_def)
    have n: "increments ?t = increments s + 1" "even (increments s)" using WriterBegin by (simp_all add: t increments_simps)
    have never: "increments ?t \<noteq> 2 * p" for p using n by presburger
    have fields: "reader_at ?t = reader_at s" "snapshot_read ?t = snapshot_read s"
      "published_snapshots ?t = published_snapshots s @ []"
      by (simp_all add: t)
    have "reader_ok ?t \<and> read_ok ?t"
      by (rule reader_frame [OF s(5,6) fields]) (use never in blast)
    moreover have "sequence ?t = word_of_nat (increments ?t)" using s(2) by (simp add: n(1)) (simp add: t)
    moreover have "writer_ok ?t" by (simp add: t writer_ok_def)
    ultimately show ?thesis using s(1,3) by (simp add: loudness_core_def) (simp add: t)
  next
    case (WriterStore n v)
    then have t: "?t = s\<lparr>shared_words := (shared_words s)[n := snapshot_cells v ! n],
        writer_at := (if n + 1 < 4 then WriterStore (n + 1) v else WriterEnd v)\<rparr>"
      by (simp add: writer_next_def)
    have n: "n < 4" "take n (shared_words s) = take n (snapshot_cells v)" using s(4) WriterStore by (auto simp: writer_ok_def)
    have same: "increments ?t = increments s" using WriterStore by (simp add: t increments_def writing_def)
    have "take (Suc n) ((shared_words s)[n := snapshot_cells v ! n]) = take (Suc n) (snapshot_cells v)"
      using n s(3) by (simp add: take_Suc_conv_app_nth)
    then have "writer_ok ?t"
      using n(1) s(3) by (cases "n = 3") (auto simp: t writer_ok_def)
    moreover have "reader_ok ?t \<and> read_ok ?t"
      by (rule reader_frame [OF s(5,6), where vs = "[]"]) (use same in \<open>auto simp: t\<close>)
    ultimately show ?thesis using s(1-3) same by (simp add: loudness_core_def) (simp add: t)
  next
    case (WriterEnd v)
    then have t: "?t = s\<lparr>sequence := sequence s + 1, writer_at := WriterIdle, published_snapshots := published_snapshots s @ [v]\<rparr>"
      by (simp add: writer_next_def)
    have n: "increments ?t = 2 * length (published_snapshots s)" "increments ?t = increments s + 1"
      using WriterEnd s(1) by (cases "published_snapshots s"; simp add: t increments_simps)+
    have "reader_ok ?t \<and> read_ok ?t"
      by (rule reader_frame [OF s(5,6), where vs = "[v]"]) (use n(1) in \<open>auto simp: t\<close>)
    moreover have "sequence ?t = word_of_nat (increments ?t)" using s(2) by (simp add: n(2)) (simp add: t)
    moreover have "writer_ok ?t" using s(4) WriterEnd by (simp add: t writer_ok_def)
    ultimately show ?thesis using s(1,3) by (simp add: loudness_core_def) (simp add: t)
  qed
qed

lemma reader_steps_same:
  "sequence (reader_next s) = sequence s" "shared_words (reader_next s) = shared_words s"
  "writer_at (reader_next s) = writer_at s" "published_snapshots (reader_next s) = published_snapshots s"
  by (simp_all add: reader_next_def Let_def split: reader_pc.split)

lemma reader_increments: "increments (reader_next s) = increments s"
  by (simp add: increments_def writing_def reader_steps_same)

lemma next_attempt_ok: "reader_at t = next_attempt k \<Longrightarrow> reader_ok t"
  by (auto simp: reader_ok_def next_attempt_def)

lemma reader_core:
  assumes "loudness_core s" "increments s < 2 ^ 64" shows "loudness_core (reader_next s)"
proof -
  let ?t = "reader_next s"
  have s: "published_snapshots s \<noteq> []" "sequence s = word_of_nat (increments s)" "length (shared_words s) = 4"
    "writer_ok s" "reader_ok s" "read_ok s"
    using assms by (auto simp: loudness_core_def)
  let ?last = "length (published_snapshots s) - 1"
  have quiet: "increments s = 2 * ?last" "shared_words s = snapshot_cells (published_snapshots s ! ?last)" if "\<not> writing s"
    using that s(1,4) by (auto simp: increments_def writing_def writer_ok_def last_conv_nth split: writer_pc.splits)
  have words: "consistent_words t q cs = consistent_words s q cs" "snapshot_ok t r = snapshot_ok s r"
    if "increments t = increments s" "published_snapshots t = published_snapshots s" for t q cs r
    using that by (simp_all add: consistent_words_def snapshot_ok_def)
  note same = words [OF reader_increments reader_steps_same(4)]
  have "reader_ok ?t \<and> read_ok ?t"
  proof (cases "reader_at s")
    case ReaderIdle
    then show ?thesis using s(5,6) by (simp add: reader_next_def)
  next
    case (ReaderLoad k)
    show ?thesis
    proof (cases "odd (sequence s)")
      case True
      then have "reader_at ?t = next_attempt k" "snapshot_read ?t = snapshot_read s" using ReaderLoad by (simp_all add: reader_next_def)
      then show ?thesis using s(6) same by (simp add: next_attempt_ok read_ok_def split: option.splits)
    next
      case False
      then have "\<not> writing s" using even_sequence [OF s(2)] by simp
      then have "consistent_words s (sequence s) []"
        using quiet(1) s(1,2) unfolding consistent_words_def by (intro exI [of _ ?last]) simp
      moreover have "reader_at ?t = ReaderWords k (sequence s) []" "snapshot_read ?t = snapshot_read s"
        using ReaderLoad False by (simp_all add: reader_next_def)
      moreover have "k < 3" using s(5) ReaderLoad by (simp add: reader_ok_def)
      ultimately show ?thesis using s(6) same by (simp add: reader_ok_def read_ok_def split: option.splits)
    qed
  next
    case (ReaderWords k q cs)
    let ?cs = "cs @ [shared_words s ! length cs]"
    have k: "k < 3" "length cs < 4" "consistent_words s q cs" using s(5) ReaderWords by (auto simp: reader_ok_def)
    obtain p where p: "p < length (published_snapshots s)" "q = word_of_nat (2 * p)"
        "increments s = 2 * p \<longrightarrow> cs = take (length cs) (snapshot_cells (published_snapshots s ! p))"
      using k(3) by (auto simp: consistent_words_def)
    have "?cs = take (length ?cs) (snapshot_cells (published_snapshots s ! p))" if "increments s = 2 * p"
    proof -
      have "\<not> writing s" using that by (auto simp: increments_def; presburger)
      then have "shared_words s = snapshot_cells (published_snapshots s ! p)" using quiet that by simp
      then show ?thesis using p(3) that k(2) by (simp add: take_Suc_conv_app_nth)
    qed
    then have "consistent_words s q ?cs" using p(1,2) by (auto simp: consistent_words_def)
    moreover have "reader_at ?t = (if length ?cs < 4 then ReaderWords k q ?cs else ReaderCheck k q ?cs)"
      "snapshot_read ?t = snapshot_read s"
      using ReaderWords by (simp_all add: reader_next_def Let_def)
    ultimately show ?thesis
      using k(1,2) s(6) same by (cases "length ?cs < 4") (simp_all add: reader_ok_def read_ok_def split: option.splits)
  next
    case (ReaderCheck k q cs)
    have k: "length cs = 4" "consistent_words s q cs" using s(5) ReaderCheck by (auto simp: reader_ok_def)
    show ?thesis
    proof (cases "sequence s = q")
      case False
      then have "reader_at ?t = next_attempt k" "snapshot_read ?t = snapshot_read s" using ReaderCheck by (simp_all add: reader_next_def)
      then show ?thesis using s(6) same by (simp add: next_attempt_ok read_ok_def split: option.splits)
    next
      case True
      obtain p where p: "p < length (published_snapshots s)" "q = word_of_nat (2 * p)"
          "increments s = 2 * p \<longrightarrow> cs = take (length cs) (snapshot_cells (published_snapshots s ! p))"
        using k(2) by (auto simp: consistent_words_def)
      have "2 * p \<le> increments s" using p(1) by (auto simp: increments_def)
      then have "increments s = 2 * p" using sequence_inj [of "increments s" "2 * p"] assms(2) True p(2) s(2) by simp
      then have "cs = snapshot_cells (published_snapshots s ! p)" using p(3) k(1) by simp
      then have "snapshot_ok s (cells_snapshot cs)" using p(1) by (auto simp: snapshot_ok_def)
      moreover have "reader_at ?t = ReaderIdle" "snapshot_read ?t = Some (cells_snapshot cs)"
        using ReaderCheck True by (simp_all add: reader_next_def)
      ultimately show ?thesis using same by (simp add: reader_ok_def read_ok_def)
    qed
  next
    case ReaderEpoch
    then have "reader_at ?t = ReaderIdle" "snapshot_read ?t = Some (unmeasured (cell_int (shared_words s ! 0)))"
      by (simp_all add: reader_next_def)
    then show ?thesis by (simp add: reader_ok_def read_ok_def snapshot_ok_def unmeasured_def)
  qed
  then show ?thesis
    using s(1-4) using writer_ok_cong [of "reader_next s" s] by (simp add: loudness_core_def reader_increments reader_steps_same)
qed

lemma loudness_inv_init: "loudness_init s \<Longrightarrow> loudness_inv s"
  by (auto simp: loudness_init_def loudness_inv_def loudness_core_def published_new_def increments_def writing_def
      writer_ok_def reader_ok_def read_ok_def)

lemma writer_increments:
  assumes "published_snapshots s \<noteq> []"
  shows "increments s \<le> increments (writer_next s) \<and> published_snapshots (writer_next s) \<noteq> []"
  using assms
  by (cases "writer_at s"; cases "published_snapshots s") (auto simp: writer_next_def increments_def writing_def)

lemma loudness_inv_step:
  assumes "loudness_inv s" "loudness_step s s'" shows "loudness_inv s'"
  using assms(2)
proof cases
  case (step_publish v)
  then have "increments s' = increments s" by (simp add: increments_def writing_def)
  moreover have "reader_ok s' \<and> read_ok s'" if "loudness_core s"
    by (rule reader_frame [where s = s and vs = "[]"])
      (use that calculation step_publish in \<open>auto simp: loudness_core_def\<close>)
  ultimately show ?thesis
    using assms(1) step_publish by (auto simp: loudness_inv_def loudness_core_def writer_ok_def)
next
  case step_writer
  then show ?thesis
    using assms(1) writer_core [of s] writer_increments [of s] by (auto simp: loudness_inv_def)
next
  case step_snapshot
  then have n: "increments s' = increments s" by (simp add: increments_def writing_def)
  moreover have "writer_ok s' = writer_ok s" by (rule writer_ok_cong) (simp_all add: step_snapshot)
  ultimately show ?thesis
    using assms(1) step_snapshot by (auto simp: loudness_inv_def loudness_core_def reader_ok_def read_ok_def)
next
  case step_reader
  then show ?thesis
    using assms(1) reader_core [of s] reader_increments [of s] reader_steps_same(4) [of s] by (auto simp: loudness_inv_def)
qed

interpretation loudness: transition_system loudness_init loudness_step loudness_inv
  by unfold_locales (auto intro: loudness_inv_init loudness_inv_step)

text \<open>A snapshot of finite measurements is read as it was published.\<close>

lemma cells_roundtrip:
  assumes "\<And>x. integrated_lufs v = Some x \<Longrightarrow> is_finite x" "\<And>x. true_peak_dbtp v = Some x \<Longrightarrow> is_finite x"
  shows "cells_snapshot (snapshot_cells v) = v"
proof -
  have "finite_some (or_nan y) = y" if "\<And>x. y = Some x \<Longrightarrow> is_finite x" for y
    using that by (cases y) (auto simp: finite_some_def or_nan_def)
  then show ?thesis using assms by (simp add: cells_snapshot_def snapshot_cells_def)
qed

section \<open>The reader does not wait\<close>

datatype loudness_move = MovePublish loudness_snapshot | MoveWriter | MoveReader

fun loudness_move_step :: "loudness_move \<Rightarrow> loudness_cell \<Rightarrow> loudness_cell" where
  "loudness_move_step (MovePublish v) s = (if writer_at s = WriterIdle then s\<lparr>writer_at := WriterBegin v\<rparr> else s)"
| "loudness_move_step MoveWriter s = writer_next s"
| "loudness_move_step MoveReader s = reader_next s"

definition loudness_run :: "loudness_move list \<Rightarrow> loudness_cell \<Rightarrow> loudness_cell" where
  "loudness_run ms s = fold loudness_move_step ms s"

definition reader_steps :: "loudness_cell \<Rightarrow> nat" where
  "reader_steps s =
     (case reader_at s of
        ReaderIdle \<Rightarrow> 0
      | ReaderLoad k \<Rightarrow> 6 * (3 - k) + 1
      | ReaderWords k q cs \<Rightarrow> (4 - length cs) + 6 * (2 - k) + 2
      | ReaderCheck k q cs \<Rightarrow> 6 * (2 - k) + 2
      | ReaderEpoch \<Rightarrow> 1)"

definition reader_shape :: "loudness_cell \<Rightarrow> bool" where
  "reader_shape s \<longleftrightarrow>
     (case reader_at s of
        ReaderIdle \<Rightarrow> snapshot_read s \<noteq> None
      | ReaderLoad k \<Rightarrow> k < 3
      | ReaderWords k q cs \<Rightarrow> k < 3 \<and> length cs < 4
      | ReaderCheck k q cs \<Rightarrow> k < 3
      | ReaderEpoch \<Rightarrow> True)"

lemma reader_progress:
  assumes "reader_shape s"
  shows "reader_shape (reader_next s) \<and> reader_steps (reader_next s) \<le> reader_steps s - 1"
  using assms
  by (cases "reader_at s") (auto simp: reader_next_def reader_shape_def reader_steps_def next_attempt_def Let_def)

lemma writer_reader_frame:
  "reader_at (writer_next s) = reader_at s" "snapshot_read (writer_next s) = snapshot_read s"
  by (simp_all add: writer_next_def split: writer_pc.split)

lemma move_shape:
  assumes "reader_shape s" "m \<noteq> MoveReader"
  shows "reader_shape (loudness_move_step m s) \<and> reader_steps (loudness_move_step m s) = reader_steps s"
  using assms by (cases m) (auto simp: reader_shape_def reader_steps_def writer_reader_frame split: reader_pc.splits)

lemma run_settles:
  assumes "reader_shape s" "reader_steps s \<le> length (filter (\<lambda>m. m = MoveReader) ms)"
  shows "reader_shape (loudness_run ms s) \<and> reader_steps (loudness_run ms s) = 0"
  using assms
proof (induction ms arbitrary: s)
  case (Cons m ms)
  show ?case
  proof (cases "m = MoveReader")
    case True
    then show ?thesis
      using Cons.IH [of "reader_next s"] reader_progress [OF Cons.prems(1)] Cons.prems(2)
      by (auto simp: loudness_run_def)
  next
    case False
    then show ?thesis
      using Cons.IH [of "loudness_move_step m s"] move_shape [OF Cons.prems(1) False] Cons.prems(2)
      by (auto simp: loudness_run_def)
  qed
qed (simp add: loudness_run_def)

section \<open>Properties\<close>

definition sample_loudness :: loudness_snapshot where
  "sample_loudness =
     \<lparr>snapshot_epoch = 7, snapshot_count = 4800, integrated_lufs = None, true_peak_dbtp = Some (FFin True 3)\<rparr>"

lemma loudness_run_reachable:
  "reachable loudness_init loudness_step s \<Longrightarrow> reachable loudness_init loudness_step (loudness_run ms s)"
proof (induction ms arbitrary: s)
  case (Cons m ms)
  have "reachable loudness_init loudness_step (loudness_move_step m s)"
    using Cons.prems
    by (cases m) (auto intro: reachable_step step_publish step_writer step_reader)
  then show ?case using Cons.IH by (simp add: loudness_run_def)
qed (simp add: loudness_run_def)

text \<open>C15:
  An observer never sees a torn measurement. In every interleaving of the audio owner's publications and a
  reader's loads, what \<open>snapshot\<close> returns is one whole publication, as its words encode it, or a snapshot marked as
  unmeasured, as long as the 64-bit sequence has not wrapped.
\<close>

theorem snapshot_coherent:
  assumes "reachable loudness_init loudness_step s" "2 * length (published_snapshots s) < 2 ^ 64"
    and "snapshot_read s = Some r"
  shows "(\<exists>v \<in> set (published_snapshots s). r = cells_snapshot (snapshot_cells v)) \<or> r = unmeasured (snapshot_epoch r)"
proof -
  have "increments s < 2 ^ 64" using assms(2) by (auto simp: increments_def split: if_splits)
  then have "read_ok s" using loudness.reachable_inv [OF assms(1)] by (simp add: loudness_inv_def loudness_core_def)
  then show ?thesis using assms(3) by (simp add: read_ok_def snapshot_ok_def)
qed

definition sample_cell :: "64 word \<Rightarrow> writer_pc \<Rightarrow> reader_pc \<Rightarrow> loudness_snapshot option \<Rightarrow> loudness_cell" where
  "sample_cell q w r x =
     \<lparr>sequence = q, shared_words = snapshot_cells sample_loudness, writer_at = w, reader_at = r, snapshot_read = x,
      published_snapshots = [unmeasured 7, sample_loudness]\<rparr>"

lemma sample_publication:
  "loudness_run (MovePublish sample_loudness # replicate 6 MoveWriter) (published_new 7) =
     sample_cell 2 WriterIdle ReaderIdle None"
  by (simp add: loudness_run_def published_new_def writer_next_def sample_cell_def snapshot_cells_def numeral_eq_Suc)

lemma sample_reading:
  "loudness_run (replicate 6 MoveReader) (sample_cell 2 WriterIdle (ReaderLoad 0) None) =
     sample_cell 2 WriterIdle ReaderIdle (Some (cells_snapshot (snapshot_cells sample_loudness)))"
proof -
  have words: "reader_next (sample_cell 2 WriterIdle (ReaderWords 0 2 cs) None) =
      sample_cell 2 WriterIdle (if length cs < 3 then ReaderWords 0 2 (cs @ [snapshot_cells sample_loudness ! length cs])
        else ReaderCheck 0 2 (cs @ [snapshot_cells sample_loudness ! length cs])) None" for cs
    by (simp add: reader_next_def sample_cell_def Let_def)
  have load: "reader_next (sample_cell 2 WriterIdle (ReaderLoad 0) None) = sample_cell 2 WriterIdle (ReaderWords 0 2 []) None"
    by (simp add: reader_next_def sample_cell_def)
  have check: "reader_next (sample_cell 2 WriterIdle (ReaderCheck 0 2 cs) None) =
      sample_cell 2 WriterIdle ReaderIdle (Some (cells_snapshot cs))" for cs
    by (simp add: reader_next_def sample_cell_def)
  show ?thesis
    by (simp add: loudness_run_def numeral_eq_Suc load words check) (simp add: snapshot_cells_def)
qed

lemma sample_read_reachable:
  "reachable loudness_init loudness_step
     (sample_cell 2 WriterIdle ReaderIdle (Some (cells_snapshot (snapshot_cells sample_loudness))))"
proof -
  have "reachable loudness_init loudness_step (published_new 7)"
    by (rule reachable_init) (auto simp: loudness_init_def)
  then have "reachable loudness_init loudness_step (sample_cell 2 WriterIdle ReaderIdle None)"
    using loudness_run_reachable sample_publication by metis
  then have "reachable loudness_init loudness_step (sample_cell 2 WriterIdle (ReaderLoad 0) None)"
    by (rule reachable_step) (use step_snapshot [of "sample_cell 2 WriterIdle ReaderIdle None"] in \<open>simp add: sample_cell_def\<close>)
  then show ?thesis using loudness_run_reachable sample_reading by metis
qed

lemma snapshot_coherent_witness:
  "cells_snapshot (snapshot_cells sample_loudness) \<noteq> unmeasured 7 \<and>
   (\<exists>v \<in> {unmeasured 7, sample_loudness}. cells_snapshot (snapshot_cells sample_loudness) = cells_snapshot (snapshot_cells v))"
proof -
  let ?s = "sample_cell 2 WriterIdle ReaderIdle (Some (cells_snapshot (snapshot_cells sample_loudness)))"
  have "cells_snapshot (snapshot_cells sample_loudness) = sample_loudness"
    by (rule cells_roundtrip) (auto simp: sample_loudness_def)
  moreover have "published_snapshots ?s = [unmeasured 7, sample_loudness]"
    "snapshot_read ?s = Some (cells_snapshot (snapshot_cells sample_loudness))"
    by (simp_all add: sample_cell_def)
  ultimately show ?thesis
    using snapshot_coherent [OF sample_read_reachable] by (auto simp: sample_loudness_def unmeasured_def)
qed

text \<open>C16:
  An observer never waits for the audio owner: nineteen of its own steps finish a snapshot, whatever the owner
  publishes in between.
\<close>

theorem snapshot_wait_free:
  assumes "reader_at s = ReaderLoad 0" "19 \<le> length (filter (\<lambda>m. m = MoveReader) ms)"
  shows "reader_at (loudness_run ms s) = ReaderIdle \<and> snapshot_read (loudness_run ms s) \<noteq> None"
proof -
  have "reader_shape s" "reader_steps s = 19" using assms(1) by (simp_all add: reader_shape_def reader_steps_def)
  then have "reader_shape (loudness_run ms s) \<and> reader_steps (loudness_run ms s) = 0" using run_settles assms(2) by simp
  then show ?thesis by (auto simp: reader_shape_def reader_steps_def split: reader_pc.splits)
qed

lemma snapshot_wait_free_witness:
  "reader_at (loudness_run (replicate 19 MoveReader) (sample_cell 3 (WriterStore 2 sample_loudness) (ReaderLoad 0) None)) =
     ReaderIdle"
proof -
  have "reader_at (sample_cell 3 (WriterStore 2 sample_loudness) (ReaderLoad 0) None) = ReaderLoad 0"
    by (simp add: sample_cell_def)
  then show ?thesis by (rule snapshot_wait_free [THEN conjunct1]) simp
qed

section \<open>The meter\<close>

lemma window_crossed:
  fixes heard n i :: nat
  assumes "0 < i" shows "i \<le> heard mod i + n \<longleftrightarrow> heard div i < (heard + n) div i"
proof -
  have "heard + n = (heard mod i + n) + heard div i * i" by simp
  then have "(heard + n) div i = (heard mod i + n) div i + heard div i"
    using assms by (metis add.commute div_mult_self1 less_numeral_extra(3))
  then show ?thesis using assms by (simp add: div_greater_zero_iff)
qed

text \<open>The state of a meter after a number of samples.\<close>

definition meter_after :: "nat \<Rightarrow> 'e loudness_meter \<Rightarrow> bool" where
  "meter_after heard m \<longleftrightarrow>
     0 < meter_interval m \<and> meter_samples m = min heard (2 ^ 64 - 1) \<and> meter_phase m = heard mod meter_interval m"

lemma meter_new_after:
  "meter_new analyzer epoch rate maximum_samples = Inr m \<Longrightarrow>
     meter_after 0 m \<and> length (meter_scratch m) = maximum_samples"
  by (auto simp: meter_new_def meter_after_def meter_interval_def split: if_splits)

text \<open>
  A block counts its samples, keeps the phase within the window, and asks for the loudness exactly when a window
  ends and four have passed.
\<close>

lemma meter_window_facts:
  assumes "0 < meter_interval m"
  shows "meter_phase (meter_window e m) = meter_phase m mod meter_interval m"
    "meter_samples (meter_window e m) = meter_samples m" "meter_rate (meter_window e m) = meter_rate m"
    "meter_epoch (meter_window e m) = meter_epoch m" "meter_scratch (meter_window e m) = meter_scratch m"
    "meter_integrated (meter_window e m) =
       (if meter_interval m \<le> meter_phase m \<and> 4 * meter_interval m \<le> meter_samples m
        then finite_some (loudness_global e (meter_state m)) else meter_integrated m)"
  by (simp_all add: meter_window_def)

lemma saturated_sum: "min (min a (M :: nat) + b) M = min (a + b) M"
  by (simp add: min_def)

lemma meter_process_outcome:
  assumes "meter_after heard m" "meter_process e samples m = (r, m')"
  shows "length (meter_scratch m') = length (meter_scratch m) \<and> meter_interval m' = meter_interval m \<and>
    (if length (meter_scratch m) < length samples then r = Inl FrameTooLarge \<and> m' = m
     else if samples = [] then r = Inr None \<and> m' = m
     else meter_after (heard + length samples) m' \<and>
       (\<exists>v. r = Inr (Some v) \<and> snapshot_epoch v = meter_epoch m \<and> snapshot_count v = meter_samples m' \<and>
          integrated_lufs v = meter_integrated m') \<and>
       (meter_integrated m' \<noteq> meter_integrated m \<longrightarrow>
          heard div meter_interval m < (heard + length samples) div meter_interval m \<and>
          4 * meter_interval m \<le> meter_samples m'))"
proof (cases "length (meter_scratch m) < length samples \<or> samples = []")
  case True
  then show ?thesis using assms(2) by (auto simp: meter_process_def)
next
  case False
  let ?prefix = "map (\<lambda>x. if is_finite x then x else f64 0) samples"
  define n where "n = length samples"
  define m1 where "m1 = m\<lparr>meter_scratch := ?prefix @ drop n (meter_scratch m), meter_state := add_frames e ?prefix (meter_state m),
    meter_samples := min (meter_samples m + n) (2 ^ 64 - 1), meter_phase := meter_phase m + n\<rparr>"
  have m: "0 < meter_interval m" "meter_samples m = min heard (2 ^ 64 - 1)" "meter_phase m = heard mod meter_interval m"
    using assms(1) by (auto simp: meter_after_def)
  have m1: "meter_interval m1 = meter_interval m" "meter_samples m1 = min (heard + n) (2 ^ 64 - 1)"
    "meter_phase m1 = heard mod meter_interval m + n" "meter_integrated m1 = meter_integrated m"
    "meter_epoch m1 = meter_epoch m" "length (meter_scratch m1) = length (meter_scratch m)" "meter_rate m1 = meter_rate m"
    using False unfolding m1_def by (simp_all only: m(2,3) saturated_sum loudness_meter.simps)
       (auto simp: meter_interval_def n_def)
  have out: "m' = meter_window e m1" "r = Inr (Some \<lparr>snapshot_epoch = meter_epoch m', snapshot_count = meter_samples m',
      integrated_lufs = meter_integrated m', true_peak_dbtp = meter_peak e m'\<rparr>)"
    using assms(2) False unfolding meter_process_def m1_def n_def by (auto simp: Let_def)
  note facts = meter_window_facts [of m1 e, unfolded m1, OF m(1), folded out(1)]
  have interval: "meter_interval m' = meter_interval m" using facts(3) by (simp add: meter_interval_def)
  have "meter_phase m' = (heard + n) mod meter_interval m" using facts(1) by (simp add: mod_add_left_eq)
  then have "meter_after (heard + n) m'" using facts(2) m(1) interval by (simp add: meter_after_def)
  moreover have "heard div meter_interval m < (heard + n) div meter_interval m \<and> 4 * meter_interval m \<le> meter_samples m'"
    if "meter_integrated m' \<noteq> meter_integrated m"
    using that facts(2,6) window_crossed [OF m(1), of heard n] by (simp split: if_splits)
  ultimately show ?thesis
    using False out(2) facts(4,5) interval m1(6) by (simp add: n_def)
qed

end
