(* ===== verification/Link_Processor.thy ===== *)
theory Link_Processor
  imports Pcm Loudness_Safety
begin

text \<open>
  The processing of one remote link, \<^verbatim>\<open>rust/asl3/src/link.rs\<close>: a prepared graph over bounded workspaces, the
  meter of its output, and the counters. The graph is code outside, the parameter \<open>exact\<close> on its own state.
  A failed \<open>expect\<close> is a panic, and then there is no result; the counters wrap at 64 bits.
\<close>

section \<open>Links\<close>

datatype link_direction = LinkRead | LinkWrite | LinkSilence

datatype link_error = InvalidConfiguration

datatype link_process_outcome = LinkProcessed | LinkBypassed | LinkGraphFailed

text \<open>\<open>ExactRateGraph::process_exact\<close>: from the input and the output workspace to success and what the output holds.\<close>

type_synonym 'g exact_rate_graph = "rust_float list \<Rightarrow> rust_float list \<Rightarrow> 'g \<Rightarrow> bool \<times> rust_float list \<times> 'g"

record ('g, 'e) prepared_link =
  link_rate :: nat
  link_input :: "rust_float list"
  link_output :: "rust_float list"
  link_graph :: 'g
  link_meter :: "'e loudness_meter"
  processed_blocks :: "64 word"
  bypassed_blocks :: "64 word"
  failed_blocks :: "64 word"

definition prepared_link_new ::
  "'e \<Rightarrow> nat \<Rightarrow> nat \<Rightarrow> nat \<Rightarrow> 'g \<Rightarrow> (link_error, ('g, 'e) prepared_link) result" where
  "prepared_link_new analyzer epoch sample_rate maximum_frame_count graph =
     (case meter_new analyzer epoch sample_rate maximum_frame_count of
        Inl _ \<Rightarrow> Inl InvalidConfiguration
      | Inr m \<Rightarrow>
          Inr \<lparr>link_rate = sample_rate, link_input = replicate maximum_frame_count (f64 0),
               link_output = replicate maximum_frame_count (f64 0), link_graph = graph, link_meter = m,
               processed_blocks = 0, bypassed_blocks = 0, failed_blocks = 0\<rparr>)"

text \<open>\<open>self.meter.process(\<dots>).expect(\<dots>)\<close> over a prefix of the input workspace.\<close>

definition measure_input ::
  "'e loudness_analyzer \<Rightarrow> nat \<Rightarrow> ('g, 'e) prepared_link \<Rightarrow> ('g, 'e) prepared_link option" where
  "measure_input e count l =
     (case meter_process e (take count (link_input l)) (link_meter l) of
        (Inl _, m) \<Rightarrow> None
      | (Inr _, m) \<Rightarrow> Some (l\<lparr>link_meter := m\<rparr>))"

text \<open>The graph over prefixes of the workspaces; it cannot change the length of the output.\<close>

definition run_graph ::
  "'g exact_rate_graph \<Rightarrow> nat \<Rightarrow> ('g, 'e) prepared_link \<Rightarrow> bool \<times> ('g, 'e) prepared_link" where
  "run_graph exact count l =
     (case exact (take count (link_input l)) (take count (link_output l)) (link_graph l) of
        (ok, out, g) \<Rightarrow> (ok, l\<lparr>link_output := overwrite 0 (take count out) (link_output l), link_graph := g\<rparr>))"

definition advance_silence ::
  "'e loudness_analyzer \<Rightarrow> 'g exact_rate_graph \<Rightarrow> nat \<Rightarrow> ('g, 'e) prepared_link \<Rightarrow>
   (link_process_outcome \<times> ('g, 'e) prepared_link) option" where
  "advance_silence e exact count l =
     (if count = 0 \<or> length (link_input l) < count
      then Some (LinkBypassed, l\<lparr>bypassed_blocks := bypassed_blocks l + 1\<rparr>)
      else
        (case run_graph exact count (l\<lparr>link_input := overwrite 0 (replicate count (f64 0)) (link_input l)\<rparr>) of
           (ok, l) \<Rightarrow>
             (case measure_input e count (l\<lparr>link_output := overwrite 0 (replicate count (f64 0)) (link_output l)\<rparr>) of
                None \<Rightarrow> None
              | Some l \<Rightarrow>
                  Some (if ok then (LinkProcessed, l\<lparr>processed_blocks := processed_blocks l + 1\<rparr>)
                        else (LinkGraphFailed, l\<lparr>failed_blocks := failed_blocks l + 1\<rparr>)))))"

definition link_process ::
  "'e loudness_analyzer \<Rightarrow> 'g exact_rate_graph \<Rightarrow> ('t \<Rightarrow> rust_float) \<Rightarrow> (rust_float \<Rightarrow> 't) \<Rightarrow> link_direction \<Rightarrow> nat \<Rightarrow>
   't list \<Rightarrow> ('g, 'e) prepared_link \<Rightarrow> (link_process_outcome \<times> 't list \<times> ('g, 'e) prepared_link) option" where
  "link_process e exact to_float from_float direction sample_rate pcm l =
     (if direction = LinkWrite \<or> sample_rate \<noteq> link_rate l \<or> pcm = [] \<or> length (link_input l) < length pcm
      then Some (LinkBypassed, pcm, l\<lparr>bypassed_blocks := bypassed_blocks l + 1\<rparr>)
      else if direction = LinkSilence then
        map_option (\<lambda>(outcome, l). (outcome, map (\<lambda>_. from_float (f64 0)) pcm, l)) (advance_silence e exact (length pcm) l)
      else
        (case run_graph exact (length pcm) (l\<lparr>link_input := overwrite 0 (map to_float pcm) (link_input l)\<rparr>) of
           (False, l) \<Rightarrow>
             map_option (\<lambda>l. (LinkGraphFailed, pcm, l\<lparr>failed_blocks := failed_blocks l + 1\<rparr>)) (measure_input e (length pcm) l)
         | (True, l) \<Rightarrow>
             (let heard = map from_float (take (length pcm) (link_output l)) in
              map_option (\<lambda>l. (LinkProcessed, heard, l\<lparr>processed_blocks := processed_blocks l + 1\<rparr>))
                (measure_input e (length pcm) (l\<lparr>link_input := overwrite 0 (map to_float heard) (link_input l)\<rparr>)))))"

definition process_s16 ::
  "'e loudness_analyzer \<Rightarrow> 'g exact_rate_graph \<Rightarrow> link_direction \<Rightarrow> nat \<Rightarrow> int list \<Rightarrow> ('g, 'e) prepared_link \<Rightarrow>
   (link_process_outcome \<times> int list \<times> ('g, 'e) prepared_link) option" where
  "process_s16 e exact direction sample_rate pcm l = link_process e exact s16_to_f32 f32_to_s16 direction sample_rate pcm l"

definition process_f32 ::
  "'e loudness_analyzer \<Rightarrow> 'g exact_rate_graph \<Rightarrow> link_direction \<Rightarrow> nat \<Rightarrow> rust_float list \<Rightarrow> ('g, 'e) prepared_link \<Rightarrow>
   (link_process_outcome \<times> rust_float list \<times> ('g, 'e) prepared_link) option" where
  "process_f32 e exact direction sample_rate pcm l = link_process e exact (\<lambda>x. x) (\<lambda>x. x) direction sample_rate pcm l"

section \<open>Invariant\<close>

definition link_inv :: "('g, 'e) prepared_link \<Rightarrow> bool" where
  "link_inv l \<longleftrightarrow>
     length (link_output l) = length (link_input l) \<and> length (meter_scratch (link_meter l)) = length (link_input l) \<and>
     (\<exists>heard. meter_after heard (link_meter l))"

lemma prepared_link_new_inv:
  assumes "prepared_link_new analyzer epoch sample_rate maximum_frame_count graph = Inr l"
  shows "link_inv l \<and> link_rate l = sample_rate \<and> length (link_input l) = maximum_frame_count"
  using assms meter_new_after [of analyzer epoch sample_rate maximum_frame_count]
  by (auto simp: prepared_link_new_def link_inv_def split: sum.splits)

text \<open>The prefix is never longer than what the meter was prepared for.\<close>

lemma measure_input_some:
  assumes "link_inv l" "count \<le> length (link_input l)"
  shows "\<exists>m. measure_input e count l = Some (l\<lparr>link_meter := m\<rparr>) \<and> link_inv (l\<lparr>link_meter := m\<rparr>)"
proof -
  obtain heard where m: "meter_after heard (link_meter l)" using assms(1) by (auto simp: link_inv_def)
  obtain r m' where p: "meter_process e (take count (link_input l)) (link_meter l) = (r, m')" by fastforce
  note out = meter_process_outcome [OF m p]
  have "\<not> length (meter_scratch (link_meter l)) < length (take count (link_input l))"
    using assms(1) by (simp add: link_inv_def)
  then have "\<exists>v. r = Inr v" "\<exists>heard. meter_after heard m'" using out m by (auto split: if_splits)
  then show ?thesis using p out assms(1) by (auto simp: measure_input_def link_inv_def)
qed

lemma run_graph_inv:
  assumes "link_inv l" "count \<le> length (link_input l)"
  shows "\<exists>out g. run_graph exact count l =
      (fst (exact (take count (link_input l)) (take count (link_output l)) (link_graph l)),
       l\<lparr>link_output := out, link_graph := g\<rparr>) \<and> link_inv (l\<lparr>link_output := out, link_graph := g\<rparr>)"
  using assms by (auto simp: run_graph_def link_inv_def length_overwrite split: prod.split)

text \<open>What a call leaves of a link, beside the counter of its outcome.\<close>

definition counted :: "link_process_outcome \<Rightarrow> ('g, 'e) prepared_link \<Rightarrow> ('g, 'e) prepared_link \<Rightarrow> bool" where
  "counted outcome l l' \<longleftrightarrow>
     link_rate l' = link_rate l \<and> length (link_input l') = length (link_input l) \<and>
     processed_blocks l' = processed_blocks l + (if outcome = LinkProcessed then 1 else 0) \<and>
     bypassed_blocks l' = bypassed_blocks l + (if outcome = LinkBypassed then 1 else 0) \<and>
     failed_blocks l' = failed_blocks l + (if outcome = LinkGraphFailed then 1 else 0)"

lemma link_inv_simps [simp]:
  "link_inv (l\<lparr>processed_blocks := n\<rparr>) = link_inv l" "link_inv (l\<lparr>bypassed_blocks := n\<rparr>) = link_inv l"
  "link_inv (l\<lparr>failed_blocks := n\<rparr>) = link_inv l"
  by (simp_all add: link_inv_def)

lemma link_inv_input:
  "link_inv l \<Longrightarrow> length xs \<le> length (link_input l) \<Longrightarrow> link_inv (l\<lparr>link_input := overwrite 0 xs (link_input l)\<rparr>)"
  "link_inv l \<Longrightarrow> length xs \<le> length (link_input l) \<Longrightarrow> link_inv (l\<lparr>link_output := overwrite 0 xs (link_output l)\<rparr>)"
  by (simp_all add: link_inv_def length_overwrite)

lemma advance_silence_outcome:
  assumes "link_inv l"
  shows "\<exists>outcome l'. advance_silence e exact count l = Some (outcome, l') \<and> link_inv l' \<and> counted outcome l l' \<and>
    (outcome = LinkBypassed \<longleftrightarrow> count = 0 \<or> length (link_input l) < count)"
proof (cases "count = 0 \<or> length (link_input l) < count")
  case True
  then show ?thesis using assms by (auto simp: advance_silence_def counted_def)
next
  case False
  let ?zeros = "replicate count (f64 0)"
  let ?l1 = "l\<lparr>link_input := overwrite 0 ?zeros (link_input l)\<rparr>"
  have 1: "link_inv ?l1" "count \<le> length (link_input ?l1)"
    using False assms link_inv_input(1) [of l ?zeros] by (simp_all add: length_overwrite)
  obtain ok out g where 2: "run_graph exact count ?l1 = (ok, ?l1\<lparr>link_output := out, link_graph := g\<rparr>)"
      "link_inv (?l1\<lparr>link_output := out, link_graph := g\<rparr>)"
    using run_graph_inv [OF 1, of exact] by blast
  let ?l2 = "?l1\<lparr>link_output := out, link_graph := g\<rparr>"
  let ?l3 = "?l2\<lparr>link_output := overwrite 0 ?zeros (link_output ?l2)\<rparr>"
  have 3: "link_inv ?l3" "count \<le> length (link_input ?l3)" using link_inv_input(2) [OF 2(2), of ?zeros] 1(2) by simp_all
  obtain m where "measure_input e count ?l3 = Some (?l3\<lparr>link_meter := m\<rparr>)" "link_inv (?l3\<lparr>link_meter := m\<rparr>)"
    using measure_input_some [OF 3, of e] by blast
  then show ?thesis
    using False 2(1) by (auto simp: advance_silence_def counted_def length_overwrite)
qed

section \<open>Property\<close>

text \<open>C27:
  Processing a frame never panics and is all or nothing. On a link as it was prepared, and after any earlier calls,
  a call counts exactly one block under its outcome. A frame is bypassed exactly for the write direction, another
  rate, or a size outside the prepared bound, and then keeps its samples. A read frame that the graph rejects
  keeps its samples, and one that it accepts has as many samples as before, each one converted from the graph. A
  frame of the silence direction becomes silence whether the graph accepted it or not: there a graph failure
  does not retain the samples.
\<close>

theorem link_call_outcome:
  assumes "link_inv l"
  shows "case link_process e exact to_float from_float direction sample_rate pcm l of
      None \<Rightarrow> False
    | Some (outcome, pcm', l') \<Rightarrow>
        link_inv l' \<and> counted outcome l l' \<and> length pcm' = length pcm \<and>
        (if direction = LinkWrite \<or> sample_rate \<noteq> link_rate l \<or> pcm = [] \<or> length (link_input l) < length pcm
         then outcome = LinkBypassed \<and> pcm' = pcm
         else if direction = LinkSilence then outcome \<noteq> LinkBypassed \<and> pcm' = replicate (length pcm) (from_float (f64 0))
         else
           outcome \<noteq> LinkBypassed \<and>
           (case exact (map to_float pcm) (take (length pcm) (link_output l)) (link_graph l) of
              (ok, out, g) \<Rightarrow>
                if ok then outcome = LinkProcessed \<and> (length out = length pcm \<longrightarrow> pcm' = map from_float out)
                else outcome = LinkGraphFailed \<and> pcm' = pcm))"
proof -
  let ?n = "length pcm"
  consider "direction = LinkWrite \<or> sample_rate \<noteq> link_rate l \<or> pcm = [] \<or> length (link_input l) < ?n"
    | "direction = LinkSilence" "sample_rate = link_rate l" "pcm \<noteq> []" "?n \<le> length (link_input l)"
    | "direction = LinkRead" "sample_rate = link_rate l" "pcm \<noteq> []" "?n \<le> length (link_input l)"
    by (cases direction; meson not_less)
  then show ?thesis
  proof cases
    case 1
    then show ?thesis using assms by (auto simp: link_process_def counted_def)
  next
    case 2
    obtain outcome l' where "advance_silence e exact ?n l = Some (outcome, l')" "link_inv l'" "counted outcome l l'"
        "outcome \<noteq> LinkBypassed"
      using advance_silence_outcome [OF assms, of e exact ?n] 2 by auto
    then show ?thesis using 2 by (simp add: link_process_def map_replicate_const)
  next
    case 3
    let ?l1 = "l\<lparr>link_input := overwrite 0 (map to_float pcm) (link_input l)\<rparr>"
    have 1: "link_inv ?l1" "?n \<le> length (link_input ?l1)"
      using 3(4) assms link_inv_input(1) [of l "map to_float pcm"] by (simp_all add: length_overwrite)
    have input: "take ?n (overwrite 0 (map to_float pcm) (link_input l)) = map to_float pcm" by (simp add: overwrite_def)
    obtain ok out g where ex: "exact (map to_float pcm) (take ?n (link_output l)) (link_graph l) = (ok, out, g)"
      by (metis prod_cases3)
    let ?l2 = "?l1\<lparr>link_output := overwrite 0 (take ?n out) (link_output l), link_graph := g\<rparr>"
    have 2: "run_graph exact ?n ?l1 = (ok, ?l2)" using ex by (simp add: run_graph_def input)
    then have inv2: "link_inv ?l2" using run_graph_inv [OF 1, of exact] by auto
    have len2: "?n \<le> length (link_input ?l2)" "?n \<le> length (link_output ?l2)"
      using 1(2) inv2 by (simp_all add: link_inv_def)
    have fields: "link_rate ?l2 = link_rate l" "length (link_input ?l2) = length (link_input l)"
      "processed_blocks ?l2 = processed_blocks l" "bypassed_blocks ?l2 = bypassed_blocks l"
      "failed_blocks ?l2 = failed_blocks l"
      using 3(4) by (simp_all add: length_overwrite)
    show ?thesis
    proof (cases ok)
      case False
      obtain m where m: "measure_input e ?n ?l2 = Some (?l2\<lparr>link_meter := m\<rparr>)" "link_inv (?l2\<lparr>link_meter := m\<rparr>)"
        using measure_input_some [OF inv2 len2(1), of e] by blast
      show ?thesis
        using 3 2 m False ex fields by (simp add: link_process_def counted_def)
    next
      case True
      let ?heard = "map from_float (take ?n (link_output ?l2))"
      let ?l3 = "?l2\<lparr>link_input := overwrite 0 (map to_float ?heard) (link_input ?l2)\<rparr>"
      have heard: "length ?heard = ?n" using len2(2) by simp
      have "length (map to_float ?heard) \<le> length (link_input ?l2)" using heard len2(1) by simp
      from link_inv_input(1) [OF inv2 this] have inv3: "link_inv ?l3" .
      have len3: "length (link_input ?l3) = length (link_input l)"
        using heard len2(1) fields(2) by (simp add: length_overwrite)
      obtain m where m: "measure_input e ?n ?l3 = Some (?l3\<lparr>link_meter := m\<rparr>)" "link_inv (?l3\<lparr>link_meter := m\<rparr>)"
        using measure_input_some [OF inv3, of ?n e] len3 3(4) by auto
      have same: "?heard = map from_float out" if "length out = ?n"
        using that by (simp add: overwrite_def)
      have "link_process e exact to_float from_float direction sample_rate pcm l =
          Some (LinkProcessed, ?heard, ?l3\<lparr>link_meter := m, processed_blocks := processed_blocks l + 1\<rparr>)"
        using 3 2 m(1) True by (simp add: link_process_def Let_def)
      then show ?thesis
        using 3 m(2) ex True heard same len3 fields by (simp add: counted_def)
    qed
  qed
qed

text \<open>A link of four samples whose graph refuses everything.\<close>

definition refusing_graph :: "unit exact_rate_graph" where
  "refusing_graph input output g = (False, output, g)"

definition silent_analyzer :: "unit loudness_analyzer" where
  "silent_analyzer =
     \<lparr>add_frames = (\<lambda>_ e. e), loudness_global = (\<lambda>_. FNaN), true_peak = (\<lambda>_. f64 0), analyzer_reset = (\<lambda>e. e),
      decibels = (\<lambda>x. x)\<rparr>"

lemma link_call_outcome_witness:
  "\<exists>l l'. prepared_link_new () 7 48000 4 () = Inr l \<and>
     process_s16 silent_analyzer refusing_graph LinkRead 48000 [5, -5] l = Some (LinkGraphFailed, [5, -5], l')"
proof -
  obtain l where l: "prepared_link_new () 7 48000 4 () = Inr l"
    by (simp add: prepared_link_new_def meter_new_def)
  note facts = prepared_link_new_inv [OF l]
  then have "link_inv l" by blast
  from link_call_outcome [OF this, where e = silent_analyzer and exact = refusing_graph and to_float = s16_to_f32 and
      from_float = f32_to_s16 and direction = LinkRead and sample_rate = 48000 and pcm = "[5, -5]"] facts
  show ?thesis
    using l by (auto simp: process_s16_def refusing_graph_def split: option.splits)
qed

end
