(* ===== verification/Remote_State.thy ===== *)
theory Remote_State
  imports Remote_Configuration_Safety "HOL-Library.Word"
begin

unbundle bit_operations_syntax

text \<open>
  The complete operating state that the remote engine and the rig exchange, and the translation from and to
  the resolved configuration, \<^verbatim>\<open>rust/remote/src/configuration.rs\<close>. The records are those of the installed C
  header with the fields that the literals of the source list; the six flags of a state are the bits of a
  32-bit word, as the source tests them. The other integers are \<open>int\<close>.
\<close>

section \<open>Records\<close>

datatype call_error = CallError int

record raw_signal =
  raw_source :: int
  raw_control_source :: int
  raw_enabled :: int
  raw_ctcss_tenths_hz :: int
  raw_dcs_code :: int
  raw_inverted :: int

record raw_state =
  raw_receive_hz :: int
  raw_transmit_hz :: int
  raw_offset_hz :: int
  raw_rit_hz :: int
  raw_xit_hz :: int
  raw_flags :: "32 word"
  raw_mode :: int
  raw_bandwidth_hz :: int
  raw_receive_vfo :: int
  raw_transmit_vfo :: int
  raw_power_mw :: int
  raw_channel :: int
  raw_encode :: raw_signal
  raw_decode :: raw_signal

record raw_coverage =
  cover_minimum :: int
  cover_maximum :: int
  cover_mode_mask :: int
  cover_flags :: int
  cover_minimum_power_mw :: int
  cover_maximum_power_mw :: int

record selected_capabilities =
  caps_receive :: "raw_coverage list"
  caps_transmit :: "raw_coverage list"
  caps_modes :: "64 word"
  caps_readback_fields :: "64 word"
  caps_scan_modes :: "64 word"
  caps_power_mw :: bool
  caps_manual_tune :: bool
  caps_encode_sources :: "32 word"
  caps_decode_sources :: "32 word"
  caps_decode_control_sources :: "32 word"

definition selected_capabilities_default :: selected_capabilities where
  "selected_capabilities_default =
     \<lparr>caps_receive = [], caps_transmit = [], caps_modes = 0, caps_readback_fields = 0, caps_scan_modes = 0,
      caps_power_mw = False, caps_manual_tune = False, caps_encode_sources = 0, caps_decode_sources = 0,
      caps_decode_control_sources = 0\<rparr>"

section \<open>From the configuration\<close>

text \<open>\<open>checked_shl\<close> of a 64-bit one.\<close>

fun mode_mask_from :: "64 word \<Rightarrow> int list \<Rightarrow> (call_error, 64 word) result" where
  "mode_mask_from m [] = Inr m"
| "mode_mask_from m (mode # modes) =
     (if mode < 64 then mode_mask_from (m OR push_bit (nat mode) 1) modes else Inl (CallError (-4)))"

definition mode_mask :: "int list \<Rightarrow> (call_error, 64 word) result" where
  "mode_mask modes = mode_mask_from 0 modes"

fun source_number :: "remote_signal_source \<Rightarrow> int" where
  "source_number SignalDisabled = 0"
| "source_number SignalDsp = 1"
| "source_number SignalExternal = 2"
| "source_number SignalRig = 3"
| "source_number SignalAutomatic = 4"

definition signal_source :: "remote_signal_source \<Rightarrow> 32 word \<Rightarrow> bool \<Rightarrow> (call_error, int) result" where
  "signal_source source available enabled =
     (if source \<noteq> SignalAutomatic then Inr (source_number source)
      else
        (case find (\<lambda>s. available AND push_bit (nat s) 1 \<noteq> 0) [3, 1, 2] of
           Some s \<Rightarrow> Inr s
         | None \<Rightarrow> if \<not> enabled then Inr 0 else Inl (CallError (-6))))"

definition raw_signal_of :: "remote_signal \<Rightarrow> 32 word \<Rightarrow> 32 word \<Rightarrow> (call_error, raw_signal) result" where
  "raw_signal_of value available control =
     res_bind (signal_source (sig_source value) available (sig_enabled value)) (\<lambda>source.
     res_bind
       (case sig_control_source value of
          None \<Rightarrow> Inr 0
        | Some selected \<Rightarrow> signal_source selected control (sig_enabled value))
       (\<lambda>control_source.
     Inr \<lparr>raw_source = source, raw_control_source = control_source, raw_enabled = of_bool (sig_enabled value),
          raw_ctcss_tenths_hz = sig_tone_tenths_hz value, raw_dcs_code = sig_dcs_code value,
          raw_inverted = of_bool (sig_inverted value)\<rparr>))"

definition state_flags :: "remote_operating_state \<Rightarrow> 32 word" where
  "state_flags value =
     of_bool (os_transmit_hz value \<noteq> None) OR push_bit 1 (of_bool (os_power_mw value \<noteq> None)) OR
     push_bit 2 (of_bool (os_channel value \<noteq> None)) OR push_bit 3 (of_bool (os_split value)) OR
     push_bit 4 (of_bool (os_rit_enabled value)) OR push_bit 5 (of_bool (os_xit_enabled value))"

definition unwrap_or :: "'a \<Rightarrow> 'a option \<Rightarrow> 'a" where
  "unwrap_or d x = (case x of None \<Rightarrow> d | Some a \<Rightarrow> a)"

definition operating_state ::
  "remote_operating_state \<Rightarrow> selected_capabilities \<Rightarrow> (call_error, raw_state) result" where
  "operating_state value caps =
     res_bind (raw_signal_of (os_encode value) (caps_encode_sources caps) (caps_encode_sources caps)) (\<lambda>encode.
     res_bind (raw_signal_of (os_decode value) (caps_decode_sources caps) (caps_decode_control_sources caps))
       (\<lambda>decode.
     Inr \<lparr>raw_receive_hz = os_receive_hz value, raw_transmit_hz = unwrap_or 0 (os_transmit_hz value),
          raw_offset_hz = os_offset_hz value, raw_rit_hz = os_rit_hz value, raw_xit_hz = os_xit_hz value,
          raw_flags = state_flags value, raw_mode = os_mode value, raw_bandwidth_hz = os_bandwidth_hz value,
          raw_receive_vfo = os_receive_vfo value, raw_transmit_vfo = os_transmit_vfo value,
          raw_power_mw = unwrap_or 0 (os_power_mw value), raw_channel = unwrap_or 0 (os_channel value),
          raw_encode = encode, raw_decode = decode\<rparr>))"

section \<open>Back to the configuration\<close>

definition configuration_source :: "int \<Rightarrow> (call_error, remote_signal_source) result" where
  "configuration_source value =
     (if value = 0 then Inr SignalDisabled else if value = 1 then Inr SignalDsp
      else if value = 2 then Inr SignalExternal else if value = 3 then Inr SignalRig
      else Inl (CallError (-1003)))"

definition configuration_signal :: "raw_signal \<Rightarrow> (call_error, remote_signal) result" where
  "configuration_signal signal =
     (if 1 < raw_enabled signal \<or> 1 < raw_inverted signal then Inl (CallError (-1003))
      else
        res_bind (configuration_source (raw_source signal)) (\<lambda>source.
        res_bind
          (if raw_control_source signal \<noteq> 0
           then map_sum id Some (configuration_source (raw_control_source signal)) else Inr None)
          (\<lambda>control.
        Inr \<lparr>sig_source = source, sig_control_source = control, sig_enabled = (raw_enabled signal \<noteq> 0),
             sig_tone_tenths_hz = raw_ctcss_tenths_hz signal, sig_dcs_code = raw_dcs_code signal,
             sig_inverted = (raw_inverted signal \<noteq> 0)\<rparr>)))"

definition has_flag :: "raw_state \<Rightarrow> 32 word \<Rightarrow> bool" where
  "has_flag state f \<longleftrightarrow> raw_flags state AND f \<noteq> 0"

definition operating_configuration :: "raw_state \<Rightarrow> (call_error, remote_operating_state) result" where
  "operating_configuration value =
     (if has_flag value (NOT 63) \<or> has_flag value 4 \<and> 15 < raw_channel value then Inl (CallError (-1003))
      else
        res_bind (configuration_signal (raw_encode value)) (\<lambda>encode.
        res_bind (configuration_signal (raw_decode value)) (\<lambda>decode.
        Inr \<lparr>os_receive_hz = raw_receive_hz value,
             os_transmit_hz = (if has_flag value 1 then Some (raw_transmit_hz value) else None),
             os_mode = raw_mode value, os_bandwidth_hz = raw_bandwidth_hz value,
             os_receive_vfo = raw_receive_vfo value, os_transmit_vfo = raw_transmit_vfo value,
             os_split = has_flag value 8, os_offset_hz = raw_offset_hz value, os_rit_hz = raw_rit_hz value,
             os_rit_enabled = has_flag value 16, os_xit_hz = raw_xit_hz value,
             os_xit_enabled = has_flag value 32,
             os_power_mw = (if has_flag value 2 then Some (raw_power_mw value) else None),
             os_encode = encode, os_decode = decode,
             os_channel = (if has_flag value 4 then Some (raw_channel value mod 2 ^ 8) else None)\<rparr>)))"

section \<open>The check of a policy without hardware\<close>

text \<open>\<open>validate_policy\<close> up to the call of the engine: automatic providers become the DSP.\<close>

definition policy_signal :: "remote_signal \<Rightarrow> remote_signal" where
  "policy_signal s =
     (let s = (if sig_source s = SignalAutomatic then s\<lparr>sig_source := SignalDsp\<rparr> else s) in
      if sig_control_source s = Some SignalAutomatic then s\<lparr>sig_control_source := Some SignalDsp\<rparr> else s)"

definition policy_memory :: "remote_memory \<Rightarrow> remote_memory" where
  "policy_memory m =
     m\<lparr>mem_state := (mem_state m)\<lparr>os_encode := policy_signal (os_encode (mem_state m)),
                                 os_decode := policy_signal (os_decode (mem_state m))\<rparr>\<rparr>"

definition policy_capabilities :: selected_capabilities where
  "policy_capabilities =
     (let coverage = \<lparr>cover_minimum = 1, cover_maximum = 2 ^ 64 - 1, cover_mode_mask = 0x1ffe, cover_flags = 0,
                      cover_minimum_power_mw = 0, cover_maximum_power_mw = 0\<rparr> in
      selected_capabilities_default\<lparr>caps_receive := [coverage], caps_transmit := [coverage], caps_modes := 0x1ffe,
        caps_scan_modes := 0x1ffe, caps_power_mw := True, caps_manual_tune := True, caps_encode_sources := 14,
        caps_decode_sources := 14, caps_decode_control_sources := 14\<rparr>)"

section \<open>The setup of the engine\<close>

text \<open>
  The arrays of the C header, a pointer and a length each, are lists, and a name with its length is its bytes. The
  size of the setup itself, its \<open>struct_size\<close>, is the compiler's and no value of the model.
\<close>

record raw_range =
  range_minimum :: int
  range_maximum :: int

record raw_memory =
  memory_selector :: int
  memory_name :: string
  memory_state :: raw_state

record raw_scan =
  raw_scan_selector :: int
  raw_scan_name :: string
  raw_scan_members :: "int list"
  raw_scan_dwell_ms :: int
  raw_scan_resume_delay_ms :: int
  raw_scan_settle_ms :: int
  raw_scan_priority :: int

record raw_limits =
  limit_receive :: "raw_range list"
  limit_transmit :: "raw_range list"
  limit_receive_only :: "raw_range list"
  limit_mode_mask :: "64 word"
  limit_flags :: "32 word"
  limit_maximum_power_mw :: int

record raw_capabilities =
  able_receive :: "raw_coverage list"
  able_transmit :: "raw_coverage list"
  able_mode_mask :: "64 word"
  able_readback_fields :: "64 word"
  able_scan_mode_mask :: "64 word"
  able_flags :: "32 word"
  able_encode_sources :: "32 word"
  able_decode_sources :: "32 word"
  able_decode_control_sources :: "32 word"

record engine_setup =
  engine_abi_version :: int
  engine_limits :: raw_limits
  engine_capabilities :: raw_capabilities
  engine_memories :: "raw_memory list"
  engine_scan_lists :: "raw_scan list"
  engine_startup_memory :: int
  engine_poll_interval_ms :: int

definition engine_ranges :: "(int \<times> int) list \<Rightarrow> raw_range list" where
  "engine_ranges xs = map (\<lambda>(minimum, maximum). \<lparr>range_minimum = minimum, range_maximum = maximum\<rparr>) xs"

definition engine_memory :: "selected_capabilities \<Rightarrow> remote_memory \<Rightarrow> (call_error, raw_memory) result" where
  "engine_memory caps m =
     res_bind (operating_state (mem_state m) caps) (\<lambda>state.
       Inr \<lparr>memory_selector = mem_selector m, memory_name = mem_name m, memory_state = state\<rparr>)"

definition engine_scan :: "remote_scan_list \<Rightarrow> raw_scan" where
  "engine_scan scan =
     \<lparr>raw_scan_selector = scan_selector scan, raw_scan_name = scan_name scan,
      raw_scan_members = scan_members scan, raw_scan_dwell_ms = scan_dwell_ms scan,
      raw_scan_resume_delay_ms = scan_resume_delay_ms scan, raw_scan_settle_ms = scan_settle_ms scan,
      raw_scan_priority = unwrap_or 0 (scan_priority scan)\<rparr>"

definition engine_able :: "selected_capabilities \<Rightarrow> raw_capabilities" where
  "engine_able caps =
     \<lparr>able_receive = caps_receive caps, able_transmit = caps_transmit caps, able_mode_mask = caps_modes caps,
      able_readback_fields = caps_readback_fields caps, able_scan_mode_mask = caps_scan_modes caps,
      able_flags = push_bit 1 (of_bool (caps_power_mw caps)) OR push_bit 3 (of_bool (caps_manual_tune caps)),
      able_encode_sources = caps_encode_sources caps, able_decode_sources = caps_decode_sources caps,
      able_decode_control_sources = caps_decode_control_sources caps\<rparr>"

text \<open>What \<open>configured\<close> hands to the engine. The memories are translated first, then the modes.\<close>

definition configured_setup ::
  "resolved_remote_configuration \<Rightarrow> selected_capabilities \<Rightarrow> (call_error, engine_setup) result" where
  "configured_setup config caps =
     res_bind (collect_results (map (engine_memory caps) (rc_memories config))) (\<lambda>memories.
     res_bind (mode_mask (rc_modes config)) (\<lambda>modes.
     Inr \<lparr>engine_abi_version = 1,
          engine_limits =
            \<lparr>limit_receive = engine_ranges (rc_receive_ranges config),
             limit_transmit = engine_ranges (rc_transmit_ranges config),
             limit_receive_only = engine_ranges (rc_receive_only_ranges config),
             limit_mode_mask = modes,
             limit_flags = push_bit 1 (of_bool (rc_maximum_power_mw config \<noteq> None)),
             limit_maximum_power_mw = unwrap_or 0 (rc_maximum_power_mw config)\<rparr>,
          engine_capabilities = engine_able caps,
          engine_memories = memories,
          engine_scan_lists = map engine_scan (rc_scan_lists config),
          engine_startup_memory = rc_startup_memory config,
          engine_poll_interval_ms = rc_poll_interval_ms config\<rparr>))"

definition validate_policy_setup :: "resolved_remote_configuration \<Rightarrow> (call_error, engine_setup) result" where
  "validate_policy_setup config =
     configured_setup (config\<lparr>rc_memories := map policy_memory (rc_memories config)\<rparr>) policy_capabilities"

section \<open>Facts\<close>

lemma flag_word:
  fixes a b c d e f :: bool
  defines "w \<equiv> of_bool a OR push_bit 1 (of_bool b) OR push_bit 2 (of_bool c) OR push_bit 3 (of_bool d) OR
     push_bit 4 (of_bool e) OR push_bit 5 (of_bool f) :: 32 word"
  shows "w AND 1 \<noteq> 0 \<longleftrightarrow> a" "w AND 2 \<noteq> 0 \<longleftrightarrow> b" "w AND 4 \<noteq> 0 \<longleftrightarrow> c" "w AND 8 \<noteq> 0 \<longleftrightarrow> d" "w AND 16 \<noteq> 0 \<longleftrightarrow> e"
    "w AND 32 \<noteq> 0 \<longleftrightarrow> f" "w AND NOT 63 = 0"
  unfolding w_def by (cases a; cases b; cases c; cases d; cases e; cases f; simp)+

text \<open>The signal that the chosen providers stand for.\<close>

definition number_source :: "int \<Rightarrow> remote_signal_source" where
  "number_source n = (if n = 1 then SignalDsp else if n = 2 then SignalExternal else if n = 3 then SignalRig else SignalDisabled)"

definition chosen_source :: "remote_signal_source \<Rightarrow> 32 word \<Rightarrow> remote_signal_source" where
  "chosen_source source available =
     (if source \<noteq> SignalAutomatic then source
      else if available AND 8 \<noteq> 0 then SignalRig
      else if available AND 2 \<noteq> 0 then SignalDsp
      else if available AND 4 \<noteq> 0 then SignalExternal
      else SignalDisabled)"

definition chosen_signal :: "32 word \<Rightarrow> 32 word \<Rightarrow> remote_signal \<Rightarrow> remote_signal" where
  "chosen_signal available control s =
     s\<lparr>sig_source := chosen_source (sig_source s) available,
       sig_control_source :=
         (case sig_control_source s of
            None \<Rightarrow> None
          | Some c \<Rightarrow>
              if chosen_source c control = SignalDisabled then None else Some (chosen_source c control))\<rparr>"

definition provider_missing :: "32 word \<Rightarrow> remote_signal_source \<Rightarrow> bool" where
  "provider_missing available source \<longleftrightarrow> source = SignalAutomatic \<and> available AND 14 = 0"

text \<open>An enabled signal with an automatic provider and nothing to choose from.\<close>

definition signal_missing :: "32 word \<Rightarrow> 32 word \<Rightarrow> remote_signal \<Rightarrow> bool" where
  "signal_missing available control s \<longleftrightarrow>
     sig_enabled s \<and>
     (provider_missing available (sig_source s) \<or>
      (case sig_control_source s of None \<Rightarrow> False | Some c \<Rightarrow> provider_missing control c))"

definition chosen_state :: "selected_capabilities \<Rightarrow> remote_operating_state \<Rightarrow> remote_operating_state" where
  "chosen_state caps v =
     v\<lparr>os_encode := chosen_signal (caps_encode_sources caps) (caps_encode_sources caps) (os_encode v),
       os_decode := chosen_signal (caps_decode_sources caps) (caps_decode_control_sources caps) (os_decode v)\<rparr>"

definition state_missing :: "selected_capabilities \<Rightarrow> remote_operating_state \<Rightarrow> bool" where
  "state_missing caps v \<longleftrightarrow>
     signal_missing (caps_encode_sources caps) (caps_encode_sources caps) (os_encode v) \<or>
     signal_missing (caps_decode_sources caps) (caps_decode_control_sources caps) (os_decode v)"

lemma available_none:
  fixes a :: "32 word"
  shows "a AND 14 = 0 \<longleftrightarrow> a AND 8 = 0 \<and> a AND 2 = 0 \<and> a AND 4 = 0"
proof -
  have "(14 :: 32 word) = 8 OR 2 OR 4" by simp
  then have "a AND 14 = (a AND 8) OR (a AND 2) OR (a AND 4)" by (simp only: bit.conj_disj_distrib)
  then show ?thesis by (simp add: or_eq_0_iff)
qed

lemma signal_source_outcome:
  "signal_source s a e =
     (if provider_missing a s \<and> e then Inl (CallError (-6)) else Inr (source_number (chosen_source s a)))"
  by (cases s) (auto simp: signal_source_def chosen_source_def provider_missing_def available_none push_bit_eq_mult)

lemma chosen_source_settled: "chosen_source s a \<noteq> SignalAutomatic"
  by (cases s) (auto simp: chosen_source_def)

lemma configuration_source_number:
  "s \<noteq> SignalAutomatic \<Longrightarrow> configuration_source (source_number s) = Inr s"
  by (cases s) (auto simp: configuration_source_def)

lemma source_number_zero: "source_number s = 0 \<longleftrightarrow> s = SignalDisabled"
  by (cases s) auto

lemma raw_signal_outcome:
  "case raw_signal_of s a c of
     Inl e \<Rightarrow> e = CallError (-6) \<and> signal_missing a c s
   | Inr r \<Rightarrow> \<not> signal_missing a c s \<and> configuration_signal r = Inr (chosen_signal a c s)"
  using chosen_source_settled
  by (auto simp: raw_signal_of_def signal_source_outcome signal_missing_def configuration_signal_def chosen_signal_def
      configuration_source_number source_number_zero split: option.splits if_splits)

definition channel_in_range :: "remote_operating_state \<Rightarrow> bool" where
  "channel_in_range v \<longleftrightarrow> (case os_channel v of None \<Rightarrow> True | Some c \<Rightarrow> 0 \<le> c \<and> c \<le> 15)"

lemma state_flags_word:
  "raw_flags s = state_flags v \<Longrightarrow> has_flag s 1 \<longleftrightarrow> os_transmit_hz v \<noteq> None"
  "raw_flags s = state_flags v \<Longrightarrow> has_flag s 2 \<longleftrightarrow> os_power_mw v \<noteq> None"
  "raw_flags s = state_flags v \<Longrightarrow> has_flag s 4 \<longleftrightarrow> os_channel v \<noteq> None"
  "raw_flags s = state_flags v \<Longrightarrow> has_flag s 8 \<longleftrightarrow> os_split v"
  "raw_flags s = state_flags v \<Longrightarrow> has_flag s 16 \<longleftrightarrow> os_rit_enabled v"
  "raw_flags s = state_flags v \<Longrightarrow> has_flag s 32 \<longleftrightarrow> os_xit_enabled v"
  "raw_flags s = state_flags v \<Longrightarrow> \<not> has_flag s (NOT 63)"
  by (simp_all only: has_flag_def state_flags_def flag_word not_True_eq_False)

lemma state_roundtrip:
  assumes "channel_in_range v" "operating_state v caps = Inr s"
  shows "operating_configuration s = Inr (chosen_state caps v)"
proof -
  obtain encode decode where r:
    "raw_signal_of (os_encode v) (caps_encode_sources caps) (caps_encode_sources caps) = Inr encode"
    "raw_signal_of (os_decode v) (caps_decode_sources caps) (caps_decode_control_sources caps) = Inr decode"
    "raw_encode s = encode" "raw_decode s = decode" "raw_flags s = state_flags v"
    "s = \<lparr>raw_receive_hz = os_receive_hz v, raw_transmit_hz = unwrap_or 0 (os_transmit_hz v),
          raw_offset_hz = os_offset_hz v, raw_rit_hz = os_rit_hz v, raw_xit_hz = os_xit_hz v,
          raw_flags = state_flags v, raw_mode = os_mode v, raw_bandwidth_hz = os_bandwidth_hz v,
          raw_receive_vfo = os_receive_vfo v, raw_transmit_vfo = os_transmit_vfo v,
          raw_power_mw = unwrap_or 0 (os_power_mw v), raw_channel = unwrap_or 0 (os_channel v),
          raw_encode = encode, raw_decode = decode\<rparr>"
    using assms(2) unfolding operating_state_def res_bind_eq_Inr by auto
  have "configuration_signal encode = Inr (os_encode (chosen_state caps v))"
    using raw_signal_outcome [where s = "os_encode v" and a = "caps_encode_sources caps" and c = "caps_encode_sources caps"] r(1)
    by (simp add: chosen_state_def)
  moreover have "configuration_signal decode = Inr (os_decode (chosen_state caps v))"
    using raw_signal_outcome [where s = "os_decode v" and a = "caps_decode_sources caps" and c = "caps_decode_control_sources caps"] r(2)
    by (simp add: chosen_state_def)
  ultimately have signals: "configuration_signal (raw_encode s) = Inr (os_encode (chosen_state caps v))"
    "configuration_signal (raw_decode s) = Inr (os_decode (chosen_state caps v))"
    using r(3,4) by simp_all
  have fields: "raw_receive_hz s = os_receive_hz v" "raw_mode s = os_mode v" "raw_bandwidth_hz s = os_bandwidth_hz v"
    "raw_receive_vfo s = os_receive_vfo v" "raw_transmit_vfo s = os_transmit_vfo v" "raw_offset_hz s = os_offset_hz v"
    "raw_rit_hz s = os_rit_hz v" "raw_xit_hz s = os_xit_hz v"
    using r(6) by simp_all
  have kept_values: "os_transmit_hz v \<noteq> None \<Longrightarrow> Some (raw_transmit_hz s) = os_transmit_hz v"
    "os_power_mw v \<noteq> None \<Longrightarrow> Some (raw_power_mw s) = os_power_mw v"
    "os_channel v \<noteq> None \<Longrightarrow> raw_channel s \<le> 15 \<and> Some (raw_channel s mod 2 ^ 8) = os_channel v"
    using r(6) assms(1) by (auto simp: unwrap_or_def channel_in_range_def)
  have "\<not> (os_channel v \<noteq> None \<and> 15 < raw_channel s)" using kept_values(3) by auto
  moreover have "(if os_transmit_hz v \<noteq> None then Some (raw_transmit_hz s) else None) = os_transmit_hz v"
    "(if os_power_mw v \<noteq> None then Some (raw_power_mw s) else None) = os_power_mw v"
    "(if os_channel v \<noteq> None then Some (raw_channel s mod 2 ^ 8) else None) = os_channel v"
    using kept_values by simp_all
  ultimately show ?thesis
    using state_flags_word(7) [OF r(5)]
    unfolding operating_configuration_def state_flags_word [OF r(5)] fields signals
    by (simp add: chosen_state_def)
qed

lemma state_missing_outcome:
  "operating_state v caps = Inl e \<longleftrightarrow> e = CallError (-6) \<and> state_missing caps v"
  using raw_signal_outcome [where s = "os_encode v" and a = "caps_encode_sources caps" and c = "caps_encode_sources caps"]
    raw_signal_outcome [where s = "os_decode v" and a = "caps_decode_sources caps" and c = "caps_decode_control_sources caps"]
  by (auto simp: operating_state_def state_missing_def res_bind_eq_Inl split: sum.splits)

lemma mode_mask_ok: "list_all mode_ok modes \<Longrightarrow> \<exists>w. mode_mask_from m modes = Inr w"
  by (induction modes arbitrary: m) (auto simp: mode_ok_def)

lemma policy_signal_settled:
  "\<not> signal_missing a c (policy_signal s)"
  by (auto simp: policy_signal_def signal_missing_def provider_missing_def Let_def split: option.splits)

lemma policy_never_missing: "\<not> state_missing caps (mem_state (policy_memory m))"
  by (simp add: state_missing_def policy_memory_def policy_signal_settled)

lemma collect_engine_memories:
  "case collect_results (map (engine_memory caps) ms) of
     Inl e \<Rightarrow> e = CallError (-6) \<and> list_ex (\<lambda>m. state_missing caps (mem_state m)) ms
   | Inr xs \<Rightarrow> \<not> list_ex (\<lambda>m. state_missing caps (mem_state m)) ms \<and>
       list_all2 (\<lambda>m x. memory_selector x = mem_selector m \<and> memory_name x = mem_name m \<and>
         operating_state (mem_state m) caps = Inr (memory_state x)) ms xs"
proof (induction ms)
  case (Cons m ms)
  show ?case
  proof (cases "operating_state (mem_state m) caps")
    case (Inl e)
    then show ?thesis using state_missing_outcome [of "mem_state m" caps e] by (simp add: engine_memory_def)
  next
    case (Inr s)
    then have "engine_memory caps m =
        Inr \<lparr>memory_selector = mem_selector m, memory_name = mem_name m, memory_state = s\<rparr>"
      by (simp add: engine_memory_def)
    moreover have "\<not> state_missing caps (mem_state m)"
      using state_missing_outcome [of "mem_state m" caps "CallError (-6)"] Inr by simp
    ultimately show ?thesis using Inr Cons by (cases "collect_results (map (engine_memory caps) ms)") simp_all
  qed
qed simp

text \<open>
  What the engine holds for a memory: its selector and name, and a state that reads back as the chosen one; and
  for a scan list, with the selector 0 for no priority.
\<close>

definition engine_keeps :: "selected_capabilities \<Rightarrow> remote_memory \<Rightarrow> raw_memory \<Rightarrow> bool" where
  "engine_keeps caps = (\<lambda>m x. memory_selector x = mem_selector m \<and> memory_name x = mem_name m \<and>
     operating_configuration (memory_state x) = Inr (chosen_state caps (mem_state m)))"

definition scan_read :: "raw_scan \<Rightarrow> remote_scan_list" where
  "scan_read x =
     \<lparr>scan_selector = raw_scan_selector x, scan_name = raw_scan_name x, scan_members = raw_scan_members x,
      scan_dwell_ms = raw_scan_dwell_ms x, scan_resume_delay_ms = raw_scan_resume_delay_ms x,
      scan_settle_ms = raw_scan_settle_ms x,
      scan_priority = (if raw_scan_priority x = 0 then None else Some (raw_scan_priority x))\<rparr>"

definition range_read :: "raw_range \<Rightarrow> int \<times> int" where
  "range_read r = (range_minimum r, range_maximum r)"

text \<open>The setup carries the whole policy of the configuration and all capabilities.\<close>

definition limits_carry :: "resolved_remote_configuration \<Rightarrow> raw_limits \<Rightarrow> bool" where
  "limits_carry c l \<longleftrightarrow>
     map range_read (limit_receive l) = rc_receive_ranges c \<and>
     map range_read (limit_transmit l) = rc_transmit_ranges c \<and>
     map range_read (limit_receive_only l) = rc_receive_only_ranges c \<and>
     (\<forall>n. bit (limit_mode_mask l) n \<longleftrightarrow> int n \<in> set (rc_modes c)) \<and>
     (if bit (limit_flags l) 1 then Some (limit_maximum_power_mw l) else None) = rc_maximum_power_mw c"

definition capabilities_carry :: "selected_capabilities \<Rightarrow> raw_capabilities \<Rightarrow> bool" where
  "capabilities_carry caps a \<longleftrightarrow>
     caps = \<lparr>caps_receive = able_receive a, caps_transmit = able_transmit a, caps_modes = able_mode_mask a,
       caps_readback_fields = able_readback_fields a, caps_scan_modes = able_scan_mode_mask a,
       caps_power_mw = bit (able_flags a) 1, caps_manual_tune = bit (able_flags a) 3,
       caps_encode_sources = able_encode_sources a, caps_decode_sources = able_decode_sources a,
       caps_decode_control_sources = able_decode_control_sources a\<rparr>"

definition setup_carries ::
  "resolved_remote_configuration \<Rightarrow> selected_capabilities \<Rightarrow> engine_setup \<Rightarrow> bool" where
  "setup_carries c caps setup \<longleftrightarrow>
     limits_carry c (engine_limits setup) \<and> capabilities_carry caps (engine_capabilities setup) \<and>
     list_all2 (engine_keeps caps) (rc_memories c) (engine_memories setup) \<and>
     map scan_read (engine_scan_lists setup) = rc_scan_lists c \<and>
     list_all (\<lambda>x. set (raw_scan_members x) \<subseteq> memory_selector ` set (engine_memories setup)) (engine_scan_lists setup) \<and>
     engine_startup_memory setup = rc_startup_memory c \<and>
     engine_startup_memory setup \<in> memory_selector ` set (engine_memories setup) \<and>
     engine_poll_interval_ms setup = rc_poll_interval_ms c"

lemma mode_mask_bits:
  "list_all mode_ok modes \<Longrightarrow> mode_mask_from m modes = Inr w \<Longrightarrow> bit w n \<longleftrightarrow> bit m n \<or> int n \<in> set modes"
proof (induction modes arbitrary: m)
  case (Cons mode modes)
  have mode: "0 \<le> mode" "nat mode < 64" using Cons.prems(1) by (auto simp: mode_ok_def)
  then have "bit (push_bit (nat mode) (1 :: 64 word)) n \<longleftrightarrow> int n = mode"
    by (auto simp: bit_simps)
  then show ?case
    using Cons mode by (auto simp: bit_or_iff mode_ok_def)
qed simp

lemma remote_ok_modes: "remote_ok c \<Longrightarrow> \<exists>w. mode_mask (rc_modes c) = Inr w"
  by (simp add: remote_ok_def mode_mask_def mode_mask_ok)

lemma flag_bits:
  "bit (push_bit 1 (of_bool b) :: 32 word) 1 \<longleftrightarrow> b"
  "bit (push_bit 1 (of_bool b) OR push_bit 3 (of_bool d) :: 32 word) 1 \<longleftrightarrow> b"
  "bit (push_bit 1 (of_bool b) OR push_bit 3 (of_bool d) :: 32 word) 3 \<longleftrightarrow> d"
  by (cases b; cases d; simp add: bit_simps)+

lemma engine_able_carries: "capabilities_carry caps (engine_able caps)"
  by (simp add: capabilities_carry_def engine_able_def flag_bits)

lemma range_read_ranges: "map range_read (engine_ranges xs) = xs"
  by (induction xs) (auto simp: engine_ranges_def range_read_def)

lemma scan_read_scan:
  assumes "scan_ok ms s" "memories_ok ms" shows "scan_read (engine_scan s) = s"
proof -
  have "0 < k" if "k \<in> set (scan_members s)" for k
    using assms that by (auto simp: scan_ok_def memories_ok_def list_all_iff memory_ok_def)
  then show ?thesis
    using assms(1) by (auto simp: scan_read_def engine_scan_def unwrap_or_def scan_ok_def split: option.splits)
qed

lemma list_all2_image: "list_all2 R xs ys \<Longrightarrow> (\<And>x y. R x y \<Longrightarrow> g y = f x) \<Longrightarrow> g ` set ys = f ` set xs"
  by (induction rule: list_all2_induct) auto

lemma configured_setup_outcome:
  assumes "remote_ok c"
  shows "case configured_setup c caps of
     Inl e \<Rightarrow> e = CallError (-6) \<and> list_ex (\<lambda>m. state_missing caps (mem_state m)) (rc_memories c)
   | Inr setup \<Rightarrow> \<not> list_ex (\<lambda>m. state_missing caps (mem_state m)) (rc_memories c) \<and> setup_carries c caps setup"
proof (cases "collect_results (map (engine_memory caps) (rc_memories c))")
  case (Inl e)
  then show ?thesis
    using collect_engine_memories [of caps "rc_memories c"] by (simp add: configured_setup_def)
next
  case (Inr xs)
  obtain w where w: "mode_mask (rc_modes c) = Inr w" using remote_ok_modes [OF assms] by blast
  have ok: "list_all mode_ok (rc_modes c)" "memories_ok (rc_memories c)" "scans_ok (rc_memories c) (rc_scan_lists c)"
    using assms by (simp_all add: remote_ok_def)
  have same: "list_all2 (\<lambda>m x. memory_selector x = mem_selector m \<and> memory_name x = mem_name m \<and>
      operating_state (mem_state m) caps = Inr (memory_state x)) (rc_memories c) xs"
    using collect_engine_memories [of caps "rc_memories c"] Inr by simp
  have memory: "channel_in_range (mem_state m)" if "m \<in> set (rc_memories c)" for m
    using ok(2) that by (auto simp: memories_ok_def list_all_iff memory_ok_def channel_in_range_def)
  have selectors: "memory_selector ` set xs = mem_selector ` set (rc_memories c)"
    by (rule list_all2_image [OF same]) simp
  then have "rc_startup_memory c \<in> memory_selector ` set xs" using assms by (simp add: remote_ok_def)
  moreover have "list_all2 (engine_keeps caps) (rc_memories c) xs"
    using same by (rule list.rel_mono_strong) (auto simp: engine_keeps_def state_roundtrip memory)
  moreover have "map scan_read (map engine_scan (rc_scan_lists c)) = rc_scan_lists c"
    using ok(2,3) scan_read_scan by (auto simp: scans_ok_def list_all_iff intro!: map_idI)
  moreover have "list_all (\<lambda>x. set (raw_scan_members x) \<subseteq> memory_selector ` set xs) (map engine_scan (rc_scan_lists c))"
    using ok(3) unfolding selectors by (auto simp: scans_ok_def list_all_iff engine_scan_def scan_ok_def)
  moreover have "bit w n \<longleftrightarrow> int n \<in> set (rc_modes c)" for n
    using mode_mask_bits [OF ok(1) w [unfolded mode_mask_def]] by simp
  moreover have "rc_maximum_power_mw c \<noteq> None \<Longrightarrow> Some (unwrap_or 0 (rc_maximum_power_mw c)) = rc_maximum_power_mw c"
    by (auto simp: unwrap_or_def)
  moreover have "\<not> list_ex (\<lambda>m. state_missing caps (mem_state m)) (rc_memories c)"
    using collect_engine_memories [of caps "rc_memories c"] Inr by simp
  ultimately show ?thesis
    using Inr w by (simp add: configured_setup_def setup_carries_def limits_carry_def engine_able_carries
      range_read_ranges flag_bits)
qed

lemma policy_collect: "\<exists>xs. collect_results (map (engine_memory caps) (map policy_memory ms)) = Inr xs"
  using collect_engine_memories [of caps "map policy_memory ms"] policy_never_missing
  by (cases "collect_results (map (engine_memory caps) (map policy_memory ms))") (auto simp: list_ex_iff)

lemma validate_policy_total: "remote_ok c \<Longrightarrow> \<exists>setup. validate_policy_setup c = Inr setup"
  using remote_ok_modes [of c] policy_collect [of policy_capabilities "rc_memories c"]
  by (auto simp: validate_policy_setup_def configured_setup_def)


end
