(* ===== verification/Remote_Operating.thy ===== *)
theory Remote_Operating
  imports Remote_State
begin

text \<open>
  Applying an operating state to a rig and reading it back, \<^verbatim>\<open>rust/remote/src/operating.rs\<close> over the calls of
  \<^verbatim>\<open>rust/remote/src/hamlib.rs\<close>. The Hamlib adapter is code outside: a record of functions on an environment,
  which also answers whether the operation was cancelled in the meantime. Every call returns the status of the C
  function, and a status other than zero is the error of the Rust method.
\<close>

section \<open>The rig\<close>

record 'e rig_api =
  api_get :: "int \<Rightarrow> 'e \<Rightarrow> int \<times> int \<times> 'e"
  api_set :: "int \<Rightarrow> int \<Rightarrow> 'e \<Rightarrow> int \<times> 'e"
  api_set_mode_width :: "int \<Rightarrow> int \<Rightarrow> 'e \<Rightarrow> int \<times> 'e"
  api_set_split_vfos :: "int \<Rightarrow> bool \<Rightarrow> int \<Rightarrow> 'e \<Rightarrow> int \<times> 'e"
  api_set_split_mode_width :: "int \<Rightarrow> int \<Rightarrow> 'e \<Rightarrow> int \<times> 'e"
  api_set_power_mw :: "int \<Rightarrow> int \<Rightarrow> int \<Rightarrow> 'e \<Rightarrow> int \<times> 'e"
  api_get_power_mw :: "int \<Rightarrow> int \<Rightarrow> 'e \<Rightarrow> int \<times> int \<times> 'e"
  api_cancelled :: "'e \<Rightarrow> bool \<times> 'e"

type_synonym ('e, 'a) io = "'e \<Rightarrow> (call_error, 'a) result \<times> 'e"

definition io_return :: "'a \<Rightarrow> ('e, 'a) io" where
  "io_return a = (\<lambda>e. (Inr a, e))"

definition io_result :: "(call_error, 'a) result \<Rightarrow> ('e, 'a) io" where
  "io_result r = (\<lambda>e. (r, e))"

definition io_bind :: "('e, 'a) io \<Rightarrow> ('a \<Rightarrow> ('e, 'b) io) \<Rightarrow> ('e, 'b) io" where
  "io_bind m f = (\<lambda>e. case m e of (Inl error, e) \<Rightarrow> (Inl error, e) | (Inr a, e) \<Rightarrow> f a e)"

definition io_then :: "('e, unit) io \<Rightarrow> ('e, 'b) io \<Rightarrow> ('e, 'b) io" where
  "io_then m n = io_bind m (\<lambda>_. n)"

definition io_when :: "bool \<Rightarrow> ('e, unit) io \<Rightarrow> ('e, unit) io" where
  "io_when b m = (if b then m else io_return ())"

fun io_each :: "('a \<Rightarrow> ('e, unit) io) \<Rightarrow> 'a list \<Rightarrow> ('e, unit) io" where
  "io_each f [] = io_return ()"
| "io_each f (x # xs) = io_then (f x) (io_each f xs)"

definition check_status :: "int \<Rightarrow> (call_error, unit) result" where
  "check_status code = (if code = 0 then Inr () else Inl (CallError code))"

definition rig_get :: "'e rig_api \<Rightarrow> int \<Rightarrow> ('e, int) io" where
  "rig_get api k e =
     (case api_get api k e of (code, value, e) \<Rightarrow> (map_sum id (\<lambda>_. value) (check_status code), e))"

definition rig_set :: "'e rig_api \<Rightarrow> int \<Rightarrow> int \<Rightarrow> ('e, unit) io" where
  "rig_set api k value e = (case api_set api k value e of (code, e) \<Rightarrow> (check_status code, e))"

definition rig_set_mode_width :: "'e rig_api \<Rightarrow> int \<Rightarrow> int \<Rightarrow> ('e, unit) io" where
  "rig_set_mode_width api mode width e =
     (case api_set_mode_width api mode width e of (code, e) \<Rightarrow> (check_status code, e))"

definition rig_set_split_vfos :: "'e rig_api \<Rightarrow> int \<Rightarrow> bool \<Rightarrow> int \<Rightarrow> ('e, unit) io" where
  "rig_set_split_vfos api receive enabled transmit e =
     (case api_set_split_vfos api receive enabled transmit e of (code, e) \<Rightarrow> (check_status code, e))"

definition rig_set_split_mode_width :: "'e rig_api \<Rightarrow> int \<Rightarrow> int \<Rightarrow> ('e, unit) io" where
  "rig_set_split_mode_width api mode width e =
     (case api_set_split_mode_width api mode width e of (code, e) \<Rightarrow> (check_status code, e))"

definition rig_set_power_mw :: "'e rig_api \<Rightarrow> int \<Rightarrow> int \<Rightarrow> int \<Rightarrow> ('e, unit) io" where
  "rig_set_power_mw api milliwatts transmit mode e =
     (case api_set_power_mw api milliwatts transmit mode e of (code, e) \<Rightarrow> (check_status code, e))"

definition rig_get_power_mw :: "'e rig_api \<Rightarrow> int \<Rightarrow> int \<Rightarrow> ('e, int) io" where
  "rig_get_power_mw api transmit mode e =
     (case api_get_power_mw api transmit mode e of (code, value, e) \<Rightarrow>
        (map_sum id (\<lambda>_. value) (check_status code), e))"

record rig_setting =
  rig_selector :: int
  rig_name :: string
  rig_readable :: bool
  rig_writable :: bool
  rig_value_kind :: int
  rig_units :: int
  rig_decimal_places :: int
  rig_minimum :: int
  rig_maximum :: int
  rig_choices :: "int list"

section \<open>The operating rig\<close>

record hamlib_operating =
  op_settings :: "rig_setting list"
  op_readback :: "64 word"
  op_last_observed :: "raw_state option"

definition supported :: "rig_setting list \<Rightarrow> int \<Rightarrow> bool \<Rightarrow> bool" where
  "supported settings k write \<longleftrightarrow>
     list_ex (\<lambda>s. rig_selector s = k \<and> (if write then rig_writable s else rig_readable s)) settings"

definition READBACK_BITS :: "(int \<times> nat) list" where
  "READBACK_BITS =
     [(1, 0), (3, 2), (4, 3), (5, 4), (6, 5), (8, 6), (9, 7), (10, 8), (7, 13), (307, 14), (308, 15)]"

text \<open>The readback mask that \<open>new\<close> computes from the copied settings.\<close>

definition readback_mask :: "rig_setting list \<Rightarrow> 64 word" where
  "readback_mask settings =
     (let m = fold (\<lambda>(k, bit) m.
                 if supported settings k False then m OR push_bit bit 1 else m) READBACK_BITS 0;
          m = (if list_all (\<lambda>k. supported settings k False) [1, 2, 7] then m OR 2 else m) in
      if m AND (2 OR 4 OR 64 OR 256) = 2 OR 4 OR 64 OR 256 \<and> supported settings 11 False \<and>
         supported settings 22 False
      then m OR 512 else m)"

definition hamlib_operating_new :: "rig_setting list \<Rightarrow> hamlib_operating" where
  "hamlib_operating_new settings =
     \<lparr>op_settings = settings, op_readback = readback_mask settings, op_last_observed = None\<rparr>"

definition op_writable :: "hamlib_operating \<Rightarrow> int \<Rightarrow> bool" where
  "op_writable h k = supported (op_settings h) k True"

definition op_require :: "hamlib_operating \<Rightarrow> int \<Rightarrow> bool \<Rightarrow> (call_error, unit) result" where
  "op_require h k needed =
     (if needed \<and> \<not> op_writable h k then Inl (CallError (-6)) else Inr ())"

definition reject_if :: "bool \<Rightarrow> (call_error, unit) result" where
  "reject_if b = (if b then Inl (CallError (-6)) else Inr ())"

definition rig_signal :: "raw_signal \<Rightarrow> bool" where
  "rig_signal signal \<longleftrightarrow> raw_control_source signal = 3 \<or> raw_control_source signal = 0 \<and> raw_source signal = 3"

definition state_signals :: "raw_state \<Rightarrow> (raw_signal \<times> int \<times> int) list" where
  "state_signals state = [(raw_encode state, 12, 16), (raw_decode state, 13, 17)]"

definition validate_signal :: "hamlib_operating \<Rightarrow> raw_signal \<times> int \<times> int \<Rightarrow> (call_error, unit) result" where
  "validate_signal h = (\<lambda>(signal, code, enabled).
     if rig_signal signal \<and> raw_enabled signal \<noteq> 0 then
       first_error
         [reject_if (raw_dcs_code signal \<noteq> 0 \<or> raw_inverted signal \<noteq> 0),
          op_require h code True, op_require h enabled True]
     else Inr ())"

definition op_validate :: "hamlib_operating \<Rightarrow> raw_state \<Rightarrow> (call_error, unit) result" where
  "op_validate h state =
     (let split = has_flag state 8 in
      first_error
        ([op_require h 1 True, op_require h 3 True, op_require h 4 True,
          op_require h 5 (raw_receive_vfo state \<noteq> 0), op_require h 7 split, op_require h 2 split,
          op_require h 22 split, op_require h 23 split, op_require h 8 (raw_offset_hz state \<noteq> 0),
          op_require h 9 (raw_rit_hz state \<noteq> 0), op_require h 10 (raw_xit_hz state \<noteq> 0),
          op_require h 307 (has_flag state 16), op_require h 308 (has_flag state 32),
          reject_if (has_flag state 4),
          op_require h 11 (raw_flags state AND 3 = 3),
          reject_if (\<not> split \<and> has_flag state 1 \<and> raw_receive_hz state \<noteq> raw_transmit_hz state)] @
         map (validate_signal h) (state_signals state)))"

section \<open>Applying a state\<close>

text \<open>The macro \<open>call!\<close>: the cancellation is asked first; the operands are evaluated after it.\<close>

definition exchange :: "'e rig_api \<Rightarrow> ('e, 'a) io \<Rightarrow> ('e, 'a) io" where
  "exchange api call e =
     (case api_cancelled api e of (True, e) \<Rightarrow> (Inl (CallError (-10)), e) | (False, e) \<Rightarrow> call e)"

definition as_i64 :: "int \<Rightarrow> (call_error, int) result" where
  "as_i64 n = (if n < 2 ^ 63 then Inr n else Inl (CallError (-1003)))"

definition checked_add_signed :: "int \<Rightarrow> int \<Rightarrow> int option" where
  "checked_add_signed a b = (if 0 \<le> a + b \<and> a + b < 2 ^ 64 then Some (a + b) else None)"

text \<open>The frequency that the transmitter really uses.\<close>

definition effective_transmit :: "raw_state \<Rightarrow> (call_error, int) result" where
  "effective_transmit state =
     (case Option.bind (checked_add_signed (raw_transmit_hz state) (raw_offset_hz state))
             (\<lambda>value. checked_add_signed value (if has_flag state 32 then raw_xit_hz state else 0)) of
        Some transmit \<Rightarrow> Inr transmit
      | None \<Rightarrow> Inl (CallError (-1003)))"

definition op_offsets :: "hamlib_operating \<Rightarrow> raw_state \<Rightarrow> (int \<times> int \<times> 32 word \<times> int option) list" where
  "op_offsets h state =
     sort_key (\<lambda>(_, _, flag, _). has_flag state flag)
       [(9, raw_rit_hz state, 16, map_option raw_rit_hz (op_last_observed h)),
        (10, raw_xit_hz state, 32, map_option raw_xit_hz (op_last_observed h))]"

definition apply_offset ::
  "'e rig_api \<Rightarrow> hamlib_operating \<Rightarrow> raw_state \<Rightarrow> int \<times> int \<times> 32 word \<times> int option \<Rightarrow> ('e, unit) io" where
  "apply_offset api h state = (\<lambda>(k, value, flag, previous).
     io_when
       (op_writable h k \<and>
        (has_flag state flag \<or> (case previous of None \<Rightarrow> True | Some old \<Rightarrow> old \<noteq> value)))
       (exchange api (rig_set api k value)))"

definition apply_enable :: "'e rig_api \<Rightarrow> hamlib_operating \<Rightarrow> raw_state \<Rightarrow> int \<times> 32 word \<Rightarrow> ('e, unit) io" where
  "apply_enable api h state = (\<lambda>(k, flag).
     io_when (op_writable h k) (exchange api (rig_set api k (of_bool (has_flag state flag)))))"

definition apply_signal :: "'e rig_api \<Rightarrow> hamlib_operating \<Rightarrow> raw_signal \<times> int \<times> int \<Rightarrow> ('e, unit) io" where
  "apply_signal api h = (\<lambda>(signal, code, enabled).
     io_then
       (io_when (rig_signal signal \<and> raw_ctcss_tenths_hz signal \<noteq> 0)
         (exchange api (rig_set api code (raw_ctcss_tenths_hz signal))))
       (io_when (op_writable h enabled)
         (exchange api (rig_set api enabled (of_bool (rig_signal signal \<and> raw_enabled signal \<noteq> 0))))))"

definition op_apply :: "'e rig_api \<Rightarrow> hamlib_operating \<Rightarrow> raw_state \<Rightarrow> ('e, unit) io" where
  "op_apply api h state =
     io_then (io_result (op_validate h state))
     (io_then (io_when (raw_receive_vfo state \<noteq> 0) (exchange api (rig_set api 5 (raw_receive_vfo state))))
     (let split = has_flag state 8 in
     (io_then
       (io_when (op_writable h 7)
         (exchange api (rig_set_split_vfos api (raw_receive_vfo state) split (raw_transmit_vfo state))))
     (io_then (exchange api (rig_set_mode_width api (raw_mode state) (raw_bandwidth_hz state)))
     (io_then
       (exchange api (io_bind (io_result (as_i64 (raw_receive_hz state))) (rig_set api 1)))
     (io_then
       (io_when split
         (io_then (exchange api (io_bind (io_result (as_i64 (raw_transmit_hz state))) (rig_set api 2)))
           (exchange api (rig_set_split_mode_width api (raw_mode state) (raw_bandwidth_hz state)))))
     (io_then (io_when (op_writable h 8) (exchange api (rig_set api 8 (raw_offset_hz state))))
     (io_then (io_each (apply_offset api h state) (op_offsets h state))
     (io_then (io_each (apply_enable api h state) [(307, 16), (308, 32)])
     (io_then
       (io_when (raw_flags state AND 3 = 3)
         (io_bind (io_result (effective_transmit state)) (\<lambda>transmit.
           exchange api (rig_set_power_mw api (raw_power_mw state) transmit (raw_mode state)))))
     (io_each (apply_signal api h) (state_signals state))))))))))))"

section \<open>Reading it back\<close>

text \<open>The reads hold the state built so far; the macro \<open>get!\<close> asks for a cancellation like \<open>call!\<close>.\<close>

definition io_update :: "bool \<Rightarrow> (raw_state \<Rightarrow> ('e, raw_state) io) \<Rightarrow> raw_state \<Rightarrow> ('e, raw_state) io" where
  "io_update b f state = (if b then f state else io_return state)"

definition in_range :: "int \<Rightarrow> int \<Rightarrow> (call_error, int) result" where
  "in_range limit n = (if 0 \<le> n \<and> n < limit then Inr n else Inl (CallError (-1003)))"

definition get_in_range :: "'e rig_api \<Rightarrow> int \<Rightarrow> int \<Rightarrow> ('e, int) io" where
  "get_in_range api k limit =
     io_bind (exchange api (rig_get api k)) (\<lambda>v. io_result (in_range limit v))"

definition reads_field :: "hamlib_operating \<Rightarrow> nat \<Rightarrow> bool" where
  "reads_field h n \<longleftrightarrow> op_readback h AND push_bit n 1 \<noteq> 0"

definition set_flag :: "32 word \<Rightarrow> bool \<Rightarrow> raw_state \<Rightarrow> raw_state" where
  "set_flag flag b state = state\<lparr>raw_flags := (raw_flags state AND NOT flag) OR (if b then flag else 0)\<rparr>"

definition read_receive :: "'e rig_api \<Rightarrow> raw_state \<Rightarrow> ('e, raw_state) io" where
  "read_receive api state =
     io_bind (get_in_range api 1 (2 ^ 64)) (\<lambda>v. io_return (state\<lparr>raw_receive_hz := v\<rparr>))"

definition read_split :: "'e rig_api \<Rightarrow> raw_state \<Rightarrow> ('e, raw_state) io" where
  "read_split api state = io_bind (exchange api (rig_get api 7)) (\<lambda>v. io_return (set_flag 8 (v \<noteq> 0) state))"

definition read_transmit :: "'e rig_api \<Rightarrow> raw_state \<Rightarrow> ('e, raw_state) io" where
  "read_transmit api state =
     io_bind
       (if \<not> has_flag state 8 then io_return (raw_receive_hz state) else get_in_range api 2 (2 ^ 64))
       (\<lambda>v. io_return (state\<lparr>raw_transmit_hz := v, raw_flags := raw_flags state OR 1\<rparr>))"

definition read_mode :: "'e rig_api \<Rightarrow> raw_state \<Rightarrow> ('e, raw_state) io" where
  "read_mode api state = io_bind (get_in_range api 3 (2 ^ 32)) (\<lambda>v. io_return (state\<lparr>raw_mode := v\<rparr>))"

definition read_width :: "'e rig_api \<Rightarrow> raw_state \<Rightarrow> ('e, raw_state) io" where
  "read_width api state = io_bind (get_in_range api 4 (2 ^ 32)) (\<lambda>v. io_return (state\<lparr>raw_bandwidth_hz := v\<rparr>))"

definition read_companion ::
  "'e rig_api \<Rightarrow> int \<Rightarrow> (raw_state \<Rightarrow> int) \<Rightarrow> raw_state \<Rightarrow> ('e, raw_state) io" where
  "read_companion api k expected state =
     io_bind (exchange api (rig_get api k)) (\<lambda>v.
       if v \<noteq> expected state then io_result (Inl (CallError (-11))) else io_return state)"

definition read_receive_vfo :: "'e rig_api \<Rightarrow> raw_state \<Rightarrow> ('e, raw_state) io" where
  "read_receive_vfo api state =
     io_bind (get_in_range api 5 (2 ^ 32)) (\<lambda>v. io_return (state\<lparr>raw_receive_vfo := v\<rparr>))"

definition read_transmit_vfo :: "'e rig_api \<Rightarrow> raw_state \<Rightarrow> ('e, raw_state) io" where
  "read_transmit_vfo api state =
     io_bind (get_in_range api 6 (2 ^ 32)) (\<lambda>v. io_return (state\<lparr>raw_transmit_vfo := v\<rparr>))"

definition read_offset :: "'e rig_api \<Rightarrow> raw_state \<Rightarrow> ('e, raw_state) io" where
  "read_offset api state = io_bind (exchange api (rig_get api 8)) (\<lambda>v. io_return (state\<lparr>raw_offset_hz := v\<rparr>))"

definition read_rit :: "'e rig_api \<Rightarrow> raw_state \<Rightarrow> ('e, raw_state) io" where
  "read_rit api state = io_bind (exchange api (rig_get api 9)) (\<lambda>v. io_return (state\<lparr>raw_rit_hz := v\<rparr>))"

definition read_xit :: "'e rig_api \<Rightarrow> raw_state \<Rightarrow> ('e, raw_state) io" where
  "read_xit api state = io_bind (exchange api (rig_get api 10)) (\<lambda>v. io_return (state\<lparr>raw_xit_hz := v\<rparr>))"

definition read_enable :: "'e rig_api \<Rightarrow> int \<Rightarrow> 32 word \<Rightarrow> raw_state \<Rightarrow> ('e, raw_state) io" where
  "read_enable api k flag state =
     io_bind (exchange api (rig_get api k)) (\<lambda>v. io_return (set_flag flag (v \<noteq> 0) state))"

definition read_power :: "'e rig_api \<Rightarrow> raw_state \<Rightarrow> ('e, raw_state) io" where
  "read_power api state =
     exchange api
       (io_bind (io_result (effective_transmit state)) (\<lambda>transmit.
        io_bind (rig_get_power_mw api transmit (raw_mode state)) (\<lambda>milliwatts.
        io_return (state\<lparr>raw_power_mw := milliwatts, raw_flags := raw_flags state OR 2\<rparr>))))"

definition op_read_state :: "'e rig_api \<Rightarrow> hamlib_operating \<Rightarrow> raw_state \<Rightarrow> ('e, raw_state) io" where
  "op_read_state api h baseline =
     io_bind (io_update (reads_field h 0) (read_receive api) baseline) (\<lambda>s.
     io_bind (io_update (reads_field h 13) (read_split api) s) (\<lambda>s.
     io_bind (io_update (reads_field h 1) (read_transmit api) s) (\<lambda>s.
     io_bind (io_update (reads_field h 2) (read_mode api) s) (\<lambda>s.
     io_bind (io_update (reads_field h 3) (read_width api) s) (\<lambda>s.
     io_bind (io_update (has_flag s 8 \<and> supported (op_settings h) 22 False) (read_companion api 22 raw_mode) s) (\<lambda>s.
     io_bind (io_update (has_flag s 8 \<and> supported (op_settings h) 23 False)
                (read_companion api 23 raw_bandwidth_hz) s) (\<lambda>s.
     io_bind (io_update (reads_field h 4) (read_receive_vfo api) s) (\<lambda>s.
     io_bind (io_update (reads_field h 5) (read_transmit_vfo api) s) (\<lambda>s.
     io_bind (io_update (reads_field h 6) (read_offset api) s) (\<lambda>s.
     io_bind (io_update (reads_field h 7) (read_rit api) s) (\<lambda>s.
     io_bind (io_update (reads_field h 8) (read_xit api) s) (\<lambda>s.
     io_bind (io_update (reads_field h 14) (read_enable api 307 16) s) (\<lambda>s.
     io_bind (io_update (reads_field h 15) (read_enable api 308 32) s) (\<lambda>s.
     io_update (reads_field h 9) (read_power api) s))))))))))))))"

text \<open>Only a complete read is remembered.\<close>

definition op_read ::
  "'e rig_api \<Rightarrow> hamlib_operating \<Rightarrow> raw_state \<Rightarrow> 'e \<Rightarrow>
   (call_error, raw_state) result \<times> hamlib_operating \<times> 'e" where
  "op_read api h baseline e =
     (case op_read_state api h baseline e of
        (Inl error, e) \<Rightarrow> (Inl error, h, e)
      | (Inr state, e) \<Rightarrow> (Inr state, h\<lparr>op_last_observed := Some state\<rparr>, e))"

end
