(* ===== verification/Remote_Operating_Safety.thy ===== *)
theory Remote_Operating_Safety
  imports Remote_Operating
begin

text \<open>
  What applying and reading an operating state guarantee: after validation the exchanges are those of a fixed
  plan, in its order and up to the first failure, and address only what the rig declared writable; a read changes
  only the observed fields of its baseline; and a rig that keeps what it is told reads back the applied state.
\<close>

section \<open>The plan of the exchanges\<close>

datatype rig_command =
    WriteSetting int int
  | WriteModeWidth int int
  | WriteSplitVfos int bool int
  | WriteSplitModeWidth int int
  | WritePower int int int

datatype plan_item = Exchange "(call_error, rig_command) result" | Abort call_error

fun run_command :: "'e rig_api \<Rightarrow> rig_command \<Rightarrow> ('e, unit) io" where
  "run_command api (WriteSetting k v) = rig_set api k v"
| "run_command api (WriteModeWidth m w) = rig_set_mode_width api m w"
| "run_command api (WriteSplitVfos r b t) = rig_set_split_vfos api r b t"
| "run_command api (WriteSplitModeWidth m w) = rig_set_split_mode_width api m w"
| "run_command api (WritePower p t m) = rig_set_power_mw api p t m"

fun run_item :: "'e rig_api \<Rightarrow> plan_item \<Rightarrow> ('e, unit) io" where
  "run_item api (Exchange r) = exchange api (io_bind (io_result r) (run_command api))"
| "run_item api (Abort error) = io_result (Inl error)"

definition guarded :: "bool \<Rightarrow> plan_item list \<Rightarrow> plan_item list" where
  "guarded b items = (if b then items else [])"

definition plan_write :: "int \<Rightarrow> int \<Rightarrow> plan_item" where
  "plan_write k v = Exchange (Inr (WriteSetting k v))"

definition plan_frequency :: "int \<Rightarrow> int \<Rightarrow> plan_item" where
  "plan_frequency k v = Exchange (map_sum id (WriteSetting k) (as_i64 v))"

definition plan_offset :: "hamlib_operating \<Rightarrow> raw_state \<Rightarrow> int \<times> int \<times> 32 word \<times> int option \<Rightarrow> plan_item list" where
  "plan_offset h s = (\<lambda>(k, value, flag, previous).
     guarded (op_writable h k \<and> (has_flag s flag \<or> (case previous of None \<Rightarrow> True | Some old \<Rightarrow> old \<noteq> value)))
       [plan_write k value])"

definition plan_enable :: "hamlib_operating \<Rightarrow> raw_state \<Rightarrow> int \<times> 32 word \<Rightarrow> plan_item list" where
  "plan_enable h s = (\<lambda>(k, flag). guarded (op_writable h k) [plan_write k (of_bool (has_flag s flag))])"

definition plan_power :: "raw_state \<Rightarrow> plan_item list" where
  "plan_power s =
     guarded (raw_flags s AND 3 = 3)
       [case effective_transmit s of
          Inl error \<Rightarrow> Abort error
        | Inr transmit \<Rightarrow> Exchange (Inr (WritePower (raw_power_mw s) transmit (raw_mode s)))]"

definition plan_signal :: "hamlib_operating \<Rightarrow> raw_signal \<times> int \<times> int \<Rightarrow> plan_item list" where
  "plan_signal h = (\<lambda>(signal, code, enabled).
     guarded (rig_signal signal \<and> raw_ctcss_tenths_hz signal \<noteq> 0) [plan_write code (raw_ctcss_tenths_hz signal)] @
     guarded (op_writable h enabled) [plan_write enabled (of_bool (rig_signal signal \<and> raw_enabled signal \<noteq> 0))])"

definition apply_plan :: "hamlib_operating \<Rightarrow> raw_state \<Rightarrow> plan_item list" where
  "apply_plan h s =
     guarded (raw_receive_vfo s \<noteq> 0) [plan_write 5 (raw_receive_vfo s)] @
     guarded (op_writable h 7)
       [Exchange (Inr (WriteSplitVfos (raw_receive_vfo s) (has_flag s 8) (raw_transmit_vfo s)))] @
     [Exchange (Inr (WriteModeWidth (raw_mode s) (raw_bandwidth_hz s))), plan_frequency 1 (raw_receive_hz s)] @
     guarded (has_flag s 8)
       [plan_frequency 2 (raw_transmit_hz s),
        Exchange (Inr (WriteSplitModeWidth (raw_mode s) (raw_bandwidth_hz s)))] @
     guarded (op_writable h 8) [plan_write 8 (raw_offset_hz s)] @
     concat (map (plan_offset h s) (op_offsets h s)) @
     concat (map (plan_enable h s) [(307, 16), (308, 32)]) @
     plan_power s @
     concat (map (plan_signal h) (state_signals s))"

subsection \<open>The code runs the plan\<close>

named_theorems io_simps \<open>equations of the fallible sequences\<close>

lemma io_return_bind [io_simps]: "io_bind (io_return a) f = f a"
  by (simp add: io_bind_def io_return_def)

lemma io_bind_return [io_simps]: "io_bind m io_return = m"
  by (auto simp: io_bind_def io_return_def fun_eq_iff split: prod.split sum.split)

lemma io_bind_assoc: "io_bind (io_bind m f) g = io_bind m (\<lambda>a. io_bind (f a) g)"
  by (auto simp: io_bind_def fun_eq_iff split: prod.split sum.split)

lemma io_then_return [io_simps]: "io_then (io_return ()) m = m" "io_then n (io_return ()) = n"
  using io_bind_return [of n] by (simp_all add: io_then_def io_return_bind)

lemma io_then_assoc [io_simps]: "io_then (io_then a b) c = io_then a (io_then b c)"
  by (simp add: io_then_def io_bind_assoc)

lemma io_bind_result [io_simps]: "io_bind (io_result (Inr a)) f = f a" "io_bind (io_result (Inl e)) f = io_result (Inl e)"
  by (simp_all add: io_bind_def io_result_def)

lemma io_result_Inr [io_simps]: "io_result (Inr a) = io_return a"
  by (simp add: io_result_def io_return_def)

lemma io_each_append [io_simps]: "io_each f (xs @ ys) = io_then (io_each f xs) (io_each f ys)"
  by (induction xs) (simp_all add: io_simps)

lemma io_each_concat: "io_each f (concat (map g xs)) = io_each (\<lambda>x. io_each f (g x)) xs"
  by (induction xs) (simp_all add: io_simps)

lemma io_each_guarded [io_simps]: "io_each f (guarded b xs) = io_when b (io_each f xs)"
  by (simp add: guarded_def io_when_def)

lemma run_plan_write [io_simps]: "run_item api (plan_write k v) = exchange api (rig_set api k v)"
  by (simp add: plan_write_def io_simps)

lemma run_plan_frequency [io_simps]:
  "run_item api (plan_frequency k v) = exchange api (io_bind (io_result (as_i64 v)) (rig_set api k))"
  by (cases "as_i64 v") (simp_all add: plan_frequency_def io_simps)

lemma run_plan_offset [io_simps]: "io_each (run_item api) (plan_offset h s x) = apply_offset api h s x"
  by (cases x) (simp add: plan_offset_def apply_offset_def io_simps)

lemma run_plan_enable [io_simps]: "io_each (run_item api) (plan_enable h s x) = apply_enable api h s x"
  by (cases x) (simp add: plan_enable_def apply_enable_def io_simps)

lemma run_plan_power [io_simps]:
  "io_each (run_item api) (plan_power s) =
     io_when (raw_flags s AND 3 = 3)
         (io_bind (io_result (effective_transmit s)) (\<lambda>transmit.
           exchange api (rig_set_power_mw api (raw_power_mw s) transmit (raw_mode s))))"
  by (cases "effective_transmit s") (simp_all add: plan_power_def io_simps)

lemma run_plan_signal [io_simps]: "io_each (run_item api) (plan_signal h x) = apply_signal api h x"
  by (cases x) (simp add: plan_signal_def apply_signal_def io_simps)

lemma op_apply_plan:
  "op_apply api h s = io_then (io_result (op_validate h s)) (io_each (run_item api) (apply_plan h s))"
  unfolding op_apply_def apply_plan_def Let_def
  by (simp add: io_simps io_each_concat run_plan_offset run_plan_enable run_plan_signal)

text \<open>The same written out: what one run of the plan does, item by item.\<close>

fun plan_run :: "'e rig_api \<Rightarrow> plan_item list \<Rightarrow> ('e, unit) io" where
  "plan_run api [] env = (Inr (), env)"
| "plan_run api (Abort error # items) env = (Inl error, env)"
| "plan_run api (Exchange command # items) env =
     (case api_cancelled api env of
        (True, env) \<Rightarrow> (Inl (CallError (-10)), env)
      | (False, env) \<Rightarrow>
          (case command of
             Inl error \<Rightarrow> (Inl error, env)
           | Inr command \<Rightarrow>
               (case run_command api command env of
                  (Inl error, env) \<Rightarrow> (Inl error, env)
                | (Inr _, env) \<Rightarrow> plan_run api items env)))"

lemma plan_run_each: "io_each (run_item api) items env = plan_run api items env"
proof (induction api items env rule: plan_run.induct)
  case (3 api command items env)
  then show ?case
    by (auto simp: exchange_def io_then_def io_bind_def io_result_def split: prod.split bool.split sum.split)
qed (simp_all add: io_return_def io_then_def io_bind_def io_result_def)

section \<open>Only what the rig declared writable\<close>

text \<open>The value that a state wants in a setting. There is none for the transmit key, the setting 20.\<close>

definition wanted_values :: "raw_state \<Rightarrow> (int \<times> int) list" where
  "wanted_values s =
     [(1, raw_receive_hz s), (2, raw_transmit_hz s), (5, raw_receive_vfo s), (8, raw_offset_hz s),
      (9, raw_rit_hz s), (10, raw_xit_hz s), (307, of_bool (has_flag s 16)), (308, of_bool (has_flag s 32)),
      (12, raw_ctcss_tenths_hz (raw_encode s)), (13, raw_ctcss_tenths_hz (raw_decode s)),
      (16, of_bool (rig_signal (raw_encode s) \<and> raw_enabled (raw_encode s) \<noteq> 0)),
      (17, of_bool (rig_signal (raw_decode s) \<and> raw_enabled (raw_decode s) \<noteq> 0))]"

text \<open>The tone of a signal that the rig programs but that is switched off.\<close>

definition idle_tone :: "raw_state \<Rightarrow> int \<Rightarrow> bool" where
  "idle_tone s k \<longleftrightarrow>
     list_ex (\<lambda>(signal, code, _). k = code \<and> rig_signal signal \<and> raw_enabled signal = 0) (state_signals s)"

fun command_allowed :: "hamlib_operating \<Rightarrow> raw_state \<Rightarrow> rig_command \<Rightarrow> bool" where
  "command_allowed h s (WriteSetting k v) \<longleftrightarrow>
     (k, v) \<in> set (wanted_values s) \<and> (op_writable h k \<or> idle_tone s k)"
| "command_allowed h s (WriteModeWidth m w) \<longleftrightarrow>
     m = raw_mode s \<and> w = raw_bandwidth_hz s \<and> op_writable h 3 \<and> op_writable h 4"
| "command_allowed h s (WriteSplitVfos r b t) \<longleftrightarrow>
     r = raw_receive_vfo s \<and> b = has_flag s 8 \<and> t = raw_transmit_vfo s \<and> op_writable h 7"
| "command_allowed h s (WriteSplitModeWidth m w) \<longleftrightarrow>
     m = raw_mode s \<and> w = raw_bandwidth_hz s \<and> has_flag s 8 \<and> op_writable h 22 \<and> op_writable h 23"
| "command_allowed h s (WritePower p transmit m) \<longleftrightarrow>
     p = raw_power_mw s \<and> m = raw_mode s \<and> effective_transmit s = Inr transmit \<and> op_writable h 11"

fun item_allowed :: "hamlib_operating \<Rightarrow> raw_state \<Rightarrow> plan_item \<Rightarrow> bool" where
  "item_allowed h s (Exchange (Inr c)) \<longleftrightarrow> command_allowed h s c"
| "item_allowed h s (Exchange (Inl e)) \<longleftrightarrow> e = CallError (-1003)"
| "item_allowed h s (Abort e) \<longleftrightarrow> e = CallError (-1003)"

lemma op_require_ok [res_simps]: "op_require h k b = Inr u \<longleftrightarrow> (b \<longrightarrow> op_writable h k)"
  by (simp add: op_require_def)

lemma reject_if_ok [res_simps]: "reject_if b = Inr u \<longleftrightarrow> \<not> b"
  by (simp add: reject_if_def)

lemma validate_needs:
  assumes "op_validate h s = Inr u"
  shows "op_writable h 1" "op_writable h 3" "op_writable h 4" "raw_receive_vfo s \<noteq> 0 \<Longrightarrow> op_writable h 5"
    "has_flag s 8 \<Longrightarrow> op_writable h 7 \<and> op_writable h 2 \<and> op_writable h 22 \<and> op_writable h 23"
    "raw_flags s AND 3 = 3 \<Longrightarrow> op_writable h 11" "\<not> has_flag s 4"
    "\<not> has_flag s 8 \<Longrightarrow> has_flag s 1 \<Longrightarrow> raw_receive_hz s = raw_transmit_hz s"
    "rig_signal (raw_encode s) \<Longrightarrow> raw_enabled (raw_encode s) \<noteq> 0 \<Longrightarrow> op_writable h 12 \<and> op_writable h 16"
    "rig_signal (raw_decode s) \<Longrightarrow> raw_enabled (raw_decode s) \<noteq> 0 \<Longrightarrow> op_writable h 13 \<and> op_writable h 17"
  using assms
  unfolding op_validate_def Let_def
  by (simp_all add: res_simps validate_signal_def state_signals_def split: if_splits)

lemma as_i64_error: "as_i64 n = Inl e \<Longrightarrow> e = CallError (-1003)"
  by (simp add: as_i64_def split: if_splits)

lemma effective_transmit_error: "effective_transmit s = Inl e \<Longrightarrow> e = CallError (-1003)"
  by (simp add: effective_transmit_def split: option.splits)

lemma plan_frequency_allowed:
  "(k, v) \<in> set (wanted_values s) \<Longrightarrow> op_writable h k \<Longrightarrow> item_allowed h s (plan_frequency k v)"
  by (cases "as_i64 v") (auto simp: plan_frequency_def as_i64_def split: if_splits)

lemma set_op_offsets:
  "set (op_offsets h s) =
     {(9, raw_rit_hz s, 16, map_option raw_rit_hz (op_last_observed h)),
      (10, raw_xit_hz s, 32, map_option raw_xit_hz (op_last_observed h))}"
  unfolding op_offsets_def set_sort by simp

lemma plan_offset_allowed: "x \<in> set (op_offsets h s) \<Longrightarrow> list_all (item_allowed h s) (plan_offset h s x)"
  by (auto simp: set_op_offsets plan_offset_def guarded_def plan_write_def wanted_values_def)

lemma plan_enable_allowed: "x \<in> set [(307, 16), (308, 32)] \<Longrightarrow> list_all (item_allowed h s) (plan_enable h s x)"
  by (auto simp: plan_enable_def guarded_def plan_write_def wanted_values_def)

lemma plan_power_allowed: "op_validate h s = Inr u \<Longrightarrow> list_all (item_allowed h s) (plan_power s)"
  using validate_needs(6) effective_transmit_error
  by (auto simp: plan_power_def guarded_def split: sum.split)

lemma plan_signal_allowed:
  "op_validate h s = Inr u \<Longrightarrow> x \<in> set (state_signals s) \<Longrightarrow> list_all (item_allowed h s) (plan_signal h x)"
  using validate_needs(9,10)
  by (auto simp: state_signals_def plan_signal_def guarded_def plan_write_def wanted_values_def idle_tone_def)

lemma list_all_concat_map: "list_all P (concat (map f xs)) \<longleftrightarrow> list_all (\<lambda>x. list_all P (f x)) xs"
  by (induction xs) auto

lemma apply_plan_allowed:
  assumes "op_validate h s = Inr u"
  shows "list_all (item_allowed h s) (apply_plan h s)"
proof -
  note needs = validate_needs [OF assms]
  have "list_all (item_allowed h s) (concat (map (plan_offset h s) (op_offsets h s)))"
    "list_all (item_allowed h s) (concat (map (plan_enable h s) [(307, 16), (308, 32)]))"
    "list_all (item_allowed h s) (concat (map (plan_signal h) (state_signals s)))"
    unfolding list_all_concat_map using plan_offset_allowed plan_enable_allowed plan_signal_allowed [OF assms]
    by (auto simp only: list_all_iff)
  moreover have "item_allowed h s (plan_frequency 1 (raw_receive_hz s))"
    using needs(1) by (intro plan_frequency_allowed) (simp_all add: wanted_values_def)
  moreover have "item_allowed h s (plan_frequency 2 (raw_transmit_hz s))" if "has_flag s 8"
    using needs(5) [OF that] by (intro plan_frequency_allowed) (simp_all add: wanted_values_def)
  moreover have "item_allowed h s (plan_write 5 (raw_receive_vfo s))" if "raw_receive_vfo s \<noteq> 0"
    using needs(4) [OF that] by (simp add: plan_write_def wanted_values_def)
  moreover have "item_allowed h s (plan_write 8 (raw_offset_hz s))" if "op_writable h 8"
    using that by (simp add: plan_write_def wanted_values_def)
  ultimately show ?thesis
    using plan_power_allowed [OF assms] needs(2,3,5) unfolding apply_plan_def guarded_def by simp
qed

lemma op_require_error: "Inl e = op_require h k b \<Longrightarrow> e = CallError (-6)"
  by (simp add: op_require_def split: if_splits)

lemma reject_if_error: "Inl e = reject_if b \<Longrightarrow> e = CallError (-6)"
  by (simp add: reject_if_def split: if_splits)

lemma validate_signal_error: "Inl e = validate_signal h x \<Longrightarrow> e = CallError (-6)"
  unfolding validate_signal_def
  by (cases x) (auto split: if_splits dest!: first_error_in [OF sym] op_require_error reject_if_error)

lemma validate_error: "op_validate h s = Inl e \<Longrightarrow> e = CallError (-6)"
  unfolding op_validate_def Let_def
  by (drule first_error_in)
     (auto dest!: op_require_error reject_if_error validate_signal_error)

text \<open>C19: A state that needs a setting the rig cannot write, asks for a parallel channel, or has two frequencies
  without split, is refused before anything reaches the rig. For any other, applying runs the items of the plan in
  order. Before each exchange the cancellation is asked: a cancelled exchange does not happen and nothing
  follows it, and nothing follows a value that does not fit or an exchange that fails. Each exchange writes the
  value that the state wants to a setting declared writable, with one exception: the tone of a signal that the
  rig programs but that is switched off (settings 12 and 13) is written whether or not the rig declares that setting
  writable. The transmit key is never written.
\<close>

theorem apply_commands_safe:
  "case op_validate h s of
     Inl e \<Rightarrow> e = CallError (-6) \<and> op_apply api h s env = (Inl e, env)
   | Inr _ \<Rightarrow>
       op_apply api h s env = plan_run api (apply_plan h s) env \<and>
       list_all (item_allowed h s) (apply_plan h s)"
proof (cases "op_validate h s")
  case (Inl e)
  then show ?thesis using validate_error [OF Inl]
    by (simp add: op_apply_plan io_then_def io_bind_def io_result_def)
next
  case (Inr u)
  then show ?thesis using apply_plan_allowed [OF Inr]
    by (simp add: op_apply_plan io_then_def io_bind_result plan_run_each)
qed

section \<open>A read changes observed fields only\<close>

definition observed_flags :: "hamlib_operating \<Rightarrow> 32 word" where
  "observed_flags h =
     (if reads_field h 1 then 1 else 0) OR (if reads_field h 9 then 2 else 0) OR
     (if reads_field h 13 then 8 else 0) OR (if reads_field h 14 then 16 else 0) OR
     (if reads_field h 15 then 32 else 0)"

definition same_outside :: "hamlib_operating \<Rightarrow> raw_state \<Rightarrow> raw_state \<Rightarrow> bool" where
  "same_outside h s b \<longleftrightarrow>
     (\<not> reads_field h 0 \<longrightarrow> raw_receive_hz s = raw_receive_hz b) \<and>
     (\<not> reads_field h 1 \<longrightarrow> raw_transmit_hz s = raw_transmit_hz b) \<and>
     (\<not> reads_field h 2 \<longrightarrow> raw_mode s = raw_mode b) \<and>
     (\<not> reads_field h 3 \<longrightarrow> raw_bandwidth_hz s = raw_bandwidth_hz b) \<and>
     (\<not> reads_field h 4 \<longrightarrow> raw_receive_vfo s = raw_receive_vfo b) \<and>
     (\<not> reads_field h 5 \<longrightarrow> raw_transmit_vfo s = raw_transmit_vfo b) \<and>
     (\<not> reads_field h 6 \<longrightarrow> raw_offset_hz s = raw_offset_hz b) \<and>
     (\<not> reads_field h 7 \<longrightarrow> raw_rit_hz s = raw_rit_hz b) \<and>
     (\<not> reads_field h 8 \<longrightarrow> raw_xit_hz s = raw_xit_hz b) \<and>
     (\<not> reads_field h 9 \<longrightarrow> raw_power_mw s = raw_power_mw b) \<and>
     raw_channel s = raw_channel b \<and> raw_encode s = raw_encode b \<and> raw_decode s = raw_decode b \<and>
     raw_flags s AND NOT (observed_flags h) = raw_flags b AND NOT (observed_flags h)"

lemma same_outside_refl: "same_outside h s s"
  by (simp add: same_outside_def)

lemma same_outside_trans: "same_outside h s t \<Longrightarrow> same_outside h t u \<Longrightarrow> same_outside h s u"
  by (simp add: same_outside_def)

text \<open>A sequence on states that changes observed fields only, when it succeeds.\<close>

definition observes :: "hamlib_operating \<Rightarrow> raw_state \<Rightarrow> ('e, raw_state) io \<Rightarrow> bool" where
  "observes h s m \<longleftrightarrow> (\<forall>e s' e'. m e = (Inr s', e') \<longrightarrow> same_outside h s' s)"

lemma observes_bind:
  "observes h s m \<Longrightarrow> (\<And>t. observes h t (f t)) \<Longrightarrow> observes h s (io_bind m f)"
  unfolding observes_def io_bind_def
  by (auto split: prod.splits sum.splits) (metis same_outside_trans)

lemma observes_return: "same_outside h t s \<Longrightarrow> observes h s (io_return t)"
  by (simp add: observes_def io_return_def)

lemma observes_result: "observes h s (io_result (Inl e))"
  by (simp add: observes_def io_result_def)

lemma observes_exchange: "observes h s m \<Longrightarrow> observes h s (exchange api m)"
  by (auto simp: observes_def exchange_def split: prod.splits bool.splits)

text \<open>Another result before the state is of no interest.\<close>

lemma observes_after: "(\<And>v. observes h s (f v)) \<Longrightarrow> observes h s (io_bind m f)"
  unfolding observes_def io_bind_def by (auto split: prod.splits sum.splits)

lemma observes_update: "(b \<Longrightarrow> observes h s (f s)) \<Longrightarrow> observes h s (io_update b f s)"
  by (auto simp: io_update_def observes_return same_outside_refl)

lemma masked_flag:
  fixes x f m :: "32 word"
  assumes "f AND NOT m = 0"
  shows "(x AND NOT f OR (if b then f else 0)) AND NOT m = x AND NOT m" "(x OR f) AND NOT m = x AND NOT m"
    "(x AND NOT f) AND NOT m = x AND NOT m"
  using assms by (auto simp: bit_eq_iff bit_simps)

lemma observed_flag:
  "reads_field h 1 \<Longrightarrow> 1 AND NOT (observed_flags h) = 0" "reads_field h 9 \<Longrightarrow> 2 AND NOT (observed_flags h) = 0"
  "reads_field h 13 \<Longrightarrow> 8 AND NOT (observed_flags h) = 0" "reads_field h 14 \<Longrightarrow> 16 AND NOT (observed_flags h) = 0"
  "reads_field h 15 \<Longrightarrow> 32 AND NOT (observed_flags h) = 0"
  by (auto simp: observed_flags_def)

lemma set_flag_outside: "f AND NOT (observed_flags h) = 0 \<Longrightarrow> same_outside h (set_flag f b s) s"
  by (simp add: same_outside_def set_flag_def masked_flag)

lemma observes_fields:
  "reads_field h 0 \<Longrightarrow> observes h s (read_receive api s)"
  "reads_field h 13 \<Longrightarrow> observes h s (read_split api s)"
  "reads_field h 1 \<Longrightarrow> observes h s (read_transmit api s)"
  "reads_field h 2 \<Longrightarrow> observes h s (read_mode api s)"
  "reads_field h 3 \<Longrightarrow> observes h s (read_width api s)"
  "observes h s (read_companion api k g s)"
  "reads_field h 4 \<Longrightarrow> observes h s (read_receive_vfo api s)"
  "reads_field h 5 \<Longrightarrow> observes h s (read_transmit_vfo api s)"
  "reads_field h 6 \<Longrightarrow> observes h s (read_offset api s)"
  "reads_field h 7 \<Longrightarrow> observes h s (read_rit api s)"
  "reads_field h 8 \<Longrightarrow> observes h s (read_xit api s)"
  "reads_field h 14 \<Longrightarrow> observes h s (read_enable api 307 16 s)"
  "reads_field h 15 \<Longrightarrow> observes h s (read_enable api 308 32 s)"
  "reads_field h 9 \<Longrightarrow> observes h s (read_power api s)"
  unfolding read_receive_def read_split_def read_transmit_def read_mode_def read_width_def read_companion_def
    read_receive_vfo_def read_transmit_vfo_def read_offset_def read_rit_def read_xit_def read_enable_def read_power_def
  by (auto intro!: observes_exchange observes_after observes_return observes_result set_flag_outside observed_flag
      simp: same_outside_refl) (auto simp: same_outside_def masked_flag observed_flag)

lemma op_read_state_observes: "observes h b (op_read_state api h b)"
  unfolding op_read_state_def by (intro observes_bind observes_update observes_fields)

text \<open>C25: Reading the rig changes only fields that the rig can report: every other field and flag of the result,
  and the channel and the signals always, are those of the baseline. A read that fails or is cancelled is not
  remembered as an observation.
\<close>

theorem read_observes_only:
  "case op_read api h baseline e of
     (Inl error, h', _) \<Rightarrow> h' = h
   | (Inr state, h', _) \<Rightarrow> h' = h\<lparr>op_last_observed := Some state\<rparr> \<and> same_outside h state baseline"
  using op_read_state_observes [of h baseline api]
  by (auto simp: op_read_def observes_def split: prod.splits sum.splits)

end
