(* ===== verification/Remote_Readback.thy ===== *)
theory Remote_Readback
  imports Remote_Operating_Safety
begin

text \<open>
  A rig that keeps what it is told reads back the state that was applied to it: the order of the exchanges, the
  conditions under which the code leaves a register alone, and the fields of the readback fit together. The rig is
  a parameter with a set of registers; the incremental offsets of receiver and transmitter may share one register,
  as they do in some radios.
\<close>

section \<open>A rig with registers\<close>

definition register_cell :: "bool \<Rightarrow> int \<Rightarrow> int" where
  "register_cell shared k = (if shared \<and> k = 10 then 9 else k)"

fun command_effect :: "bool \<Rightarrow> rig_command \<Rightarrow> (int \<Rightarrow> int) \<Rightarrow> int \<Rightarrow> int" where
  "command_effect shared (WriteSetting k v) R = R(register_cell shared k := v)"
| "command_effect shared (WriteModeWidth m w) R = R(3 := m, 4 := w)"
| "command_effect shared (WriteSplitVfos r b t) R = R(7 := of_bool b, 6 := t)"
| "command_effect shared (WriteSplitModeWidth m w) R = R(22 := m, 23 := w)"
| "command_effect shared (WritePower p t m) R = R(11 := p)"

definition register_rig :: "'e rig_api \<Rightarrow> ('e \<Rightarrow> int \<Rightarrow> int) \<Rightarrow> bool \<Rightarrow> bool" where
  "register_rig api regs shared \<longleftrightarrow>
     (\<forall>e. api_cancelled api e = (False, e)) \<and>
     (\<forall>k e. api_get api k e = (0, regs e (register_cell shared k), e)) \<and>
     (\<forall>t m e. api_get_power_mw api t m e = (0, regs e 11, e)) \<and>
     (\<forall>c e. \<exists>e'. run_command api c e = (Inr (), e') \<and> regs e' = command_effect shared c (regs e))"

text \<open>An item of a plan on the registers, for items without a failed conversion.\<close>

fun item_effect :: "bool \<Rightarrow> plan_item \<Rightarrow> (int \<Rightarrow> int) \<Rightarrow> int \<Rightarrow> int" where
  "item_effect shared (Exchange (Inr c)) R = command_effect shared c R"
| "item_effect shared _ R = R"

fun item_converts :: "plan_item \<Rightarrow> bool" where
  "item_converts (Exchange (Inr c)) = True"
| "item_converts _ = False"

definition plan_effect :: "bool \<Rightarrow> plan_item list \<Rightarrow> (int \<Rightarrow> int) \<Rightarrow> int \<Rightarrow> int" where
  "plan_effect shared items R = fold (item_effect shared) items R"

lemma run_plan:
  assumes "register_rig api regs shared" "list_all item_converts items"
  shows "\<exists>e'. io_each (run_item api) items e = (Inr (), e') \<and> regs e' = plan_effect shared items (regs e)"
  using assms(2)
proof (induction items arbitrary: e)
  case Nil
  then show ?case by (simp add: io_return_def plan_effect_def)
next
  case (Cons x xs)
  from Cons.prems obtain c where x: "x = Exchange (Inr c)" by (cases x rule: item_converts.cases) auto
  obtain e1 where e1: "run_command api c e = (Inr (), e1)" "regs e1 = command_effect shared c (regs e)"
    using assms(1) unfolding register_rig_def by blast
  have go: "run_item api x e = (Inr (), e1)"
    using assms(1) e1 x by (simp add: register_rig_def exchange_def io_simps)
  obtain e2 where "io_each (run_item api) xs e1 = (Inr (), e2)" "regs e2 = plan_effect shared xs (regs e1)"
    using Cons.IH [of e1] Cons.prems by auto
  then show ?case using go e1 x by (simp add: io_then_def io_bind_def plan_effect_def)
qed

section \<open>The registers after a complete state\<close>

text \<open>A rig that lets everything be written, and a state with frequencies, power and routing.\<close>

definition full_control :: "hamlib_operating \<Rightarrow> bool" where
  "full_control h \<longleftrightarrow> list_all (op_writable h) [7, 8, 9, 10, 307, 308] \<and> op_last_observed h = None"

definition complete_state :: "raw_state \<Rightarrow> bool" where
  "complete_state s \<longleftrightarrow>
     0 \<le> raw_receive_hz s \<and> raw_receive_hz s < 2 ^ 63 \<and> 0 \<le> raw_transmit_hz s \<and> raw_transmit_hz s < 2 ^ 63 \<and>
     list_all (\<lambda>v. 0 \<le> v \<and> v < 2 ^ 32)
       [raw_mode s, raw_bandwidth_hz s, raw_receive_vfo s, raw_transmit_vfo s] \<and>
     raw_receive_vfo s \<noteq> 0 \<and> raw_flags s AND 3 = 3 \<and> (case effective_transmit s of Inl _ \<Rightarrow> False | Inr _ \<Rightarrow> True)"

text \<open>The offset that a shared register holds in the end: that of the enabled side, and the transmitter's when
  both or none are enabled.\<close>

definition shared_offset :: "raw_state \<Rightarrow> int" where
  "shared_offset s = (if has_flag s 16 \<and> \<not> has_flag s 32 then raw_rit_hz s else raw_xit_hz s)"

definition held_state :: "bool \<Rightarrow> hamlib_operating \<Rightarrow> raw_state \<Rightarrow> raw_state" where
  "held_state shared h s =
     s\<lparr>raw_rit_hz := if shared \<and> reads_field h 7 then shared_offset s else raw_rit_hz s,
       raw_xit_hz := if shared \<and> reads_field h 8 then shared_offset s else raw_xit_hz s\<rparr>"

definition holds_state :: "bool \<Rightarrow> raw_state \<Rightarrow> (int \<Rightarrow> int) \<Rightarrow> bool" where
  "holds_state shared s R \<longleftrightarrow>
     R 1 = raw_receive_hz s \<and> R 3 = raw_mode s \<and> R 4 = raw_bandwidth_hz s \<and> R 5 = raw_receive_vfo s \<and>
     R 6 = raw_transmit_vfo s \<and> R 7 = of_bool (has_flag s 8) \<and> R 8 = raw_offset_hz s \<and> R 11 = raw_power_mw s \<and>
     R 307 = of_bool (has_flag s 16) \<and> R 308 = of_bool (has_flag s 32) \<and>
     (has_flag s 8 \<longrightarrow> R 2 = raw_transmit_hz s \<and> R 22 = raw_mode s \<and> R 23 = raw_bandwidth_hz s) \<and>
     (if shared then R 9 = shared_offset s else R 9 = raw_rit_hz s \<and> R 10 = raw_xit_hz s)"

lemma plan_effect_append: "plan_effect shared (a @ b) R = plan_effect shared b (plan_effect shared a R)"
  by (simp add: plan_effect_def)

lemma op_offsets_order:
  "op_offsets h s =
     (let rit = (9, raw_rit_hz s, 16, map_option raw_rit_hz (op_last_observed h));
          xit = (10, raw_xit_hz s, 32, map_option raw_xit_hz (op_last_observed h)) in
      if has_flag s 16 \<and> \<not> has_flag s 32 then [xit, rit] else [rit, xit])"
  by (auto simp: op_offsets_def Let_def)

lemma signal_effect:
  "k \<notin> {12, 13, 16, 17} \<Longrightarrow> plan_effect shared (concat (map (plan_signal h) (state_signals s))) R k = R k"
  by (auto simp: state_signals_def plan_signal_def guarded_def plan_write_def plan_effect_def register_cell_def)

lemma signals_convert: "list_all item_converts (concat (map (plan_signal h) (state_signals s)))"
  by (simp add: state_signals_def plan_signal_def guarded_def plan_write_def)

definition plan_front :: "raw_state \<Rightarrow> plan_item list" where
  "plan_front s =
     [plan_write 5 (raw_receive_vfo s),
      Exchange (Inr (WriteSplitVfos (raw_receive_vfo s) (has_flag s 8) (raw_transmit_vfo s))),
      Exchange (Inr (WriteModeWidth (raw_mode s) (raw_bandwidth_hz s))), plan_write 1 (raw_receive_hz s)] @
     guarded (has_flag s 8)
       [plan_write 2 (raw_transmit_hz s), Exchange (Inr (WriteSplitModeWidth (raw_mode s) (raw_bandwidth_hz s)))] @
     [plan_write 8 (raw_offset_hz s)] @
     (if has_flag s 16 \<and> \<not> has_flag s 32 then [plan_write 10 (raw_xit_hz s), plan_write 9 (raw_rit_hz s)]
      else [plan_write 9 (raw_rit_hz s), plan_write 10 (raw_xit_hz s)]) @
     [plan_write 307 (of_bool (has_flag s 16)), plan_write 308 (of_bool (has_flag s 32))]"

lemma full_plan:
  assumes "full_control h" "complete_state s" "effective_transmit s = Inr t"
  shows "apply_plan h s =
     plan_front s @ [Exchange (Inr (WritePower (raw_power_mw s) t (raw_mode s)))] @
     concat (map (plan_signal h) (state_signals s))"
  using assms
  by (simp add: apply_plan_def plan_front_def full_control_def complete_state_def guarded_def plan_offset_def
      plan_enable_def plan_power_def plan_frequency_def as_i64_def plan_write_def op_offsets_order Let_def)

lemma front_effect: "holds_state shared s ((plan_effect shared (plan_front s) R)(11 := raw_power_mw s))"
  by (simp add: holds_state_def plan_front_def guarded_def plan_effect_def plan_write_def register_cell_def
      shared_offset_def)

lemma holds_state_cong:
  "holds_state shared s R \<Longrightarrow> (\<And>k. k \<notin> {12, 13, 16, 17} \<Longrightarrow> S k = R k) \<Longrightarrow> holds_state shared s S"
  unfolding holds_state_def by simp

lemma apply_holds:
  assumes "full_control h" "complete_state s"
  shows "list_all item_converts (apply_plan h s) \<and> holds_state shared s (plan_effect shared (apply_plan h s) R)"
proof -
  obtain t where t: "effective_transmit s = Inr t"
    using assms(2) by (cases "effective_transmit s") (auto simp: complete_state_def)
  have "list_all item_converts (plan_front s)"
    by (simp add: plan_front_def guarded_def plan_write_def)
  moreover have "holds_state shared s (plan_effect shared (apply_plan h s) R)"
    unfolding full_plan [OF assms t] plan_effect_append
    by (rule holds_state_cong [OF front_effect [of shared s R]]) (subst signal_effect, assumption, simp add: plan_effect_def)
  ultimately show ?thesis unfolding full_plan [OF assms t] using signals_convert by simp
qed

section \<open>The read\<close>

lemma single_flag:
  fixes x f :: "32 word"
  assumes "f = 2 ^ n"
  shows "x AND NOT f OR (if x AND f \<noteq> 0 then f else 0) = x"
  by (rule bit_eqI) (auto simp: assms bit_simps and_exp_eq_0_iff_not_bit)

lemma set_flag_single: "f = 2 ^ n \<Longrightarrow> set_flag f (has_flag s f) s = s"
  unfolding set_flag_def has_flag_def by (subst single_flag) simp_all

lemma set_flag_same: "set_flag 8 (has_flag s 8) s = s" "set_flag 16 (has_flag s 16) s = s"
  "set_flag 32 (has_flag s 32) s = s"
  by (rule set_flag_single [of _ 3], simp, rule set_flag_single [of _ 4], simp, rule set_flag_single [of _ 5], simp)

lemma low_flags:
  fixes x :: "32 word"
  assumes "x AND 3 = 3"
  shows "x OR 1 = x" "x OR 2 = x" "x AND 1 \<noteq> 0"
proof -
  have bits: "bit x 0" "bit x 1"
    using arg_cong [OF assms, of "\<lambda>w. bit w 0"] arg_cong [OF assms, of "\<lambda>w. bit w 1"]
    by (simp_all add: bit_simps)
  show "x OR 1 = x" using bits by (intro bit_eqI) (auto simp: bit_simps)
  have "x OR 2 ^ 1 = x" using bits by (intro bit_eqI) (auto simp: bit_simps)
  then show "x OR 2 = x" by simp
  show "x AND 1 \<noteq> 0" using bits by (simp add: and_exp_eq_0_iff_not_bit [of x 0, simplified])
qed

lemma register_get:
  assumes "register_rig api regs shared"
  shows "exchange api (rig_get api k) e = (Inr (regs e (register_cell shared k)), e)"
  using assms by (simp add: register_rig_def exchange_def rig_get_def check_status_def)

lemma register_get_in_range:
  assumes "register_rig api regs shared" "0 \<le> regs e (register_cell shared k)" "regs e (register_cell shared k) < n"
  shows "get_in_range api k n e = (Inr (regs e (register_cell shared k)), e)"
  using register_get [OF assms(1)] assms(2,3)
  by (simp add: get_in_range_def io_bind_def io_result_def in_range_def)

lemma register_power:
  assumes "register_rig api regs shared" "effective_transmit s = Inr t"
  shows "read_power api s e =
    (Inr (s\<lparr>raw_power_mw := regs e 11, raw_flags := raw_flags s OR 2\<rparr>), e)"
  using assms
  by (simp add: register_rig_def read_power_def exchange_def io_bind_def io_result_def io_return_def
      rig_get_power_mw_def check_status_def)

definition keeps_state :: "raw_state \<Rightarrow> 'e \<Rightarrow> ('e, raw_state) io \<Rightarrow> bool" where
  "keeps_state s e m \<longleftrightarrow> m e = (Inr s, e)"

lemma keeps_bind: "keeps_state s e m \<Longrightarrow> keeps_state u e (f s) \<Longrightarrow> keeps_state u e (io_bind m f)"
  by (simp add: keeps_state_def io_bind_def)

lemma keeps_update: "(b \<Longrightarrow> keeps_state s e (f s)) \<Longrightarrow> keeps_state s e (io_update b f s)"
  by (cases b) (simp_all add: keeps_state_def io_update_def io_return_def)

lemma read_fields_keep:
  assumes "register_rig api regs shared" "holds_state shared s (regs e)" "complete_state s"
    "op_validate h s = Inr u"
  shows "keeps_state s e (read_receive api s)" "keeps_state s e (read_split api s)"
    "keeps_state s e (read_transmit api s)" "keeps_state s e (read_mode api s)" "keeps_state s e (read_width api s)"
    "has_flag s 8 \<Longrightarrow> keeps_state s e (read_companion api 22 raw_mode s)"
    "has_flag s 8 \<Longrightarrow> keeps_state s e (read_companion api 23 raw_bandwidth_hz s)"
    "keeps_state s e (read_receive_vfo api s)" "keeps_state s e (read_transmit_vfo api s)"
    "keeps_state s e (read_offset api s)"
proof -
  note get = register_get [OF assms(1)] and ranged = register_get_in_range [OF assms(1)]
  have cells: "register_cell shared k = k" if "k \<noteq> 10" for k using that by (simp add: register_cell_def)
  have low: "raw_flags s AND 3 = 3" using assms(3) by (simp add: complete_state_def)
  have same: "\<not> has_flag s 8 \<Longrightarrow> raw_receive_hz s = raw_transmit_hz s"
    using validate_needs(8) [OF assms(4)] low_flags(3) [OF low] by (simp add: has_flag_def)
  show "keeps_state s e (read_receive api s)" "keeps_state s e (read_mode api s)" "keeps_state s e (read_width api s)"
    "keeps_state s e (read_receive_vfo api s)" "keeps_state s e (read_transmit_vfo api s)"
    using assms(2,3)
    by (simp_all add: keeps_state_def read_receive_def read_mode_def read_width_def read_receive_vfo_def
        read_transmit_vfo_def io_bind_def io_return_def ranged cells holds_state_def complete_state_def)
  show "keeps_state s e (read_split api s)" "keeps_state s e (read_offset api s)"
    "has_flag s 8 \<Longrightarrow> keeps_state s e (read_companion api 22 raw_mode s)"
    "has_flag s 8 \<Longrightarrow> keeps_state s e (read_companion api 23 raw_bandwidth_hz s)"
    using assms(2)
    by (simp_all add: keeps_state_def read_split_def read_offset_def read_companion_def io_bind_def io_return_def
        get cells holds_state_def set_flag_same)
  show "keeps_state s e (read_transmit api s)"
    using assms(2,3) same low_flags(1) [OF low]
    by (simp add: keeps_state_def read_transmit_def io_bind_def io_return_def ranged cells holds_state_def
        complete_state_def)
qed

lemma effective_transmit_held: "effective_transmit (held_state shared h s) = effective_transmit s"
  by (simp add: effective_transmit_def held_state_def has_flag_def shared_offset_def)

text \<open>The last five reads: the offsets, their flags, and the power.\<close>

definition rit_state :: "bool \<Rightarrow> hamlib_operating \<Rightarrow> raw_state \<Rightarrow> raw_state" where
  "rit_state shared h s = s\<lparr>raw_rit_hz := if shared \<and> reads_field h 7 then shared_offset s else raw_rit_hz s\<rparr>"

lemma read_offsets_keep:
  assumes "register_rig api regs shared" "holds_state shared s (regs e)"
  shows "keeps_state (rit_state shared h s) e (io_update (reads_field h 7) (read_rit api) s)"
    "keeps_state (held_state shared h s) e (io_update (reads_field h 8) (read_xit api) (rit_state shared h s))"
  using assms(2)
  by (simp_all add: io_update_def read_rit_def read_xit_def io_bind_def io_return_def register_get [OF assms(1)]
      register_cell_def holds_state_def held_state_def rit_state_def keeps_state_def shared_offset_def has_flag_def)

lemma read_tail_keep:
  fixes h :: hamlib_operating
  assumes "register_rig api regs shared" "holds_state shared s (regs e)" "complete_state s"
  defines "u \<equiv> held_state shared h s"
  shows "keeps_state u e (read_enable api 307 16 u)" "keeps_state u e (read_enable api 308 32 u)"
    "keeps_state u e (read_power api u)"
proof -
  have flags: "raw_flags u = raw_flags s" "raw_power_mw u = raw_power_mw s" by (simp_all add: u_def held_state_def)
  have enable: "has_flag s f = has_flag u f" for f by (simp add: has_flag_def flags)
  show "keeps_state u e (read_enable api 307 16 u)" "keeps_state u e (read_enable api 308 32 u)"
    using assms(2) unfolding holds_state_def enable
    by (simp_all add: keeps_state_def read_enable_def io_bind_def io_return_def register_get [OF assms(1)]
        register_cell_def set_flag_same)
  obtain t where "effective_transmit u = Inr t"
    using assms(3) effective_transmit_held [of shared h s]
    by (cases "effective_transmit s") (auto simp: complete_state_def u_def)
  moreover have "raw_flags u OR 2 = raw_flags u"
    using low_flags(2) [of "raw_flags s"] assms(3) by (simp add: complete_state_def flags)
  ultimately show "keeps_state u e (read_power api u)"
    using register_power [OF assms(1)] assms(2) by (simp add: keeps_state_def holds_state_def flags [symmetric])
qed

lemma op_read_state_keeps:
  assumes "register_rig api regs shared" "holds_state shared s (regs e)" "complete_state s"
    "op_validate h s = Inr u"
  shows "op_read_state api h s e = (Inr (held_state shared h s), e)"
proof -
  have "keeps_state (held_state shared h s) e (op_read_state api h s)"
    unfolding op_read_state_def
    by ((rule keeps_bind, rule keeps_update, blast intro: read_fields_keep [OF assms])+)
       (rule keeps_bind, rule read_offsets_keep(1) [OF assms(1,2)],
        rule keeps_bind, rule read_offsets_keep(2) [OF assms(1,2)],
        rule keeps_bind, rule keeps_update, rule read_tail_keep(1) [OF assms(1-3)],
        rule keeps_bind, rule keeps_update, rule read_tail_keep(2) [OF assms(1-3)],
        rule keeps_update, rule read_tail_keep(3) [OF assms(1-3)])
  then show ?thesis by (simp add: keeps_state_def)
qed

section \<open>The properties\<close>


text \<open>A rig whose state is its registers, the offsets sharing one of them.\<close>

definition sample_rig :: "(int \<Rightarrow> int) rig_api" where
  "sample_rig =
     \<lparr>api_get = (\<lambda>k R. (0, R (register_cell True k), R)),
      api_set = (\<lambda>k v R. (0, command_effect True (WriteSetting k v) R)),
      api_set_mode_width = (\<lambda>m w R. (0, command_effect True (WriteModeWidth m w) R)),
      api_set_split_vfos = (\<lambda>r b t R. (0, command_effect True (WriteSplitVfos r b t) R)),
      api_set_split_mode_width = (\<lambda>m w R. (0, command_effect True (WriteSplitModeWidth m w) R)),
      api_set_power_mw = (\<lambda>p t m R. (0, command_effect True (WritePower p t m) R)),
      api_get_power_mw = (\<lambda>t m R. (0, R 11, R)),
      api_cancelled = (\<lambda>R. (False, R))\<rparr>"

lemma sample_rig_registers: "register_rig sample_rig (\<lambda>R. R) True"
proof -
  have "run_command sample_rig c R = (Inr (), command_effect True c R)" for c R
    by (cases c) (simp_all add: sample_rig_def rig_set_def rig_set_mode_width_def rig_set_split_vfos_def
        rig_set_split_mode_width_def rig_set_power_mw_def check_status_def)
  then show ?thesis by (auto simp: register_rig_def sample_rig_def)
qed

definition sample_operating :: hamlib_operating where
  "sample_operating =
     hamlib_operating_new
       (map (\<lambda>k. \<lparr>rig_selector = k, rig_name = [], rig_readable = True, rig_writable = True, rig_value_kind = 2,
                 rig_units = 0, rig_decimal_places = 0, rig_minimum = 0, rig_maximum = 0, rig_choices = []\<rparr>)
          [1, 2, 3, 4, 5, 6, 7, 8, 9, 10, 11, 22, 23, 307, 308])"

text \<open>Split operation with power, and the receiver's offset enabled beside one of the transmitter.\<close>

definition sample_state :: raw_state where
  "sample_state =
     (let signal = \<lparr>raw_source = 1, raw_control_source = 0, raw_enabled = 1, raw_ctcss_tenths_hz = 1000,
                    raw_dcs_code = 0, raw_inverted = 0\<rparr> in
      \<lparr>raw_receive_hz = 146520000, raw_transmit_hz = 147120000, raw_offset_hz = 0, raw_rit_hz = 100,
       raw_xit_hz = -50, raw_flags = 27, raw_mode = 1, raw_bandwidth_hz = 12000, raw_receive_vfo = 1,
       raw_transmit_vfo = 2, raw_power_mw = 5000, raw_channel = 0, raw_encode = signal, raw_decode = signal\<rparr>)"

lemma sample_hypotheses: "full_control sample_operating" "complete_state sample_state"
  "op_validate sample_operating sample_state = Inr ()"
  by code_simp+


end
