(* ===== verification/Remote_Request.thy ===== *)
theory Remote_Request
  imports Remote_Operating Remote_Queue
begin

text \<open>
  The translation of interface operands into requests of the remote engine, \<^verbatim>\<open>rust/driver/src/remote_request.rs\<close>:
  legacy parallel frames, the numbered operations with their scalar settings, and the auxiliary settings that do
  not go through the engine. The size and version words of a request are constants of the C header and are left
  out; the bits of a snapshot that the code tests by name are fields of their own.
\<close>

section \<open>Requests\<close>

datatype engine_request_kind =
    EngineSet | EngineRecall | EngineTune | EngineInhibit | EngineScanStart | EngineScanPause | EngineScanResume
  | EngineScanStop | EngineScanDirection | EngineScanSkip | EngineScanDwell | EngineScanResumeDelay
  | EngineScanPriority

record engine_request =
  req_kind :: engine_request_kind
  req_selector :: int
  req_value_ms :: int
  req_direction :: int
  req_fields :: "64 word"
  req_state :: raw_state

record engine_snapshot =
  snap_is_applied :: bool
  snap_is_pending :: bool
  snap_requested :: raw_state
  snap_applied :: raw_state

datatype prepared_operation = PreparedCore engine_request | PreparedAuxiliary int int

type_synonym 'a admission = "(remote_request_error, 'a) result"

definition invalid_request :: "remote_request_error" where "invalid_request = Rejected (-1003)"
definition unsupported_request :: "remote_request_error" where "unsupported_request = Rejected (-6)"

definition zeroed_signal :: raw_signal where
  "zeroed_signal =
     \<lparr>raw_source = 0, raw_control_source = 0, raw_enabled = 0, raw_ctcss_tenths_hz = 0, raw_dcs_code = 0,
      raw_inverted = 0\<rparr>"

definition zeroed_state :: raw_state where
  "zeroed_state =
     \<lparr>raw_receive_hz = 0, raw_transmit_hz = 0, raw_offset_hz = 0, raw_rit_hz = 0, raw_xit_hz = 0, raw_flags = 0,
      raw_mode = 0, raw_bandwidth_hz = 0, raw_receive_vfo = 0, raw_transmit_vfo = 0, raw_power_mw = 0,
      raw_channel = 0, raw_encode = zeroed_signal, raw_decode = zeroed_signal\<rparr>"

definition engine_request_new :: "engine_request_kind \<Rightarrow> raw_state \<Rightarrow> engine_request" where
  "engine_request_new kind s =
     \<lparr>req_kind = kind, req_selector = 0, req_value_ms = 0, req_direction = 0, req_fields = 0, req_state = s\<rparr>"

section \<open>Legacy parallel frames\<close>

definition parallel_signal :: "request_tone option \<Rightarrow> raw_signal \<Rightarrow> raw_signal" where
  "parallel_signal tone signal =
     (case tone of
        None \<Rightarrow> signal\<lparr>raw_enabled := 0\<rparr>
      | Some t \<Rightarrow>
          signal\<lparr>raw_enabled := 1, raw_ctcss_tenths_hz := tenths_hz_of t, raw_dcs_code := 0, raw_inverted := 0\<rparr>)"

definition parallel_base :: "engine_snapshot \<Rightarrow> raw_state" where
  "parallel_base snapshot = (if snap_is_applied snapshot then snap_applied snapshot else snap_requested snapshot)"

definition prepare_parallel_request ::
  "resolved_remote_configuration \<Rightarrow> engine_snapshot \<Rightarrow> parallel_radio_request \<Rightarrow> engine_request admission" where
  "prepare_parallel_request config snapshot input =
     (case input of
        RequestChannel channel \<Rightarrow>
          if 15 < channel then Inl invalid_request
          else
            res_bind
              (ok_or unsupported_request
                 (find (\<lambda>memory. os_channel (mem_state memory) = Some channel) (rc_memories config)))
              (\<lambda>memory. Inr ((engine_request_new EngineRecall zeroed_state)\<lparr>req_selector := mem_selector memory\<rparr>))
      | RequestConfigure radio \<Rightarrow>
          (let s = parallel_base snapshot;
               s = s\<lparr>raw_receive_hz := radio_receive_hz radio, raw_transmit_hz := radio_transmit_hz radio,
                     raw_flags := (raw_flags s AND NOT 1) OR of_bool (radio_transmit_hz radio \<noteq> 0),
                     raw_offset_hz := 0, raw_mode := 1,
                     raw_encode := parallel_signal (radio_transmit_ctcss radio) (raw_encode s),
                     raw_decode := parallel_signal (radio_receive_ctcss radio) (raw_decode s)\<rparr> in
           Inr ((engine_request_new EngineSet s)\<lparr>req_fields := 1 OR 2 OR 4 OR 64 OR 1024 OR 2048\<rparr>)))"

section \<open>Scalar settings\<close>

text \<open>The format \<open>{value:03}\<close>: the sign counts for the width.\<close>

definition format_width3 :: "int \<Rightarrow> string" where
  "format_width3 value =
     (if value < 0 then CHR ''-'' # replicate (2 - length (dec_digits (- value))) (CHR ''0'') @ dec_digits (- value)
      else pad3 (dec_digits value))"

definition set_negative :: "remote_operation \<Rightarrow> bool" where
  "set_negative op \<longleftrightarrow> flags op AND 1 \<noteq> 0"

definition scalar_digits :: "rig_setting \<Rightarrow> remote_operation \<Rightarrow> int admission" where
  "scalar_digits setting op =
     (let value = (if set_negative op then - magnitude op else magnitude op) in
      if decimal_places op \<le> rig_decimal_places setting
      then Inr (value * 10 ^ nat (rig_decimal_places setting - decimal_places op))
      else
        (let divisor = 10 ^ nat (decimal_places op - rig_decimal_places setting) in
         if value mod divisor \<noteq> 0 then Inl invalid_request else Inr (value div divisor)))"

definition scalar_code :: "rig_setting \<Rightarrow> remote_operation \<Rightarrow> int \<Rightarrow> int admission" where
  "scalar_code setting op value =
     (if rig_units setting = 3 then
        (if decimal_places op \<noteq> 0 then Inl invalid_request
         else
           (case dcs_code_from_str (format_width3 value @ ''N'') of
              None \<Rightarrow> Inl invalid_request
            | Some code \<Rightarrow> Inr (code_value code)))
      else Inr value)"

definition scalar :: "rig_setting \<Rightarrow> remote_operation \<Rightarrow> int admission" where
  "scalar setting op =
     (if \<not> rig_writable setting \<or> \<not> (1 \<le> rig_value_kind setting \<and> rig_value_kind setting \<le> 5)
      then Inl unsupported_request
      else if flags op AND NOT 1 \<noteq> 0 \<or> 6 < decimal_places op \<or> 6 < rig_decimal_places setting \<or>
              set_negative op \<and> rig_value_kind setting \<in> {1, 2, 5}
      then Inl invalid_request
      else
        res_bind (scalar_digits setting op) (\<lambda>value.
        if \<not> (- (2 ^ 63) \<le> value \<and> value < 2 ^ 63) then Inl invalid_request
        else
          res_bind (scalar_code setting op value) (\<lambda>value.
          if value < rig_minimum setting \<or> rig_maximum setting < value \<or>
             rig_choices setting \<noteq> [] \<and> value \<notin> set (rig_choices setting)
          then Inl invalid_request else Inr value)))"

section \<open>Settings of the operating state\<close>

text \<open>\<open>u64::try_from\<close> of an \<open>i64\<close>, and the narrowing to \<open>u32\<close>.\<close>

definition positive :: "int \<Rightarrow> int admission" where
  "positive value = (if 0 \<le> value then Inr value else Inl invalid_request)"

definition positive_u32 :: "int \<Rightarrow> int admission" where
  "positive_u32 value =
     res_bind (positive value) (\<lambda>v. if v < 2 ^ 32 then Inr v else Inl invalid_request)"

definition programming_source :: "raw_signal \<Rightarrow> int" where
  "programming_source signal =
     (if raw_control_source signal = 0 then raw_source signal else raw_control_source signal)"

definition signal_setting :: "int \<Rightarrow> int \<Rightarrow> raw_signal \<Rightarrow> raw_signal admission" where
  "signal_setting k value signal =
     (if k \<in> {12, 13, 14, 15} \<and> programming_source signal = 2 \<or> k \<in> {14, 15} \<and> programming_source signal = 3
      then Inl unsupported_request
      else
        res_bind (positive_u32 value) (\<lambda>v.
          Inr (if k \<in> {12, 13} then signal\<lparr>raw_ctcss_tenths_hz := v, raw_dcs_code := 0, raw_inverted := 0\<rparr>
               else if k \<in> {14, 15} then signal\<lparr>raw_dcs_code := v, raw_ctcss_tenths_hz := 0\<rparr>
               else signal\<lparr>raw_enabled := v\<rparr>)))"

definition source_setting :: "int \<Rightarrow> int \<Rightarrow> raw_signal \<Rightarrow> raw_signal admission" where
  "source_setting k value signal =
     res_bind (positive_u32 value) (\<lambda>v.
       Inr (if k \<in> {400, 401} then signal\<lparr>raw_source := v\<rparr>
            else if k = 402 then signal\<lparr>raw_control_source := v\<rparr>
            else signal\<lparr>raw_inverted := v\<rparr>))"

definition put_signal :: "bool \<Rightarrow> (raw_signal \<Rightarrow> raw_signal admission) \<Rightarrow> engine_request \<Rightarrow> engine_request admission" where
  "put_signal encode f r =
     (let s = req_state r in
      res_bind (f (if encode then raw_encode s else raw_decode s)) (\<lambda>signal.
        Inr (r\<lparr>req_state := (if encode then s\<lparr>raw_encode := signal\<rparr> else s\<lparr>raw_decode := signal\<rparr>),
               req_fields := (if encode then 1024 else 2048)\<rparr>)))"

definition put_flag :: "32 word \<Rightarrow> bool \<Rightarrow> raw_state \<Rightarrow> raw_state" where
  "put_flag f b s = s\<lparr>raw_flags := (raw_flags s AND NOT f) OR (if b then f else 0)\<rparr>"

text \<open>The match on the selector of a setting.\<close>

definition prepare_setting :: "int \<Rightarrow> int \<Rightarrow> engine_request \<Rightarrow> prepared_operation admission" where
  "prepare_setting k value r =
     (let s = req_state r;
          core = map_sum id PreparedCore;
          field = (\<lambda>n. r\<lparr>req_fields := push_bit n 1\<rparr>) in
      if k = 1 then core (res_bind (positive value) (\<lambda>v. Inr ((field 0)\<lparr>req_state := s\<lparr>raw_receive_hz := v\<rparr>\<rparr>)))
      else if k = 2 then
        core (res_bind (positive value) (\<lambda>v.
          Inr ((field 1)\<lparr>req_state := s\<lparr>raw_transmit_hz := v, raw_flags := raw_flags s OR 1\<rparr>\<rparr>)))
      else if k = 3 then core (res_bind (positive_u32 value) (\<lambda>v. Inr ((field 2)\<lparr>req_state := s\<lparr>raw_mode := v\<rparr>\<rparr>)))
      else if k = 4 then
        core (res_bind (positive_u32 value) (\<lambda>v. Inr ((field 3)\<lparr>req_state := s\<lparr>raw_bandwidth_hz := v\<rparr>\<rparr>)))
      else if k = 5 then
        core (res_bind (positive_u32 value) (\<lambda>v. Inr ((field 4)\<lparr>req_state := s\<lparr>raw_receive_vfo := v\<rparr>\<rparr>)))
      else if k = 6 then
        core (res_bind (positive_u32 value) (\<lambda>v. Inr ((field 5)\<lparr>req_state := s\<lparr>raw_transmit_vfo := v\<rparr>\<rparr>)))
      else if k = 7 then core (Inr ((field 13)\<lparr>req_state := put_flag 8 (value \<noteq> 0) s\<rparr>))
      else if k = 20 then Inl unsupported_request
      else if k = 8 then core (Inr ((field 6)\<lparr>req_state := s\<lparr>raw_offset_hz := value\<rparr>\<rparr>))
      else if k = 9 then core (Inr ((field 7)\<lparr>req_state := s\<lparr>raw_rit_hz := value\<rparr>\<rparr>))
      else if k = 10 then core (Inr ((field 8)\<lparr>req_state := s\<lparr>raw_xit_hz := value\<rparr>\<rparr>))
      else if k = 307 then core (Inr ((field 14)\<lparr>req_state := put_flag 16 (value \<noteq> 0) s\<rparr>))
      else if k = 308 then core (Inr ((field 15)\<lparr>req_state := put_flag 32 (value \<noteq> 0) s\<rparr>))
      else if k = 22 \<or> k = 23 then Inl unsupported_request
      else if k = 11 then
        core (res_bind (positive_u32 value) (\<lambda>v.
          Inr ((field 9)\<lparr>req_state := s\<lparr>raw_power_mw := v, raw_flags := raw_flags s OR 2\<rparr>\<rparr>)))
      else if 12 \<le> k \<and> k \<le> 17 then core (put_signal (k \<in> {12, 14, 16}) (signal_setting k value) r)
      else if 400 \<le> k \<and> k \<le> 404 then core (put_signal (k \<in> {400, 403}) (source_setting k value) r)
      else Inr (PreparedAuxiliary k value))"

section \<open>Operations\<close>

definition operation_request :: "engine_snapshot \<Rightarrow> remote_operation \<Rightarrow> engine_request" where
  "operation_request current op =
     (engine_request_new EngineSet (snap_applied current))\<lparr>req_selector := selector op, req_value_ms := magnitude op\<rparr>"

definition offset_magnitude :: "resolved_remote_configuration \<Rightarrow> int admission" where
  "offset_magnitude config =
     res_bind (ok_or unsupported_request (rc_offset_magnitude_hz config)) (\<lambda>value.
       if value < 2 ^ 63 then Inr value else Inl invalid_request)"

definition prepare_frequency ::
  "resolved_remote_configuration \<Rightarrow> remote_operation \<Rightarrow> engine_request \<Rightarrow> engine_request admission" where
  "prepare_frequency config op r =
     res_bind
       (if flags op = 1 then map_sum id uminus (offset_magnitude config)
        else if flags op = 2 then Inr 0
        else if flags op = 3 then offset_magnitude config
        else Inl invalid_request)
       (\<lambda>offset.
          let s = (req_state r)\<lparr>raw_offset_hz := offset, raw_receive_hz := magnitude op\<rparr>;
              s = (if has_flag s 1 then s\<lparr>raw_transmit_hz := magnitude op\<rparr> else s);
              s = s\<lparr>raw_flags := raw_flags s AND NOT 8\<rparr> in
          Inr (r\<lparr>req_state := s, req_fields := 1 OR 2 OR 64 OR push_bit 13 1\<rparr>))"

definition shifted :: "remote_operation \<Rightarrow> int \<Rightarrow> int admission" where
  "shifted op value =
     (if 0 \<le> value + signed_value op \<and> value + signed_value op < 2 ^ 64
      then Inr (value + signed_value op) else Inl invalid_request)"

definition prepare_step :: "remote_operation \<Rightarrow> engine_request \<Rightarrow> engine_request admission" where
  "prepare_step op r =
     res_bind (shifted op (raw_receive_hz (req_state r))) (\<lambda>receive.
       let s = (req_state r)\<lparr>raw_receive_hz := receive\<rparr> in
       if has_flag s 1 then
         res_bind (shifted op (raw_transmit_hz s)) (\<lambda>transmit.
           Inr (r\<lparr>req_state := s\<lparr>raw_transmit_hz := transmit\<rparr>, req_fields := 1 OR 2\<rparr>))
       else Inr (r\<lparr>req_state := s, req_fields := 1\<rparr>))"

text \<open>\<open>get(index).copied().flatten()\<close> of the configured presets.\<close>

definition preset :: "int option list \<Rightarrow> int \<Rightarrow> int admission" where
  "preset xs k =
     ok_or unsupported_request (if nat k < length xs then xs ! nat k else None)"

definition prepare_power :: "resolved_remote_configuration \<Rightarrow> remote_operation \<Rightarrow> engine_request \<Rightarrow> engine_request admission" where
  "prepare_power config op r =
     res_bind (preset (rc_power_presets_mw config) (selector op)) (\<lambda>milliwatts.
       let s = req_state r in
       Inr (r\<lparr>req_state := s\<lparr>raw_power_mw := milliwatts, raw_flags := raw_flags s OR 2\<rparr>, req_fields := push_bit 9 1\<rparr>))"

definition tone_change :: "bool \<Rightarrow> remote_operation \<Rightarrow> raw_signal \<Rightarrow> raw_signal admission" where
  "tone_change tone op signal =
     (if tone then
        (if programming_source signal = 2 then Inl unsupported_request
         else if \<not> (500 \<le> magnitude op \<and> magnitude op \<le> 3000) then Inl invalid_request
         else Inr (signal\<lparr>raw_ctcss_tenths_hz := magnitude op, raw_dcs_code := 0, raw_inverted := 0\<rparr>))
      else Inr (signal\<lparr>raw_enabled := of_bool (flags op AND 2 \<noteq> 0)\<rparr>))"

definition prepare_tone :: "bool \<Rightarrow> remote_operation \<Rightarrow> engine_request \<Rightarrow> engine_request admission" where
  "prepare_tone tone op r =
     (if flags op AND NOT 3 \<noteq> 0 then Inl invalid_request
      else put_signal (flags op AND 1 \<noteq> 0) (tone_change tone op) r)"

definition prepare_scan_preset ::
  "resolved_remote_configuration \<Rightarrow> int option \<Rightarrow> remote_operation \<Rightarrow> engine_request \<Rightarrow> engine_request admission" where
  "prepare_scan_preset config scan op r =
     res_bind (ok_or unsupported_request scan) (\<lambda>scan_list.
     res_bind (preset (rc_scan_presets_ms config) (selector op)) (\<lambda>value_ms.
       Inr (r\<lparr>req_kind := EngineScanStart, req_direction := flags op AND 1, req_selector := scan_list,
              req_value_ms := value_ms\<rparr>)))"

text \<open>The list of the current scan is the only field of the scan snapshot that is used.\<close>

definition prepare_remote_operation ::
  "resolved_remote_configuration \<Rightarrow> engine_snapshot \<Rightarrow> int option \<Rightarrow> rig_setting list \<Rightarrow> remote_operation \<Rightarrow>
   prepared_operation admission" where
  "prepare_remote_operation config current scan settings op =
     res_bind (ok_or invalid_request (operation_kind op)) (\<lambda>kind.
     let r = operation_request current op;
         core = map_sum id PreparedCore;
         simple = (\<lambda>k. Inr (PreparedCore (r\<lparr>req_kind := k\<rparr>))) in
     case kind of
       Recall \<Rightarrow> simple EngineRecall
     | Frequency \<Rightarrow> core (prepare_frequency config op r)
     | Mode \<Rightarrow>
         core (Inr (r\<lparr>req_state := (req_state r)\<lparr>raw_mode := selector op, raw_bandwidth_hz := 0\<rparr>, req_fields := 12\<rparr>))
     | Step \<Rightarrow> core (prepare_step op r)
     | PowerPreset \<Rightarrow> core (prepare_power config op r)
     | Tone \<Rightarrow> core (prepare_tone True op r)
     | ToneEnabled \<Rightarrow> core (prepare_tone False op r)
     | StartScan \<Rightarrow> core (Inr (r\<lparr>req_kind := EngineScanStart, req_direction := 1\<rparr>))
     | ScanPreset \<Rightarrow> core (prepare_scan_preset config scan op r)
     | PauseScan \<Rightarrow> simple EngineScanPause
     | ResumeScan \<Rightarrow> simple EngineScanResume
     | StopScan \<Rightarrow> simple EngineScanStop
     | ScanDirection \<Rightarrow>
         (if 1 < flags op then Inl invalid_request
          else core (Inr (r\<lparr>req_kind := EngineScanDirection, req_direction := flags op\<rparr>)))
     | Skip \<Rightarrow> simple EngineScanSkip
     | Dwell \<Rightarrow> simple EngineScanDwell
     | ResumeDelay \<Rightarrow> simple EngineScanResumeDelay
     | Priority \<Rightarrow> simple EngineScanPriority
     | Inhibit \<Rightarrow>
         (if 1 < flags op then Inl invalid_request
          else core (Inr (r\<lparr>req_kind := EngineInhibit, req_selector := flags op\<rparr>)))
     | Tune \<Rightarrow> core (Inr (r\<lparr>req_kind := EngineTune, req_value_ms := rc_tune_duration_ms config\<rparr>))
     | SetSetting \<Rightarrow>
         res_bind (ok_or unsupported_request (find (\<lambda>s. rig_selector s = selector op) settings)) (\<lambda>setting.
         res_bind (scalar setting op) (\<lambda>value. prepare_setting (selector op) value r))
     | _ \<Rightarrow> Inl unsupported_request)"

end
