(* ===== verification/Remote_Request_Safety.thy ===== *)
theory Remote_Request_Safety
  imports Remote_Request
begin

text \<open>
  What the translation of remote operations guarantees: an engine request changes exactly what it declares, the
  auxiliary path never reaches a setting of the operating state, and a scalar is accepted if and only if it is an
  exact value of the setting within its limits.
\<close>

section \<open>Declared changes\<close>

definition declared_flags :: "64 word \<Rightarrow> 32 word" where
  "declared_flags f =
     (if f AND 2 \<noteq> 0 then 1 else 0) OR (if f AND 512 \<noteq> 0 then 2 else 0) OR
     (if f AND 8192 \<noteq> 0 then 8 else 0) OR (if f AND 16384 \<noteq> 0 then 16 else 0) OR
     (if f AND 32768 \<noteq> 0 then 32 else 0)"

text \<open>The states agree in every field, signal and flag that the field bits do not name.\<close>

definition changes_within :: "64 word \<Rightarrow> raw_state \<Rightarrow> raw_state \<Rightarrow> bool" where
  "changes_within f s b \<longleftrightarrow>
     (f AND 1 = 0 \<longrightarrow> raw_receive_hz s = raw_receive_hz b) \<and>
     (f AND 2 = 0 \<longrightarrow> raw_transmit_hz s = raw_transmit_hz b) \<and>
     (f AND 4 = 0 \<longrightarrow> raw_mode s = raw_mode b) \<and>
     (f AND 8 = 0 \<longrightarrow> raw_bandwidth_hz s = raw_bandwidth_hz b) \<and>
     (f AND 16 = 0 \<longrightarrow> raw_receive_vfo s = raw_receive_vfo b) \<and>
     (f AND 32 = 0 \<longrightarrow> raw_transmit_vfo s = raw_transmit_vfo b) \<and>
     (f AND 64 = 0 \<longrightarrow> raw_offset_hz s = raw_offset_hz b) \<and>
     (f AND 128 = 0 \<longrightarrow> raw_rit_hz s = raw_rit_hz b) \<and>
     (f AND 256 = 0 \<longrightarrow> raw_xit_hz s = raw_xit_hz b) \<and>
     (f AND 512 = 0 \<longrightarrow> raw_power_mw s = raw_power_mw b) \<and>
     (f AND 1024 = 0 \<longrightarrow> raw_encode s = raw_encode b) \<and>
     (f AND 2048 = 0 \<longrightarrow> raw_decode s = raw_decode b) \<and>
     raw_channel s = raw_channel b \<and>
     raw_flags s AND NOT (declared_flags f) = raw_flags b AND NOT (declared_flags f)"

definition request_declares :: "engine_request \<Rightarrow> raw_state \<Rightarrow> bool" where
  "request_declares r b \<longleftrightarrow>
     changes_within (req_fields r) (req_state r) b \<and> (req_kind r \<noteq> EngineSet \<longrightarrow> req_fields r = 0 \<and> req_state r = b)"

definition admission_error :: "remote_request_error \<Rightarrow> bool" where
  "admission_error e \<longleftrightarrow> e = invalid_request \<or> e = unsupported_request"

text \<open>An outcome of the preparation of an engine request for the state \<open>b\<close>.\<close>

definition declared_outcome :: "raw_state \<Rightarrow> engine_request admission \<Rightarrow> bool" where
  "declared_outcome b x \<longleftrightarrow> (case x of Inl e \<Rightarrow> admission_error e | Inr r \<Rightarrow> request_declares r b)"

lemma admission_errors [simp]: "admission_error invalid_request" "admission_error unsupported_request"
  by (simp_all add: admission_error_def)

named_theorems declared_intros \<open>outcomes that declare their changes\<close>

lemma declared_error [declared_intros]: "admission_error e \<Longrightarrow> declared_outcome b (Inl e)"
  by (simp add: declared_outcome_def)

lemma declared_ok [declared_intros]: "request_declares r b \<Longrightarrow> declared_outcome b (Inr r)"
  by (simp add: declared_outcome_def)

lemma declared_bind:
  "(\<And>e. x = Inl e \<Longrightarrow> admission_error e) \<Longrightarrow> (\<And>a. x = Inr a \<Longrightarrow> declared_outcome b (f a)) \<Longrightarrow>
   declared_outcome b (res_bind x f)"
  by (cases x) (simp_all add: declared_outcome_def)

lemma masked_flags:
  fixes x f m :: "32 word"
  assumes "f AND NOT m = 0"
  shows "(x AND NOT f OR (if b then f else 0)) AND NOT m = x AND NOT m" "(x OR f) AND NOT m = x AND NOT m"
    "(x AND NOT f) AND NOT m = x AND NOT m"
  using assms by (auto simp: bit_eq_iff bit_simps)

lemma flag_masks:
  fixes x :: "32 word"
  shows "(x AND - 9) AND - 10 = x AND - 10" "(x OR 1) AND - 2 = x AND - 2" "(x OR 2) AND - 3 = x AND - 3"
    "(x AND - 2 OR 1) AND - 2 = x AND - 2"
  using masked_flags(1) [of 1 1 x True] masked_flags(3) [of 1 1 x] masked_flags(3) [of 8 9 x] masked_flags(2) [of 1 1 x] masked_flags(2) [of 2 2 x] by simp_all

lemma put_flag_masks:
  fixes x :: "32 word"
  shows "(x AND - 9 OR (if c then 8 else 0)) AND - 9 = x AND - 9"
    "(x AND - 17 OR (if c then 16 else 0)) AND - 17 = x AND - 17"
    "(x AND - 33 OR (if c then 32 else 0)) AND - 33 = x AND - 33"
  using masked_flags(1) [of 8 8 x c] masked_flags(1) [of 16 16 x c] masked_flags(1) [of 32 32 x c] by simp_all

lemma positive_error: "positive v = Inl e \<Longrightarrow> admission_error e"
  by (simp add: positive_def split: if_splits)

lemma positive_u32_error: "positive_u32 v = Inl e \<Longrightarrow> admission_error e"
  using positive_error by (auto simp: positive_u32_def res_simps split: if_splits)

lemma ok_or_error: "ok_or unsupported_request x = Inl e \<Longrightarrow> admission_error e"
  "ok_or invalid_request x = Inl e \<Longrightarrow> admission_error e"
  by (auto simp: ok_or_def split: option.splits)

lemma scalar_error: "scalar setting op = Inl e \<Longrightarrow> admission_error e"
  by (auto simp: scalar_def scalar_digits_def scalar_code_def res_simps Let_def split: if_splits option.splits)

lemma declares_new: "request_declares (operation_request current op) (snap_applied current)"
  by (simp add: request_declares_def operation_request_def engine_request_new_def changes_within_def)

lemma fresh_request: "req_kind (operation_request current op) = EngineSet"
  "req_state (operation_request current op) = snap_applied current" "req_fields (operation_request current op) = 0"
  by (simp_all add: operation_request_def engine_request_new_def)

lemma signal_setting_error: "signal_setting k v s = Inl e \<Longrightarrow> admission_error e"
  using positive_u32_error by (auto simp: signal_setting_def res_simps split: if_splits)

lemma source_setting_error: "source_setting k v s = Inl e \<Longrightarrow> admission_error e"
  using positive_u32_error by (auto simp: source_setting_def res_simps)

lemma tone_change_error: "tone_change t op s = Inl e \<Longrightarrow> admission_error e"
  by (auto simp: tone_change_def split: if_splits)

lemma put_signal_declares:
  assumes "req_kind r = EngineSet" "\<And>e s. f s = Inl e \<Longrightarrow> admission_error e"
  shows "declared_outcome (req_state r) (put_signal encode f r)"
  unfolding put_signal_def Let_def
  by (intro declared_bind declared_intros)
     (auto simp: assms request_declares_def changes_within_def)

text \<open>The settings that are part of the operating state, and the transmit key.\<close>

definition operating_settings :: "int list" where
  "operating_settings =
     [1, 2, 3, 4, 5, 6, 7, 8, 9, 10, 11, 12, 13, 14, 15, 16, 17, 20, 22, 23, 307, 308, 400, 401, 402, 403, 404]"

definition setting_outcome :: "raw_state \<Rightarrow> int \<Rightarrow> int \<Rightarrow> prepared_operation admission \<Rightarrow> bool" where
  "setting_outcome b k v x \<longleftrightarrow>
     (case x of
        Inl e \<Rightarrow> admission_error e
      | Inr (PreparedCore r) \<Rightarrow> request_declares r b
      | Inr (PreparedAuxiliary j w) \<Rightarrow> j = k \<and> w = v \<and> k \<notin> set operating_settings)"

lemma setting_core: "declared_outcome b x \<Longrightarrow> setting_outcome b k v (map_sum id PreparedCore x)"
  by (cases x) (simp_all add: declared_outcome_def setting_outcome_def)

lemma setting_request: "setting_outcome b k v (Inr (PreparedCore r)) \<longleftrightarrow> request_declares r b"
  by (simp add: setting_outcome_def)

lemma setting_refused: "admission_error e \<Longrightarrow> setting_outcome b k v (Inl e)"
  by (simp add: setting_outcome_def)

lemma setting_auxiliary: "k \<notin> set operating_settings \<Longrightarrow> setting_outcome b k v (Inr (PreparedAuxiliary k v))"
  by (simp add: setting_outcome_def)

lemma prepare_setting_other:
  assumes "k \<notin> set operating_settings"
  shows "prepare_setting k v r = Inr (PreparedAuxiliary k v)"
proof -
  have other: "k \<noteq> 1" "k \<noteq> 2" "k \<noteq> 3" "k \<noteq> 4" "k \<noteq> 5" "k \<noteq> 6" "k \<noteq> 7" "k \<noteq> 20" "k \<noteq> 8" "k \<noteq> 9" "k \<noteq> 10"
    "k \<noteq> 307" "k \<noteq> 308" "k \<noteq> 22" "k \<noteq> 23" "k \<noteq> 11"
    using assms unfolding operating_settings_def by fastforce+
  have "12 \<le> k \<and> k \<le> 17 \<Longrightarrow> k = 12 \<or> k = 13 \<or> k = 14 \<or> k = 15 \<or> k = 16 \<or> k = 17"
    "400 \<le> k \<and> k \<le> 404 \<Longrightarrow> k = 400 \<or> k = 401 \<or> k = 402 \<or> k = 403 \<or> k = 404"
    by presburger+
  then have "\<not> (12 \<le> k \<and> k \<le> 17)" "\<not> (400 \<le> k \<and> k \<le> 404)"
    using assms unfolding operating_settings_def by fastforce+
  then show ?thesis unfolding prepare_setting_def Let_def by (simp only: other if_False simp_thms)
qed

lemma put_flag_fields:
  "raw_receive_hz (put_flag f c s) = raw_receive_hz s" "raw_transmit_hz (put_flag f c s) = raw_transmit_hz s"
  "raw_mode (put_flag f c s) = raw_mode s" "raw_bandwidth_hz (put_flag f c s) = raw_bandwidth_hz s"
  "raw_receive_vfo (put_flag f c s) = raw_receive_vfo s" "raw_transmit_vfo (put_flag f c s) = raw_transmit_vfo s"
  "raw_offset_hz (put_flag f c s) = raw_offset_hz s" "raw_rit_hz (put_flag f c s) = raw_rit_hz s"
  "raw_xit_hz (put_flag f c s) = raw_xit_hz s" "raw_power_mw (put_flag f c s) = raw_power_mw s"
  "raw_encode (put_flag f c s) = raw_encode s" "raw_decode (put_flag f c s) = raw_decode s"
  "raw_channel (put_flag f c s) = raw_channel s"
  "raw_flags (put_flag f c s) = raw_flags s AND NOT f OR (if c then f else 0)"
  by (simp_all add: put_flag_def)

lemma prepare_setting_outcome:
  assumes "req_kind r = EngineSet"
  shows "setting_outcome (req_state r) k v (prepare_setting k v r)"
proof -
  have declares: "declared_outcome (req_state r) (Inr (r\<lparr>req_fields := f, req_state := s\<rparr>))"
    if "changes_within f s (req_state r)" for f s
    using that assms by (simp add: declared_outcome_def request_declares_def)
  have plain: "declared_outcome (req_state r) (res_bind (positive v) (\<lambda>w. Inr (r\<lparr>req_fields := f, req_state := g w\<rparr>)))"
    "declared_outcome (req_state r) (res_bind (positive_u32 v) (\<lambda>w. Inr (r\<lparr>req_fields := f, req_state := g w\<rparr>)))"
    if "\<And>w. changes_within f (g w) (req_state r)" for f g
    using that by (auto intro!: declared_bind declares intro: positive_error positive_u32_error)
  show ?thesis
  proof (cases "k \<in> set operating_settings")
    case True
    then have known: "k = 1 \<or> k = 2 \<or> k = 3 \<or> k = 4 \<or> k = 5 \<or> k = 6 \<or> k = 7 \<or> k = 8 \<or> k = 9 \<or> k = 10 \<or> k = 11 \<or>
      k = 12 \<or> k = 13 \<or> k = 14 \<or> k = 15 \<or> k = 16 \<or> k = 17 \<or> k = 20 \<or> k = 22 \<or> k = 23 \<or> k = 307 \<or> k = 308 \<or>
      k = 400 \<or> k = 401 \<or> k = 402 \<or> k = 403 \<or> k = 404"
      by (simp only: operating_settings_def list.set insert_iff empty_iff simp_thms)
    show ?thesis
      using known
      by (elim disjE)
         (simp_all add: prepare_setting_def Let_def setting_core setting_request setting_refused plain
           put_signal_declares assms signal_setting_error source_setting_error request_declares_def
           changes_within_def declared_flags_def put_flag_fields put_flag_masks flag_masks)
  next
    case False
    then have "prepare_setting k v r = Inr (PreparedAuxiliary k v)" by (rule prepare_setting_other)
    then show ?thesis using setting_auxiliary [OF False] by simp
  qed
qed

section \<open>Every operation\<close>

lemma offset_magnitude_error: "offset_magnitude config = Inl e \<Longrightarrow> admission_error e"
  using ok_or_error by (auto simp: offset_magnitude_def res_simps split: if_splits)

lemma declared_state:
  "req_kind r = EngineSet \<Longrightarrow> changes_within f s (req_state r) \<Longrightarrow>
   declared_outcome (req_state r) (Inr (r\<lparr>req_state := s, req_fields := f\<rparr>))"
  by (simp add: declared_outcome_def request_declares_def)

lemma prepare_frequency_declares:
  assumes "req_kind r = EngineSet"
  shows "declared_outcome (req_state r) (prepare_frequency config op r)"
proof -
  have "admission_error e"
    if "(if flags op = 1 then map_sum id uminus (offset_magnitude config) else if flags op = 2 then Inr 0
         else if flags op = 3 then offset_magnitude config else Inl invalid_request) = Inl e" for e
    using that offset_magnitude_error [of config]
    by (cases "offset_magnitude config") (auto split: if_splits)
  then show ?thesis
    unfolding prepare_frequency_def Let_def
    by (intro declared_bind declared_state assms)
       (auto simp: changes_within_def declared_flags_def flag_masks)
qed

lemma shifted_error: "shifted op v = Inl e \<Longrightarrow> admission_error e"
  by (simp add: shifted_def split: if_splits)

lemma declared_if: "declared_outcome b x \<Longrightarrow> declared_outcome b y \<Longrightarrow> declared_outcome b (if c then x else y)"
  by simp

lemma prepare_step_declares:
  assumes "req_kind r = EngineSet"
  shows "declared_outcome (req_state r) (prepare_step op r)"
  unfolding prepare_step_def Let_def
  by (intro declared_bind declared_if declared_state assms, erule shifted_error, erule shifted_error)
     (simp_all add: changes_within_def declared_flags_def)

lemma preset_error: "preset xs k = Inl e \<Longrightarrow> admission_error e"
  unfolding preset_def by (erule ok_or_error)

lemma prepare_power_declares:
  assumes "req_kind r = EngineSet"
  shows "declared_outcome (req_state r) (prepare_power config op r)"
  unfolding prepare_power_def Let_def
  by (intro declared_bind declared_state assms, erule preset_error)
     (simp add: changes_within_def declared_flags_def flag_masks)

lemma prepare_tone_declares:
  assumes "req_kind r = EngineSet"
  shows "declared_outcome (req_state r) (prepare_tone t op r)"
  using put_signal_declares [OF assms tone_change_error] by (simp add: prepare_tone_def declared_outcome_def)

lemma prepare_scan_declares:
  assumes "req_fields r = 0"
  shows "declared_outcome (req_state r) (prepare_scan_preset config scan op r)"
  unfolding prepare_scan_preset_def
  by (intro declared_bind declared_ok, erule ok_or_error, erule preset_error)
     (simp add: assms request_declares_def changes_within_def)

text \<open>The outcome of one operation: a refusal, a request that declares its changes, or an auxiliary write.\<close>

definition operation_outcome ::
  "engine_snapshot \<Rightarrow> rig_setting list \<Rightarrow> remote_operation \<Rightarrow> prepared_operation admission \<Rightarrow> bool" where
  "operation_outcome current settings op x \<longleftrightarrow>
     (case x of
        Inl e \<Rightarrow> admission_error e
      | Inr (PreparedCore r) \<Rightarrow> request_declares r (snap_applied current)
      | Inr (PreparedAuxiliary k v) \<Rightarrow>
          operation_kind op = Some SetSetting \<and> k = selector op \<and> k \<notin> set operating_settings \<and>
          (case find (\<lambda>s. rig_selector s = k) settings of
             None \<Rightarrow> False | Some setting \<Rightarrow> scalar setting op = Inr v))"

lemma operation_core:
  "declared_outcome (snap_applied current) x \<Longrightarrow> operation_outcome current settings op (map_sum id PreparedCore x)"
  by (cases x) (simp_all add: declared_outcome_def operation_outcome_def)

lemma operation_refused: "admission_error e \<Longrightarrow> operation_outcome current settings op (Inl e)"
  by (simp add: operation_outcome_def)

lemma operation_setting:
  assumes "operation_kind op = Some SetSetting"
  shows "operation_outcome current settings op
    (res_bind (ok_or unsupported_request (find (\<lambda>s. rig_selector s = selector op) settings)) (\<lambda>setting.
     res_bind (scalar setting op) (\<lambda>value. prepare_setting (selector op) value (operation_request current op))))"
proof (cases "find (\<lambda>s. rig_selector s = selector op) settings")
  case None
  then show ?thesis by (simp add: ok_or_def operation_refused)
next
  case (Some setting)
  show ?thesis
  proof (cases "scalar setting op")
    case (Inl e)
    then show ?thesis using Some scalar_error [OF Inl] by (simp add: ok_or_def operation_refused)
  next
    case (Inr v)
    have "setting_outcome (snap_applied current) (selector op) v
        (prepare_setting (selector op) v (operation_request current op))"
      using prepare_setting_outcome [of "operation_request current op" "selector op" v]
      by (simp add: fresh_request)
    then show ?thesis
      using Some Inr assms
      by (auto simp: ok_or_def setting_outcome_def operation_outcome_def split: sum.splits prepared_operation.splits)
  qed
qed

lemma simple_request: "operation_outcome current settings op (Inr (PreparedCore ((operation_request current op)\<lparr>req_kind := k\<rparr>)))"
  using declares_new [of current op] by (simp add: operation_outcome_def request_declares_def fresh_request)

lemma declared_simple:
  "declared_outcome (snap_applied current) (Inr ((operation_request current op)\<lparr>req_kind := k, req_direction := d\<rparr>))"
  "declared_outcome (snap_applied current) (Inr ((operation_request current op)\<lparr>req_kind := k, req_selector := d\<rparr>))"
  "declared_outcome (snap_applied current) (Inr ((operation_request current op)\<lparr>req_kind := k, req_value_ms := d\<rparr>))"
  using declares_new [of current op]
  by (simp_all add: declared_outcome_def request_declares_def fresh_request)

lemma declared_mode:
  "declared_outcome (snap_applied current)
     (Inr ((operation_request current op)\<lparr>req_state := (snap_applied current)\<lparr>raw_mode := m, raw_bandwidth_hz := w\<rparr>,
        req_fields := 12\<rparr>))"
  by (simp add: declared_outcome_def request_declares_def fresh_request changes_within_def declared_flags_def)

lemma prepare_remote_operation_outcome:
  "operation_outcome current settings op (prepare_remote_operation config current scan settings op)"
proof (cases "operation_kind op")
  case None
  then show ?thesis by (simp add: prepare_remote_operation_def ok_or_def operation_refused)
next
  case (Some kind)
  let ?r = "operation_request current op"
  note parts = prepare_frequency_declares [of ?r] prepare_step_declares [of ?r] prepare_power_declares [of ?r]
    prepare_tone_declares [of ?r] prepare_scan_declares [of ?r]
  show ?thesis
    using parts operation_setting [of op current settings] Some
    by (cases kind)
       (simp_all add: prepare_remote_operation_def ok_or_def Let_def fresh_request operation_refused operation_core
         simple_request declared_simple declared_mode del: map_sum.simps)
qed

lemma parallel_declares:
  "case prepare_parallel_request config snapshot input of
     Inl e \<Rightarrow> admission_error e
   | Inr r \<Rightarrow> req_kind r = EngineSet \<and> changes_within (req_fields r) (req_state r) (parallel_base snapshot) \<or>
       req_kind r = EngineRecall \<and> req_selector r \<in> mem_selector ` set (rc_memories config)"
  by (auto simp: prepare_parallel_request_def engine_request_new_def changes_within_def declared_flags_def Let_def
      flag_masks ok_or_def find_Some_iff split: parallel_radio_request.split option.split)

text \<open>C23: Every remote operation is refused as invalid or unsupported, or becomes an engine request whose
  field bits name every field, signal and flag in which its state differs from the applied one (no field for any
  request other than a change of the state), or becomes a write to one declared auxiliary setting with a value
  admitted for it; frequency, mode, power, signaling, routing and the transmit key never take that path.
\<close>

theorem operation_declares_changes:
  "case prepare_remote_operation config current scan settings op of
     Inl e \<Rightarrow> e = invalid_request \<or> e = unsupported_request
   | Inr (PreparedCore r) \<Rightarrow> request_declares r (snap_applied current)
   | Inr (PreparedAuxiliary k v) \<Rightarrow>
       operation_kind op = Some SetSetting \<and> k = selector op \<and> k \<notin> set operating_settings \<and>
       (case find (\<lambda>s. rig_selector s = k) settings of
          None \<Rightarrow> False | Some setting \<Rightarrow> scalar setting op = Inr v)"
  using prepare_remote_operation_outcome [of current settings op config scan]
  unfolding operation_outcome_def admission_error_def .

section \<open>Exact scalars\<close>

text \<open>Three printed octal digits as a number; the keypad enters a DCS code that way.\<close>

definition octal_reading :: "int \<Rightarrow> int option" where
  "octal_reading n =
     (let a = n div 100; b = n div 10 mod 10; c = n mod 10 in
      if 0 \<le> n \<and> n < 1000 \<and> a < 8 \<and> b < 8 \<and> c < 8 then Some (a * 64 + b * 8 + c) else None)"

text \<open>The number \<open>u\<close> in units of the setting that the operands denote exactly.\<close>

definition operands_denote :: "rig_setting \<Rightarrow> remote_operation \<Rightarrow> int \<Rightarrow> bool" where
  "operands_denote setting op u \<longleftrightarrow>
     u * 10 ^ nat (decimal_places op) =
       (if set_negative op then - magnitude op else magnitude op) * 10 ^ nat (rig_decimal_places setting)"

definition scalar_means :: "rig_setting \<Rightarrow> remote_operation \<Rightarrow> int \<Rightarrow> bool" where
  "scalar_means setting op v \<longleftrightarrow>
     (\<exists>u. operands_denote setting op u \<and> - (2 ^ 63) \<le> u \<and> u < 2 ^ 63 \<and>
        (if rig_units setting = 3 then decimal_places op = 0 \<and> octal_reading u = Some v else v = u))"

definition scalar_admitted :: "rig_setting \<Rightarrow> remote_operation \<Rightarrow> int \<Rightarrow> bool" where
  "scalar_admitted setting op v \<longleftrightarrow>
     rig_writable setting \<and> 1 \<le> rig_value_kind setting \<and> rig_value_kind setting \<le> 5 \<and>
     flags op AND NOT 1 = 0 \<and> decimal_places op \<le> 6 \<and> rig_decimal_places setting \<le> 6 \<and>
     \<not> (set_negative op \<and> rig_value_kind setting \<in> {1, 2, 5}) \<and>
     rig_minimum setting \<le> v \<and> v \<le> rig_maximum setting \<and>
     (rig_choices setting = [] \<or> v \<in> set (rig_choices setting))"

lemma scalar_digits_exact:
  assumes "0 \<le> decimal_places op" "0 \<le> rig_decimal_places setting"
  shows "scalar_digits setting op = Inr u \<longleftrightarrow> operands_denote setting op u"
proof -
  let ?v = "if set_negative op then - magnitude op else magnitude op"
  let ?d = "nat (decimal_places op)" and ?s = "nat (rig_decimal_places setting)"
  show ?thesis
  proof (cases "decimal_places op \<le> rig_decimal_places setting")
    case True
    then have e: "nat (rig_decimal_places setting - decimal_places op) = ?s - ?d" "?d \<le> ?s" using assms by auto
    then have p: "(10::int) ^ ?s = 10 ^ (?s - ?d) * 10 ^ ?d" by (simp only: power_add [symmetric] le_add_diff_inverse2)
    have denote: "operands_denote setting op u \<longleftrightarrow> u = ?v * 10 ^ (?s - ?d)"
      unfolding operands_denote_def p mult.assoc [symmetric] mult_cancel_right by simp
    have "scalar_digits setting op = Inr (?v * 10 ^ (?s - ?d))"
      unfolding scalar_digits_def Let_def e(1) [symmetric] using True by (simp only: if_True)
    then show ?thesis unfolding denote by (simp only: sum.inject) (rule eq_commute)
  next
    case False
    then have e: "nat (decimal_places op - rig_decimal_places setting) = ?d - ?s" "?s \<le> ?d" using assms by auto
    then have p: "(10::int) ^ ?d = 10 ^ (?d - ?s) * 10 ^ ?s" by (simp only: power_add [symmetric] le_add_diff_inverse2)
    have denote: "operands_denote setting op u \<longleftrightarrow> u * 10 ^ (?d - ?s) = ?v"
      unfolding operands_denote_def p mult.assoc [symmetric] mult_cancel_right by simp
    have exact: "u * m = v \<longleftrightarrow> v mod m = 0 \<and> v div m = u" if "0 < m" for m v :: int
      using that by auto
    have "scalar_digits setting op = Inr u \<longleftrightarrow> ?v mod 10 ^ (?d - ?s) = 0 \<and> ?v div 10 ^ (?d - ?s) = u"
      unfolding scalar_digits_def Let_def e(1) [symmetric] using False by (simp only: if_False) simp
    also have "\<dots> \<longleftrightarrow> operands_denote setting op u"
      unfolding denote by (rule exact [symmetric]) simp
    finally show ?thesis .
  qed
qed

lemma digit_char_facts:
  assumes "0 \<le> d" "d < 10"
  shows "is_octal (digit_char d) \<longleftrightarrow> d < 8" "digit_value (digit_char d) = d" "digit_char 0 = CHR ''0''"
proof -
  have "digit_char 0 = CHR ''0'' \<and> list_all (\<lambda>d. (is_octal (digit_char d) \<longleftrightarrow> d < 8) \<and> digit_value (digit_char d) = d) [0, 1, 2, 3, 4, 5, 6, 7, 8, 9]"
    by code_simp
  moreover have "d \<in> set [0, 1, 2, 3, 4, 5, 6, 7, 8, 9]" using assms by auto presburger
  ultimately show "is_octal (digit_char d) \<longleftrightarrow> d < 8" "digit_value (digit_char d) = d" "digit_char 0 = CHR ''0''"
    unfolding list_all_iff by blast+
qed

lemma dec_digits_step: "10 \<le> n \<Longrightarrow> dec_digits n = dec_digits (n div 10) @ [digit_char (n mod 10)]"
  by (subst dec_digits.simps) simp

lemma dec_digits_one: "n < 10 \<Longrightarrow> dec_digits n = [digit_char n]"
  by (subst dec_digits.simps) simp

lemma dec_digits_length: "Suc 0 \<le> length (dec_digits n)"
  by (subst dec_digits.simps) simp

lemma zero_char: "digit_char 0 = CHR ''0''"
  by (rule digit_char_facts(3) [of 0]) simp_all

text \<open>What the parser of DCS codes makes of the three characters of a keypad number.\<close>

lemma octal_text: "pad3 (dec_digits n) =
    (if n < 10 then [digit_char 0, digit_char 0, digit_char n]
     else if n < 100 then [digit_char 0, digit_char (n div 10), digit_char (n mod 10)]
     else if n < 1000 then [digit_char (n div 100), digit_char (n div 10 mod 10), digit_char (n mod 10)]
     else dec_digits n)"
  if "0 \<le> n"
proof -
  consider "n < 10" | "10 \<le> n" "n < 100" | "100 \<le> n" "n < 1000" | "1000 \<le> n" by linarith
  then show ?thesis
  proof cases
    case 1
    then show ?thesis by (simp add: pad3_def dec_digits_one zero_char numeral_2_eq_2)
  next
    case 2
    then have "n div 10 < 10" by linarith
    then show ?thesis using 2 by (simp add: pad3_def dec_digits_step [of n] dec_digits_one zero_char)
  next
    case 3
    then have "10 \<le> n div 10" "n div 10 div 10 < 10" "n div 10 div 10 = n div 100" by linarith+
    then show ?thesis
      using 3 by (simp add: pad3_def dec_digits_step [of n] dec_digits_step [of "n div 10"] dec_digits_one)
  next
    case 4
    then have "10 \<le> n div 10" "10 \<le> n div 10 div 10" by linarith+
    then have "3 \<le> length (dec_digits n)"
      using 4 dec_digits_length [of "n div 10 div 10"]
      by (simp add: dec_digits_step [of n] dec_digits_step [of "n div 10"])
    then show ?thesis using 4 by (simp add: pad3_def)
  qed
qed

lemma dcs_text:
  "dcs_code_from_str [a, b, c, CHR ''N''] =
     (if is_octal a \<and> is_octal b \<and> is_octal c
      then Some \<lparr>code_value = digit_value a * 64 + digit_value b * 8 + digit_value c, code_polarity = DcsNormal\<rparr>
      else None)"
  by (simp add: dcs_code_from_str_def)

lemma dcs_long: "4 < length s \<Longrightarrow> dcs_code_from_str s = None"
  by (auto simp: dcs_code_from_str_def split: list.split)

lemma keypad_code: "map_option code_value (dcs_code_from_str (format_width3 n @ ''N'')) = octal_reading n"
proof -
  consider "n < 0" | "0 \<le> n" "n < 1000" | "1000 \<le> n" by linarith
  then show ?thesis
  proof cases
    case 1
    obtain c d s where "dec_digits (- n) = c # s" using dec_digits_length [of "- n"] by (cases "dec_digits (- n)") auto
    then have "dcs_code_from_str (format_width3 n @ ''N'') = None"
      using 1 by (auto simp: format_width3_def dcs_code_from_str_def is_octal_def split: list.split)
    then show ?thesis using 1 by (simp add: octal_reading_def Let_def)
  next
    case 2
    then have "n div 100 < 10" "0 \<le> n div 100" by linarith+
    moreover have small: "n < 10 \<Longrightarrow> n div 100 = 0 \<and> n div 10 = 0 \<and> n mod 10 = n" "n < 100 \<Longrightarrow> n div 100 = 0 \<and> n div 10 < 10"
      using 2 by auto
    ultimately show ?thesis
      using 2 octal_text [OF 2(1)]
      by (auto simp: format_width3_def dcs_text digit_char_facts(1,2) octal_reading_def Let_def)
  next
    case 3
    then have "10 \<le> n div 10" "10 \<le> n div 10 div 10" by linarith+
    then have "4 \<le> length (dec_digits n)"
      using 3 dec_digits_length [of "n div 10 div 10 div 10"]
      by (simp add: dec_digits_step [of n] dec_digits_step [of "n div 10"] dec_digits_step [of "n div 10 div 10"])
    then have "dcs_code_from_str (format_width3 n @ ''N'') = None"
      using 3 by (intro dcs_long) (simp add: format_width3_def pad3_def)
    then show ?thesis using 3 by (simp add: octal_reading_def Let_def)
  qed
qed

lemma scalar_code_exact:
  "scalar_code setting op u = Inr v \<longleftrightarrow>
     (if rig_units setting = 3 then decimal_places op = 0 \<and> octal_reading u = Some v else v = u)"
  using keypad_code [of u] by (auto simp: scalar_code_def split: option.split)

text \<open>C24: A value for a setting is accepted if and only if the setting is writable and of a known kind, the operands
  are well formed, a sign is given only to a signed kind, and the accepted value is exactly what the operands
  denote in the units of the setting (three octal digits for a DCS code) and lies in its limits and choices; no
  value is ever rounded.
\<close>

theorem scalar_exact:
  assumes "0 \<le> decimal_places op" "0 \<le> rig_decimal_places setting"
  shows "scalar setting op = Inr v \<longleftrightarrow> scalar_admitted setting op v \<and> scalar_means setting op v"
proof -
  have "scalar setting op = Inr v \<longleftrightarrow>
      scalar_admitted setting op v \<and>
      (\<exists>u. scalar_digits setting op = Inr u \<and> - (2 ^ 63) \<le> u \<and> u < 2 ^ 63 \<and> scalar_code setting op u = Inr v)"
    by (auto simp: scalar_def scalar_admitted_def res_simps not_less split: if_splits)
  then show ?thesis
    unfolding scalar_digits_exact [OF assms] scalar_code_exact scalar_means_def .
qed

text \<open>A keypad entry with one decimal for a tone in tenths of a hertz, and a code in octal digits.\<close>

definition sample_tone_setting :: rig_setting where
  "sample_tone_setting =
     \<lparr>rig_selector = 12, rig_name = ''encode_ctcss'', rig_readable = True, rig_writable = True, rig_value_kind = 4,
      rig_units = 1, rig_decimal_places = 1, rig_minimum = 500, rig_maximum = 3000, rig_choices = []\<rparr>"

definition sample_tone_operation :: remote_operation where
  "sample_tone_operation = (remote_operation_new SetSetting)\<lparr>selector := 12, magnitude := 10000, decimal_places := 2\<rparr>"

theorem scalar_exact_witness:
  "scalar sample_tone_setting sample_tone_operation = Inr 1000 \<and> scalar_means sample_tone_setting sample_tone_operation 1000"
proof -
  have "scalar sample_tone_setting sample_tone_operation = Inr 1000" by code_simp
  moreover have "0 \<le> decimal_places sample_tone_operation" "0 \<le> rig_decimal_places sample_tone_setting"
    by code_simp+
  ultimately show ?thesis using scalar_exact [of sample_tone_operation sample_tone_setting 1000] by blast
qed

end
