(* ===== verification/Remote_Owner.thy ===== *)
theory Remote_Owner
  imports Remote_Request
begin

text \<open>
  The commands of one physical radio: the catalog of controller settings, \<^verbatim>\<open>rust/driver/src/remote_catalog.rs\<close>,
  and the owner that takes work from the port, drives the engine and completes the work,
  \<^verbatim>\<open>rust/driver/src/remote_owner.rs\<close>. The port, the engine and the device answer from the outside while other
  threads go on: an environment answers every call from the history so far, and the call is recorded with its
  answer, the newest first. A snapshot of the scan stands for its list.
\<close>

section \<open>The catalog\<close>

definition catalog_entry ::
  "int \<Rightarrow> string \<Rightarrow> int \<Rightarrow> int \<Rightarrow> int \<Rightarrow> int \<Rightarrow> int \<Rightarrow> 32 word \<Rightarrow> rig_setting" where
  "catalog_entry k name kind units places minimum maximum sources =
     \<lparr>rig_selector = k, rig_name = name, rig_readable = True, rig_writable = True, rig_value_kind = kind,
      rig_units = units, rig_decimal_places = places, rig_minimum = minimum, rig_maximum = maximum,
      rig_choices =
        (if kind = 5 then filter (\<lambda>source. source = 0 \<or> sources AND push_bit (nat source) 1 \<noteq> 0) [0, 1, 2, 3]
         else [])\<rparr>"

definition catalog_signaling :: "selected_capabilities \<Rightarrow> rig_setting list" where
  "catalog_signaling caps =
     [catalog_entry 12 ''encode_ctcss'' 4 1 1 500 3000 0,
      catalog_entry 13 ''decode_ctcss'' 4 1 1 500 3000 0,
      catalog_entry 14 ''encode_dcs'' 2 3 0 0 511 0,
      catalog_entry 15 ''decode_dcs'' 2 3 0 0 511 0,
      catalog_entry 16 ''encode_enabled'' 1 0 0 0 1 0,
      catalog_entry 17 ''decode_enabled'' 1 0 0 0 1 0,
      catalog_entry 400 ''encode_source'' 5 0 0 0 3 (caps_encode_sources caps),
      catalog_entry 401 ''decode_source'' 5 0 0 0 3 (caps_decode_sources caps),
      catalog_entry 402 ''decode_control_source'' 5 0 0 0 3 (caps_decode_control_sources caps),
      catalog_entry 403 ''encode_dcs_inverted'' 1 0 0 0 1 0,
      catalog_entry 404 ''decode_dcs_inverted'' 1 0 0 0 1 0]"

text \<open>\<open>iter_mut().find\<close>: the first setting with the selector changes.\<close>

fun change_setting :: "int \<Rightarrow> (rig_setting \<Rightarrow> rig_setting) \<Rightarrow> rig_setting list \<Rightarrow> rig_setting list" where
  "change_setting k f [] = []"
| "change_setting k f (s # ss) = (if rig_selector s = k then f s # ss else s # change_setting k f ss)"

definition controller_catalog :: "rig_setting list \<Rightarrow> selected_capabilities \<Rightarrow> rig_setting list" where
  "controller_catalog settings caps =
     (let settings = filter (\<lambda>s. \<not> (12 \<le> rig_selector s \<and> rig_selector s \<le> 17 \<or> rig_selector s \<in> {22, 23})) settings;
          settings = change_setting 20 (\<lambda>s. s\<lparr>rig_writable := False\<rparr>) settings;
          settings = change_setting 11
            (\<lambda>s. s\<lparr>rig_readable := rig_readable s \<and> caps_readback_fields caps AND 512 \<noteq> 0\<rparr>) settings in
      sort_key rig_selector (settings @ catalog_signaling caps))"

definition signal_value :: "raw_state \<Rightarrow> int \<Rightarrow> int option" where
  "signal_value s k =
     (if k = 400 then Some (raw_source (raw_encode s))
      else if k = 401 then Some (raw_source (raw_decode s))
      else if k = 402 then Some (raw_control_source (raw_decode s))
      else if k = 403 then Some (raw_inverted (raw_encode s))
      else if k = 404 then Some (raw_inverted (raw_decode s))
      else if 12 \<le> k \<and> k \<le> 17 then
        (let signal = (if k \<in> {12, 14, 16} then raw_encode s else raw_decode s) in
         if programming_source signal = 3 then None
         else
           Some (if k \<in> {12, 13} then raw_ctcss_tenths_hz signal
                 else if k \<in> {14, 15} then raw_dcs_code signal else raw_enabled signal))
      else None)"

section \<open>Calls and answers\<close>

datatype remote_reply =
    ReplyApplied
  | ReplyValue rig_setting int
  | ReplyStatus int engine_snapshot "int option"
  | ReplyMemories "remote_memory list"
  | ReplyScans "remote_scan_list list"
  | ReplyCapabilities "rig_setting list"
  | ReplyScan remote_scan_list "int option"

record remote_activity =
  act_command_active :: bool
  act_command_cancelled :: bool
  act_physical_ptt :: bool
  act_rendered_ptt :: bool

datatype owner_event =
    TakeUrgent "remote_work option"
  | TakeOrdinary "remote_work option"
  | ReadSource remote_work remote_source
  | ReadParallelError int
  | ReadSnapshot "(call_error, engine_snapshot) result"
  | ReadScan "(call_error, int option) result"
  | EngineRequest engine_request int "(call_error, int) result"
  | EngineAdvance int remote_activity "(call_error, unit) result"
  | EngineCompletion "(call_error, (int \<times> int) option) result"
  | DeviceIdle "(call_error, bool) result"
  | DeviceGet int engine_snapshot "(call_error, int) result"
  | DeviceSet int int "(call_error, unit) result"
  | CompleteWork remote_work "remote_reply completion"
  | DropWork remote_work
  | RetireQueue
  | RetireEngine "(call_error, unit) result"

type_synonym owner_history = "owner_event list"

record owner_environment =
  own_urgent :: "owner_history \<Rightarrow> remote_work option"
  own_ordinary :: "owner_history \<Rightarrow> remote_work option"
  own_source :: "owner_history \<Rightarrow> remote_work \<Rightarrow> remote_source"
  own_parallel_error :: "owner_history \<Rightarrow> int"
  own_snapshot :: "owner_history \<Rightarrow> (call_error, engine_snapshot) result"
  own_scan :: "owner_history \<Rightarrow> (call_error, int option) result"
  own_request :: "owner_history \<Rightarrow> engine_request \<Rightarrow> (call_error, int) result"
  own_advance :: "owner_history \<Rightarrow> remote_activity \<Rightarrow> (call_error, unit) result"
  own_completion :: "owner_history \<Rightarrow> (call_error, (int \<times> int) option) result"
  own_idle :: "owner_history \<Rightarrow> (call_error, bool) result"
  own_get :: "owner_history \<Rightarrow> int \<Rightarrow> (call_error, int) result"
  own_set :: "owner_history \<Rightarrow> int \<Rightarrow> int \<Rightarrow> (call_error, unit) result"
  own_retire :: "owner_history \<Rightarrow> (call_error, unit) result"

record remote_owner =
  owner_auxiliary :: "(remote_work \<times> int \<times> int) option"
  owner_configuration :: resolved_remote_configuration
  owner_settings :: "rig_setting list"
  owner_pending :: "(int \<times> remote_work) list"

section \<open>Creation\<close>

text \<open>
  \<open>RemoteOwner::new\<close>. The engine session is a parameter: whether it opens on a setup, and the state it
  answers for a configured memory.
\<close>

definition settled_memory ::
  "(int \<Rightarrow> (call_error, raw_state) result) \<Rightarrow> remote_memory \<Rightarrow> (call_error, remote_memory) result" where
  "settled_memory configured m =
     res_bind (configured (mem_selector m)) (\<lambda>raw.
     res_bind (operating_configuration raw) (\<lambda>state.
     Inr (m\<lparr>mem_state := state\<rparr>)))"

definition owner_new ::
  "(engine_setup \<Rightarrow> (call_error, int \<Rightarrow> (call_error, raw_state) result) result) \<Rightarrow>
   resolved_remote_configuration \<Rightarrow> selected_capabilities \<Rightarrow> rig_setting list \<Rightarrow>
   (call_error, remote_owner) result" where
  "owner_new open_session config caps settings =
     res_bind (configured_setup config caps) (\<lambda>setup.
     res_bind (open_session setup) (\<lambda>configured.
     res_bind (collect_results (map (settled_memory configured) (rc_memories config))) (\<lambda>memories.
     Inr \<lparr>owner_auxiliary = None, owner_configuration = config\<lparr>rc_memories := memories\<rparr>,
          owner_settings = controller_catalog settings caps, owner_pending = []\<rparr>)))"

definition ask_source :: "owner_environment \<Rightarrow> remote_work \<Rightarrow> owner_history \<Rightarrow> remote_source \<times> owner_history" where
  "ask_source E w h = (own_source E h w, ReadSource w (own_source E h w) # h)"

definition ask_snapshot ::
  "owner_environment \<Rightarrow> owner_history \<Rightarrow> (call_error, engine_snapshot) result \<times> owner_history" where
  "ask_snapshot E h = (own_snapshot E h, ReadSnapshot (own_snapshot E h) # h)"

definition ask_scan :: "owner_environment \<Rightarrow> owner_history \<Rightarrow> (call_error, int option) result \<times> owner_history" where
  "ask_scan E h = (own_scan E h, ReadScan (own_scan E h) # h)"

definition rejected_code :: "int \<Rightarrow> remote_request_error" where
  "rejected_code code = (if code = -9 then Busy else if code = -10 then StaleSource else Rejected code)"

definition rejected :: "call_error \<Rightarrow> remote_request_error" where
  "rejected e = (case e of CallError code \<Rightarrow> rejected_code code)"

definition reply_page :: "'a list \<Rightarrow> int \<Rightarrow> 'a list admission" where
  "reply_page xs page =
     (let offset = (page - 1) * 5 in
      if \<not> (1 \<le> page \<and> offset < 2 ^ 64) then Inl (rejected_code (-1003))
      else if int (length xs) \<le> offset \<and> offset \<noteq> 0 then Inl (rejected_code (-7))
      else Inr (take 5 (drop (nat offset) xs)))"

section \<open>Preparing one work item\<close>

datatype owner_ready = ReadyAuxiliary int int | ReadyReply remote_reply | ReadyCore engine_request

definition get_setting ::
  "owner_environment \<Rightarrow> remote_owner \<Rightarrow> engine_snapshot \<Rightarrow> int \<Rightarrow> owner_history \<Rightarrow>
   remote_reply admission \<times> owner_history" where
  "get_setting E s snapshot k h =
     (case find (\<lambda>s. rig_selector s = k \<and> rig_readable s) (owner_settings s) of
        None \<Rightarrow> (Inl (rejected_code (-6)), h)
      | Some setting \<Rightarrow>
          (case signal_value (snap_applied snapshot) k of
             Some value \<Rightarrow>
               if snap_is_applied snapshot then (Inr (ReplyValue setting value), h)
               else (Inl (rejected_code (-6)), h)
           | None \<Rightarrow>
               (let r = own_get E h k in
                (case r of Inl e \<Rightarrow> Inl (rejected e) | Inr value \<Rightarrow> Inr (ReplyValue setting value),
                 DeviceGet k snapshot r # h))))"

definition catalog_reply :: "remote_owner \<Rightarrow> remote_operation \<Rightarrow> remote_reply admission" where
  "catalog_reply s op =
     (if selector op = 1 then map_sum id ReplyCapabilities (reply_page (owner_settings s) (magnitude op))
      else if selector op = 2 then
        map_sum id ReplyMemories (reply_page (rc_memories (owner_configuration s)) (magnitude op))
      else if selector op = 3 then
        map_sum id ReplyScans (reply_page (rc_scan_lists (owner_configuration s)) (magnitude op))
      else Inl (rejected_code (-1003)))"

definition operation_ready ::
  "remote_owner \<Rightarrow> engine_snapshot \<Rightarrow> int option \<Rightarrow> remote_operation \<Rightarrow> owner_ready admission" where
  "operation_ready s snapshot scan op =
     (let snapshot =
        (if snap_is_applied snapshot then snapshot else snapshot\<lparr>snap_applied := snap_requested snapshot\<rparr>) in
      case prepare_remote_operation (owner_configuration s) snapshot scan (owner_settings s) op of
        Inl e \<Rightarrow> Inl e
      | Inr (PreparedCore request) \<Rightarrow> Inr (ReadyCore request)
      | Inr (PreparedAuxiliary k value) \<Rightarrow> Inr (ReadyAuxiliary k value))"

definition prepare_command ::
  "owner_environment \<Rightarrow> remote_owner \<Rightarrow> remote_operation \<Rightarrow> owner_history \<Rightarrow>
   owner_ready admission \<times> owner_history" where
  "prepare_command E s op h =
     (case operation_kind op of
        None \<Rightarrow> (Inl (rejected_code (-1003)), h)
      | Some kind \<Rightarrow>
          (case ask_snapshot E h of
             (Inl e, h) \<Rightarrow> (Inl (rejected e), h)
           | (Inr snapshot, h) \<Rightarrow>
               (case ask_scan E h of
                  (Inl e, h) \<Rightarrow> (Inl (rejected e), h)
                | (Inr scan, h) \<Rightarrow>
                    (if kind = Status \<or> kind = CurrentStatus then
                       (let code = own_parallel_error E h in
                        (Inr (ReadyReply (ReplyStatus code snapshot scan)), ReadParallelError code # h))
                     else if kind = GetSetting then
                       (case get_setting E s snapshot (selector op) h of (r, h) \<Rightarrow> (map_sum id ReadyReply r, h))
                     else if kind = Memory then
                       (map_sum id (\<lambda>m. ReadyReply (ReplyMemories [m]))
                          (ok_or (rejected_code (-7))
                             (find (\<lambda>m. mem_selector m = selector op) (rc_memories (owner_configuration s)))), h)
                     else if kind = Catalog then (map_sum id ReadyReply (catalog_reply s op), h)
                     else if kind = ScanStatus then
                       (map_sum id
                          (\<lambda>l. ReadyReply (ReplyScan l (if scan = Some (selector op) then scan else None)))
                          (ok_or (rejected_code (-7))
                             (find (\<lambda>l. scan_selector l = selector op) (rc_scan_lists (owner_configuration s)))), h)
                     else (operation_ready s snapshot scan op, h)))))"

definition prepare_work ::
  "owner_environment \<Rightarrow> remote_owner \<Rightarrow> remote_work \<Rightarrow> owner_history \<Rightarrow> owner_ready admission \<times> owner_history" where
  "prepare_work E s w h =
     (case work_input w of
        InputParallel request \<Rightarrow>
          (case ask_snapshot E h of
             (Inl e, h) \<Rightarrow> (Inl (rejected e), h)
           | (Inr snapshot, h) \<Rightarrow>
               (map_sum id ReadyCore (prepare_parallel_request (owner_configuration s) snapshot request), h))
      | InputCommand op \<Rightarrow> prepare_command E s op h)"

definition admit_work ::
  "owner_environment \<Rightarrow> remote_work \<Rightarrow> int \<Rightarrow> remote_owner \<Rightarrow> owner_history \<Rightarrow> remote_owner \<times> owner_history" where
  "admit_work E w now s h =
     (case ask_source E w h of
        (source, h) \<Rightarrow>
          if \<not> source_valid source then (s, CompleteWork w (Inl StaleSource) # h)
          else
            (case prepare_work E s w h of
               (Inl e, h) \<Rightarrow> (s, CompleteWork w (Inl e) # h)
             | (Inr (ReadyReply reply), h) \<Rightarrow> (s, CompleteWork w (Inr reply) # h)
             | (Inr (ReadyAuxiliary k value), h) \<Rightarrow>
                 (s\<lparr>owner_auxiliary := Some (w, k, value)\<rparr>,
                  (case owner_auxiliary s of None \<Rightarrow> h | Some (old, _) \<Rightarrow> DropWork old # h))
             | (Inr (ReadyCore request), h) \<Rightarrow>
                 (let r = own_request E h request; h = EngineRequest request now r # h in
                  case r of
                    Inr i \<Rightarrow> (s\<lparr>owner_pending := owner_pending s @ [(i, w)]\<rparr>, h)
                  | Inl e \<Rightarrow> (s, CompleteWork w (Inl (rejected e)) # h))))"

section \<open>Completions\<close>

definition work_urgent :: "remote_work \<Rightarrow> bool" where
  "work_urgent w = (case work_operation w of None \<Rightarrow> False | Some op \<Rightarrow> urgent op)"

definition pending_source :: "remote_owner \<Rightarrow> remote_work option" where
  "pending_source s = map_option snd (find (\<lambda>(_, w). \<not> work_urgent w) (owner_pending s))"

definition swap_remove :: "nat \<Rightarrow> 'a list \<Rightarrow> 'a list" where
  "swap_remove i xs = (if i = length xs - 1 then butlast xs else (butlast xs)[i := last xs])"

definition settle_completion :: "int \<times> int \<Rightarrow> remote_owner \<Rightarrow> owner_history \<Rightarrow> remote_owner \<times> owner_history" where
  "settle_completion c s h =
     (case c of (i, code) \<Rightarrow>
        case position i (map fst (owner_pending s)) of
          None \<Rightarrow> (s, h)
        | Some n \<Rightarrow>
            (s\<lparr>owner_pending := swap_remove n (owner_pending s)\<rparr>,
             CompleteWork (snd (owner_pending s ! n))
               (if code = 0 then Inr ReplyApplied else Inl (rejected_code code)) # h))"

partial_function (option) drain_completions ::
  "owner_environment \<Rightarrow> remote_owner \<Rightarrow> owner_history \<Rightarrow>
   ((call_error, unit) result \<times> remote_owner \<times> owner_history) option" where
  "drain_completions E s h =
     (let r = own_completion E h; h = EngineCompletion r # h in
      case r of
        Inl e \<Rightarrow> Some (Inl e, s, h)
      | Inr None \<Rightarrow> Some (Inr (), s, h)
      | Inr (Some c) \<Rightarrow> (case settle_completion c s h of (s, h) \<Rightarrow> drain_completions E s h))"

declare drain_completions.simps [code]

section \<open>One service of the owner\<close>

definition write_auxiliary ::
  "owner_environment \<Rightarrow> remote_work \<times> int \<times> int \<Rightarrow> remote_owner \<Rightarrow> owner_history \<Rightarrow> remote_owner \<times> owner_history" where
  "write_auxiliary E a s h =
     (case a of (w, k, value) \<Rightarrow>
        let r = own_set E h k value in
        (s, CompleteWork w (map_sum rejected (\<lambda>_. ReplyApplied) r) # DeviceSet k value r # h))"

text \<open>The waiting auxiliary write, taken out of its slot.\<close>

definition service_auxiliary ::
  "owner_environment \<Rightarrow> remote_activity \<Rightarrow> remote_work \<times> int \<times> int \<Rightarrow> engine_snapshot \<Rightarrow> remote_owner \<Rightarrow>
   owner_history \<Rightarrow> remote_owner \<times> owner_history" where
  "service_auxiliary E activity a snapshot s h =
     (case ask_source E (fst a) h of
        (source, h) \<Rightarrow>
          if \<not> source_valid source then (s, CompleteWork (fst a) (Inl StaleSource) # h)
          else
            (case ask_source E (fst a) h of
               (source, h) \<Rightarrow>
                 if source_active source \<or> snap_is_pending snapshot \<or> act_physical_ptt activity \<or>
                    act_rendered_ptt activity
                 then (s\<lparr>owner_auxiliary := Some a\<rparr>, h)
                 else
                   (let r = own_idle E h; h = DeviceIdle r # h in
                    case r of
                      Inl e \<Rightarrow> (s, CompleteWork (fst a) (Inl (rejected e)) # h)
                    | Inr False \<Rightarrow> (s\<lparr>owner_auxiliary := Some a\<rparr>, h)
                    | Inr True \<Rightarrow>
                        (case ask_source E (fst a) h of
                           (source, h) \<Rightarrow>
                             if \<not> source_valid source then (s, CompleteWork (fst a) (Inl StaleSource) # h)
                             else if source_active source then (s\<lparr>owner_auxiliary := Some a\<rparr>, h)
                             else write_auxiliary E a s h))))"

definition take_urgent :: "owner_environment \<Rightarrow> int \<Rightarrow> remote_owner \<Rightarrow> owner_history \<Rightarrow> remote_owner \<times> owner_history" where
  "take_urgent E now s h =
     (let work = own_urgent E h; h = TakeUrgent work # h in
      case work of None \<Rightarrow> (s, h) | Some w \<Rightarrow> admit_work E w now s h)"

definition take_ordinary :: "owner_environment \<Rightarrow> int \<Rightarrow> remote_owner \<Rightarrow> owner_history \<Rightarrow> remote_owner \<times> owner_history" where
  "take_ordinary E now s h =
     (if owner_auxiliary s \<noteq> None then (s, h)
      else
        (let work = own_ordinary E h; h = TakeOrdinary work # h in
         case work of None \<Rightarrow> (s, h) | Some w \<Rightarrow> admit_work E w now s h))"

definition report_activity ::
  "owner_environment \<Rightarrow> remote_activity \<Rightarrow> remote_owner \<Rightarrow> owner_history \<Rightarrow> remote_activity \<times> owner_history" where
  "report_activity E activity s h =
     (case pending_source s of
        None \<Rightarrow> (activity, h)
      | Some w \<Rightarrow>
          (case ask_source E w h of
             (source, h) \<Rightarrow>
               (activity\<lparr>act_command_active := act_command_active activity \<or> source_active source,
                         act_command_cancelled := act_command_cancelled activity \<or> \<not> source_valid source\<rparr>, h)))"

text \<open>The auxiliary part, which may end the service early with the error of the snapshot: then the work is dropped.\<close>

definition finish_service ::
  "owner_environment \<Rightarrow> remote_activity \<Rightarrow> (call_error, unit) result \<Rightarrow> remote_owner \<Rightarrow> owner_history \<Rightarrow>
   (call_error, engine_snapshot) result \<times> remote_owner \<times> owner_history" where
  "finish_service E activity result s h =
     (let final = (\<lambda>(s, h).
            case result of
              Inl e \<Rightarrow> (Inl e, s, h)
            | Inr _ \<Rightarrow> (case ask_snapshot E h of (snapshot, h) \<Rightarrow> (snapshot, s, h))) in
      case (result, owner_auxiliary s) of
        (Inr _, Some a) \<Rightarrow>
          (case ask_snapshot E h of
             (Inl e, h) \<Rightarrow> (Inl e, s\<lparr>owner_auxiliary := None\<rparr>, DropWork (fst a) # h)
           | (Inr snapshot, h) \<Rightarrow>
               final (service_auxiliary E activity a snapshot (s\<lparr>owner_auxiliary := None\<rparr>) h))
      | _ \<Rightarrow> final (s, h))"

definition service ::
  "owner_environment \<Rightarrow> int \<Rightarrow> remote_activity \<Rightarrow> remote_owner \<Rightarrow> owner_history \<Rightarrow>
   ((call_error, engine_snapshot) result \<times> remote_owner \<times> owner_history) option" where
  "service E now activity s h =
     (case take_urgent E now s h of
        (s, h) \<Rightarrow>
          (case report_activity E activity s h of
             (activity, h) \<Rightarrow>
               (let result = own_advance E h activity; h = EngineAdvance now activity result # h in
                case drain_completions E s h of
                  None \<Rightarrow> None
                | Some (Inl e, s, h) \<Rightarrow> Some (Inl e, s, h)
                | Some (Inr _, s, h) \<Rightarrow>
                    (case take_ordinary E now s h of
                       (s, h) \<Rightarrow> Some (finish_service E activity result s h)))))"

text \<open>Retirement: the port first, then the works held drop.\<close>

definition retire_owner :: "owner_environment \<Rightarrow> remote_owner \<Rightarrow> owner_history \<Rightarrow>
   (call_error, unit) result \<times> remote_owner \<times> owner_history" where
  "retire_owner E s h =
     (let h = RetireQueue # h;
          h = (case owner_auxiliary s of None \<Rightarrow> h | Some (w, _) \<Rightarrow> DropWork w # h);
          h = rev (map (\<lambda>(_, w). DropWork w) (owner_pending s)) @ h;
          r = own_retire E h in
      (r, s\<lparr>owner_auxiliary := None, owner_pending := []\<rparr>, RetireEngine r # h))"

end
