(* ===== verification/Remote_Owner_Safety.thy ===== *)
theory Remote_Owner_Safety
  imports Remote_Owner Remote_Request_Safety "HOL-Library.Multiset"
begin

text \<open>
  What the owner of a remote radio guarantees whatever the port, the engine and the device answer: every work item
  it takes is answered or dropped exactly once or still held, and an auxiliary setting is written only between the
  checks that keep it away from a keyed transmitter.
\<close>

section \<open>The accounts of a history\<close>

fun event_taken :: "owner_event \<Rightarrow> remote_work list" where
  "event_taken (TakeUrgent (Some w)) = [w]"
| "event_taken (TakeOrdinary (Some w)) = [w]"
| "event_taken _ = []"

fun event_answered :: "owner_event \<Rightarrow> remote_work list" where
  "event_answered (CompleteWork w r) = [w]"
| "event_answered (DropWork w) = [w]"
| "event_answered _ = []"

definition works_taken :: "owner_history \<Rightarrow> remote_work multiset" where
  "works_taken h = mset (concat (map event_taken h))"

definition works_answered :: "owner_history \<Rightarrow> remote_work multiset" where
  "works_answered h = mset (concat (map event_answered h))"

definition works_held :: "remote_owner \<Rightarrow> remote_work multiset" where
  "works_held s =
     (case owner_auxiliary s of None \<Rightarrow> {#} | Some (w, _) \<Rightarrow> {#w#}) + mset (map snd (owner_pending s))"

text \<open>The activity of the service that is under way, and the checks before a write, the newest first.\<close>

fun last_activity :: "owner_history \<Rightarrow> remote_activity option" where
  "last_activity [] = None"
| "last_activity (EngineAdvance now activity r # h) = Some activity"
| "last_activity (e # h) = last_activity h"

fun read_source :: "owner_history \<Rightarrow> (remote_work \<times> remote_source \<times> owner_history) option" where
  "read_source (ReadSource w a # h) = Some (w, a, h)"
| "read_source _ = None"

fun read_idle :: "owner_history \<Rightarrow> owner_history option" where
  "read_idle (DeviceIdle (Inr b) # h) = (if b then Some h else None)"
| "read_idle _ = None"

fun read_snapshot :: "owner_history \<Rightarrow> (engine_snapshot \<times> owner_history) option" where
  "read_snapshot (ReadSnapshot (Inr snapshot) # h) = Some (snapshot, h)"
| "read_snapshot _ = None"

definition write_checked :: "owner_history \<Rightarrow> bool" where
  "write_checked h \<longleftrightarrow>
     (case read_source h of
        None \<Rightarrow> False
      | Some (w, c, h) \<Rightarrow>
          source_valid c \<and> \<not> source_active c \<and>
          (case Option.bind (read_idle h) read_source of
             None \<Rightarrow> False
           | Some (v, b, h) \<Rightarrow>
               v = w \<and> \<not> source_active b \<and>
               (case read_source h of
                  None \<Rightarrow> False
                | Some (u, a, h) \<Rightarrow>
                    u = w \<and> source_valid a \<and>
                    (case read_snapshot h of
                       None \<Rightarrow> False
                     | Some (snapshot, h) \<Rightarrow>
                         \<not> snap_is_pending snapshot \<and>
                         (case last_activity h of
                            None \<Rightarrow> False
                          | Some activity \<Rightarrow> \<not> act_physical_ptt activity \<and> \<not> act_rendered_ptt activity)))))"

fun writes_checked :: "owner_history \<Rightarrow> bool" where
  "writes_checked [] \<longleftrightarrow> True"
| "writes_checked (DeviceSet k v r # h) \<longleftrightarrow> k \<notin> set operating_settings \<and> write_checked h \<and> writes_checked h"
| "writes_checked (e # h) \<longleftrightarrow> writes_checked h"

definition auxiliary_ok :: "remote_owner \<Rightarrow> bool" where
  "auxiliary_ok s \<longleftrightarrow> (case owner_auxiliary s of None \<Rightarrow> True | Some (_, k, _) \<Rightarrow> k \<notin> set operating_settings)"

section \<open>The invariant\<close>

text \<open>The works \<open>hand\<close> are taken out of the port or the slot and not yet put anywhere.\<close>

definition owner_inv ::
  "remote_activity option \<Rightarrow> remote_work multiset \<Rightarrow> remote_owner \<Rightarrow> owner_history \<Rightarrow> bool" where
  "owner_inv a hand s h \<longleftrightarrow>
     works_taken h = works_answered h + works_held s + hand \<and> writes_checked h \<and> auxiliary_ok s \<and>
     last_activity h = a"

fun quiet_event :: "owner_event \<Rightarrow> bool" where
  "quiet_event (TakeUrgent w) = (w = None)"
| "quiet_event (TakeOrdinary w) = (w = None)"
| "quiet_event (EngineAdvance now activity r) = False"
| "quiet_event (DeviceSet k v r) = False"
| "quiet_event (CompleteWork w r) = False"
| "quiet_event (DropWork w) = False"
| "quiet_event _ = True"

named_theorems owner_inv_intros \<open>events that keep the invariant of the owner\<close>

lemma owner_inv_quiet [owner_inv_intros]: "quiet_event e \<Longrightarrow> owner_inv a hand s h \<Longrightarrow> owner_inv a hand s (e # h)"
  by (cases e) (auto simp: owner_inv_def works_taken_def works_answered_def)

lemma owner_inv_take [owner_inv_intros]:
  "owner_inv a {#} s h \<Longrightarrow> owner_inv a {#w#} s (TakeUrgent (Some w) # h)"
  "owner_inv a {#} s h \<Longrightarrow> owner_inv a {#w#} s (TakeOrdinary (Some w) # h)"
  by (auto simp: owner_inv_def works_taken_def works_answered_def)

lemma owner_inv_answer [owner_inv_intros]:
  "owner_inv a (add_mset w hand) s h \<Longrightarrow> owner_inv a hand s (CompleteWork w r # h)"
  "owner_inv a (add_mset w hand) s h \<Longrightarrow> owner_inv a hand s (DropWork w # h)"
  by (auto simp: owner_inv_def works_taken_def works_answered_def)

lemma owner_inv_hold [owner_inv_intros]:
  "owner_inv a {#w#} s h \<Longrightarrow> owner_inv a {#} (s\<lparr>owner_pending := owner_pending s @ [(i, w)]\<rparr>) h"
  by (auto simp: owner_inv_def works_held_def auxiliary_ok_def)

lemma owner_inv_wait [owner_inv_intros]:
  "owner_inv a {#w#} s h \<Longrightarrow> owner_auxiliary s = None \<Longrightarrow> k \<notin> set operating_settings \<Longrightarrow>
   owner_inv a {#} (s\<lparr>owner_auxiliary := Some (w, k, v)\<rparr>) h"
  by (auto simp: owner_inv_def works_held_def auxiliary_ok_def)

lemma owner_inv_unwait:
  "owner_inv a {#} s h \<Longrightarrow> owner_auxiliary s = Some (w, k, v) \<Longrightarrow>
   owner_inv a {#w#} (s\<lparr>owner_auxiliary := None\<rparr>) h \<and> k \<notin> set operating_settings"
  by (auto simp: owner_inv_def works_held_def auxiliary_ok_def)

section \<open>Preparing and admitting work\<close>

definition quiet_extension :: "owner_history \<Rightarrow> owner_history \<Rightarrow> bool" where
  "quiet_extension h h' \<longleftrightarrow> (\<exists>new. h' = new @ h \<and> list_all quiet_event new)"

lemma quiet_extension_refl [simp]: "quiet_extension h h"
  by (simp add: quiet_extension_def)

lemma quiet_extension_event: "quiet_event e \<Longrightarrow> quiet_extension h h' \<Longrightarrow> quiet_extension h (e # h')"
  unfolding quiet_extension_def by (metis append_Cons list.pred_inject(2))

lemma owner_inv_extension: "quiet_extension h h' \<Longrightarrow> owner_inv a hand s h \<Longrightarrow> owner_inv a hand s h'"
proof -
  have "list_all quiet_event new \<Longrightarrow> owner_inv a hand s h \<Longrightarrow> owner_inv a hand s (new @ h)" for new
    by (induction new) (auto intro: owner_inv_quiet)
  then show "quiet_extension h h' \<Longrightarrow> owner_inv a hand s h \<Longrightarrow> owner_inv a hand s h'"
    by (auto simp: quiet_extension_def)
qed

lemma prepare_work_quiet: "prepare_work E s w h = (r, h') \<Longrightarrow> quiet_extension h h'"
  by (auto simp: prepare_work_def prepare_command_def get_setting_def ask_snapshot_def ask_scan_def Let_def
      intro!: quiet_extension_event
      split: remote_input.splits option.splits sum.splits prod.splits if_splits)

lemma catalog_reply_ready: "map_sum id ReadyReply x \<noteq> Inr (ReadyAuxiliary k v)"
  by (cases x) simp_all

lemma ready_not_auxiliary:
  "map_sum id (\<lambda>m. ReadyReply (f m)) x \<noteq> Inr (ReadyAuxiliary k v)" "map_sum id ReadyCore y \<noteq> Inr (ReadyAuxiliary k v)"
  by (cases x; simp) (cases y; simp)

lemma operation_ready_auxiliary:
  "operation_ready s snapshot scan op = Inr (ReadyAuxiliary k v) \<Longrightarrow> k \<notin> set operating_settings"
  using prepare_remote_operation_outcome [where op = op and config = "owner_configuration s" and scan = scan
      and settings = "owner_settings s" and
      current = "if snap_is_applied snapshot then snapshot else snapshot\<lparr>snap_applied := snap_requested snapshot\<rparr>"]
  by (auto simp: operation_ready_def operation_outcome_def Let_def split: sum.splits prepared_operation.splits)

lemma prepare_work_auxiliary:
  "prepare_work E s w h = (Inr (ReadyAuxiliary k v), h') \<Longrightarrow> k \<notin> set operating_settings"
  by (auto simp: prepare_work_def prepare_command_def ask_snapshot_def ask_scan_def Let_def
      catalog_reply_ready ready_not_auxiliary
      split: remote_input.splits option.splits sum.splits prod.splits if_splits dest: operation_ready_auxiliary)

lemma owner_inv_replace:
  "owner_inv a {#w#} s h \<Longrightarrow> owner_auxiliary s = Some (old, k0, v0) \<Longrightarrow> k \<notin> set operating_settings \<Longrightarrow>
   owner_inv a {#} (s\<lparr>owner_auxiliary := Some (w, k, v)\<rparr>) (DropWork old # h)"
  by (auto simp: owner_inv_def works_held_def auxiliary_ok_def works_taken_def works_answered_def)

lemma admit_work_inv:
  assumes "owner_inv a {#w#} s h" "admit_work E w now s h = (s', h')"
  shows "owner_inv a {#} s' h'"
proof -
  obtain source h1 where source: "ask_source E w h = (source, h1)" by fastforce
  have h1: "owner_inv a {#w#} s h1"
    using source assms(1) by (auto simp: ask_source_def intro: owner_inv_quiet)
  obtain r h2 where r: "prepare_work E s w h1 = (r, h2)" by fastforce
  have h2: "owner_inv a {#w#} s h2" using owner_inv_extension [OF prepare_work_quiet [OF r] h1] .
  have core: "owner_inv a {#w#} s (EngineRequest request now x # h2)" for request x
    using h2 by (simp add: owner_inv_quiet)
  show ?thesis
    using assms(2) source r h1 h2 core prepare_work_auxiliary [of E s w h1]
    by (auto simp: admit_work_def Let_def
        intro: owner_inv_answer owner_inv_hold owner_inv_wait owner_inv_replace
        split: if_splits sum.splits owner_ready.splits option.splits)
qed

lemma take_urgent_inv: "owner_inv a {#} s h \<Longrightarrow> take_urgent E now s h = (s', h') \<Longrightarrow> owner_inv a {#} s' h'"
  by (cases "own_urgent E h")
     (auto simp: take_urgent_def Let_def intro: owner_inv_quiet admit_work_inv owner_inv_take)

lemma take_ordinary_inv: "owner_inv a {#} s h \<Longrightarrow> take_ordinary E now s h = (s', h') \<Longrightarrow> owner_inv a {#} s' h'"
  by (cases "own_ordinary E h")
     (auto simp: take_ordinary_def Let_def intro: owner_inv_quiet admit_work_inv owner_inv_take split: if_splits)

section \<open>Completions\<close>

lemma position_Some: "position x xs = Some n \<Longrightarrow> n < length xs \<and> xs ! n = x"
  by (induction xs arbitrary: n) (auto split: if_splits)

lemma mset_swap_remove:
  assumes "n < length xs"
  shows "add_mset (xs ! n) (mset (swap_remove n xs)) = mset xs"
proof -
  obtain ys y where xs: "xs = ys @ [y]" using assms by (cases xs rule: rev_cases) auto
  show ?thesis
  proof (cases "n = length ys")
    case False
    then have n: "n < length ys" using assms xs by simp
    have "mset (ys[n := y]) = add_mset y (mset ys) - {#ys ! n#}" using n by (simp add: mset_update)
    moreover have "ys ! n \<in># mset ys" using n by simp
    ultimately show ?thesis using False n by (simp add: swap_remove_def xs nth_append)
  qed (simp add: swap_remove_def xs)
qed

lemma map_swap_remove: "map f (swap_remove n xs) = swap_remove n (map f xs)" if "xs \<noteq> []"
  using that by (simp add: swap_remove_def map_update map_butlast last_map)

lemma settle_completion_inv:
  assumes "owner_inv a {#} s h" "settle_completion c s h = (s', h')"
  shows "owner_inv a {#} s' h'"
proof (cases "position (fst c) (map fst (owner_pending s))")
  case None
  then show ?thesis using assms by (cases c) (simp add: settle_completion_def)
next
  case (Some n)
  then have n: "n < length (owner_pending s)" using position_Some by fastforce
  then have "owner_pending s \<noteq> []" by auto
  then have held: "mset (map snd (owner_pending s)) =
      add_mset (snd (owner_pending s ! n)) (mset (map snd (swap_remove n (owner_pending s))))"
    using mset_swap_remove [of n "map snd (owner_pending s)"] n by (simp add: map_swap_remove)
  have "owner_inv a {#snd (owner_pending s ! n)#} (s\<lparr>owner_pending := swap_remove n (owner_pending s)\<rparr>) h"
    using assms(1) held by (simp add: owner_inv_def works_held_def auxiliary_ok_def)
  then show ?thesis
    using assms(2) Some by (cases c) (auto simp: settle_completion_def intro: owner_inv_answer)
qed

lemma drain_completions_inv:
  assumes "drain_completions E s h = Some (r, s', h')" "owner_inv a {#} s h"
  shows "owner_inv a {#} s' h'"
proof -
  have "owner_inv a {#} s h \<longrightarrow> owner_inv a {#} (fst (snd y)) (snd (snd y))"
    if "drain_completions E s h = Some y" for y
  proof (rule drain_completions.raw_induct
      [OF _ that, of "\<lambda>E s h y. owner_inv a {#} s h \<longrightarrow> owner_inv a {#} (fst (snd y)) (snd (snd y))"])
    fix drain and E s h and y :: "(call_error, unit) result \<times> remote_owner \<times> owner_history"
    assume step: "\<And>E s h y. drain E s h = Some y \<Longrightarrow>
        owner_inv a {#} s h \<longrightarrow> owner_inv a {#} (fst (snd y)) (snd (snd y))"
      and body: "(let r = own_completion E h; h = EngineCompletion r # h in
        case r of
          Inl e \<Rightarrow> Some (Inl e, s, h)
        | Inr None \<Rightarrow> Some (Inr (), s, h)
        | Inr (Some c) \<Rightarrow> (case settle_completion c s h of (s, h) \<Rightarrow> drain E s h)) = Some y"
    show "owner_inv a {#} s h \<longrightarrow> owner_inv a {#} (fst (snd y)) (snd (snd y))"
    proof
      assume "owner_inv a {#} s h"
      then have inv: "owner_inv a {#} s (EngineCompletion r # h)" for r by (simp add: owner_inv_quiet)
      show "owner_inv a {#} (fst (snd y)) (snd (snd y))"
        using body step inv settle_completion_inv [OF inv]
        by (auto simp: Let_def split: sum.splits option.splits prod.splits)
    qed
  qed
  then show ?thesis using assms by fastforce
qed

section \<open>The waiting write\<close>

lemma service_auxiliary_inv:
  assumes inv: "owner_inv (Some activity) {#w#} s (ReadSnapshot (Inr snapshot) # h)"
    and k: "k \<notin> set operating_settings" and free: "owner_auxiliary s = None"
    and run: "service_auxiliary E activity' (w, k, v) snapshot s (ReadSnapshot (Inr snapshot) # h) = (s', h')"
    and ptt: "act_physical_ptt activity' = act_physical_ptt activity" "act_rendered_ptt activity' = act_rendered_ptt activity"
  shows "owner_inv (Some activity) {#} s' h'"
proof -
  let ?h0 = "ReadSnapshot (Inr snapshot) # h"
  define a where "a = own_source E ?h0 w"
  define b where "b = own_source E (ReadSource w a # ?h0) w"
  define i where "i = own_idle E (ReadSource w b # ReadSource w a # ?h0)"
  define c where "c = own_source E (DeviceIdle i # ReadSource w b # ReadSource w a # ?h0) w"
  let ?h1 = "ReadSource w a # ?h0" and ?h2 = "ReadSource w b # ReadSource w a # ?h0"
  let ?h3 = "DeviceIdle i # ReadSource w b # ReadSource w a # ?h0"
  let ?h4 = "ReadSource w c # DeviceIdle i # ReadSource w b # ReadSource w a # ?h0"
  have inv1: "owner_inv (Some activity) {#w#} s ?h1" and inv2: "owner_inv (Some activity) {#w#} s ?h2"
    and inv3: "owner_inv (Some activity) {#w#} s ?h3" and inv4: "owner_inv (Some activity) {#w#} s ?h4"
    using inv by (simp_all add: owner_inv_quiet)
  have wait: "owner_inv (Some activity) {#} (s\<lparr>owner_auxiliary := Some (w, k, v)\<rparr>) h"
    if "owner_inv (Some activity) {#w#} s h" for h
    using owner_inv_wait [OF that free k] .
  have last: "last_activity h = Some activity" using inv by (simp add: owner_inv_def)
  have checked: "write_checked ?h4"
    if "source_valid a" "\<not> source_active b" "\<not> snap_is_pending snapshot" "\<not> act_physical_ptt activity'"
      "\<not> act_rendered_ptt activity'" "i = Inr True" "source_valid c" "\<not> source_active c"
    using that last ptt by (simp add: write_checked_def)
  have written: "owner_inv (Some activity) {#} s (CompleteWork w x # DeviceSet k v r # ?h4)"
    if "write_checked ?h4" for x r
    using inv4 that k by (auto simp: owner_inv_def works_taken_def works_answered_def)
  have out: "service_auxiliary E activity' (w, k, v) snapshot s ?h0 =
     (if \<not> source_valid a then (s, CompleteWork w (Inl StaleSource) # ?h1)
      else if source_active b \<or> snap_is_pending snapshot \<or> act_physical_ptt activity' \<or> act_rendered_ptt activity'
      then (s\<lparr>owner_auxiliary := Some (w, k, v)\<rparr>, ?h2)
      else
        (case i of
           Inl e \<Rightarrow> (s, CompleteWork w (Inl (rejected e)) # ?h3)
         | Inr False \<Rightarrow> (s\<lparr>owner_auxiliary := Some (w, k, v)\<rparr>, ?h3)
         | Inr True \<Rightarrow>
             (if \<not> source_valid c then (s, CompleteWork w (Inl StaleSource) # ?h4)
              else if source_active c then (s\<lparr>owner_auxiliary := Some (w, k, v)\<rparr>, ?h4)
              else write_auxiliary E (w, k, v) s ?h4)))"
    unfolding service_auxiliary_def ask_source_def Let_def prod.case fst_conv c_def i_def b_def a_def by (rule refl)
  show ?thesis
    using run inv1 inv2 inv3 inv4 wait checked written
    unfolding out write_auxiliary_def Let_def
    by (auto split: if_splits sum.splits bool.splits intro: owner_inv_answer)
qed

lemma finish_service_inv:
  assumes "owner_inv (Some activity) {#} s h"
    "act_physical_ptt activity' = act_physical_ptt activity" "act_rendered_ptt activity' = act_rendered_ptt activity"
    "finish_service E activity' result s h = (r, s', h')"
  shows "owner_inv (Some activity) {#} s' h'"
proof -
  have snapshot: "owner_inv x {#w#} t (ReadSnapshot y # g)" if "owner_inv x {#w#} t g" for x w t y g
    using that by (simp add: owner_inv_quiet)
  have plain: "owner_inv x {#} t (ReadSnapshot y # g)" if "owner_inv x {#} t g" for x t y g
    using that by (simp add: owner_inv_quiet)
  show ?thesis
  proof (cases "owner_auxiliary s")
    case None
    then show ?thesis using assms(1,4) plain
      by (auto simp: finish_service_def ask_snapshot_def Let_def split: sum.splits prod.splits)
  next
    case (Some x)
    obtain w k v where x: "x = (w, k, v)" by (cases x) auto
    let ?s = "s\<lparr>owner_auxiliary := None\<rparr>"
    have hand: "owner_inv (Some activity) {#w#} ?s h" "k \<notin> set operating_settings"
      using owner_inv_unwait [OF assms(1)] Some x by auto
    have run: "owner_inv (Some activity) {#} t g"
      if "service_auxiliary E activity' (w, k, v) snapshot ?s (ReadSnapshot (Inr snapshot) # h) = (t, g)" for snapshot t g
      using service_auxiliary_inv [OF snapshot [OF hand(1)] hand(2) _ that assms(2,3)] by simp
    have drop: "owner_inv (Some activity) {#} ?s (DropWork w # ReadSnapshot y # h)" for y
      using snapshot [OF hand(1)] by (rule owner_inv_answer)
    show ?thesis
    proof (cases result)
      case (Inl e)
      then show ?thesis using assms(1,4) by (auto simp: finish_service_def Let_def)
    next
      case (Inr u)
      show ?thesis
      proof (cases "own_snapshot E h")
        case (Inl e)
        then show ?thesis
          using assms(4) Inr Some x drop by (auto simp: finish_service_def ask_snapshot_def Let_def)
      next
        case (Inr y)
        obtain t g where t: "service_auxiliary E activity' (w, k, v) y ?s (ReadSnapshot (Inr y) # h) = (t, g)"
          by fastforce
        have "s' = t" "h' = ReadSnapshot (own_snapshot E g) # g"
          using assms(4) \<open>result = Inr u\<close> Some x Inr t
          by (auto simp: finish_service_def ask_snapshot_def Let_def)
        then show ?thesis using plain [OF run [OF t]] by simp
      qed
    qed
  qed
qed

section \<open>Every run of the owner\<close>

inductive owner_run :: "owner_environment \<Rightarrow> remote_owner \<Rightarrow> owner_history \<Rightarrow> bool" for E where
  run_new: "owner_new open_session config caps settings = Inr s \<Longrightarrow> owner_run E s []"
| run_service: "owner_run E s h \<Longrightarrow> service E now activity s h = Some (r, s', h') \<Longrightarrow> owner_run E s' h'"
| run_retire: "owner_run E s h \<Longrightarrow> retire_owner E s h = (r, s', h') \<Longrightarrow> owner_run E s' h'"

lemma owner_new_empty:
  assumes "owner_new open_session config caps settings = Inr s"
  shows "owner_auxiliary s = None" "owner_pending s = []"
  using assms by (auto simp: owner_new_def res_simps)

lemma service_inv:
  assumes "owner_inv a {#} s h" "service E now activity s h = Some (r, s', h')"
  shows "\<exists>b. owner_inv b {#} s' h'"
proof -
  obtain s1 h1 where u: "take_urgent E now s h = (s1, h1)" by fastforce
  obtain act h2 where act: "report_activity E activity s1 h1 = (act, h2)" by fastforce
  let ?result = "own_advance E h2 act"
  let ?h3 = "EngineAdvance now act ?result # h2"
  have "owner_inv a {#} s1 h2"
    using act take_urgent_inv [OF assms(1) u]
    by (auto simp: report_activity_def ask_source_def intro: owner_inv_quiet split: option.splits)
  then have inv3: "owner_inv (Some act) {#} s1 ?h3"
    by (simp add: owner_inv_def works_taken_def works_answered_def)
  obtain d s2 h4 where d: "drain_completions E s1 ?h3 = Some (d, s2, h4)"
    using assms(2) u act by (auto simp: service_def Let_def split: option.splits)
  have inv4: "owner_inv (Some act) {#} s2 h4" using drain_completions_inv [OF d inv3] .
  show ?thesis
  proof (cases d)
    case (Inl e)
    then show ?thesis using assms(2) u act d inv4 by (auto simp: service_def Let_def)
  next
    case (Inr x)
    obtain s3 h5 where o: "take_ordinary E now s2 h4 = (s3, h5)" by fastforce
    have "finish_service E act ?result s3 h5 = (r, s', h')"
      using assms(2) u act d Inr o by (auto simp: service_def Let_def)
    then show ?thesis using finish_service_inv [OF take_ordinary_inv [OF inv4 o] refl refl] by blast
  qed
qed

lemma owner_inv_drops:
  "owner_inv a (mset (map snd xs)) s h \<Longrightarrow> owner_inv a {#} s (rev (map (\<lambda>(_, w). DropWork w) xs) @ h)"
proof (induction xs arbitrary: h)
  case (Cons x xs)
  obtain i w where x: "x = (i, w)" by (cases x)
  then have "owner_inv a (mset (map snd xs)) s (DropWork w # h)"
    using Cons.prems by (intro owner_inv_answer(2)) simp
  then show ?case using Cons.IH x by simp
qed simp

lemma owner_retire_inv:
  assumes "owner_inv a {#} s h" "retire_owner E s h = (r, s', h')"
  shows "owner_inv a {#} s' h'"
proof -
  define g where "g = (case owner_auxiliary s of None \<Rightarrow> RetireQueue # h | Some (w, _) \<Rightarrow> DropWork w # RetireQueue # h)"
  let ?s = "s\<lparr>owner_auxiliary := None, owner_pending := []\<rparr>"
  have "owner_inv a (mset (map snd (owner_pending s))) ?s g"
    using assms(1)
    by (auto simp: g_def owner_inv_def works_held_def auxiliary_ok_def works_taken_def works_answered_def
        split: option.split)
  then have "owner_inv a {#} ?s (rev (map (\<lambda>(_, w). DropWork w) (owner_pending s)) @ g)" by (rule owner_inv_drops)
  then have "owner_inv a {#} ?s (RetireEngine x # rev (map (\<lambda>(_, w). DropWork w) (owner_pending s)) @ g)" for x
    by (simp add: owner_inv_quiet)
  then show ?thesis using assms(2) by (auto simp: retire_owner_def Let_def g_def split: option.splits)
qed

lemma owner_run_inv: "owner_run E s h \<Longrightarrow> \<exists>a. owner_inv a {#} s h"
proof (induction rule: owner_run.induct)
  case (run_new open_session config caps settings s)
  then have "owner_auxiliary s = None" "owner_pending s = []" by (rule owner_new_empty)+
  then show ?case by (simp add: owner_inv_def works_taken_def works_answered_def works_held_def auxiliary_ok_def)
qed (blast intro: service_inv owner_retire_inv)+

lemma retire_empty: "retire_owner E s h = (r, s', h') \<Longrightarrow> works_held s' = {#}"
  by (auto simp: retire_owner_def Let_def works_held_def)

section \<open>Service returns\<close>

fun completion_count :: "owner_history \<Rightarrow> nat" where
  "completion_count [] = 0"
| "completion_count (EngineCompletion r # h) = Suc (completion_count h)"
| "completion_count (e # h) = completion_count h"

lemma settle_completion_count: "settle_completion c s h = (s', h') \<Longrightarrow> completion_count h' = completion_count h"
  by (auto simp: settle_completion_def split: prod.splits option.splits)

definition engine_drains :: "nat \<Rightarrow> owner_environment \<Rightarrow> bool" where
  "engine_drains n E \<longleftrightarrow> (\<forall>h c. own_completion E h = Inr (Some c) \<longrightarrow> completion_count h < n)"

lemma drain_returns: "engine_drains n E \<Longrightarrow> drain_completions E s h \<noteq> None"
proof (induction "n - completion_count h" arbitrary: s h rule: less_induct)
  case less
  show ?case
  proof (cases "\<exists>c. own_completion E h = Inr (Some c)")
    case True
    then obtain c where c: "own_completion E h = Inr (Some c)" by blast
    then have "completion_count h < n" using less.prems by (auto simp: engine_drains_def)
    moreover obtain s1 h1 where "settle_completion c s (EngineCompletion (Inr (Some c)) # h) = (s1, h1)" by fastforce
    ultimately show ?thesis
      using c less.hyps [of h1 s1] less.prems settle_completion_count [of c s _ s1 h1]
      by (subst drain_completions.simps) (simp add: Let_def)
  next
    case False
    then show ?thesis by (subst drain_completions.simps) (auto simp: Let_def split: sum.split option.split)
  qed
qed

section \<open>The properties\<close>

text \<open>C20: In every run of the owner, whatever the port, the engine and the device answer, every work item it took is
  answered or dropped exactly once or still held by it, and retirement leaves none held. An auxiliary setting is
  written only after the source of its command was found valid and idle, no request was pending and no transmit
  activity reported, the device confirmed an idle transmitter, and the source was found valid and idle once more;
  and it is never a setting of the operating state.
\<close>

theorem owner_accounts:
  assumes "owner_run E s h"
  shows "works_taken h = works_answered h + works_held s \<and> writes_checked h \<and>
    (case retire_owner E s h of (_, s', h') \<Rightarrow> works_held s' = {#} \<and> works_taken h' = works_answered h')"
proof -
  obtain r s' h' where r: "retire_owner E s h = (r, s', h')" by (cases "retire_owner E s h")
  obtain a b where "owner_inv a {#} s h" "owner_inv b {#} s' h'"
    using owner_run_inv [OF assms] owner_run_inv [OF run_retire [OF assms r]] by blast
  then show ?thesis using r retire_empty [OF r] by (simp add: owner_inv_def)
qed

text \<open>C26: A service of the owner returns when the engine reports only finitely many completions.\<close>

theorem service_returns:
  assumes "engine_drains n E"
  shows "service E now activity s h \<noteq> None"
proof -
  obtain s1 h1 where u: "take_urgent E now s h = (s1, h1)" by fastforce
  obtain act h2 where act: "report_activity E activity s1 h1 = (act, h2)" by fastforce
  obtain d s2 h3 where d: "drain_completions E s1 (EngineAdvance now act (own_advance E h2 act) # h2) = Some (d, s2, h3)"
    using drain_returns [OF assms] by fastforce
  show ?thesis
    using u act d by (cases d; cases "take_ordinary E now s2 h3") (simp_all add: service_def Let_def)
qed

text \<open>A run with one auxiliary write from the ordinary queue, on a device that is idle.\<close>

definition sample_configuration :: resolved_remote_configuration where
  "sample_configuration =
     \<lparr>rc_backend = BackendHamlib, rc_audio_source = AudioCm119, rc_hamlib_model = [], rc_hamlib_options = [],
      rc_timeout_ms = 1000, rc_retries = 0, rc_timeout_retries = 0, rc_poll_interval_ms = 1000,
      rc_ptt_source = None, rc_cor_source = None, rc_external_encode_output = None,
      rc_external_encode_inverted = False, rc_receive_ranges = [], rc_transmit_ranges = [],
      rc_receive_only_ranges = [], rc_modes = [1], rc_maximum_power_mw = None, rc_memories = [],
      rc_scan_lists = [], rc_startup_memory = 1, rc_dtmf_access = AccessOpen, rc_dtmf_prefix = ''9'',
      rc_offset_magnitude_hz = None, rc_power_presets_mw = [], rc_scan_presets_ms = [],
      rc_tune_duration_ms = 1000, rc_warnings = []\<rparr>"

definition sample_setting :: rig_setting where
  "sample_setting =
     \<lparr>rig_selector = 100, rig_name = ''af_gain'', rig_readable = True, rig_writable = True, rig_value_kind = 4,
      rig_units = 0, rig_decimal_places = 2, rig_minimum = 0, rig_maximum = 100, rig_choices = []\<rparr>"

definition sample_work :: remote_work where
  "sample_work =
     \<lparr>work_input = InputCommand ((remote_operation_new SetSetting)\<lparr>selector := 100, magnitude := 5, decimal_places := 1\<rparr>),
      work_ticket = 0\<rparr>"

definition sample_environment :: owner_environment where
  "sample_environment =
     \<lparr>own_urgent = (\<lambda>h. None), own_ordinary = (\<lambda>h. Some sample_work),
      own_source = (\<lambda>h w. \<lparr>source_local = True, source_valid = True, source_active = False\<rparr>),
      own_parallel_error = (\<lambda>h. 0),
      own_snapshot = (\<lambda>h. Inr \<lparr>snap_is_applied = True, snap_is_pending = False, snap_requested = zeroed_state,
        snap_applied = zeroed_state\<rparr>),
      own_scan = (\<lambda>h. Inr None), own_request = (\<lambda>h r. Inr 1), own_advance = (\<lambda>h a. Inr ()),
      own_completion = (\<lambda>h. Inr None), own_idle = (\<lambda>h. Inr True), own_get = (\<lambda>h k. Inr 0),
      own_set = (\<lambda>h k v. Inr ()), own_retire = (\<lambda>h. Inr ())\<rparr>"

definition sample_activity :: remote_activity where
  "sample_activity =
     \<lparr>act_command_active = False, act_command_cancelled = False, act_physical_ptt = False, act_rendered_ptt = False\<rparr>"

definition sample_writes :: "owner_history \<Rightarrow> (int \<times> int) list" where
  "sample_writes h = concat (map (\<lambda>e. case e of DeviceSet k v r \<Rightarrow> [(k, v)] | _ \<Rightarrow> []) h)"

definition sample_session :: "engine_setup \<Rightarrow> (call_error, int \<Rightarrow> (call_error, raw_state) result) result" where
  "sample_session setup = Inr (\<lambda>k. Inr zeroed_state)"

definition sample_owner :: remote_owner where
  "sample_owner =
     \<lparr>owner_auxiliary = None, owner_configuration = sample_configuration,
      owner_settings = controller_catalog [sample_setting] selected_capabilities_default, owner_pending = []\<rparr>"

lemma sample_new: "owner_new sample_session sample_configuration selected_capabilities_default [sample_setting] = Inr sample_owner"
  by code_simp

lemma mapped_run:
  assumes "map_option (\<lambda>(r, s, h). (f h, length h)) x = Some (w, n)"
    and "\<And>r s h. x = Some (r, s, h) \<Longrightarrow> f h = w \<Longrightarrow> P"
  shows P
proof (cases x)
  case None
  then show ?thesis using assms(1) by simp
next
  case (Some y)
  obtain r s h where "y = (r, s, h)" by (rule prod_cases3)
  then show ?thesis using assms Some by simp
qed

lemma sample_owner_service:
  "map_option (\<lambda>(r, s, h). (sample_writes h, length h))
     (service sample_environment 0 sample_activity sample_owner []) =
   Some ([(100, 50)], 15)"
  by code_simp

theorem owner_accounts_witness:
  "\<exists>s h. sample_writes h = [(100, 50)] \<and> works_taken h = works_answered h + works_held s \<and> writes_checked h \<and>
    (case retire_owner sample_environment s h of (_, s', h') \<Rightarrow> works_held s' = {#} \<and> works_taken h' = works_answered h')"
proof -
  obtain r s h where run: "service sample_environment 0 sample_activity sample_owner []
      = Some (r, s, h)" "sample_writes h = [(100, 50)]"
    by (rule mapped_run [OF sample_owner_service])
  note account = owner_accounts [OF run_service [OF run_new [OF sample_new] run(1)]]
  show ?thesis by (rule exI [of _ s], rule exI [of _ h], rule conjI [OF run(2) account])
qed

theorem service_returns_witness:
  "service sample_environment 0 sample_activity sample_owner [] \<noteq> None"
proof -
  have "engine_drains 1 sample_environment" by (simp add: engine_drains_def sample_environment_def)
  then show ?thesis by (rule service_returns)
qed

end
