(* ===== verification/Config_Repository.thy ===== *)
theory Config_Repository
  imports Prelude
begin

text \<open>
  Durable storage of the configuration file, \<^verbatim>\<open>rust/tune/src/repository.rs\<close>, over the calls of
  \<open>std::fs\<close> that it makes. The disk binds paths to files and every call may be refused by the system;
  other processes may change the disk between two calls. A trace keeps the disk before and after each call.
  What a call does when the system accepts it is the documented behaviour of the Unix call behind it; a path is
  the list of its components, as \<open>std::path\<close> compares them; names are valid UTF-8 and no path is a symbolic link.
\<close>

section \<open>Paths\<close>

record path =
  path_rooted :: bool
  path_parts :: "string list"

definition file_name :: "path \<Rightarrow> string option" where
  "file_name p =
     (if path_parts p = [] \<or> last (path_parts p) \<in> {''..'', ''.''} then None else Some (last (path_parts p)))"

definition parent :: "path \<Rightarrow> path option" where
  "parent p = (if path_parts p = [] then None else Some (p\<lparr>path_parts := butlast (path_parts p)\<rparr>))"

definition path_join :: "path \<Rightarrow> string \<Rightarrow> path" where
  "path_join p name = p\<lparr>path_parts := path_parts p @ [name]\<rparr>"

definition with_file_name :: "path \<Rightarrow> string \<Rightarrow> path" where
  "with_file_name p name = p\<lparr>path_parts := butlast (path_parts p) @ [name]\<rparr>"

definition here :: path where "here = \<lparr>path_rooted = False, path_parts = [''.'']\<rparr>"

section \<open>The disk\<close>

record stored_file =
  file_data :: string
  file_owner :: "int \<times> int"
  file_mode :: int
  file_synced :: bool

record disk =
  disk_names :: "path \<Rightarrow> nat option"
  disk_files :: "nat \<Rightarrow> stored_file"
  disk_fresh :: nat
  disk_directories :: "path list"

datatype io_kind = NotFound | AlreadyExists | OtherError

datatype fs_call =
    CreateDirs path
  | TryExists path
  | ReadText path
  | ReadMetadata path
  | ReadBytes path
  | CreateNew path
  | WriteAll nat string
  | HandleMetadata nat
  | ChangeOwner nat "int \<times> int"
  | SetMode nat int
  | SyncFile nat
  | RemoveFile path
  | HardLink path path
  | Rename path path
  | OpenDirectory path
  | SyncDirectory path

record fs_move =
  move_call :: fs_call
  move_ok :: bool
  move_before :: disk
  move_after :: disk

text \<open>
  The system: which calls it refuses, what happens on the disk before a call, how much a refused write leaves
  behind, who owns a new file, the clock and the process.
\<close>

record host =
  host_refuses :: "fs_move list \<Rightarrow> fs_call \<Rightarrow> io_kind option"
  host_meanwhile :: "fs_move list \<Rightarrow> disk \<Rightarrow> disk"
  host_partial :: "fs_move list \<Rightarrow> nat"
  host_owner :: "int \<times> int"
  host_mode :: int
  host_seconds :: "fs_move list \<Rightarrow> int"
  host_process :: int

record session =
  on_disk :: disk
  moves :: "fs_move list"
  temp_sequence :: int

datatype repository_error =
    InvalidConfigurationPath path
  | ShippedSampleUnavailable "path list"
  | IoFailure string path io_kind

type_synonym 'a attempt = "session \<Rightarrow> (io_kind, 'a) result \<times> session"
type_synonym 'a action = "session \<Rightarrow> (repository_error, 'a) result \<times> session"

text \<open>One call: the others act, then the system refuses it or it takes its effect.\<close>

definition attempt ::
  "host \<Rightarrow> fs_call \<Rightarrow> (disk \<Rightarrow> disk) \<Rightarrow> (disk \<Rightarrow> (io_kind, 'a) result \<times> disk) \<Rightarrow> 'a attempt" where
  "attempt h call refused effect s =
     (let t = moves s;
          d = host_meanwhile h t (on_disk s);
          (r, e) = (case host_refuses h t call of Some k \<Rightarrow> (Inl k, refused d) | None \<Rightarrow> effect d) in
      (r, s\<lparr>on_disk := e,
            moves := \<lparr>move_call = call, move_ok = (case r of Inl _ \<Rightarrow> False | Inr _ \<Rightarrow> True), move_before = d,
                      move_after = e\<rparr> # t\<rparr>))"

definition looked_up :: "path \<Rightarrow> (stored_file \<Rightarrow> 'a) \<Rightarrow> disk \<Rightarrow> (io_kind, 'a) result \<times> disk" where
  "looked_up p f d =
     (case disk_names d p of None \<Rightarrow> (Inl NotFound, d) | Some i \<Rightarrow> (Inr (f (disk_files d i)), d))"

text \<open>
  The directories from the outermost one down to the path; a refused call has made some of them. Where a
  file stands in the way there is none. A call below a directory that is missing is one the system refuses.
\<close>

definition directories_to :: "path \<Rightarrow> path list" where
  "directories_to p = map (\<lambda>n. p\<lparr>path_parts := take n (path_parts p)\<rparr>) [1..<length (path_parts p) + 1]"

definition make_directories :: "path list \<Rightarrow> disk \<Rightarrow> disk" where
  "make_directories ps d =
     d\<lparr>disk_directories := disk_directories d @ filter (\<lambda>p. p \<notin> set (disk_directories d)) ps\<rparr>"

definition fs_create_dirs :: "host \<Rightarrow> path \<Rightarrow> unit attempt" where
  "fs_create_dirs h p s =
     attempt h (CreateDirs p) (make_directories (take (host_partial h (moves s)) (directories_to p)))
       (\<lambda>d. case dropWhile (\<lambda>q. disk_names d q = None) (directories_to p) of
              [] \<Rightarrow> (Inr (), make_directories (directories_to p) d)
            | q # _ \<Rightarrow>
                (Inl (if q = p then AlreadyExists else OtherError),
                 make_directories (takeWhile (\<lambda>q. disk_names d q = None) (directories_to p)) d)) s"

definition fs_try_exists :: "host \<Rightarrow> path \<Rightarrow> bool attempt" where
  "fs_try_exists h p = attempt h (TryExists p) id (\<lambda>d. (Inr (disk_names d p \<noteq> None), d))"

definition fs_read_text :: "host \<Rightarrow> path \<Rightarrow> string attempt" where
  "fs_read_text h p = attempt h (ReadText p) id (looked_up p file_data)"

definition fs_metadata :: "host \<Rightarrow> path \<Rightarrow> stored_file attempt" where
  "fs_metadata h p = attempt h (ReadMetadata p) id (looked_up p id)"

definition fs_read :: "host \<Rightarrow> path \<Rightarrow> string attempt" where
  "fs_read h p = attempt h (ReadBytes p) id (looked_up p file_data)"

definition fs_create_new :: "host \<Rightarrow> path \<Rightarrow> nat attempt" where
  "fs_create_new h p = attempt h (CreateNew p) id (\<lambda>d.
     case disk_names d p of
       Some _ \<Rightarrow> (Inl AlreadyExists, d)
     | None \<Rightarrow>
         (Inr (disk_fresh d),
          d\<lparr>disk_names := (disk_names d)(p \<mapsto> disk_fresh d),
            disk_files := (disk_files d)
              (disk_fresh d := \<lparr>file_data = [], file_owner = host_owner h, file_mode = host_mode h, file_synced = False\<rparr>),
            disk_fresh := Suc (disk_fresh d)\<rparr>))"

definition change_file :: "nat \<Rightarrow> (stored_file \<Rightarrow> stored_file) \<Rightarrow> disk \<Rightarrow> disk" where
  "change_file i f d = d\<lparr>disk_files := (disk_files d)(i := f (disk_files d i))\<rparr>"

definition fs_write_all :: "host \<Rightarrow> nat \<Rightarrow> string \<Rightarrow> unit attempt" where
  "fs_write_all h i contents s =
     attempt h (WriteAll i contents)
       (change_file i (\<lambda>f. f\<lparr>file_data := file_data f @ take (host_partial h (moves s)) contents, file_synced := False\<rparr>))
       (\<lambda>d. (Inr (), change_file i (\<lambda>f. f\<lparr>file_data := file_data f @ contents, file_synced := False\<rparr>) d)) s"

definition fs_handle_metadata :: "host \<Rightarrow> nat \<Rightarrow> stored_file attempt" where
  "fs_handle_metadata h i = attempt h (HandleMetadata i) id (\<lambda>d. (Inr (disk_files d i), d))"

definition fs_change_owner :: "host \<Rightarrow> nat \<Rightarrow> int \<times> int \<Rightarrow> unit attempt" where
  "fs_change_owner h i who =
     attempt h (ChangeOwner i who) id
       (\<lambda>d. (Inr (), change_file i (\<lambda>f. f\<lparr>file_owner := who, file_synced := False\<rparr>) d))"

definition fs_set_mode :: "host \<Rightarrow> nat \<Rightarrow> int \<Rightarrow> unit attempt" where
  "fs_set_mode h i mode =
     attempt h (SetMode i mode) id
       (\<lambda>d. (Inr (), change_file i (\<lambda>f. f\<lparr>file_mode := mode, file_synced := False\<rparr>) d))"

definition fs_sync_all :: "host \<Rightarrow> nat \<Rightarrow> unit attempt" where
  "fs_sync_all h i =
     attempt h (SyncFile i) id (\<lambda>d. (Inr (), change_file i (\<lambda>f. f\<lparr>file_synced := True\<rparr>) d))"

definition fs_remove :: "host \<Rightarrow> path \<Rightarrow> unit attempt" where
  "fs_remove h p = attempt h (RemoveFile p) id (\<lambda>d.
     if disk_names d p = None then (Inl NotFound, d)
     else (Inr (), d\<lparr>disk_names := (disk_names d)(p := None)\<rparr>))"

definition fs_hard_link :: "host \<Rightarrow> path \<Rightarrow> path \<Rightarrow> unit attempt" where
  "fs_hard_link h p q = attempt h (HardLink p q) id (\<lambda>d.
     case disk_names d p of
       None \<Rightarrow> (Inl NotFound, d)
     | Some i \<Rightarrow>
         if disk_names d q \<noteq> None then (Inl AlreadyExists, d)
         else (Inr (), d\<lparr>disk_names := (disk_names d)(q \<mapsto> i)\<rparr>))"

definition fs_rename :: "host \<Rightarrow> path \<Rightarrow> path \<Rightarrow> unit attempt" where
  "fs_rename h p q = attempt h (Rename p q) id (\<lambda>d.
     case disk_names d p of
       None \<Rightarrow> (Inl NotFound, d)
     | Some i \<Rightarrow>
         if disk_names d q = Some i then (Inr (), d)
         else (Inr (), d\<lparr>disk_names := (disk_names d)(p := None, q \<mapsto> i)\<rparr>))"

definition fs_open_directory :: "host \<Rightarrow> path \<Rightarrow> unit attempt" where
  "fs_open_directory h p = attempt h (OpenDirectory p) id (\<lambda>d. (Inr (), d))"

definition fs_sync_directory :: "host \<Rightarrow> path \<Rightarrow> unit attempt" where
  "fs_sync_directory h p = attempt h (SyncDirectory p) id (\<lambda>d. (Inr (), d))"

section \<open>Sequencing\<close>

definition act_return :: "'a \<Rightarrow> 'a action" where
  "act_return a = (\<lambda>s. (Inr a, s))"

definition act_fail :: "repository_error \<Rightarrow> 'a action" where
  "act_fail e = (\<lambda>s. (Inl e, s))"

definition act_bind :: "'a action \<Rightarrow> ('a \<Rightarrow> 'b action) \<Rightarrow> 'b action" where
  "act_bind m f = (\<lambda>s. case m s of (Inl e, s) \<Rightarrow> (Inl e, s) | (Inr a, s) \<Rightarrow> f a s)"

text \<open>\<open>RepositoryError::io\<close> on a failed call.\<close>

definition act_io :: "string \<Rightarrow> path \<Rightarrow> 'a attempt \<Rightarrow> 'a action" where
  "act_io what p m = (\<lambda>s. case m s of (r, s) \<Rightarrow> (map_sum (IoFailure what p) id r, s))"

text \<open>A step that runs when the first has failed; its own outcome is ignored.\<close>

definition act_cleanup :: "'a action \<Rightarrow> unit attempt \<Rightarrow> 'a action" where
  "act_cleanup m c = (\<lambda>s. case m s of (Inl e, s) \<Rightarrow> (Inl e, snd (c s)) | (Inr a, s) \<Rightarrow> (Inr a, s))"

section \<open>The repository\<close>

record config_repository =
  config_path :: path
  sample_candidates :: "path list"

datatype creation_status = Existing | Created

definition NEW_CONFIG_MODE :: int where "NEW_CONFIG_MODE = 416"

definition parent_directory :: "config_repository \<Rightarrow> (repository_error, path) result" where
  "parent_directory r =
     (if file_name (config_path r) = None then Inl (InvalidConfigurationPath (config_path r))
      else
        Inr (case parent (config_path r) of
               None \<Rightarrow> here
             | Some p \<Rightarrow> if path_parts p = [] \<and> \<not> path_rooted p then here else p))"

definition act_result :: "(repository_error, 'a) result \<Rightarrow> 'a action" where
  "act_result r = (\<lambda>s. (r, s))"

definition next_sequence_number :: "int action" where
  "next_sequence_number s = (Inr (temp_sequence s), s\<lparr>temp_sequence := (temp_sequence s + 1) mod 2 ^ 64\<rparr>)"

definition preserve_owner :: "host \<Rightarrow> nat \<Rightarrow> path \<Rightarrow> stored_file \<Rightarrow> unit action" where
  "preserve_owner h i p metadata =
     act_bind (act_io ''read temporary file metadata'' p (fs_handle_metadata h i)) (\<lambda>current.
       if file_owner current = file_owner metadata then act_return ()
       else act_io ''preserve file ownership'' p (fs_change_owner h i (file_owner metadata)))"

definition prepare_file :: "host \<Rightarrow> nat \<Rightarrow> path \<Rightarrow> string \<Rightarrow> stored_file option \<Rightarrow> unit action" where
  "prepare_file h i p contents metadata =
     act_bind (act_io ''write temporary file'' p (fs_write_all h i contents)) (\<lambda>_.
     act_bind
       (case metadata of
          Some m \<Rightarrow>
            act_bind (preserve_owner h i p m) (\<lambda>_.
              act_io ''preserve file permissions'' p (fs_set_mode h i (file_mode m)))
        | None \<Rightarrow> act_io ''set configuration permissions'' p (fs_set_mode h i NEW_CONFIG_MODE)) (\<lambda>_.
     act_io ''synchronize temporary file'' p (fs_sync_all h i)))"

definition prepare_pending :: "host \<Rightarrow> nat \<Rightarrow> path \<Rightarrow> string \<Rightarrow> stored_file option \<Rightarrow> path action" where
  "prepare_pending h i p contents metadata =
     act_bind (act_cleanup (prepare_file h i p contents metadata) (fs_remove h p)) (\<lambda>_. act_return p)"

definition temporary_name :: "host \<Rightarrow> string \<Rightarrow> int \<Rightarrow> string" where
  "temporary_name h name n = ''.'' @ name @ ''.tmp.'' @ dec_digits (host_process h) @ ''.'' @ dec_digits n"

definition write_temporary ::
  "host \<Rightarrow> config_repository \<Rightarrow> string \<Rightarrow> stored_file option \<Rightarrow> path action" where
  "write_temporary h r contents metadata =
     act_bind (act_result (ok_or (InvalidConfigurationPath (config_path r)) (file_name (config_path r)))) (\<lambda>name.
     act_bind (act_result (parent_directory r)) (\<lambda>directory.
     act_bind next_sequence_number (\<lambda>n.
     let p = path_join directory (temporary_name h name n) in
     act_bind (act_io ''create temporary file'' p (fs_create_new h p)) (\<lambda>i.
     prepare_pending h i p contents metadata))))"

definition sync_parent :: "host \<Rightarrow> config_repository \<Rightarrow> unit action" where
  "sync_parent h r =
     act_bind (act_result (parent_directory r)) (\<lambda>p.
     act_bind (act_io ''open containing directory'' p (fs_open_directory h p)) (\<lambda>_.
     act_io ''synchronize containing directory'' p (fs_sync_directory h p)))"

text \<open>
  A pending file is removed when it is dropped, unless it was committed or removed; a failed removal is tried again.
\<close>

definition link_pending :: "host \<Rightarrow> path \<Rightarrow> path \<Rightarrow> string \<Rightarrow> unit action" where
  "link_pending h p q what =
     act_bind (act_cleanup (act_io what q (fs_hard_link h p q)) (fs_remove h p)) (\<lambda>_.
     act_cleanup (act_io ''remove temporary file'' p (fs_remove h p)) (fs_remove h p))"

definition write_new :: "host \<Rightarrow> config_repository \<Rightarrow> string \<Rightarrow> unit action" where
  "write_new h r contents =
     act_bind (write_temporary h r contents None) (\<lambda>p.
     act_bind (link_pending h p (config_path r) ''create configuration'') (\<lambda>_.
     sync_parent h r))"

fun read_first_sample :: "host \<Rightarrow> config_repository \<Rightarrow> path list \<Rightarrow> string action" where
  "read_first_sample h r [] = act_fail (ShippedSampleUnavailable (sample_candidates r))"
| "read_first_sample h r (p # ps) =
     (\<lambda>s. case fs_read_text h p s of
            (Inr contents, s) \<Rightarrow> (Inr contents, s)
          | (Inl k, s) \<Rightarrow>
              if k = NotFound then read_first_sample h r ps s
              else (Inl (IoFailure ''read shipped configuration sample'' p k), s))"

definition creation_status_of :: "(repository_error, unit) result \<Rightarrow> (repository_error, creation_status) result" where
  "creation_status_of r =
     (case r of
        Inr _ \<Rightarrow> Inr Created
      | Inl e \<Rightarrow>
          (case e of
             IoFailure _ _ k \<Rightarrow> if k = AlreadyExists then Inr Existing else Inl e
           | _ \<Rightarrow> Inl e))"

definition ensure_exists :: "host \<Rightarrow> config_repository \<Rightarrow> creation_status action" where
  "ensure_exists h r =
     act_bind (act_result (parent_directory r)) (\<lambda>directory.
     act_bind (act_io ''create directory'' directory (fs_create_dirs h directory)) (\<lambda>_.
     act_bind (act_io ''inspect path'' (config_path r) (fs_try_exists h (config_path r))) (\<lambda>present.
       if present then act_return Existing
       else
         act_bind (read_first_sample h r (sample_candidates r)) (\<lambda>contents.
         \<lambda>s. case write_new h r contents s of (outcome, s) \<Rightarrow> (creation_status_of outcome, s)))))"

definition read_configuration :: "host \<Rightarrow> config_repository \<Rightarrow> string action" where
  "read_configuration h r = act_io ''read configuration'' (config_path r) (fs_read_text h (config_path r))"

definition write_atomic :: "host \<Rightarrow> config_repository \<Rightarrow> string \<Rightarrow> unit action" where
  "write_atomic h r contents =
     act_bind (act_io ''read configuration metadata'' (config_path r) (fs_metadata h (config_path r))) (\<lambda>metadata.
     act_bind (write_temporary h r contents (Some metadata)) (\<lambda>p.
     act_bind
       (act_cleanup (act_io ''replace configuration'' (config_path r) (fs_rename h p (config_path r))) (fs_remove h p))
       (\<lambda>_. sync_parent h r)))"

definition backup_suffix :: "host \<Rightarrow> int \<Rightarrow> int \<Rightarrow> string" where
  "backup_suffix h seconds n =
     ''.bak.'' @ dec_digits seconds @ ''.'' @ dec_digits (host_process h) @ ''.'' @ dec_digits n"

definition append_to_file_name :: "path \<Rightarrow> string \<Rightarrow> (repository_error, path) result" where
  "append_to_file_name p suffix =
     res_bind (ok_or (InvalidConfigurationPath p) (file_name p)) (\<lambda>name. Inr (with_file_name p (name @ suffix)))"

definition create_backup :: "host \<Rightarrow> config_repository \<Rightarrow> path action" where
  "create_backup h r =
     act_bind (act_io ''read configuration metadata'' (config_path r) (fs_metadata h (config_path r))) (\<lambda>metadata.
     act_bind (act_io ''read configuration'' (config_path r) (fs_read h (config_path r))) (\<lambda>contents.
     act_bind (\<lambda>s. (Inr (host_seconds h (moves s)), s)) (\<lambda>seconds.
     act_bind next_sequence_number (\<lambda>n.
     act_bind (act_result (append_to_file_name (config_path r) (backup_suffix h seconds n))) (\<lambda>q.
     act_bind (write_temporary h r contents (Some metadata)) (\<lambda>p.
     act_bind (link_pending h p q ''create backup'') (\<lambda>_.
     act_bind (sync_parent h r) (\<lambda>_.
     act_return q))))))))"

end
