(* ===== verification/Config_Repository_Safety.thy ===== *)
theory Config_Repository_Safety
  imports Config_Repository
begin

text \<open>
  What the repository does to the disk: the configuration is replaced, created or copied as a whole or not at
  all, whatever calls the system refuses and whatever other processes do meanwhile.
\<close>

section \<open>Moves\<close>

definition is_temporary :: "host \<Rightarrow> config_repository \<Rightarrow> path \<Rightarrow> bool" where
  "is_temporary h r x \<longleftrightarrow>
     (\<exists>directory name n. parent_directory r = Inr directory \<and> file_name (config_path r) = Some name \<and>
        x = path_join directory (temporary_name h name n))"

text \<open>A call that changes nothing but temporary files of this process.\<close>

definition harmless :: "host \<Rightarrow> config_repository \<Rightarrow> fs_move \<Rightarrow> bool" where
  "harmless h r m \<longleftrightarrow>
     (\<forall>x. \<not> is_temporary h r x \<longrightarrow>
        disk_names (move_after m) x = disk_names (move_before m) x \<and>
        (\<forall>i. disk_names (move_before m) x = Some i \<longrightarrow> disk_files (move_after m) i = disk_files (move_before m) i))"

definition valid_disk :: "disk \<Rightarrow> bool" where
  "valid_disk d \<longleftrightarrow> (\<forall>x i. disk_names d x = Some i \<longrightarrow> i < disk_fresh d)"

definition sole :: "disk \<Rightarrow> path \<Rightarrow> nat \<Rightarrow> bool" where
  "sole d p i \<longleftrightarrow> disk_names d p = Some i \<and> (\<forall>x. disk_names d x = Some i \<longrightarrow> x = p)"

text \<open>Other processes leave the temporary files of this one alone.\<close>

definition undisturbed :: "host \<Rightarrow> config_repository \<Rightarrow> bool" where
  "undisturbed h r \<longleftrightarrow>
     (\<forall>t d. valid_disk d \<longrightarrow> valid_disk (host_meanwhile h t d) \<and>
        (\<forall>p i. is_temporary h r p \<and> sole d p i \<longrightarrow>
           sole (host_meanwhile h t d) p i \<and> disk_files (host_meanwhile h t d) i = disk_files d i))"

text \<open>Every temporary file that was created was renamed or its removal was tried.\<close>

definition creates :: "path \<Rightarrow> fs_move \<Rightarrow> bool" where
  "creates x m \<longleftrightarrow> move_ok m \<and> move_call m = CreateNew x"

definition disposes :: "path \<Rightarrow> fs_move \<Rightarrow> bool" where
  "disposes x m \<longleftrightarrow> move_call m = RemoveFile x \<or> move_ok m \<and> (\<exists>q. move_call m = Rename x q)"

definition settled_but :: "path set \<Rightarrow> fs_move list \<Rightarrow> bool" where
  "settled_but P ms \<longleftrightarrow> (\<forall>x. x \<notin> P \<longrightarrow> list_ex (creates x) ms \<longrightarrow> list_ex (disposes x) ms)"

definition kept :: "host \<Rightarrow> config_repository \<Rightarrow> (fs_move list \<Rightarrow> bool) \<Rightarrow> bool" where
  "kept h r X \<longleftrightarrow> (\<forall>m ms. harmless h r m \<longrightarrow> X ms \<longrightarrow> X (m # ms))"

section \<open>Correctness of actions\<close>

definition ensures ::
  "(session \<Rightarrow> bool) \<Rightarrow> (session \<Rightarrow> ('e, 'a) result \<times> session) \<Rightarrow> ('a \<Rightarrow> session \<Rightarrow> bool) \<Rightarrow>
   ('e \<Rightarrow> session \<Rightarrow> bool) \<Rightarrow> bool" where
  "ensures P a Q E \<longleftrightarrow>
     (\<forall>s. P s \<longrightarrow> (case a s of (Inl e, s') \<Rightarrow> E e s' | (Inr x, s') \<Rightarrow> Q x s'))"

lemma ensuresI:
  assumes "\<And>s e s'. P s \<Longrightarrow> a s = (Inl e, s') \<Longrightarrow> E e s'" "\<And>s x s'. P s \<Longrightarrow> a s = (Inr x, s') \<Longrightarrow> Q x s'"
  shows "ensures P a Q E"
  unfolding ensures_def
proof (intro allI impI)
  fix s assume "P s"
  obtain x t where t: "a s = (x, t)" by (cases "a s")
  show "case a s of (Inl e, s') \<Rightarrow> E e s' | (Inr x, s') \<Rightarrow> Q x s'"
    using assms(1) [OF \<open>P s\<close>] assms(2) [OF \<open>P s\<close>] t by (cases x) simp_all
qed

lemma ensuresD:
  assumes "ensures P a Q E" "P s"
  shows "a s = (Inl e, s') \<Longrightarrow> E e s'" "a s = (Inr x, s') \<Longrightarrow> Q x s'"
  using assms unfolding ensures_def by (auto dest: spec [of _ s])

lemma ensures_bind:
  assumes "ensures P a R E" "\<And>x. ensures (R x) (f x) Q E"
  shows "ensures P (act_bind a f) Q E"
proof (rule ensuresI)
  fix s e s' assume "P s" "act_bind a f s = (Inl e, s')"
  then show "E e s'"
    using ensuresD [OF assms(1) \<open>P s\<close>] ensuresD(1) [OF assms(2)]
    by (auto simp: act_bind_def split: prod.splits sum.splits)
next
  fix s x s' assume "P s" "act_bind a f s = (Inr x, s')"
  then show "Q x s'"
    using ensuresD [OF assms(1) \<open>P s\<close>] ensuresD(2) [OF assms(2)]
    by (auto simp: act_bind_def split: prod.splits sum.splits)
qed

lemma ensures_io:
  assumes "ensures P a Q (\<lambda>k. E (IoFailure what p k))"
  shows "ensures P (act_io what p a) Q E"
  unfolding ensures_def
proof (intro allI impI)
  fix s assume P: "P s"
  obtain x t where t: "a s = (x, t)" by (cases "a s")
  show "case act_io what p a s of (Inl e, s') \<Rightarrow> E e s' | (Inr x, s') \<Rightarrow> Q x s'"
    using ensuresD [OF assms P] t by (cases x) (simp_all add: act_io_def)
qed

lemma ensures_cleanup:
  assumes "ensures P a Q F" "\<And>e. ensures (F e) c (\<lambda>_. E e) (\<lambda>_. E e)"
  shows "ensures P (act_cleanup a c) Q E"
proof (rule ensuresI)
  fix s e s' assume P: "P s" and "act_cleanup a c s = (Inl e, s')"
  then obtain t where t: "a s = (Inl e, t)" "s' = snd (c t)" by (auto simp: act_cleanup_def split: prod.splits sum.splits)
  obtain y u where "c t = (y, u)" by (cases "c t")
  then show "E e s'"
    using ensuresD [OF assms(2) ensuresD(1) [OF assms(1) P t(1)]] t(2) by (cases y) auto
next
  fix s x s' assume "P s" "act_cleanup a c s = (Inr x, s')"
  then show "Q x s'" using ensuresD(2) [OF assms(1) \<open>P s\<close>] by (auto simp: act_cleanup_def split: prod.splits sum.splits)
qed

lemma ensures_weaken:
  assumes "ensures P a Q E" "\<And>s. P' s \<Longrightarrow> P s" "\<And>x s. Q x s \<Longrightarrow> Q' x s" "\<And>e s. E e s \<Longrightarrow> E' e s"
  shows "ensures P' a Q' E'"
  by (rule ensuresI) (use ensuresD [OF assms(1) assms(2)] assms(3,4) in blast)+

lemma ensures_return: "(\<And>s. P s \<Longrightarrow> Q x s) \<Longrightarrow> ensures P (act_return x) Q E"
  by (simp add: ensures_def act_return_def)

lemma ensures_result:
  "(\<And>x s. v = Inr x \<Longrightarrow> P s \<Longrightarrow> Q x s) \<Longrightarrow> (\<And>e s. v = Inl e \<Longrightarrow> P s \<Longrightarrow> E e s) \<Longrightarrow> ensures P (act_result v) Q E"
  by (auto simp: ensures_def act_result_def split: sum.split)

text \<open>One call, with the disk that it finds.\<close>

lemma ensures_attempt:
  assumes "\<And>s d k. P s \<Longrightarrow> d = host_meanwhile h (moves s) (on_disk s) \<Longrightarrow>
      E k (s\<lparr>on_disk := refused d, moves := \<lparr>move_call = c, move_ok = False, move_before = d, move_after = refused d\<rparr> # moves s\<rparr>)"
    and "\<And>s d k e. P s \<Longrightarrow> d = host_meanwhile h (moves s) (on_disk s) \<Longrightarrow> effect d = (Inl k, e) \<Longrightarrow>
      E k (s\<lparr>on_disk := e, moves := \<lparr>move_call = c, move_ok = False, move_before = d, move_after = e\<rparr> # moves s\<rparr>)"
    and "\<And>s d x e. P s \<Longrightarrow> d = host_meanwhile h (moves s) (on_disk s) \<Longrightarrow> effect d = (Inr x, e) \<Longrightarrow>
      Q x (s\<lparr>on_disk := e, moves := \<lparr>move_call = c, move_ok = True, move_before = d, move_after = e\<rparr> # moves s\<rparr>)"
  shows "ensures P (attempt h c refused effect) Q E"
  unfolding ensures_def
proof (intro allI impI)
  fix s assume "P s"
  let ?d = "host_meanwhile h (moves s) (on_disk s)"
  show "case attempt h c refused effect s of (Inl e, s') \<Rightarrow> E e s' | (Inr x, s') \<Rightarrow> Q x s'"
  proof (cases "host_refuses h (moves s) c")
    case None
    then show ?thesis
      using assms(2) [OF \<open>P s\<close> refl] assms(3) [OF \<open>P s\<close> refl]
      by (cases "effect ?d"; cases "fst (effect ?d)") (auto simp: attempt_def Let_def)
  next
    case (Some k)
    then show ?thesis using assms(1) [OF \<open>P s\<close> refl] by (simp add: attempt_def Let_def)
  qed
qed

section \<open>The states of a transaction\<close>

definition idle :: "(fs_move list \<Rightarrow> bool) \<Rightarrow> session \<Rightarrow> bool" where
  "idle X s \<longleftrightarrow> valid_disk (on_disk s) \<and> settled_but {} (moves s) \<and> X (moves s)"

definition holding ::
  "host \<Rightarrow> config_repository \<Rightarrow> (fs_move list \<Rightarrow> bool) \<Rightarrow> path \<Rightarrow> nat \<Rightarrow> stored_file \<Rightarrow> session \<Rightarrow> bool" where
  "holding h r X p i f s \<longleftrightarrow>
     valid_disk (on_disk s) \<and> settled_but {p} (moves s) \<and> X (moves s) \<and> is_temporary h r p \<and>
     sole (on_disk s) p i \<and> disk_files (on_disk s) i = f"

text \<open>The temporary file may be left: it is to be removed.\<close>

definition pending_removal :: "(fs_move list \<Rightarrow> bool) \<Rightarrow> path \<Rightarrow> session \<Rightarrow> bool" where
  "pending_removal X p s \<longleftrightarrow> valid_disk (on_disk s) \<and> settled_but {p} (moves s) \<and> X (moves s)"

lemma pending_removal_intros:
  "idle X s \<Longrightarrow> pending_removal X p s" "holding h r X p i f s \<Longrightarrow> pending_removal X p s"
  by (auto simp: idle_def holding_def pending_removal_def settled_but_def)

lemma settled_but_cons:
  "settled_but P ms \<Longrightarrow> (\<And>x. x \<notin> P \<Longrightarrow> \<not> creates x m) \<Longrightarrow> settled_but P (m # ms)"
  by (auto simp: settled_but_def)

lemma settled_but_dispose: "settled_but {p} ms \<Longrightarrow> disposes p m \<Longrightarrow> \<not> creates x m \<Longrightarrow> settled_but {} (m # ms)"
  unfolding settled_but_def creates_def disposes_def by auto

lemma meanwhile_valid: "undisturbed h r \<Longrightarrow> valid_disk d \<Longrightarrow> valid_disk (host_meanwhile h t d)"
  by (simp add: undisturbed_def)

lemma meanwhile_sole:
  assumes "undisturbed h r" "valid_disk d" "is_temporary h r p" "sole d p i"
  shows "sole (host_meanwhile h t d) p i" "disk_files (host_meanwhile h t d) i = disk_files d i"
  using assms by (auto simp: undisturbed_def)

lemma harmless_same: "move_after m = move_before m \<Longrightarrow> harmless h r m"
  by (simp add: harmless_def)

lemma harmless_change:
  assumes "move_after m = change_file i g (move_before m)" "sole (move_before m) p i" "is_temporary h r p"
  shows "harmless h r m"
  using assms by (auto simp: harmless_def change_file_def sole_def)

lemma kept_cons: "kept h r X \<Longrightarrow> harmless h r m \<Longrightarrow> X ms \<Longrightarrow> X (m # ms)"
  by (simp add: kept_def)

text \<open>A call that changes no file, whatever it does to the directories.\<close>

definition same_files :: "disk \<Rightarrow> disk \<Rightarrow> bool" where
  "same_files d e \<longleftrightarrow> disk_names e = disk_names d \<and> disk_files e = disk_files d \<and> disk_fresh e = disk_fresh d"

lemma same_files_refl [simp]: "same_files d d"
  by (simp add: same_files_def)

lemma same_files_directories [simp]: "same_files d (make_directories ps d)"
  by (simp add: same_files_def make_directories_def)

lemma files_idle:
  assumes quiet: "undisturbed h r" "kept h r X"
    and "\<And>d. same_files d (refused d)" "\<And>d. same_files d (snd (effect d))" "\<And>x. c \<noteq> CreateNew x"
  shows "ensures (idle X) (attempt h c refused effect) (\<lambda>_. idle X) (\<lambda>_. idle X)"
proof (rule ensures_attempt)
  fix s d k assume s: "idle X s" and d: "d = host_meanwhile h (moves s) (on_disk s)"
  have *: "idle X (s\<lparr>on_disk := e, moves := \<lparr>move_call = c, move_ok = b, move_before = d, move_after = e\<rparr> # moves s\<rparr>)"
    if same: "same_files d e" for b e
  proof -
    let ?m = "\<lparr>move_call = c, move_ok = b, move_before = d, move_after = e\<rparr>"
    have "harmless h r ?m" using same by (simp add: harmless_def same_files_def)
    then have "X (?m # moves s)" using s kept_cons [OF quiet(2)] by (simp add: idle_def)
    moreover have "valid_disk e"
      using same s d meanwhile_valid [OF quiet(1)] by (simp add: idle_def valid_disk_def same_files_def)
    ultimately show ?thesis
      using s assms(5) by (auto simp: idle_def creates_def intro!: settled_but_cons)
  qed
  show "idle X (s\<lparr>on_disk := refused d,
      moves := \<lparr>move_call = c, move_ok = False, move_before = d, move_after = refused d\<rparr> # moves s\<rparr>)"
    using * assms(3) by simp
  fix e
  show "effect d = (Inl k, e) \<Longrightarrow>
      idle X (s\<lparr>on_disk := e, moves := \<lparr>move_call = c, move_ok = False, move_before = d, move_after = e\<rparr> # moves s\<rparr>)"
    using * assms(4) [of d] by simp
  fix x
  show "effect d = (Inr x, e) \<Longrightarrow>
      idle X (s\<lparr>on_disk := e, moves := \<lparr>move_call = c, move_ok = True, move_before = d, move_after = e\<rparr> # moves s\<rparr>)"
    using * assms(4) [of d] by simp
qed

lemma observe_idle:
  assumes "undisturbed h r" "kept h r X" and "\<And>d. snd (effect d) = d" "\<And>x. c \<noteq> CreateNew x"
  shows "ensures (idle X) (attempt h c id effect) (\<lambda>_. idle X) (\<lambda>_. idle X)"
  using assms by (intro files_idle) simp_all

lemma create_dirs_idle:
  assumes "undisturbed h r" "kept h r X"
  shows "ensures (idle X) (fs_create_dirs h p) (\<lambda>_. idle X) (\<lambda>_. idle X)"
  unfolding ensures_def fs_create_dirs_def
proof (intro allI impI, goal_cases)
  case (1 s)
  have "ensures (idle X)
      (attempt h (CreateDirs p) (make_directories (take (host_partial h (moves s)) (directories_to p)))
        (\<lambda>d. case dropWhile (\<lambda>q. disk_names d q = None) (directories_to p) of
              [] \<Rightarrow> (Inr (), make_directories (directories_to p) d)
            | q # _ \<Rightarrow>
                (Inl (if q = p then AlreadyExists else OtherError),
                 make_directories (takeWhile (\<lambda>q. disk_names d q = None) (directories_to p)) d)))
      (\<lambda>_. idle X) (\<lambda>_. idle X)"
    by (rule files_idle [OF assms]) (simp_all split: list.split)
  from this [unfolded ensures_def, rule_format, OF 1] show ?case .
qed

lemma holding_found:
  assumes "undisturbed h r" "holding h r X p i f s"
  shows "valid_disk (host_meanwhile h t (on_disk s))" "sole (host_meanwhile h t (on_disk s)) p i"
    "disk_files (host_meanwhile h t (on_disk s)) i = f"
  using assms meanwhile_valid [OF assms(1)] meanwhile_sole [OF assms(1)] unfolding holding_def by blast+

lemma holding_unchanged:
  assumes "undisturbed h r" "kept h r X" "holding h r X p i f s" "d = host_meanwhile h (moves s) (on_disk s)"
    and "\<And>x. c \<noteq> CreateNew x"
  shows "holding h r X p i f
      (s\<lparr>on_disk := d, moves := \<lparr>move_call = c, move_ok = b, move_before = d, move_after = d\<rparr> # moves s\<rparr>)"
proof -
  have "settled_but {p} (\<lparr>move_call = c, move_ok = b, move_before = d, move_after = d\<rparr> # moves s)"
    using assms(3,5) by (intro settled_but_cons) (simp_all add: holding_def creates_def)
  moreover have "X (\<lparr>move_call = c, move_ok = b, move_before = d, move_after = d\<rparr> # moves s)"
    using assms(3) by (intro kept_cons [OF assms(2) harmless_same]) (simp_all add: holding_def)
  ultimately show ?thesis
    using assms(3) holding_found [OF assms(1,3), of "moves s", folded assms(4)] by (simp add: holding_def)
qed

lemma observe_holding:
  assumes quiet: "undisturbed h r" "kept h r X" and "\<And>d. snd (effect d) = d" "\<And>x. c \<noteq> CreateNew x"
  shows "ensures (holding h r X p i f) (attempt h c id effect) (\<lambda>_. holding h r X p i f) (\<lambda>_. holding h r X p i f)"
proof (rule ensures_attempt)
  fix s d k assume s: "holding h r X p i f s" and d: "d = host_meanwhile h (moves s) (on_disk s)"
  note * = holding_unchanged [OF quiet s d assms(4)]
  show "holding h r X p i f
      (s\<lparr>on_disk := id d, moves := \<lparr>move_call = c, move_ok = False, move_before = d, move_after = id d\<rparr> # moves s\<rparr>)"
    using * by simp
  fix e
  show "effect d = (Inl k, e) \<Longrightarrow> holding h r X p i f
      (s\<lparr>on_disk := e, moves := \<lparr>move_call = c, move_ok = False, move_before = d, move_after = e\<rparr> # moves s\<rparr>)"
    using * assms(3) [of d] by simp
  fix x
  show "effect d = (Inr x, e) \<Longrightarrow> holding h r X p i f
      (s\<lparr>on_disk := e, moves := \<lparr>move_call = c, move_ok = True, move_before = d, move_after = e\<rparr> # moves s\<rparr>)"
    using * assms(3) [of d] by simp
qed

lemma create_temporary:
  assumes quiet: "undisturbed h r" "kept h r X" and temp: "is_temporary h r p"
  shows "ensures (idle X) (fs_create_new h p)
     (\<lambda>i. holding h r X p i \<lparr>file_data = [], file_owner = host_owner h, file_mode = host_mode h, file_synced = False\<rparr>)
     (\<lambda>_. idle X)"
  unfolding fs_create_new_def
proof (rule ensures_attempt)
  fix s d k assume s: "idle X s" and d: "d = host_meanwhile h (moves s) (on_disk s)"
  have *: "idle X (s\<lparr>on_disk := d, moves := \<lparr>move_call = CreateNew p, move_ok = False, move_before = d, move_after = d\<rparr> # moves s\<rparr>)"
    using s d meanwhile_valid [OF quiet(1)] kept_cons [OF quiet(2) harmless_same]
    by (auto simp: idle_def creates_def intro!: settled_but_cons)
  show "idle X (s\<lparr>on_disk := id d, moves := \<lparr>move_call = CreateNew p, move_ok = False, move_before = d, move_after = id d\<rparr> # moves s\<rparr>)"
    using * by simp
  show "idle X (s\<lparr>on_disk := e, moves := \<lparr>move_call = CreateNew p, move_ok = False, move_before = d, move_after = e\<rparr> # moves s\<rparr>)"
    if "(case disk_names d p of Some _ \<Rightarrow> (Inl AlreadyExists, d) | None \<Rightarrow> (Inr (disk_fresh d), g)) = (Inl k, e)" for e g
    using that * by (simp split: option.splits)
next
  fix s d i e assume s: "idle X s" and d: "d = host_meanwhile h (moves s) (on_disk s)"
    and e: "(case disk_names d p of
       Some _ \<Rightarrow> (Inl AlreadyExists, d)
     | None \<Rightarrow>
         (Inr (disk_fresh d),
          d\<lparr>disk_names := (disk_names d)(p \<mapsto> disk_fresh d),
            disk_files := (disk_files d)
              (disk_fresh d := \<lparr>file_data = [], file_owner = host_owner h, file_mode = host_mode h, file_synced = False\<rparr>),
            disk_fresh := Suc (disk_fresh d)\<rparr>)) = (Inr i, e)"
  have v: "valid_disk d" using s d meanwhile_valid [OF quiet(1)] by (simp add: idle_def)
  let ?m = "\<lparr>move_call = CreateNew p, move_ok = True, move_before = d, move_after = e\<rparr>"
  have "disk_names d p = None" "i = disk_fresh d" using e by (simp_all split: option.splits)
  then have E: "e = d\<lparr>disk_names := (disk_names d)(p \<mapsto> i),
      disk_files := (disk_files d)(i := \<lparr>file_data = [], file_owner = host_owner h, file_mode = host_mode h, file_synced = False\<rparr>),
      disk_fresh := Suc i\<rparr>" using e by simp
  have low: "disk_names d x = Some j \<Longrightarrow> j < i" for x j
    using v \<open>i = disk_fresh d\<close> by (auto simp: valid_disk_def)
  have "harmless h r ?m" using low temp by (force simp: harmless_def E)
  then have "X (?m # moves s)" using s kept_cons [OF quiet(2)] by (simp add: idle_def)
  moreover have "valid_disk e" using low by (auto simp: valid_disk_def E less_SucI)
  moreover have "sole e p i" using low by (fastforce simp: sole_def E)
  moreover have "settled_but {p} (?m # moves s)" using s by (auto simp: idle_def settled_but_def creates_def)
  ultimately show "holding h r X p i \<lparr>file_data = [], file_owner = host_owner h, file_mode = host_mode h, file_synced = False\<rparr>
      (s\<lparr>on_disk := e, moves := ?m # moves s\<rparr>)"
    using temp by (simp add: holding_def E)
qed

text \<open>A call on the open temporary file.\<close>

lemma changed_file:
  "valid_disk (change_file i g d) \<longleftrightarrow> valid_disk d" "sole (change_file i g d) p j \<longleftrightarrow> sole d p j"
  "disk_files (change_file i g d) i = g (disk_files d i)"
  by (simp_all add: change_file_def valid_disk_def sole_def)

lemma change_holding:
  assumes quiet: "undisturbed h r" "kept h r X" and "\<And>x. c \<noteq> CreateNew x"
    and "refused = id \<or> (\<exists>g'. refused = change_file i g')"
  shows "ensures (holding h r X p i f) (attempt h c refused (\<lambda>d. (Inr (), change_file i g d)))
     (\<lambda>_. holding h r X p i (g f)) (\<lambda>_ s. \<exists>f. holding h r X p i f s)"
proof (rule ensures_attempt)
  fix s d k assume s: "holding h r X p i f s" and d: "d = host_meanwhile h (moves s) (on_disk s)"
  note found = holding_found [OF quiet(1) s, of "moves s", folded d]
  have sole: "sole d p i" "disk_files d i = f" and v: "valid_disk d" using found by simp_all
  have *: "holding h r X p i (g' f) (s\<lparr>on_disk := change_file i g' d,
      moves := \<lparr>move_call = c, move_ok = b, move_before = d, move_after = change_file i g' d\<rparr> # moves s\<rparr>)" for g' b
  proof -
    let ?m = "\<lparr>move_call = c, move_ok = b, move_before = d, move_after = change_file i g' d\<rparr>"
    have "harmless h r ?m"
      using s sole by (intro harmless_change [where i = i and g = g' and p = p]) (simp_all add: holding_def)
    then have "X (?m # moves s)" using s by (intro kept_cons [OF quiet(2)]) (simp_all add: holding_def)
    moreover have "settled_but {p} (?m # moves s)"
      using s assms(3) by (intro settled_but_cons) (simp_all add: holding_def creates_def)
    ultimately show ?thesis using s sole v by (simp add: holding_def changed_file)
  qed
  have same: "change_file i id d = d" by (simp add: change_file_def)
  show "\<exists>f. holding h r X p i f (s\<lparr>on_disk := refused d,
      moves := \<lparr>move_call = c, move_ok = False, move_before = d, move_after = refused d\<rparr> # moves s\<rparr>)"
    using assms(4) * [of id False] * [of _ False] same by auto
  fix e
  show "(Inr (), change_file i g d) = (Inl k, e) \<Longrightarrow> \<exists>f. holding h r X p i f (s\<lparr>on_disk := e,
      moves := \<lparr>move_call = c, move_ok = False, move_before = d, move_after = e\<rparr> # moves s\<rparr>)" by simp
  fix u
  show "(Inr (), change_file i g d) = (Inr u, e) \<Longrightarrow> holding h r X p i (g f) (s\<lparr>on_disk := e,
      moves := \<lparr>move_call = c, move_ok = True, move_before = d, move_after = e\<rparr> # moves s\<rparr>)"
    using * [of g True] by simp
qed

text \<open>The removal of the temporary file, whether it is still there or not.\<close>

lemma remove_temporary:
  assumes quiet: "undisturbed h r" "kept h r X" and temp: "is_temporary h r p"
  shows "ensures (pending_removal X p) (fs_remove h p) (\<lambda>_. idle X) (\<lambda>_. idle X)"
  unfolding fs_remove_def
proof (rule ensures_attempt)
  fix s d k assume s: "pending_removal X p s" and d: "d = host_meanwhile h (moves s) (on_disk s)"
  have v: "valid_disk d" and X: "X (moves s)" and settled: "settled_but {p} (moves s)"
    using s d meanwhile_valid [OF quiet(1)] by (auto simp: pending_removal_def)
  have *: "idle X (s\<lparr>on_disk := e, moves := \<lparr>move_call = RemoveFile p, move_ok = b, move_before = d, move_after = e\<rparr> # moves s\<rparr>)"
    if "e = d \<or> e = d\<lparr>disk_names := (disk_names d)(p := None)\<rparr>" for b e
  proof -
    let ?m = "\<lparr>move_call = RemoveFile p, move_ok = b, move_before = d, move_after = e\<rparr>"
    have "harmless h r ?m" using that temp by (auto simp: harmless_def)
    then have "X (?m # moves s)" using X kept_cons [OF quiet(2)] by simp
    moreover have "valid_disk e" using that v by (auto simp: valid_disk_def split: if_splits)
    moreover have "settled_but {} (?m # moves s)"
      using settled by (rule settled_but_dispose) (simp_all add: disposes_def creates_def)
    ultimately show ?thesis by (simp add: idle_def)
  qed
  show "idle X (s\<lparr>on_disk := id d, moves := \<lparr>move_call = RemoveFile p, move_ok = False, move_before = d, move_after = id d\<rparr> # moves s\<rparr>)"
    using * by simp
  fix e
  show "(if disk_names d p = None then (Inl NotFound, d) else (Inr (), d\<lparr>disk_names := (disk_names d)(p := None)\<rparr>)) = (Inl k, e) \<Longrightarrow>
      idle X (s\<lparr>on_disk := e, moves := \<lparr>move_call = RemoveFile p, move_ok = False, move_before = d, move_after = e\<rparr> # moves s\<rparr>)"
    using * by (simp split: if_splits)
  fix u
  show "(if disk_names d p = None then (Inl NotFound, d) else (Inr (), d\<lparr>disk_names := (disk_names d)(p := None)\<rparr>)) = (Inr u, e) \<Longrightarrow>
      idle X (s\<lparr>on_disk := e, moves := \<lparr>move_call = RemoveFile p, move_ok = True, move_before = d, move_after = e\<rparr> # moves s\<rparr>)"
    using * by (simp split: if_splits)
qed

section \<open>Publishing a complete file\<close>

text \<open>
  The call that gives the path its new file: a complete, synchronized one, in one step and without touching
  anything else. A link, unlike a rename, never replaces a file.
\<close>

definition installs :: "host \<Rightarrow> config_repository \<Rightarrow> path \<Rightarrow> stored_file \<Rightarrow> fs_move \<Rightarrow> bool" where
  "installs h r q f m \<longleftrightarrow>
     move_ok m \<and> (\<exists>i. disk_names (move_after m) q = Some i \<and> disk_files (move_after m) i = f) \<and>
     disk_files (move_after m) = disk_files (move_before m) \<and>
     (\<forall>x. x \<noteq> q \<and> \<not> is_temporary h r x \<longrightarrow> disk_names (move_after m) x = disk_names (move_before m) x)"

text \<open>The calls after which the path has its file, the newest first: all others are harmless.\<close>

definition published_by ::
  "host \<Rightarrow> config_repository \<Rightarrow> (fs_move \<Rightarrow> fs_move list \<Rightarrow> bool) \<Rightarrow> fs_move list \<Rightarrow> bool" where
  "published_by h r I ms \<longleftrightarrow>
     (\<exists>later m earlier. ms = later @ m # earlier \<and> list_all (harmless h r) later \<and>
        list_all (harmless h r) earlier \<and> I m earlier)"

lemma kept_published: "kept h r (published_by h r I)"
  unfolding kept_def published_by_def by (metis append_Cons list.pred_inject(2))

lemma kept_harmless: "kept h r (list_all (harmless h r))"
  by (simp add: kept_def)

lemma kept_and_seen: "kept h r X \<Longrightarrow> kept h r (\<lambda>ms. X ms \<and> list_ex P ms)"
  by (simp add: kept_def)

lemma rename_temporary:
  assumes quiet: "undisturbed h r" "kept h r X" and q: "\<not> is_temporary h r q"
    and X: "\<And>ms. X ms \<Longrightarrow> list_all (harmless h r) ms"
    and I: "\<And>m ms. installs h r q f m \<Longrightarrow> X ms \<Longrightarrow> I m ms"
  shows "ensures (holding h r X p i f) (fs_rename h p q) (\<lambda>_. idle (published_by h r I)) (\<lambda>_. holding h r X p i f)"
  unfolding fs_rename_def
proof (rule ensures_attempt)
  fix s d k assume s: "holding h r X p i f s" and d: "d = host_meanwhile h (moves s) (on_disk s)"
  note found = holding_found [OF quiet(1) s, of "moves s", folded d]
  have sole: "disk_names d p = Some i" "disk_names d q \<noteq> Some i" "disk_files d i = f" and v: "valid_disk d"
    using found s q by (auto simp: holding_def sole_def)
  show "holding h r X p i f
      (s\<lparr>on_disk := id d, moves := \<lparr>move_call = Rename p q, move_ok = False, move_before = d, move_after = id d\<rparr> # moves s\<rparr>)"
    using holding_unchanged [OF quiet s d, of "Rename p q" False] by simp
  fix e
  let ?e = "case disk_names d p of None \<Rightarrow> (Inl NotFound, d)
      | Some i \<Rightarrow> if disk_names d q = Some i then (Inr (), d)
          else (Inr (), d\<lparr>disk_names := (disk_names d)(p := None, q \<mapsto> i)\<rparr>)"
  show "?e = (Inl k, e) \<Longrightarrow> holding h r X p i f
      (s\<lparr>on_disk := e, moves := \<lparr>move_call = Rename p q, move_ok = False, move_before = d, move_after = e\<rparr> # moves s\<rparr>)"
    using sole by simp
  fix u assume "?e = (Inr u, e)"
  then have E: "e = d\<lparr>disk_names := (disk_names d)(p := None, q \<mapsto> i)\<rparr>" using sole by simp
  let ?m = "\<lparr>move_call = Rename p q, move_ok = True, move_before = d, move_after = e\<rparr>"
  have temp: "is_temporary h r p" "X (moves s)" "settled_but {p} (moves s)" using s by (simp_all add: holding_def)
  have "p \<noteq> q" using temp(1) q by auto
  have "installs h r q f ?m" using sole temp(1) by (auto simp: installs_def E)
  then have "I ?m (moves s)" using I temp(2) by blast
  then have "published_by h r I (?m # moves s)"
    using X [OF temp(2)] unfolding published_by_def by (metis append_Nil list.pred_inject(1))
  moreover have "valid_disk e" using v sole \<open>p \<noteq> q\<close> by (auto simp: valid_disk_def E split: if_splits)
  moreover have "settled_but {} (?m # moves s)"
    using temp(3) by (rule settled_but_dispose) (auto simp: disposes_def creates_def)
  ultimately show "idle (published_by h r I) (s\<lparr>on_disk := e, moves := ?m # moves s\<rparr>)" by (simp add: idle_def)
qed

lemma link_temporary:
  assumes quiet: "undisturbed h r" "kept h r X"
    and X: "\<And>ms. X ms \<Longrightarrow> list_all (harmless h r) ms"
    and I: "\<And>m ms. installs h r q f m \<Longrightarrow> disk_names (move_before m) q = None \<Longrightarrow> X ms \<Longrightarrow> I m ms"
  shows "ensures (holding h r X p i f) (fs_hard_link h p q) (\<lambda>_. pending_removal (published_by h r I) p)
     (\<lambda>_. holding h r X p i f)"
  unfolding fs_hard_link_def
proof (rule ensures_attempt)
  fix s d k assume s: "holding h r X p i f s" and d: "d = host_meanwhile h (moves s) (on_disk s)"
  note found = holding_found [OF quiet(1) s, of "moves s", folded d]
  have sole: "disk_names d p = Some i" "disk_files d i = f" and v: "valid_disk d"
    using found by (auto simp: sole_def)
  note same = holding_unchanged [OF quiet s d, of "HardLink p q" False]
  show "holding h r X p i f
      (s\<lparr>on_disk := id d, moves := \<lparr>move_call = HardLink p q, move_ok = False, move_before = d, move_after = id d\<rparr> # moves s\<rparr>)"
    using same by simp
  fix e
  let ?e = "case disk_names d p of None \<Rightarrow> (Inl NotFound, d)
      | Some i \<Rightarrow> if disk_names d q \<noteq> None then (Inl AlreadyExists, d)
          else (Inr (), d\<lparr>disk_names := (disk_names d)(q \<mapsto> i)\<rparr>)"
  show "?e = (Inl k, e) \<Longrightarrow> holding h r X p i f
      (s\<lparr>on_disk := e, moves := \<lparr>move_call = HardLink p q, move_ok = False, move_before = d, move_after = e\<rparr> # moves s\<rparr>)"
    using sole same by (simp split: if_splits)
  fix u assume "?e = (Inr u, e)"
  then have E: "e = d\<lparr>disk_names := (disk_names d)(q \<mapsto> i)\<rparr>" and q: "disk_names d q = None"
    using sole by (simp_all split: if_splits)
  let ?m = "\<lparr>move_call = HardLink p q, move_ok = True, move_before = d, move_after = e\<rparr>"
  have temp: "X (moves s)" "settled_but {p} (moves s)" using s by (simp_all add: holding_def)
  have "installs h r q f ?m" using sole by (auto simp: installs_def E)
  then have "I ?m (moves s)" using I temp(1) q by simp
  then have "published_by h r I (?m # moves s)"
    using X [OF temp(1)] unfolding published_by_def by (metis append_Nil list.pred_inject(1))
  moreover have "valid_disk e" using v sole by (auto simp: valid_disk_def E)
  moreover have "settled_but {p} (?m # moves s)"
    using temp(2) by (intro settled_but_cons) (simp_all add: creates_def)
  ultimately show "pending_removal (published_by h r I) p (s\<lparr>on_disk := e, moves := ?m # moves s\<rparr>)"
    by (simp add: pending_removal_def)
qed

section \<open>What a look at the disk found\<close>

definition found :: "path \<Rightarrow> (stored_file \<Rightarrow> 'a) \<Rightarrow> 'a \<Rightarrow> fs_move \<Rightarrow> bool" where
  "found q f v m \<longleftrightarrow> move_ok m \<and> (\<exists>i. disk_names (move_before m) q = Some i \<and> f (disk_files (move_before m) i) = v)"

lemma look_up_idle:
  assumes quiet: "undisturbed h r" "kept h r X" and "\<And>x. c \<noteq> CreateNew x"
  shows "ensures (idle X) (attempt h c id (looked_up q f)) (\<lambda>v. idle (\<lambda>ms. X ms \<and> list_ex (found q f v) ms)) (\<lambda>_. idle X)"
proof (rule ensures_attempt)
  fix s d k assume s: "idle X s" and d: "d = host_meanwhile h (moves s) (on_disk s)"
  have *: "idle X (s\<lparr>on_disk := d, moves := \<lparr>move_call = c, move_ok = b, move_before = d, move_after = d\<rparr> # moves s\<rparr>)" for b
    using s d assms(3) meanwhile_valid [OF quiet(1)] kept_cons [OF quiet(2) harmless_same]
    by (auto simp: idle_def creates_def intro!: settled_but_cons)
  show "idle X (s\<lparr>on_disk := id d, moves := \<lparr>move_call = c, move_ok = False, move_before = d, move_after = id d\<rparr> # moves s\<rparr>)"
    using * by simp
  fix e
  show "looked_up q f d = (Inl k, e) \<Longrightarrow>
      idle X (s\<lparr>on_disk := e, moves := \<lparr>move_call = c, move_ok = False, move_before = d, move_after = e\<rparr> # moves s\<rparr>)"
    using * by (auto simp: looked_up_def split: option.splits)
  fix v
  show "looked_up q f d = (Inr v, e) \<Longrightarrow> idle (\<lambda>ms. X ms \<and> list_ex (found q f v) ms)
      (s\<lparr>on_disk := e, moves := \<lparr>move_call = c, move_ok = True, move_before = d, move_after = e\<rparr> # moves s\<rparr>)"
    using * [of True] by (auto simp: looked_up_def idle_def found_def split: option.splits)
qed

lemma handle_metadata_holding:
  assumes quiet: "undisturbed h r" "kept h r X"
  shows "ensures (holding h r X p i f) (fs_handle_metadata h i) (\<lambda>x s. holding h r X p i f s \<and> x = f) (\<lambda>_. holding h r X p i f)"
  unfolding fs_handle_metadata_def
proof (rule ensures_attempt)
  fix s d k assume s: "holding h r X p i f s" and d: "d = host_meanwhile h (moves s) (on_disk s)"
  note * = holding_unchanged [OF quiet s d, of "HandleMetadata i"]
  show "holding h r X p i f
      (s\<lparr>on_disk := id d, moves := \<lparr>move_call = HandleMetadata i, move_ok = False, move_before = d, move_after = id d\<rparr> # moves s\<rparr>)"
    using * by simp
  fix e
  show "(Inr (disk_files d i), d) = (Inl k, e) \<Longrightarrow> holding h r X p i f
      (s\<lparr>on_disk := e, moves := \<lparr>move_call = HandleMetadata i, move_ok = False, move_before = d, move_after = e\<rparr> # moves s\<rparr>)"
    by simp
  fix x
  show "(Inr (disk_files d i), d) = (Inr x, e) \<Longrightarrow> holding h r X p i f
      (s\<lparr>on_disk := e, moves := \<lparr>move_call = HandleMetadata i, move_ok = True, move_before = d, move_after = e\<rparr> # moves s\<rparr>) \<and> x = f"
    using * [of True] holding_found [OF quiet(1) s, of "moves s", folded d] by simp
qed

section \<open>The temporary file\<close>

definition complete_file :: "host \<Rightarrow> string \<Rightarrow> stored_file option \<Rightarrow> stored_file" where
  "complete_file h contents metadata =
     \<lparr>file_data = contents,
      file_owner = (case metadata of None \<Rightarrow> host_owner h | Some m \<Rightarrow> file_owner m),
      file_mode = (case metadata of None \<Rightarrow> NEW_CONFIG_MODE | Some m \<Rightarrow> file_mode m),
      file_synced = True\<rparr>"

abbreviation new_file :: "host \<Rightarrow> stored_file" where
  "new_file h \<equiv> \<lparr>file_data = [], file_owner = host_owner h, file_mode = host_mode h, file_synced = False\<rparr>"

lemma ensures_ex:
  assumes "\<And>i. ensures (P i) a Q E"
  shows "ensures (\<lambda>s. \<exists>i. P i s) a Q E"
  by (rule ensuresI) (use ensuresD [OF assms] in blast)+

definition ready ::
  "host \<Rightarrow> config_repository \<Rightarrow> (fs_move list \<Rightarrow> bool) \<Rightarrow> path \<Rightarrow> stored_file \<Rightarrow> session \<Rightarrow> bool" where
  "ready h r X p f s \<longleftrightarrow> (\<exists>i. holding h r X p i f s)"

lemma preserve_owner_holding:
  assumes quiet: "undisturbed h r" "kept h r X"
  shows "ensures (holding h r X p i f) (preserve_owner h i p m)
     (\<lambda>_ s. \<exists>b. holding h r X p i (f\<lparr>file_owner := file_owner m, file_synced := b\<rparr>) s)
     (\<lambda>_ s. \<exists>f. holding h r X p i f s)"
proof -
  have change: "ensures (holding h r X p i f) (fs_change_owner h i (file_owner m))
      (\<lambda>_. holding h r X p i (f\<lparr>file_owner := file_owner m, file_synced := False\<rparr>)) (\<lambda>_ s. \<exists>f. holding h r X p i f s)"
    unfolding fs_change_owner_def by (rule change_holding [OF quiet]) simp_all
  show ?thesis
    unfolding preserve_owner_def
  proof (rule ensures_bind, rule ensures_io)
    show "ensures (holding h r X p i f) (fs_handle_metadata h i) (\<lambda>x s. holding h r X p i f s \<and> x = f)
        (\<lambda>k s. \<exists>f. holding h r X p i f s)"
      by (rule ensures_weaken [OF handle_metadata_holding [OF quiet]]) auto
    fix x
    show "ensures (\<lambda>s. holding h r X p i f s \<and> x = f)
        (if file_owner x = file_owner m then act_return ()
         else act_io ''preserve file ownership'' p (fs_change_owner h i (file_owner m)))
        (\<lambda>_ s. \<exists>b. holding h r X p i (f\<lparr>file_owner := file_owner m, file_synced := b\<rparr>) s)
        (\<lambda>_ s. \<exists>f. holding h r X p i f s)"
    proof (cases "file_owner x = file_owner m")
      case True
      have "x = f \<Longrightarrow> f\<lparr>file_owner := file_owner m, file_synced := file_synced f\<rparr> = f"
        using True by (cases f) simp
      then have "holding h r X p i f s \<and> x = f \<Longrightarrow>
          \<exists>b. holding h r X p i (f\<lparr>file_owner := file_owner m, file_synced := b\<rparr>) s" for s
        by metis
      then have "ensures (\<lambda>s. holding h r X p i f s \<and> x = f) (act_return ())
          (\<lambda>_ s. \<exists>b. holding h r X p i (f\<lparr>file_owner := file_owner m, file_synced := b\<rparr>) s)
          (\<lambda>_ s. \<exists>f. holding h r X p i f s)"
        by (rule ensures_return)
      then show ?thesis using True by simp
    next
      case False
      then show ?thesis by (auto intro!: ensures_io ensures_weaken [OF change])
    qed
  qed
qed

lemma prepare_file_holding:
  assumes quiet: "undisturbed h r" "kept h r X"
  shows "ensures (holding h r X p i (new_file h)) (prepare_file h i p contents metadata)
     (\<lambda>_. holding h r X p i (complete_file h contents metadata)) (\<lambda>_ s. \<exists>f. holding h r X p i f s)"
proof -
  let ?w = "new_file h\<lparr>file_data := contents\<rparr>"
  let ?E = "\<lambda>_ s. \<exists>f. holding h r X p i f s"
  have all: "ensures (holding h r X p i (new_file h)) (fs_write_all h i contents) (\<lambda>_. holding h r X p i ?w) ?E"
  proof -
    let ?g = "\<lambda>f. f\<lparr>file_data := file_data f @ contents, file_synced := False\<rparr>"
    let ?cut = "\<lambda>s f. f\<lparr>file_data := file_data f @ take (host_partial h (moves s)) contents, file_synced := False\<rparr>"
    have "?g (new_file h) = ?w" by simp
    then have "ensures (holding h r X p i (new_file h))
        (attempt h (WriteAll i contents) (change_file i (?cut s)) (\<lambda>d. (Inr (), change_file i ?g d))) (\<lambda>_. holding h r X p i ?w) ?E" for s
      using change_holding [OF quiet, of "WriteAll i contents" "change_file i (?cut s)" i p "new_file h" ?g] by auto
    from ensuresD [OF this] show ?thesis
      by (auto intro!: ensuresI simp: fs_write_all_def)
  qed
  have mode: "ensures (holding h r X p i f) (fs_set_mode h i mode)
      (\<lambda>_. holding h r X p i (f\<lparr>file_mode := mode, file_synced := False\<rparr>)) ?E" for f mode
    unfolding fs_set_mode_def by (rule change_holding [OF quiet]) simp_all
  have sync: "ensures (holding h r X p i f) (fs_sync_all h i) (\<lambda>_. holding h r X p i (f\<lparr>file_synced := True\<rparr>)) ?E" for f
    unfolding fs_sync_all_def by (rule change_holding [OF quiet]) simp_all
  let ?M = "\<lambda>_ s. \<exists>b. holding h r X p i (complete_file h contents metadata\<lparr>file_synced := b\<rparr>) s"
  show ?thesis
    unfolding prepare_file_def
  proof (rule ensures_bind)
    show "ensures (holding h r X p i (new_file h)) (act_io ''write temporary file'' p (fs_write_all h i contents))
        (\<lambda>_. holding h r X p i ?w) ?E"
      by (rule ensures_io [OF all])
    show "ensures (holding h r X p i ?w)
        (act_bind
           (case metadata of
              Some m \<Rightarrow>
                act_bind (preserve_owner h i p m) (\<lambda>_.
                  act_io ''preserve file permissions'' p (fs_set_mode h i (file_mode m)))
            | None \<Rightarrow> act_io ''set configuration permissions'' p (fs_set_mode h i NEW_CONFIG_MODE))
           (\<lambda>_. act_io ''synchronize temporary file'' p (fs_sync_all h i)))
        (\<lambda>_. holding h r X p i (complete_file h contents metadata)) ?E"
    proof (rule ensures_bind [where R = ?M])
      show "ensures (holding h r X p i ?w)
          (case metadata of
             Some m \<Rightarrow>
               act_bind (preserve_owner h i p m) (\<lambda>_.
                 act_io ''preserve file permissions'' p (fs_set_mode h i (file_mode m)))
           | None \<Rightarrow> act_io ''set configuration permissions'' p (fs_set_mode h i NEW_CONFIG_MODE)) ?M ?E"
      proof (cases metadata)
        case None
        then show ?thesis
          by (auto simp: complete_file_def intro!: ensures_io ensures_weaken [OF mode] exI [of _ False])
      next
        case (Some m)
        have "ensures (\<lambda>s. \<exists>b. holding h r X p i (?w\<lparr>file_owner := file_owner m, file_synced := b\<rparr>) s)
            (fs_set_mode h i (file_mode m)) ?M ?E"
          by (rule ensures_ex, rule ensures_weaken [OF mode])
             (auto simp: complete_file_def Some intro!: exI [of _ False])
        then show ?thesis
          using Some by (auto intro!: ensures_bind [OF preserve_owner_holding [OF quiet]] ensures_io)
      qed
      show "ensures (?M ()) (act_io ''synchronize temporary file'' p (fs_sync_all h i))
          (\<lambda>_. holding h r X p i (complete_file h contents metadata)) ?E"
        by (rule ensures_io, rule ensures_ex, rule ensures_weaken [OF sync]) (auto simp: complete_file_def)
    qed
  qed
qed

lemma sequence_idle: "ensures (idle X) next_sequence_number (\<lambda>_. idle X) (\<lambda>_. idle X)"
  by (simp add: ensures_def next_sequence_number_def idle_def)

lemma prepare_pending_ready:
  assumes quiet: "undisturbed h r" "kept h r X" and temp: "is_temporary h r p"
  shows "ensures (holding h r X p i (new_file h)) (prepare_pending h i p contents metadata)
     (\<lambda>q s. q = p \<and> ready h r X p (complete_file h contents metadata) s) (\<lambda>_. idle X)"
  unfolding prepare_pending_def
proof (rule ensures_bind, rule ensures_cleanup)
  show "ensures (holding h r X p i (new_file h)) (prepare_file h i p contents metadata)
      (\<lambda>_. ready h r X p (complete_file h contents metadata)) (\<lambda>_. pending_removal X p)"
    by (rule ensures_weaken [OF prepare_file_holding [OF quiet]]) (auto simp: ready_def pending_removal_intros)
  show "ensures (pending_removal X p) (fs_remove h p) (\<lambda>_. idle X) (\<lambda>_. idle X)"
    by (rule remove_temporary [OF quiet temp])
  show "ensures (ready h r X p (complete_file h contents metadata)) (act_return p)
      (\<lambda>q s. q = p \<and> ready h r X p (complete_file h contents metadata) s) (\<lambda>_. idle X)"
    by (rule ensures_return) simp
qed

lemma write_temporary_ready:
  assumes quiet: "undisturbed h r" "kept h r X"
  shows "ensures (idle X) (write_temporary h r contents metadata)
     (\<lambda>p s. is_temporary h r p \<and> ready h r X p (complete_file h contents metadata) s) (\<lambda>_. idle X)"
  unfolding write_temporary_def Let_def
proof (rule ensures_bind)
  show "ensures (idle X) (act_result (ok_or (InvalidConfigurationPath (config_path r)) (file_name (config_path r))))
      (\<lambda>name s. idle X s \<and> file_name (config_path r) = Some name) (\<lambda>_. idle X)"
    by (rule ensures_result) (auto simp: ok_or_def split: option.splits)
  fix name
  show "ensures (\<lambda>s. idle X s \<and> file_name (config_path r) = Some name)
      (act_bind (act_result (parent_directory r)) (\<lambda>directory.
       act_bind next_sequence_number (\<lambda>n.
       act_bind
         (act_io ''create temporary file'' (path_join directory (temporary_name h name n))
           (fs_create_new h (path_join directory (temporary_name h name n)))) (\<lambda>i.
       prepare_pending h i (path_join directory (temporary_name h name n)) contents metadata))))
      (\<lambda>p s. is_temporary h r p \<and> ready h r X p (complete_file h contents metadata) s) (\<lambda>_. idle X)"
  proof (rule ensures_bind)
    show "ensures (\<lambda>s. idle X s \<and> file_name (config_path r) = Some name) (act_result (parent_directory r))
        (\<lambda>directory s. idle X s \<and> file_name (config_path r) = Some name \<and> parent_directory r = Inr directory)
        (\<lambda>_. idle X)"
      by (rule ensures_result) auto
    fix directory
    let ?here = "file_name (config_path r) = Some name \<and> parent_directory r = Inr directory"
    show "ensures (\<lambda>s. idle X s \<and> ?here)
        (act_bind next_sequence_number (\<lambda>n.
         act_bind
           (act_io ''create temporary file'' (path_join directory (temporary_name h name n))
             (fs_create_new h (path_join directory (temporary_name h name n)))) (\<lambda>i.
         prepare_pending h i (path_join directory (temporary_name h name n)) contents metadata)))
        (\<lambda>p s. is_temporary h r p \<and> ready h r X p (complete_file h contents metadata) s) (\<lambda>_. idle X)"
    proof (cases ?here)
      case False
      then show ?thesis by (auto simp: ensures_def)
    next
      case True
      have temp: "is_temporary h r (path_join directory (temporary_name h name n))" for n
        using True by (auto simp: is_temporary_def)
      have make: "ensures (idle X)
          (act_bind
            (act_io ''create temporary file'' (path_join directory (temporary_name h name n))
              (fs_create_new h (path_join directory (temporary_name h name n)))) (\<lambda>i.
          prepare_pending h i (path_join directory (temporary_name h name n)) contents metadata))
          (\<lambda>p s. is_temporary h r p \<and> ready h r X p (complete_file h contents metadata) s) (\<lambda>_. idle X)" for n
        by (rule ensures_bind [OF ensures_io [OF create_temporary [OF quiet temp]]
              ensures_weaken [OF prepare_pending_ready [OF quiet temp]]]) (use temp in auto)
      show ?thesis
        by (rule ensures_weaken [OF ensures_bind [OF sequence_idle make]]) auto
    qed
  qed
qed

lemma sync_parent_idle:
  assumes quiet: "undisturbed h r" "kept h r X"
  shows "ensures (idle X) (sync_parent h r) (\<lambda>_. idle X) (\<lambda>_. idle X)"
  unfolding sync_parent_def fs_open_directory_def fs_sync_directory_def
  by (rule ensures_bind, rule ensures_result, assumption, assumption, rule ensures_bind, rule ensures_io,
      rule observe_idle [OF quiet], simp, simp, rule ensures_io, rule observe_idle [OF quiet]) simp_all

lemma temporary_not_configuration: "\<not> is_temporary h r (config_path r)"
proof
  assume "is_temporary h r (config_path r)"
  then obtain directory name n where t: "file_name (config_path r) = Some name"
    "config_path r = path_join directory (temporary_name h name n)"
    unfolding is_temporary_def by blast
  then have "last (path_parts (config_path r)) = name" by (auto simp: file_name_def split: if_splits)
  then have "temporary_name h name n = name" using t(2) by (simp add: path_join_def)
  then have "length (temporary_name h name n) = length name" by simp
  then show False by (simp add: temporary_name_def)
qed

section \<open>Replacing the configuration\<close>

text \<open>The two errors that come after the configuration is in place.\<close>

definition unconfirmed :: "repository_error \<Rightarrow> bool" where
  "unconfirmed e \<longleftrightarrow>
     (case e of
        IoFailure what p k \<Rightarrow> what \<in> {''open containing directory'', ''synchronize containing directory''}
      | _ \<Rightarrow> False)"

definition fails_early :: "'a action \<Rightarrow> bool" where
  "fails_early a \<longleftrightarrow> ensures (\<lambda>_. True) a (\<lambda>_ _. True) (\<lambda>e _. \<not> unconfirmed e)"

lemma fails_early_bind: "fails_early a \<Longrightarrow> (\<And>x. fails_early (f x)) \<Longrightarrow> fails_early (act_bind a f)"
  unfolding fails_early_def by (rule ensures_bind)

lemma fails_early_cleanup:
  assumes "fails_early a" shows "fails_early (act_cleanup a c)"
  using assms unfolding fails_early_def
  by (rule ensures_cleanup) (auto simp: ensures_def split: prod.splits sum.splits)

lemma fails_early_io:
  "what \<notin> {''open containing directory'', ''synchronize containing directory''} \<Longrightarrow> fails_early (act_io what p a)"
  unfolding fails_early_def by (rule ensures_io) (auto simp: ensures_def unconfirmed_def split: prod.splits sum.splits)

lemma fails_early_simple:
  "fails_early (act_return x)" "fails_early next_sequence_number"
  "(\<And>e. v = Inl e \<Longrightarrow> \<not> unconfirmed e) \<Longrightarrow> fails_early (act_result v)"
  by (auto simp: fails_early_def ensures_def act_return_def next_sequence_number_def act_result_def split: sum.splits)

lemma parent_directory_early: "parent_directory r = Inl e \<Longrightarrow> \<not> unconfirmed e"
  by (auto simp: parent_directory_def unconfirmed_def split: if_splits)

lemma invalid_path_early: "\<not> unconfirmed (InvalidConfigurationPath p)"
  by (simp add: unconfirmed_def)

lemma fails_early_write_temporary: "fails_early (write_temporary h r contents metadata)"
  unfolding write_temporary_def Let_def prepare_pending_def prepare_file_def preserve_owner_def
  by (intro fails_early_bind fails_early_cleanup fails_early_simple)
     (auto intro!: fails_early_bind fails_early_io fails_early_simple
       simp: parent_directory_early invalid_path_early ok_or_def split: option.split option.splits)

lemma ensures_early:
  assumes "ensures P a Q E" "fails_early a"
  shows "ensures P a Q (\<lambda>e s. E e s \<and> \<not> unconfirmed e)"
  by (rule ensuresI) (use ensuresD [OF assms(1)] ensuresD [OF assms(2) [unfolded fails_early_def]] in blast)+

lemma sync_parent_unconfirmed:
  assumes quiet: "undisturbed h r" "kept h r X" and "\<exists>d. parent_directory r = Inr d"
  shows "ensures (idle X) (sync_parent h r) (\<lambda>_. idle X) (\<lambda>e s. idle X s \<and> unconfirmed e)"
proof -
  obtain d where d: "parent_directory r = Inr d" using assms(3) by blast
  have "ensures (\<lambda>_. True) (sync_parent h r) (\<lambda>_ _. True) (\<lambda>e _. unconfirmed e)"
    unfolding sync_parent_def d
    by (intro ensures_bind [where R = "\<lambda>_ _. True"] ensures_io ensures_result)
       (simp_all add: ensures_def unconfirmed_def split: prod.split sum.split)
  note late = ensuresD(1) [OF this TrueI] and known = ensuresD [OF sync_parent_idle [OF quiet]]
  show ?thesis by (rule ensuresI) (use late known in blast)+
qed

definition replaces :: "host \<Rightarrow> config_repository \<Rightarrow> string \<Rightarrow> fs_move \<Rightarrow> fs_move list \<Rightarrow> bool" where
  "replaces h r contents m earlier \<longleftrightarrow>
     (\<exists>f. installs h r (config_path r) (complete_file h contents (Some f)) m \<and>
        list_ex (found (config_path r) id f) earlier)"

abbreviation untouched :: "host \<Rightarrow> config_repository \<Rightarrow> fs_move list \<Rightarrow> bool" where
  "untouched h r \<equiv> list_all (harmless h r)"

lemma write_atomic_ensures:
  assumes quiet: "undisturbed h r"
  shows "ensures (idle (untouched h r)) (write_atomic h r contents)
     (\<lambda>_. idle (published_by h r (replaces h r contents)))
     (\<lambda>e s. if unconfirmed e then idle (published_by h r (replaces h r contents)) s else idle (untouched h r) s)"
    (is "ensures ?P _ ?Q ?E")
  unfolding write_atomic_def
proof (rule ensures_bind)
  let ?X = "\<lambda>f ms. untouched h r ms \<and> list_ex (found (config_path r) id f) ms"
  have kept: "kept h r (?X f)" for f by (rule kept_and_seen [OF kept_harmless])
  show "ensures ?P (act_io ''read configuration metadata'' (config_path r) (fs_metadata h (config_path r)))
      (\<lambda>f. idle (?X f)) ?E"
    unfolding fs_metadata_def
    by (rule ensures_weaken [OF ensures_early [OF ensures_io [OF look_up_idle [OF quiet kept_harmless]] fails_early_io]]) auto
  fix f
  have early: "idle (?X f) s \<Longrightarrow> idle (untouched h r) s" for s by (auto simp: idle_def)
  show "ensures (idle (?X f))
      (act_bind (write_temporary h r contents (Some f)) (\<lambda>p.
       act_bind
         (act_cleanup (act_io ''replace configuration'' (config_path r) (fs_rename h p (config_path r))) (fs_remove h p))
         (\<lambda>_. sync_parent h r))) ?Q ?E"
  proof (rule ensures_bind)
    show "ensures (idle (?X f)) (write_temporary h r contents (Some f))
        (\<lambda>p s. is_temporary h r p \<and> ready h r (?X f) p (complete_file h contents (Some f)) s) ?E"
      by (rule ensures_weaken [OF ensures_early [OF write_temporary_ready [OF quiet kept] fails_early_write_temporary]])
         (auto dest: early)
    fix p
    let ?I = "replaces h r contents"
    show "ensures (\<lambda>s. is_temporary h r p \<and> ready h r (?X f) p (complete_file h contents (Some f)) s)
        (act_bind
           (act_cleanup (act_io ''replace configuration'' (config_path r) (fs_rename h p (config_path r))) (fs_remove h p))
           (\<lambda>_. sync_parent h r)) ?Q ?E"
    proof (cases "is_temporary h r p")
      case True
      have swap: "ensures (ready h r (?X f) p (complete_file h contents (Some f))) (fs_rename h p (config_path r))
          (\<lambda>_. idle (published_by h r ?I)) (\<lambda>_. pending_removal (?X f) p)"
        unfolding ready_def
        by (rule ensures_ex, rule ensures_weaken [OF rename_temporary [OF quiet kept temporary_not_configuration]])
           (auto simp: replaces_def pending_removal_intros)
      have "ensures (ready h r (?X f) p (complete_file h contents (Some f)))
          (act_cleanup (act_io ''replace configuration'' (config_path r) (fs_rename h p (config_path r))) (fs_remove h p))
          (\<lambda>_. idle (published_by h r ?I)) (\<lambda>_. idle (?X f))"
        by (rule ensures_cleanup [OF ensures_io [OF swap] remove_temporary [OF quiet kept True]])
      then have "ensures (ready h r (?X f) p (complete_file h contents (Some f)))
          (act_cleanup (act_io ''replace configuration'' (config_path r) (fs_rename h p (config_path r))) (fs_remove h p))
          (\<lambda>_. idle (published_by h r ?I)) ?E"
        by (rule ensures_weaken [OF ensures_early [OF _ fails_early_cleanup [OF fails_early_io]]]) (auto dest: early)
      moreover have "ensures (idle (published_by h r ?I)) (sync_parent h r) ?Q ?E"
        by (rule ensures_weaken [OF sync_parent_unconfirmed [OF quiet kept_published]]) (use True in \<open>auto simp: is_temporary_def\<close>)
      ultimately have "ensures (ready h r (?X f) p (complete_file h contents (Some f)))
          (act_bind
            (act_cleanup (act_io ''replace configuration'' (config_path r) (fs_rename h p (config_path r))) (fs_remove h p))
            (\<lambda>_. sync_parent h r)) ?Q ?E"
        by (rule ensures_bind)
      then show ?thesis by (rule ensures_weaken) auto
    qed (simp add: ensures_def)
  qed
qed

text \<open>C8: Whatever calls the system refuses, and whatever other processes do to other files meanwhile, replacing the
  configuration is one step on the disk. Either every call of it left all files but its own temporary one as
  they were, and the caller gets an error from before the replacement; or exactly one call changed the disk: it gave
  the configuration path a complete, synchronized file with the new text and the owner and mode of the file that
  was found there, and the caller gets success or an error that only says the directory was not synchronized.
  Every temporary file was renamed or its removal was tried.
\<close>

theorem write_atomic_durable:
  assumes "undisturbed h r" "valid_disk (on_disk s)" "moves s = []"
  shows "case write_atomic h r contents s of (result, s') \<Rightarrow>
    settled_but {} (moves s') \<and>
    (if case result of Inr _ \<Rightarrow> True | Inl e \<Rightarrow> unconfirmed e
     then published_by h r (replaces h r contents) (moves s')
     else list_all (harmless h r) (moves s'))"
proof -
  have "idle (untouched h r) s" using assms(2,3) by (simp add: idle_def settled_but_def)
  note run = ensuresD [OF write_atomic_ensures [OF assms(1)] this]
  obtain result s' where t: "write_atomic h r contents s = (result, s')" by (cases "write_atomic h r contents s")
  show ?thesis
  proof (cases result)
    case (Inl e)
    then show ?thesis using run(1) [of contents e s'] t by (cases "unconfirmed e") (simp_all add: idle_def)
  next
    case (Inr u)
    then show ?thesis using run(2) [of contents u s'] t by (simp add: idle_def)
  qed
qed

section \<open>Creating a file by a link\<close>

definition links :: "host \<Rightarrow> config_repository \<Rightarrow> path \<Rightarrow> stored_file \<Rightarrow> (fs_move list \<Rightarrow> bool) \<Rightarrow> fs_move \<Rightarrow> fs_move list \<Rightarrow> bool"
  where
  "links h r q f X m earlier \<longleftrightarrow> installs h r q f m \<and> disk_names (move_before m) q = None \<and> X earlier"

lemma link_pending_ensures:
  assumes quiet: "undisturbed h r" "kept h r X" and X: "\<And>ms. X ms \<Longrightarrow> untouched h r ms" and temp: "is_temporary h r p"
  shows "ensures (ready h r X p f) (link_pending h p q what) (\<lambda>_. idle (published_by h r (links h r q f X)))
     (\<lambda>_ s. idle (untouched h r) s \<or> idle (published_by h r (links h r q f X)) s)"
  unfolding link_pending_def
proof (rule ensures_bind)
  let ?Y = "published_by h r (links h r q f X)"
  have early: "idle X s \<Longrightarrow> idle (untouched h r) s" for s using X by (auto simp: idle_def)
  have attach: "ensures (ready h r X p f) (fs_hard_link h p q) (\<lambda>_. pending_removal ?Y p) (\<lambda>_. pending_removal X p)"
    unfolding ready_def
    by (rule ensures_ex, rule ensures_weaken [OF link_temporary [OF quiet X]]) (auto simp: links_def pending_removal_intros)
  show "ensures (ready h r X p f) (act_cleanup (act_io what q (fs_hard_link h p q)) (fs_remove h p))
      (\<lambda>_. pending_removal ?Y p) (\<lambda>_ s. idle (untouched h r) s \<or> idle ?Y s)"
    by (rule ensures_weaken [OF ensures_cleanup [OF ensures_io [OF attach] remove_temporary [OF quiet temp]]])
       (auto dest: early)
  note gone = remove_temporary [OF quiet(1) kept_published temp]
  have again: "ensures (idle ?Y) (fs_remove h p) (\<lambda>_. idle ?Y) (\<lambda>_. idle ?Y)"
    by (rule ensures_weaken [OF gone]) (auto simp: pending_removal_intros)
  show "ensures (pending_removal ?Y p) (act_cleanup (act_io ''remove temporary file'' p (fs_remove h p)) (fs_remove h p))
      (\<lambda>_. idle ?Y) (\<lambda>_ s. idle (untouched h r) s \<or> idle ?Y s)"
    by (rule ensures_weaken [OF ensures_cleanup [OF ensures_io [OF gone] again]]) auto
qed

lemma publish_link:
  assumes quiet: "undisturbed h r" "kept h r X" and X: "\<And>ms. X ms \<Longrightarrow> untouched h r ms"
  shows "ensures (idle X)
     (act_bind (write_temporary h r contents metadata) (\<lambda>p.
      act_bind (link_pending h p q what) (\<lambda>_. sync_parent h r)))
     (\<lambda>_. idle (published_by h r (links h r q (complete_file h contents metadata) X)))
     (\<lambda>_ s. idle (untouched h r) s \<or> idle (published_by h r (links h r q (complete_file h contents metadata) X)) s)"
    (is "ensures _ _ ?Q ?E")
proof (rule ensures_bind)
  show "ensures (idle X) (write_temporary h r contents metadata)
      (\<lambda>p s. is_temporary h r p \<and> ready h r X p (complete_file h contents metadata) s) ?E"
    by (rule ensures_weaken [OF write_temporary_ready [OF quiet]]) (use X in \<open>auto simp: idle_def\<close>)
  fix p
  show "ensures (\<lambda>s. is_temporary h r p \<and> ready h r X p (complete_file h contents metadata) s)
      (act_bind (link_pending h p q what) (\<lambda>_. sync_parent h r)) ?Q ?E"
  proof (cases "is_temporary h r p")
    case True
    have "ensures (ready h r X p (complete_file h contents metadata))
        (act_bind (link_pending h p q what) (\<lambda>_. sync_parent h r)) ?Q ?E"
      by (rule ensures_bind [OF link_pending_ensures [OF quiet X True]
            ensures_weaken [OF sync_parent_idle [OF quiet(1) kept_published]]]) auto
    then show ?thesis by (rule ensures_weaken) auto
  qed (simp add: ensures_def)
qed

section \<open>Creating the configuration\<close>

lemma read_first_sample_ensures:
  assumes quiet: "undisturbed h r"
  shows "ensures (idle (untouched h r)) (read_first_sample h r ps)
     (\<lambda>contents. idle (\<lambda>ms. untouched h r ms \<and> list_ex (\<lambda>m. list_ex (\<lambda>p. found p file_data contents m) ps) ms))
     (\<lambda>_. idle (untouched h r))"
proof (induction ps)
  case Nil
  then show ?case by (simp add: ensures_def act_fail_def)
next
  case (Cons p ps)
  show ?case
  proof (rule ensuresI)
    fix s e s' assume s: "idle (untouched h r) s" and run: "read_first_sample h r (p # ps) s = (Inl e, s')"
    obtain x t where t: "fs_read_text h p s = (x, t)" by (cases "fs_read_text h p s")
    note first = ensuresD [OF look_up_idle [OF quiet kept_harmless, of "ReadText p" p file_data] s, folded fs_read_text_def]
    show "idle (untouched h r) s'"
      using first [of _ t] t run ensuresD(1) [OF Cons.IH, of t e s'] by (auto split: sum.splits if_splits)
  next
    fix s contents s' assume s: "idle (untouched h r) s" and run: "read_first_sample h r (p # ps) s = (Inr contents, s')"
    obtain x t where t: "fs_read_text h p s = (x, t)" by (cases "fs_read_text h p s")
    note first = ensuresD [OF look_up_idle [OF quiet kept_harmless, of "ReadText p" p file_data] s, folded fs_read_text_def]
    show "idle (\<lambda>ms. untouched h r ms \<and> list_ex (\<lambda>m. list_ex (\<lambda>p. found p file_data contents m) (p # ps)) ms) s'"
    proof (cases x)
      case (Inl k)
      then have "idle (untouched h r) t" "read_first_sample h r ps t = (Inr contents, s')"
        using first(1) [of k t] t run by (simp_all split: if_splits)
      from ensuresD(2) [OF Cons.IH this] show ?thesis by (auto simp: idle_def list_ex_iff)
    next
      case (Inr v)
      then show ?thesis using first(2) [of v t] t run by (auto simp: idle_def list_ex_iff)
    qed
  qed
qed

definition sampled :: "host \<Rightarrow> config_repository \<Rightarrow> string \<Rightarrow> fs_move list \<Rightarrow> bool" where
  "sampled h r contents ms \<longleftrightarrow>
     untouched h r ms \<and> list_ex (\<lambda>m. list_ex (\<lambda>p. found p file_data contents m) (sample_candidates r)) ms"

definition creates_configuration :: "host \<Rightarrow> config_repository \<Rightarrow> fs_move \<Rightarrow> fs_move list \<Rightarrow> bool" where
  "creates_configuration h r m earlier \<longleftrightarrow>
     (\<exists>contents. links h r (config_path r) (complete_file h contents None) (sampled h r contents) m earlier)"

lemma published_by_mono: "published_by h r I ms \<Longrightarrow> (\<And>m ms. I m ms \<Longrightarrow> J m ms) \<Longrightarrow> published_by h r J ms"
  unfolding published_by_def by blast

lemma ensure_exists_ensures:
  assumes quiet: "undisturbed h r"
  shows "ensures (idle (untouched h r)) (ensure_exists h r)
     (\<lambda>status s. idle (published_by h r (creates_configuration h r)) s \<or> idle (untouched h r) s \<and> status = Existing)
     (\<lambda>_ s. idle (published_by h r (creates_configuration h r)) s \<or> idle (untouched h r) s)"
    (is "ensures ?P _ ?Q ?E")
  unfolding ensure_exists_def
proof (rule ensures_bind)
  show "ensures ?P (act_result (parent_directory r)) (\<lambda>_. ?P) ?E" by (rule ensures_result) auto
  fix directory
  show "ensures ?P
      (act_bind (act_io ''create directory'' directory (fs_create_dirs h directory)) (\<lambda>_.
       act_bind (act_io ''inspect path'' (config_path r) (fs_try_exists h (config_path r))) (\<lambda>present.
         if present then act_return Existing
         else
           act_bind (read_first_sample h r (sample_candidates r)) (\<lambda>contents.
           \<lambda>s. case write_new h r contents s of (outcome, s) \<Rightarrow> (creation_status_of outcome, s))))) ?Q ?E"
  proof (rule ensures_bind, rule ensures_io)
    show "ensures ?P (fs_create_dirs h directory) (\<lambda>_. ?P) (\<lambda>k. ?E (IoFailure ''create directory'' directory k))"
      by (rule ensures_weaken [OF create_dirs_idle [OF quiet kept_harmless]]) auto
    show "ensures ?P
        (act_bind (act_io ''inspect path'' (config_path r) (fs_try_exists h (config_path r))) (\<lambda>present.
           if present then act_return Existing
           else
             act_bind (read_first_sample h r (sample_candidates r)) (\<lambda>contents.
             \<lambda>s. case write_new h r contents s of (outcome, s) \<Rightarrow> (creation_status_of outcome, s)))) ?Q ?E"
    proof (rule ensures_bind, rule ensures_io)
      show "ensures ?P (fs_try_exists h (config_path r)) (\<lambda>_. ?P) (\<lambda>k. ?E (IoFailure ''inspect path'' (config_path r) k))"
        unfolding fs_try_exists_def
        by (rule ensures_weaken [OF observe_idle [OF quiet kept_harmless]]) auto
      fix present
      have last: "ensures (idle (sampled h r contents))
          (\<lambda>s. case write_new h r contents s of (outcome, s) \<Rightarrow> (creation_status_of outcome, s)) ?Q ?E" for contents
      proof -
        have kept: "kept h r (sampled h r contents)"
          unfolding sampled_def by (rule kept_and_seen [OF kept_harmless])
        note new = publish_link [OF quiet kept, of contents None "config_path r" "''create configuration''", folded write_new_def]
        have made: "idle (published_by h r (links h r (config_path r) (complete_file h contents None) (sampled h r contents))) s
            \<Longrightarrow> idle (published_by h r (creates_configuration h r)) s" for s
          by (auto simp: idle_def creates_configuration_def elim!: published_by_mono)
        have new: "ensures (idle (sampled h r contents)) (write_new h r contents)
            (\<lambda>_. idle (published_by h r (creates_configuration h r))) ?E"
          by (rule ensures_weaken [OF new]) (auto simp: sampled_def dest: made)
        show ?thesis
        proof (rule ensuresI)
          fix s e s'
          assume s: "idle (sampled h r contents) s"
            and "(case write_new h r contents s of (outcome, s) \<Rightarrow> (creation_status_of outcome, s)) = (Inl e, s')"
          then obtain d where "write_new h r contents s = (Inl d, s')"
            by (auto simp: creation_status_of_def split: prod.splits sum.splits)
          then show "?E e s'" using ensuresD(1) [OF new s] by blast
        next
          fix s x s'
          assume s: "idle (sampled h r contents) s"
            and *: "(case write_new h r contents s of (outcome, s) \<Rightarrow> (creation_status_of outcome, s)) = (Inr x, s')"
          obtain outcome where t: "write_new h r contents s = (outcome, s')" "creation_status_of outcome = Inr x"
            using * by (auto split: prod.splits)
          show "?Q x s'"
          proof (cases outcome)
            case (Inl d)
            then have "x = Existing" using t(2)
              by (auto simp: creation_status_of_def split: repository_error.splits if_splits)
            then show ?thesis using ensuresD(1) [OF new s] t(1) Inl by blast
          next
            case (Inr u)
            then show ?thesis using ensuresD(2) [OF new s] t(1) by blast
          qed
        qed
      qed
      show "ensures ?P
          (if present then act_return Existing
           else
             act_bind (read_first_sample h r (sample_candidates r)) (\<lambda>contents.
             \<lambda>s. case write_new h r contents s of (outcome, s) \<Rightarrow> (creation_status_of outcome, s))) ?Q ?E"
      proof (cases present)
        case True
        have "ensures ?P (act_return Existing) ?Q ?E" by (rule ensures_return) simp
        then show ?thesis using True by simp
      next
        case False
        have "ensures ?P (read_first_sample h r (sample_candidates r)) (\<lambda>contents. idle (sampled h r contents)) ?E"
          unfolding sampled_def by (rule ensures_weaken [OF read_first_sample_ensures [OF quiet]]) auto
        then show ?thesis using False last by (simp only: if_False) (rule ensures_bind)
      qed
    qed
  qed
qed

text \<open>C9: Creating a missing configuration never replaces one, not even one that appears meanwhile: either every call
  left all files but temporary ones as they were, and the answer is not that a configuration was created; or
  exactly one call changed another file, and it bound the configuration path, unbound until then, to a complete,
  synchronized file with the text of a shipped sample and the mode 640.
\<close>

theorem ensure_exists_never_replaces:
  assumes "undisturbed h r" "valid_disk (on_disk s)" "moves s = []"
  shows "case ensure_exists h r s of (result, s') \<Rightarrow>
    settled_but {} (moves s') \<and>
    (published_by h r (creates_configuration h r) (moves s') \<or>
     list_all (harmless h r) (moves s') \<and> result \<noteq> Inr Created)"
proof -
  have "idle (untouched h r) s" using assms(2,3) by (simp add: idle_def settled_but_def)
  note run = ensuresD [OF ensure_exists_ensures [OF assms(1)] this]
  obtain result s' where t: "ensure_exists h r s = (result, s')" by (cases "ensure_exists h r s")
  show ?thesis
  proof (cases result)
    case (Inl e)
    then show ?thesis using run(1) [of e s'] t by (auto simp: idle_def)
  next
    case (Inr u)
    then show ?thesis using run(2) [of u s'] t by (auto simp: idle_def)
  qed
qed

section \<open>Backups\<close>

definition backs_up :: "host \<Rightarrow> config_repository \<Rightarrow> path \<Rightarrow> fs_move \<Rightarrow> fs_move list \<Rightarrow> bool" where
  "backs_up h r q m earlier \<longleftrightarrow>
     (\<exists>f contents. links h r q (complete_file h contents (Some f))
        (\<lambda>ms. (untouched h r ms \<and> list_ex (found (config_path r) id f) ms) \<and>
           list_ex (found (config_path r) file_data contents) ms) m earlier)"

lemma act_bind_assoc: "act_bind a (\<lambda>x. act_bind (f x) g) = act_bind (act_bind a f) g"
  unfolding act_bind_def by (rule ext) (auto split: prod.split sum.split)

lemma create_backup_ensures:
  assumes quiet: "undisturbed h r"
  shows "ensures (idle (untouched h r)) (create_backup h r)
     (\<lambda>q. idle (published_by h r (backs_up h r q)))
     (\<lambda>_ s. idle (untouched h r) s \<or> (\<exists>q. idle (published_by h r (backs_up h r q)) s))"
    (is "ensures ?P _ ?Q ?E")
  unfolding create_backup_def
proof (rule ensures_bind)
  let ?X = "\<lambda>f ms. untouched h r ms \<and> list_ex (found (config_path r) id f) ms"
  let ?Z = "\<lambda>f contents ms. ?X f ms \<and> list_ex (found (config_path r) file_data contents) ms"
  have X: "kept h r (?X f)" for f by (rule kept_and_seen [OF kept_harmless])
  have Z: "kept h r (?Z f contents)" for f contents by (rule kept_and_seen [OF X])
  show "ensures ?P (act_io ''read configuration metadata'' (config_path r) (fs_metadata h (config_path r)))
      (\<lambda>f. idle (?X f)) ?E"
    unfolding fs_metadata_def by (rule ensures_weaken [OF ensures_io [OF look_up_idle [OF quiet kept_harmless]]]) auto
  fix f
  have finish: "ensures (idle (?Z f contents))
      (act_bind (act_result (append_to_file_name (config_path r) suffix)) (\<lambda>q.
       act_bind (write_temporary h r contents (Some f)) (\<lambda>p.
       act_bind (link_pending h p q ''create backup'') (\<lambda>_.
       act_bind (sync_parent h r) (\<lambda>_.
       act_return q))))) ?Q ?E" for contents suffix
  proof (rule ensures_bind [where R = "\<lambda>_. idle (?Z f contents)"])
    show "ensures (idle (?Z f contents)) (act_result (append_to_file_name (config_path r) suffix))
        (\<lambda>_. idle (?Z f contents)) ?E"
      by (rule ensures_result) (auto simp: idle_def)
    fix q
    have "links h r q (complete_file h contents (Some f)) (?Z f contents) m ms \<Longrightarrow> backs_up h r q m ms" for m ms
      unfolding backs_up_def by blast
    then have reached: "idle (published_by h r (links h r q (complete_file h contents (Some f)) (?Z f contents))) s
        \<Longrightarrow> idle (published_by h r (backs_up h r q)) s" for s
      unfolding idle_def by (blast intro: published_by_mono)
    have grouped: "act_bind (write_temporary h r contents (Some f)) (\<lambda>p.
         act_bind (link_pending h p q ''create backup'') (\<lambda>_. act_bind (sync_parent h r) (\<lambda>_. act_return q))) =
       act_bind
         (act_bind (write_temporary h r contents (Some f)) (\<lambda>p.
            act_bind (link_pending h p q ''create backup'') (\<lambda>_. sync_parent h r)))
         (\<lambda>_. act_return q)"
      by (simp only: act_bind_assoc)
    show "ensures (idle (?Z f contents))
        (act_bind (write_temporary h r contents (Some f)) (\<lambda>p.
         act_bind (link_pending h p q ''create backup'') (\<lambda>_. act_bind (sync_parent h r) (\<lambda>_. act_return q)))) ?Q ?E"
      unfolding grouped
    proof (rule ensures_bind [where R = "\<lambda>_. idle (published_by h r (backs_up h r q))"])
      show "ensures (idle (?Z f contents))
          (act_bind (write_temporary h r contents (Some f)) (\<lambda>p.
             act_bind (link_pending h p q ''create backup'') (\<lambda>_. sync_parent h r)))
          (\<lambda>_. idle (published_by h r (backs_up h r q))) ?E"
        by (rule ensures_weaken [OF publish_link [OF quiet Z [of f contents]]]) (use reached in blast)+
      show "ensures (idle (published_by h r (backs_up h r q))) (act_return q) ?Q ?E"
        by (rule ensures_return)
    qed
  qed
  show "ensures (idle (?X f))
      (act_bind (act_io ''read configuration'' (config_path r) (fs_read h (config_path r))) (\<lambda>contents.
       act_bind (\<lambda>s. (Inr (host_seconds h (moves s)), s)) (\<lambda>seconds.
       act_bind next_sequence_number (\<lambda>n.
       act_bind (act_result (append_to_file_name (config_path r) (backup_suffix h seconds n))) (\<lambda>q.
       act_bind (write_temporary h r contents (Some f)) (\<lambda>p.
       act_bind (link_pending h p q ''create backup'') (\<lambda>_.
       act_bind (sync_parent h r) (\<lambda>_.
       act_return q)))))))) ?Q ?E"
  proof (rule ensures_bind)
    show "ensures (idle (?X f)) (act_io ''read configuration'' (config_path r) (fs_read h (config_path r)))
        (\<lambda>contents. idle (?Z f contents)) ?E"
      unfolding fs_read_def
      by (rule ensures_weaken [OF ensures_io [OF look_up_idle [OF quiet X]]]) (auto simp: idle_def)
    fix contents
    show "ensures (idle (?Z f contents))
        (act_bind (\<lambda>s. (Inr (host_seconds h (moves s)), s)) (\<lambda>seconds.
         act_bind next_sequence_number (\<lambda>n.
         act_bind (act_result (append_to_file_name (config_path r) (backup_suffix h seconds n))) (\<lambda>q.
         act_bind (write_temporary h r contents (Some f)) (\<lambda>p.
         act_bind (link_pending h p q ''create backup'') (\<lambda>_.
         act_bind (sync_parent h r) (\<lambda>_.
         act_return q))))))) ?Q ?E"
    proof (rule ensures_bind [where R = "\<lambda>_. idle (?Z f contents)"])
      show "ensures (idle (?Z f contents)) (\<lambda>s. (Inr (host_seconds h (moves s)), s)) (\<lambda>_. idle (?Z f contents)) ?E"
        by (simp add: ensures_def)
      fix seconds
      show "ensures (idle (?Z f contents))
          (act_bind next_sequence_number (\<lambda>n.
           act_bind (act_result (append_to_file_name (config_path r) (backup_suffix h seconds n))) (\<lambda>q.
           act_bind (write_temporary h r contents (Some f)) (\<lambda>p.
           act_bind (link_pending h p q ''create backup'') (\<lambda>_.
           act_bind (sync_parent h r) (\<lambda>_.
           act_return q)))))) ?Q ?E"
        by (rule ensures_bind [OF ensures_weaken [OF sequence_idle] finish]) (simp_all only: idle_def, blast)
    qed
  qed
qed

text \<open>
  A backup is one step too: a new name for a complete, synchronized copy of the text and the owner and mode that
  were found at the configuration path, and nothing else changes.
\<close>

theorem backup_complete:
  assumes "undisturbed h r" "valid_disk (on_disk s)" "moves s = []"
  shows "case create_backup h r s of (result, s') \<Rightarrow>
    settled_but {} (moves s') \<and>
    (case result of
       Inr q \<Rightarrow> published_by h r (backs_up h r q) (moves s')
     | Inl _ \<Rightarrow> list_all (harmless h r) (moves s') \<or> (\<exists>q. published_by h r (backs_up h r q) (moves s')))"
proof -
  have "idle (untouched h r) s" using assms(2,3) by (simp add: idle_def settled_but_def)
  note run = ensuresD [OF create_backup_ensures [OF assms(1)] this]
  obtain result s' where t: "create_backup h r s = (result, s')" by (cases "create_backup h r s")
  show ?thesis
  proof (cases result)
    case (Inl e)
    then show ?thesis using run(1) [of e s'] t by (auto simp: idle_def)
  next
    case (Inr q)
    then show ?thesis using run(2) [of q s'] t by (simp add: idle_def)
  qed
qed

section \<open>Concrete runs\<close>

definition sample_host :: host where
  "sample_host =
     \<lparr>host_refuses = (\<lambda>t c. None), host_meanwhile = (\<lambda>t d. d), host_partial = (\<lambda>t. 0), host_owner = (0, 0),
      host_mode = 384, host_seconds = (\<lambda>t. 1700000000), host_process = 4242\<rparr>"

definition sample_path :: "string \<Rightarrow> path" where
  "sample_path name = \<lparr>path_rooted = True, path_parts = [''etc'', name]\<rparr>"

definition sample_repository :: config_repository where
  "sample_repository =
     \<lparr>config_path = sample_path ''radio.conf'', sample_candidates = [sample_path ''radio.sample'']\<rparr>"

definition sample_session :: "(string \<times> string) list \<Rightarrow> session" where
  "sample_session files =
     \<lparr>on_disk =
        \<lparr>disk_names = map_of (zip (map (\<lambda>(name, _). sample_path name) files) [0..<length files]),
         disk_files = (\<lambda>i. \<lparr>file_data = (if i < length files then snd (files ! i) else []), file_owner = (7, 8),
           file_mode = 388, file_synced = True\<rparr>),
         disk_fresh = length files, disk_directories = []\<rparr>,
      moves = [], temp_sequence = 0\<rparr>"

lemma sample_undisturbed: "undisturbed sample_host r"
  by (simp add: undisturbed_def sample_host_def)

lemma sample_valid: "valid_disk (on_disk (sample_session [(n, x)]))"
  by (simp add: valid_disk_def sample_session_def)

lemma sample_unmoved: "moves (sample_session xs) = []"
  by (simp add: sample_session_def)

definition text_at :: "path \<Rightarrow> session \<Rightarrow> string option" where
  "text_at p s = map_option (\<lambda>i. file_data (disk_files (on_disk s) i)) (disk_names (on_disk s) p)"


lemma sample_name: "temporary_name sample_host ''radio.conf'' 0 = ''.radio.conf.tmp.4242.0''"
  by (simp add: temporary_name_def sample_host_def) code_simp

lemmas run_defs =
  act_bind_def act_io_def act_cleanup_def act_result_def act_return_def looked_up_def Let_def
  fs_create_dirs_def directories_to_def make_directories_def fs_try_exists_def fs_read_text_def fs_metadata_def fs_create_new_def fs_write_all_def
  fs_handle_metadata_def fs_change_owner_def fs_set_mode_def fs_sync_all_def fs_remove_def fs_hard_link_def
  fs_rename_def fs_open_directory_def fs_sync_directory_def change_file_def next_sequence_number_def
  preserve_owner_def prepare_file_def prepare_pending_def write_temporary_def sync_parent_def link_pending_def
  write_new_def creation_status_of_def parent_directory_def file_name_def parent_def path_join_def ok_or_def

lemma sample_attempt:
  "attempt sample_host c refused effect s =
     (case effect (on_disk s) of (r, e) \<Rightarrow>
        (r, s\<lparr>on_disk := e,
              moves := \<lparr>move_call = c, move_ok = (case r of Inl _ \<Rightarrow> False | Inr _ \<Rightarrow> True),
                        move_before = on_disk s, move_after = e\<rparr> # moves s\<rparr>))"
  by (simp add: attempt_def sample_host_def Let_def)

lemma sample_fields: "host_owner sample_host = (0, 0)" "host_mode sample_host = 384" "host_partial sample_host t = 0"
  by (simp_all add: sample_host_def)

theorem write_atomic_durable_witness:
  "\<exists>s'. write_atomic sample_host sample_repository ''new'' (sample_session [(''radio.conf'', ''old'')]) = (Inr (), s') \<and>
     text_at (sample_path ''radio.conf'') s' = Some ''new'' \<and>
     published_by sample_host sample_repository (replaces sample_host sample_repository ''new'') (moves s')"
proof -
  let ?run = "write_atomic sample_host sample_repository ''new'' (sample_session [(''radio.conf'', ''old'')])"
  have "fst ?run = Inr () \<and> text_at (sample_path ''radio.conf'') (snd ?run) = Some ''new''"
    by (simp add: write_atomic_def run_defs sample_attempt sample_fields sample_name sample_repository_def sample_session_def
        sample_path_def text_at_def)
  then obtain s' where s': "?run = (Inr (), s')" "text_at (sample_path ''radio.conf'') s' = Some ''new''"
    by (metis prod.collapse)
  note safe = write_atomic_durable [OF sample_undisturbed [of sample_repository] sample_valid sample_unmoved,
      of "''new''" "''radio.conf''" "''old''"]
  have "published_by sample_host sample_repository (replaces sample_host sample_repository ''new'') (moves s')"
    using safe unfolding s'(1) by (simp only: prod.case sum.case if_True)
  then show ?thesis using s' by blast
qed

theorem ensure_exists_never_replaces_witness:
  "\<exists>s'. ensure_exists sample_host sample_repository (sample_session [(''radio.sample'', ''shipped'')]) = (Inr Created, s') \<and>
     text_at (sample_path ''radio.conf'') s' = Some ''shipped'' \<and>
     published_by sample_host sample_repository (creates_configuration sample_host sample_repository) (moves s')"
proof -
  let ?run = "ensure_exists sample_host sample_repository (sample_session [(''radio.sample'', ''shipped'')])"
  have "fst ?run = Inr Created \<and> text_at (sample_path ''radio.conf'') (snd ?run) = Some ''shipped''"
    by (simp add: ensure_exists_def run_defs sample_attempt sample_fields sample_name sample_repository_def sample_session_def
        sample_path_def text_at_def)
  then obtain s' where s': "?run = (Inr Created, s')" "text_at (sample_path ''radio.conf'') s' = Some ''shipped''"
    by (metis prod.collapse)
  note safe = ensure_exists_never_replaces [OF sample_undisturbed [of sample_repository] sample_valid sample_unmoved,
      of "''radio.sample''" "''shipped''"]
  have "published_by sample_host sample_repository (creates_configuration sample_host sample_repository) (moves s')"
    using safe unfolding s'(1) by (simp only: prod.case) blast
  then show ?thesis using s' by blast
qed

text \<open>
  A temporary file that an earlier process with the same number left behind is taken for the configuration: the
  answer is that the configuration exists, although there is none.
\<close>

theorem stale_temporary_taken_for_configuration:
  "let run = ensure_exists sample_host sample_repository
       (sample_session [(''radio.sample'', ''shipped''), (''.radio.conf.tmp.4242.0'', ''shi'')]) in
   fst run = Inr Existing \<and> text_at (sample_path ''radio.conf'') (snd run) = None"
  by (simp add: ensure_exists_def run_defs sample_attempt sample_fields sample_name sample_repository_def sample_session_def
      sample_path_def text_at_def)

end
