(* ===== verification/Native_Configuration.thy ===== *)
theory Native_Configuration
  imports Channel_Configuration
begin

text \<open>
  The standalone composition, \<^verbatim>\<open>rust/core/src/native_configuration.rs\<close>: the sections \<open>[radio]\<close> and
  \<open>[radio NODE]\<close> are translated, assignment by assignment, into a document of the shared sections, which the
  channel resolver then resolves; its warnings are translated back to the names and values of the operator.
\<close>

section \<open>Physical options\<close>

datatype native_device_selection = SelectExact | SelectLowestAlsaCard

fun native_device_selection_display :: "native_device_selection \<Rightarrow> string" where
  "native_device_selection_display SelectExact = ''exact''"
| "native_device_selection_display SelectLowestAlsaCard = ''automatic_lowest_alsa_card''"

record native_physical_options =
  np_device_selection :: native_device_selection
  np_input_device_channels :: int
  np_output_device_channels :: int
  np_hardware_input_gain_db :: "rust_float option"
  np_hardware_output_a_gain_db :: "rust_float option"
  np_hardware_output_b_gain_db :: "rust_float option"
  np_receive_graph :: string
  np_transmit_graph :: string

definition native_physical_default :: native_physical_options where
  "native_physical_default =
     \<lparr>np_device_selection = SelectExact, np_input_device_channels = 1, np_output_device_channels = 1,
      np_hardware_input_gain_db = None, np_hardware_output_a_gain_db = None, np_hardware_output_b_gain_db = None,
      np_receive_graph = ''anull'', np_transmit_graph = ''anull''\<rparr>"

definition parse_device_selection :: "string \<Rightarrow> (string, native_device_selection) result" where
  "parse_device_selection value =
     (if value = ''exact'' then Inr SelectExact
      else if value = ''automatic_lowest_alsa_card'' then Inr SelectLowestAlsaCard
      else Inl ''requires exact or automatic_lowest_alsa_card'')"

definition assign_graph :: "string station_assigner" where
  "assign_graph graph s ws =
     (if setting_value s = [] \<or> length (setting_value s) > 4096
      then (graph, station_invalid ws s graph ''requires 1 through 4096 UTF-8 bytes'')
      else (setting_value s, ws))"

definition apply_physical ::
  "string \<Rightarrow> setting \<Rightarrow> native_physical_options \<Rightarrow> warnings \<Rightarrow> native_physical_options \<times> warnings" where
  "apply_physical key s p ws =
     (if key = ''device_selection'' then
        (case assign_display native_device_selection_display parse_device_selection (np_device_selection p) s ws of
           (v, ws) \<Rightarrow> (p\<lparr>np_device_selection := v\<rparr>, ws))
      else if key = ''input_device_channels'' then
        (case assign_u32 1 2 (np_input_device_channels p) s ws of
           (v, ws) \<Rightarrow> (p\<lparr>np_input_device_channels := v\<rparr>, ws))
      else if key = ''output_device_channels'' then
        (case assign_u32 1 2 (np_output_device_channels p) s ws of
           (v, ws) \<Rightarrow> (p\<lparr>np_output_device_channels := v\<rparr>, ws))
      else if key = ''receive_graph'' then
        (case assign_graph (np_receive_graph p) s ws of (v, ws) \<Rightarrow> (p\<lparr>np_receive_graph := v\<rparr>, ws))
      else if key = ''transmit_graph'' then
        (case assign_graph (np_transmit_graph p) s ws of (v, ws) \<Rightarrow> (p\<lparr>np_transmit_graph := v\<rparr>, ws))
      else (p, station_unknown ws s))"

section \<open>Aliases\<close>

datatype value_alias =
    VIdentity | VWholeDb | VAudio | VCarrier | VCtcssSource | VOutput | VInterface | VNoise | VDuplex | VTurnoff
  | VBooleanNumber | VMilliseconds

fun value_pairs :: "value_alias \<Rightarrow> (string \<times> string) list" where
  "value_pairs VAudio = [(''disabled'', ''no'')]"
| "value_pairs VCarrier =
     [(''disabled'', ''no''), (''cm119'', ''usb''), (''cm119_inverted'', ''usbinvert''), (''parallel'', ''pp''),
      (''parallel_inverted'', ''ppinvert'')]"
| "value_pairs VCtcssSource =
     [(''disabled'', ''no''), (''cm119'', ''usb''), (''cm119_inverted'', ''usbinvert''), (''parallel'', ''pp''),
      (''parallel_inverted'', ''ppinvert'')]"
| "value_pairs VOutput =
     [(''disabled'', ''off''), (''tone'', ''ctcss''), (''composite'', ''voice_ctcss''),
      (''auxiliary_voice'', ''auxvoice'')]"
| "value_pairs VInterface = [(''dudeusb'', ''0''), (''sphusb'', ''1''), (''nhrc'', ''2''), (''custom'', ''3'')]"
| "value_pairs VNoise = [(''standard'', ''0''), (''alternate'', ''1'')]"
| "value_pairs VDuplex = [(''half'', ''0''), (''full'', ''1'')]"
| "value_pairs VTurnoff =
     [(''none'', ''no''), (''phase_shift'', ''ctcss_phase_shift''), (''tone_remove'', ''ctcss_tone_remove''),
      (''tail_tone'', ''ctcss_tail_tone'')]"
| "value_pairs VBooleanNumber = [(''no'', ''0''), (''yes'', ''1'')]"
| "value_pairs VIdentity = []"
| "value_pairs VWholeDb = []"
| "value_pairs VMilliseconds = []"

definition parse_u16 :: "string \<Rightarrow> int option" where "parse_u16 = from_str_radix 10 65535"

definition parse_i32 :: "string \<Rightarrow> int option" where
  "parse_i32 s =
     (case s of
        [] \<Rightarrow> None
      | c # cs \<Rightarrow>
          if c = CHR ''-'' then (if cs = [] then None else map_option uminus (radix_value 10 (2 ^ 31) 0 cs))
          else from_str_radix 10 (2 ^ 31 - 1) (c # cs))"

definition to_shared :: "value_alias \<Rightarrow> string \<Rightarrow> string" where
  "to_shared a value =
     (if a = VMilliseconds
      then (case parse_u16 value of Some n \<Rightarrow> dec_digits ((n + 19) div 20) | None \<Rightarrow> value)
      else (case find (\<lambda>(native, _). eq_ignore_ascii_case value native) (value_pairs a) of
              Some (_, shared) \<Rightarrow> shared | None \<Rightarrow> value))"

definition to_native :: "value_alias \<Rightarrow> string \<Rightarrow> string" where
  "to_native a value =
     (if a = VMilliseconds
      then (case parse_u16 value of Some n \<Rightarrow> dec_digits (n * 20) | None \<Rightarrow> value)
      else (case find (\<lambda>(_, shared). eq_ignore_ascii_case value shared) (value_pairs a) of
              Some (native, _) \<Rightarrow> native | None \<Rightarrow> value))"

record setting_alias =
  alias_native :: string
  alias_section :: string
  alias_key :: string
  alias_value :: value_alias

definition alias_entry :: "string \<Rightarrow> string \<Rightarrow> string \<Rightarrow> value_alias \<Rightarrow> setting_alias" where
  "alias_entry native sec key value =
     \<lparr>alias_native = native, alias_section = sec, alias_key = key, alias_value = value\<rparr>"

definition DEVICE_ALIASES :: "setting_alias list" where
  "DEVICE_ALIASES =
     [alias_entry ''device_identifier'' ''hardware'' ''hardware_device_identifier'' VIdentity,
      alias_entry ''usb_serial'' ''hardware'' ''hardware_serial'' VIdentity,
      alias_entry ''hardware_input_gain_db'' ''hardware'' ''hardware_input_gain_db'' VIdentity,
      alias_entry ''hardware_output_a_gain_db'' ''hardware'' ''hardware_output_a_gain_db'' VIdentity,
      alias_entry ''hardware_output_b_gain_db'' ''hardware'' ''hardware_output_b_gain_db'' VIdentity,
      alias_entry ''input_extra_buffer_ms'' ''hardware'' ''hardware_input_extra_buffer_ms'' VIdentity,
      alias_entry ''output_extra_buffer_ms'' ''hardware'' ''hardware_output_extra_buffer_ms'' VIdentity,
      alias_entry ''receive_deemphasis_corner_hz'' ''hardware'' ''hardware_deemphasis_corner_hz'' VIdentity,
      alias_entry ''transmit_preemphasis_corner_hz'' ''hardware'' ''hardware_preemphasis_corner_hz'' VIdentity]"

definition CM119_ALIASES :: "setting_alias list" where
  "CM119_ALIASES =
     [alias_entry ''cm119_profile'' ''hardware'' ''hardware_interface_type'' VInterface,
      alias_entry ''cm119_ptt_inverted'' ''hardware'' ''hardware_ptt_inverted'' VIdentity,
      alias_entry ''cm119_clip_led_gpio'' ''hardware'' ''hardware_clip_led_gpio'' VIdentity,
      alias_entry ''hardware_eeprom_enabled'' ''hardware'' ''hardware_eeprom_enabled'' VIdentity,
      alias_entry ''cm119_gpio_1_mode'' ''hardware'' ''hardware_gpio_1_mode'' VIdentity,
      alias_entry ''cm119_gpio_2_mode'' ''hardware'' ''hardware_gpio_2_mode'' VIdentity,
      alias_entry ''cm119_gpio_3_mode'' ''hardware'' ''hardware_gpio_3_mode'' VIdentity,
      alias_entry ''cm119_gpio_4_mode'' ''hardware'' ''hardware_gpio_4_mode'' VIdentity,
      alias_entry ''cm119_gpio_5_mode'' ''hardware'' ''hardware_gpio_5_mode'' VIdentity,
      alias_entry ''cm119_gpio_6_mode'' ''hardware'' ''hardware_gpio_6_mode'' VIdentity,
      alias_entry ''cm119_gpio_7_mode'' ''hardware'' ''hardware_gpio_7_mode'' VIdentity,
      alias_entry ''cm119_gpio_8_mode'' ''hardware'' ''hardware_gpio_8_mode'' VIdentity]"

definition RECEIVE_ALIASES :: "setting_alias list" where
  "RECEIVE_ALIASES =
     [alias_entry ''receive_audio'' ''receive'' ''audio_source'' VAudio,
      alias_entry ''receive_signaling'' ''receive'' ''signaling_method'' VIdentity,
      alias_entry ''carrier_source'' ''receive'' ''cos_assignment'' VCarrier,
      alias_entry ''squelch_level'' ''receive'' ''squelch_level'' VIdentity,
      alias_entry ''squelch_hysteresis'' ''receive'' ''noise_squelch_hysteresis'' VIdentity,
      alias_entry ''noise_filter'' ''receive'' ''noise_filter_type'' VNoise,
      alias_entry ''vox_threshold'' ''receive'' ''vox_threshold'' VIdentity,
      alias_entry ''vox_hang_ms'' ''receive'' ''vox_hang_ms'' VIdentity,
      alias_entry ''vad_mode'' ''receive'' ''vad_mode'' VIdentity,
      alias_entry ''vad_hang_ms'' ''receive'' ''vad_hang_ms'' VIdentity,
      alias_entry ''receive_on_delay_ms'' ''receive'' ''on_delay_frames'' VMilliseconds]"

definition TONE_ALIASES :: "setting_alias list" where
  "TONE_ALIASES =
     [alias_entry ''ctcss_source'' ''ctcss'' ''receive_source'' VCtcssSource,
      alias_entry ''receive_ctcss_tones_hz'' ''ctcss'' ''receive_frequencies'' VIdentity,
      alias_entry ''ctcss_decoder_gain_db'' ''ctcss'' ''receive_decoder_gain_db'' VIdentity,
      alias_entry ''ctcss_relaxed'' ''ctcss'' ''receive_relax'' VBooleanNumber,
      alias_entry ''ctcss_override'' ''ctcss'' ''receive_override_enabled'' VIdentity,
      alias_entry ''transmit_ctcss_tones_hz'' ''ctcss'' ''transmit_frequencies'' VIdentity,
      alias_entry ''transmit_ctcss_default_hz'' ''ctcss'' ''transmit_default_hz'' VIdentity,
      alias_entry ''transmit_ctcss_level_dbfs'' ''ctcss'' ''transmit_peak_dbfs'' VIdentity,
      alias_entry ''transmit_ctcss_turnoff_mode'' ''ctcss'' ''turnoff_mode'' VTurnoff,
      alias_entry ''transmit_ctcss_phase_shift_degrees'' ''ctcss'' ''phase_shift_degrees'' VIdentity,
      alias_entry ''transmit_ctcss_turnoff_duration_ms'' ''ctcss'' ''tail_duration_ms'' VIdentity,
      alias_entry ''transmit_ctcss_tail_tone_hz'' ''ctcss'' ''tail_frequency_hz'' VIdentity,
      alias_entry ''dcs_receive_code'' ''dcs'' ''receive_code'' VIdentity,
      alias_entry ''transmit_dcs_code'' ''dcs'' ''transmit_code'' VIdentity,
      alias_entry ''transmit_dcs_level_dbfs'' ''dcs'' ''peak_dbfs'' VIdentity,
      alias_entry ''transmit_dcs_turnoff_enabled'' ''dcs'' ''turnoff_code_enabled'' VIdentity,
      alias_entry ''transmit_dcs_turnoff_duration_ms'' ''dcs'' ''turnoff_duration_ms'' VIdentity]"

definition TRANSMIT_ALIASES :: "setting_alias list" where
  "TRANSMIT_ALIASES =
     [alias_entry ''transmit_signaling'' ''transmit'' ''signaling_method'' VIdentity,
      alias_entry ''transmit_preemphasis_enabled'' ''transmit'' ''preemphasis_enabled'' VIdentity,
      alias_entry ''transmit_settle_ms'' ''transmit'' ''settle_ms'' VIdentity,
      alias_entry ''transmit_receive_blanking_ms'' ''transmit'' ''rx_blanking_ms'' VIdentity,
      alias_entry ''transmit_off_delay_ms'' ''transmit'' ''off_delay_frames'' VMilliseconds,
      alias_entry ''transmit_output_a_assignment'' ''hardware'' ''hardware_output_a_assignment'' VOutput,
      alias_entry ''transmit_output_b_assignment'' ''hardware'' ''hardware_output_b_assignment'' VOutput,
      alias_entry ''radio_duplex_mode'' ''duplex'' ''duplex_radio_mode'' VDuplex,
      alias_entry ''receive_input_gain_db'' ''local'' ''input_gain_db'' VIdentity,
      alias_entry ''receive_output_gain_db'' ''local'' ''output_gain_db'' VWholeDb,
      alias_entry ''status_publication_interval_ms'' ''diagnostics'' ''diagnostics_status_publication_interval_ms'' VIdentity]"

definition PARALLEL_ALIASES :: "setting_alias list" where
  "PARALLEL_ALIASES =
     [alias_entry ''parallel_port_device'' ''hardware'' ''hardware_parallel_port_device'' VIdentity,
      alias_entry ''parallel_port_base_address'' ''hardware'' ''hardware_parallel_port_base_address'' VIdentity,
      alias_entry ''parallel_pin_2_assignment'' ''hardware'' ''hardware_parallel_pin_2_assignment'' VIdentity,
      alias_entry ''parallel_pin_3_assignment'' ''hardware'' ''hardware_parallel_pin_3_assignment'' VIdentity,
      alias_entry ''parallel_pin_4_assignment'' ''hardware'' ''hardware_parallel_pin_4_assignment'' VIdentity,
      alias_entry ''parallel_pin_5_assignment'' ''hardware'' ''hardware_parallel_pin_5_assignment'' VIdentity,
      alias_entry ''parallel_pin_6_assignment'' ''hardware'' ''hardware_parallel_pin_6_assignment'' VIdentity,
      alias_entry ''parallel_pin_7_assignment'' ''hardware'' ''hardware_parallel_pin_7_assignment'' VIdentity,
      alias_entry ''parallel_pin_8_assignment'' ''hardware'' ''hardware_parallel_pin_8_assignment'' VIdentity,
      alias_entry ''parallel_pin_9_assignment'' ''hardware'' ''hardware_parallel_pin_9_assignment'' VIdentity,
      alias_entry ''parallel_pin_10_assignment'' ''hardware'' ''hardware_parallel_pin_10_assignment'' VIdentity,
      alias_entry ''parallel_pin_12_assignment'' ''hardware'' ''hardware_parallel_pin_12_assignment'' VIdentity,
      alias_entry ''parallel_pin_13_assignment'' ''hardware'' ''hardware_parallel_pin_13_assignment'' VIdentity,
      alias_entry ''parallel_pin_15_assignment'' ''hardware'' ''hardware_parallel_pin_15_assignment'' VIdentity]"

definition ALIASES :: "setting_alias list" where
  "ALIASES = DEVICE_ALIASES @ CM119_ALIASES @ RECEIVE_ALIASES @ TONE_ALIASES @ TRANSMIT_ALIASES @ PARALLEL_ALIASES"

definition native_radio_setting_destination :: "string \<Rightarrow> string \<Rightarrow> string option" where
  "native_radio_setting_destination section_name key =
     map_option alias_native
       (find (\<lambda>a. eq_ignore_ascii_case (alias_section a) section_name \<and> eq_ignore_ascii_case (alias_key a) key) ALIASES)"

definition native_radio_setting_value :: "string \<Rightarrow> string \<Rightarrow> string \<Rightarrow> string option" where
  "native_radio_setting_value section_name key value =
     map_option (\<lambda>a. to_native (alias_value a) value)
       (find (\<lambda>a. eq_ignore_ascii_case (alias_section a) section_name \<and> eq_ignore_ascii_case (alias_key a) key) ALIASES)"

section \<open>Sections\<close>

definition CONTROLLER_SECTIONS :: "string list" where
  "CONTROLLER_SECTIONS =
     [''radio'', ''echolink'', ''identifier'', ''announcement'', ''tail'', ''courtesy'', ''morse'', ''speech'',
      ''time'', ''template'', ''message'', ''macro'', ''event'', ''permanent'', ''schedule'', ''sensor'', ''input'',
      ''output'', ''alarm'', ''fan'']"

definition native_configured_nodes :: "config_document \<Rightarrow> string list" where
  "native_configured_nodes doc =
     filter (\<lambda>section. \<not> list_ex (eq_ignore_ascii_case section) CONTROLLER_SECTIONS) (configured_channels doc)"

definition native_processing_profile_configured :: "config_document \<Rightarrow> string \<Rightarrow> string \<Rightarrow> bool" where
  "native_processing_profile_configured doc node kind \<longleftrightarrow>
     list_ex (\<lambda>section. eq_ignore_ascii_case section kind \<or> eq_ignore_ascii_case section (kind @ '' '' @ node))
       (section_names doc) \<or>
     list_ex (\<lambda>(key, _). eq_ignore_ascii_case key (kind @ ''_profile'')) (explicit_values doc node)"

definition SHARED_KINDS :: "string list" where
  "SHARED_KINDS =
     [''hardware'', ''receive'', ''transmit'', ''ctcss'', ''dcs'', ''duplex'', ''diagnostics'', ''local'', ''link'',
      ''voice_telemetry'', ''remote_base'', ''remote_memory'', ''remote_scan'']"

definition is_shared_section :: "string \<Rightarrow> bool" where
  "is_shared_section section \<longleftrightarrow>
     list_ex (eq_ignore_ascii_case (case first_word section of None \<Rightarrow> [] | Some kind \<Rightarrow> kind)) SHARED_KINDS"

section \<open>Translation\<close>

text \<open>Where an assignment came from: its destination and alias, and the operator's section, name and value.\<close>

record origin =
  origin_destination :: string
  origin_alias :: setting_alias
  origin_section :: string
  origin_name :: string
  origin_value :: string

record native_state =
  ns_document :: config_document
  ns_physical :: native_physical_options
  ns_warnings :: warnings
  ns_origins :: "origin list"

type_synonym native_outcome = "(channel_configuration_error, native_state) result"

definition document_edit ::
  "config_document \<Rightarrow> string \<Rightarrow> string \<Rightarrow> string \<Rightarrow> (channel_configuration_error, config_document) result" where
  "document_edit doc section name value =
     map_err (StationFailure \<circ> StationDocument) (set_value doc section name value)"

definition alias_of :: "string \<Rightarrow> setting_alias option" where
  "alias_of key = find (\<lambda>a. alias_native a = key \<or> alias_section a = ''hardware'' \<and> alias_key a = key) ALIASES"

definition apply_alias :: "string \<Rightarrow> setting_alias \<Rightarrow> setting \<Rightarrow> native_state \<Rightarrow> native_outcome" where
  "apply_alias node a s st =
     (let destination =
            (if setting_section s = ''radio'' then alias_section a else alias_section a @ '' '' @ node) in
      res_bind (document_edit (ns_document st) destination (alias_key a) (to_shared (alias_value a) (setting_value s)))
        (\<lambda>doc. Inr (st\<lparr>ns_document := doc,
                       ns_origins := ns_origins st @
                         [\<lparr>origin_destination = destination, origin_alias = a, origin_section = setting_section s,
                           origin_name = setting_name s, origin_value = setting_value s\<rparr>]\<rparr>)))"

definition apply_native ::
  "string \<Rightarrow> string \<Rightarrow> processing_chain \<Rightarrow> bool \<Rightarrow> setting \<Rightarrow> native_state \<Rightarrow> native_outcome" where
  "apply_native source node local_defaults local_configured s st =
     (case alias_of (to_ascii_lowercase (setting_name s)) of
        Some a \<Rightarrow>
          if alias_section a = ''local'' \<and> local_configured then Inr st
          else if alias_value a = VWholeDb \<and> parse_i32 (trim (setting_value s)) = None then
            res_bind
              (map_err ProcessingFailure
                (from_document_with_defaults (ns_document st) source node LocalReceive local_defaults))
              (\<lambda>inherited.
                Inr (st\<lparr>ns_warnings := station_invalid (ns_warnings st) s
                          (float_display (output_gain_db (rp_chain inherited)))
                          ''requires an integer from -30 through 30 dB''\<rparr>))
          else apply_alias node a s st
      | None \<Rightarrow>
          (case apply_physical (to_ascii_lowercase (setting_name s)) s (ns_physical st) (ns_warnings st) of
             (p, ws) \<Rightarrow> Inr (st\<lparr>ns_physical := p, ns_warnings := ws\<rparr>)))"

fun native_overlay ::
  "string \<Rightarrow> string \<Rightarrow> processing_chain \<Rightarrow> bool \<Rightarrow> string \<Rightarrow> btree_map \<Rightarrow> (string \<times> string) list \<Rightarrow>
   native_state \<Rightarrow> native_outcome" where
  "native_overlay source node local_defaults local_configured section_name seen [] st = Inr st"
| "native_overlay source node local_defaults local_configured section_name seen ((name, value) # rest) st =
     (case record_assignment seen source section_name (to_ascii_lowercase name) value of
        Inl e \<Rightarrow> Inl (StationFailure e)
      | Inr None \<Rightarrow> native_overlay source node local_defaults local_configured section_name seen rest st
      | Inr (Some seen) \<Rightarrow>
          res_bind
            (apply_native source node local_defaults local_configured
              \<lparr>setting_source = source, setting_section = section_name, setting_name = name, setting_value = value\<rparr> st)
            (native_overlay source node local_defaults local_configured section_name seen rest))"

text \<open>The node's own section passes on its profile selectors and whether the channel is enabled.\<close>

fun copy_selectors ::
  "config_document \<Rightarrow> string \<Rightarrow> (string \<times> string) list \<Rightarrow> config_document \<Rightarrow>
   (channel_configuration_error, config_document) result" where
  "copy_selectors doc node [] normalized = Inr normalized"
| "copy_selectors doc node ((key, value) # rest) normalized =
     (if ends_with ''_profile'' (to_ascii_lowercase key) \<or> eq_ignore_ascii_case key ''channel_enabled'' then
        res_bind
          (case strip_suffix ''_profile'' (to_ascii_lowercase key) of
             Some kind \<Rightarrow> map_err StationFailure (station_reject_ambiguous doc node kind)
           | None \<Rightarrow> Inr ()) (\<lambda>_.
        res_bind (document_edit normalized node key value) (copy_selectors doc node rest))
      else copy_selectors doc node rest normalized)"

definition section_text :: "string \<Rightarrow> btree_map \<Rightarrow> string" where
  "section_text section values =
     [newline] @ ''['' @ section @ '']'' @ [newline] @
     concat (map (\<lambda>(key, value). key @ ''='' @ value @ [newline]) values)"

fun copy_sections ::
  "config_document \<Rightarrow> string \<Rightarrow> string list \<Rightarrow> config_document \<Rightarrow>
   (channel_configuration_error, config_document) result" where
  "copy_sections doc node [] normalized = Inr normalized"
| "copy_sections doc node (section # rest) normalized =
     (if eq_ignore_ascii_case section node then
        res_bind (copy_selectors doc node (explicit_values doc section) normalized) (copy_sections doc node rest)
      else if is_shared_section section then
        copy_sections doc node rest
          (document_new (as_str normalized @ section_text section (explicit_values doc section)))
      else copy_sections doc node rest normalized)"

section \<open>Resolution\<close>

definition assign_gain_intention :: "setting \<Rightarrow> rust_float option \<Rightarrow> rust_float option" where
  "assign_gain_intention s target =
     (case assign_f64 (f64 (- 30)) (f64 30) (case target of None \<Rightarrow> f64 0 | Some g \<Rightarrow> g) s [] of
        (gain, ws) \<Rightarrow> if ws = [] then Some gain else target)"

definition gain_intention ::
  "string \<Rightarrow> string \<Rightarrow> btree_map \<Rightarrow> string \<Rightarrow> rust_float option \<Rightarrow> rust_float option" where
  "gain_intention source section_name values key target =
     (case find (\<lambda>(name, _). eq_ignore_ascii_case name key) values of
        None \<Rightarrow> target
      | Some (name, value) \<Rightarrow>
          assign_gain_intention
            \<lparr>setting_source = source, setting_section = section_name, setting_name = name, setting_value = value\<rparr> target)"

definition gain_intentions ::
  "config_document \<Rightarrow> string \<Rightarrow> native_physical_options \<Rightarrow> string \<Rightarrow> native_physical_options" where
  "gain_intentions doc source p section_name =
     (let values = explicit_values doc section_name;
          gain = gain_intention source section_name values in
      p\<lparr>np_hardware_input_gain_db := gain ''hardware_input_gain_db'' (np_hardware_input_gain_db p),
        np_hardware_output_a_gain_db := gain ''hardware_output_a_gain_db'' (np_hardware_output_a_gain_db p),
        np_hardware_output_b_gain_db := gain ''hardware_output_b_gain_db'' (np_hardware_output_b_gain_db p)\<rparr>)"

definition native_warning :: "origin list \<Rightarrow> resolution_warning \<Rightarrow> resolution_warning" where
  "native_warning origins w =
     (case find (\<lambda>o'. eq_ignore_ascii_case (origin_destination o') (warn_section w) \<and>
                      eq_ignore_ascii_case (alias_key (origin_alias o')) (warn_name w) \<and>
                      to_shared (alias_value (origin_alias o')) (origin_value o') = warn_supplied_value w)
             (rev origins) of
        None \<Rightarrow> w
      | Some o' \<Rightarrow>
          w\<lparr>warn_section := origin_section o', warn_name := origin_name o', warn_supplied_value := origin_value o',
            warn_fallback := to_native (alias_value (origin_alias o')) (warn_fallback w)\<rparr>)"

record resolved_native_configuration =
  rn_resolved :: resolved_channel_configuration
  rn_physical :: native_physical_options
  rn_document :: config_document
  rn_source_document :: config_document
  rn_warnings :: warnings

definition native_defaults :: station_config where
  "native_defaults =
     station_default
       \<lparr>station_hardware := (station_hardware station_default)
          \<lparr>hw_output_a_assignment := OutVoice, hw_output_b_assignment := OutCtcss, hw_eeprom_enabled := False\<rparr>,
        station_transmit := (station_transmit station_default)\<lparr>tx_preemphasis_enabled := False\<rparr>\<rparr>"

definition native_skeleton :: "string \<Rightarrow> config_document" where
  "native_skeleton node =
     document_new
       (''['' @ node @ '']'' @ [newline] @ ''[hardware]'' @ [newline] @
        ''hardware_output_a_assignment='' @
          hardware_output_assignment_display (hw_output_a_assignment (station_hardware native_defaults)) @ [newline] @
        ''hardware_output_b_assignment='' @
          hardware_output_assignment_display (hw_output_b_assignment (station_hardware native_defaults)) @ [newline] @
        ''hardware_eeprom_enabled='' @ station_yes_no (hw_eeprom_enabled (station_hardware native_defaults)) @ [newline] @
        ''[transmit]'' @ [newline] @
        ''preemphasis_enabled='' @ station_yes_no (tx_preemphasis_enabled (station_transmit native_defaults)) @ [newline])"

definition native_local_defaults :: "bool \<Rightarrow> processing_chain" where
  "native_local_defaults local_configured =
     (if local_configured then shipped LocalReceive else (shipped LocalReceive)\<lparr>output_gain_db := f64 0\<rparr>)"

text \<open>The document with the shipped gain, before any assignment of the operator.\<close>

definition native_base :: "string \<Rightarrow> bool \<Rightarrow> (channel_configuration_error, config_document) result" where
  "native_base node local_configured =
     (if local_configured then Inr (native_skeleton node)
      else document_edit (native_skeleton node) ''local'' ''output_gain_db''
             (float_display (output_gain_db (native_local_defaults local_configured))))"

text \<open>The translation: the state behind both sections, and the document with the shared sections copied into it.\<close>

definition native_translate ::
  "config_document \<Rightarrow> string \<Rightarrow> string \<Rightarrow> (channel_configuration_error, native_state \<times> config_document) result" where
  "native_translate doc source node =
     (case resolved_section doc node ''general'' source [] of
        (Inl e, _) \<Rightarrow> Inl (StationFailure (StationDocument e))
      | (Inr _, ws) \<Rightarrow>
          (let local_configured = native_processing_profile_configured doc node ''local'';
               overlay = (\<lambda>section_name. native_overlay source node (native_local_defaults local_configured)
                            local_configured section_name [] (explicit_values doc section_name)) in
           res_bind (native_base node local_configured) (\<lambda>base.
           res_bind (overlay ''radio''
               \<lparr>ns_document = base, ns_physical = native_physical_default, ns_warnings = ws, ns_origins = []\<rparr>) (\<lambda>st.
           res_bind (overlay (''radio '' @ node) st) (\<lambda>st.
           res_bind (copy_sections doc node (section_names doc) (ns_document st)) (\<lambda>normalized.
           Inr (st, normalized)))))))"

definition native_from_document ::
  "config_document \<Rightarrow> string \<Rightarrow> string \<Rightarrow> (channel_configuration_error, resolved_native_configuration) result" where
  "native_from_document doc source node =
     res_bind (native_translate doc source node) (\<lambda>(st, normalized).
     res_bind
       (channel_from_document_with_defaults normalized source node native_defaults
         (native_local_defaults (native_processing_profile_configured doc node ''local'')))
       (\<lambda>resolved.
     (case resolved_section normalized node ''hardware'' source [] of
        (Inl e, _) \<Rightarrow> Inl (StationFailure (StationDocument e))
      | (Inr selected, _) \<Rightarrow>
          Inr \<lparr>rn_resolved = resolved,
               rn_physical = foldl (gain_intentions normalized source) (ns_physical st) [''hardware'', selected],
               rn_document = normalized, rn_source_document = doc,
               rn_warnings = ns_warnings st @ map (native_warning (ns_origins st)) (rch_warnings resolved)\<rparr>)))"

end
