(* ===== verification/Document_Merge.thy ===== *)
theory Document_Merge
  imports Config_Edits
begin

text \<open>
  Documents that are built by edits and by copying sections: a tidy document opens every section once and assigns
  every option once, which the edits keep, so that each edit is what a reader sees; and the copied text of a
  section reads as its values.
\<close>

section \<open>Clean values\<close>

definition clean :: "string \<Rightarrow> bool" where
  "clean v \<longleftrightarrow> trim (uncomment v) = v"

lemma uncomment_set: "set (uncomment v) \<subseteq> set v"
  by (auto simp: uncomment_def dest: set_takeWhileD)

lemma uncomment_no_comment: "c \<in> set (uncomment v) \<Longrightarrow> \<not> comment_start c"
  by (auto simp: uncomment_def dest: set_takeWhileD)

lemma clean_read: "clean (trim (uncomment v))"
proof -
  have "uncomment (trim (uncomment v)) = trim (uncomment v)"
    using trim_set [of "uncomment v"] uncomment_no_comment by (intro uncomment_id) blast
  then show ?thesis by (simp add: clean_def)
qed

lemma assignment_parts:
  assumes "assignment l = Some (n, v)"
  shows "validate_option_name n = Inr ()" "clean v" "set v \<subseteq> set l"
proof -
  obtain x r where a: "split_once (CHR ''='') (trim_start l) = Some (x, r)" "validate_option_name (trim x) = Inr ()"
      "n = trim x" "v = trim (uncomment r)"
    using assms by (auto simp: assignment_def Let_def split: if_splits option.splits sum.splits)
  have "set r \<subseteq> set (trim_start l)" using split_once_mem [OF a(1)] by auto
  moreover have "set (trim_start l) \<subseteq> set l" using trim_start_suffix [of l] by (metis Un_upper2 set_append)
  moreover have "set v \<subseteq> set r" unfolding a(4) using trim_set uncomment_set by (rule subset_trans)
  ultimately show "set v \<subseteq> set l" by blast
  show "validate_option_name n = Inr ()" "clean v" using a by (simp_all add: clean_read)
qed

lemma assigned_entry: "e \<in> set (assigned s a ls) \<Longrightarrow> \<exists>l \<in> set ls. assignment l = Some e"
proof (induction s a ls rule: assigned.induct)
  case (2 s a l ls)
  then show ?case by (cases "section_header l"; cases "assignment l"; cases a) auto
qed simp

lemma split_line: "l \<in> set (split_inclusive t) \<Longrightarrow> terminated_line l \<or> open_line l"
  using split_inclusive_lines [of t] unfolding line_list_def
  by (cases "split_inclusive t" rule: rev_cases) auto

lemma line_body:
  assumes "l \<in> set (str_lines t)" shows "newline \<notin> set l"
proof -
  obtain x where x: "x \<in> set (split_inclusive t)" "l = strip_line_ending x"
    using assms by (auto simp: str_lines_def)
  consider b where "x = b @ [newline]" "newline \<notin> set b" | "newline \<notin> set x"
    using split_line [OF x(1)] by (auto simp: terminated_line_def open_line_def)
  then show ?thesis
  proof cases
    case 1
    then show ?thesis
      using x(2) by (auto simp: strip_line_ending_def strip_suffix_def ends_with_def starts_with_def split: option.splits
          if_splits dest: in_set_takeD)
  next
    case 2
    then have "strip_suffix [newline] x = None"
      by (cases x rule: rev_cases) (auto simp: strip_suffix_def ends_with_def starts_with_def)
    then show ?thesis using x(2) 2 by (simp add: strip_line_ending_def)
  qed
qed

text \<open>The entries that a reader gets: valid names, clean values on one line.\<close>

definition entry_ok :: "string \<times> string \<Rightarrow> bool" where
  "entry_ok = (\<lambda>(n, v). validate_option_name n = Inr () \<and> clean v \<and> newline \<notin> set v)"

lemma fold_insert_entries:
  "e \<in> set (fold (\<lambda>(n, v). btree_insert n v) es m) \<Longrightarrow> e \<in> set es \<or> e \<in> set m"
proof (induction es arbitrary: m)
  case (Cons x es)
  have "y \<in> set (btree_insert n v m) \<Longrightarrow> y = (n, v) \<or> y \<in> set m" for y n v
    by (induction n v m rule: btree_insert.induct) (auto split: if_splits)
  then show ?case using Cons by (cases x) fastforce
qed simp

lemma explicit_entry_ok: "e \<in> set (explicit_values doc s) \<Longrightarrow> entry_ok e"
proof -
  assume "e \<in> set (explicit_values doc s)"
  then have "e \<in> set (assigned s False (doc_lines doc))"
    unfolding explicit_values_def collect_values_fold by (auto dest: fold_insert_entries)
  then obtain l where l: "l \<in> set (doc_lines doc)" "assignment l = Some e" using assigned_entry by blast
  moreover have "newline \<notin> set l" using line_body l(1) by (simp add: doc_lines_def)
  moreover obtain n v where e: "e = (n, v)" by (cases e)
  ultimately have "validate_option_name n = Inr ()" "clean v" "set v \<subseteq> set l" "newline \<notin> set l"
    using assignment_parts by blast+
  then show ?thesis by (auto simp: entry_ok_def e)
qed

lemma explicit_values_cong: "eq_ignore_ascii_case s t \<Longrightarrow> explicit_values doc s = explicit_values doc t"
  unfolding explicit_values_def collect_values_fold by (simp add: assigned_cong_section)

lemma plain_line:
  assumes "entry_ok (n, v)"
  shows "assignment (n @ ''='' @ v @ [newline]) = Some (n, v)" "section_header (n @ ''='' @ v @ [newline]) = None"
    "terminated_line (n @ ''='' @ v @ [newline])"
proof -
  have ok: "validate_option_name n = Inr ()" "trim (uncomment v) = v" "newline \<notin> set v"
    using assms by (auto simp: entry_ok_def clean_def)
  obtain c x where n: "n = c # x" and all: "list_all (\<lambda>b. is_ascii_alphanumeric b \<or> b = CHR ''_'') n"
    using ok(1) by (cases n) (auto simp: validate_option_name_ok)
  note c = name_byte_facts [of c]
  have ne: "CHR ''='' \<notin> set n" and nl: "newline \<notin> set n"
    using all name_byte_facts(3,5) by (auto simp: list_all_iff)
  have start: "trim_start (n @ ''='' @ v) = n @ CHR ''='' # v" using all n c by simp
  have "trim n = n" using all n name_byte_facts(1) by (intro trim_visible) (auto simp: list_all_iff)
  then have "assignment (n @ ''='' @ v) = Some (n, v)"
    unfolding assignment_def Let_def start split_once_here [OF ne] using n c all ok by simp
  then show "assignment (n @ ''='' @ v @ [newline]) = Some (n, v)"
    using assignment_ending [of "[newline]" "n @ ''='' @ v"] by (simp add: ending_def)
  have "section_header (n @ ''='' @ v) = None"
    unfolding section_header_def start using n c all by (simp add: strip_prefix_def starts_with_def)
  then show "section_header (n @ ''='' @ v @ [newline]) = None"
    using section_header_ending [of "[newline]" "n @ ''='' @ v"] by (simp add: ending_def)
  show "terminated_line (n @ ''='' @ v @ [newline])"
    using ok(3) nl unfolding terminated_line_def by (intro exI [of _ "n @ ''='' @ v"]) (simp add: newline_def)
qed

lemma plain_header:
  assumes "CHR '']'' \<notin> set s" "trim s = s" "s \<noteq> []" "newline \<notin> set s"
  shows "section_header (''['' @ s @ '']'' @ [newline]) = Some s" "terminated_line (''['' @ s @ '']'' @ [newline])"
proof -
  have "ascii_visible (CHR ''['')" by (simp add: ascii_visible_def byte_def)
  moreover have "split_once (CHR '']'') (s @ CHR '']'' # [newline]) = Some (s, [newline])"
    using assms by (intro split_once_here) simp
  ultimately show "section_header (''['' @ s @ '']'' @ [newline]) = Some s"
    using assms by (simp add: section_header_def strip_prefix_def starts_with_def Let_def)
  show "terminated_line (''['' @ s @ '']'' @ [newline])"
    using assms(4) unfolding terminated_line_def by (intro exI [of _ "''['' @ s @ '']''"]) (simp add: newline_def)
qed

lemma header_name:
  assumes "section_header l = Some s"
  shows "CHR '']'' \<notin> set s \<and> trim s = s \<and> s \<noteq> [] \<and> set s \<subseteq> set l"
proof -
  obtain rest inside x where h: "strip_prefix ''['' (trim_start l) = Some rest"
      "split_once (CHR '']'') rest = Some (inside, x)" "s = trim inside" "s \<noteq> []"
    using assms by (auto simp: section_header_def Let_def split: option.splits if_splits)
  have "set inside \<subseteq> set rest" "CHR '']'' \<notin> set inside" using split_once_mem [OF h(2)] by auto
  moreover have "set rest \<subseteq> set (trim_start l)"
    using h(1) by (auto simp: strip_prefix_def split: if_splits dest: in_set_dropD)
  moreover have "set (trim_start l) \<subseteq> set l" using trim_start_suffix [of l] by (metis Un_upper2 set_append)
  ultimately show ?thesis using h(3,4) trim_set [of inside] by auto
qed

section \<open>Copied sections\<close>

definition entry_line :: "string \<times> string \<Rightarrow> string" where
  "entry_line e = fst e @ ''='' @ snd e @ [newline]"

definition header_line :: "string \<Rightarrow> string" where
  "header_line s = ''['' @ s @ '']'' @ [newline]"

definition name_ok :: "string \<Rightarrow> bool" where
  "name_ok s \<longleftrightarrow> CHR '']'' \<notin> set s \<and> trim s = s \<and> s \<noteq> [] \<and> newline \<notin> set s"

lemma entry_line_reads:
  assumes "entry_ok e"
  shows "assignment (entry_line e) = Some e" "section_header (entry_line e) = None" "terminated_line (entry_line e)"
  using plain_line [of "fst e" "snd e"] assms by (simp_all add: entry_line_def)

lemma header_line_reads:
  assumes "name_ok s"
  shows "section_header (header_line s) = Some s" "terminated_line (header_line s)"
  using plain_header [of s] assms by (simp_all add: header_line_def name_ok_def)

lemma blank_line: "section_header [newline] = None" "assignment [newline] = None" "terminated_line [newline]"
  by (simp_all add: assignment_def section_header_def strip_prefix_def starts_with_def terminated_line_def)

lemma terminated_concat: "\<forall>l \<in> set ls. terminated_line l \<Longrightarrow> terminated_text (concat ls)"
  by (cases ls rule: rev_cases) (auto simp: terminated_text_def terminated_line_def)

lemma terminated_append: "terminated_text a \<Longrightarrow> terminated_text b \<Longrightarrow> terminated_text (a @ b)"
  by (cases "b = []") (simp_all add: terminated_text_def)

definition copied_section :: "string \<Rightarrow> (string \<times> string) list \<Rightarrow> string list" where
  "copied_section s es = [newline] # header_line s # map entry_line es"

lemma copied_lines:
  assumes "terminated_text t" "list_all entry_ok es" "name_ok s"
  shows "split_inclusive (t @ concat (copied_section s es)) = split_inclusive t @ copied_section s es"
    and "terminated_text (t @ concat (copied_section s es))"
proof -
  have ts: "\<forall>l \<in> set (copied_section s es). terminated_line l"
    using assms(2) entry_line_reads(3) header_line_reads(2) [OF assms(3)] blank_line(3)
    by (auto simp: list_all_iff copied_section_def)
  show "split_inclusive (t @ concat (copied_section s es)) = split_inclusive t @ copied_section s es"
    using assms(1) split_inclusive_concat_terminated [OF ts]
    by (subst split_inclusive_append_terminated) (simp_all add: terminated_text_def)
  show "terminated_text (t @ concat (copied_section s es))"
    using terminated_append [OF assms(1) terminated_concat [OF ts]] .
qed

lemma assigned_entries: "list_all entry_ok es \<Longrightarrow> assigned s a (map entry_line es) = (if a then es else [])"
  by (induction es) (simp_all add: entry_line_reads)

lemma copied_read:
  assumes "terminated_text t" "list_all entry_ok es" "name_ok s"
  shows "section_assignments (document_new (t @ concat (copied_section s es))) r =
    section_assignments (document_new t) r @ (if eq_ignore_ascii_case s r then es else [])"
  unfolding section_assignments_def document_new_def config_document.simps copied_lines(1) [OF assms] assigned_append
  using assigned_entries [OF assms(2)] by (simp add: copied_section_def blank_line header_line_reads(1) [OF assms(3)])

section \<open>Tidy documents\<close>

definition tidy :: "config_document \<Rightarrow> bool" where
  "tidy doc \<longleftrightarrow> terminated_text (doc_text doc) \<and>
     distinct (map to_ascii_lowercase (headers (split_inclusive (doc_text doc)))) \<and>
     (\<forall>s. distinct (map (to_ascii_lowercase \<circ> fst) (section_assignments doc s)))"

lemma distinct_filter_one:
  assumes "distinct (map f xs)" "\<forall>x y. P x \<longrightarrow> P y \<longrightarrow> f x = f y"
  shows "length (filter P xs) \<le> 1"
  using assms(1)
proof (induction xs)
  case (Cons x xs)
  have "\<not> P y" if "P x" "y \<in> set xs" for y
  proof
    assume "P y"
    then have "f x = f y" using assms(2) that(1) by blast
    then have "f x \<in> f ` set xs" using that(2) by simp
    then show False using Cons.prems by simp
  qed
  then have "filter P xs = []" if "P x" using that by (simp add: filter_empty_conv)
  then show ?case using Cons by simp
qed simp

lemma tidy_unambiguous: "tidy doc \<Longrightarrow> unambiguous doc s n"
  unfolding tidy_def unambiguous_def
  by (intro conjI distinct_filter_one [where f = to_ascii_lowercase]
      distinct_filter_one [where f = "to_ascii_lowercase \<circ> fst"])
     (auto simp: eq_ignore_ascii_case_def)

text \<open>The lines after an edit: the new line, and a new header in front of it for a new section.\<close>

lemma set_value_keeps_tidy:
  assumes set: "set_value doc s n v = Inr doc'" and tt: "terminated_text (doc_text doc)" and tr: "trim s = s"
  shows "terminated_text (doc_text doc')"
    "headers (split_inclusive (doc_text doc')) = headers (split_inclusive (doc_text doc)) \<or>
     headers (split_inclusive (doc_text doc')) = headers (split_inclusive (doc_text doc)) @ [s] \<and>
     no_section s (split_inclusive (doc_text doc))"
proof -
  define L where "L = split_inclusive (doc_text doc)"
  define L' where "L' = split_inclusive (doc_text doc')"
  have valid: "validate_section_name s = Inr ()" "validate_option_name n = Inr ()" "validate_value v = Inr ()"
    using set by (auto simp: set_value_def res_simps)
  have all: "\<forall>l \<in> set L. terminated_line l" unfolding L_def by (rule terminated_text_lines [OF tt])
  have w: "section_header (n @ '' = '' @ v @ e) = None" "e \<noteq> [] \<Longrightarrow> terminated_line (n @ '' = '' @ v @ e)" if "ending e" for e
    using written_line(2) [OF valid(2) that] that terminated_written [OF valid(2,3)] by (auto simp: ending_def)
  have h: "section_header (''['' @ s @ '']'' @ [newline]) = Some s"
    using written_header [OF valid(1)] tr by simp
  have ht: "terminated_line (''['' @ s @ '']'' @ [newline])"
    using valid(1) unfolding terminated_line_def
    by (intro exI [of _ "''['' @ s @ '']''"]) (simp add: validate_section_name_ok newline_def)
  from set_value_lines [OF set tt] have "(\<forall>l \<in> set L'. terminated_line l) \<and>
      (headers L' = headers L \<or> headers L' = headers L @ [s] \<and> no_section s L)"
    unfolding L_def [symmetric] L'_def [symmetric]
  proof (elim disjE)
    assume "replaced_line s n v L L'"
    then obtain pre line post e where "L = pre @ line # post" "L' = pre @ (n @ '' = '' @ v @ e) # post" "ending e"
      "e \<noteq> []" "section_header line = None"
      unfolding replaced_line_def by blast
    then show ?thesis using w [of e] all by (simp add: headers_append headers_Cons)
  next
    assume "inserted_line s n v L L'"
    then obtain pre hdr body post where "L = pre @ hdr # body @ post"
      "L' = pre @ hdr # body @ (n @ '' = '' @ v @ [newline]) # post"
      unfolding inserted_line_def by blast
    then show ?thesis using w [of "[newline]"] all by (simp add: headers_append headers_Cons ending_def split: option.split)
  next
    assume "appended_section s n v L L'"
    then obtain blank where "no_section s L" "blank = [] \<or> blank = [[newline]]"
      "L' = L @ blank @ [''['' @ s @ '']'' @ [newline], n @ '' = '' @ v @ [newline]]"
      unfolding appended_section_def by blast
    then show ?thesis using w [of "[newline]"] all h ht blank_line
      by (auto simp: headers_append headers_Cons ending_def)
  qed
  then show "terminated_text (doc_text doc')"
    "headers (split_inclusive (doc_text doc')) = headers (split_inclusive (doc_text doc)) \<or>
     headers (split_inclusive (doc_text doc')) = headers (split_inclusive (doc_text doc)) @ [s] \<and>
     no_section s (split_inclusive (doc_text doc))"
    using terminated_concat [of L'] by (simp_all add: L_def L'_def)
qed

lemma set_value_tidy:
  assumes "set_value doc s n v = Inr doc'" "tidy doc" "trim s = s"
  shows "tidy doc'"
proof -
  have t: "terminated_text (doc_text doc)" using assms(2) by (simp add: tidy_def)
  note keeps = set_value_keeps_tidy [OF assms(1) t assms(3)]
  have heads: "distinct (map to_ascii_lowercase (headers (split_inclusive (doc_text doc'))))"
  proof (rule disjE [OF keeps(2)])
    assume new: "headers (split_inclusive (doc_text doc')) = headers (split_inclusive (doc_text doc)) @ [s] \<and>
      no_section s (split_inclusive (doc_text doc))"
    then have "filter (\<lambda>h. eq_ignore_ascii_case h s) (headers (split_inclusive (doc_text doc))) = []"
      by (simp add: headers_matching)
    then show ?thesis using new assms(2) by (auto simp: tidy_def filter_empty_conv eq_ignore_ascii_case_def)
  qed (use assms(2) in \<open>simp add: tidy_def\<close>)
  obtain P old Q where d: "section_assignments doc s = P @ old @ Q"
    "section_assignments doc' s = P @ [(n, trim (uncomment v))] @ Q" "length old \<le> 1"
    "\<forall>e \<in> set old. eq_ignore_ascii_case (fst e) n" "no_name n P"
    and q: "old = [] \<Longrightarrow>
       length (filter (\<lambda>h. eq_ignore_ascii_case h s) (headers (split_inclusive (doc_text doc)))) \<le> 1 \<Longrightarrow> Q = []"
    and others: "\<And>t. \<not> eq_ignore_ascii_case t s \<Longrightarrow> section_assignments doc' t = section_assignments doc t"
    by (rule set_value_assignments [OF assms(1) t assms(3)], rule that)
  have before: "distinct (map (to_ascii_lowercase \<circ> fst) (P @ old @ Q))"
    unfolding d(1) [symmetric] using assms(2) by (simp only: tidy_def)
  have here: "distinct (map (to_ascii_lowercase \<circ> fst) (section_assignments doc' s))"
  proof (cases old)
    case Nil
    then have "Q = []" using q tidy_unambiguous [OF assms(2), of s n] by (simp add: unambiguous_def)
    moreover have "to_ascii_lowercase n \<notin> (to_ascii_lowercase \<circ> fst) ` set P"
      using d(5) by (auto simp: no_name_def eq_ignore_ascii_case_def)
    ultimately show ?thesis using before by (simp add: d(2))
  next
    case (Cons e es)
    then have "old = [e]" "to_ascii_lowercase (fst e) = to_ascii_lowercase n"
      using d(3,4) by (simp_all add: eq_ignore_ascii_case_def)
    then show ?thesis using before by (simp add: d(2))
  qed
  have "distinct (map (to_ascii_lowercase \<circ> fst) (section_assignments doc' t))" for t
  proof (cases "eq_ignore_ascii_case t s")
    case True
    then show ?thesis using here assigned_cong_section [OF True] by (simp add: section_assignments_def)
  next
    case False
    then show ?thesis using others [OF False] assms(2) by (simp add: tidy_def)
  qed
  then show ?thesis using keeps(1) heads by (simp add: tidy_def)
qed

text \<open>What an edit of a tidy document does to a lookup of a lower-case option.\<close>

lemma set_value_reads:
  assumes "set_value doc s n v = Inr doc'" "tidy doc" "trim s = s" "to_ascii_lowercase n = n" "to_ascii_lowercase k = k"
  shows "btree_get (explicit_values doc' t) k =
    (if eq_ignore_ascii_case t s \<and> k = n then Some (trim (uncomment v)) else btree_get (explicit_values doc t) k)"
proof -
  have tt: "terminated_text (doc_text doc)" using assms(2) by (simp add: tidy_def)
  show ?thesis
  proof (cases "eq_ignore_ascii_case t s \<and> k = n")
    case True
    then have "explicit_values doc' t = explicit_values doc' s" by (simp add: explicit_values_cong)
    then show ?thesis
      using True set_value_lookup [OF assms(1) tt assms(3) tidy_unambiguous [OF assms(2)]] by simp
  next
    case False
    then have "\<not> (eq_ignore_ascii_case t s \<and> eq_ignore_ascii_case k n)"
      using assms(4,5) by (auto simp: eq_ignore_ascii_case_def)
    from set_value_others [OF assms(1) tt assms(3) this] False show ?thesis by (simp only: if_False)
  qed
qed

end
