(* ===== verification/Native_Safety.thy ===== *)
theory Native_Safety
  imports Native_Configuration Document_Merge Station_Text
begin

text \<open>
  What the translation of a standalone file guarantees: the shared document says what the operator wrote, the
  configuration that comes of it is as safe as any other, and the spellings of values are translated there and back.
\<close>

section \<open>The alias table\<close>

definition ALIAS_SECTIONS :: "string list" where
  "ALIAS_SECTIONS =
     [''hardware'', ''receive'', ''ctcss'', ''dcs'', ''transmit'', ''duplex'', ''local'', ''diagnostics'']"

definition alias_ok :: "setting_alias \<Rightarrow> bool" where
  "alias_ok a \<longleftrightarrow> alias_section a \<in> set ALIAS_SECTIONS \<and> to_ascii_lowercase (alias_key a) = alias_key a \<and>
     validate_option_name (alias_key a) = Inr ()"

lemmas alias_table_defs = alias_entry_def alias_ok_def ALIAS_SECTIONS_def validate_option_name_def
  is_ascii_alphanumeric_def is_ascii_digit_def byte_def to_ascii_lowercase_def ascii_lower_def

lemma device_aliases_ok: "list_all alias_ok DEVICE_ALIASES"
  by (simp add: DEVICE_ALIASES_def alias_table_defs)

lemma cm119_aliases_ok: "list_all alias_ok CM119_ALIASES"
  by (simp add: CM119_ALIASES_def alias_table_defs)

lemma receive_aliases_ok: "list_all alias_ok RECEIVE_ALIASES"
  by (simp add: RECEIVE_ALIASES_def alias_table_defs)

lemma tone_aliases_ok: "list_all alias_ok TONE_ALIASES"
  by (simp add: TONE_ALIASES_def alias_table_defs)

lemma transmit_aliases_ok: "list_all alias_ok TRANSMIT_ALIASES"
  by (simp add: TRANSMIT_ALIASES_def alias_table_defs)

lemma parallel_aliases_ok: "list_all alias_ok PARALLEL_ALIASES"
  by (simp add: PARALLEL_ALIASES_def alias_table_defs)

lemma aliases_ok: "list_all alias_ok ALIASES"
  by (simp add: ALIASES_def device_aliases_ok cm119_aliases_ok receive_aliases_ok tone_aliases_ok
      transmit_aliases_ok parallel_aliases_ok)

text \<open>The sections of the table are plain words and flat.\<close>

definition plain_section :: "string \<Rightarrow> bool" where
  "plain_section s \<longleftrightarrow> s \<noteq> [] \<and> list_all ascii_visible s \<and> CHR '']'' \<notin> set s \<and> to_ascii_lowercase s = s \<and>
     is_flat_section s"

lemma alias_sections_plain: "list_all plain_section ALIAS_SECTIONS"
  by code_simp

lemma found_member: "find P xs = Some x \<Longrightarrow> x \<in> set xs"
  by (induction xs) (auto split: if_splits)

lemma alias_of_ok: "alias_of key = Some a \<Longrightarrow> alias_ok a"
  using aliases_ok unfolding alias_of_def list_all_iff by (blast dest: found_member)

definition value_aliases :: "value_alias list" where
  "value_aliases =
     [VIdentity, VWholeDb, VAudio, VCarrier, VCtcssSource, VOutput, VInterface, VNoise, VDuplex, VTurnoff,
      VBooleanNumber, VMilliseconds]"

lemma value_aliases_all: "a \<in> set value_aliases"
  by (cases a) (simp_all add: value_aliases_def)

lemma value_pairs_clean: "(n, s) \<in> set (value_pairs a) \<Longrightarrow> clean s"
proof -
  have "list_all (\<lambda>a. list_all (\<lambda>(n, s). clean s) (value_pairs a)) value_aliases" by code_simp
  then show "(n, s) \<in> set (value_pairs a) \<Longrightarrow> clean s"
    using value_aliases_all [of a] by (auto simp: list_all_iff)
qed

lemma digits_visible: "0 \<le> n \<Longrightarrow> list_all (\<lambda>c. ascii_visible c \<and> \<not> comment_start c) (dec_digits n)"
proof (induction n rule: dec_digits.induct)
  case (1 n)
  have d: "ascii_visible (digit_char d) \<and> \<not> comment_start (digit_char d)" if "0 \<le> d" "d < 10" for d
  proof -
    have "d \<in> {0, 1, 2, 3, 4, 5, 6, 7, 8, 9, 10, 11, 12, 13, 14, 15}" using that by (intro digit_cases) simp_all
    then show ?thesis using that
      by (auto simp: digit_char_def ascii_visible_def comment_start_def byte_def char_of_def)
  qed
  show ?case using 1 by (subst dec_digits.simps) (auto simp: d)
qed

lemma clean_digits: "0 \<le> n \<Longrightarrow> clean (dec_digits n)"
  using digits_visible [of n] uncomment_id [of "dec_digits n"] trim_visible [of "dec_digits n"]
  by (auto simp: clean_def list_all_iff)

lemma parse_u16_bounds: "parse_u16 s = Some n \<Longrightarrow> 0 \<le> n \<and> n \<le> 65535"
  unfolding parse_u16_def by (drule from_str_radix_bounds) simp_all

lemma to_shared_clean: "clean v \<Longrightarrow> clean (to_shared a v)"
  by (auto simp: to_shared_def split: option.splits dest!: found_member value_pairs_clean parse_u16_bounds intro!: clean_digits)

section \<open>One assignment\<close>

definition node_ok :: "string \<Rightarrow> bool" where
  "node_ok node \<longleftrightarrow> node \<noteq> [] \<and> list_all ascii_visible node"

definition destination :: "string \<Rightarrow> string \<Rightarrow> setting_alias \<Rightarrow> string" where
  "destination node section_name a =
     (if section_name = ''radio'' then alias_section a else alias_section a @ '' '' @ node)"

lemma trim_visible_ends:
  assumes "ascii_visible c" "ascii_visible d" shows "trim (c # s @ [d]) = c # s @ [d]"
proof -
  have "trim_end ((c # s) @ [d]) = (c # s) @ [d]" using assms(2) by (rule trim_end_visible)
  then show ?thesis using assms(1) by (simp add: trim_def)
qed

lemma destination_trim:
  assumes "node_ok node" "alias_ok a"
  shows "trim (destination node section_name a) = destination node section_name a"
proof -
  have p: "plain_section (alias_section a)"
    using assms(2) alias_sections_plain by (auto simp: alias_ok_def list_all_iff)
  obtain c s where s: "alias_section a = c # s" "ascii_visible c"
    using p by (cases "alias_section a") (auto simp: plain_section_def)
  obtain t d where n: "node = t @ [d]" "ascii_visible d"
    using assms(1) by (cases node rule: rev_cases) (auto simp: node_ok_def)
  have "trim (alias_section a @ '' '' @ node) = alias_section a @ '' '' @ node"
    using trim_visible_ends [OF s(2) n(2), of "s @ '' '' @ t"] by (simp add: s(1) n(1))
  moreover have "trim (alias_section a) = alias_section a" using p by (intro trim_visible) (simp add: plain_section_def)
  ultimately show ?thesis by (simp add: destination_def)
qed

text \<open>What an assignment means for the shared document: a section and an option with their value, if any.\<close>

definition alias_effect :: "string \<Rightarrow> bool \<Rightarrow> string \<Rightarrow> string \<times> string \<Rightarrow> ((string \<times> string) \<times> string) option" where
  "alias_effect node local_configured section_name = (\<lambda>(name, value).
     case alias_of (to_ascii_lowercase name) of
       None \<Rightarrow> None
     | Some a \<Rightarrow>
         if alias_section a = ''local'' \<and> local_configured \<or> alias_value a = VWholeDb \<and> parse_i32 (trim value) = None
         then None
         else Some ((to_ascii_lowercase (destination node section_name a), alias_key a), to_shared (alias_value a) value))"

definition reads_as ::
  "config_document \<Rightarrow> config_document \<Rightarrow> ((string \<times> string) \<times> string) list \<Rightarrow> bool" where
  "reads_as before after effects \<longleftrightarrow>
     (\<forall>sec key. to_ascii_lowercase key = key \<longrightarrow>
        btree_get (explicit_values after sec) key =
          (case map_of (rev effects) (to_ascii_lowercase sec, key) of
             Some v \<Rightarrow> Some v | None \<Rightarrow> btree_get (explicit_values before sec) key))"

lemma reads_as_refl: "reads_as d d []"
  by (simp add: reads_as_def)

lemma reads_as_trans: "reads_as d e xs \<Longrightarrow> reads_as e f ys \<Longrightarrow> reads_as d f (xs @ ys)"
  unfolding reads_as_def by (auto simp: map_add_def split: option.splits)

lemma apply_alias_reads:
  assumes "apply_alias node a s st = Inr st'" "alias_ok a" "tidy (ns_document st)" "node_ok node" "clean (setting_value s)"
  shows "tidy (ns_document st')"
    "reads_as (ns_document st) (ns_document st')
      [((to_ascii_lowercase (destination node (setting_section s) a), alias_key a), to_shared (alias_value a) (setting_value s))]"
proof -
  let ?d = "destination node (setting_section s) a" and ?v = "to_shared (alias_value a) (setting_value s)"
  have e: "set_value (ns_document st) ?d (alias_key a) ?v = Inr (ns_document st')"
    using assms(1) by (auto simp: apply_alias_def Let_def document_edit_def destination_def res_simps split: if_splits)
  have t: "trim ?d = ?d" by (rule destination_trim [OF assms(4,2)])
  show "tidy (ns_document st')" by (rule set_value_tidy [OF e assms(3) t])
  have low: "to_ascii_lowercase (alias_key a) = alias_key a" using assms(2) by (simp add: alias_ok_def)
  have "trim (uncomment ?v) = ?v" using to_shared_clean [OF assms(5)] by (simp add: clean_def)
  then show "reads_as (ns_document st) (ns_document st') [((to_ascii_lowercase ?d, alias_key a), ?v)]"
    unfolding reads_as_def using set_value_reads [OF e assms(3) t low] by (simp add: eq_ignore_ascii_case_def)
qed

lemma apply_native_reads:
  assumes "apply_native source node defaults local_configured s st = Inr st'" "tidy (ns_document st)" "node_ok node"
    "clean (setting_value s)"
  shows "tidy (ns_document st') \<and> reads_as (ns_document st) (ns_document st')
    (case alias_effect node local_configured (setting_section s) (setting_name s, setting_value s) of
       None \<Rightarrow> [] | Some e \<Rightarrow> [e])"
proof (cases "alias_of (to_ascii_lowercase (setting_name s))")
  case None
  then show ?thesis
    using assms(1,2) by (auto simp: apply_native_def alias_effect_def reads_as_refl split: prod.splits)
next
  case (Some a)
  then show ?thesis
    using assms(1,2) apply_alias_reads [OF _ alias_of_ok [OF Some] assms(2,3,4)]
    by (auto simp: apply_native_def alias_effect_def reads_as_refl res_simps split: if_splits)
qed

section \<open>A section of assignments\<close>

definition section_effects :: "string \<Rightarrow> bool \<Rightarrow> string \<Rightarrow> string set \<Rightarrow> (string \<times> string) list \<Rightarrow>
    ((string \<times> string) \<times> string) list" where
  "section_effects node local_configured section_name seen entries =
     List.map_filter (alias_effect node local_configured section_name)
       (first_assignments (to_ascii_lowercase \<circ> fst) seen entries)"

lemma native_overlay_reads:
  assumes "native_overlay source node defaults local_configured section_name seen entries st = Inr st'"
    "tidy (ns_document st)" "node_ok node" "list_all entry_ok entries"
  shows "tidy (ns_document st') \<and> reads_as (ns_document st) (ns_document st')
    (section_effects node local_configured section_name (dom (btree_get seen)) entries)"
  using assms(1,2,4)
proof (induction entries arbitrary: seen st)
  case Nil
  then show ?case by (simp add: section_effects_def List.map_filter_def reads_as_refl)
next
  case (Cons e entries)
  obtain name v where e: "e = (name, v)" by (cases e)
  let ?key = "to_ascii_lowercase name"
  show ?case
  proof (cases "btree_get seen ?key")
    case (Some previous)
    then have "native_overlay source node defaults local_configured section_name seen entries st = Inr st'"
      using Cons.prems(1) by (simp add: e record_assignment_def split: if_splits)
    from Cons.IH [OF this Cons.prems(2)] Cons.prems(3) show ?thesis
      using Some by (simp add: section_effects_def e domI)
  next
    case None
    let ?s = "\<lparr>setting_source = source, setting_section = section_name, setting_name = name, setting_value = v\<rparr>"
    obtain st1 where st1: "apply_native source node defaults local_configured ?s st = Inr st1"
      "native_overlay source node defaults local_configured section_name (btree_insert ?key v seen) entries st1 = Inr st'"
      using Cons.prems(1) None by (auto simp: e record_assignment_def res_simps)
    have "clean v" using Cons.prems(3) by (simp add: e entry_ok_def)
    with apply_native_reads [OF st1(1) Cons.prems(2) assms(3)]
    have one: "tidy (ns_document st1)" "reads_as (ns_document st) (ns_document st1)
      (case alias_effect node local_configured section_name (name, v) of None \<Rightarrow> [] | Some x \<Rightarrow> [x])"
      by simp_all
    have dom: "dom (btree_get (btree_insert ?key v seen)) = insert ?key (dom (btree_get seen))"
      by (simp add: btree_get_insert)
    have rest: "tidy (ns_document st') \<and> reads_as (ns_document st1) (ns_document st')
        (section_effects node local_configured section_name (insert ?key (dom (btree_get seen))) entries)"
      using Cons.IH [OF st1(2) one(1)] Cons.prems(3) by (simp add: dom)
    have "?key \<notin> dom (btree_get seen)" using None by blast
    then have "section_effects node local_configured section_name (dom (btree_get seen)) (e # entries) =
        (case alias_effect node local_configured section_name (name, v) of None \<Rightarrow> [] | Some x \<Rightarrow> [x]) @
        section_effects node local_configured section_name (insert ?key (dom (btree_get seen))) entries"
      by (simp add: section_effects_def e List.map_filter_def split: option.split)
    then show ?thesis using reads_as_trans [OF one(2)] rest by simp
  qed
qed


section \<open>Copied sections\<close>

lemma section_text_copied: "section_text s es = concat (copied_section s es)"
proof -
  have "map (\<lambda>(key, value). key @ ''='' @ value @ [newline]) es = map entry_line es"
    by (simp add: entry_line_def split: prod.split)
  then show ?thesis by (simp only: section_text_def copied_section_def header_line_def list.map concat.simps append_assoc)
qed

lemma copy_selectors_frame:
  assumes "copy_selectors doc node entries normalized = Inr normalized'" "terminated_text (doc_text normalized)" "trim node = node"
  shows "terminated_text (doc_text normalized') \<and>
    (\<forall>t. \<not> eq_ignore_ascii_case t node \<longrightarrow> section_assignments normalized' t = section_assignments normalized t)"
  using assms(1,2)
proof (induction entries arbitrary: normalized)
  case (Cons e entries)
  obtain key v where e: "e = (key, v)" by (cases e)
  show ?case
  proof (cases "ends_with ''_profile'' (to_ascii_lowercase key) \<or> eq_ignore_ascii_case key ''channel_enabled''")
    case True
    then obtain d where d: "set_value normalized node key v = Inr d" "copy_selectors doc node entries d = Inr normalized'"
      using Cons.prems(1) by (auto simp: e document_edit_def res_simps)
    have t: "terminated_text (doc_text d)" by (rule set_value_keeps_tidy(1) [OF d(1) Cons.prems(2) assms(3)])
    have "section_assignments d x = section_assignments normalized x" if "\<not> eq_ignore_ascii_case x node" for x
      by (rule set_value_assignments [OF d(1) Cons.prems(2) assms(3)]) (use that in blast)
    then show ?thesis using Cons.IH [OF d(2) t] by simp
  next
    case False
    then show ?thesis using Cons by (simp add: e)
  qed
qed simp

lemma section_name_ok: "s \<in> set (section_names doc) \<Longrightarrow> name_ok s"
proof -
  assume "s \<in> set (section_names doc)"
  then obtain l where l: "l \<in> set (doc_lines doc)" "section_header l = Some s"
    using unseen_sections_subset [of "[]" "headers (doc_lines doc)"]
    by (auto simp: section_names_def headers_def List.map_filter_def)
  then show ?thesis using header_name [OF l(2)] line_body [of l "doc_text doc"] by (auto simp: name_ok_def doc_lines_def)
qed

text \<open>What copying adds to a section other than the node's.\<close>

definition copied_entries :: "config_document \<Rightarrow> string \<Rightarrow> string list \<Rightarrow> string \<Rightarrow> (string \<times> string) list" where
  "copied_entries doc node sections t =
     concat (map (\<lambda>s. if \<not> eq_ignore_ascii_case s node \<and> is_shared_section s \<and> eq_ignore_ascii_case s t
                      then explicit_values doc s else []) sections)"

lemma copy_sections_frame:
  assumes "copy_sections doc node sections normalized = Inr normalized'" "terminated_text (doc_text normalized)" "trim node = node"
    "list_all name_ok sections" "\<not> eq_ignore_ascii_case t node"
  shows "section_assignments normalized' t = section_assignments normalized t @ copied_entries doc node sections t"
  using assms(1,2,4)
proof (induction sections arbitrary: normalized)
  case (Cons s sections)
  consider (node) "eq_ignore_ascii_case s node" | (shared) "\<not> eq_ignore_ascii_case s node" "is_shared_section s"
    | (other) "\<not> eq_ignore_ascii_case s node" "\<not> is_shared_section s" by blast
  then show ?case
  proof cases
    case node
    then obtain d where d: "copy_selectors doc node (explicit_values doc s) normalized = Inr d"
      "copy_sections doc node sections d = Inr normalized'"
      using Cons.prems(1) by (auto simp: res_simps)
    show ?thesis
      using copy_selectors_frame [OF d(1) Cons.prems(2) assms(3)] Cons.IH [OF d(2)] Cons.prems(3) assms(5) node
      by (simp add: copied_entries_def)
  next
    case shared
    let ?d = "document_new (as_str normalized @ section_text s (explicit_values doc s))"
    have ok: "list_all entry_ok (explicit_values doc s)" "name_ok s"
      using explicit_entry_ok Cons.prems(3) by (auto simp: list_all_iff)
    have "document_new (doc_text normalized) = normalized" by (simp add: document_new_def)
    then have r: "section_assignments ?d t = section_assignments normalized t @
        (if eq_ignore_ascii_case s t then explicit_values doc s else [])"
      using copied_read [OF Cons.prems(2) ok, of t] by (simp add: as_str_def section_text_copied)
    have "terminated_text (doc_text ?d)"
      using copied_lines(2) [OF Cons.prems(2) ok] by (simp add: document_new_def as_str_def section_text_copied)
    moreover have "copy_sections doc node sections ?d = Inr normalized'" using Cons.prems(1) shared by simp
    ultimately show ?thesis using Cons.IH [of ?d] Cons.prems(3) r shared by (simp add: copied_entries_def)
  next
    case other
    then show ?thesis using Cons by (simp add: copied_entries_def)
  qed
qed (simp add: copied_entries_def)

text \<open>Every section is listed once, so what is copied are its values.\<close>

lemma copied_entries_once:
  assumes "distinct (map to_ascii_lowercase sections)" "s \<in> set sections" "eq_ignore_ascii_case s t"
    "\<not> eq_ignore_ascii_case s node" "is_shared_section s"
  shows "copied_entries doc node sections t = explicit_values doc t"
  using assms(1,2)
proof (induction sections)
  case (Cons x sections)
  have none: "copied_entries doc node sections t = []" if "eq_ignore_ascii_case x t"
  proof -
    have "\<not> eq_ignore_ascii_case y t" if y: "y \<in> set sections" for y
    proof
      assume "eq_ignore_ascii_case y t"
      with \<open>eq_ignore_ascii_case x t\<close> have "to_ascii_lowercase x = to_ascii_lowercase y"
        by (simp add: eq_ignore_ascii_case_def)
      then have "to_ascii_lowercase x \<in> to_ascii_lowercase ` set sections" using y by simp
      then show False using Cons.prems(1) by simp
    qed
    then show ?thesis by (simp add: copied_entries_def)
  qed
  show ?case
  proof (cases "x = s")
    case True
    then show ?thesis using none assms(3-5) explicit_values_cong [OF assms(3), of doc]
      by (simp add: copied_entries_def)
  next
    case False
    then have "s \<in> set sections" using Cons.prems(2) by simp
    moreover have "\<not> eq_ignore_ascii_case x t"
    proof
      assume "eq_ignore_ascii_case x t"
      then have "to_ascii_lowercase x = to_ascii_lowercase s" using assms(3) by (simp add: eq_ignore_ascii_case_def)
      then show False using Cons.prems(1) \<open>s \<in> set sections\<close> by auto
    qed
    ultimately show ?thesis using Cons by (simp add: copied_entries_def)
  qed
qed simp


section \<open>Words up to case\<close>

definition caseless :: "char \<Rightarrow> bool" where
  "caseless d \<longleftrightarrow> \<not> (65 \<le> byte d \<and> byte d \<le> 90) \<and> \<not> (97 \<le> byte d \<and> byte d \<le> 122)"

lemma caseless_lower: "caseless d \<Longrightarrow> ascii_lower c = d \<longleftrightarrow> c = d"
  unfolding caseless_def ascii_lower_def byte_def by auto

lemma starts_with_lower:
  "list_all caseless t \<Longrightarrow> starts_with t (to_ascii_lowercase s) = starts_with t s"
proof (induction t arbitrary: s)
  case (Cons d t)
  then show ?case
    by (cases s) (auto simp: starts_with_def to_ascii_lowercase_def caseless_lower)
qed (simp add: starts_with_def)

lemma ws_tokens_caseless: "list_all (list_all caseless) ws_tokens"
  by code_simp

lemma token_len_lower: "token_len ws_tokens (to_ascii_lowercase s) = token_len ws_tokens s"
proof -
  have "list_all (list_all caseless) ts \<Longrightarrow> token_len ts (to_ascii_lowercase s) = token_len ts s" for ts
    by (induction ts) (simp_all add: starts_with_lower)
  then show ?thesis using ws_tokens_caseless by blast
qed

lemma trim_start_lower: "trim_start (to_ascii_lowercase s) = to_ascii_lowercase (trim_start s)"
proof (induction s rule: length_induct)
  case (1 s)
  have "strip_tokens ws_tokens (to_ascii_lowercase (drop n s)) = to_ascii_lowercase (strip_tokens ws_tokens (drop n s))"
    if "n = token_len ws_tokens s" "n \<noteq> 0" for n
    using 1 that by (cases s) (auto simp: trim_start_def)
  then show ?case
    by (simp add: trim_start_def strip_tokens.simps [of ws_tokens s] strip_tokens.simps [of ws_tokens "to_ascii_lowercase s"]
        token_len_lower) (simp add: to_ascii_lowercase_def drop_map)
qed

lemma until_whitespace_lower: "until_whitespace (to_ascii_lowercase s) = to_ascii_lowercase (until_whitespace s)"
proof (induction s)
  case (Cons c s)
  then show ?case using token_len_lower [of "c # s"] by (simp add: to_ascii_lowercase_def)
qed (simp add: to_ascii_lowercase_def)

lemma shared_section_cong:
  assumes "eq_ignore_ascii_case s t" shows "is_shared_section s = is_shared_section t"
proof -
  have l: "until_whitespace (trim_start (to_ascii_lowercase x)) = to_ascii_lowercase (until_whitespace (trim_start x))" for x
    by (simp add: trim_start_lower until_whitespace_lower)
  have w: "is_shared_section x \<longleftrightarrow> list_ex (\<lambda>k. eq_ignore_ascii_case (until_whitespace (trim_start x)) k) SHARED_KINDS" for x
    by (simp add: is_shared_section_def first_word_def Let_def)
  have e: "is_shared_section x = is_shared_section (to_ascii_lowercase x)" for x
    by (simp only: w l eq_ignore_lower)
  then show ?thesis using assms by (metis eq_ignore_ascii_case_def)
qed

section \<open>The base document\<close>

definition skeleton_lines :: "string \<Rightarrow> string list" where
  "skeleton_lines node =
     [header_line node, header_line ''hardware'', entry_line (''hardware_output_a_assignment'', ''voice''),
      entry_line (''hardware_output_b_assignment'', ''ctcss''), entry_line (''hardware_eeprom_enabled'', ''no''),
      header_line ''transmit'', entry_line (''preemphasis_enabled'', ''no'')]"

lemma skeleton_text: "doc_text (native_skeleton node) = concat (skeleton_lines node)"
  by (simp add: native_skeleton_def document_new_def skeleton_lines_def native_defaults_def station_yes_no_def
      header_line_def entry_line_def)

lemma skeleton_names: "name_ok ''hardware''" "name_ok ''transmit''"
    "list_all entry_ok [(''hardware_output_a_assignment'', ''voice''), (''hardware_output_b_assignment'', ''ctcss''),
       (''hardware_eeprom_enabled'', ''no''), (''preemphasis_enabled'', ''no'')]"
  by code_simp+

lemma skeleton_tidy:
  assumes "name_ok node" "\<not> is_flat_section node"
  shows "tidy (native_skeleton node)"
proof -
  note heads = header_line_reads [OF assms(1)] header_line_reads [OF skeleton_names(1)] header_line_reads [OF skeleton_names(2)]
  have entries: "assignment (entry_line e) = Some e" "section_header (entry_line e) = None" "terminated_line (entry_line e)"
    if "e \<in> {(''hardware_output_a_assignment'', ''voice''), (''hardware_output_b_assignment'', ''ctcss''),
       (''hardware_eeprom_enabled'', ''no''), (''preemphasis_enabled'', ''no'')}" for e
    using skeleton_names(3) entry_line_reads [of e] that by auto
  have ts: "\<forall>l \<in> set (skeleton_lines node). terminated_line l" by (simp add: skeleton_lines_def heads entries)
  have lines: "split_inclusive (doc_text (native_skeleton node)) = skeleton_lines node"
    unfolding skeleton_text by (rule split_inclusive_concat_terminated [OF ts])
  have "to_ascii_lowercase node \<noteq> ''hardware''" "to_ascii_lowercase node \<noteq> ''transmit''"
    using assms(2) by (auto simp: is_flat_section_def FLAT_SECTIONS_def eq_ignore_ascii_case_def to_ascii_lowercase_def
        ascii_lower_def byte_def)
  moreover have low: "to_ascii_lowercase ''hardware'' = ''hardware''" "to_ascii_lowercase ''transmit'' = ''transmit''" by code_simp+
  ultimately have "distinct (map to_ascii_lowercase (headers (skeleton_lines node)))"
    by (auto simp: skeleton_lines_def headers_Cons heads entries)
  moreover have "distinct (map (to_ascii_lowercase \<circ> fst) (section_assignments (native_skeleton node) s))" for s
  proof -
    have "distinct (map to_ascii_lowercase [''hardware_output_a_assignment'', ''hardware_output_b_assignment'',
        ''hardware_eeprom_enabled'']) \<and> \<not> eq_ignore_ascii_case ''hardware'' ''transmit''" by code_simp
    moreover have "\<not> (eq_ignore_ascii_case ''hardware'' s \<and> eq_ignore_ascii_case ''transmit'' s)"
    proof
      assume "eq_ignore_ascii_case ''hardware'' s \<and> eq_ignore_ascii_case ''transmit'' s"
      then have "to_ascii_lowercase ''hardware'' = to_ascii_lowercase ''transmit''" by (simp add: eq_ignore_ascii_case_def)
      then show False by (simp add: low)
    qed
    ultimately show ?thesis
      unfolding section_assignments_def lines
      by (cases "eq_ignore_ascii_case node s"; cases "eq_ignore_ascii_case ''hardware'' s";
          cases "eq_ignore_ascii_case ''transmit'' s") (simp_all add: skeleton_lines_def heads entries)
  qed
  moreover have "terminated_text (doc_text (native_skeleton node))"
    unfolding skeleton_text by (rule terminated_concat [OF ts])
  ultimately show ?thesis unfolding tidy_def lines by blast
qed

lemma base_tidy:
  assumes "native_base node local_configured = Inr base" "name_ok node" "\<not> is_flat_section node"
  shows "tidy base"
proof -
  have "trim ''local'' = ''local''" by code_simp
  then show ?thesis
    using assms(1) skeleton_tidy [OF assms(2,3)] set_value_tidy [of "native_skeleton node" "''local''"]
    by (auto simp: native_base_def document_edit_def res_simps split: if_splits)
qed


section \<open>The parts of a resolution\<close>

definition native_effects :: "config_document \<Rightarrow> string \<Rightarrow> ((string \<times> string) \<times> string) list" where
  "native_effects doc node =
     (let local_configured = native_processing_profile_configured doc node ''local'' in
      concat (map (\<lambda>section_name. section_effects node local_configured section_name {} (explicit_values doc section_name))
        [''radio'', ''radio '' @ node]))"

text \<open>A translation that succeeds, in its parts.\<close>

lemma translate_parts:
  assumes "native_translate doc source node = Inr (st2, normalized)"
  obtains ws base st1 selected where
    "resolved_section doc node ''general'' source [] = (Inr selected, ws)"
    "native_base node (native_processing_profile_configured doc node ''local'') = Inr base"
    "native_overlay source node (native_local_defaults (native_processing_profile_configured doc node ''local''))
       (native_processing_profile_configured doc node ''local'') ''radio'' [] (explicit_values doc ''radio'')
       \<lparr>ns_document = base, ns_physical = native_physical_default, ns_warnings = ws, ns_origins = []\<rparr> = Inr st1"
    "native_overlay source node (native_local_defaults (native_processing_profile_configured doc node ''local''))
       (native_processing_profile_configured doc node ''local'') (''radio '' @ node) []
       (explicit_values doc (''radio '' @ node)) st1 = Inr st2"
    "copy_sections doc node (section_names doc) (ns_document st2) = Inr normalized"
proof -
  obtain selected ws where g: "resolved_section doc node ''general'' source [] = (Inr selected, ws)"
    using assms by (cases "resolved_section doc node ''general'' source []"; cases "fst (resolved_section doc node ''general'' source [])")
      (simp_all add: native_translate_def)
  note run = assms [unfolded native_translate_def g prod.case sum.case Let_def res_bind_eq_Inr]
  show ?thesis using run g that by auto
qed

lemma configured_node:
  assumes "resolved_section doc node ''general'' source [] = (Inr selected, ws)"
  shows "validate_section_name node = Inr ()" "\<not> is_flat_section node"
proof -
  have v: "validate_section_name node = Inr () \<and>
      list_ex (\<lambda>c. eq_ignore_ascii_case c node) (configured_channels doc)"
  proof (cases "selected_section doc node ''general''")
    case (Inl e)
    have "e = InvalidSectionName \<or> e = MissingChannel node"
      using Inl by (auto simp: selected_section_def res_simps split: if_splits dest: validate_section_name_error)
    then show ?thesis using assms Inl by (auto simp: resolved_section_def)
  next
    case (Inr s)
    then show ?thesis by (auto simp: selected_section_def res_simps split: if_splits)
  qed
  then show "validate_section_name node = Inr ()" by simp
  obtain c where c: "eq_ignore_ascii_case c node" "\<not> is_flat_section c"
    using v by (auto simp: list_ex_iff configured_channels_def)
  then show "\<not> is_flat_section node" by (auto simp: is_flat_section_def list_ex_iff eq_ignore_ascii_case_def)
qed

lemma explicit_absent:
  assumes "\<not> (\<exists>s \<in> set (section_names doc). eq_ignore_ascii_case s t)"
  shows "explicit_values doc t = []"
proof -
  have "\<not> has_section doc t" using assms section_names_canonical by blast
  then have "no_section t (doc_lines doc)"
    unfolding has_section_def list_ex_iff headers_matching [symmetric] by (auto simp: filter_empty_conv)
  then show ?thesis by (simp add: explicit_values_def collect_values_fold no_section_inactive)
qed

lemma copied_values:
  assumes "is_shared_section t" "\<not> eq_ignore_ascii_case t node"
  shows "copied_entries doc node (section_names doc) t = explicit_values doc t"
proof (cases "\<exists>s \<in> set (section_names doc). eq_ignore_ascii_case s t")
  case True
  then obtain s where s: "s \<in> set (section_names doc)" "eq_ignore_ascii_case s t" by blast
  have "\<not> eq_ignore_ascii_case s node" using s(2) assms(2) by (simp add: eq_ignore_ascii_case_def)
  moreover have "is_shared_section s" using assms(1) shared_section_cong [OF s(2)] by simp
  ultimately show ?thesis using copied_entries_once [OF _ s] section_names_canonical by blast
next
  case False
  then have "copied_entries doc node (section_names doc) t = []" by (auto simp: copied_entries_def)
  then show ?thesis using explicit_absent [OF False] by simp
qed

lemma explicit_reads:
  "map_of (rev (explicit_values doc t)) key = btree_get (explicit_values doc t) key"
proof -
  have d: "distinct (map fst (explicit_values doc t))"
    using explicit_values_sorted [of doc t] by (simp add: btree_sorted_def strict_sorted_iff)
  then have "distinct (map fst (rev (explicit_values doc t)))" by (simp add: rev_map [symmetric])
  from map_of_eq_Some_iff [OF this] map_of_eq_Some_iff [OF d]
  have "map_of (rev (explicit_values doc t)) key = Some v \<longleftrightarrow> map_of (explicit_values doc t) key = Some v" for v
    by simp
  then show ?thesis unfolding btree_get_def by (metis not_Some_eq)
qed

lemma copied_reads:
  assumes "copy_sections doc node (section_names doc) d = Inr d'" "tidy d" "trim node = node"
    "is_shared_section t" "\<not> eq_ignore_ascii_case t node"
  shows "btree_get (explicit_values d' t) key =
    (case btree_get (explicit_values doc t) key of Some v \<Rightarrow> Some v | None \<Rightarrow> btree_get (explicit_values d t) key)"
proof -
  have "terminated_text (doc_text d)" using assms(2) by (simp add: tidy_def)
  moreover have "list_all name_ok (section_names doc)" using section_name_ok by (simp add: list_all_iff)
  ultimately have "section_assignments d' t = section_assignments d t @ explicit_values doc t"
    using copy_sections_frame [OF assms(1) _ assms(3) _ assms(5)] copied_values [OF assms(4,5)] by simp
  then show ?thesis
    by (cases "btree_get (explicit_values doc t) key")
       (simp_all add: explicit_values_get [of d'] explicit_values_get [of d] map_add_def explicit_reads)
qed

section \<open>Errors of the translation\<close>

definition names_file :: "config_document \<Rightarrow> string \<Rightarrow> string \<times> string \<times> string \<Rightarrow> bool" where
  "names_file doc node = (\<lambda>(section_name, name, value).
     (section_name = ''radio'' \<or> section_name = ''radio '' @ node) \<and>
     (name, value) \<in> set (explicit_values doc section_name))"

definition breaks_line :: "config_document \<Rightarrow> bool" where
  "breaks_line doc \<longleftrightarrow> (\<exists>s n v. (n, v) \<in> set (explicit_values doc s) \<and> carriage_return \<in> set v)"

fun native_error_ok :: "config_document \<Rightarrow> string \<Rightarrow> string \<Rightarrow> channel_configuration_error \<Rightarrow> bool" where
  "native_error_ok doc source node (StationFailure (StationDocument e)) \<longleftrightarrow>
     e = InvalidSectionName \<or> e = MissingChannel node \<or> e = InvalidOptionValue \<and> breaks_line doc"
| "native_error_ok doc source node (StationFailure (StationAmbiguousProfile node' selector)) \<longleftrightarrow>
     node' = node \<and> ends_with ''_profile'' selector"
| "native_error_ok doc source node e \<longleftrightarrow> channel_error_ok source node e"

lemma token_prefix: "token_len ts s = 0 \<or> (\<exists>t \<in> set ts. take (token_len ts s) s = t)"
  by (induction ts) (auto simp: starts_with_def)

lemma strip_keeps_visible:
  assumes "\<forall>t \<in> set ts. \<forall>d \<in> set t. \<not> ascii_visible d" "ascii_visible c" "c \<in> set s"
  shows "c \<in> set (strip_tokens ts s)"
  using assms
proof (induction ts s rule: strip_tokens.induct)
  case (1 ts s)
  show ?case
  proof (cases "token_len ts s = 0")
    case True
    then show ?thesis using "1.prems" by (simp add: strip_tokens.simps [of ts s])
  next
    case False
    then have "c \<notin> set (take (token_len ts s) s)" using token_prefix [of ts s] "1.prems"(1,2) by metis
    then have "c \<in> set (drop (token_len ts s) s)"
      using "1.prems"(3) by (metis Un_iff append_take_drop_id set_append)
    then show ?thesis using "1.IH" [OF False "1.prems"(1,2)] False by (simp add: strip_tokens.simps [of ts s])
  qed
qed

lemma ws_tokens_invisible: "list_all (list_all (\<lambda>d. \<not> ascii_visible d)) ws_tokens"
  by code_simp

lemma trim_not_empty:
  assumes "ascii_visible c" "c \<in> set s" shows "trim s \<noteq> []"
proof -
  have "c \<in> set (trim_start s)"
    using strip_keeps_visible [of ws_tokens c s] ws_tokens_invisible assms by (auto simp: trim_start_def list_all_iff)
  then have "c \<in> set (strip_tokens (map rev ws_tokens) (rev (trim_start s)))"
    using ws_tokens_invisible assms(1) by (intro strip_keeps_visible) (auto simp: list_all_iff)
  then show ?thesis by (auto simp: trim_def trim_end_def)
qed

lemma space_is_white: "contains_whitespace (a @ '' '' @ b)"
  by (induction a) simp_all

lemma destination_valid:
  assumes "alias_ok a" "validate_section_name node = Inr ()"
  shows "validate_section_name (destination node s a) = Inr ()"
    "contains_whitespace (destination node s a) \<or> is_flat_section (destination node s a)"
proof -
  have p: "plain_section (alias_section a)"
    using assms(1) alias_sections_plain by (auto simp: alias_ok_def list_all_iff)
  obtain c t where c: "alias_section a = c # t" "ascii_visible c"
    using p by (cases "alias_section a") (auto simp: plain_section_def)
  have "trim (destination node s a) \<noteq> []" by (intro trim_not_empty [OF c(2)]) (simp add: destination_def c(1))
  moreover have "\<not> ascii_visible newline" "\<not> ascii_visible carriage_return" "newline \<noteq> CHR '' ''" "carriage_return \<noteq> CHR '' ''"
    by (simp_all add: ascii_visible_def byte_def newline_def carriage_return_def)
  ultimately show "validate_section_name (destination node s a) = Inr ()"
    using p assms(2) by (auto simp: validate_section_name_ok destination_def plain_section_def list_all_iff)
  show "contains_whitespace (destination node s a) \<or> is_flat_section (destination node s a)"
    using p space_is_white by (auto simp: destination_def plain_section_def)
qed

lemma edit_error:
  assumes "document_edit d s n v = Inl e" "validate_section_name s = Inr ()" "validate_option_name n = Inr ()"
  shows "e = StationFailure (StationDocument InvalidOptionValue) \<and> (carriage_return \<in> set v \<or> newline \<in> set v) \<or>
    e = StationFailure (StationDocument (MissingChannel s)) \<and> \<not> (contains_whitespace s \<or> is_flat_section s)"
proof (cases "validate_value v")
  case (Inl x)
  then have "set_value d s n v = Inl InvalidOptionValue" "carriage_return \<in> set v \<or> newline \<in> set v"
    using assms(2,3) by (auto simp: set_value_def validate_value_def list_ex_iff split: if_splits)
  then show ?thesis using assms(1) by (simp add: document_edit_def)
next
  case (Inr u)
  then show ?thesis using assms
    by (auto simp: document_edit_def set_value_def Let_def split: set_value_scan.splits option.splits if_splits)
qed

lemma to_shared_breaks:
  assumes "c \<in> set (to_shared a v)" "\<not> ascii_visible c" shows "c \<in> set v"
proof -
  have "list_all (\<lambda>a. list_all (\<lambda>(n, s). list_all ascii_visible s) (value_pairs a)) value_aliases" by code_simp
  then have "list_all (\<lambda>(n, s). list_all ascii_visible s) (value_pairs a)"
    using value_aliases_all [of a] by (simp add: list_all_iff)
  then have p: "(n, s) \<in> set (value_pairs a) \<Longrightarrow> list_all ascii_visible s" for n s
    by (fastforce simp: list_all_iff)
  have d: "list_all ascii_visible (dec_digits ((n + 19) div 20))" if "parse_u16 v = Some n" for n
  proof -
    have "0 \<le> (n + 19) div 20" using parse_u16_bounds [OF that] by (simp add: pos_imp_zdiv_nonneg_iff)
    then show ?thesis using digits_visible by (simp add: list_all_iff)
  qed
  show ?thesis
    using assms p d by (fastforce simp: to_shared_def list_all_iff split: option.splits if_splits dest: found_member)
qed


section \<open>What the translation keeps\<close>

definition gain_ok :: "rust_float option \<Rightarrow> bool" where
  "gain_ok g \<longleftrightarrow> (case g of None \<Rightarrow> True | Some x \<Rightarrow> float_in (f64 (- 30)) (f64 30) x)"

definition physical_ok :: "native_physical_options \<Rightarrow> bool" where
  "physical_ok p \<longleftrightarrow>
     between 1 2 (np_input_device_channels p) \<and> between 1 2 (np_output_device_channels p) \<and>
     gain_ok (np_hardware_input_gain_db p) \<and> gain_ok (np_hardware_output_a_gain_db p) \<and>
     gain_ok (np_hardware_output_b_gain_db p) \<and>
     np_receive_graph p \<noteq> [] \<and> length (np_receive_graph p) \<le> 4096 \<and>
     np_transmit_graph p \<noteq> [] \<and> length (np_transmit_graph p) \<le> 4096"

definition quotes_file :: "config_document \<Rightarrow> string \<Rightarrow> resolution_warning \<Rightarrow> bool" where
  "quotes_file doc node w \<longleftrightarrow> names_file doc node (warn_section w, warn_name w, warn_supplied_value w)"

definition native_state_ok :: "config_document \<Rightarrow> string \<Rightarrow> native_state \<Rightarrow> bool" where
  "native_state_ok doc node st \<longleftrightarrow>
     physical_ok (ns_physical st) \<and> list_all (quotes_file doc node) (ns_warnings st) \<and>
     list_all (\<lambda>r. names_file doc node (origin_section r, origin_name r, origin_value r)) (ns_origins st)"

lemma physical_default_ok: "physical_ok native_physical_default"
  by (simp add: physical_ok_def native_physical_default_def gain_ok_def between_def)

text \<open>A new warning quotes the assignment; a value is kept or in range.\<close>

lemma apply_physical_ok:
  assumes "apply_physical key s p ws = (p', ws')" "physical_ok p"
  shows "physical_ok p' \<and> (ws' = ws \<or>
    (\<exists>w. ws' = ws @ [w] \<and> warn_section w = setting_section s \<and> warn_name w = setting_name s \<and>
       warn_supplied_value w = setting_value s))"
  using assms
  by (auto simp: apply_physical_def physical_ok_def assign_display_def assign_u32_def assign_graph_def parsed_u64_def
      station_invalid_def station_unknown_def between_def mod_pos_pos_trivial split: if_splits option.splits sum.splits)

definition setting_quotes :: "config_document \<Rightarrow> string \<Rightarrow> setting \<Rightarrow> bool" where
  "setting_quotes doc node s \<longleftrightarrow> names_file doc node (setting_section s, setting_name s, setting_value s)"

lemma apply_native_ok:
  assumes "apply_native source node defaults local_configured s st = Inr st'" "native_state_ok doc node st"
    "setting_quotes doc node s"
  shows "native_state_ok doc node st'"
proof (cases "alias_of (to_ascii_lowercase (setting_name s))")
  case None
  obtain p ws where p: "apply_physical (to_ascii_lowercase (setting_name s)) s (ns_physical st) (ns_warnings st) = (p, ws)"
    by fastforce
  have "physical_ok (ns_physical st)" using assms(2) by (simp add: native_state_ok_def)
  from apply_physical_ok [OF p this] show ?thesis
    using assms None p by (auto simp: apply_native_def native_state_ok_def quotes_file_def setting_quotes_def)
next
  case (Some a)
  then show ?thesis using assms
    by (auto simp: apply_native_def apply_alias_def Let_def native_state_ok_def quotes_file_def setting_quotes_def
        station_invalid_def res_simps split: if_splits)
qed

lemma native_overlay_ok:
  assumes "native_overlay source node defaults local_configured section_name seen entries st = Inr st'"
    "native_state_ok doc node st" "list_all (\<lambda>(n, v). names_file doc node (section_name, n, v)) entries"
  shows "native_state_ok doc node st'"
  using assms
proof (induction entries arbitrary: seen st)
  case (Cons e entries)
  obtain n v where e: "e = (n, v)" by (cases e)
  show ?case
    using Cons by (auto simp: e res_simps setting_quotes_def split: sum.splits option.splits dest!: apply_native_ok)
qed simp

section \<open>What can go wrong\<close>

lemma profile_error_channel:
  "chain_inv LocalReceive defaults \<Longrightarrow> from_document_with_defaults d source node LocalReceive defaults = Inl e \<Longrightarrow>
   native_error_ok doc source node (ProcessingFailure e)"
  using profile_document_error by (simp add: channel_error_ok_def)

lemma value_breaks: "(n, v) \<in> set (explicit_values doc s) \<Longrightarrow> carriage_return \<in> set v \<Longrightarrow> breaks_line doc"
  by (auto simp: breaks_line_def)

lemma apply_native_error:
  assumes "apply_native source node defaults local_configured s st = Inl e" "setting_quotes doc node s"
    "chain_inv LocalReceive defaults" "validate_section_name node = Inr ()"
  shows "native_error_ok doc source node e"
proof -
  obtain a where a: "alias_of (to_ascii_lowercase (setting_name s)) = Some a"
    using assms(1) by (cases "alias_of (to_ascii_lowercase (setting_name s))") (auto simp: apply_native_def split: prod.splits)
  have "(\<exists>p. e = ProcessingFailure p \<and> from_document_with_defaults (ns_document st) source node LocalReceive defaults = Inl p) \<or>
      document_edit (ns_document st) (destination node (setting_section s) a) (alias_key a)
        (to_shared (alias_value a) (setting_value s)) = Inl e"
    using assms(1) a by (auto simp: apply_native_def apply_alias_def destination_def Let_def res_simps split: if_splits)
  then show ?thesis
  proof (elim disjE exE conjE)
    fix p assume "e = ProcessingFailure p" "from_document_with_defaults (ns_document st) source node LocalReceive defaults = Inl p"
    then show ?thesis using profile_error_channel [OF assms(3)] by blast
  next
    have valid: "validate_option_name (alias_key a) = Inr ()" using alias_of_ok [OF a] by (simp add: alias_ok_def)
    assume "document_edit (ns_document st) (destination node (setting_section s) a) (alias_key a)
        (to_shared (alias_value a) (setting_value s)) = Inl e"
    from edit_error [OF this destination_valid(1) [OF alias_of_ok [OF a] assms(4)] valid]
    have e: "e = StationFailure (StationDocument InvalidOptionValue)"
        "carriage_return \<in> set (to_shared (alias_value a) (setting_value s)) \<or>
         newline \<in> set (to_shared (alias_value a) (setting_value s))"
      using destination_valid(2) [OF alias_of_ok [OF a] assms(4)] by auto
    have "\<not> ascii_visible newline" "\<not> ascii_visible carriage_return"
      by (simp_all add: ascii_visible_def byte_def newline_def carriage_return_def)
    then have "carriage_return \<in> set (setting_value s) \<or> newline \<in> set (setting_value s)"
      using e(2) to_shared_breaks by blast
    moreover have m: "(setting_name s, setting_value s) \<in> set (explicit_values doc (setting_section s))"
      using assms(2) by (simp add: setting_quotes_def names_file_def)
    moreover have "newline \<notin> set (setting_value s)" using explicit_entry_ok [OF m] by (simp add: entry_ok_def)
    ultimately show ?thesis using e(1) value_breaks by auto
  qed
qed

lemma native_overlay_error:
  assumes "native_overlay source node defaults local_configured section_name seen entries st = Inl e"
    "list_all (\<lambda>(n, v). names_file doc node (section_name, n, v)) entries"
    "chain_inv LocalReceive defaults" "validate_section_name node = Inr ()"
  shows "native_error_ok doc source node e"
  using assms(1,2)
proof (induction entries arbitrary: seen st)
  case (Cons x entries)
  obtain n v where x: "x = (n, v)" by (cases x)
  let ?s = "\<lparr>setting_source = source, setting_section = section_name, setting_name = n, setting_value = v\<rparr>"
  have q: "setting_quotes doc node ?s" using Cons.prems(2) by (simp add: x setting_quotes_def)
  consider (conflict) c where "record_assignment seen source section_name (to_ascii_lowercase n) v = Inl c" "e = StationFailure c"
    | (rest) seen' st' where "native_overlay source node defaults local_configured section_name seen' entries st' = Inl e"
    | (here) "apply_native source node defaults local_configured ?s st = Inl e"
  proof (cases "record_assignment seen source section_name (to_ascii_lowercase n) v")
    case (Inl c)
    then show ?thesis using Cons.prems(1) conflict by (simp add: x)
  next
    case (Inr seen1)
    show ?thesis
    proof (cases seen1)
      case None
      then show ?thesis using Cons.prems(1) Inr rest by (simp add: x)
    next
      case (Some seen2)
      then show ?thesis using Cons.prems(1) Inr rest here
        by (cases "apply_native source node defaults local_configured ?s st") (simp_all add: x)
    qed
  qed
  then show ?case
  proof cases
    case conflict
    then show ?thesis by (auto simp: record_assignment_def channel_error_ok_def split: option.splits if_splits)
  next
    case rest
    then show ?thesis using Cons.IH Cons.prems(2) by (simp add: x)
  next
    case here
    then show ?thesis using apply_native_error [OF _ q assms(3,4)] by blast
  qed
qed simp

lemma copy_selectors_error:
  assumes "copy_selectors doc node entries normalized = Inl e" "list_all (\<lambda>x. \<exists>s. x \<in> set (explicit_values doc s)) entries"
    "validate_section_name node = Inr ()"
  shows "native_error_ok doc source node e"
  using assms(1,2)
proof (induction entries arbitrary: normalized)
  case (Cons x entries)
  obtain key v where x: "x = (key, v)" by (cases x)
  obtain s where s: "(key, v) \<in> set (explicit_values doc s)" using Cons.prems(2) by (auto simp: x)
  have ok: "validate_option_name key = Inr ()" "newline \<notin> set v" using explicit_entry_ok [OF s] by (simp_all add: entry_ok_def)
  consider (ambiguous) kind where "station_reject_ambiguous doc node kind = Inl (StationAmbiguousProfile node (kind @ ''_profile''))"
      "e = StationFailure (StationAmbiguousProfile node (kind @ ''_profile''))"
    | (edit) "document_edit normalized node key v = Inl e"
    | (rest) d where "copy_selectors doc node entries d = Inl e"
    using Cons.prems(1) by (auto simp: x res_simps station_reject_ambiguous_def split: if_splits option.splits)
  then show ?case
  proof cases
    case ambiguous
    then show ?thesis by (simp add: ends_with_def starts_with_def)
  next
    case edit
    then show ?thesis using edit_error [OF edit assms(3) ok(1)] ok(2) value_breaks [OF s] by auto
  next
    case rest
    then show ?thesis using Cons.IH Cons.prems(2) by simp
  qed
qed simp

lemma copy_sections_error:
  assumes "copy_sections doc node sections normalized = Inl e" "validate_section_name node = Inr ()"
  shows "native_error_ok doc source node e"
  using assms(1)
proof (induction sections arbitrary: normalized)
  case (Cons s sections)
  have "list_all (\<lambda>x. \<exists>s. x \<in> set (explicit_values doc s)) (explicit_values doc s)" by (auto simp: list_all_iff)
  then show ?case using Cons copy_selectors_error [OF _ _ assms(2)] by (auto simp: res_simps split: if_splits)
qed simp


section \<open>The resolved configuration\<close>

lemma native_defaults_ok: "station_ok native_defaults"
  using station_default_ok
  by (simp add: native_defaults_def station_ok_def hardware_ok_def tx_ok_def)

lemma native_local_ok: "chain_inv LocalReceive (native_local_defaults local_configured)"
proof -
  have "in_range (f64 0) (f64 (- 30)) (f64 30)" by code_simp
  then show ?thesis
    using shipped_contract [of LocalReceive]
    by (simp add: native_local_defaults_def contract_defs)
qed

lemma gain_text: "float_display (output_gain_db (native_local_defaults False)) = ''0''"
proof -
  have "float_display (f64 0) = ''0''" by code_simp
  then show ?thesis by (simp add: native_local_defaults_def)
qed

lemma native_base_error:
  assumes "native_base node local_configured = Inl e" shows "False"
proof -
  have f: "\<not> local_configured" "document_edit (native_skeleton node) ''local'' ''output_gain_db'' ''0'' = Inl e"
    using assms gain_text by (auto simp: native_base_def split: if_splits)
  have "validate_section_name ''local'' = Inr () \<and> validate_option_name ''output_gain_db'' = Inr () \<and>
      is_flat_section ''local'' \<and> carriage_return \<notin> set ''0'' \<and> newline \<notin> set ''0''"
    by code_simp
  then show False using edit_error [OF f(2)] by blast
qed

lemma gain_intention_ok: "gain_ok g \<Longrightarrow> gain_ok (gain_intention source section_name values key g)"
  by (auto simp: gain_intention_def assign_gain_intention_def assign_f64_def gain_ok_def float_in_def station_invalid_def
      split: option.splits prod.splits if_splits)

lemma gain_intentions_ok: "physical_ok p \<Longrightarrow> physical_ok (foldl (gain_intentions d source) p sections)"
proof (induction sections arbitrary: p)
  case (Cons s sections)
  have "physical_ok (gain_intentions d source p s)"
    using Cons.prems by (simp add: gain_intentions_def Let_def physical_ok_def gain_intention_ok)
  then show ?case using Cons.IH by simp
qed simp

lemma radio_entries:
  "section_name = ''radio'' \<or> section_name = ''radio '' @ node \<Longrightarrow>
   list_all (\<lambda>(n, v). names_file doc node (section_name, n, v)) (explicit_values doc section_name)"
  by (auto simp: list_all_iff names_file_def)

lemma no_profile_warning:
  "resolved_section doc node ''general'' source [] = (Inr selected, ws) \<Longrightarrow> ws = []"
proof -
  assume r: "resolved_section doc node ''general'' source [] = (Inr selected, ws)"
  have "eq_ignore_ascii_case ''general'' ''general''" by simp
  then have "selected_section doc node ''general'' = Inl e \<Longrightarrow> e = InvalidSectionName \<or> e = MissingChannel node" for e
    by (auto simp: selected_section_def res_simps split: if_splits dest: validate_section_name_error)
  then show ?thesis using r
    by (cases "selected_section doc node ''general''") (auto simp: resolved_section_def)
qed

lemma translate_failure:
  assumes "native_translate doc source node = Inl e"
  shows "native_error_ok doc source node e"
proof -
  let ?lc = "native_processing_profile_configured doc node ''local''"
  let ?ld = "native_local_defaults ?lc"
  note fail = assms [unfolded native_translate_def Let_def]
  obtain out ws where g: "resolved_section doc node ''general'' source [] = (out, ws)" by fastforce
  show ?thesis
  proof (cases out)
    case (Inl d)
    then show ?thesis using fail g resolved_section_facts(2) [OF g] by auto
  next
    case (Inr selected)
    have node: "validate_section_name node = Inr ()" using configured_node(1) g Inr by blast
    obtain base where base: "native_base node ?lc = Inr base" using native_base_error by (cases "native_base node ?lc") auto
    note fail = fail [unfolded g Inr base prod.case sum.case res_bind.simps]
    let ?st = "\<lparr>ns_document = base, ns_physical = native_physical_default, ns_warnings = ws, ns_origins = []\<rparr>"
    show ?thesis
    proof (cases "native_overlay source node ?ld ?lc ''radio'' [] (explicit_values doc ''radio'') ?st")
      case (Inl x)
      then show ?thesis using fail native_overlay_error [OF Inl radio_entries native_local_ok node] by simp
    next
      case (Inr st1)
      note fail = fail [unfolded Inr res_bind.simps]
      show ?thesis
      proof (cases "native_overlay source node ?ld ?lc (''radio '' @ node) [] (explicit_values doc (''radio '' @ node)) st1")
        case (Inl x)
        then show ?thesis using fail native_overlay_error [OF Inl radio_entries native_local_ok node] by simp
      next
        case (Inr st2)
        note fail = fail [unfolded Inr res_bind.simps]
        show ?thesis
        proof (cases "copy_sections doc node (section_names doc) (ns_document st2)")
          case (Inl x)
          then show ?thesis using fail copy_sections_error [OF Inl node] by simp
        next
          case (Inr normalized)
          then show ?thesis using fail by simp
        qed
      qed
    qed
  qed
qed

lemma native_failure:
  assumes "native_from_document doc source node = Inl e"
  shows "native_error_ok doc source node e"
proof (cases "native_translate doc source node")
  case (Inl x)
  then show ?thesis using assms translate_failure [OF Inl] by (simp add: native_from_document_def)
next
  case (Inr p)
  obtain st normalized where p: "p = (st, normalized)" by (cases p)
  let ?lc = "native_processing_profile_configured doc node ''local''"
  note fail = assms [unfolded native_from_document_def Inr p res_bind.simps prod.case]
  show ?thesis
  proof (cases "channel_from_document_with_defaults normalized source node native_defaults (native_local_defaults ?lc)")
    case (Inl x)
    have "channel_error_ok source node x"
      using channel_with_defaults_outcome [OF native_defaults_ok native_local_ok [of ?lc],
          where doc = normalized and source = source and channel = node] Inl by simp
    then have "native_error_ok doc source node x"
      by (cases "(doc, source, node, x)" rule: native_error_ok.cases)
         (auto simp: channel_error_ok_def PROFILE_KINDS_def ends_with_def starts_with_def)
    then show ?thesis using fail Inl by simp
  next
    case (Inr resolved)
    note fail = fail [unfolded Inr res_bind.simps]
    obtain hw ws' where h: "resolved_section normalized node ''hardware'' source [] = (hw, ws')" by fastforce
    show ?thesis using fail h resolved_section_facts(2) [OF h] by (cases hw) auto
  qed
qed

section \<open>The properties\<close>



text \<open>A small file: the node, a section of the radio with one option, and an empty shared section.\<close>

definition native_sample :: config_document where
  "native_sample = document_new
     (''[1]'' @ [newline] @ ''[radio]'' @ [newline] @ ''receive_on_delay_ms = 45'' @ [newline] @ ''[link]'' @ [newline])"
definition native_sample_base_text :: string where
  "native_sample_base_text =
     ''[1]'' @ [newline] @ ''[hardware]'' @ [newline] @ ''hardware_output_a_assignment=voice'' @ [newline] @
     ''hardware_output_b_assignment=ctcss'' @ [newline] @ ''hardware_eeprom_enabled=no'' @ [newline] @
     ''[transmit]'' @ [newline] @ ''preemphasis_enabled=no'' @ [newline]"

lemma native_sample_values:
  "explicit_values native_sample ''radio'' = [(''receive_on_delay_ms'', ''45'')] \<and>
   explicit_values native_sample ''radio 1'' = [] \<and> explicit_values native_sample ''1'' = [] \<and>
   explicit_values native_sample ''link'' = [] \<and> section_names native_sample = [''1'', ''radio'', ''link''] \<and>
   resolved_section native_sample ''1'' ''general'' ''file'' [] = (Inr ''1'', []) \<and>
   \<not> native_processing_profile_configured native_sample ''1'' ''local''"
  by code_simp

lemma native_sample_gain_edit: "set_value (document_new native_sample_base_text) ''local'' ''output_gain_db'' ''0'' =
  Inr (document_new (native_sample_base_text @ [newline] @ ''[local]'' @ [newline] @ ''output_gain_db = 0'' @ [newline]))"
  by code_simp

lemma native_sample_edit:
  "set_value (document_new (native_sample_base_text @ [newline] @ ''[local]'' @ [newline] @ ''output_gain_db = 0'' @ [newline]))
     ''receive'' ''on_delay_frames'' ''3'' =
     Inr (document_new (native_sample_base_text @ [newline] @ ''[local]'' @ [newline] @ ''output_gain_db = 0'' @ [newline] @
       [newline] @ ''[receive]'' @ [newline] @ ''on_delay_frames = 3'' @ [newline]))"
  by code_simp

lemma native_sample_alias:
  "alias_of ''receive_on_delay_ms'' = Some (alias_entry ''receive_on_delay_ms'' ''receive'' ''on_delay_frames'' VMilliseconds) \<and>
   to_ascii_lowercase ''receive_on_delay_ms'' = ''receive_on_delay_ms''"
  by code_simp

lemma native_sample_rest: "to_shared VMilliseconds ''45'' = ''3'' \<and>
   \<not> is_shared_section ''radio'' \<and> is_shared_section ''link'' \<and> \<not> eq_ignore_ascii_case ''radio'' ''1'' \<and>
   \<not> eq_ignore_ascii_case ''link'' ''1'' \<and> eq_ignore_ascii_case ''1'' ''1'' "
  by code_simp

definition native_sample_edited_text :: string where
  "native_sample_edited_text = native_sample_base_text @ [newline] @ ''[local]'' @ [newline] @ ''output_gain_db = 0'' @ [newline] @
       [newline] @ ''[receive]'' @ [newline] @ ''on_delay_frames = 3'' @ [newline]"

lemma native_sample_skeleton: "native_skeleton ''1'' = document_new native_sample_base_text"
  by (simp add: native_skeleton_def native_defaults_def station_yes_no_def native_sample_base_text_def)

lemma native_sample_gain: "float_display (output_gain_db (native_local_defaults False)) = ''0''"
proof -
  have "output_gain_db (native_local_defaults False) = f64 0" by (simp add: native_local_defaults_def)
  moreover have "float_display (f64 0) = ''0''" by code_simp
  ultimately show ?thesis by simp
qed

lemma native_sample_base: "native_base ''1'' False = Inr (document_new
    (native_sample_base_text @ [newline] @ ''[local]'' @ [newline] @ ''output_gain_db = 0'' @ [newline]))"
  unfolding native_base_def native_sample_skeleton document_edit_def native_sample_gain native_sample_gain_edit by simp

lemma native_sample_overlay_node: "native_overlay ''file'' ''1'' defaults False ''radio 1'' [] [] st = Inr st"
  by simp

lemma native_sample_overlay:
  assumes "ns_document st = document_new
    (native_sample_base_text @ [newline] @ ''[local]'' @ [newline] @ ''output_gain_db = 0'' @ [newline])"
  shows "\<exists>st'. native_overlay ''file'' ''1'' defaults False ''radio'' [] [(''receive_on_delay_ms'', ''45'')] st = Inr st' \<and>
    ns_document st' = document_new native_sample_edited_text"
proof -
  note a = native_sample_alias
  show ?thesis
    using native_sample_edit assms native_sample_rest
    by (simp add: a record_assignment_def apply_native_def alias_entry_def apply_alias_def document_edit_def
        native_sample_edited_text_def Let_def)
qed

lemma native_sample_copy: "copy_sections native_sample ''1'' [''1'', ''radio'', ''link''] (document_new native_sample_edited_text) =
    Inr (document_new (as_str (document_new native_sample_edited_text) @ section_text ''link'' []))"
  using native_sample_values native_sample_rest by simp

lemma native_sample_translation:
  "\<exists>st normalized. native_translate native_sample ''file'' ''1'' = Inr (st, normalized)"
proof -
  let ?st = "\<lparr>ns_document = document_new
    (native_sample_base_text @ [newline] @ ''[local]'' @ [newline] @ ''output_gain_db = 0'' @ [newline]),
    ns_physical = native_physical_default, ns_warnings = [], ns_origins = []\<rparr>"
  obtain st' where st': "native_overlay ''file'' ''1'' (native_local_defaults False) False ''radio'' []
      [(''receive_on_delay_ms'', ''45'')] ?st = Inr st'" "ns_document st' = document_new native_sample_edited_text"
    using native_sample_overlay [of ?st "native_local_defaults False"] by auto
  have radio: "''radio '' @ ''1'' = ''radio 1''" by simp
  note v = native_sample_values
  show ?thesis
    unfolding native_translate_def radio
    by (simp only: v Let_def prod.case sum.case native_sample_base res_bind.simps st' native_sample_overlay_node native_sample_copy simp_thms)
       blast
qed

lemma native_sample_effect: "map_of (rev (native_effects native_sample ''1'')) (''receive'', ''on_delay_frames'') = Some ''3''"
  by code_simp

lemma native_sample_sections: "node_ok ''1''" "is_shared_section ''receive''" "\<not> eq_ignore_ascii_case ''receive'' ''1''"
  "to_ascii_lowercase ''on_delay_frames'' = ''on_delay_frames''" "to_ascii_lowercase ''receive'' = ''receive''"
  "btree_get (explicit_values native_sample ''receive'') ''on_delay_frames'' = None"
  by code_simp+


text \<open>Resolving a standalone file: an accepted channel is as safe as any other, its physical options are in range, and
  every warning is one of the shared resolver or quotes an assignment of \<open>[radio]\<close> or \<open>[radio NODE]\<close> as the
  operator wrote it. Every error is one of the shared resolver, an ambiguous selector of the node, or a value that
  would break its line.
\<close>

theorem native_outcomes:
  "case native_from_document doc source node of
     Inr r \<Rightarrow>
       rch_channel (rn_resolved r) = node \<and> channel_ok (rch_config (rn_resolved r)) \<and> physical_ok (rn_physical r) \<and>
       rn_source_document r = doc \<and>
       list_all (\<lambda>w. w \<in> set (rch_warnings (rn_resolved r)) \<or> quotes_file doc node w) (rn_warnings r)
   | Inl e \<Rightarrow> native_error_ok doc source node e"
proof (cases "native_from_document doc source node")
  case (Inl e)
  then show ?thesis using native_failure by simp
next
  case (Inr r)
  let ?lc = "native_processing_profile_configured doc node ''local''"
  obtain st2 normalized where n: "native_translate doc source node = Inr (st2, normalized)"
    using Inr by (auto simp: native_from_document_def res_bind_eq_Inr)
  note run = Inr [unfolded native_from_document_def n res_bind.simps prod.case res_bind_eq_Inr]
  obtain resolved where c: "channel_from_document_with_defaults normalized source node native_defaults
      (native_local_defaults ?lc) = Inr resolved"
    using run by blast
  obtain hw ws' where h: "resolved_section normalized node ''hardware'' source [] = (Inr hw, ws')"
    using run c by (cases "resolved_section normalized node ''hardware'' source []";
        cases "fst (resolved_section normalized node ''hardware'' source [])") auto
  have r: "r = \<lparr>rn_resolved = resolved,
      rn_physical = foldl (gain_intentions normalized source) (ns_physical st2) [''hardware'', hw],
      rn_document = normalized, rn_source_document = doc,
      rn_warnings = ns_warnings st2 @ map (native_warning (ns_origins st2)) (rch_warnings resolved)\<rparr>"
    using run c h by auto
  obtain ws base st1 selected where
    p: "resolved_section doc node ''general'' source [] = (Inr selected, ws)"
      "native_overlay source node (native_local_defaults ?lc) ?lc ''radio'' [] (explicit_values doc ''radio'')
         \<lparr>ns_document = base, ns_physical = native_physical_default, ns_warnings = ws, ns_origins = []\<rparr> = Inr st1"
      "native_overlay source node (native_local_defaults ?lc) ?lc (''radio '' @ node) []
         (explicit_values doc (''radio '' @ node)) st1 = Inr st2"
    by (rule translate_parts [OF n])
  have "native_state_ok doc node \<lparr>ns_document = base, ns_physical = native_physical_default, ns_warnings = ws, ns_origins = []\<rparr>"
    using no_profile_warning [OF p(1)] physical_default_ok by (simp add: native_state_ok_def)
  then have st: "native_state_ok doc node st2"
    using native_overlay_ok [OF p(3) native_overlay_ok [OF p(2) _ radio_entries] radio_entries] by simp
  have "native_warning (ns_origins st2) w = w \<or> quotes_file doc node (native_warning (ns_origins st2) w)" for w
    using st by (auto simp: native_warning_def native_state_ok_def list_all_iff quotes_file_def split: option.splits
        dest!: found_member)
  then have "list_all (\<lambda>w. w \<in> set (rch_warnings resolved) \<or> quotes_file doc node w) (rn_warnings r)"
    using st unfolding r list_all_iff native_state_ok_def resolved_native_configuration.simps
    by (metis (no_types, lifting) Un_iff imageE set_append set_map)
  moreover have "physical_ok (rn_physical r)"
    unfolding r resolved_native_configuration.simps using st by (intro gain_intentions_ok) (simp add: native_state_ok_def)
  moreover have "rch_channel resolved = node \<and> channel_ok (rch_config resolved)"
    using channel_with_defaults_outcome [OF native_defaults_ok native_local_ok [of ?lc],
        where doc = normalized and source = source and channel = node] c by simp
  ultimately show ?thesis using Inr by (simp add: r)
qed


end
