(* ===== verification/Native_Spelling.thy ===== *)
theory Native_Spelling
  imports Native_Configuration Station_Text
begin

text \<open>
  The spellings of values in a standalone file, and what happens when a file uses two names of one option.
\<close>

section \<open>Durations\<close>

lemma parse_u16_digits: "0 \<le> n \<Longrightarrow> n \<le> 65535 \<Longrightarrow> parse_u16 (dec_digits n) = Some n"
  unfolding parse_u16_def by (simp add: dec_digits_radix radix_roundtrip)

lemma frames_roundtrip:
  assumes "0 \<le> n" "n \<le> 3276"
  shows "to_shared VMilliseconds (to_native VMilliseconds (dec_digits n)) = dec_digits n"
proof -
  have "to_native VMilliseconds (dec_digits n) = dec_digits (n * 20)"
    using assms by (simp add: to_native_def parse_u16_digits)
  moreover have "(n * 20 + 19) div 20 = n" by simp
  ultimately show ?thesis using assms by (simp add: to_shared_def parse_u16_digits)
qed

text \<open>Above the limit the milliseconds no longer fit 16 bits, and the text would be read as frames.\<close>

lemma frames_above_limit:
  "to_native VMilliseconds ''3277'' = ''65540'' \<and> to_shared VMilliseconds ''65540'' = ''65540''"
  by code_simp

section \<open>Enumerations\<close>

definition survives :: "value_alias \<Rightarrow> string \<Rightarrow> bool" where
  "survives a v \<longleftrightarrow> to_shared a (to_native a v) = v"

lemma enumerations_survive:
  "list_all (\<lambda>v. survives VAudio (receive_audio_source_display v)) [AudioDisabled, AudioSpeaker, AudioFlat] \<and>
   list_all (\<lambda>v. survives VCarrier (carrier_source_display v))
     [CosDisabled, CosDsp, CosVox, CosExternal, CosOpen, CosUsb, CosUsbInverted, CosParallel, CosParallelInverted] \<and>
   list_all (\<lambda>v. survives VCtcssSource (ctcss_source_display v))
     [ToneDisabled, ToneUsb, ToneUsbInverted, ToneDsp, ToneParallel, ToneParallelInverted] \<and>
   list_all (\<lambda>v. survives VOutput (hardware_output_assignment_display v))
     [OutOff, OutVoice, OutCtcss, OutVoiceCtcss, OutAuxiliaryVoice] \<and>
   list_all (\<lambda>v. survives VInterface (hardware_interface_type_display v))
     [InterfaceDudeUsb, InterfaceSphUsb, InterfaceNhrc, InterfaceCustom] \<and>
   list_all (\<lambda>v. survives VTurnoff (ctcss_turnoff_mode_display v))
     [TurnoffNone, TurnoffPhaseShift, TurnoffToneRemove, TurnoffTailTone] \<and>
   list_all (\<lambda>v. survives VDuplex (radio_duplex_mode_display v)) [DuplexHalf, DuplexFull] \<and>
   list_all (survives VNoise) [''0'', ''1''] \<and> list_all (survives VBooleanNumber) [''0'', ''1'']"
  by (simp add: survives_def to_shared_def to_native_def eq_ignore_ascii_case_def to_ascii_lowercase_def ascii_lower_def
      byte_def)

section \<open>Two names of one option\<close>

text \<open>
  A repeated assignment with another value is an error, but two names of one option are different keys: here the
  serial number of the first is silently replaced by that of the second.
\<close>

lemma two_names_one_option:
  "alias_of ''hardware_serial'' = alias_of ''usb_serial'' \<and>
   record_assignment [(''hardware_serial'', ''a'')] ''file'' ''radio'' ''usb_serial'' ''b'' =
     Inr (Some [(''hardware_serial'', ''a''), (''usb_serial'', ''b'')])"
  by code_simp

section \<open>The property\<close>

text \<open>The tuner writes a value in the spelling of a standalone file, and the resolver reads it back as the same shared
  value: every value of an enumeration that has a native spelling, and every delay up to 3276 frames, which is
  more than the 3000 that the station allows.
\<close>

theorem native_spelling_roundtrip:
  assumes "0 \<le> n" "n \<le> 3276"
  shows "survives VMilliseconds (dec_digits n) \<and>
    list_all (\<lambda>v. survives VAudio (receive_audio_source_display v)) [AudioDisabled, AudioSpeaker, AudioFlat] \<and>
    list_all (\<lambda>v. survives VCarrier (carrier_source_display v))
      [CosDisabled, CosDsp, CosVox, CosExternal, CosOpen, CosUsb, CosUsbInverted, CosParallel, CosParallelInverted] \<and>
    list_all (\<lambda>v. survives VCtcssSource (ctcss_source_display v))
      [ToneDisabled, ToneUsb, ToneUsbInverted, ToneDsp, ToneParallel, ToneParallelInverted] \<and>
    list_all (\<lambda>v. survives VOutput (hardware_output_assignment_display v))
      [OutOff, OutVoice, OutCtcss, OutVoiceCtcss, OutAuxiliaryVoice] \<and>
    list_all (\<lambda>v. survives VInterface (hardware_interface_type_display v))
      [InterfaceDudeUsb, InterfaceSphUsb, InterfaceNhrc, InterfaceCustom] \<and>
    list_all (\<lambda>v. survives VTurnoff (ctcss_turnoff_mode_display v))
      [TurnoffNone, TurnoffPhaseShift, TurnoffToneRemove, TurnoffTailTone] \<and>
    list_all (\<lambda>v. survives VDuplex (radio_duplex_mode_display v)) [DuplexHalf, DuplexFull] \<and>
    list_all (survives VNoise) [''0'', ''1''] \<and> list_all (survives VBooleanNumber) [''0'', ''1'']"
  using frames_roundtrip [OF assms] enumerations_survive by (simp only: survives_def)

theorem native_spelling_roundtrip_witness:
  "survives VMilliseconds (dec_digits 3000) \<and> survives VCarrier (carrier_source_display CosUsbInverted)"
  using native_spelling_roundtrip [of 3000] by simp

end
