(* ===== verification/Spec2Isabelle.thy ===== *)
theory Spec2Isabelle
  imports Config_Edits Profile_Safety Station_Safety Station_Text Channel_Configuration
    Remote_Configuration_Safety Handoff_Safety Pcm Controller_Text Remote_Queue_Safety
    Station_Update_Safety Reload_Transaction Adapter_Handoff Adapter_Echo Link_Processor
    Remote_Readback Remote_Request_Safety Remote_Owner_Safety Config_Repository_Safety
    Native_Safety Native_Spelling
begin

text \<open>
  A verification development of USBRadioPlus, a repeater controller and radio interface for Asterisk and for
  standalone stations. The Rust crates under \<^verbatim>\<open>src/rust\<close> are modelled; the C radio engine, the providers
  behind foreign interfaces and the terminal menus are not.

  \<^bold>\<open>The program.\<close> One text file describes a site. \<^verbatim>\<open>core\<close> parses it without losing comments, resolves every
  named channel into a typed station, three processing chains and, when it has one, a remote base, and reports what
  it did not understand as warnings. \<^verbatim>\<open>station\<close> runs a channel: two native callbacks move audio and take over new
  settings while they run. \<^verbatim>\<open>asl3\<close> connects a channel to Asterisk through a lock-free handoff, with statuses, DTMF,
  echo and hot reload. \<^verbatim>\<open>asterisk\<close> reloads all channels in one transaction. \<^verbatim>\<open>driver\<close> and \<^verbatim>\<open>remote\<close> control a
  radio over a bounded command port. \<^verbatim>\<open>tune\<close> edits the file and stores it durably.

  \<^bold>\<open>Theories and sources.\<close> A definition has the name of the code it models, where Isabelle allows it.

  \<^item> \<^verbatim>\<open>Prelude\<close>, \<^verbatim>\<open>Number_Text\<close>, \<^verbatim>\<open>Rust_Float\<close>, \<^verbatim>\<open>Float_Order\<close>, \<^verbatim>\<open>Float_Arithmetic\<close>, \<^verbatim>\<open>Transition_System\<close>,
    \<^verbatim>\<open>Bounded_Queue\<close>, \<^verbatim>\<open>Setting_Appliers\<close>: the standard library as the program uses it (UTF-8 strings as byte lists,
    ordered maps, integers and floats as text, IEEE arithmetic with round to nearest even), and the interfaces that
    several components share: an ordered map, a transition system with its invariant rule, the queue of the crossbeam
    crate, and a tolerant applier of settings.
  \<^item> \<^verbatim>\<open>Config_Document\<close>, \<^verbatim>\<open>Config_Edits\<close>: \<^verbatim>\<open>core/config_document.rs\<close>. A document is its text; a reader sees the
    assignments of a section in file order. An edit of a document whose last line ends changes the lookup of its option
    and no other.
  \<^item> \<^verbatim>\<open>Stage_Order\<close>, \<^verbatim>\<open>Processing_Profile\<close>, \<^verbatim>\<open>Profile_Resolution\<close>, \<^verbatim>\<open>Profile_Safety\<close>: \<^verbatim>\<open>core/stage_order.rs\<close>,
    \<^verbatim>\<open>processing_profile.rs\<close>, \<^verbatim>\<open>profile_resolution.rs\<close>. Every setting of a chain as a table entry; a resolved chain
    passes its validation, and a setting with an invalid value costs a warning, not the chain.
  \<^item> \<^verbatim>\<open>Station_Config\<close>, \<^verbatim>\<open>Station_Resolution\<close>, \<^verbatim>\<open>Station_Safety\<close>, \<^verbatim>\<open>Station_Text\<close>: \<^verbatim>\<open>core/station_config.rs\<close>, in the
    same way; printed values are read back.
  \<^item> \<^verbatim>\<open>Channel_Configuration\<close>: \<^verbatim>\<open>core/channel_configuration.rs\<close>, the composition of both.
  \<^item> \<^verbatim>\<open>Native_Configuration\<close>, \<^verbatim>\<open>Document_Merge\<close>, \<^verbatim>\<open>Native_Safety\<close>, \<^verbatim>\<open>Native_Spelling\<close>:
    \<^verbatim>\<open>core/native_configuration.rs\<close>, the standalone sections translated into a document of the shared ones, and the
    warnings and values translated back.
  \<^item> \<^verbatim>\<open>Remote_Configuration\<close>, \<^verbatim>\<open>Remote_Configuration_Safety\<close>: \<^verbatim>\<open>core/remote_configuration.rs\<close>, with the two
    \<open>expect\<close>s as results of their own that are shown not to occur.
  \<^item> \<^verbatim>\<open>Radio_Control\<close>: the value types of \<^verbatim>\<open>core/radio_control.rs\<close>, \<^verbatim>\<open>remote_operation.rs\<close>, \<^verbatim>\<open>native_stream.rs\<close>.
  \<^item> \<^verbatim>\<open>Loudness_Meter\<close>, \<^verbatim>\<open>Loudness_Safety\<close>: \<^verbatim>\<open>core/loudness_meter.rs\<close>; its sequence lock access by access.
  \<^item> \<^verbatim>\<open>Handoff\<close>, \<^verbatim>\<open>Handoff_Safety\<close>: \<^verbatim>\<open>asl3/handoff.rs\<close>, every atomic access of the
    endpoints and of an observer one step.
  \<^item> \<^verbatim>\<open>Pcm\<close>, \<^verbatim>\<open>Controller_Text\<close>, \<^verbatim>\<open>Link_Processor\<close>: \<^verbatim>\<open>asl3/pcm.rs\<close>, \<^verbatim>\<open>control.rs\<close>, \<^verbatim>\<open>link.rs\<close>.
  \<^item> \<^verbatim>\<open>Adapter\<close> with \<^verbatim>\<open>Adapter_Publisher\<close>, \<^verbatim>\<open>Adapter_Delivery\<close>, \<^verbatim>\<open>Adapter_Echo\<close>, \<^verbatim>\<open>Adapter_Handoff\<close>:
    \<^verbatim>\<open>asl3/adapter.rs\<close>. The specification of delivery is a list of packets; the ring of \<^verbatim>\<open>Handoff\<close> refines it.
    Both interfaces are modelled; the stream equation of the publisher is that of the fixed-rate one.
  \<^item> \<^verbatim>\<open>Station_Update\<close>, \<^verbatim>\<open>Station_Update_Safety\<close>: \<^verbatim>\<open>station/update.rs\<close>, live replacement of the settings.
  \<^item> \<^verbatim>\<open>Reload_Transaction\<close>: \<^verbatim>\<open>asterisk/host/reload.rs\<close> against a reference transaction on call histories.
  \<^item> \<^verbatim>\<open>Remote_Queue\<close>, \<^verbatim>\<open>Remote_Queue_Safety\<close>: \<^verbatim>\<open>driver/remote_base.rs\<close>, the command port and its tickets.
  \<^item> \<^verbatim>\<open>Remote_State\<close>, \<^verbatim>\<open>Remote_Operating\<close>, \<^verbatim>\<open>Remote_Operating_Safety\<close>, \<^verbatim>\<open>Remote_Readback\<close>:
    \<^verbatim>\<open>remote/configuration.rs\<close>, \<^verbatim>\<open>operating.rs\<close>, \<^verbatim>\<open>hamlib.rs\<close>. Applying a state is a fixed plan of rig calls.
  \<^item> \<^verbatim>\<open>Remote_Request\<close>, \<^verbatim>\<open>Remote_Request_Safety\<close>: \<^verbatim>\<open>driver/remote_request.rs\<close>, operands to engine requests.
  \<^item> \<^verbatim>\<open>Remote_Owner\<close>, \<^verbatim>\<open>Remote_Owner_Safety\<close>: \<^verbatim>\<open>driver/remote_owner.rs\<close>, \<^verbatim>\<open>remote_catalog.rs\<close>, the service loop.
  \<^item> \<^verbatim>\<open>Config_Repository\<close>, \<^verbatim>\<open>Config_Repository_Safety\<close>: \<^verbatim>\<open>tune/repository.rs\<close>, replacement, creation and backup of the
    file, with any call refused and other processes at work.

  \<^bold>\<open>How state and effects are modelled.\<close> A struct is a record, an enum a datatype, an error a value of a sum.
  Sequential code passes its state. Concurrent code is a step function per thread, one atomic access a step, and the
  threads interleave under sequential consistency; the weaker orderings of the source are not modelled. In
  \<^verbatim>\<open>Station_Update\<close> the callbacks and \<open>publish\<close> are split into accesses, and each other operation of the control owner is
  one step. Integers are \<open>int\<close> or \<open>nat\<close> with the limit or the wrap-around written out, and words where bits matter.

  \<^bold>\<open>Parameters.\<close> Code that is not in the repository's Rust sources is an argument: the array queue of crossbeam, the rig
  interface of Hamlib, the engine session, the device and the port that a remote owner sees, the radio session and
  the processing factory of a live update, the operations of a reload, the sample-rate converter, the program ring,
  the processing graph of a link, the loudness analyzer, and the system calls of the file repository. What is assumed
  of one stands in the hypotheses of the theorem, and a witness meets it with a concrete instance.

  \<^bold>\<open>Bounds and loops.\<close> The search for the shortest decimal of a float has 17 digits of fuel, which suffice for 64
  bits, and its exponent search 330, more than the decades below the least positive value. The generation and
  the sequence words wrap at \<open>2\<^sup>6\<^sup>4\<close>: the handoff and the meter are exact for fewer increments than that, for the
  meter \<open>2\<^sup>6\<^sup>3\<close> publications. Two loops may run for ever and are partial functions: the polling of a reload, which is
  shown to return when each sleep advances the clock, and the draining of engine completions, which is shown to return
  when they run out. All other recursion is total.

  \<^bold>\<open>What the properties show.\<close> Safety of every lock-free protocol in every interleaving, with its refinement to a queue or
  a published value; the outcomes of every resolver on every input, errors included; all-or-nothing behaviour of live
  updates, reloads and file replacement; exactly-once answers of the command port and the remote owner; which rig
  calls can be made at all; round trips of printed values, echo recordings and operating states; and the termination of
  every wait.

  \<^bold>\<open>Not modelled.\<close> The driver host, the product shell and the channel driver of Asterisk, which are callbacks of
  foreign interfaces; loading of the C providers; the audio graph around third-party filters (\<^verbatim>\<open>station/runtime.rs\<close>,
  \<^verbatim>\<open>runtime/processing.rs\<close>); ALSA, libusb and parallel-port access; the bindings to FFmpeg, libsamplerate and RNNoise;
  the native radio engine, whose sources are C; and the terminal menus. Texts of error messages are modelled only where
  other code reads them.
\<close>

end
